(* ===== verification/Go_Prelude.thy ===== *)
theory Go_Prelude
  imports Main "HOL-Library.Word"
begin

text \<open>
  What every component shares: Go's times and durations, 64-bit wrap-around, the parts of the
  standard library's \<open>strings\<close> and \<open>strconv\<close> packages that the code calls (on byte strings, as
  Go's strings are), maps with the deletion loop \<open>for k, v := range m { if p(v) { delete(m, k) } }\<close>,
  and the lemma collections the component proofs use.
\<close>

named_theorems go_time \<open>unfolding rules for clock arithmetic\<close>
named_theorems cache_frame \<open>fields that an operation of the cache leaves alone\<close>

section \<open>Times, durations and machine integers\<close>

text \<open>
  A \<open>time.Time\<close> is its distance in nanoseconds from Go's zero time, so \<open>IsZero\<close> is \<open>= 0\<close>,
  \<open>t.Before(u)\<close> is \<open>t < u\<close> and \<open>t.After(u)\<close> is \<open>u < t\<close>. A \<open>time.Duration\<close> is a count of
  nanoseconds. Clock readings (\<open>time.Now()\<close>) are arguments of the operations.
\<close>

type_synonym gotime = int
type_synonym duration = int

definition second :: duration where "second = 1000000000"
definition minute :: duration where "minute = 60 * second"
definition hour :: duration where "hour = 60 * minute"

lemmas duration_defs [go_time] = second_def minute_def hour_def

definition is_zero :: "gotime \<Rightarrow> bool" where
  "is_zero t \<longleftrightarrow> t = 0"

text \<open>Go's \<open>int64\<close> (and \<open>int\<close> on the 64-bit targets): two's complement wrap-around.\<close>

definition wrap64 :: "int \<Rightarrow> int" where
  "wrap64 x = (x + 2 ^ 63) mod 2 ^ 64 - 2 ^ 63"

definition max_int64 :: int where "max_int64 = 2 ^ 63 - 1"
definition min_int64 :: int where "min_int64 = - (2 ^ 63)"

definition in_int64 :: "int \<Rightarrow> bool" where
  "in_int64 x \<longleftrightarrow> min_int64 \<le> x \<and> x \<le> max_int64"

lemmas int64_defs = max_int64_def min_int64_def in_int64_def

lemma wrap64_id [simp]: "in_int64 x \<Longrightarrow> wrap64 x = x"
  by (simp add: wrap64_def int64_defs)

lemma wrap64_range: "in_int64 (wrap64 x)"
proof -
  have "0 \<le> (x + 2 ^ 63) mod 2 ^ 64" and "(x + 2 ^ 63) mod 2 ^ 64 < (2 ^ 64 :: int)"
    by simp_all
  then show ?thesis by (simp add: wrap64_def int64_defs)
qed

text \<open>\<open>time.Duration(n) * time.Second\<close>: the product is taken in 64 bits.\<close>

definition seconds_duration :: "int \<Rightarrow> duration" where
  "seconds_duration n = wrap64 (n * second)"

lemma seconds_duration_exact:
  "\<bar>n\<bar> \<le> 9223372036 \<Longrightarrow> seconds_duration n = n * second"
  unfolding seconds_duration_def by (rule wrap64_id) (auto simp: second_def int64_defs)

text \<open>Go's integer division truncates towards zero.\<close>

definition go_div :: "int \<Rightarrow> int \<Rightarrow> int" where
  "go_div a b = sgn a * sgn b * (\<bar>a\<bar> div \<bar>b\<bar>)"

lemma go_div_nonneg: "0 \<le> a \<Longrightarrow> 0 < b \<Longrightarrow> go_div a b = a div b"
  by (cases "a = 0") (simp_all add: go_div_def)

section \<open>Byte strings\<close>

text \<open>
  \<open>strings.TrimSpace\<close> removes leading and trailing runes of Unicode's \<open>White_Space\<close>. On UTF-8
  bytes these are six ASCII bytes, two two-byte and seventeen three-byte sequences.
\<close>

definition ascii_space :: "char \<Rightarrow> bool" where
  "ascii_space c \<longleftrightarrow> c = CHR 0x20 \<or> c = CHR 0x09 \<or> c = CHR 0x0A \<or> c = CHR 0x0B \<or> c = CHR 0x0C \<or> c = CHR 0x0D"

definition two_byte_space :: "char \<Rightarrow> char \<Rightarrow> bool" where
  "two_byte_space a b \<longleftrightarrow> a = CHR 0xC2 \<and> (b = CHR 0x85 \<or> b = CHR 0xA0)"

definition three_byte_space :: "char \<Rightarrow> char \<Rightarrow> char \<Rightarrow> bool" where
  "three_byte_space a b c \<longleftrightarrow>
     (a = CHR 0xE1 \<and> b = CHR 0x9A \<and> c = CHR 0x80) \<or>
     (a = CHR 0xE2 \<and> b = CHR 0x80 \<and>
        c \<in> set [CHR 0x80, CHR 0x81, CHR 0x82, CHR 0x83, CHR 0x84, CHR 0x85, CHR 0x86, CHR 0x87,
                 CHR 0x88, CHR 0x89, CHR 0x8A, CHR 0xA8, CHR 0xA9, CHR 0xAF]) \<or>
     (a = CHR 0xE2 \<and> b = CHR 0x81 \<and> c = CHR 0x9F) \<or>
     (a = CHR 0xE3 \<and> b = CHR 0x80 \<and> c = CHR 0x80)"

text \<open>The number of bytes of the white-space rune a string starts with; 0 when it has none.\<close>

fun space_rune :: "string \<Rightarrow> nat" where
  "space_rune [] = 0"
| "space_rune [a] = (if ascii_space a then 1 else 0)"
| "space_rune [a, b] = (if ascii_space a then 1 else if two_byte_space a b then 2 else 0)"
| "space_rune (a # b # c # s) =
     (if ascii_space a then 1 else if two_byte_space a b then 2
      else if three_byte_space a b c then 3 else 0)"

text \<open>The same at the end of a string, which is given reversed.\<close>

fun space_rune_rev :: "string \<Rightarrow> nat" where
  "space_rune_rev [] = 0"
| "space_rune_rev [a] = (if ascii_space a then 1 else 0)"
| "space_rune_rev [a, b] = (if ascii_space a then 1 else if two_byte_space b a then 2 else 0)"
| "space_rune_rev (a # b # c # s) =
     (if ascii_space a then 1 else if two_byte_space b a then 2
      else if three_byte_space c b a then 3 else 0)"

text \<open>Dropping runes from the front as long as \<open>w\<close> sees one.\<close>

function drop_runes :: "(string \<Rightarrow> nat) \<Rightarrow> string \<Rightarrow> string" where
  "drop_runes w s = (if s = [] \<or> w s = 0 then s else drop_runes w (drop (w s) s))"
  by pat_completeness auto
termination
  by (relation "measure (length \<circ> snd)") auto

declare drop_runes.simps [simp del]

definition trim_left :: "string \<Rightarrow> string" where
  "trim_left s = drop_runes space_rune s"

definition trim_right :: "string \<Rightarrow> string" where
  "trim_right s = rev (drop_runes space_rune_rev (rev s))"

definition trim_space :: "string \<Rightarrow> string" where
  "trim_space s = trim_right (trim_left s)"

lemma drop_runes_stop: "s = [] \<or> w s = 0 \<Longrightarrow> drop_runes w s = s"
  by (simp add: drop_runes.simps [of w s])

lemma drop_runes_result: "drop_runes w s = [] \<or> w (drop_runes w s) = 0"
proof (induction w s rule: drop_runes.induct)
  case (1 w s)
  then show ?case by (cases "s = [] \<or> w s = 0") (simp_all add: drop_runes.simps [of w s])
qed

lemma drop_runes_suffix: "\<exists>p. s = p @ drop_runes w s"
proof (induction w s rule: drop_runes.induct)
  case (1 w s)
  show ?case
  proof (cases "s = [] \<or> w s = 0")
    case True
    then show ?thesis by (simp add: drop_runes_stop)
  next
    case False
    with "1.IH" obtain p where p: "drop (w s) s = p @ drop_runes w (drop (w s) s)" by blast
    have "s = take (w s) s @ drop (w s) s" by simp
    with p have "s = (take (w s) s @ p) @ drop_runes w (drop (w s) s)"
      by (metis append.assoc)
    with False show ?thesis by (metis drop_runes.simps)
  qed
qed

text \<open>A white-space rune at the front of a prefix is one at the front of the whole string.\<close>

lemma space_rune_prefix: "space_rune (xs @ ys) = 0 \<Longrightarrow> space_rune xs = 0"
  by (cases xs rule: space_rune.cases; cases ys rule: space_rune.cases) (auto split: if_splits)

lemma trim_right_prefix: "\<exists>p. s = trim_right s @ p"
proof -
  obtain p where "rev s = p @ drop_runes space_rune_rev (rev s)"
    using drop_runes_suffix [of "rev s" space_rune_rev] by blast
  then have "rev (rev s) = rev (drop_runes space_rune_rev (rev s)) @ rev p"
    by (metis rev_append)
  then show ?thesis by (auto simp: trim_right_def)
qed

lemma space_rune_trim_left: "space_rune (trim_left s) = 0"
  using drop_runes_result [of space_rune s] by (auto simp: trim_left_def)

lemma space_rune_rev_trim_right: "space_rune_rev (rev (trim_right s)) = 0"
  using drop_runes_result [of space_rune_rev "rev s"] by (auto simp: trim_right_def)

lemma space_rune_trim_space: "space_rune (trim_space s) = 0"
proof -
  obtain p where "trim_left s = trim_space s @ p"
    using trim_right_prefix [of "trim_left s"] by (auto simp: trim_space_def)
  with space_rune_trim_left [of s] show ?thesis by (metis space_rune_prefix)
qed

lemma trim_space_fixed: "space_rune s = 0 \<Longrightarrow> space_rune_rev (rev s) = 0 \<Longrightarrow> trim_space s = s"
  by (simp add: trim_space_def trim_left_def trim_right_def drop_runes_stop)

lemma trim_space_idem [simp]: "trim_space (trim_space s) = trim_space s"
proof (rule trim_space_fixed)
  show "space_rune (trim_space s) = 0" by (rule space_rune_trim_space)
  show "space_rune_rev (rev (trim_space s)) = 0"
    by (simp add: trim_space_def space_rune_rev_trim_right)
qed

lemma trim_space_Nil [simp]: "trim_space [] = []"
  by (simp add: trim_space_fixed)

text \<open>
  \<open>strings.ToLower\<close>, as far as comparisons with ASCII constants see it: ASCII letters, and the
  two non-ASCII runes whose lower case is an ASCII letter (U+0130 and U+212A). Other runes stay
  non-ASCII and are left as they are.
\<close>

definition ascii_lower :: "char \<Rightarrow> char" where
  "ascii_lower c = (if 65 \<le> (of_char c :: nat) \<and> (of_char c :: nat) \<le> 90 then char_of (of_char c + 32 :: nat) else c)"

fun to_lower :: "string \<Rightarrow> string" where
  "to_lower [] = []"
| "to_lower (a # s) =
     (case s of
        b # t \<Rightarrow>
          if a = CHR 0xC4 \<and> b = CHR 0xB0 then CHR ''i'' # to_lower t
          else (case t of
                  c # u \<Rightarrow> if a = CHR 0xE2 \<and> b = CHR 0x84 \<and> c = CHR 0xAA then CHR ''k'' # to_lower u
                           else ascii_lower a # to_lower s
                | [] \<Rightarrow> ascii_lower a # to_lower s)
      | [] \<Rightarrow> [ascii_lower a])"

text \<open>The two special runes, and lower-case strings: those \<open>to_lower\<close> leaves alone, as it does their parts.\<close>

definition dotted_I :: "string \<Rightarrow> bool" where "dotted_I s \<longleftrightarrow> take 2 s = [CHR 0xC4, CHR 0xB0]"
definition kelvin :: "string \<Rightarrow> bool" where "kelvin s \<longleftrightarrow> take 3 s = [CHR 0xE2, CHR 0x84, CHR 0xAA]"
definition upper_at :: "string \<Rightarrow> bool" where
  "upper_at s \<longleftrightarrow> ascii_lower (hd s) \<noteq> hd s \<or> dotted_I s \<or> kelvin s"

primrec lowered :: "string \<Rightarrow> bool" where
  "lowered [] \<longleftrightarrow> True"
| "lowered (c # s) \<longleftrightarrow> \<not> upper_at (c # s) \<and> lowered s"

lemma ascii_lower_idem [simp]: "ascii_lower (ascii_lower c) = ascii_lower c"
  by (auto simp: ascii_lower_def)

lemma ascii_lower_high: "128 \<le> (of_char (ascii_lower c) :: nat) \<Longrightarrow> ascii_lower c = c"
  by (auto simp: ascii_lower_def split: if_splits)

lemma to_lower_Cons:
  "to_lower (a # s) = (if dotted_I (a # s) then CHR ''i'' # to_lower (drop 1 s)
     else if kelvin (a # s) then CHR ''k'' # to_lower (drop 2 s)
     else ascii_lower a # to_lower s)"
  by (cases s; cases "tl s") (simp_all add: dotted_I_def kelvin_def)

declare to_lower.simps(2) [simp del]

lemma to_lower_hd: "to_lower s = d # r \<Longrightarrow> 128 \<le> (of_char d :: nat) \<Longrightarrow> \<exists>t. s = d # t \<and> to_lower t = r"
  by (cases s) (auto simp: to_lower_Cons intro: ascii_lower_high [symmetric] split: if_splits)

lemma dotted_iff: "dotted_I s \<longleftrightarrow> (\<exists>t. s = CHR 0xC4 # CHR 0xB0 # t)"
  by (cases s; cases "tl s") (simp_all add: dotted_I_def)

lemma kelvin_iff: "kelvin s \<longleftrightarrow> (\<exists>t. s = CHR 0xE2 # CHR 0x84 # CHR 0xAA # t)"
  by (cases s; cases "tl s"; cases "tl (tl s)") (simp_all add: kelvin_def)

lemma to_lower_id: "lowered s \<Longrightarrow> to_lower s = s"
  by (induction s) (simp_all add: to_lower_Cons upper_at_def)

lemma lowered_append1: "lowered (p @ s) \<Longrightarrow> lowered s"
  by (induction p) auto

lemma upper_at_prefix: "upper_at (c # s) \<Longrightarrow> upper_at (c # s @ q)"
  by (auto simp: upper_at_def dotted_iff kelvin_iff simp del: char.inject)

lemma lowered_append2: "lowered (s @ q) \<Longrightarrow> lowered s"
  by (induction s) (auto dest: upper_at_prefix)

lemma lowered_trim: "lowered s \<Longrightarrow> lowered (trim_space s)"
proof -
  assume l: "lowered s"
  obtain p where "s = p @ trim_left s" using drop_runes_suffix [of s space_rune] by (auto simp: trim_left_def)
  with l have "lowered (trim_left s)" by (metis lowered_append1)
  moreover obtain q where "trim_left s = trim_space s @ q"
    using trim_right_prefix [of "trim_left s"] by (auto simp: trim_space_def)
  ultimately show ?thesis by (metis lowered_append2)
qed

lemma plain_not_upper:
  "\<not> upper_at (CHR ''i'' # s)" "\<not> upper_at (CHR ''k'' # s)"
  by (simp_all add: upper_at_def dotted_iff kelvin_iff ascii_lower_def)

lemma lowered_head: "\<not> dotted_I (a # s) \<Longrightarrow> \<not> kelvin (a # s) \<Longrightarrow> \<not> upper_at (ascii_lower a # to_lower s)"
proof
  assume n: "\<not> dotted_I (a # s)" "\<not> kelvin (a # s)" and u: "upper_at (ascii_lower a # to_lower s)"
  show False
  proof (cases "dotted_I (ascii_lower a # to_lower s)")
    case True
    then obtain r where r: "ascii_lower a = CHR 0xC4" "to_lower s = CHR 0xB0 # r" unfolding dotted_iff by blast
    have "a = CHR 0xC4" using ascii_lower_high [of a] r(1) by simp
    moreover obtain t where "s = CHR 0xB0 # t" using to_lower_hd [OF r(2)] by auto
    ultimately show False using n(1) unfolding dotted_iff by blast
  next
    case False
    then have "kelvin (ascii_lower a # to_lower s)" using u by (simp add: upper_at_def)
    then obtain r where r: "ascii_lower a = CHR 0xE2" "to_lower s = CHR 0x84 # CHR 0xAA # r" unfolding kelvin_iff by blast
    have "a = CHR 0xE2" using ascii_lower_high [of a] r(1) by simp
    moreover obtain t where t: "s = CHR 0x84 # t" "to_lower t = CHR 0xAA # r" using to_lower_hd [OF r(2)] by auto
    moreover obtain u where "t = CHR 0xAA # u" using to_lower_hd [OF t(2)] by auto
    ultimately show False using n(2) unfolding kelvin_iff by blast
  qed
qed

lemma lowered_to_lower: "lowered (to_lower s)"
proof (induction s rule: length_induct)
  case (1 s)
  show ?case
  proof (cases s)
    case (Cons a t)
    have "lowered (to_lower t)" "lowered (to_lower (drop 1 t))" "lowered (to_lower (drop 2 t))"
      using 1 Cons by auto
    then show ?thesis by (simp add: Cons to_lower_Cons plain_not_upper lowered_head)
  qed simp
qed

lemma to_lower_idem [simp]: "to_lower (to_lower s) = to_lower s"
  by (simp add: to_lower_id lowered_to_lower)

definition equal_fold_ascii :: "string \<Rightarrow> string \<Rightarrow> bool" where
  "equal_fold_ascii s t \<longleftrightarrow> to_lower s = to_lower t"

definition contains_char :: "char \<Rightarrow> string \<Rightarrow> bool" where
  "contains_char c s \<longleftrightarrow> c \<in> set s"

definition has_prefix :: "string \<Rightarrow> string \<Rightarrow> bool" where
  "has_prefix s p \<longleftrightarrow> take (length p) s = p"

text \<open>\<open>strings.ReplaceAll(s, old, new)\<close> for one-byte \<open>old\<close> and \<open>new\<close>.\<close>

definition replace_char :: "char \<Rightarrow> char \<Rightarrow> string \<Rightarrow> string" where
  "replace_char old new s = map (\<lambda>c. if c = old then new else c) s"

text \<open>\<open>strings.TrimRight(s, cutset)\<close> for a one-byte cutset.\<close>

definition trim_right_char :: "char \<Rightarrow> string \<Rightarrow> string" where
  "trim_right_char c s = rev (dropWhile (\<lambda>x. x = c) (rev s))"

text \<open>
  \<open>[]rune(s)\<close>: the runes of a string, each as its UTF-8 bytes; a byte that starts no valid
  encoding becomes U+FFFD, whose encoding is EF BF BD.
\<close>

definition byte_between :: "nat \<Rightarrow> nat \<Rightarrow> char \<Rightarrow> bool" where
  "byte_between lo hi c \<longleftrightarrow> lo \<le> of_char c \<and> of_char c \<le> hi"

definition rune_size :: "string \<Rightarrow> nat" where
  "rune_size s = (case s of [] \<Rightarrow> 0 | a # s1 \<Rightarrow>
     if byte_between 0 127 a then 1 else
     (case s1 of [] \<Rightarrow> 0 | b # s2 \<Rightarrow>
       if byte_between 194 223 a \<and> byte_between 128 191 b then 2 else
       (case s2 of [] \<Rightarrow> 0 | c # s3 \<Rightarrow>
         if byte_between 224 239 a \<and> byte_between 128 191 c \<and>
            byte_between (if of_char a = (224::nat) then 160 else 128) (if of_char a = (237::nat) then 159 else 191) b
         then 3 else
         (case s3 of [] \<Rightarrow> 0 | d # s4 \<Rightarrow>
           if byte_between 240 244 a \<and> byte_between 128 191 c \<and> byte_between 128 191 d \<and>
              byte_between (if of_char a = (240::nat) then 144 else 128) (if of_char a = (244::nat) then 143 else 191) b
           then 4 else 0))))"

fun utf8_runes :: "string \<Rightarrow> string list" where
  "utf8_runes [] = []"
| "utf8_runes (a # s) =
     (case rune_size (a # s) of
        0 \<Rightarrow> [CHR 0xEF, CHR 0xBF, CHR 0xBD] # utf8_runes s
      | Suc n \<Rightarrow> (a # take n s) # utf8_runes (drop n s))"

section \<open>Decimal numbers\<close>

definition digit_char :: "nat \<Rightarrow> char" where
  "digit_char d = char_of (48 + d)"

definition is_digit :: "char \<Rightarrow> bool" where
  "is_digit c \<longleftrightarrow> 48 \<le> (of_char c :: nat) \<and> (of_char c :: nat) \<le> 57"

definition digit_val :: "char \<Rightarrow> nat" where
  "digit_val c = of_char c - 48"

fun show_nat :: "nat \<Rightarrow> string" where
  "show_nat n = (if n < 10 then [digit_char n] else show_nat (n div 10) @ [digit_char (n mod 10)])"

declare show_nat.simps [simp del]

text \<open>\<open>strconv.FormatInt(n, 10)\<close>.\<close>

definition format_int :: "int \<Rightarrow> string" where
  "format_int n = (if n < 0 then CHR ''-'' # show_nat (nat (- n)) else show_nat (nat n))"

definition read_nat :: "string \<Rightarrow> nat" where
  "read_nat s = foldl (\<lambda>a c. 10 * a + digit_val c) 0 s"

text \<open>
  The value \<open>strconv.ParseInt(s, 10, 64)\<close> returns (its error is dropped by the callers): 0 on a
  syntax error, the nearest 64-bit value on a range error.
\<close>

definition clamp_int64 :: "int \<Rightarrow> int" where
  "clamp_int64 n = (if n < min_int64 then min_int64 else if max_int64 < n then max_int64 else n)"

definition parse_int :: "string \<Rightarrow> int" where
  "parse_int s =
     (let (neg, ds) = (case s of
          c # t \<Rightarrow> if c = CHR ''-'' then (True, t) else if c = CHR ''+'' then (False, t) else (False, s)
        | [] \<Rightarrow> (False, []))
      in if ds = [] \<or> \<not> list_all is_digit ds then 0
         else clamp_int64 (if neg then - int (read_nat ds) else int (read_nat ds)))"

lemma is_digit_digit_char: "d < 10 \<Longrightarrow> is_digit (digit_char d)"
  by (simp add: is_digit_def digit_char_def)

lemma digit_val_digit_char: "d < 10 \<Longrightarrow> digit_val (digit_char d) = d"
  by (simp add: digit_val_def digit_char_def)

lemma show_nat_digits: "list_all is_digit (show_nat n)"
proof (induction n rule: show_nat.induct)
  case (1 n)
  then show ?case by (simp add: show_nat.simps [of n] is_digit_digit_char)
qed

lemma show_nat_nonempty [simp]: "show_nat n \<noteq> []"
  by (simp add: show_nat.simps [of n])

lemma read_nat_snoc: "read_nat (s @ [c]) = 10 * read_nat s + digit_val c"
  by (simp add: read_nat_def)

lemma read_show_nat [simp]: "read_nat (show_nat n) = n"
proof (induction n rule: show_nat.induct)
  case (1 n)
  show ?case
  proof (cases "n < 10")
    case True
    then show ?thesis by (simp add: show_nat.simps [of n] read_nat_def digit_val_digit_char)
  next
    case False
    then have "read_nat (show_nat n) = 10 * (n div 10) + n mod 10"
      using "1.IH" by (simp add: show_nat.simps [of n] read_nat_snoc digit_val_digit_char)
    then show ?thesis by simp
  qed
qed

lemma show_nat_inj [simp]: "show_nat m = show_nat n \<longleftrightarrow> m = n"
  by (metis read_show_nat)

lemma show_nat_no_char: "\<not> is_digit c \<Longrightarrow> c \<notin> set (show_nat n)"
  using show_nat_digits [of n] by (auto simp: list_all_iff)

lemma not_digit_colon [simp]: "\<not> is_digit (CHR '':'')"
  by (simp add: is_digit_def)

lemma not_digit_minus [simp]: "\<not> is_digit (CHR ''-'')"
  by (simp add: is_digit_def)

lemma digit_not_space: "is_digit c \<Longrightarrow> \<not> ascii_space c"
  by (auto simp: is_digit_def ascii_space_def)

lemma digit_not_wide:
  "is_digit a \<Longrightarrow> \<not> two_byte_space a b"  "is_digit b \<Longrightarrow> \<not> two_byte_space a b"
  "is_digit a \<Longrightarrow> \<not> three_byte_space a b c"  "is_digit c \<Longrightarrow> \<not> three_byte_space a b c"
  by (auto simp: is_digit_def two_byte_space_def three_byte_space_def)

lemma space_rune_digit: "is_digit a \<Longrightarrow> space_rune (a # s) = 0"
  by (cases "a # s" rule: space_rune.cases) (simp_all add: digit_not_space digit_not_wide)

lemma space_rune_rev_digit: "is_digit a \<Longrightarrow> space_rune_rev (a # s) = 0"
  by (cases "a # s" rule: space_rune_rev.cases) (simp_all add: digit_not_space digit_not_wide)

lemma trim_show_nat [simp]: "trim_space (show_nat n) = show_nat n"
proof (rule trim_space_fixed)
  obtain a s where s: "show_nat n = a # s" using show_nat_nonempty [of n] by (cases "show_nat n") auto
  then have "is_digit a" using show_nat_digits [of n] by simp
  with s show "space_rune (show_nat n) = 0" by (simp add: space_rune_digit)
  obtain b t where t: "rev (show_nat n) = b # t"
    using show_nat_nonempty [of n] by (cases "rev (show_nat n)") auto
  then have "b \<in> set (show_nat n)" by (metis list.set_intros(1) set_rev)
  then have "is_digit b" using show_nat_digits [of n] by (simp add: list_all_iff)
  with t show "space_rune_rev (rev (show_nat n)) = 0" by (simp add: space_rune_rev_digit)
qed

text \<open>A separator that occurs on neither side splits a string in one way only.\<close>

lemma split_at_char_inj:
  "a @ c # s = b @ c # t \<Longrightarrow> c \<notin> set a \<Longrightarrow> c \<notin> set b \<Longrightarrow> a = b \<and> s = t"
proof (induction a arbitrary: b)
  case Nil
  then show ?case by (cases b) auto
next
  case (Cons x a)
  then show ?case by (cases b) auto
qed

lemma split_at_last_char_inj:
  assumes "a @ c # s = b @ c # t" and "c \<notin> set s" and "c \<notin> set t"
  shows "a = b \<and> s = t"
proof -
  have "rev s @ c # rev a = rev t @ c # rev b"
    using arg_cong [OF assms(1), of rev] by simp
  with assms(2,3) split_at_char_inj [of "rev s" c "rev a" "rev t" "rev b"]
  show ?thesis by simp
qed

section \<open>Maps\<close>

text \<open>\<open>for k, v := range m { if p(v) { delete(m, k) } }\<close>.\<close>

definition delete_if :: "('v \<Rightarrow> bool) \<Rightarrow> ('k \<rightharpoonup> 'v) \<Rightarrow> ('k \<rightharpoonup> 'v)" where
  "delete_if p m = (\<lambda>k. case m k of None \<Rightarrow> None | Some v \<Rightarrow> if p v then None else Some v)"

lemma delete_if_apply: "delete_if p m k = (case m k of None \<Rightarrow> None | Some v \<Rightarrow> if p v then None else Some v)"
  by (simp add: delete_if_def)

lemma delete_if_Some [simp]: "delete_if p m k = Some v \<longleftrightarrow> m k = Some v \<and> \<not> p v"
  by (auto simp: delete_if_apply split: option.splits)

lemma delete_if_None: "delete_if p m k = None \<longleftrightarrow> (\<forall>v. m k = Some v \<longrightarrow> p v)"
  by (auto simp: delete_if_apply split: option.splits)

lemma delete_if_empty [simp]: "delete_if p Map.empty = Map.empty"
  by (rule ext) (simp add: delete_if_apply)

lemma dom_delete_if: "dom (delete_if p m) \<subseteq> dom m"
  by (auto simp: dom_def)

text \<open>Go's \<open>m[k]\<close> on a missing key: the element type's zero value.\<close>

definition map_get :: "('k \<rightharpoonup> 'v) \<Rightarrow> 'v \<Rightarrow> 'k \<Rightarrow> 'v" where
  "map_get m z k = (case m k of None \<Rightarrow> z | Some v \<Rightarrow> v)"

lemma map_get_simps [simp]:
  "m k = None \<Longrightarrow> map_get m z k = z"
  "m k = Some v \<Longrightarrow> map_get m z k = v"
  by (simp_all add: map_get_def)

definition map_del :: "'k \<Rightarrow> ('k \<rightharpoonup> 'v) \<Rightarrow> ('k \<rightharpoonup> 'v)" where
  "map_del k m = m(k := None)"

lemma map_del_simps [simp]:
  "map_del k m k = None"
  "k' \<noteq> k \<Longrightarrow> map_del k m k' = m k'"
  by (simp_all add: map_del_def)

section \<open>Ledgers\<close>

text \<open>
  A store whose operations bring in and give out amounts (jobs, money): the laws of one operation,
  and what follows for every run of operations that respect the preconditions \<open>ok\<close>.
\<close>

primrec steps_ok :: "('op \<Rightarrow> 's \<Rightarrow> 's) \<Rightarrow> ('s \<Rightarrow> 'op \<Rightarrow> bool) \<Rightarrow> 's \<Rightarrow> 'op list \<Rightarrow> bool" where
  "steps_ok step ok s [] \<longleftrightarrow> True"
| "steps_ok step ok s (x # xs) \<longleftrightarrow> ok s x \<and> steps_ok step ok (step x s) xs"

primrec sum_steps :: "('op \<Rightarrow> 's \<Rightarrow> 's) \<Rightarrow> ('s \<Rightarrow> 'op \<Rightarrow> 'a::comm_monoid_add) \<Rightarrow> 's \<Rightarrow> 'op list \<Rightarrow> 'a" where
  "sum_steps step amount s [] = 0"
| "sum_steps step amount s (x # xs) = amount s x + sum_steps step amount (step x s) xs"

locale ledger =
  fixes step :: "'op \<Rightarrow> 's \<Rightarrow> 's"
    and inv :: "'s \<Rightarrow> bool"
    and ok :: "'s \<Rightarrow> 'op \<Rightarrow> bool"
    and stock :: "'s \<Rightarrow> 'a::comm_monoid_add"
    and gain :: "'s \<Rightarrow> 'op \<Rightarrow> 'a"
    and loss :: "'s \<Rightarrow> 'op \<Rightarrow> 'a"
  assumes step_inv: "inv s \<Longrightarrow> ok s x \<Longrightarrow> inv (step x s)"
    and step_balance: "inv s \<Longrightarrow> ok s x \<Longrightarrow> stock s + gain s x = stock (step x s) + loss s x"
begin

lemma run_inv: "inv s \<Longrightarrow> steps_ok step ok s xs \<Longrightarrow> inv (fold step xs s)"
  by (induction xs arbitrary: s) (auto intro: step_inv)

lemma run_balance:
  "inv s \<Longrightarrow> steps_ok step ok s xs \<Longrightarrow>
     stock s + sum_steps step gain s xs = stock (fold step xs s) + sum_steps step loss s xs"
proof (induction xs arbitrary: s)
  case Nil
  then show ?case by simp
next
  case (Cons x xs)
  let ?t = "step x s"
  have "stock ?t + sum_steps step gain ?t xs = stock (fold step xs ?t) + sum_steps step loss ?t xs"
    using Cons.prems by (intro Cons.IH) (auto intro: step_inv)
  moreover have "stock s + gain s x = stock ?t + loss s x"
    using Cons.prems by (intro step_balance) auto
  ultimately show ?case by (simp add: ac_simps) (metis add.assoc add.commute)
qed

end

end
