(* ===== verification/Cache_State.thy ===== *)
theory Cache_State
  imports Go_Prelude
begin

text \<open>
  The in-process cache of a single-node deployment
  (\<open>src/backend/internal/infra/cache/memory\<close>): its data (\<open>cache.go\<close> and the types of the other
  files) and the periodic sweep of \<open>maintenance.go\<close>. One mutex guards the whole cache, so each
  exported method is one atomic step on the state below; the methods stand in the theories named
  after their files. The receiver is the cache that \<open>New\<close> built, so \<open>c == nil\<close> never holds.
  A notification channel is modelled by the number of times it was closed and replaced: a
  goroutine that waits on channel number \<open>n\<close> is woken exactly when the number is no longer \<open>n\<close>.
\<close>

section \<open>Data\<close>

subsection \<open>Channel state: circuits, upstream metadata, rate limits, key counters\<close>

record circuit_state =
  openUntil :: gotime
  probeUntil :: gotime
  failures :: "gotime list"
  manualOpen :: bool
  lastFailure :: gotime

definition new_circuit :: circuit_state where
  "new_circuit = \<lparr>openUntil = 0, probeUntil = 0, failures = [], manualOpen = False, lastFailure = 0\<rparr>"

record upstream_metadata =
  meta_lastError :: string
  meta_lastFailure :: gotime
  meta_lastSuccess :: gotime

record rate_limit_state =
  backoffUntil :: gotime
  backoffCount :: int
  countExpires :: gotime

record api_key_counter =
  key_next :: int
  key_lastUsed :: gotime

type_synonym route_rate_limit_key = "nat \<times> nat"

subsection \<open>File queues\<close>

record file_message =
  msg_ID :: string
  msg_UserID :: nat
  msg_FileID :: string
  msg_Retry :: int
  msg_LastError :: string
  msg_Reclaimed :: bool
  msg_Kind :: string
  msg_Queue :: string
  msg_EmbeddingSignature :: string
  msg_EmbeddingHost :: string

record file_lease =
  consumerName :: string
  leasedAt :: gotime
  lease_message :: file_message

record file_queue_state =
  fq_queue :: "file_message list"
  inflight :: "string \<rightharpoonup> file_lease"
  dlq :: "file_message list"
  fq_notify :: nat

definition new_file_queue_state :: file_queue_state where
  "new_file_queue_state = \<lparr>fq_queue = [], inflight = Map.empty, dlq = [], fq_notify = 0\<rparr>"

subsection \<open>Generation streams\<close>

record stream_message =
  ev_ID :: string
  ev_Seq :: int
  ev_PayloadJSON :: string

record generation_stream =
  ownerID :: nat
  executionID :: string
  conversationID :: string
  ownerExpiresAt :: gotime
  activeExpiresAt :: gotime
  cancelExpiresAt :: gotime
  eventsExpiresAt :: gotime
  st_seq :: int
  events :: "stream_message list"
  textContent :: string
  textSeq :: int
  upstreamThinkContent :: string
  upstreamThinkSeq :: int
  upstreamThinkRoundID :: string
  upstreamThinkMetadata :: string
  st_notify :: nat

definition new_stream :: generation_stream where
  "new_stream = \<lparr>ownerID = 0, executionID = [], conversationID = [], ownerExpiresAt = 0,
     activeExpiresAt = 0, cancelExpiresAt = 0, eventsExpiresAt = 0, st_seq = 0, events = [],
     textContent = [], textSeq = 0, upstreamThinkContent = [], upstreamThinkSeq = 0,
     upstreamThinkRoundID = [], upstreamThinkMetadata = [], st_notify = 0\<rparr>"

definition ownerExpired :: "generation_stream \<Rightarrow> gotime \<Rightarrow> bool" where
  "ownerExpired s now \<longleftrightarrow> is_zero (ownerExpiresAt s) \<or> ownerExpiresAt s < now"

definition activeExpired :: "generation_stream \<Rightarrow> gotime \<Rightarrow> bool" where
  "activeExpired s now \<longleftrightarrow> is_zero (activeExpiresAt s) \<or> activeExpiresAt s < now"

definition cancelExpired :: "generation_stream \<Rightarrow> gotime \<Rightarrow> bool" where
  "cancelExpired s now \<longleftrightarrow> is_zero (cancelExpiresAt s) \<or> cancelExpiresAt s < now"

definition eventsExpired :: "generation_stream \<Rightarrow> gotime \<Rightarrow> bool" where
  "eventsExpired s now \<longleftrightarrow> is_zero (eventsExpiresAt s) \<or> eventsExpiresAt s < now"

lemmas expired_defs = ownerExpired_def activeExpired_def cancelExpired_def eventsExpired_def is_zero_def

subsection \<open>Keyed stores and rate limiters\<close>

record expiring_string =
  es_value :: string
  es_expiresAt :: gotime

record rag_chunk =
  rag_Content :: string
  rag_FileName :: string
  rag_FileID :: string
  rag_ChunkIndex :: int
  rag_Score :: "32 word" \<comment> \<open>the bits of the \<open>float32\<close>, which the cache only copies\<close>

record expiring_rag =
  er_chunks :: "rag_chunk list"
  er_expiresAt :: gotime

record fixed_window_counter =
  fw_count :: int
  fw_expiresAt :: gotime

record provider_auth_transaction =
  pat_ProviderSlug :: string
  pat_ClientID :: string
  pat_ClientRedirectURI :: string
  pat_ClientState :: string
  pat_ClientCodeChallenge :: string
  pat_ProviderCodeVerifier :: string
  pat_Intent :: string
  pat_Next :: string
  pat_ExpiresAt :: gotime

record provider_auth_grant =
  pag_ProviderSlug :: string
  pag_ClientID :: string
  pag_UserID :: nat
  pag_Subject :: string
  pag_ErrorCode :: string
  pag_ErrorMessage :: string
  pag_ErrorDetails :: string
  pag_ExpiresAt :: gotime

record expiring_transaction =
  et_value :: provider_auth_transaction
  et_expiresAt :: gotime

record expiring_grant =
  eg_value :: provider_auth_grant
  eg_expiresAt :: gotime

subsection \<open>The cache\<close>

record cache =
  ops :: nat
  settings :: "string \<rightharpoonup> expiring_string"
  userSettings :: "string \<rightharpoonup> expiring_string"
  userSettingVersions :: "string \<rightharpoonup> expiring_string"
  fileSeq :: int
  fileProcessingQueue :: file_queue_state
  fileEmbeddingQueue :: file_queue_state
  rag :: "string \<rightharpoonup> expiring_rag"
  streams :: "string \<rightharpoonup> generation_stream"
  streamNotify :: nat
  upstreamCB :: "nat \<rightharpoonup> circuit_state"
  modelCB :: "string \<rightharpoonup> circuit_state"
  upstreamMeta :: "nat \<rightharpoonup> upstream_metadata"
  rateLimits :: "route_rate_limit_key \<rightharpoonup> rate_limit_state"
  keyCounters :: "nat \<rightharpoonup> api_key_counter"
  slidingHTTP :: "string \<rightharpoonup> gotime list"
  fixedHTTP :: "string \<rightharpoonup> fixed_window_counter"
  providerAuthTransactions :: "string \<rightharpoonup> expiring_transaction"
  providerAuthGrants :: "string \<rightharpoonup> expiring_grant"

definition new_cache :: cache where
  "new_cache = \<lparr>ops = 0, settings = Map.empty, userSettings = Map.empty,
     userSettingVersions = Map.empty, fileSeq = 0,
     fileProcessingQueue = new_file_queue_state, fileEmbeddingQueue = new_file_queue_state,
     rag = Map.empty, streams = Map.empty, streamNotify = 0, upstreamCB = Map.empty,
     modelCB = Map.empty, upstreamMeta = Map.empty, rateLimits = Map.empty,
     keyCounters = Map.empty, slidingHTTP = Map.empty, fixedHTTP = Map.empty,
     providerAuthTransactions = Map.empty, providerAuthGrants = Map.empty\<rparr>"

definition ttlFromNow :: "gotime \<Rightarrow> duration \<Rightarrow> gotime" where
  "ttlFromNow now ttl = (if ttl \<le> 0 then now + minute else now + ttl)"

definition expired :: "gotime \<Rightarrow> gotime \<Rightarrow> bool" where
  "expired now t \<longleftrightarrow> \<not> is_zero t \<and> t < now"

text \<open>An entry with a positive clock never expires at once: \<open>ttlFromNow\<close> is after its reading.\<close>

lemma ttlFromNow_gt: "now < ttlFromNow now ttl"
  by (simp add: ttlFromNow_def go_time)

lemma ttlFromNow_pos: "0 \<le> now \<Longrightarrow> 0 < ttlFromNow now ttl"
  using ttlFromNow_gt [of now ttl] by simp

section \<open>Maintenance\<close>

definition circuitProbeTTL :: duration where "circuitProbeTTL = 30 * second"
definition circuitManualOpenDuration :: duration where "circuitManualOpenDuration = 24 * hour"
definition maintenanceInterval :: nat where "maintenanceInterval = 256"
definition slidingWindowRetention :: duration where "slidingWindowRetention = 10 * minute"
definition circuitMetadataRetention :: duration where "circuitMetadataRetention = 30 * minute"
definition circuitStateRetention :: duration where "circuitStateRetention = 2 * hour"
definition keyCounterRetention :: duration where "keyCounterRetention = 24 * hour"

lemmas retention_defs [go_time] = circuitProbeTTL_def circuitManualOpenDuration_def
  slidingWindowRetention_def circuitMetadataRetention_def circuitStateRetention_def
  keyCounterRetention_def

definition circuitStateExpired :: "circuit_state \<Rightarrow> gotime \<Rightarrow> bool" where
  "circuitStateExpired st now \<longleftrightarrow>
     (if \<not> is_zero (openUntil st) \<and> now < openUntil st + circuitProbeTTL then False
      else if now < probeUntil st then False
      else if \<not> is_zero (lastFailure st) \<and> now < lastFailure st + circuitStateRetention then False
      else True)"

definition latest :: "gotime \<Rightarrow> gotime \<Rightarrow> gotime" where
  "latest a b = (if b < a then a else b)"

text \<open>The sliding windows keep the events of the retention period and go when none is left.\<close>

definition sweep_sliding :: "gotime \<Rightarrow> (string \<rightharpoonup> gotime list) \<Rightarrow> (string \<rightharpoonup> gotime list)" where
  "sweep_sliding cutoff m = (\<lambda>k. case m k of None \<Rightarrow> None
     | Some evs \<Rightarrow> let kept = filter (\<lambda>t. cutoff < t) evs in if kept = [] then None else Some kept)"

definition metadata_stale :: "gotime \<Rightarrow> upstream_metadata \<Rightarrow> bool" where
  "metadata_stale now item \<longleftrightarrow>
     \<not> (is_zero (meta_lastFailure item) \<and> is_zero (meta_lastSuccess item)) \<and>
     latest (meta_lastFailure item) (meta_lastSuccess item) < now - circuitMetadataRetention"

definition stream_dead :: "gotime \<Rightarrow> generation_stream \<Rightarrow> bool" where
  "stream_dead now s \<longleftrightarrow> ownerExpired s now \<and> activeExpired s now \<and> cancelExpired s now \<and> eventsExpired s now"

definition sweepExpiredLocked :: "gotime \<Rightarrow> cache \<Rightarrow> cache" where
  "sweepExpiredLocked now c = c\<lparr>
     settings := delete_if (\<lambda>i. es_expiresAt i < now) (settings c),
     userSettings := delete_if (\<lambda>i. es_expiresAt i < now) (userSettings c),
     userSettingVersions := delete_if (\<lambda>i. es_expiresAt i < now) (userSettingVersions c),
     rag := delete_if (\<lambda>i. er_expiresAt i < now) (rag c),
     streams := delete_if (stream_dead now) (streams c),
     fixedHTTP := delete_if (\<lambda>i. fw_expiresAt i < now) (fixedHTTP c),
     providerAuthTransactions := delete_if (\<lambda>i. et_expiresAt i < now) (providerAuthTransactions c),
     providerAuthGrants := delete_if (\<lambda>i. eg_expiresAt i < now) (providerAuthGrants c),
     slidingHTTP := sweep_sliding (now - slidingWindowRetention) (slidingHTTP c),
     rateLimits := delete_if (\<lambda>i. backoffUntil i < now \<and> countExpires i < now) (rateLimits c),
     upstreamMeta := delete_if (metadata_stale now) (upstreamMeta c),
     upstreamCB := delete_if (\<lambda>st. circuitStateExpired st now) (upstreamCB c),
     modelCB := delete_if (\<lambda>st. circuitStateExpired st now) (modelCB c),
     keyCounters := delete_if (\<lambda>i. key_lastUsed i < now - keyCounterRetention) (keyCounters c)\<rparr>"

definition maybeSweepLocked :: "gotime \<Rightarrow> cache \<Rightarrow> cache" where
  "maybeSweepLocked now c =
     (let c' = c\<lparr>ops := Suc (ops c)\<rparr> in
      if ops c' mod maintenanceInterval \<noteq> 0 then c' else sweepExpiredLocked now c')"

subsection \<open>What a sweep can change\<close>

text \<open>
  The file queues, the stream notification and the counters are never swept. Every other map
  keeps its live entries and gains none.
\<close>

lemma maybeSweep_frame [simp, cache_frame]:
  "fileSeq (maybeSweepLocked now c) = fileSeq c"
  "fileProcessingQueue (maybeSweepLocked now c) = fileProcessingQueue c"
  "fileEmbeddingQueue (maybeSweepLocked now c) = fileEmbeddingQueue c"
  "streamNotify (maybeSweepLocked now c) = streamNotify c"
  "ops (maybeSweepLocked now c) = Suc (ops c)"
  by (simp_all add: maybeSweepLocked_def sweepExpiredLocked_def Let_def)

lemma maybeSweep_upstreamCB:
  "upstreamCB (maybeSweepLocked now c) u = Some st \<Longrightarrow> upstreamCB c u = Some st"
  "upstreamCB c u = Some st \<Longrightarrow> \<not> circuitStateExpired st now \<Longrightarrow>
     upstreamCB (maybeSweepLocked now c) u = Some st"
  by (auto simp: maybeSweepLocked_def sweepExpiredLocked_def Let_def split: if_splits)

lemma maybeSweep_modelCB:
  "modelCB (maybeSweepLocked now c) k = Some st \<Longrightarrow> modelCB c k = Some st"
  "modelCB c k = Some st \<Longrightarrow> \<not> circuitStateExpired st now \<Longrightarrow>
     modelCB (maybeSweepLocked now c) k = Some st"
  by (auto simp: maybeSweepLocked_def sweepExpiredLocked_def Let_def split: if_splits)

lemma maybeSweep_streams:
  "streams (maybeSweepLocked now c) k = Some s \<Longrightarrow> streams c k = Some s"
  "streams c k = Some s \<Longrightarrow> \<not> stream_dead now s \<Longrightarrow> streams (maybeSweepLocked now c) k = Some s"
  by (auto simp: maybeSweepLocked_def sweepExpiredLocked_def Let_def split: if_splits)

lemma maybeSweep_streams_None:
  "streams (maybeSweepLocked now c) k = None \<Longrightarrow> streams c k = Some s \<Longrightarrow> stream_dead now s"
  by (auto simp: maybeSweepLocked_def sweepExpiredLocked_def Let_def delete_if_None split: if_splits)

lemma maybeSweep_rateLimits:
  "rateLimits (maybeSweepLocked now c) k = Some r \<Longrightarrow> rateLimits c k = Some r"
  "rateLimits c k = Some r \<Longrightarrow> \<not> (backoffUntil r < now \<and> countExpires r < now) \<Longrightarrow>
     rateLimits (maybeSweepLocked now c) k = Some r"
  by (auto simp: maybeSweepLocked_def sweepExpiredLocked_def Let_def split: if_splits)

lemma maybeSweep_keyCounters:
  "keyCounters (maybeSweepLocked now c) k = Some r \<Longrightarrow> keyCounters c k = Some r"
  "keyCounters c k = Some r \<Longrightarrow> \<not> key_lastUsed r < now - keyCounterRetention \<Longrightarrow>
     keyCounters (maybeSweepLocked now c) k = Some r"
  by (auto simp: maybeSweepLocked_def sweepExpiredLocked_def Let_def split: if_splits)

lemma maybeSweep_fixedHTTP:
  "fixedHTTP (maybeSweepLocked now c) k = Some r \<Longrightarrow> fixedHTTP c k = Some r"
  "fixedHTTP c k = Some r \<Longrightarrow> \<not> fw_expiresAt r < now \<Longrightarrow> fixedHTTP (maybeSweepLocked now c) k = Some r"
  by (auto simp: maybeSweepLocked_def sweepExpiredLocked_def Let_def split: if_splits)

lemma maybeSweep_slidingHTTP:
  "slidingHTTP (maybeSweepLocked now c) = slidingHTTP c \<or>
   slidingHTTP (maybeSweepLocked now c) = sweep_sliding (now - slidingWindowRetention) (slidingHTTP c)"
  by (auto simp: maybeSweepLocked_def sweepExpiredLocked_def Let_def)

lemma maybeSweep_strings:
  "settings (maybeSweepLocked now c) k = Some r \<Longrightarrow> settings c k = Some r"
  "settings c k = Some r \<Longrightarrow> \<not> es_expiresAt r < now \<Longrightarrow> settings (maybeSweepLocked now c) k = Some r"
  "userSettings (maybeSweepLocked now c) k = Some r \<Longrightarrow> userSettings c k = Some r"
  "userSettings c k = Some r \<Longrightarrow> \<not> es_expiresAt r < now \<Longrightarrow> userSettings (maybeSweepLocked now c) k = Some r"
  "userSettingVersions (maybeSweepLocked now c) k = Some r \<Longrightarrow> userSettingVersions c k = Some r"
  "userSettingVersions c k = Some r \<Longrightarrow> \<not> es_expiresAt r < now \<Longrightarrow>
     userSettingVersions (maybeSweepLocked now c) k = Some r"
  by (auto simp: maybeSweepLocked_def sweepExpiredLocked_def Let_def split: if_splits)

lemma maybeSweep_bridge:
  "providerAuthTransactions (maybeSweepLocked now c) k = Some t \<Longrightarrow> providerAuthTransactions c k = Some t"
  "providerAuthTransactions c k = Some t \<Longrightarrow> \<not> et_expiresAt t < now \<Longrightarrow>
     providerAuthTransactions (maybeSweepLocked now c) k = Some t"
  "providerAuthGrants (maybeSweepLocked now c) k = Some g \<Longrightarrow> providerAuthGrants c k = Some g"
  "providerAuthGrants c k = Some g \<Longrightarrow> \<not> eg_expiresAt g < now \<Longrightarrow>
     providerAuthGrants (maybeSweepLocked now c) k = Some g"
  by (auto simp: maybeSweepLocked_def sweepExpiredLocked_def Let_def split: if_splits)

lemma maybeSweep_rag:
  "rag (maybeSweepLocked now c) k = Some r \<Longrightarrow> rag c k = Some r"
  "rag c k = Some r \<Longrightarrow> \<not> er_expiresAt r < now \<Longrightarrow> rag (maybeSweepLocked now c) k = Some r"
  by (auto simp: maybeSweepLocked_def sweepExpiredLocked_def Let_def split: if_splits)

end
