(* ===== verification/Keyed_Stores.thy ===== *)
theory Keyed_Stores
  imports Cache_State
begin

text \<open>
  The keyed stores of the in-process cache: settings (\<open>memory/settings.go\<close>), versioned user
  settings (\<open>memory/user_settings.go\<close>), retrieval results (\<open>memory/rag.go\<close>) and the one-time
  records of the provider login bridge (\<open>memory/provider_auth_bridge.go\<close>). Where a method reads
  the clock twice, the model takes both readings.
\<close>

section \<open>Operations\<close>

definition settingsKey :: "string \<Rightarrow> string \<Rightarrow> string" where
  "settingsKey namespace key = namespace @ '':'' @ key"

definition SetSetting :: "gotime \<Rightarrow> string \<Rightarrow> string \<Rightarrow> string \<Rightarrow> cache \<Rightarrow> cache" where
  "SetSetting now namespace key val c = maybeSweepLocked now
     (c\<lparr>settings := (settings c)(settingsKey namespace key \<mapsto> \<lparr>es_value = val, es_expiresAt = now + minute\<rparr>)\<rparr>)"

definition DelSetting :: "gotime \<Rightarrow> string \<Rightarrow> string \<Rightarrow> cache \<Rightarrow> cache" where
  "DelSetting now namespace key c = maybeSweepLocked now
     (c\<lparr>settings := map_del (settingsKey namespace key) (settings c)\<rparr>)"

definition userSettingVersionKey :: "nat \<Rightarrow> string \<Rightarrow> string" where
  "userSettingVersionKey userID key = show_nat userID @ '':'' @ key"

definition userSettingValueKey :: "nat \<Rightarrow> string \<Rightarrow> string \<Rightarrow> string" where
  "userSettingValueKey userID key version = show_nat userID @ '':'' @ key @ '':'' @ version"

text \<open>\<open>fresh\<close> is what \<open>uuid.NewString\<close> returns; \<open>now'\<close> is the clock reading of \<open>ttlFromNow\<close>.\<close>

definition GetUserSettingCacheVersion ::
  "gotime \<Rightarrow> gotime \<Rightarrow> string \<Rightarrow> nat \<Rightarrow> string \<Rightarrow> duration \<Rightarrow> cache \<Rightarrow> string \<times> cache" where
  "GetUserSettingCacheVersion now now' fresh userID key ttl c =
     (let k = userSettingVersionKey userID key;
          renew = (\<lambda>ver. c\<lparr>userSettingVersions := (userSettingVersions c)(k \<mapsto>
                     \<lparr>es_value = ver, es_expiresAt = ttlFromNow now' ttl\<rparr>)\<rparr>)
      in case userSettingVersions c k of
           Some item \<Rightarrow> if now < es_expiresAt item then (es_value item, renew (es_value item))
                        else (fresh, maybeSweepLocked now (renew fresh))
         | None \<Rightarrow> (fresh, maybeSweepLocked now (renew fresh)))"

definition AdvanceUserSettingCacheVersion ::
  "gotime \<Rightarrow> gotime \<Rightarrow> string \<Rightarrow> nat \<Rightarrow> string \<Rightarrow> duration \<Rightarrow> cache \<Rightarrow> string \<times> cache" where
  "AdvanceUserSettingCacheVersion now now' fresh userID key ttl c =
     (fresh, maybeSweepLocked now (c\<lparr>userSettingVersions := (userSettingVersions c)
        (userSettingVersionKey userID key \<mapsto> \<lparr>es_value = fresh, es_expiresAt = ttlFromNow now' ttl\<rparr>)\<rparr>))"

definition GetUserSettingCache :: "gotime \<Rightarrow> nat \<Rightarrow> string \<Rightarrow> string \<Rightarrow> cache \<Rightarrow> (string \<times> bool) \<times> cache" where
  "GetUserSettingCache now userID key version c =
     (let k = userSettingValueKey userID key version in
      case userSettings c k of
        None \<Rightarrow> (([], False), c)
      | Some item \<Rightarrow> if \<not> now < es_expiresAt item
                     then (([], False), c\<lparr>userSettings := map_del k (userSettings c)\<rparr>)
                     else ((es_value item, True), c))"

definition SetUserSettingCache ::
  "gotime \<Rightarrow> gotime \<Rightarrow> nat \<Rightarrow> string \<Rightarrow> string \<Rightarrow> string \<Rightarrow> duration \<Rightarrow> cache \<Rightarrow> cache" where
  "SetUserSettingCache now now' userID key version val ttl c = maybeSweepLocked now
     (c\<lparr>userSettings := (userSettings c)(userSettingValueKey userID key version \<mapsto>
        \<lparr>es_value = val, es_expiresAt = ttlFromNow now' ttl\<rparr>)\<rparr>)"

definition GetRAGCache :: "gotime \<Rightarrow> string \<Rightarrow> cache \<Rightarrow> rag_chunk list option \<times> cache" where
  "GetRAGCache now key c =
     (case rag c key of
        None \<Rightarrow> (None, c\<lparr>rag := map_del key (rag c)\<rparr>)
      | Some item \<Rightarrow> if expired now (er_expiresAt item)
                     then (None, c\<lparr>rag := map_del key (rag c)\<rparr>)
                     else (Some (er_chunks item), c))"

definition SetRAGCache :: "gotime \<Rightarrow> gotime \<Rightarrow> string \<Rightarrow> rag_chunk list \<Rightarrow> duration \<Rightarrow> cache \<Rightarrow> cache" where
  "SetRAGCache now now' key chunks ttl c = maybeSweepLocked now
     (c\<lparr>rag := (rag c)(key \<mapsto> \<lparr>er_chunks = chunks, er_expiresAt = ttlFromNow now' ttl\<rparr>)\<rparr>)"

datatype repo_error =
    ErrNotFound | ErrDuplicate | ErrConflict | ErrInvalidInput | ErrInsufficientBalance
  | ErrUsageReservationLimitExceeded | ErrRedemptionUnavailable | ErrRedemptionExhausted
  | ErrRedemptionUserLimitExceeded | ErrFileProcessingQueueFull | ErrContextDone
  | DatabaseError string  \<comment> \<open>any other error of the driver, passed on as it is\<close>

definition PutProviderAuthTransaction ::
  "gotime \<Rightarrow> string \<Rightarrow> provider_auth_transaction \<Rightarrow> duration \<Rightarrow> cache \<Rightarrow> repo_error option \<times> cache" where
  "PutProviderAuthTransaction now i item ttl c =
     (if i = [] \<or> ttl \<le> 0 then (Some ErrInvalidInput, c)
      else (let c' = maybeSweepLocked now c in
        (None, c'\<lparr>providerAuthTransactions := (providerAuthTransactions c')(i \<mapsto>
           \<lparr>et_value = item, et_expiresAt = now + ttl\<rparr>)\<rparr>)))"

definition ConsumeProviderAuthTransaction ::
  "gotime \<Rightarrow> string \<Rightarrow> cache \<Rightarrow> (repo_error + provider_auth_transaction) \<times> cache" where
  "ConsumeProviderAuthTransaction now i c =
     (if i = [] then (Inl ErrNotFound, c)
      else case providerAuthTransactions c i of
        None \<Rightarrow> (Inl ErrNotFound, c)
      | Some item \<Rightarrow>
          (let c' = c\<lparr>providerAuthTransactions := map_del i (providerAuthTransactions c)\<rparr>
           in if et_expiresAt item < now then (Inl ErrNotFound, c') else (Inr (et_value item), c')))"

definition PutProviderAuthGrant ::
  "gotime \<Rightarrow> string \<Rightarrow> provider_auth_grant \<Rightarrow> duration \<Rightarrow> cache \<Rightarrow> repo_error option \<times> cache" where
  "PutProviderAuthGrant now key item ttl c =
     (if key = [] \<or> ttl \<le> 0 then (Some ErrInvalidInput, c)
      else (let c' = maybeSweepLocked now c in
        (None, c'\<lparr>providerAuthGrants := (providerAuthGrants c')(key \<mapsto>
           \<lparr>eg_value = item, eg_expiresAt = now + ttl\<rparr>)\<rparr>)))"

definition ConsumeProviderAuthGrant ::
  "gotime \<Rightarrow> string \<Rightarrow> cache \<Rightarrow> (repo_error + provider_auth_grant) \<times> cache" where
  "ConsumeProviderAuthGrant now key c =
     (if key = [] then (Inl ErrNotFound, c)
      else case providerAuthGrants c key of
        None \<Rightarrow> (Inl ErrNotFound, c)
      | Some item \<Rightarrow>
          (let c' = c\<lparr>providerAuthGrants := map_del key (providerAuthGrants c)\<rparr>
           in if eg_expiresAt item < now then (Inl ErrNotFound, c') else (Inr (eg_value item), c')))"

section \<open>Keys separate users\<close>

lemma userSettingVersionKey_inj:
  assumes "userSettingVersionKey u k = userSettingVersionKey u' k'"
  shows "u = u' \<and> k = k'"
proof -
  have "show_nat u @ CHR '':'' # k = show_nat u' @ CHR '':'' # k'"
    using assms by (simp add: userSettingVersionKey_def)
  then have "show_nat u = show_nat u' \<and> k = k'"
    by (rule split_at_char_inj) (simp_all add: show_nat_no_char)
  then show ?thesis by simp
qed

lemma userSettingValueKey_inj:
  assumes "userSettingValueKey u k ver = userSettingValueKey u' k' ver'"
    and "CHR '':'' \<notin> set ver" and "CHR '':'' \<notin> set ver'"
  shows "u = u' \<and> k = k' \<and> ver = ver'"
proof -
  have "show_nat u @ CHR '':'' # (k @ CHR '':'' # ver) = show_nat u' @ CHR '':'' # (k' @ CHR '':'' # ver')"
    using assms(1) by (simp add: userSettingValueKey_def)
  then have "show_nat u = show_nat u' \<and> k @ CHR '':'' # ver = k' @ CHR '':'' # ver'"
    by (rule split_at_char_inj) (simp_all add: show_nat_no_char)
  then show ?thesis
    using split_at_last_char_inj [of k "CHR '':''" ver k' ver'] assms(2,3) by simp
qed

text \<open>The user part of a key is readable whatever the key and version contain.\<close>

lemma userSettingValueKey_user:
  assumes "userSettingValueKey u k ver = userSettingValueKey u' k' ver'"
  shows "u = u'"
proof -
  have "show_nat u @ CHR '':'' # (k @ CHR '':'' # ver) = show_nat u' @ CHR '':'' # (k' @ CHR '':'' # ver')"
    using assms by (simp add: userSettingValueKey_def)
  then have "show_nat u = show_nat u' \<and> k @ CHR '':'' # ver = k' @ CHR '':'' # ver'"
    by (rule split_at_char_inj) (simp_all add: show_nat_no_char)
  then show ?thesis by simp
qed

section \<open>One-time stores\<close>

text \<open>
  The contract of the login bridge, for transactions and grants alike: \<open>put\<close> stores under a
  non-empty key for a positive lifetime, \<open>consume\<close> hands a live record out and removes it. The
  sweep may run in between.
\<close>

locale one_time_store =
  fixes put :: "gotime \<Rightarrow> string \<Rightarrow> 'v \<Rightarrow> duration \<Rightarrow> 's \<Rightarrow> repo_error option \<times> 's"
    and consume :: "gotime \<Rightarrow> string \<Rightarrow> 's \<Rightarrow> (repo_error + 'v) \<times> 's"
    and sweep :: "gotime \<Rightarrow> 's \<Rightarrow> 's"
    and live :: "'s \<Rightarrow> string \<Rightarrow> ('v \<times> gotime) option"
  assumes put_ok: "k \<noteq> [] \<Longrightarrow> 0 < ttl \<Longrightarrow> fst (put now k x ttl s) = None"
    and put_live: "k \<noteq> [] \<Longrightarrow> 0 < ttl \<Longrightarrow> live (snd (put now k x ttl s)) k = Some (x, now + ttl)"
    and put_bad: "k = [] \<or> ttl \<le> 0 \<Longrightarrow> put now k x ttl s = (Some ErrInvalidInput, s)"
    and put_other: "k \<noteq> k' \<Longrightarrow> live (snd (put now k x ttl s)) k' = Some r \<Longrightarrow> live s k' = Some r"
    and consume_live: "k \<noteq> [] \<Longrightarrow> live s k = Some (x, e) \<Longrightarrow> now \<le> e \<Longrightarrow> fst (consume now k s) = Inr x"
    and consume_late: "live s k = Some (x, e) \<Longrightarrow> e < now \<Longrightarrow> fst (consume now k s) = Inl ErrNotFound"
    and consume_missing: "live s k = None \<Longrightarrow> fst (consume now k s) = Inl ErrNotFound"
    and consume_gone: "k \<noteq> [] \<Longrightarrow> live (snd (consume now k s)) k = None"
    and consume_empty: "consume now [] s = (Inl ErrNotFound, s)"
    and consume_other: "live (snd (consume now k s)) k' = Some r \<Longrightarrow> live s k' = Some r"
    and sweep_live: "live s k = Some (x, e) \<Longrightarrow> now \<le> e \<Longrightarrow> live (sweep now s) k = Some (x, e)"
    and sweep_sub: "live (sweep now s) k = Some r \<Longrightarrow> live s k = Some r"
begin

text \<open>A round trip within the lifetime returns the stored record, with a sweep in between.\<close>

lemma put_consume:
  assumes "k \<noteq> []" and "0 < ttl" and "m \<le> now + ttl" and "t \<le> now + ttl"
  shows "fst (consume t k (sweep m (snd (put now k x ttl s)))) = Inr x"
proof (rule consume_live [OF assms(1)])
  show "live (sweep m (snd (put now k x ttl s))) k = Some (x, now + ttl)"
    by (rule sweep_live [OF put_live [OF assms(1,2)] assms(3)])
qed (rule assms(4))

text \<open>A key that holds nothing stays empty until it is put again.\<close>

inductive reaches :: "string \<Rightarrow> 's \<Rightarrow> 's \<Rightarrow> bool" for k where
  refl: "reaches k s s"
| other_put: "reaches k s t \<Longrightarrow> k' \<noteq> k \<Longrightarrow> reaches k s (snd (put now k' x ttl t))"
| any_consume: "reaches k s t \<Longrightarrow> reaches k s (snd (consume now k' t))"
| any_sweep: "reaches k s t \<Longrightarrow> reaches k s (sweep now t)"

lemma reaches_missing: "reaches k s t \<Longrightarrow> live s k = None \<Longrightarrow> live t k = None"
proof (induction rule: reaches.induct)
  case (other_put s t k' now x ttl)
  then show ?case using put_other [of k' k now x ttl t] by (cases "live (snd (put now k' x ttl t)) k") auto
next
  case (any_consume s t now k')
  then show ?case using consume_other [of now k' t k] by (cases "live (snd (consume now k' t)) k") auto
next
  case (any_sweep s t now)
  then show ?case using sweep_sub [of now t k] by (cases "live (sweep now t) k") auto
qed simp

lemma consume_once:
  assumes "reaches k (snd (consume t1 k s)) s'"
  shows "fst (consume t2 k s') = Inl ErrNotFound"
proof (cases "k = []")
  case True
  then show ?thesis by (simp add: consume_empty)
next
  case False
  then have "live s' k = None" by (rule reaches_missing [OF assms consume_gone])
  then show ?thesis by (rule consume_missing)
qed

end

definition live_transaction :: "cache \<Rightarrow> string \<Rightarrow> (provider_auth_transaction \<times> gotime) option" where
  "live_transaction c k = map_option (\<lambda>i. (et_value i, et_expiresAt i)) (providerAuthTransactions c k)"

definition live_grant :: "cache \<Rightarrow> string \<Rightarrow> (provider_auth_grant \<times> gotime) option" where
  "live_grant c k = map_option (\<lambda>i. (eg_value i, eg_expiresAt i)) (providerAuthGrants c k)"

lemmas transaction_defs = PutProviderAuthTransaction_def ConsumeProviderAuthTransaction_def live_transaction_def
lemmas grant_defs = PutProviderAuthGrant_def ConsumeProviderAuthGrant_def live_grant_def

interpretation transactions: one_time_store PutProviderAuthTransaction ConsumeProviderAuthTransaction
  maybeSweepLocked live_transaction
proof
  show "live_transaction c k = Some (x, e) \<Longrightarrow> now \<le> e \<Longrightarrow>
      live_transaction (maybeSweepLocked now c) k = Some (x, e)" for c k x e now
    by (auto simp: live_transaction_def maybeSweep_bridge(2))
  show "live_transaction (maybeSweepLocked now c) k = Some r \<Longrightarrow> live_transaction c k = Some r" for c k r now
    by (auto simp: live_transaction_def dest: maybeSweep_bridge(1))
  show "k \<noteq> k' \<Longrightarrow> live_transaction (snd (PutProviderAuthTransaction now k x ttl s)) k' = Some r \<Longrightarrow>
      live_transaction s k' = Some r" for k k' now x ttl s r
    by (auto simp: transaction_defs Let_def split: if_splits dest: maybeSweep_bridge(1))
  show "live_transaction (snd (ConsumeProviderAuthTransaction now k s)) k' = Some r \<Longrightarrow>
      live_transaction s k' = Some r" for now k s k' r
    by (auto simp: transaction_defs map_del_def Let_def split: if_splits option.splits)
qed (auto simp: transaction_defs Let_def split: option.splits)

interpretation grants: one_time_store PutProviderAuthGrant ConsumeProviderAuthGrant
  maybeSweepLocked live_grant
proof
  show "live_grant c k = Some (x, e) \<Longrightarrow> now \<le> e \<Longrightarrow>
      live_grant (maybeSweepLocked now c) k = Some (x, e)" for c k x e now
    by (auto simp: live_grant_def maybeSweep_bridge(4))
  show "live_grant (maybeSweepLocked now c) k = Some r \<Longrightarrow> live_grant c k = Some r" for c k r now
    by (auto simp: live_grant_def dest: maybeSweep_bridge(3))
  show "k \<noteq> k' \<Longrightarrow> live_grant (snd (PutProviderAuthGrant now k x ttl s)) k' = Some r \<Longrightarrow>
      live_grant s k' = Some r" for k k' now x ttl s r
    by (auto simp: grant_defs Let_def split: if_splits dest: maybeSweep_bridge(3))
  show "live_grant (snd (ConsumeProviderAuthGrant now k s)) k' = Some r \<Longrightarrow>
      live_grant s k' = Some r" for now k s k' r
    by (auto simp: grant_defs map_del_def Let_def split: if_splits option.splits)
qed (auto simp: grant_defs Let_def split: option.splits)

section \<open>Versioned user settings\<close>

text \<open>What a read of the settings sees; a settings write is visible until its time to live.\<close>

lemma SetUserSettingCache_lookup:
  assumes "now \<le> ttlFromNow now' ttl"
  shows "userSettings (SetUserSettingCache now now' u k ver x ttl c) (userSettingValueKey u k ver) =
    Some \<lparr>es_value = x, es_expiresAt = ttlFromNow now' ttl\<rparr>"
  using assms by (auto simp: SetUserSettingCache_def maybeSweep_strings(4))

lemma SetUserSettingCache_other:
  assumes "k' \<noteq> userSettingValueKey u k ver"
    and "userSettings (SetUserSettingCache now now' u k ver x ttl c) k' = Some r"
  shows "userSettings c k' = Some r"
  using assms by (auto simp: SetUserSettingCache_def dest: maybeSweep_strings(3))

lemma GetUserSettingCache_hit:
  "userSettings c (userSettingValueKey u k ver) = Some item \<Longrightarrow> t < es_expiresAt item \<Longrightarrow>
     fst (GetUserSettingCache t u k ver c) = (es_value item, True)"
  by (simp add: GetUserSettingCache_def Let_def)

lemma GetUserSettingCache_some:
  "fst (GetUserSettingCache t u k ver c) = (x, True) \<Longrightarrow>
     \<exists>item. userSettings c (userSettingValueKey u k ver) = Some item \<and> es_value item = x \<and> t < es_expiresAt item"
  by (auto simp: GetUserSettingCache_def Let_def split: option.splits if_splits)

lemma AdvanceVersion_lookup:
  assumes "now \<le> ttlFromNow now' ttl"
  shows "userSettingVersions (snd (AdvanceUserSettingCacheVersion now now' fresh u k ttl c))
      (userSettingVersionKey u k) = Some \<lparr>es_value = fresh, es_expiresAt = ttlFromNow now' ttl\<rparr>"
  using assms by (simp add: AdvanceUserSettingCacheVersion_def maybeSweep_strings(6))

lemma GetVersion_live:
  "userSettingVersions c (userSettingVersionKey u k) = Some item \<Longrightarrow> t < es_expiresAt item \<Longrightarrow>
     fst (GetUserSettingCacheVersion t t' fresh u k ttl c) = es_value item"
  by (simp add: GetUserSettingCacheVersion_def Let_def)

section \<open>Properties\<close>

text \<open>A login transaction is handed out at most once: after it was consumed, no later
  consumption of its id succeeds, whatever puts under other ids, consumptions and sweeps happen
  in between; and within its lifetime the first consumption returns exactly what was put.\<close>

theorem login_transaction_one_time:
  assumes "i \<noteq> []" and "0 < ttl" and "m \<le> now + ttl" and "t \<le> now + ttl"
    and "transactions.reaches i (snd (ConsumeProviderAuthTransaction t i
      (maybeSweepLocked m (snd (PutProviderAuthTransaction now i item ttl c))))) c'"
  shows "fst (ConsumeProviderAuthTransaction t i
      (maybeSweepLocked m (snd (PutProviderAuthTransaction now i item ttl c)))) = Inr item \<and>
    fst (ConsumeProviderAuthTransaction t' i c') = Inl ErrNotFound"
  using transactions.put_consume [OF assms(1-4)] transactions.consume_once [OF assms(5)] by blast

definition example_transaction :: provider_auth_transaction where
  "example_transaction = \<lparr>pat_ProviderSlug = ''p'', pat_ClientID = ''c'', pat_ClientRedirectURI = ''u'',
     pat_ClientState = ''s'', pat_ClientCodeChallenge = ''x'', pat_ProviderCodeVerifier = ''y'',
     pat_Intent = ''login'', pat_Next = ''/'', pat_ExpiresAt = 9\<rparr>"

theorem login_transaction_one_time_witness:
  "fst (ConsumeProviderAuthTransaction 4 ''id'' (snd (ConsumeProviderAuthTransaction 3 ''id''
     (maybeSweepLocked 2 (snd (PutProviderAuthTransaction 1 ''id'' example_transaction 5 new_cache)))))) = Inl ErrNotFound"
  using login_transaction_one_time [OF _ _ _ _ transactions.reaches.refl,
    where i = "''id''" and now = 1 and ttl = 5 and m = 2 and t = 3 and t' = 4 and item = example_transaction]
  by simp

text \<open>A login grant, which stands for a signed-in user, is likewise handed out at most
  once, and only within its lifetime.\<close>

theorem login_grant_one_time:
  assumes "k \<noteq> []" and "0 < ttl"
    and "grants.reaches k (snd (ConsumeProviderAuthGrant t k c)) c'"
  shows "fst (ConsumeProviderAuthGrant t' k c') = Inl ErrNotFound \<and>
    (now + ttl < t \<longrightarrow> fst (ConsumeProviderAuthGrant t k (snd (PutProviderAuthGrant now k item ttl c))) = Inl ErrNotFound)"
  using grants.consume_once [OF assms(3)] grants.consume_late [OF grants.put_live [OF assms(1,2)]] by blast

theorem login_grant_one_time_witness:
  "fst (ConsumeProviderAuthGrant 4 ''g'' (snd (ConsumeProviderAuthGrant 3 ''g'' new_cache))) = Inl ErrNotFound"
  using login_grant_one_time [OF _ _ grants.reaches.refl, where k = "''g''" and ttl = 5 and t = 3 and c = new_cache and t' = 4]
  by simp

text \<open>Storing a user setting never changes what another user reads, whatever the keys and
  versions contain; and with colon-free versions (they are UUIDs) it changes no other key or version
  of the same user either.\<close>

theorem settings_user_isolation:
  assumes "now \<le> t"
    and "u' \<noteq> u \<or> (CHR '':'' \<notin> set ver \<and> CHR '':'' \<notin> set ver' \<and> (k' \<noteq> k \<or> ver' \<noteq> ver))"
  shows "fst (GetUserSettingCache t u' k' ver' (SetUserSettingCache now now' u k ver x ttl c)) =
    fst (GetUserSettingCache t u' k' ver' c)"
proof -
  let ?k = "userSettingValueKey u k ver" and ?k' = "userSettingValueKey u' k' ver'"
  have ne: "?k' \<noteq> ?k"
    using assms(2) userSettingValueKey_user userSettingValueKey_inj by metis
  let ?c1 = "c\<lparr>userSettings := (userSettings c)(?k \<mapsto> \<lparr>es_value = x, es_expiresAt = ttlFromNow now' ttl\<rparr>)\<rparr>"
  show ?thesis
  proof (cases "userSettings c ?k'")
    case None
    then have "userSettings (SetUserSettingCache now now' u k ver x ttl c) ?k' = None"
      using SetUserSettingCache_other [OF ne] by (metis not_Some_eq)
    with None show ?thesis by (simp add: GetUserSettingCache_def Let_def)
  next
    case (Some item)
    show ?thesis
    proof (cases "es_expiresAt item < now")
      case True
      then have "userSettings (SetUserSettingCache now now' u k ver x ttl c) ?k' \<in> {None, Some item}"
        using SetUserSettingCache_other [OF ne] Some by (metis insertCI not_Some_eq)
      with True Some assms(1) show ?thesis by (auto simp: GetUserSettingCache_def Let_def)
    next
      case False
      then have "userSettings (SetUserSettingCache now now' u k ver x ttl c) ?k' = Some item"
        using Some ne by (simp add: SetUserSettingCache_def maybeSweep_strings(4))
      with Some show ?thesis by (simp add: GetUserSettingCache_def Let_def)
    qed
  qed
qed

theorem settings_user_isolation_witness:
  "fst (GetUserSettingCache 2 7 ''k'' ''v'' (SetUserSettingCache 1 1 70 ''k'' ''v'' ''x'' 5 new_cache)) = ([], False)"
  using settings_user_isolation [of 1 2 7 70 "''v''" "''v''" "''k''" "''k''" 1 "''x''" 5 new_cache]
  by (simp add: GetUserSettingCache_def new_cache_def)

text \<open>Advancing the version of a user's setting makes every reader use the new version:
  until it expires, \<open>GetUserSettingCacheVersion\<close> returns it, so values stored under the old
  version are not found again.\<close>

theorem version_advance_invalidates:
  assumes "now \<le> now'" and "t < ttlFromNow now' ttl"
    and "CHR '':'' \<notin> set fresh" and "CHR '':'' \<notin> set old" and "fresh \<noteq> old"
    and "userSettings c (userSettingValueKey u k fresh) = None"
    and adv: "AdvanceUserSettingCacheVersion now now' fresh u k ttl (SetUserSettingCache n n' u k old x ttl' c) = (ver, c')"
  shows "fst (GetUserSettingCacheVersion t t' other u k ttl'' c') = fresh \<and>
    fst (GetUserSettingCache t u k fresh c') = ([], False)"
proof -
  let ?c1 = "SetUserSettingCache n n' u k old x ttl' c"
  have c': "c' = snd (AdvanceUserSettingCacheVersion now now' fresh u k ttl ?c1)" using adv by simp
  have "now \<le> ttlFromNow now' ttl" using assms(1) ttlFromNow_gt [of now' ttl] by simp
  then have "userSettingVersions c' (userSettingVersionKey u k) =
      Some \<lparr>es_value = fresh, es_expiresAt = ttlFromNow now' ttl\<rparr>"
    unfolding c' by (rule AdvanceVersion_lookup)
  then have ver: "fst (GetUserSettingCacheVersion t t' other u k ttl'' c') = fresh"
    using assms(2) GetVersion_live by (metis expiring_string.select_convs)
  have "userSettingValueKey u k fresh \<noteq> userSettingValueKey u k old"
    using userSettingValueKey_inj assms(3-5) by blast
  then have none: "userSettings ?c1 (userSettingValueKey u k fresh) = None"
    using assms(6) SetUserSettingCache_other by (metis not_Some_eq)
  have "userSettings c' (userSettingValueKey u k fresh) = None"
  proof (rule ccontr)
    assume "userSettings c' (userSettingValueKey u k fresh) \<noteq> None"
    then obtain r where "userSettings c' (userSettingValueKey u k fresh) = Some r" by blast
    then have "userSettings ?c1 (userSettingValueKey u k fresh) = Some r"
      unfolding c' AdvanceUserSettingCacheVersion_def snd_conv by (drule_tac maybeSweep_strings(3), simp)
    with none show False by simp
  qed
  then show ?thesis using ver by (simp add: GetUserSettingCache_def Let_def)
qed

theorem version_advance_invalidates_witness:
  "fst (GetUserSettingCacheVersion 4 4 ''z'' 1 ''k'' 9 (snd (AdvanceUserSettingCacheVersion 3 3 ''v2'' 1 ''k'' 60
     (SetUserSettingCache 2 2 1 ''k'' ''v1'' ''x'' 60 new_cache)))) = ''v2''"
  using version_advance_invalidates [where now = 3 and now' = 3 and t = 4 and ttl = 60 and fresh = "''v2''"
    and old = "''v1''" and c = new_cache and u = 1 and k = "''k''" and n = 2 and n' = 2 and x = "''x''"
    and ttl' = 60 and t' = 4 and other = "''z''" and ttl'' = 9]
  by (simp add: ttlFromNow_def new_cache_def split_beta AdvanceUserSettingCacheVersion_def)

end
