(* ===== verification/File_Queue.thy ===== *)
theory File_Queue
  imports Keyed_Stores "HOL-Library.Multiset"
begin

text \<open>
  The file-processing queues of the in-process cache (\<open>memory/file_queue.go\<close>): two queues
  (extraction and embedding) of jobs that a consumer leases, renews, settles, requeues or moves
  to a dead-letter list; a lease that was not renewed for 45 seconds may be reclaimed by any
  consumer. \<open>ctxErr\<close> is what \<open>ctx.Err()\<close> returns. A blocking read waits for a wake-up, its timer
  or its context: these are the events of a list.
\<close>

section \<open>Operations\<close>

definition FileProcessingKindEmbedding :: string where "FileProcessingKindEmbedding = ''embedding''"
definition FileProcessingQueueDefault :: string where "FileProcessingQueueDefault = ''file_processing''"
definition FileProcessingQueueEmbedding :: string where "FileProcessingQueueEmbedding = ''file_embedding''"

definition fileProcessingMinIdle :: duration where "fileProcessingMinIdle = 45 * second"
definition maxFileQueueErrorSize :: nat where "maxFileQueueErrorSize = 255"
definition maxFileQueueLength :: nat where "maxFileQueueLength = 10000"

definition zero_message :: file_message where
  "zero_message = \<lparr>msg_ID = [], msg_UserID = 0, msg_FileID = [], msg_Retry = 0, msg_LastError = [],
     msg_Reclaimed = False, msg_Kind = [], msg_Queue = [], msg_EmbeddingSignature = [],
     msg_EmbeddingHost = []\<rparr>"

text \<open>\<open>fileQueueState\<close> returns a pointer; the model reads the queue and writes it back.\<close>

definition fileQueueState :: "string \<Rightarrow> cache \<Rightarrow> file_queue_state" where
  "fileQueueState q c = (if q = FileProcessingQueueEmbedding then fileEmbeddingQueue c else fileProcessingQueue c)"

definition set_fileQueueState :: "string \<Rightarrow> file_queue_state \<Rightarrow> cache \<Rightarrow> cache" where
  "set_fileQueueState q st c =
     (if q = FileProcessingQueueEmbedding then c\<lparr>fileEmbeddingQueue := st\<rparr> else c\<lparr>fileProcessingQueue := st\<rparr>)"

definition queueForMessage :: "file_message \<Rightarrow> string" where
  "queueForMessage m =
     (if msg_Queue m \<noteq> [] then msg_Queue m
      else if msg_Kind m = FileProcessingKindEmbedding then FileProcessingQueueEmbedding
      else FileProcessingQueueDefault)"

definition notifyFileQueueLocked :: "file_queue_state \<Rightarrow> file_queue_state" where
  "notifyFileQueueLocked st = st\<lparr>fq_notify := Suc (fq_notify st)\<rparr>"

definition truncateFileQueueError :: "string \<Rightarrow> string" where
  "truncateFileQueueError message =
     (let val = trim_space message; runes = utf8_runes val in
      if maxFileQueueErrorSize < length runes then concat (take maxFileQueueErrorSize runes) else val)"

definition InitFileProcessingStream :: "repo_error option \<Rightarrow> repo_error option" where
  "InitFileProcessingStream ctxErr = ctxErr"

definition enqueueFileMessage ::
  "repo_error option \<Rightarrow> gotime \<Rightarrow> file_message \<Rightarrow> cache \<Rightarrow> repo_error option \<times> cache" where
  "enqueueFileMessage ctxErr now m c =
     (if trim_space (msg_FileID m) = [] then (None, c)
      else case ctxErr of Some e \<Rightarrow> (Some e, c)
      | None \<Rightarrow>
        (let st = fileQueueState (msg_Queue m) c in
         if maxFileQueueLength \<le> length (fq_queue st)
         then (Some ErrFileProcessingQueueFull, maybeSweepLocked now c)
         else (let n = fileSeq c + 1;
                   msg = m\<lparr>msg_ID := format_int n, msg_FileID := trim_space (msg_FileID m),
                           msg_LastError := truncateFileQueueError (msg_LastError m)\<rparr>;
                   st' = notifyFileQueueLocked (st\<lparr>fq_queue := fq_queue st @ [msg]\<rparr>)
               in (None, maybeSweepLocked now (set_fileQueueState (msg_Queue m) st' (c\<lparr>fileSeq := n\<rparr>))))))"

definition EnqueueFileProcessing ::
  "repo_error option \<Rightarrow> gotime \<Rightarrow> nat \<Rightarrow> string \<Rightarrow> int \<Rightarrow> string \<Rightarrow> cache \<Rightarrow> repo_error option \<times> cache" where
  "EnqueueFileProcessing ctxErr now userID fileID retry lastError c =
     enqueueFileMessage ctxErr now (zero_message\<lparr>msg_UserID := userID, msg_FileID := fileID,
       msg_Retry := retry, msg_LastError := lastError, msg_Queue := FileProcessingQueueDefault\<rparr>) c"

definition EnqueueFileEmbedding ::
  "repo_error option \<Rightarrow> gotime \<Rightarrow> nat \<Rightarrow> string \<Rightarrow> string \<Rightarrow> string \<Rightarrow> cache \<Rightarrow> repo_error option \<times> cache" where
  "EnqueueFileEmbedding ctxErr now userID fileID signature host c =
     (let f = trim_space fileID; sg = trim_space signature; h = trim_right_char (CHR ''/'') (trim_space host) in
      if f = [] \<or> sg = [] \<or> h = [] then (Some ErrInvalidInput, c)
      else enqueueFileMessage ctxErr now (zero_message\<lparr>msg_UserID := userID, msg_FileID := f,
        msg_Kind := FileProcessingKindEmbedding, msg_Queue := FileProcessingQueueEmbedding,
        msg_EmbeddingSignature := sg, msg_EmbeddingHost := h\<rparr>) c)"

text \<open>The scan for the oldest idle lease, over the keys in the order the map range visits them.\<close>

fun oldest_idle :: "gotime \<Rightarrow> (string \<rightharpoonup> file_lease) \<Rightarrow> string list \<Rightarrow> string \<Rightarrow> file_lease \<Rightarrow> string \<times> file_lease" where
  "oldest_idle now m [] candidateID candidate = (candidateID, candidate)"
| "oldest_idle now m (i # ids) candidateID candidate =
     (case m i of
        None \<Rightarrow> oldest_idle now m ids candidateID candidate
      | Some lease \<Rightarrow>
          if now - leasedAt lease < fileProcessingMinIdle then oldest_idle now m ids candidateID candidate
          else if candidateID = [] \<or> leasedAt lease < leasedAt candidate
          then oldest_idle now m ids i lease
          else oldest_idle now m ids candidateID candidate)"

definition zero_lease :: file_lease where
  "zero_lease = \<lparr>consumerName = [], leasedAt = 0, lease_message = zero_message\<rparr>"

definition claimTimedOutFileMessages ::
  "repo_error option \<Rightarrow> gotime \<Rightarrow> string list \<Rightarrow> string \<Rightarrow> string \<Rightarrow> cache \<Rightarrow> (repo_error + file_message list) \<times> cache" where
  "claimTimedOutFileMessages ctxErr now ids consumer q c =
     (if trim_space consumer = [] then (Inr [], c)
      else case ctxErr of Some e \<Rightarrow> (Inl e, c)
      | None \<Rightarrow>
        (let st = fileQueueState q c;
             (candidateID, candidate) = oldest_idle now (inflight st) ids [] zero_lease
         in if candidateID = [] then (Inr [], c)
            else (let l = candidate\<lparr>consumerName := trim_space consumer, leasedAt := now,
                        lease_message := (lease_message candidate)\<lparr>msg_Reclaimed := True\<rparr>\<rparr>
                  in (Inr [lease_message l],
                      set_fileQueueState q (st\<lparr>inflight := (inflight st)(candidateID \<mapsto> l)\<rparr>) c))))"

definition ClaimTimedOutFileProcessingMessages where
  "ClaimTimedOutFileProcessingMessages ctxErr now ids consumer c =
     claimTimedOutFileMessages ctxErr now ids consumer FileProcessingQueueDefault c"

definition ClaimTimedOutFileEmbeddingMessages where
  "ClaimTimedOutFileEmbeddingMessages ctxErr now ids consumer c =
     claimTimedOutFileMessages ctxErr now ids consumer FileProcessingQueueEmbedding c"

text \<open>
  What ends one wait of a reader: its context, its 5 second timer, or a notification, after which
  it reads its context, the clock and the cache again. Each event carries the cache as it is then.
\<close>

datatype wait_event =
    WaitDone repo_error cache
  | WaitTimeout cache
  | WaitNotified "repo_error option" gotime cache

fun read_loop ::
  "string \<Rightarrow> string \<Rightarrow> repo_error option \<Rightarrow> gotime \<Rightarrow> cache \<Rightarrow> wait_event list \<Rightarrow>
     ((repo_error + file_message list) \<times> cache) option" where
  "read_loop consumer q (Some e) now c evs = Some (Inl e, c)"
| "read_loop consumer q None now c evs =
     (let st = fileQueueState q c in
      case fq_queue st of
        msg # rest \<Rightarrow> Some (Inr [msg], set_fileQueueState q (st\<lparr>fq_queue := rest,
          inflight := (inflight st)(msg_ID msg \<mapsto> \<lparr>consumerName = trim_space consumer, leasedAt = now,
            lease_message = msg\<rparr>)\<rparr>) c)
      | [] \<Rightarrow> (case evs of
            [] \<Rightarrow> None
          | WaitDone e c' # _ \<Rightarrow> Some (Inl e, c')
          | WaitTimeout c' # _ \<Rightarrow> Some (Inr [], c')
          | WaitNotified ctxErr now' c' # evs' \<Rightarrow> read_loop consumer q ctxErr now' c' evs'))"

definition readFileMessages ::
  "string \<Rightarrow> string \<Rightarrow> repo_error option \<Rightarrow> gotime \<Rightarrow> cache \<Rightarrow> wait_event list \<Rightarrow>
     ((repo_error + file_message list) \<times> cache) option" where
  "readFileMessages consumer q ctxErr now c evs =
     (if trim_space consumer = [] then Some (Inr [], c)
      else case ctxErr of Some e \<Rightarrow> Some (Inl e, c) | None \<Rightarrow> read_loop consumer q None now c evs)"

definition ReadFileProcessingMessages where
  "ReadFileProcessingMessages consumer ctxErr now c evs =
     readFileMessages consumer FileProcessingQueueDefault ctxErr now c evs"

definition ReadFileEmbeddingMessages where
  "ReadFileEmbeddingMessages consumer ctxErr now c evs =
     readFileMessages consumer FileProcessingQueueEmbedding ctxErr now c evs"

text \<open>The guard of the four operations on a lease: the message is in flight and held by the caller.\<close>

definition held_lease :: "string \<Rightarrow> file_message \<Rightarrow> cache \<Rightarrow> file_lease option" where
  "held_lease consumer m c =
     (case inflight (fileQueueState (queueForMessage m) c) (trim_space (msg_ID m)) of
        None \<Rightarrow> None
      | Some lease \<Rightarrow> if consumerName lease \<noteq> trim_space consumer then None else Some lease)"

definition RenewFileProcessingMessageLease ::
  "repo_error option \<Rightarrow> gotime \<Rightarrow> string \<Rightarrow> file_message \<Rightarrow> cache \<Rightarrow> (repo_error + bool) \<times> cache" where
  "RenewFileProcessingMessageLease ctxErr now consumer m c =
     (case ctxErr of Some e \<Rightarrow> (Inl e, c)
      | None \<Rightarrow>
        (let q = queueForMessage m; st = fileQueueState q c; i = trim_space (msg_ID m) in
         case held_lease consumer m c of
           None \<Rightarrow> (Inr False, c)
         | Some lease \<Rightarrow> (Inr True, set_fileQueueState q
             (st\<lparr>inflight := (inflight st)(i \<mapsto> lease\<lparr>leasedAt := now\<rparr>)\<rparr>) c)))"

definition SettleFileProcessingMessage ::
  "repo_error option \<Rightarrow> gotime \<Rightarrow> string \<Rightarrow> file_message \<Rightarrow> cache \<Rightarrow> (repo_error + bool) \<times> cache" where
  "SettleFileProcessingMessage ctxErr now consumer m c =
     (case ctxErr of Some e \<Rightarrow> (Inl e, c)
      | None \<Rightarrow>
        (let q = queueForMessage m; st = fileQueueState q c; i = trim_space (msg_ID m) in
         case held_lease consumer m c of
           None \<Rightarrow> (Inr False, c)
         | Some lease \<Rightarrow> (Inr True, maybeSweepLocked now
             (set_fileQueueState q (st\<lparr>inflight := map_del i (inflight st)\<rparr>) c))))"

definition RequeueFileProcessingMessage ::
  "repo_error option \<Rightarrow> gotime \<Rightarrow> string \<Rightarrow> file_message \<Rightarrow> int \<Rightarrow> string \<Rightarrow> cache \<Rightarrow> (repo_error + bool) \<times> cache" where
  "RequeueFileProcessingMessage ctxErr now consumer m retry lastError c =
     (case ctxErr of Some e \<Rightarrow> (Inl e, c)
      | None \<Rightarrow>
        (let q = queueForMessage m; st = fileQueueState q c; i = trim_space (msg_ID m) in
         case held_lease consumer m c of
           None \<Rightarrow> (Inr False, c)
         | Some lease \<Rightarrow>
            (let n = fileSeq c + 1;
                 msg = \<lparr>msg_ID = format_int n, msg_UserID = msg_UserID m, msg_FileID = trim_space (msg_FileID m),
                   msg_Retry = retry, msg_LastError = truncateFileQueueError lastError,
                   msg_Reclaimed = False, msg_Kind = msg_Kind m, msg_Queue = q,
                   msg_EmbeddingSignature = msg_EmbeddingSignature m, msg_EmbeddingHost = msg_EmbeddingHost m\<rparr>;
                 st' = notifyFileQueueLocked (st\<lparr>fq_queue := fq_queue st @ [msg], inflight := map_del i (inflight st)\<rparr>)
             in (Inr True, maybeSweepLocked now (set_fileQueueState q st' (c\<lparr>fileSeq := n\<rparr>))))))"

definition trim_dlq :: "file_message list \<Rightarrow> file_message list" where
  "trim_dlq d = (if 10000 < length d then drop (length d - 10000) d else d)"

definition DeadLetterFileProcessingMessage ::
  "repo_error option \<Rightarrow> gotime \<Rightarrow> string \<Rightarrow> file_message \<Rightarrow> string \<Rightarrow> cache \<Rightarrow> (repo_error + bool) \<times> cache" where
  "DeadLetterFileProcessingMessage ctxErr now consumer m lastError c =
     (case ctxErr of Some e \<Rightarrow> (Inl e, c)
      | None \<Rightarrow>
        (let q = queueForMessage m; st = fileQueueState q c; i = trim_space (msg_ID m) in
         case held_lease consumer m c of
           None \<Rightarrow> (Inr False, c)
         | Some lease \<Rightarrow>
            (let n = fileSeq c + 1;
                 msg = \<lparr>msg_ID = ''dlq-'' @ format_int n, msg_UserID = msg_UserID m,
                   msg_FileID = trim_space (msg_FileID m), msg_Retry = msg_Retry m,
                   msg_LastError = truncateFileQueueError lastError, msg_Reclaimed = False,
                   msg_Kind = msg_Kind m, msg_Queue = q,
                   msg_EmbeddingSignature = msg_EmbeddingSignature m, msg_EmbeddingHost = msg_EmbeddingHost m\<rparr>;
                 st' = st\<lparr>dlq := trim_dlq (dlq st @ [msg]), inflight := map_del i (inflight st)\<rparr>
             in (Inr True, maybeSweepLocked now (set_fileQueueState q st' (c\<lparr>fileSeq := n\<rparr>))))))"

section \<open>Access to the two queues\<close>

definition is_embedding :: "string \<Rightarrow> bool" where
  "is_embedding q \<longleftrightarrow> q = FileProcessingQueueEmbedding"

lemma fileQueueState_set [simp]:
  "fileQueueState q' (set_fileQueueState q st c) = (if is_embedding q' = is_embedding q then st else fileQueueState q' c)"
  "fileSeq (set_fileQueueState q st c) = fileSeq c"
  by (simp_all add: fileQueueState_def set_fileQueueState_def is_embedding_def)

lemma fileQueueState_frame [simp]:
  "fileQueueState q (maybeSweepLocked now c) = fileQueueState q c"
  "fileQueueState q (c\<lparr>fileSeq := n\<rparr>) = fileQueueState q c"
  by (simp_all add: fileQueueState_def)

lemma fileQueueState_class: "is_embedding q' = is_embedding q \<Longrightarrow> fileQueueState q' c = fileQueueState q c"
  by (auto simp: fileQueueState_def is_embedding_def)

lemma notify_simps [simp]:
  "fq_queue (notifyFileQueueLocked st) = fq_queue st"
  "inflight (notifyFileQueueLocked st) = inflight st"
  "dlq (notifyFileQueueLocked st) = dlq st"
  by (simp_all add: notifyFileQueueLocked_def)

section \<open>The invariant\<close>

text \<open>
  Message ids are the decimal forms of distinct numbers the sequence has already given out; a
  message is in the queue or in flight, never both, and is in flight under its own id; the dead
  letters stay bounded.
\<close>

definition issued :: "int \<Rightarrow> string \<Rightarrow> bool" where
  "issued s i \<longleftrightarrow> (\<exists>n. 0 < n \<and> n \<le> s \<and> i = format_int n)"

definition queue_ok :: "int \<Rightarrow> file_queue_state \<Rightarrow> bool" where
  "queue_ok s st \<longleftrightarrow>
     distinct (map msg_ID (fq_queue st)) \<and>
     (\<forall>m \<in> set (fq_queue st). issued s (msg_ID m) \<and> inflight st (msg_ID m) = None) \<and>
     (\<forall>k l. inflight st k = Some l \<longrightarrow> msg_ID (lease_message l) = k \<and> issued s k) \<and>
     finite (dom (inflight st)) \<and> length (dlq st) \<le> 10000"

definition queues_ok :: "cache \<Rightarrow> bool" where
  "queues_ok c \<longleftrightarrow> 0 \<le> fileSeq c \<and> queue_ok (fileSeq c) (fileProcessingQueue c) \<and>
     queue_ok (fileSeq c) (fileEmbeddingQueue c)"

lemma queues_ok_get: "queues_ok c \<Longrightarrow> queue_ok (fileSeq c) (fileQueueState q c)"
  by (simp add: queues_ok_def fileQueueState_def)

lemma issued_mono: "issued s i \<Longrightarrow> s \<le> s' \<Longrightarrow> issued s' i"
  by (auto simp: issued_def)

lemma queue_ok_mono: "queue_ok s st \<Longrightarrow> s \<le> s' \<Longrightarrow> queue_ok s' st"
  by (auto simp: queue_ok_def intro: issued_mono)

lemma queues_ok_sweep [simp]: "queues_ok (maybeSweepLocked now c) = queues_ok c"
  by (simp add: queues_ok_def)

lemma queues_ok_set:
  assumes "queues_ok c" and "fileSeq c \<le> n" and "queue_ok n st"
  shows "queues_ok (set_fileQueueState q st (c\<lparr>fileSeq := n\<rparr>))"
  using assms by (auto simp: queues_ok_def set_fileQueueState_def intro: queue_ok_mono)

lemma queues_ok_set_same:
  "queues_ok c \<Longrightarrow> queue_ok (fileSeq c) st \<Longrightarrow> queues_ok (set_fileQueueState q st c)"
  by (auto simp: queues_ok_def set_fileQueueState_def)

lemma fresh_not_issued: "0 \<le> s \<Longrightarrow> \<not> issued s (format_int (s + 1))"
  by (auto simp: issued_def format_int_def split: if_splits)

lemma new_id_issued: "0 \<le> s \<Longrightarrow> issued (s + 1) (format_int (s + 1))"
  by (auto simp: issued_def intro!: exI [of _ "s + 1"])

lemma issued_trim: "issued s i \<Longrightarrow> trim_space i = i \<and> i \<noteq> []"
  by (auto simp: issued_def format_int_def)

lemma queue_ok_append:
  assumes "queue_ok s st" and "0 \<le> s" and "msg_ID m = format_int (s + 1)"
  shows "queue_ok (s + 1) (notifyFileQueueLocked (st\<lparr>fq_queue := fq_queue st @ [m]\<rparr>))"
proof -
  have "queue_ok (s + 1) st" using assms(1) by (rule queue_ok_mono) simp
  moreover have "inflight st (msg_ID m) = None"
    using assms fresh_not_issued [OF assms(2)] by (cases "inflight st (msg_ID m)") (auto simp: queue_ok_def)
  moreover have "msg_ID m \<notin> msg_ID ` set (fq_queue st)"
    using assms fresh_not_issued [OF assms(2)] by (auto simp: queue_ok_def)
  ultimately show ?thesis using assms(3) new_id_issued [OF assms(2)] by (auto simp: queue_ok_def)
qed

lemma queue_ok_del:
  "queue_ok s st \<Longrightarrow> queue_ok s (st\<lparr>inflight := map_del i (inflight st)\<rparr>)"
  by (auto simp: queue_ok_def map_del_def dom_def split: if_splits elim: rev_finite_subset)

lemma queue_ok_lease_update:
  assumes "queue_ok s st" and "inflight st i = Some l" and "msg_ID (lease_message l') = i"
  shows "queue_ok s (st\<lparr>inflight := (inflight st)(i \<mapsto> l')\<rparr>)"
  using assms by (auto simp: queue_ok_def)

lemma queue_ok_read:
  assumes "queue_ok s st" and "fq_queue st = m # rest" and "lease_message l = m"
  shows "queue_ok s (st\<lparr>fq_queue := rest, inflight := (inflight st)(msg_ID m \<mapsto> l)\<rparr>)"
  using assms by (auto simp: queue_ok_def) (metis imageI)

section \<open>Counting jobs\<close>

text \<open>The file ids of the jobs a queue still has to finish: queued or in flight.\<close>

definition leased_files :: "(string \<rightharpoonup> file_lease) \<Rightarrow> string multiset" where
  "leased_files m = image_mset (\<lambda>k. msg_FileID (lease_message (the (m k)))) (mset_set (dom m))"

definition tracked :: "file_queue_state \<Rightarrow> string multiset" where
  "tracked st = image_mset msg_FileID (mset (fq_queue st)) + leased_files (inflight st)"

lemma leased_files_new:
  assumes "finite (dom m)" and "m k = None"
  shows "leased_files (m(k \<mapsto> l)) = add_mset (msg_FileID (lease_message l)) (leased_files m)"
proof -
  have k: "k \<notin> dom m" using assms(2) by blast
  have "image_mset (\<lambda>j. msg_FileID (lease_message (the ((m(k \<mapsto> l)) j)))) (mset_set (dom m)) =
      image_mset (\<lambda>j. msg_FileID (lease_message (the (m j)))) (mset_set (dom m))"
    using k assms(1) by (intro image_mset_cong) auto
  with k assms(1) show ?thesis by (simp add: leased_files_def)
qed

lemma leased_files_del:
  assumes "finite (dom m)" and "m k = Some l"
  shows "leased_files m = add_mset (msg_FileID (lease_message l)) (leased_files (map_del k m))"
proof -
  have "finite (dom (map_del k m))" using assms(1) by (simp add: map_del_def)
  then have "leased_files ((map_del k m)(k \<mapsto> l)) =
      add_mset (msg_FileID (lease_message l)) (leased_files (map_del k m))"
    by (rule leased_files_new) simp
  moreover have "(map_del k m)(k \<mapsto> l) = m" using assms(2) by (auto simp: map_del_def)
  ultimately show ?thesis by simp
qed

lemma leased_files_update:
  assumes "finite (dom m)" and "m k = Some l" and "msg_FileID (lease_message l') = msg_FileID (lease_message l)"
  shows "leased_files (m(k \<mapsto> l')) = leased_files m"
proof -
  have "map_del k (m(k \<mapsto> l')) = map_del k m" by (auto simp: map_del_def)
  moreover have "finite (dom (m(k \<mapsto> l')))" using assms(1) by simp
  ultimately show ?thesis
    using leased_files_del [of "m(k \<mapsto> l')" k l'] leased_files_del [OF assms(1,2)] assms(3) by simp
qed

lemma tracked_notify [simp]: "tracked (notifyFileQueueLocked st) = tracked st"
  by (simp add: tracked_def)

section \<open>The scan for the oldest idle lease\<close>

lemma oldest_idle_result:
  assumes "oldest_idle now m ids cid cand = (r, l)" and "r \<noteq> []"
  shows "(r = cid \<and> l = cand) \<or> (r \<in> set ids \<and> m r = Some l \<and> fileProcessingMinIdle \<le> now - leasedAt l)"
  using assms
  by (induction now m ids cid cand rule: oldest_idle.induct) (auto split: option.splits if_splits)

lemma oldest_idle_min:
  assumes "oldest_idle now m ids cid cand = (r, l)" and "\<forall>i \<in> set ids. i \<noteq> []"
  shows "\<forall>i \<in> set ids. \<forall>l'. m i = Some l' \<longrightarrow> fileProcessingMinIdle \<le> now - leasedAt l' \<longrightarrow>
      r \<noteq> [] \<and> leasedAt l \<le> leasedAt l'"
    and "cid \<noteq> [] \<longrightarrow> r \<noteq> [] \<and> leasedAt l \<le> leasedAt cand"
  using assms
  by (induction now m ids cid cand rule: oldest_idle.induct) (auto split: option.splits if_splits; fastforce)+

section \<open>Each operation, and runs of operations\<close>

datatype fq_op =
    FqEnqueue gotime nat string int string
  | FqEnqueueEmbedding gotime nat string string string
  | FqRead string string gotime
  | FqReclaim string string gotime "string list"
  | FqRenew string file_message gotime
  | FqSettle string file_message gotime
  | FqRequeue string file_message int string gotime
  | FqDeadLetter string file_message string gotime

text \<open>A read in one step finds a message or ends with its timer.\<close>

primrec fq_step :: "fq_op \<Rightarrow> cache \<Rightarrow> cache" where
  "fq_step (FqEnqueue now u f retry err) c = snd (EnqueueFileProcessing None now u f retry err c)"
| "fq_step (FqEnqueueEmbedding now u f sg h) c = snd (EnqueueFileEmbedding None now u f sg h c)"
| "fq_step (FqRead consumer q now) c =
     snd (the (readFileMessages consumer q None now c [WaitTimeout c]))"
| "fq_step (FqReclaim consumer q now ids) c = snd (claimTimedOutFileMessages None now ids consumer q c)"
| "fq_step (FqRenew consumer m now) c = snd (RenewFileProcessingMessageLease None now consumer m c)"
| "fq_step (FqSettle consumer m now) c = snd (SettleFileProcessingMessage None now consumer m c)"
| "fq_step (FqRequeue consumer m retry err now) c = snd (RequeueFileProcessingMessage None now consumer m retry err c)"
| "fq_step (FqDeadLetter consumer m err now) c = snd (DeadLetterFileProcessingMessage None now consumer m err c)"

primrec fq_time :: "fq_op \<Rightarrow> gotime" where
  "fq_time (FqEnqueue now u f retry err) = now"
| "fq_time (FqEnqueueEmbedding now u f sg h) = now"
| "fq_time (FqRead consumer q now) = now"
| "fq_time (FqReclaim consumer q now ids) = now"
| "fq_time (FqRenew consumer m now) = now"
| "fq_time (FqSettle consumer m now) = now"
| "fq_time (FqRequeue consumer m retry err now) = now"
| "fq_time (FqDeadLetter consumer m err now) = now"

primrec fq_consumer :: "fq_op \<Rightarrow> string option" where
  "fq_consumer (FqEnqueue now u f retry err) = None"
| "fq_consumer (FqEnqueueEmbedding now u f sg h) = None"
| "fq_consumer (FqRead consumer q now) = Some (trim_space consumer)"
| "fq_consumer (FqReclaim consumer q now ids) = Some (trim_space consumer)"
| "fq_consumer (FqRenew consumer m now) = Some (trim_space consumer)"
| "fq_consumer (FqSettle consumer m now) = Some (trim_space consumer)"
| "fq_consumer (FqRequeue consumer m retry err now) = Some (trim_space consumer)"
| "fq_consumer (FqDeadLetter consumer m err now) = Some (trim_space consumer)"

lemma readFileMessages_now:
  "readFileMessages consumer q None now c [WaitTimeout c] =
     Some (if trim_space consumer = [] then (Inr [], c)
       else case fq_queue (fileQueueState q c) of
           [] \<Rightarrow> (Inr [], c)
         | msg # rest \<Rightarrow> (Inr [msg], set_fileQueueState q ((fileQueueState q c)\<lparr>fq_queue := rest,
             inflight := (inflight (fileQueueState q c))(msg_ID msg \<mapsto> \<lparr>consumerName = trim_space consumer,
               leasedAt = now, lease_message = msg\<rparr>)\<rparr>) c))"
  by (auto simp: readFileMessages_def Let_def split: list.splits)

lemma held_leaseD:
  "held_lease consumer m c = Some l \<Longrightarrow>
     inflight (fileQueueState (queueForMessage m) c) (trim_space (msg_ID m)) = Some l \<and>
     consumerName l = trim_space consumer"
  by (auto simp: held_lease_def split: option.splits if_splits)

lemma enqueueFileMessage_ok:
  assumes "queues_ok c" shows "queues_ok (snd (enqueueFileMessage ctxErr now m c))"
proof -
  have "0 \<le> fileSeq c" using assms by (simp add: queues_ok_def)
  then show ?thesis using assms
    by (auto simp: enqueueFileMessage_def Let_def split: option.splits
        intro!: queues_ok_set queue_ok_append queues_ok_get)
qed

lemma claimTimedOut_cases:
  assumes "claimTimedOutFileMessages ctxErr now ids consumer q c = (r, c')"
  obtains "c' = c" "r = Inr [] \<or> (\<exists>e. ctxErr = Some e \<and> r = Inl e)"
  | i l where "ctxErr = None" "i \<in> set ids" "i \<noteq> []" "inflight (fileQueueState q c) i = Some l"
      "fileProcessingMinIdle \<le> now - leasedAt l" "trim_space consumer \<noteq> []"
      "r = Inr [(lease_message l)\<lparr>msg_Reclaimed := True\<rparr>]"
      "c' = set_fileQueueState q ((fileQueueState q c)\<lparr>inflight := (inflight (fileQueueState q c))
        (i \<mapsto> l\<lparr>consumerName := trim_space consumer, leasedAt := now,
          lease_message := (lease_message l)\<lparr>msg_Reclaimed := True\<rparr>\<rparr>)\<rparr>) c"
      "oldest_idle now (inflight (fileQueueState q c)) ids [] zero_lease = (i, l)"
proof (cases "oldest_idle now (inflight (fileQueueState q c)) ids [] zero_lease")
  case (Pair i l)
  note r = oldest_idle_result [OF Pair]
  show thesis
  proof (cases "trim_space consumer = [] \<or> ctxErr \<noteq> None \<or> i = []")
    case True
    then show thesis using assms Pair
      by (intro that(1)) (auto simp: claimTimedOutFileMessages_def split: option.splits if_splits)
  next
    case False
    then show thesis using assms Pair r
      by (intro that(2) [of i l]) (auto simp: claimTimedOutFileMessages_def Let_def)
  qed
qed

lemma queue_ok_lease: "queue_ok s st \<Longrightarrow> inflight st i = Some l \<Longrightarrow> msg_ID (lease_message l) = i \<and> issued s i"
  by (simp add: queue_ok_def)

lemma claimTimedOut_ok:
  assumes "queues_ok c" shows "queues_ok (snd (claimTimedOutFileMessages ctxErr now ids consumer q c))"
proof (cases "claimTimedOutFileMessages ctxErr now ids consumer q c")
  case (Pair r c')
  then show ?thesis
  proof (cases rule: claimTimedOut_cases)
    case (2 i l)
    have "queue_ok (fileSeq c) (fileQueueState q c)" using assms by (rule queues_ok_get)
    then show ?thesis using Pair 2 assms
      by (auto intro!: queues_ok_set_same queue_ok_lease_update dest: queue_ok_lease)
  qed (use assms Pair in auto)
qed

lemma readFileMessages_ok:
  assumes "queues_ok c"
  shows "queues_ok (snd (the (readFileMessages consumer q None now c [WaitTimeout c])))"
  using assms queues_ok_get [OF assms, of q]
  by (auto simp: readFileMessages_now split: list.splits intro!: queues_ok_set_same queue_ok_read)

lemma Renew_ok:
  assumes "queues_ok c" shows "queues_ok (snd (RenewFileProcessingMessageLease ctxErr now consumer m c))"
  using assms queues_ok_get [OF assms, of "queueForMessage m"]
  by (auto simp: RenewFileProcessingMessageLease_def Let_def split: option.splits
      intro!: queues_ok_set_same queue_ok_lease_update dest!: held_leaseD dest: queue_ok_lease)

lemma Settle_ok:
  assumes "queues_ok c" shows "queues_ok (snd (SettleFileProcessingMessage ctxErr now consumer m c))"
  using assms queues_ok_get [OF assms, of "queueForMessage m"]
  by (auto simp: SettleFileProcessingMessage_def Let_def split: option.splits
      intro!: queues_ok_set_same queue_ok_del)

lemma queue_ok_requeue:
  assumes "queue_ok s st" and "0 \<le> s" and "msg_ID m = format_int (s + 1)"
  shows "queue_ok (s + 1) (notifyFileQueueLocked (st\<lparr>fq_queue := fq_queue st @ [m], inflight := map_del i (inflight st)\<rparr>))"
proof -
  have "queue_ok s (st\<lparr>inflight := map_del i (inflight st)\<rparr>)" using assms(1) by (rule queue_ok_del)
  from queue_ok_append [OF this assms(2,3)] show ?thesis by (cases st) simp
qed

lemma trim_dlq_bound: "length (trim_dlq d) \<le> 10000"
  by (simp add: trim_dlq_def)

lemma Requeue_ok:
  assumes "queues_ok c" shows "queues_ok (snd (RequeueFileProcessingMessage ctxErr now consumer m retry err c))"
proof -
  have "0 \<le> fileSeq c" using assms by (simp add: queues_ok_def)
  then show ?thesis using assms queues_ok_get [OF assms, of "queueForMessage m"]
    by (auto simp: RequeueFileProcessingMessage_def Let_def split: option.splits
        intro!: queues_ok_set queue_ok_requeue)
qed

lemma queue_ok_dead:
  assumes "queue_ok s st" and "s \<le> s'"
  shows "queue_ok s' (st\<lparr>dlq := trim_dlq d, inflight := map_del i (inflight st)\<rparr>)"
  using queue_ok_mono [OF queue_ok_del [OF assms(1)] assms(2)] trim_dlq_bound [of d]
  by (simp add: queue_ok_def)

lemma DeadLetter_ok:
  assumes "queues_ok c" shows "queues_ok (snd (DeadLetterFileProcessingMessage ctxErr now consumer m err c))"
  using assms queues_ok_get [OF assms, of "queueForMessage m"]
  by (auto simp: DeadLetterFileProcessingMessage_def Let_def split: option.splits
      intro!: queues_ok_set queue_ok_dead)

lemma fq_step_ok: "queues_ok c \<Longrightarrow> queues_ok (fq_step x c)"
  by (cases x) (simp_all add: EnqueueFileProcessing_def EnqueueFileEmbedding_def Let_def
      enqueueFileMessage_ok claimTimedOut_ok readFileMessages_ok Renew_ok Settle_ok Requeue_ok DeadLetter_ok)

lemma new_cache_queues_ok: "queues_ok new_cache"
  by (simp add: queues_ok_def queue_ok_def new_cache_def new_file_queue_state_def)

section \<open>Conservation of jobs\<close>

definition jobs :: "cache \<Rightarrow> string multiset" where
  "jobs c = tracked (fileProcessingQueue c) + tracked (fileEmbeddingQueue c)"

text \<open>The file ids a step accepts into, and removes from, the queues.\<close>

definition accepted :: "file_message \<Rightarrow> cache \<Rightarrow> string multiset" where
  "accepted m c = (if trim_space (msg_FileID m) = [] \<or> maxFileQueueLength \<le> length (fq_queue (fileQueueState (msg_Queue m) c))
     then {#} else {#trim_space (msg_FileID m)#})"

primrec fq_gain :: "cache \<Rightarrow> fq_op \<Rightarrow> string multiset" where
  "fq_gain c (FqEnqueue now u f retry err) =
     accepted (zero_message\<lparr>msg_FileID := f, msg_Queue := FileProcessingQueueDefault\<rparr>) c"
| "fq_gain c (FqEnqueueEmbedding now u f sg h) =
     (if trim_space sg = [] \<or> trim_right_char (CHR ''/'') (trim_space h) = [] then {#}
      else accepted (zero_message\<lparr>msg_FileID := f, msg_Queue := FileProcessingQueueEmbedding\<rparr>) c)"
| "fq_gain c (FqRead consumer q now) = {#}"
| "fq_gain c (FqReclaim consumer q now ids) = {#}"
| "fq_gain c (FqRenew consumer m now) = {#}"
| "fq_gain c (FqSettle consumer m now) = {#}"
| "fq_gain c (FqRequeue consumer m retry err now) = {#}"
| "fq_gain c (FqDeadLetter consumer m err now) = {#}"

definition finished :: "string \<Rightarrow> file_message \<Rightarrow> cache \<Rightarrow> string multiset" where
  "finished consumer m c =
     (case held_lease consumer m c of None \<Rightarrow> {#} | Some l \<Rightarrow> {#msg_FileID (lease_message l)#})"

primrec fq_loss :: "cache \<Rightarrow> fq_op \<Rightarrow> string multiset" where
  "fq_loss c (FqEnqueue now u f retry err) = {#}"
| "fq_loss c (FqEnqueueEmbedding now u f sg h) = {#}"
| "fq_loss c (FqRead consumer q now) = {#}"
| "fq_loss c (FqReclaim consumer q now ids) = {#}"
| "fq_loss c (FqRenew consumer m now) = {#}"
| "fq_loss c (FqSettle consumer m now) = finished consumer m c"
| "fq_loss c (FqRequeue consumer m retry err now) = {#}"
| "fq_loss c (FqDeadLetter consumer m err now) = finished consumer m c"

text \<open>A worker requeues the message it was given: the one under its lease.\<close>

definition requeue_honest :: "string \<Rightarrow> file_message \<Rightarrow> cache \<Rightarrow> bool" where
  "requeue_honest consumer m c =
     (case held_lease consumer m c of None \<Rightarrow> True
      | Some l \<Rightarrow> trim_space (msg_FileID m) = msg_FileID (lease_message l))"

primrec fq_honest :: "cache \<Rightarrow> fq_op \<Rightarrow> bool" where
  "fq_honest c (FqEnqueue now u f retry err) = True"
| "fq_honest c (FqEnqueueEmbedding now u f sg h) = True"
| "fq_honest c (FqRead consumer q now) = True"
| "fq_honest c (FqReclaim consumer q now ids) = True"
| "fq_honest c (FqRenew consumer m now) = True"
| "fq_honest c (FqSettle consumer m now) = True"
| "fq_honest c (FqRequeue consumer m retry err now) = requeue_honest consumer m c"
| "fq_honest c (FqDeadLetter consumer m err now) = True"

lemma jobs_sweep [simp]: "jobs (maybeSweepLocked now c) = jobs c"
  by (simp add: jobs_def)

lemma jobs_seq [simp]: "jobs (c\<lparr>fileSeq := n\<rparr>) = jobs c"
  by (simp add: jobs_def)

lemma jobs_set:
  assumes "tracked st + L = tracked (fileQueueState q c) + G"
  shows "jobs (set_fileQueueState q st c) + L = jobs c + G"
  using assms by (auto simp: jobs_def set_fileQueueState_def fileQueueState_def ac_simps
      intro: arg_cong2 [of _ _ _ _ "(+)"] dest: arg_cong [of _ _ "\<lambda>x. x + tracked _"])

lemma queue_ok_finite: "queue_ok s st \<Longrightarrow> finite (dom (inflight st))"
  by (simp add: queue_ok_def)

lemma enqueueFileMessage_balance:
  assumes "queues_ok c"
  shows "jobs c + accepted m c = jobs (snd (enqueueFileMessage None now m c))"
proof -
  have "tracked (st\<lparr>fq_queue := fq_queue st @ [x]\<rparr>) = tracked st + {#msg_FileID x#}" for st x
    by (simp add: tracked_def)
  then show ?thesis
    using jobs_set [of "notifyFileQueueLocked ((fileQueueState (msg_Queue m) c)\<lparr>fq_queue := fq_queue (fileQueueState (msg_Queue m) c) @ [x]\<rparr>)"
        "{#}" "msg_Queue m" "c\<lparr>fileSeq := n\<rparr>" "{#msg_FileID x#}" for x n]
    by (simp add: enqueueFileMessage_def accepted_def Let_def)
qed

lemma tracked_lease_update:
  assumes "queue_ok s st" and "inflight st i = Some l"
    and "msg_FileID (lease_message l') = msg_FileID (lease_message l)"
  shows "tracked (st\<lparr>inflight := (inflight st)(i \<mapsto> l')\<rparr>) = tracked st"
  using leased_files_update [OF queue_ok_finite [OF assms(1)] assms(2,3)] by (simp add: tracked_def)

lemma tracked_del:
  assumes "queue_ok s st" and "inflight st i = Some l"
  shows "tracked (st\<lparr>inflight := map_del i (inflight st)\<rparr>) + {#msg_FileID (lease_message l)#} = tracked st"
  using leased_files_del [OF queue_ok_finite [OF assms(1)] assms(2)] by (simp add: tracked_def)

lemma tracked_read:
  assumes "queue_ok s st" and "fq_queue st = m # rest" and "lease_message l = m"
  shows "tracked (st\<lparr>fq_queue := rest, inflight := (inflight st)(msg_ID m \<mapsto> l)\<rparr>) = tracked st"
proof -
  have "inflight st (msg_ID m) = None" using assms by (simp add: queue_ok_def)
  from leased_files_new [OF queue_ok_finite [OF assms(1)] this, of l] show ?thesis
    using assms(2,3) by (simp add: tracked_def)
qed

lemma jobs_set_same: "tracked st = tracked (fileQueueState q c) \<Longrightarrow> jobs (set_fileQueueState q st c) = jobs c"
  using jobs_set [of st "{#}" q c "{#}"] by simp

lemma claimTimedOut_balance:
  assumes "queues_ok c"
  shows "jobs (snd (claimTimedOutFileMessages None now ids consumer q c)) = jobs c"
proof (cases "claimTimedOutFileMessages None now ids consumer q c")
  case (Pair r c')
  then show ?thesis
  proof (cases rule: claimTimedOut_cases)
    case (2 i l)
    then show ?thesis using Pair queues_ok_get [OF assms, of q]
      by (auto intro!: jobs_set_same tracked_lease_update)
  qed (use Pair in auto)
qed

lemma readFileMessages_balance:
  assumes "queues_ok c"
  shows "jobs (snd (the (readFileMessages consumer q None now c [WaitTimeout c]))) = jobs c"
  using queues_ok_get [OF assms, of q]
  by (auto simp: readFileMessages_now split: list.splits intro!: jobs_set_same tracked_read)

lemma Renew_balance:
  assumes "queues_ok c" shows "jobs (snd (RenewFileProcessingMessageLease None now consumer m c)) = jobs c"
  using queues_ok_get [OF assms, of "queueForMessage m"]
  by (auto simp: RenewFileProcessingMessageLease_def Let_def split: option.splits
      intro!: jobs_set_same tracked_lease_update dest!: held_leaseD)

lemma Settle_balance:
  assumes "queues_ok c"
  shows "jobs (snd (SettleFileProcessingMessage None now consumer m c)) + finished consumer m c = jobs c"
proof (cases "held_lease consumer m c")
  case (Some l)
  let ?q = "queueForMessage m" and ?i = "trim_space (msg_ID m)"
  have "tracked ((fileQueueState ?q c)\<lparr>inflight := map_del ?i (inflight (fileQueueState ?q c))\<rparr>) +
      {#msg_FileID (lease_message l)#} = tracked (fileQueueState ?q c) + {#}"
    using tracked_del [OF queues_ok_get [OF assms]] held_leaseD [OF Some] by simp
  from jobs_set [OF this] show ?thesis
    by (simp add: SettleFileProcessingMessage_def finished_def Some Let_def)
qed (simp add: SettleFileProcessingMessage_def finished_def Let_def)

lemma Requeue_balance:
  assumes "queues_ok c" and "requeue_honest consumer m c"
  shows "jobs (snd (RequeueFileProcessingMessage None now consumer m retry err c)) = jobs c"
proof (cases "held_lease consumer m c")
  case (Some l)
  let ?q = "queueForMessage m" and ?i = "trim_space (msg_ID m)"
  let ?st = "fileQueueState ?q c"
  have d: "tracked (?st\<lparr>inflight := map_del ?i (inflight ?st)\<rparr>) + {#msg_FileID (lease_message l)#} = tracked ?st"
    using tracked_del [OF queues_ok_get [OF assms(1)]] held_leaseD [OF Some] by simp
  have "tracked (notifyFileQueueLocked (?st\<lparr>fq_queue := fq_queue ?st @ [x], inflight := map_del ?i (inflight ?st)\<rparr>)) =
      tracked ?st" if "msg_FileID x = msg_FileID (lease_message l)" for x
    using d that by (simp add: tracked_def)
  then show ?thesis using assms(2)
    by (simp add: RequeueFileProcessingMessage_def requeue_honest_def Some Let_def jobs_set_same)
qed (simp add: RequeueFileProcessingMessage_def Let_def)

lemma DeadLetter_balance:
  assumes "queues_ok c"
  shows "jobs (snd (DeadLetterFileProcessingMessage None now consumer m err c)) + finished consumer m c = jobs c"
proof (cases "held_lease consumer m c")
  case (Some l)
  let ?q = "queueForMessage m" and ?i = "trim_space (msg_ID m)"
  let ?st = "fileQueueState ?q c"
  have "tracked (?st\<lparr>dlq := d, inflight := map_del ?i (inflight ?st)\<rparr>) +
      {#msg_FileID (lease_message l)#} = tracked ?st + {#}" for d
    using tracked_del [OF queues_ok_get [OF assms]] held_leaseD [OF Some] by (simp add: tracked_def)
  from jobs_set [of _ _ _ "c\<lparr>fileSeq := _\<rparr>", simplified, OF this] show ?thesis
    by (simp add: DeadLetterFileProcessingMessage_def finished_def Some Let_def)
qed (simp add: DeadLetterFileProcessingMessage_def finished_def Let_def)

lemma fq_step_balance:
  assumes "queues_ok c" and "fq_honest c x"
  shows "jobs c + fq_gain c x = jobs (fq_step x c) + fq_loss c x"
proof (cases x)
  case (FqEnqueue now u f retry err)
  let ?m = "zero_message\<lparr>msg_UserID := u, msg_FileID := f, msg_Retry := retry, msg_LastError := err,
    msg_Queue := FileProcessingQueueDefault\<rparr>"
  have "accepted (zero_message\<lparr>msg_FileID := f, msg_Queue := FileProcessingQueueDefault\<rparr>) c = accepted ?m c"
    by (simp add: accepted_def)
  then show ?thesis using enqueueFileMessage_balance [OF assms(1), of ?m now]
    by (simp add: FqEnqueue EnqueueFileProcessing_def)
next
  case (FqEnqueueEmbedding now u f sg h)
  let ?h = "trim_right_char (CHR ''/'') (trim_space h)"
  let ?m = "zero_message\<lparr>msg_UserID := u, msg_FileID := trim_space f, msg_Kind := FileProcessingKindEmbedding,
    msg_Queue := FileProcessingQueueEmbedding, msg_EmbeddingSignature := trim_space sg, msg_EmbeddingHost := ?h\<rparr>"
  have "accepted (zero_message\<lparr>msg_FileID := f, msg_Queue := FileProcessingQueueEmbedding\<rparr>) c = accepted ?m c"
    by (simp add: accepted_def)
  then show ?thesis using enqueueFileMessage_balance [OF assms(1), of ?m now]
    by (cases "trim_space f = []") (simp_all add: FqEnqueueEmbedding EnqueueFileEmbedding_def accepted_def Let_def)
qed (use assms in \<open>simp_all add: claimTimedOut_balance readFileMessages_balance Renew_balance
      Settle_balance Requeue_balance DeadLetter_balance\<close>)

interpretation job_ledger: ledger fq_step queues_ok fq_honest jobs fq_gain fq_loss
  by unfold_locales (auto intro: fq_step_ok fq_step_balance)

text \<open>
  C6: no job is lost or duplicated. Over any run of operations of any number of
  consumers on both queues (reads, renewals, reclaims of timed-out leases and honest requeues
  included), the file ids accepted so far are, with their multiplicities, exactly those still
  queued or in flight plus those a holder settled or dead-lettered.
\<close>

theorem jobs_conserved:
  assumes "queues_ok c" and "steps_ok fq_step fq_honest c xs"
  shows "jobs c + sum_steps fq_step fq_gain c xs =
      jobs (fold fq_step xs c) + sum_steps fq_step fq_loss c xs"
  using assms by (rule job_ledger.run_balance)

definition demo_ops :: "fq_op list" where
  "demo_ops = [FqEnqueue 1 7 ''f1'' 0 [], FqEnqueue 2 7 ''f2'' 0 [], FqRead ''w1'' ''file_processing'' 3,
     FqRequeue ''w1'' (zero_message\<lparr>msg_ID := ''1'', msg_FileID := ''f1''\<rparr>) 1 ''boom'' 4,
     FqRead ''w2'' ''file_processing'' 5, FqSettle ''w2'' (zero_message\<lparr>msg_ID := ''2''\<rparr>) 6]"

lemma jobs_conserved_witness:
  "sum_steps fq_step fq_gain new_cache demo_ops =
     jobs (fold fq_step demo_ops new_cache) + sum_steps fq_step fq_loss new_cache demo_ops"
proof -
  have "steps_ok fq_step fq_honest new_cache demo_ops" by code_simp
  moreover have "jobs new_cache = {#}"
    by (simp add: jobs_def tracked_def leased_files_def new_cache_def new_file_queue_state_def)
  ultimately show ?thesis using jobs_conserved [OF new_cache_queues_ok] by simp
qed

section \<open>Leases\<close>

lemma enqueueFileMessage_inflight [simp]:
  "inflight (fileQueueState q (snd (enqueueFileMessage ctxErr now m c))) = inflight (fileQueueState q c)"
  by (auto simp: enqueueFileMessage_def Let_def split: option.splits intro: fileQueueState_class arg_cong [of _ _ inflight])

lemma claimTimedOut_protects:
  assumes "inflight (fileQueueState q c) i = Some l" and "now < leasedAt l + fileProcessingMinIdle"
  shows "inflight (fileQueueState q (snd (claimTimedOutFileMessages None now ids consumer q' c))) i = Some l"
proof (cases "claimTimedOutFileMessages None now ids consumer q' c")
  case (Pair r c')
  then show ?thesis
  proof (cases rule: claimTimedOut_cases)
    case (2 j l')
    have "j \<noteq> i \<and> fileQueueState q c = fileQueueState q' c \<or> is_embedding q \<noteq> is_embedding q'"
    proof (cases "is_embedding q = is_embedding q'")
      case True
      then have "fileQueueState q c = fileQueueState q' c" by (rule fileQueueState_class)
      then show ?thesis using 2(4,5) assms by (cases "j = i") auto
    qed simp
    then show ?thesis using Pair 2(8) assms(1) by auto
  qed (use Pair assms in auto)
qed

lemma readFileMessages_protects:
  assumes "queues_ok c" and "inflight (fileQueueState q c) i = Some l"
  shows "inflight (fileQueueState q (snd (the (readFileMessages consumer q' None now c [WaitTimeout c])))) i = Some l"
  using assms queues_ok_get [OF assms(1), of q'] fileQueueState_class [of q q' c]
  by (auto simp: readFileMessages_now queue_ok_def split: list.splits)

lemma other_holder:
  assumes "inflight (fileQueueState q c) i = Some l" and "trim_space consumer \<noteq> consumerName l"
    and "held_lease consumer m c = Some l'" and "is_embedding q = is_embedding (queueForMessage m)"
  shows "trim_space (msg_ID m) \<noteq> i"
  using assms held_leaseD [OF assms(3)] fileQueueState_class [OF assms(4), of c] by auto

lemma holder_op_protects:
  assumes "inflight (fileQueueState q c) i = Some l" and "trim_space consumer \<noteq> consumerName l"
  shows "inflight (fileQueueState q (snd (RenewFileProcessingMessageLease None now consumer m c))) i = Some l"
    and "inflight (fileQueueState q (snd (SettleFileProcessingMessage None now consumer m c))) i = Some l"
    and "inflight (fileQueueState q (snd (RequeueFileProcessingMessage None now consumer m retry err c))) i = Some l"
    and "inflight (fileQueueState q (snd (DeadLetterFileProcessingMessage None now consumer m err c))) i = Some l"
proof -
  have "held_lease consumer m c = None \<or> is_embedding q \<noteq> is_embedding (queueForMessage m) \<or>
      trim_space (msg_ID m) \<noteq> i \<and> fileQueueState q c = fileQueueState (queueForMessage m) c"
    using other_holder [OF assms] fileQueueState_class [of q "queueForMessage m" c]
    by (cases "held_lease consumer m c") auto
  then show "inflight (fileQueueState q (snd (RenewFileProcessingMessageLease None now consumer m c))) i = Some l"
    and "inflight (fileQueueState q (snd (SettleFileProcessingMessage None now consumer m c))) i = Some l"
    and "inflight (fileQueueState q (snd (RequeueFileProcessingMessage None now consumer m retry err c))) i = Some l"
    and "inflight (fileQueueState q (snd (DeadLetterFileProcessingMessage None now consumer m err c))) i = Some l"
    using assms(1)
    by (auto simp: RenewFileProcessingMessageLease_def SettleFileProcessingMessage_def map_del_def
        RequeueFileProcessingMessage_def DeadLetterFileProcessingMessage_def Let_def split: option.splits)
qed

lemma fq_step_protects:
  assumes "queues_ok c" and "inflight (fileQueueState q c) i = Some l"
    and "fq_time x < leasedAt l + fileProcessingMinIdle" and "fq_consumer x \<noteq> Some (consumerName l)"
  shows "inflight (fileQueueState q (fq_step x c)) i = Some l"
  using assms
  by (cases x) (auto simp: EnqueueFileProcessing_def EnqueueFileEmbedding_def Let_def
      intro: claimTimedOut_protects readFileMessages_protects holder_op_protects)

text \<open>
  A lease is exclusive while it is fresh. As long as the clock has not reached 45
  seconds after the holder's last renewal, no sequence of operations by others (enqueues, reads,
  reclaims in any iteration order, renewals, settlements, requeues and dead-letterings with any
  message) removes, reassigns or changes it.
\<close>

theorem lease_protected:
  assumes "queues_ok c" and "inflight (fileQueueState q c) i = Some l"
    and "\<forall>x \<in> set xs. fq_time x < leasedAt l + fileProcessingMinIdle \<and> fq_consumer x \<noteq> Some (consumerName l)"
  shows "inflight (fileQueueState q (fold fq_step xs c)) i = Some l"
  using assms
proof (induction xs arbitrary: c)
  case (Cons x xs)
  then have "inflight (fileQueueState q (fq_step x c)) i = Some l" by (intro fq_step_protects) auto
  then show ?case using Cons.prems Cons.IH [of "fq_step x c"] fq_step_ok by simp
qed simp

definition demo_leased :: cache where
  "demo_leased = fold fq_step [FqEnqueue 1 7 ''f1'' 0 [], FqRead ''w1'' ''file_processing'' 3] new_cache"

lemma demo_leased_ok: "queues_ok demo_leased"
  unfolding demo_leased_def by (simp del: fq_step.simps add: fq_step_ok new_cache_queues_ok)

lemma lease_protected_witness:
  "map_option consumerName (inflight (fileQueueState ''file_processing''
     (fold fq_step [FqReclaim ''w2'' ''file_processing'' 45000000002 [''1''],
        FqSettle ''w2'' (zero_message\<lparr>msg_ID := ''1''\<rparr>) 5] demo_leased)) ''1'') = Some ''w1''"
proof -
  obtain l where l: "inflight (fileQueueState ''file_processing'' demo_leased) ''1'' = Some l"
      "leasedAt l = 3" "consumerName l = ''w1''"
    by (rule that [of "\<lparr>consumerName = ''w1'', leasedAt = 3, lease_message =
      zero_message\<lparr>msg_ID := ''1'', msg_UserID := 7, msg_FileID := ''f1'', msg_Queue := ''file_processing''\<rparr>\<rparr>"])
      code_simp+
  have "fileProcessingMinIdle = 45000000000" "trim_space ''w2'' = ''w2''" by code_simp+
  then show ?thesis
    using lease_protected [OF demo_leased_ok l(1), of "[FqReclaim ''w2'' ''file_processing'' 45000000002 [''1''],
        FqSettle ''w2'' (zero_message\<lparr>msg_ID := ''1''\<rparr>) 5]"] l(2,3) by simp
qed

lemma held_lease_other:
  assumes "inflight (fileQueueState q c) (trim_space (msg_ID m)) = Some l" and "consumerName l \<noteq> trim_space consumer"
    and "is_embedding (queueForMessage m) = is_embedding q"
  shows "held_lease consumer m c = None"
  using assms fileQueueState_class [of "queueForMessage m" q c] by (simp add: held_lease_def)

text \<open>
  C18: a reclaim fences the previous holder off. Once a consumer has reclaimed a message,
  every other consumer that still believes to hold it (with any copy of the message that carries
  its id and queue) is told so: renewing, settling, requeueing and dead-lettering return false and
  change nothing.
\<close>

theorem reclaim_fences_old_holder:
  assumes "queues_ok c" and "claimTimedOutFileMessages None now ids consumer q c = (Inr [m], c')"
    and "trim_space old \<noteq> trim_space consumer"
    and "msg_ID m0 = msg_ID m" and "is_embedding (queueForMessage m0) = is_embedding q"
  shows "RenewFileProcessingMessageLease None t old m0 c' = (Inr False, c') \<and>
      SettleFileProcessingMessage None t old m0 c' = (Inr False, c') \<and>
      RequeueFileProcessingMessage None t old m0 retry err c' = (Inr False, c') \<and>
      DeadLetterFileProcessingMessage None t old m0 err c' = (Inr False, c')"
  using assms(2)
proof (cases rule: claimTimedOut_cases)
  case (2 i l)
  have i: "msg_ID (lease_message l) = i" "trim_space i = i"
    using queue_ok_lease [OF queues_ok_get [OF assms(1)] 2(4)] issued_trim by auto
  have "held_lease old m0 c' = None"
    using assms(3-5) 2 i by (intro held_lease_other [where q = q]) auto
  then show ?thesis
    by (simp add: RenewFileProcessingMessageLease_def SettleFileProcessingMessage_def
        RequeueFileProcessingMessage_def DeadLetterFileProcessingMessage_def Let_def)
qed auto

lemma reclaim_fences_old_holder_witness:
  "\<exists>m c'. claimTimedOutFileMessages None 45000000003 [''1''] ''w2'' ''file_processing'' demo_leased = (Inr [m], c') \<and>
     SettleFileProcessingMessage None 45000000004 ''w1'' m c' = (Inr False, c')"
proof -
  let ?r = "claimTimedOutFileMessages None 45000000003 [''1''] ''w2'' ''file_processing'' demo_leased"
  have "fst ?r = Inr [zero_message\<lparr>msg_ID := ''1'', msg_UserID := 7, msg_FileID := ''f1'',
      msg_Reclaimed := True, msg_Queue := ''file_processing''\<rparr>]" (is "_ = Inr [?m]") by code_simp
  then have r: "?r = (Inr [?m], snd ?r)" by (simp add: prod_eq_iff)
  have "trim_space ''w1'' \<noteq> trim_space ''w2''" "is_embedding (queueForMessage ?m) = is_embedding ''file_processing''"
    by code_simp+
  from reclaim_fences_old_holder [OF demo_leased_ok r this(1) refl this(2), of 45000000004] r show ?thesis
    by (intro exI [of _ ?m] exI [of _ "snd ?r"]) simp
qed

text \<open>
  What a reclaim returns, for every order in which the map range visits the leases: a
  message exactly when some lease was idle for at least 45 seconds, and then one whose lease is the
  oldest of all idle leases, marked as reclaimed and now held by the caller since this instant.
\<close>

theorem reclaim_oldest_idle:
  assumes "queues_ok c" and "set ids = dom (inflight (fileQueueState q c))" and "trim_space consumer \<noteq> []"
  shows "(if \<exists>i l. inflight (fileQueueState q c) i = Some l \<and> fileProcessingMinIdle \<le> now - leasedAt l
     then \<exists>i l c'. inflight (fileQueueState q c) i = Some l \<and> fileProcessingMinIdle \<le> now - leasedAt l \<and>
        (\<forall>j l'. inflight (fileQueueState q c) j = Some l' \<longrightarrow> leasedAt l \<le> leasedAt l') \<and>
        claimTimedOutFileMessages None now ids consumer q c = (Inr [(lease_message l)\<lparr>msg_Reclaimed := True\<rparr>], c') \<and>
        inflight (fileQueueState q c') i = Some (l\<lparr>consumerName := trim_space consumer, leasedAt := now,
          lease_message := (lease_message l)\<lparr>msg_Reclaimed := True\<rparr>\<rparr>)
     else claimTimedOutFileMessages None now ids consumer q c = (Inr [], c))"
proof (cases "claimTimedOutFileMessages None now ids consumer q c")
  case (Pair r c')
  let ?m = "inflight (fileQueueState q c)"
  obtain i l where s: "oldest_idle now ?m ids [] zero_lease = (i, l)" by (cases "oldest_idle now ?m ids [] zero_lease")
  have ne: "\<forall>k \<in> set ids. k \<noteq> []"
    using assms(2) queue_ok_lease [OF queues_ok_get [OF assms(1)]] issued_trim by blast
  note min = oldest_idle_min(1) [OF s ne]
  show ?thesis
  proof (cases "i = []")
    case True
    have "\<not> (\<exists>k l. ?m k = Some l \<and> fileProcessingMinIdle \<le> now - leasedAt l)"
      using min True assms(2) by blast
    then show ?thesis using s True assms(3) by (simp add: claimTimedOutFileMessages_def Let_def)
  next
    case False
    then have il: "?m i = Some l" "fileProcessingMinIdle \<le> now - leasedAt l" using oldest_idle_result [OF s] by auto
    have le: "leasedAt l \<le> leasedAt l'" if "?m j = Some l'" for j l'
    proof (cases "fileProcessingMinIdle \<le> now - leasedAt l'")
      case True
      then show ?thesis using min that assms(2) by blast
    qed (use il in linarith)
    from il False s assms(3) le have "\<exists>i l c'. ?m i = Some l \<and> fileProcessingMinIdle \<le> now - leasedAt l \<and>
        (\<forall>j l'. ?m j = Some l' \<longrightarrow> leasedAt l \<le> leasedAt l') \<and>
        claimTimedOutFileMessages None now ids consumer q c = (Inr [(lease_message l)\<lparr>msg_Reclaimed := True\<rparr>], c') \<and>
        inflight (fileQueueState q c') i = Some (l\<lparr>consumerName := trim_space consumer, leasedAt := now,
          lease_message := (lease_message l)\<lparr>msg_Reclaimed := True\<rparr>\<rparr>)"
      by (intro exI [of _ i] exI [of _ l]) (auto simp: claimTimedOutFileMessages_def Let_def)
    then show ?thesis using il by auto
  qed
qed

lemma reclaim_oldest_idle_witness:
  "fst (claimTimedOutFileMessages None 45000000003 [''1''] ''w2'' ''file_processing'' demo_leased) \<noteq> Inr []"
proof -
  have il: "inflight (fileQueueState ''file_processing'' demo_leased) ''1'' = Some \<lparr>consumerName = ''w1'', leasedAt = 3,
      lease_message = zero_message\<lparr>msg_ID := ''1'', msg_UserID := 7, msg_FileID := ''f1'', msg_Queue := ''file_processing''\<rparr>\<rparr>"
    by code_simp
  have "inflight (fileQueueState ''file_processing'' demo_leased) = [''1'' \<mapsto> \<lparr>consumerName = ''w1'', leasedAt = 3,
      lease_message = zero_message\<lparr>msg_ID := ''1'', msg_UserID := 7, msg_FileID := ''f1'', msg_Queue := ''file_processing''\<rparr>\<rparr>]"
  proof
    fix k
    show "inflight (fileQueueState ''file_processing'' demo_leased) k = ([''1'' \<mapsto> \<lparr>consumerName = ''w1'', leasedAt = 3,
      lease_message = zero_message\<lparr>msg_ID := ''1'', msg_UserID := 7, msg_FileID := ''f1'', msg_Queue := ''file_processing''\<rparr>\<rparr>]) k"
      by code_simp
  qed
  then have d: "set [''1''] = dom (inflight (fileQueueState ''file_processing'' demo_leased))" by simp
  have t: "fileProcessingMinIdle = 45000000000" "trim_space ''w2'' \<noteq> []" by code_simp+
  have "\<exists>i l. inflight (fileQueueState ''file_processing'' demo_leased) i = Some l \<and>
      fileProcessingMinIdle \<le> 45000000003 - leasedAt l"
    using il t(1) by (intro exI conjI) (assumption, simp)
  then show ?thesis using reclaim_oldest_idle [OF demo_leased_ok d t(2), of 45000000003] by auto
qed

section \<open>Waiting readers\<close>

text \<open>
  No lost wake-up, and the queue is first in, first out. A reader that found its queue
  empty and was notified by an enqueue gets that job, leased to it; the queue is empty again.
\<close>

theorem waiting_reader_served:
  assumes "fq_queue (fileProcessingQueue c) = []" and "trim_space fileID \<noteq> []" and "trim_space consumer \<noteq> []"
  shows "\<exists>m c'. ReadFileProcessingMessages consumer None now c
        [WaitNotified None now' (snd (EnqueueFileProcessing None t user fileID retry err c))] = Some (Inr [m], c') \<and>
      msg_FileID m = trim_space fileID \<and> msg_UserID m = user \<and> msg_Retry m = retry \<and>
      msg_LastError m = truncateFileQueueError err \<and> fq_queue (fileProcessingQueue c') = [] \<and>
      inflight (fileProcessingQueue c') (msg_ID m) = Some \<lparr>consumerName = trim_space consumer, leasedAt = now', lease_message = m\<rparr>"
proof -
  have "FileProcessingQueueDefault \<noteq> FileProcessingQueueEmbedding" by code_simp
  then show ?thesis using assms
    by (simp add: ReadFileProcessingMessages_def readFileMessages_def EnqueueFileProcessing_def enqueueFileMessage_def
        Let_def fileQueueState_def set_fileQueueState_def zero_message_def maxFileQueueLength_def)
qed

lemma waiting_reader_served_witness:
  "\<exists>m c'. ReadFileProcessingMessages ''w1'' None 0 new_cache
        [WaitNotified None 2 (snd (EnqueueFileProcessing None 1 7 ''f1'' 0 [] new_cache))] = Some (Inr [m], c') \<and>
      msg_FileID m = ''f1''"
proof -
  have "fq_queue (fileProcessingQueue new_cache) = []" by (simp add: new_cache_def new_file_queue_state_def)
  moreover have t: "trim_space ''f1'' = ''f1''" "trim_space ''w1'' \<noteq> []" by code_simp+
  ultimately show ?thesis
    using waiting_reader_served [where c = new_cache and fileID = "''f1''" and consumer = "''w1''" and now = 0
      and now' = 2 and t = 1 and user = 7 and retry = 0 and err = "[]"] by auto
qed

end
