(* ===== verification/Generation_Stream.thy ===== *)
theory Generation_Stream
  imports File_Queue
begin

text \<open>
  The resumable generation streams (\<open>memory/generation_stream.go\<close>): the lease under which one
  execution produces the events of a run, its cancellation flag, the bounded list of retained
  events, and the text and thinking snapshots from which a client that reconnects catches up.
  Every operation has one argument per clock reading: \<open>now\<close> for the one it compares with,
  \<open>t1\<close>, \<open>t2\<close>, \<dots> for those \<open>ttlFromNow\<close> makes.
\<close>

section \<open>Data\<close>

record stream_lease =
  gl_RunID :: string
  gl_ExecutionID :: string
  gl_UserID :: nat
  gl_ConversationPublicID :: string

record think_append =
  th_RoundID :: string
  th_Delta :: string
  th_ContentMarkdown :: string
  th_Replace :: bool
  th_MetadataJSON :: string

record stream_append =
  ap_PayloadJSON :: string
  ap_TextDelta :: string
  ap_UpstreamThink :: "think_append option"

record text_snapshot =
  ts_Seq :: int
  ts_Content :: string

record think_snapshot =
  ks_Seq :: int
  ks_RoundID :: string
  ks_ContentMarkdown :: string
  ks_MetadataJSON :: string

section \<open>Operations\<close>

definition find_stream :: "string \<Rightarrow> cache \<Rightarrow> generation_stream option" where
  "find_stream runID c = streams c (trim_space runID)"

definition put_stream :: "string \<Rightarrow> generation_stream \<Rightarrow> cache \<Rightarrow> cache" where
  "put_stream k s c = c\<lparr>streams := (streams c)(k \<mapsto> s)\<rparr>"

definition notifyLocked :: "generation_stream \<Rightarrow> generation_stream" where
  "notifyLocked s = s\<lparr>st_notify := Suc (st_notify s)\<rparr>"

definition notifyGenerationStreamsLocked :: "cache \<Rightarrow> cache" where
  "notifyGenerationStreamsLocked c = c\<lparr>streamNotify := Suc (streamNotify c)\<rparr>"

definition resetEventsLocked :: "generation_stream \<Rightarrow> generation_stream" where
  "resetEventsLocked s = s\<lparr>events := [], textContent := [], textSeq := 0, upstreamThinkContent := [],
     upstreamThinkSeq := 0, upstreamThinkRoundID := [], upstreamThinkMetadata := []\<rparr>"

definition ensureStreamLocked :: "string \<Rightarrow> cache \<Rightarrow> generation_stream" where
  "ensureStreamLocked runID c = map_get (streams c) new_stream (trim_space runID)"

definition trim_lease :: "stream_lease \<Rightarrow> stream_lease" where
  "trim_lease lease = lease\<lparr>gl_RunID := trim_space (gl_RunID lease),
     gl_ExecutionID := trim_space (gl_ExecutionID lease),
     gl_ConversationPublicID := trim_space (gl_ConversationPublicID lease)\<rparr>"

definition lease_matches :: "generation_stream \<Rightarrow> stream_lease \<Rightarrow> bool" where
  "lease_matches s lease \<longleftrightarrow> executionID s = trim_space (gl_ExecutionID lease) \<and> ownerID s = gl_UserID lease \<and>
     conversationID s = trim_space (gl_ConversationPublicID lease)"

definition take_ownership ::
  "stream_lease \<Rightarrow> duration \<Rightarrow> duration \<Rightarrow> gotime \<Rightarrow> gotime \<Rightarrow> generation_stream \<Rightarrow> generation_stream" where
  "take_ownership lease leaseTTL ownershipTTL t1 t2 s = notifyLocked (s\<lparr>ownerID := gl_UserID lease,
     executionID := gl_ExecutionID lease, conversationID := gl_ConversationPublicID lease,
     ownerExpiresAt := ttlFromNow t1 ownershipTTL, activeExpiresAt := ttlFromNow t2 leaseTTL,
     cancelExpiresAt := 0\<rparr>)"

definition ClaimGenerationStream ::
  "stream_lease \<Rightarrow> duration \<Rightarrow> duration \<Rightarrow> gotime \<Rightarrow> gotime \<Rightarrow> gotime \<Rightarrow> cache \<Rightarrow> bool \<times> cache" where
  "ClaimGenerationStream lease0 leaseTTL ownershipTTL0 now t1 t2 c =
     (let lease = trim_lease lease0;
          ownershipTTL = (if ownershipTTL0 < leaseTTL then leaseTTL else ownershipTTL0);
          k = gl_RunID lease;
          claim = (\<lambda>s. (True, maybeSweepLocked now (notifyGenerationStreamsLocked
            (put_stream k (take_ownership lease leaseTTL ownershipTTL t1 t2 s) c))))
      in if k = [] \<or> gl_ExecutionID lease = [] \<or> gl_UserID lease = 0 \<or> gl_ConversationPublicID lease = []
         then (False, c)
         else case streams c k of
             Some s \<Rightarrow>
               if \<not> activeExpired s now \<and> executionID s = gl_ExecutionID lease \<and>
                  ownerID s = gl_UserID lease \<and> conversationID s = gl_ConversationPublicID lease
               then (True, notifyGenerationStreamsLocked (put_stream k
                 (s\<lparr>ownerExpiresAt := ttlFromNow t1 ownershipTTL, activeExpiresAt := ttlFromNow t2 leaseTTL\<rparr>) c))
               else if \<not> activeExpired s now \<or> \<not> ownerExpired s now then (False, c)
               else claim (resetEventsLocked s)
           | None \<Rightarrow> claim (ensureStreamLocked k c))"

definition GetGenerationStreamOwner :: "string \<Rightarrow> gotime \<Rightarrow> cache \<Rightarrow> nat \<times> bool" where
  "GetGenerationStreamOwner runID now c =
     (case find_stream runID c of
        None \<Rightarrow> (0, False)
      | Some s \<Rightarrow> if ownerID s = 0 \<or> ownerExpired s now then (0, False) else (ownerID s, True))"

definition RenewGenerationStreamLease ::
  "stream_lease \<Rightarrow> duration \<Rightarrow> duration \<Rightarrow> gotime \<Rightarrow> gotime \<Rightarrow> gotime \<Rightarrow> cache \<Rightarrow> bool \<times> cache" where
  "RenewGenerationStreamLease lease leaseTTL ownershipTTL0 now t1 t2 c =
     (let ownershipTTL = (if ownershipTTL0 < leaseTTL then leaseTTL else ownershipTTL0) in
      case find_stream (gl_RunID lease) c of
        None \<Rightarrow> (False, c)
      | Some s \<Rightarrow>
          if \<not> lease_matches s lease \<or> activeExpired s now then (False, c)
          else (True, maybeSweepLocked now (put_stream (trim_space (gl_RunID lease))
            (s\<lparr>activeExpiresAt := ttlFromNow t1 leaseTTL, ownerExpiresAt := ttlFromNow t2 ownershipTTL\<rparr>) c)))"

definition CompleteGenerationStream ::
  "stream_lease \<Rightarrow> duration \<Rightarrow> gotime \<Rightarrow> gotime \<Rightarrow> gotime \<Rightarrow> gotime \<Rightarrow> cache \<Rightarrow> bool \<times> cache" where
  "CompleteGenerationStream lease retention now t1 t2 t3 c =
     (case find_stream (gl_RunID lease) c of
        None \<Rightarrow> (False, c)
      | Some s \<Rightarrow>
          if \<not> lease_matches s lease \<or> ownerExpired s now then (False, c)
          else (let s1 = s\<lparr>executionID := [], activeExpiresAt := 0, ownerExpiresAt := ttlFromNow t1 retention,
                      eventsExpiresAt := ttlFromNow t2 retention\<rparr>;
                    s2 = (if \<not> cancelExpired s1 now then s1\<lparr>cancelExpiresAt := ttlFromNow t3 retention\<rparr> else s1)
                in (True, maybeSweepLocked now (notifyGenerationStreamsLocked
                     (put_stream (trim_space (gl_RunID lease)) (notifyLocked s2) c)))))"

definition AbandonGenerationStream :: "stream_lease \<Rightarrow> gotime \<Rightarrow> cache \<Rightarrow> bool \<times> cache" where
  "AbandonGenerationStream lease now c =
     (case find_stream (gl_RunID lease) c of
        None \<Rightarrow> (False, c)
      | Some s \<Rightarrow>
          if executionID s \<noteq> trim_space (gl_ExecutionID lease) \<or> ownerID s \<noteq> gl_UserID lease \<or> activeExpired s now
          then (False, c)
          else (True, notifyGenerationStreamsLocked
            (c\<lparr>streams := map_del (trim_space (gl_RunID lease)) (streams c)\<rparr>)))"

text \<open>\<open>ids\<close> are the run ids in the order in which the map range visits them.\<close>

fun active_items :: "(string \<rightharpoonup> generation_stream) \<Rightarrow> nat \<Rightarrow> gotime \<Rightarrow> string list \<Rightarrow> (string \<times> string) list" where
  "active_items m userID now [] = []"
| "active_items m userID now (i # ids) =
     (case m i of
        None \<Rightarrow> active_items m userID now ids
      | Some s \<Rightarrow>
          if ownerID s \<noteq> userID \<or> activeExpired s now \<or> trim_space (conversationID s) = []
          then active_items m userID now ids
          else (i, conversationID s) # active_items m userID now ids)"

definition ListActiveGenerationStreams ::
  "nat \<Rightarrow> gotime \<Rightarrow> string list \<Rightarrow> cache \<Rightarrow> (string \<times> string) list \<times> cache" where
  "ListActiveGenerationStreams userID now ids c =
     (let c' = maybeSweepLocked now c in (active_items (streams c') userID now ids, c'))"

definition IsGenerationStreamActive :: "string \<Rightarrow> gotime \<Rightarrow> cache \<Rightarrow> bool" where
  "IsGenerationStreamActive runID now c =
     (case find_stream runID c of None \<Rightarrow> False | Some s \<Rightarrow> \<not> activeExpired s now)"

definition RequestGenerationStreamCancel ::
  "string \<Rightarrow> nat \<Rightarrow> duration \<Rightarrow> gotime \<Rightarrow> gotime \<Rightarrow> gotime \<Rightarrow> cache \<Rightarrow> bool \<times> cache" where
  "RequestGenerationStreamCancel runID userID ttl now t1 t2 c =
     (case find_stream runID c of
        None \<Rightarrow> (False, c)
      | Some s \<Rightarrow>
          if ownerID s \<noteq> userID \<or> activeExpired s now then (False, c)
          else (True, maybeSweepLocked t2 (put_stream (trim_space runID)
            (notifyLocked (s\<lparr>cancelExpiresAt := ttlFromNow t1 ttl\<rparr>)) c)))"

definition IsGenerationStreamCanceled :: "string \<Rightarrow> gotime \<Rightarrow> cache \<Rightarrow> bool" where
  "IsGenerationStreamCanceled runID now c =
     (case find_stream runID c of None \<Rightarrow> False | Some s \<Rightarrow> \<not> cancelExpired s now)"

definition apply_think :: "think_append \<Rightarrow> generation_stream \<Rightarrow> generation_stream" where
  "apply_think th s =
     (let r0 = trim_space (th_RoundID th);
          roundID = (if r0 = [] then upstreamThinkRoundID s else r0);
          kept = (if roundID \<noteq> [] \<and> upstreamThinkRoundID s \<noteq> [] \<and> roundID \<noteq> upstreamThinkRoundID s
                  then [] else upstreamThinkContent s);
          content = (if th_Replace th then th_ContentMarkdown th else kept @ th_Delta th)
      in s\<lparr>upstreamThinkContent := content, upstreamThinkSeq := st_seq s, upstreamThinkRoundID := roundID,
           upstreamThinkMetadata := th_MetadataJSON th\<rparr>)"

definition trim_events :: "int \<Rightarrow> stream_message list \<Rightarrow> stream_message list" where
  "trim_events maxEvents evs =
     (let m = (if maxEvents \<le> 0 then 1024 else maxEvents); excess = int (length evs) - m in
      if 0 < excess then drop (nat excess) evs else evs)"

definition appendGenerationStreamEventLocked ::
  "generation_stream \<Rightarrow> stream_append \<Rightarrow> int \<Rightarrow> duration \<Rightarrow> gotime \<Rightarrow> stream_message \<times> generation_stream" where
  "appendGenerationStreamEventLocked s inp maxEvents ttl t1 =
     (let n = st_seq s + 1;
          rcd = \<lparr>ev_ID = format_int n, ev_Seq = n, ev_PayloadJSON = ap_PayloadJSON inp\<rparr>;
          s1 = s\<lparr>st_seq := n, events := events s @ [rcd]\<rparr>;
          s2 = (if ap_TextDelta inp \<noteq> [] then s1\<lparr>textContent := textContent s1 @ ap_TextDelta inp, textSeq := n\<rparr> else s1);
          s3 = (case ap_UpstreamThink inp of None \<Rightarrow> s2 | Some th \<Rightarrow> apply_think th s2)
      in (rcd, notifyLocked (s3\<lparr>events := trim_events maxEvents (events s3), eventsExpiresAt := ttlFromNow t1 ttl\<rparr>)))"

definition AppendGenerationStreamEvent ::
  "stream_lease \<Rightarrow> stream_append \<Rightarrow> int \<Rightarrow> duration \<Rightarrow> gotime \<Rightarrow> gotime \<Rightarrow> cache \<Rightarrow> stream_message option \<times> cache" where
  "AppendGenerationStreamEvent lease inp maxEvents ttl now t1 c =
     (case find_stream (gl_RunID lease) c of
        None \<Rightarrow> (None, c)
      | Some s \<Rightarrow>
          if executionID s \<noteq> trim_space (gl_ExecutionID lease) \<or> activeExpired s now then (None, c)
          else (let (rcd, s') = appendGenerationStreamEventLocked s inp maxEvents ttl t1 in
                (Some rcd, maybeSweepLocked now (notifyGenerationStreamsLocked
                  (put_stream (trim_space (gl_RunID lease)) s' c)))))"

definition active_events_run :: string where "active_events_run = ''active_events_v1''"

definition AppendActiveGenerationEvent ::
  "stream_append \<Rightarrow> int \<Rightarrow> duration \<Rightarrow> gotime \<Rightarrow> gotime \<Rightarrow> cache \<Rightarrow> stream_message \<times> cache" where
  "AppendActiveGenerationEvent inp maxEvents ttl t1 now c =
     (let s = ensureStreamLocked active_events_run c;
          (rcd, s') = appendGenerationStreamEventLocked s inp maxEvents ttl t1
      in (rcd, maybeSweepLocked now (notifyGenerationStreamsLocked (put_stream (trim_space active_events_run) s' c))))"

definition GetGenerationStreamUpstreamThinkSnapshot :: "string \<Rightarrow> gotime \<Rightarrow> cache \<Rightarrow> think_snapshot option" where
  "GetGenerationStreamUpstreamThinkSnapshot runID now c =
     (case find_stream runID c of
        None \<Rightarrow> None
      | Some s \<Rightarrow>
          if eventsExpired s now \<or> upstreamThinkSeq s \<le> 0 then None
          else Some \<lparr>ks_Seq = upstreamThinkSeq s, ks_RoundID = upstreamThinkRoundID s,
            ks_ContentMarkdown = upstreamThinkContent s, ks_MetadataJSON = upstreamThinkMetadata s\<rparr>)"

definition GetGenerationStreamTextSnapshot :: "string \<Rightarrow> gotime \<Rightarrow> cache \<Rightarrow> text_snapshot option" where
  "GetGenerationStreamTextSnapshot runID now c =
     (case find_stream runID c of
        None \<Rightarrow> None
      | Some s \<Rightarrow> if eventsExpired s now \<or> textSeq s \<le> 0 then None
          else Some \<lparr>ts_Seq = textSeq s, ts_Content = textContent s\<rparr>)"

definition ListGenerationStreamEvents :: "string \<Rightarrow> int \<Rightarrow> gotime \<Rightarrow> cache \<Rightarrow> stream_message list" where
  "ListGenerationStreamEvents runID limit now c =
     (case find_stream runID c of
        None \<Rightarrow> []
      | Some s \<Rightarrow>
          if eventsExpired s now then []
          else if limit \<le> 0 \<or> int (length (events s)) \<le> limit then events s
          else drop (length (events s) - nat limit) (events s))"

definition ResetGenerationStreamEvents :: "stream_lease \<Rightarrow> gotime \<Rightarrow> cache \<Rightarrow> bool \<times> cache" where
  "ResetGenerationStreamEvents lease now c =
     (case find_stream (gl_RunID lease) c of
        None \<Rightarrow> (False, c)
      | Some s \<Rightarrow>
          if executionID s \<noteq> trim_space (gl_ExecutionID lease) \<or> activeExpired s now then (False, c)
          else (True, notifyGenerationStreamsLocked
            (put_stream (trim_space (gl_RunID lease)) (notifyLocked (resetEventsLocked s)) c)))"

text \<open>The loop with its \<open>break\<close>: \<open>got\<close> counts the results appended so far.\<close>

fun events_after :: "int \<Rightarrow> int \<Rightarrow> nat \<Rightarrow> stream_message list \<Rightarrow> stream_message list" where
  "events_after afterSeq limit got [] = []"
| "events_after afterSeq limit got (x # xs) =
     (if ev_Seq x \<le> afterSeq then events_after afterSeq limit got xs
      else if 0 < limit \<and> limit \<le> int (Suc got) then [x]
      else x # events_after afterSeq limit (Suc got) xs)"

definition generationEventsAfter :: "stream_message list \<Rightarrow> int \<Rightarrow> int \<Rightarrow> stream_message list" where
  "generationEventsAfter evs afterSeq limit = events_after afterSeq limit 0 evs"

definition parseStreamID :: "string \<Rightarrow> int" where
  "parseStreamID raw =
     (let val = trim_space raw in
      if val = [] \<or> val = ''0-0'' then 0
      else parse_int (if CHR ''-'' \<in> set val then takeWhile (\<lambda>ch. ch \<noteq> CHR ''-'') val else val))"

text \<open>A waiting reader ends with its context or deadline, or is notified and looks again.\<close>

datatype stream_wait = SwDone | SwDeadline | SwNotified gotime cache

fun read_stream_loop ::
  "string \<Rightarrow> int \<Rightarrow> int \<Rightarrow> gotime \<Rightarrow> cache \<Rightarrow> stream_wait list \<Rightarrow> stream_message list option" where
  "read_stream_loop runID afterSeq limit now c evs =
     (let found = (case find_stream runID c of
            None \<Rightarrow> []
          | Some s \<Rightarrow> if eventsExpired s now then [] else generationEventsAfter (events s) afterSeq limit)
      in if found \<noteq> [] then Some found
         else (case evs of
             [] \<Rightarrow> None
           | SwDone # _ \<Rightarrow> Some []
           | SwDeadline # _ \<Rightarrow> Some []
           | SwNotified now' c' # evs' \<Rightarrow> read_stream_loop runID afterSeq limit now' c' evs'))"

declare read_stream_loop.simps [simp del]

definition ReadGenerationStreamEvents ::
  "string \<Rightarrow> string \<Rightarrow> int \<Rightarrow> gotime \<Rightarrow> cache \<Rightarrow> stream_wait list \<Rightarrow> stream_message list option" where
  "ReadGenerationStreamEvents runID afterID limit now c evs =
     read_stream_loop runID (parseStreamID afterID) limit now c evs"

section \<open>Runs of operations\<close>

datatype stream_op =
    SoClaim stream_lease duration duration gotime gotime gotime
  | SoRenew stream_lease duration duration gotime gotime gotime
  | SoComplete stream_lease duration gotime gotime gotime gotime
  | SoAbandon stream_lease gotime
  | SoCancel string nat duration gotime gotime gotime
  | SoAppend stream_lease stream_append int duration gotime gotime
  | SoAppendActive stream_append int duration gotime gotime
  | SoReset stream_lease gotime
  | SoListActive nat gotime "string list"

primrec stream_step :: "stream_op \<Rightarrow> cache \<Rightarrow> cache" where
  "stream_step (SoClaim lease d d' now t1 t2) c = snd (ClaimGenerationStream lease d d' now t1 t2 c)"
| "stream_step (SoRenew lease d d' now t1 t2) c = snd (RenewGenerationStreamLease lease d d' now t1 t2 c)"
| "stream_step (SoComplete lease d now t1 t2 t3) c = snd (CompleteGenerationStream lease d now t1 t2 t3 c)"
| "stream_step (SoAbandon lease now) c = snd (AbandonGenerationStream lease now c)"
| "stream_step (SoCancel r u ttl now t1 t2) c = snd (RequestGenerationStreamCancel r u ttl now t1 t2 c)"
| "stream_step (SoAppend lease inp n ttl now t1) c = snd (AppendGenerationStreamEvent lease inp n ttl now t1 c)"
| "stream_step (SoAppendActive inp n ttl t1 now) c = snd (AppendActiveGenerationEvent inp n ttl t1 now c)"
| "stream_step (SoReset lease now) c = snd (ResetGenerationStreamEvents lease now c)"
| "stream_step (SoListActive u now ids) c = snd (ListActiveGenerationStreams u now ids c)"

text \<open>The latest clock reading an operation compares or sweeps with, and the lease it acts under.\<close>

primrec stream_time :: "stream_op \<Rightarrow> gotime" where
  "stream_time (SoClaim lease d d' now t1 t2) = now"
| "stream_time (SoRenew lease d d' now t1 t2) = now"
| "stream_time (SoComplete lease d now t1 t2 t3) = now"
| "stream_time (SoAbandon lease now) = now"
| "stream_time (SoCancel r u ttl now t1 t2) = max now t2"
| "stream_time (SoAppend lease inp n ttl now t1) = now"
| "stream_time (SoAppendActive inp n ttl t1 now) = now"
| "stream_time (SoReset lease now) = now"
| "stream_time (SoListActive u now ids) = now"

primrec op_lease :: "stream_op \<Rightarrow> stream_lease option" where
  "op_lease (SoClaim lease d d' now t1 t2) = Some lease"
| "op_lease (SoRenew lease d d' now t1 t2) = Some lease"
| "op_lease (SoComplete lease d now t1 t2 t3) = Some lease"
| "op_lease (SoAbandon lease now) = Some lease"
| "op_lease (SoCancel r u ttl now t1 t2) = None"
| "op_lease (SoAppend lease inp n ttl now t1) = Some lease"
| "op_lease (SoAppendActive inp n ttl t1 now) = None"
| "op_lease (SoReset lease now) = Some lease"
| "op_lease (SoListActive u now ids) = None"

definition op_execution :: "stream_op \<Rightarrow> string option" where
  "op_execution x = map_option (\<lambda>l. trim_space (gl_ExecutionID l)) (op_lease x)"

lemma streams_put [simp]: "streams (put_stream k s c) = (streams c)(k \<mapsto> s)"
  by (simp add: put_stream_def)

lemma streams_notify [simp]: "streams (notifyGenerationStreamsLocked c) = streams c"
  by (simp add: notifyGenerationStreamsLocked_def)

lemma trim_lease_simps [simp]:
  "gl_RunID (trim_lease l) = trim_space (gl_RunID l)"
  "gl_ExecutionID (trim_lease l) = trim_space (gl_ExecutionID l)"
  "gl_UserID (trim_lease l) = gl_UserID l"
  "gl_ConversationPublicID (trim_lease l) = trim_space (gl_ConversationPublicID l)"
  by (simp_all add: trim_lease_def)

section \<open>The events of a stream\<close>

text \<open>
  The retained events carry consecutive sequence numbers that end with the stream's counter, and
  ids that are their decimal forms; the snapshots belong to numbers already given out.
\<close>

definition stream_ok :: "generation_stream \<Rightarrow> bool" where
  "stream_ok s \<longleftrightarrow> int (length (events s)) \<le> st_seq s \<and>
     map ev_Seq (events s) = [st_seq s - int (length (events s)) + 1 .. st_seq s] \<and>
     (\<forall>e \<in> set (events s). ev_ID e = format_int (ev_Seq e)) \<and>
     0 \<le> textSeq s \<and> textSeq s \<le> st_seq s \<and> 0 \<le> upstreamThinkSeq s \<and> upstreamThinkSeq s \<le> st_seq s"

definition streams_ok :: "cache \<Rightarrow> bool" where
  "streams_ok c \<longleftrightarrow> (\<forall>k s. streams c k = Some s \<longrightarrow> stream_ok s)"

lemma streams_okD: "streams_ok c \<Longrightarrow> streams c k = Some s \<Longrightarrow> stream_ok s"
  by (simp add: streams_ok_def)

lemma streams_ok_put: "streams_ok c \<Longrightarrow> stream_ok s \<Longrightarrow> streams_ok (put_stream k s c)"
  by (simp add: streams_ok_def)

lemma streams_ok_notify [simp]: "streams_ok (notifyGenerationStreamsLocked c) = streams_ok c"
  by (simp add: streams_ok_def)

lemma streams_ok_sweep: "streams_ok c \<Longrightarrow> streams_ok (maybeSweepLocked now c)"
  by (auto simp: streams_ok_def dest: maybeSweep_streams(1))

lemma streams_ok_del: "streams_ok c \<Longrightarrow> streams_ok (c\<lparr>streams := map_del k (streams c)\<rparr>)"
  by (simp add: streams_ok_def map_del_def)

lemma stream_ok_new: "stream_ok new_stream"
  by (simp add: stream_ok_def new_stream_def)

lemma stream_ok_ensure: "streams_ok c \<Longrightarrow> stream_ok (ensureStreamLocked k c)"
  by (cases "streams c (trim_space k)") (simp_all add: ensureStreamLocked_def stream_ok_new streams_okD)

lemma stream_ok_reset: "stream_ok s \<Longrightarrow> stream_ok (resetEventsLocked s)"
  by (auto simp: stream_ok_def resetEventsLocked_def)

lemma stream_ok_frame [simp]:
  "stream_ok (notifyLocked s) = stream_ok s"
  "stream_ok (s\<lparr>ownerExpiresAt := t\<rparr>) = stream_ok s"
  "stream_ok (s\<lparr>activeExpiresAt := t\<rparr>) = stream_ok s"
  "stream_ok (s\<lparr>cancelExpiresAt := t\<rparr>) = stream_ok s"
  "stream_ok (s\<lparr>eventsExpiresAt := t\<rparr>) = stream_ok s"
  "stream_ok (s\<lparr>ownerID := u\<rparr>) = stream_ok s"
  "stream_ok (s\<lparr>executionID := e\<rparr>) = stream_ok s"
  "stream_ok (s\<lparr>conversationID := e\<rparr>) = stream_ok s"
  by (simp_all add: stream_ok_def notifyLocked_def)

lemma stream_ok_take [simp]: "stream_ok (take_ownership lease d d' t1 t2 s) = stream_ok s"
  by (simp add: take_ownership_def)

lemma drop_upto: "drop n [a..b] = [a + int n..b]"
proof (induction n arbitrary: a)
  case (Suc n)
  show ?case
  proof (cases "a \<le> b")
    case True
    then show ?thesis using Suc.IH [of "a + 1"] by (simp add: upto_rec1 ac_simps)
  qed simp
qed simp

lemma trim_events_drop: "\<exists>n. n \<le> length evs \<and> trim_events m evs = drop n evs"
proof (cases "0 < int (length evs) - (if m \<le> 0 then 1024 else m)")
  case True
  then show ?thesis
    by (intro exI [of _ "nat (int (length evs) - (if m \<le> 0 then 1024 else m))"]) (auto simp: trim_events_def Let_def)
qed (auto simp: trim_events_def Let_def intro: exI [of _ 0])

lemma stream_ok_drop:
  assumes "stream_ok s" and "n \<le> length (events s)"
  shows "stream_ok (s\<lparr>events := drop n (events s)\<rparr>)"
  using assms by (auto simp: stream_ok_def drop_map [symmetric] drop_upto of_nat_diff algebra_simps dest: in_set_dropD)

lemma stream_ok_trim: "stream_ok s \<Longrightarrow> stream_ok (s\<lparr>events := trim_events m (events s)\<rparr>)"
  using trim_events_drop [of "events s" m] stream_ok_drop [of s] by auto

lemma stream_ok_push:
  assumes "stream_ok s"
  shows "stream_ok (s\<lparr>st_seq := st_seq s + 1, events := events s @
      [\<lparr>ev_ID = format_int (st_seq s + 1), ev_Seq = st_seq s + 1, ev_PayloadJSON = p\<rparr>]\<rparr>)"
  using assms by (auto simp: stream_ok_def upto_rec2)

lemma stream_ok_text: "stream_ok s \<Longrightarrow> stream_ok (s\<lparr>textContent := x, textSeq := st_seq s\<rparr>)"
  by (auto simp: stream_ok_def)

lemma stream_ok_think: "stream_ok s \<Longrightarrow> stream_ok (apply_think th s)"
  by (auto simp: stream_ok_def apply_think_def Let_def)

lemma stream_ok_append:
  assumes "stream_ok s"
  shows "stream_ok (snd (appendGenerationStreamEventLocked s inp maxEvents ttl t1))"
proof -
  define s1 where "s1 = s\<lparr>st_seq := st_seq s + 1, events := events s @
      [\<lparr>ev_ID = format_int (st_seq s + 1), ev_Seq = st_seq s + 1, ev_PayloadJSON = ap_PayloadJSON inp\<rparr>]\<rparr>"
  define s2 where "s2 = (if ap_TextDelta inp \<noteq> [] then s1\<lparr>textContent := textContent s1 @ ap_TextDelta inp,
      textSeq := st_seq s1\<rparr> else s1)"
  define s3 where "s3 = (case ap_UpstreamThink inp of None \<Rightarrow> s2 | Some th \<Rightarrow> apply_think th s2)"
  have "stream_ok s1" unfolding s1_def using assms by (rule stream_ok_push)
  then have "stream_ok s2" unfolding s2_def by (simp add: stream_ok_text)
  then have "stream_ok s3" unfolding s3_def by (simp add: stream_ok_think split: option.splits)
  then have "stream_ok (s3\<lparr>events := trim_events maxEvents (events s3)\<rparr>)" by (rule stream_ok_trim)
  moreover have "snd (appendGenerationStreamEventLocked s inp maxEvents ttl t1) =
      notifyLocked (s3\<lparr>events := trim_events maxEvents (events s3), eventsExpiresAt := ttlFromNow t1 ttl\<rparr>)"
    by (cases "ap_TextDelta inp = []"; cases "ap_UpstreamThink inp")
      (simp_all add: appendGenerationStreamEventLocked_def Let_def s1_def s2_def s3_def)
  ultimately show ?thesis by simp
qed

lemma find_stream_ok: "streams_ok c \<Longrightarrow> find_stream r c = Some s \<Longrightarrow> stream_ok s"
  by (simp add: find_stream_def streams_okD)

lemmas streams_ok_intros = streams_ok_sweep streams_ok_put streams_ok_del stream_ok_append
  stream_ok_reset stream_ok_ensure

lemma Claim_streams_ok: "streams_ok c \<Longrightarrow> streams_ok (snd (ClaimGenerationStream lease d d' now t1 t2 c))"
  by (auto simp: ClaimGenerationStream_def Let_def split: option.splits
      intro!: streams_ok_intros intro: streams_okD) (blast intro: streams_okD)+

lemma Append_streams_ok: "streams_ok c \<Longrightarrow> streams_ok (snd (AppendGenerationStreamEvent lease inp n ttl now t1 c))"
  by (auto simp: AppendGenerationStreamEvent_def split_beta Let_def split: option.splits
      intro!: streams_ok_intros intro: find_stream_ok)

lemma stream_step_ok: "streams_ok c \<Longrightarrow> streams_ok (stream_step x c)"
  by (cases x; auto simp: Claim_streams_ok Append_streams_ok RenewGenerationStreamLease_def
      CompleteGenerationStream_def AbandonGenerationStream_def RequestGenerationStreamCancel_def
      AppendActiveGenerationEvent_def ResetGenerationStreamEvents_def ListActiveGenerationStreams_def
      split_beta Let_def split: option.splits intro!: streams_ok_intros intro: find_stream_ok; blast intro: find_stream_ok)

text \<open>
  Sequence numbers have no gaps and no duplicates. After any run of operations by
  any number of executions and clients (claims and takeovers, resets, appends with any retention
  bound, completions, sweeps), the retained events of every stream are numbered consecutively up
  to the stream's counter, their ids are those numbers in decimal, and neither snapshot is ahead
  of the counter.
\<close>

theorem events_contiguous:
  assumes "streams_ok c" and "streams (fold stream_step xs c) k = Some s"
  shows "map ev_Seq (events s) = [st_seq s - int (length (events s)) + 1 .. st_seq s] \<and>
     (\<forall>e \<in> set (events s). ev_ID e = format_int (ev_Seq e)) \<and> textSeq s \<le> st_seq s \<and> upstreamThinkSeq s \<le> st_seq s"
proof -
  have "streams_ok (fold stream_step xs c)" using assms(1)
    by (induction xs arbitrary: c) (auto simp del: stream_step.simps intro: stream_step_ok)
  then show ?thesis using assms(2) streams_okD [of _ k s] by (auto simp: stream_ok_def)
qed

definition demo_lease :: stream_lease where
  "demo_lease = \<lparr>gl_RunID = ''r1'', gl_ExecutionID = ''e1'', gl_UserID = 7, gl_ConversationPublicID = ''c1''\<rparr>"

definition demo_append :: "string \<Rightarrow> gotime \<Rightarrow> stream_op" where
  "demo_append d t = SoAppend demo_lease \<lparr>ap_PayloadJSON = ''{}'', ap_TextDelta = d, ap_UpstreamThink = None\<rparr> 2 minute t t"

definition demo_stream_cache :: cache where
  "demo_stream_cache = fold stream_step (SoClaim demo_lease minute hour 5 5 5 #
     map (\<lambda>d. demo_append d 6) [''a'', ''b'', ''c'']) new_cache"

lemma new_cache_streams_ok: "streams_ok new_cache"
  by (simp add: streams_ok_def new_cache_def)

lemma events_contiguous_witness:
  "\<exists>s. streams demo_stream_cache ''r1'' = Some s \<and> map ev_Seq (events s) = [2, 3] \<and> st_seq s = 3 \<and> textSeq s \<le> 3"
proof -
  have "map_option (\<lambda>s. (map ev_Seq (events s), st_seq s)) (streams demo_stream_cache ''r1'') = Some ([2, 3], 3)"
    by code_simp
  then obtain s where s: "streams demo_stream_cache ''r1'' = Some s" "map ev_Seq (events s) = [2, 3]" "st_seq s = 3"
    by auto
  from events_contiguous [OF new_cache_streams_ok s(1) [unfolded demo_stream_cache_def]] s show ?thesis by auto
qed

section \<open>Exclusive execution\<close>

text \<open>What others must leave alone in a stream whose execution is active.\<close>

definition same_run :: "generation_stream \<Rightarrow> generation_stream \<Rightarrow> bool" where
  "same_run s s' \<longleftrightarrow> executionID s' = executionID s \<and> ownerID s' = ownerID s \<and>
     conversationID s' = conversationID s \<and> activeExpiresAt s' = activeExpiresAt s \<and>
     ownerExpiresAt s' = ownerExpiresAt s \<and> st_seq s' = st_seq s \<and> events s' = events s \<and>
     textContent s' = textContent s \<and> textSeq s' = textSeq s \<and> upstreamThinkContent s' = upstreamThinkContent s"

lemma same_run_refl [simp]: "same_run s s"
  by (simp add: same_run_def)

lemma same_run_trans: "same_run s s' \<Longrightarrow> same_run s' s'' \<Longrightarrow> same_run s s''"
  by (simp add: same_run_def)

lemma same_run_cancel [simp]: "same_run s (notifyLocked (s\<lparr>cancelExpiresAt := t\<rparr>))"
  by (simp add: same_run_def notifyLocked_def)

definition active_at :: "generation_stream \<Rightarrow> gotime \<Rightarrow> bool" where
  "active_at s t \<longleftrightarrow> \<not> is_zero (activeExpiresAt s) \<and> t \<le> activeExpiresAt s"

lemma active_at_not_expired: "active_at s t \<Longrightarrow> t' \<le> t \<Longrightarrow> \<not> activeExpired s t'"
  by (auto simp: active_at_def activeExpired_def)

lemma sweep_active:
  assumes "streams c k = Some s" and "\<not> activeExpired s t"
  shows "streams (maybeSweepLocked t c) k = Some s"
  using assms by (intro maybeSweep_streams(2)) (auto simp: stream_dead_def)

lemma Claim_other:
  assumes "streams c k = Some s" and "\<not> activeExpired s now" and "trim_space (gl_ExecutionID lease) \<noteq> executionID s"
  shows "streams (snd (ClaimGenerationStream lease d d' now t1 t2 c)) k = Some s"
proof (cases "trim_space (gl_RunID lease) = k")
  case True
  then show ?thesis using assms by (simp add: ClaimGenerationStream_def Let_def)
next
  case False
  then show ?thesis using assms
    by (auto simp: ClaimGenerationStream_def Let_def split: option.splits intro!: sweep_active)
qed

lemma find_stream_other:
  assumes "streams c k = Some s" and "find_stream r c = Some s'" and "P s'" and "\<not> P s"
  shows "k \<noteq> trim_space r"
  using assms by (auto simp: find_stream_def)

lemma stream_step_other:
  assumes "streams c k = Some s" and "active_at s (stream_time x)" and "k \<noteq> active_events_run"
    and "executionID s \<noteq> []" and "op_execution x \<noteq> Some (executionID s)"
  shows "\<exists>s'. streams (stream_step x c) k = Some s' \<and> same_run s s'"
proof -
  have a: "\<not> activeExpired s (stream_time x)" using assms(2) by (simp add: active_at_not_expired)
  have k: "trim_space active_events_run = active_events_run" by code_simp
  show ?thesis
  proof (cases x)
    case (SoClaim lease d d' now t1 t2)
    then show ?thesis using assms a by (auto simp: op_execution_def intro!: Claim_other exI [of _ s])
  next
    case (SoCancel r u ttl now t1 t2)
    then have n: "\<not> activeExpired s now" "\<not> activeExpired s t2"
      using assms(2) by (simp_all add: active_at_def activeExpired_def)
    have t: "activeExpired (notifyLocked (s\<lparr>cancelExpiresAt := t\<rparr>)) t2 = activeExpired s t2" for t
      by (simp add: activeExpired_def notifyLocked_def)
    let ?s' = "notifyLocked (s\<lparr>cancelExpiresAt := ttlFromNow t1 ttl\<rparr>)"
    show ?thesis
    proof (cases "trim_space r = k \<and> ownerID s = u")
      case True
      then show ?thesis using SoCancel assms(1) n t
        by (intro exI [of _ ?s']) (simp add: RequestGenerationStreamCancel_def find_stream_def sweep_active)
    next
      case False
      then show ?thesis using SoCancel assms(1) n t
        by (intro exI [of _ s]) (auto simp: RequestGenerationStreamCancel_def find_stream_def
            split: option.splits intro!: sweep_active)
    qed
  next
    case (SoRenew lease d d' now t1 t2)
    then show ?thesis using assms a find_stream_other [OF assms(1), of "gl_RunID lease" _ "\<lambda>s. lease_matches s lease"]
      by (auto simp: RenewGenerationStreamLease_def Let_def op_execution_def lease_matches_def
          split: option.splits intro!: sweep_active exI [of _ s])
  next
    case (SoComplete lease d now t1 t2 t3)
    then show ?thesis using assms a find_stream_other [OF assms(1), of "gl_RunID lease" _ "\<lambda>s. lease_matches s lease"]
      by (auto simp: CompleteGenerationStream_def Let_def op_execution_def lease_matches_def
          split: option.splits intro!: sweep_active exI [of _ s])
  next
    case (SoAbandon lease now)
    then show ?thesis using assms a
        find_stream_other [OF assms(1), of "gl_RunID lease" _ "\<lambda>s. executionID s = trim_space (gl_ExecutionID lease)"]
      by (auto simp: AbandonGenerationStream_def op_execution_def map_del_def split: option.splits)
  next
    case (SoAppend lease inp n ttl now t1)
    then show ?thesis using assms a
        find_stream_other [OF assms(1), of "gl_RunID lease" _ "\<lambda>s. executionID s = trim_space (gl_ExecutionID lease)"]
      by (auto simp: AppendGenerationStreamEvent_def op_execution_def split_beta Let_def
          split: option.splits intro!: sweep_active exI [of _ s])
  next
    case (SoAppendActive inp n ttl t1 now)
    then show ?thesis using assms a k
      by (auto simp: AppendActiveGenerationEvent_def split_beta Let_def intro!: sweep_active exI [of _ s])
  next
    case (SoReset lease now)
    then show ?thesis using assms a
        find_stream_other [OF assms(1), of "gl_RunID lease" _ "\<lambda>s. executionID s = trim_space (gl_ExecutionID lease)"]
      by (auto simp: ResetGenerationStreamEvents_def op_execution_def split: option.splits)
  next
    case (SoListActive u now ids)
    then show ?thesis using assms a
      by (auto simp: ListActiveGenerationStreams_def Let_def intro!: sweep_active exI [of _ s])
  qed
qed

text \<open>
  C16: one execution at a time. While the lease of an execution is active, no run of
  operations made under other execution ids (claims with the same run id included), no
  cancellation request and no sweep takes the stream over, ends its lease, removes it, or changes
  its counter, events or text. The feed shared by all runs is the only stream others may write.
\<close>

theorem exclusive_execution:
  assumes "streams c k = Some s" and "executionID s \<noteq> []" and "k \<noteq> active_events_run"
    and "\<forall>x \<in> set xs. active_at s (stream_time x) \<and> op_execution x \<noteq> Some (executionID s)"
  shows "\<exists>s'. streams (fold stream_step xs c) k = Some s' \<and> same_run s s'"
  using assms
proof (induction xs arbitrary: c s)
  case (Cons x xs)
  then obtain s1 where s1: "streams (stream_step x c) k = Some s1" "same_run s s1"
    using stream_step_other [of c k s x] by auto
  then have "\<exists>s'. streams (fold stream_step xs (stream_step x c)) k = Some s' \<and> same_run s1 s'"
    using Cons.prems by (intro Cons.IH) (auto simp: same_run_def active_at_def)
  then show ?case using s1(2) by (auto simp del: stream_step.simps intro: same_run_trans)
qed auto

lemma exclusive_execution_witness:
  "\<exists>s'. streams (fold stream_step [SoClaim (demo_lease\<lparr>gl_ExecutionID := ''e2''\<rparr>) minute hour 7 7 7,
       SoComplete (demo_lease\<lparr>gl_ExecutionID := ''e2''\<rparr>) minute 8 8 8 8, SoCancel ''r1'' 7 minute 9 9 9] demo_stream_cache) ''r1''
       = Some s' \<and> executionID s' = ''e1'' \<and> textContent s' = ''abc''"
proof -
  have "map_option (\<lambda>s. (executionID s, activeExpiresAt s, textContent s)) (streams demo_stream_cache ''r1'') =
      Some (''e1'', 60000000005, ''abc'')" by code_simp
  then obtain s where s: "streams demo_stream_cache ''r1'' = Some s" "executionID s = ''e1''"
      "activeExpiresAt s = 60000000005" "textContent s = ''abc''" by auto
  have "trim_space ''e2'' = ''e2''" "''r1'' \<noteq> active_events_run" by code_simp+
  then show ?thesis
    using exclusive_execution [OF s(1), of "[SoClaim (demo_lease\<lparr>gl_ExecutionID := ''e2''\<rparr>) minute hour 7 7 7,
       SoComplete (demo_lease\<lparr>gl_ExecutionID := ''e2''\<rparr>) minute 8 8 8 8, SoCancel ''r1'' 7 minute 9 9 9]"] s(2-4)
    by (auto simp: active_at_def is_zero_def op_execution_def demo_lease_def same_run_def)
qed

section \<open>Catching up\<close>

lemma events_after_filter:
  "limit \<le> 0 \<or> int got < limit \<Longrightarrow> events_after a limit got xs =
     (let ys = filter (\<lambda>x. a < ev_Seq x) xs in if 0 < limit then take (nat limit - got) ys else ys)"
proof (induction a limit got xs rule: events_after.induct)
  case (2 afterSeq limit got x xs)
  consider "ev_Seq x \<le> afterSeq" | "afterSeq < ev_Seq x" "0 < limit" "limit \<le> int (Suc got)"
    | "afterSeq < ev_Seq x" "\<not> (0 < limit \<and> limit \<le> int (Suc got))" by linarith
  then show ?case
  proof cases
    case 2
    then have "nat limit - got = Suc 0" using "2.prems" by linarith
    with 2 show ?thesis by (simp add: Let_def)
  next
    case 3
    show ?thesis
    proof (cases "0 < limit")
      case True
      then have "nat limit - got = Suc (nat limit - Suc got)" using 3 by linarith
      moreover have "events_after afterSeq limit (Suc got) xs =
          take (nat limit - Suc got) (filter (\<lambda>x. afterSeq < ev_Seq x) xs)"
        using "2.IH"(2) 3 True by (simp add: Let_def)
      ultimately show ?thesis using 3 True by (simp add: Let_def)
    qed (use 3 "2.IH"(2) in \<open>simp add: Let_def\<close>)
  qed (use "2.IH"(1) "2.prems" in \<open>simp add: Let_def\<close>)
qed simp

lemma generationEventsAfter_take:
  "generationEventsAfter evs a limit = (let ys = filter (\<lambda>x. a < ev_Seq x) evs in if 0 < limit then take (nat limit) ys else ys)"
  by (cases "0 < limit") (simp_all add: generationEventsAfter_def events_after_filter)

lemma filter_gt_upto: "filter (\<lambda>x. a < x) [b..e] = [max (a + 1) b..e]"
proof (induction b e rule: upto.induct)
  case (1 b e)
  then show ?case by (cases "b \<le> e") (auto simp: upto_rec1 max_def)
qed

lemma take_upto: "take n [b..e] = [b .. min e (b + int n - 1)]"
proof (induction n arbitrary: b)
  case (Suc n)
  show ?case
  proof (cases "b \<le> e")
    case True
    then show ?thesis using Suc.IH [of "b + 1"] upto_rec1 [of b "min e (b + int (Suc n) - 1)"]
      by (simp add: upto_rec1 ac_simps)
  qed simp
qed simp

text \<open>A cursor is the id of an event; its number comes back from its decimal form.\<close>

lemma show_nat_not_minus: "CHR ''-'' \<notin> set (show_nat n)"
  by (rule show_nat_no_char) simp

lemma parseStreamID_format:
  assumes "0 \<le> n" and "n \<le> max_int64"
  shows "parseStreamID (format_int n) = n"
proof -
  let ?s = "show_nat (nat n)"
  have f: "format_int n = ?s" using assms(1) by (simp add: format_int_def)
  have no: "CHR ''-'' \<notin> set ?s" "CHR ''+'' \<notin> set ?s"
    by (rule show_nat_no_char, simp add: is_digit_def)+
  then have "?s \<noteq> ''0-0''" by auto
  obtain d ds where d: "?s = d # ds" by (cases ?s) auto
  have "list_all is_digit ?s" by (rule show_nat_digits)
  then have "parse_int ?s = clamp_int64 (int (read_nat ?s))" using d no by (auto simp: parse_int_def)
  also have "\<dots> = n" using assms by (simp add: clamp_int64_def int64_defs)
  finally show ?thesis using no \<open>?s \<noteq> ''0-0''\<close> by (simp add: parseStreamID_def f)
qed

lemma read_found:
  assumes "find_stream runID c = Some s" and "\<not> eventsExpired s now" and "generationEventsAfter (events s) a limit \<noteq> []"
  shows "read_stream_loop runID a limit now c evs = Some (generationEventsAfter (events s) a limit)"
  using assms by (simp add: read_stream_loop.simps)

lemma map_generationEventsAfter:
  assumes "stream_ok s" and "st_seq s - int (length (events s)) \<le> a" and "0 < limit"
  shows "map ev_Seq (generationEventsAfter (events s) a limit) = [a + 1 .. min (st_seq s) (a + limit)]"
proof -
  have "map ev_Seq (filter (\<lambda>x. a < ev_Seq x) (events s)) = filter (\<lambda>x. a < x) (map ev_Seq (events s))"
    by (simp add: filter_map comp_def)
  also have "\<dots> = [a + 1 .. st_seq s]" using assms(1,2) by (simp add: stream_ok_def filter_gt_upto max_def)
  finally have "map ev_Seq (take (nat limit) (filter (\<lambda>x. a < ev_Seq x) (events s))) = take (nat limit) [a + 1 .. st_seq s]"
    by (simp add: take_map [symmetric])
  then show ?thesis using assms(3)
    by (simp add: generationEventsAfter_take Let_def take_upto)
qed

text \<open>A client that follows a stream: read at most \<open>limit\<close> events, move the cursor to the last one.\<close>

fun follow :: "nat \<Rightarrow> string \<Rightarrow> string \<Rightarrow> int \<Rightarrow> gotime \<Rightarrow> cache \<Rightarrow> stream_message list" where
  "follow 0 runID cursor limit now c = []"
| "follow (Suc n) runID cursor limit now c =
     (case ReadGenerationStreamEvents runID cursor limit now c [SwDeadline] of
        Some (r # rs) \<Rightarrow> (r # rs) @ follow n runID (ev_ID (last (r # rs))) limit now c
      | _ \<Rightarrow> [])"

lemma last_event_id:
  assumes "stream_ok s" and "generationEventsAfter (events s) a limit = r # rs"
    and "map ev_Seq (r # rs) = [a + 1 .. e]"
  shows "ev_ID (last (r # rs)) = format_int e"
proof -
  have "last (r # rs) \<in> set (events s)"
  proof -
    have "set (generationEventsAfter (events s) a limit) \<subseteq> set (events s)"
      by (auto simp: generationEventsAfter_take Let_def dest: in_set_takeD split: if_splits)
    moreover have "last (r # rs) \<in> set (r # rs)" by (rule last_in_set) simp
    ultimately show ?thesis unfolding assms(2) by (rule subsetD)
  qed
  moreover have "ev_Seq (last (r # rs)) = e"
  proof -
    have le: "a + 1 \<le> e" using arg_cong [OF assms(3), of length] by simp
    have "ev_Seq (last (r # rs)) = last (map ev_Seq (r # rs))" by (subst last_map) simp_all
    also have "\<dots> = last [a + 1 .. e]" by (simp only: assms(3))
    also have "\<dots> = e" using le by (simp add: upto_rec2)
    finally show ?thesis .
  qed
  ultimately show ?thesis using assms(1) by (simp add: stream_ok_def)
qed

lemma follow_all:
  assumes "streams_ok c" and "find_stream runID c = Some s" and "\<not> eventsExpired s now"
    and "st_seq s \<le> max_int64" and "0 < limit"
  shows "0 \<le> a \<Longrightarrow> st_seq s - int (length (events s)) \<le> a \<Longrightarrow> a \<le> st_seq s \<Longrightarrow> st_seq s \<le> a + int n \<Longrightarrow>
     map ev_Seq (follow n runID (format_int a) limit now c) = [a + 1 .. st_seq s]"
proof (induction n arbitrary: a)
  case (Suc n)
  note ok = find_stream_ok [OF assms(1,2)]
  let ?g = "generationEventsAfter (events s) a limit"
  have m: "map ev_Seq ?g = [a + 1 .. min (st_seq s) (a + limit)]"
    using ok Suc.prems(2) assms(5) by (rule map_generationEventsAfter)
  have a: "parseStreamID (format_int a) = a" using Suc.prems assms(4) by (simp add: parseStreamID_format)
  show ?case
  proof (cases "a < st_seq s")
    case False
    then have "?g = []" using m by simp
    then have "ReadGenerationStreamEvents runID (format_int a) limit now c [SwDeadline] = Some []"
      using assms(2,3) a by (simp add: ReadGenerationStreamEvents_def read_stream_loop.simps)
    then show ?thesis using False by simp
  next
    case True
    let ?e = "min (st_seq s) (a + limit)"
    have e: "a < ?e" "?e \<le> st_seq s" using True assms(5) by auto
    have "?g \<noteq> []" using m e by auto
    then obtain r rs where g: "?g = r # rs" by (cases ?g) auto
    have "ReadGenerationStreamEvents runID (format_int a) limit now c [SwDeadline] = Some (r # rs)"
      using read_found [OF assms(2,3), of a limit] g a
      by (simp add: ReadGenerationStreamEvents_def)
    moreover have "ev_ID (last (r # rs)) = format_int ?e" using last_event_id [OF ok g] m g by simp
    moreover have "map ev_Seq (follow n runID (format_int ?e) limit now c) = [?e + 1 .. st_seq s]"
      using Suc.prems e assms(5) by (intro Suc.IH) auto
    ultimately have "map ev_Seq (follow (Suc n) runID (format_int a) limit now c) =
        map ev_Seq (r # rs) @ [?e + 1 .. st_seq s]" by simp
    also have "\<dots> = [a + 1 .. ?e] @ [?e + 1 .. st_seq s]" using m g by simp
    also have "\<dots> = [a + 1 .. st_seq s]"
      using e upto_split1 [of "a + 1" "?e + 1" "st_seq s"] by (cases "a + limit < st_seq s") (simp_all add: min_def)
    finally show ?thesis .
  qed
qed simp

text \<open>
  C13: a client that reconnects misses nothing and sees nothing twice. From the id of any
  event not yet trimmed away (or the position before the first one), reading in chunks of any
  positive size and moving the cursor to the last id received delivers exactly the events after
  the cursor, in order; \<open>n\<close> reads are enough when the chunks can cover the distance.
\<close>

theorem catch_up:
  assumes "streams_ok c" and "find_stream runID c = Some s" and "\<not> eventsExpired s now"
    and "st_seq s \<le> max_int64" and "0 < limit"
    and "0 \<le> a" and "st_seq s - int (length (events s)) \<le> a" and "a \<le> st_seq s" and "st_seq s \<le> a + int n"
  shows "map ev_Seq (follow n runID (format_int a) limit now c) = [a + 1 .. st_seq s]"
  using assms by (rule follow_all)

lemma demo_stream_cache_ok: "streams_ok demo_stream_cache"
proof -
  have "streams_ok (fold stream_step xs c)" if "streams_ok c" for xs c
    using that by (induction xs arbitrary: c) (auto simp del: stream_step.simps intro: stream_step_ok)
  then show ?thesis using new_cache_streams_ok by (simp only: demo_stream_cache_def)
qed

lemma catch_up_witness:
  "map ev_Seq (follow 2 '' r1 '' (format_int 1) 1 9 demo_stream_cache) = [2, 3]"
proof -
  have "map_option (\<lambda>s. (st_seq s, length (events s), eventsExpired s 9)) (find_stream '' r1 '' demo_stream_cache) = Some (3, 2, False)"
    by code_simp
  then obtain s where s: "find_stream '' r1 '' demo_stream_cache = Some s" "st_seq s = 3" "length (events s) = 2"
      "\<not> eventsExpired s 9" by auto
  have "st_seq s \<le> max_int64" using s by (simp add: int64_defs)
  from catch_up [OF demo_stream_cache_ok s(1,4) this, of 1 1 2] s show ?thesis by simp
qed

section \<open>Snapshots\<close>

text \<open>The holder appends a list of events, each with its retention bound, lifetime and clock readings.\<close>

definition append_all ::
  "stream_lease \<Rightarrow> (stream_append \<times> int \<times> duration \<times> gotime \<times> gotime) list \<Rightarrow> cache \<Rightarrow> cache" where
  "append_all lease = fold (\<lambda>(inp, n, ttl, now, t1) c. snd (AppendGenerationStreamEvent lease inp n ttl now t1 c))"

definition append_inputs :: "(stream_append \<times> int \<times> duration \<times> gotime \<times> gotime) list \<Rightarrow> stream_append list" where
  "append_inputs = map fst"

lemma append_fields:
  "textContent (snd (appendGenerationStreamEventLocked s inp n ttl t1)) = textContent s @ ap_TextDelta inp"
  "textSeq (snd (appendGenerationStreamEventLocked s inp n ttl t1)) =
     (if ap_TextDelta inp = [] then textSeq s else st_seq s + 1)"
  "st_seq (snd (appendGenerationStreamEventLocked s inp n ttl t1)) = st_seq s + 1"
  "executionID (snd (appendGenerationStreamEventLocked s inp n ttl t1)) = executionID s"
  "activeExpiresAt (snd (appendGenerationStreamEventLocked s inp n ttl t1)) = activeExpiresAt s"
  "eventsExpiresAt (snd (appendGenerationStreamEventLocked s inp n ttl t1)) = ttlFromNow t1 ttl"
  by (cases "ap_UpstreamThink inp";
      simp add: appendGenerationStreamEventLocked_def apply_think_def notifyLocked_def Let_def)+

lemma append_find:
  assumes "find_stream (gl_RunID lease) c = Some s" and "executionID s = trim_space (gl_ExecutionID lease)"
    and "active_at s now"
  shows "find_stream (gl_RunID lease) (snd (AppendGenerationStreamEvent lease inp n ttl now t1 c)) =
     Some (snd (appendGenerationStreamEventLocked s inp n ttl t1))"
proof -
  let ?s' = "snd (appendGenerationStreamEventLocked s inp n ttl t1)"
  have a: "\<not> activeExpired s now" using assms(3) by (simp add: active_at_not_expired)
  then have "\<not> activeExpired ?s' now" by (simp add: activeExpired_def append_fields)
  then show ?thesis using assms(1,2) a
    by (auto simp: AppendGenerationStreamEvent_def find_stream_def split_beta Let_def intro!: sweep_active)
qed

text \<open>The number of the last event with text, in a list of inputs that follows event \<open>n\<close>.\<close>

fun text_seq_after :: "int \<Rightarrow> int \<Rightarrow> stream_append list \<Rightarrow> int" where
  "text_seq_after cur n [] = cur"
| "text_seq_after cur n (x # xs) = text_seq_after (if ap_TextDelta x = [] then cur else n + 1) (n + 1) xs"

lemma append_all_stream:
  assumes "find_stream (gl_RunID lease) c = Some s" and "executionID s = trim_space (gl_ExecutionID lease)"
    and "\<forall>(inp, n, ttl, now, t1) \<in> set xs. active_at s now"
  shows "\<exists>s'. find_stream (gl_RunID lease) (append_all lease xs c) = Some s' \<and>
     textContent s' = textContent s @ concat (map ap_TextDelta (append_inputs xs)) \<and>
     textSeq s' = text_seq_after (textSeq s) (st_seq s) (append_inputs xs) \<and>
     st_seq s' = st_seq s + int (length xs) \<and>
     (xs \<noteq> [] \<longrightarrow> eventsExpiresAt s' = (case last xs of (inp, n, ttl, now, t1) \<Rightarrow> ttlFromNow t1 ttl))"
  using assms
proof (induction xs arbitrary: c s)
  case (Cons x xs)
  obtain inp n ttl now t1 where x: "x = (inp, n, ttl, now, t1)" by (cases x)
  let ?s1 = "snd (appendGenerationStreamEventLocked s inp n ttl t1)"
  let ?c1 = "snd (AppendGenerationStreamEvent lease inp n ttl now t1 c)"
  have f: "find_stream (gl_RunID lease) ?c1 = Some ?s1"
    using Cons.prems by (intro append_find) (auto simp: x)
  have "executionID ?s1 = trim_space (gl_ExecutionID lease)" using Cons.prems(2) by (simp add: append_fields)
  moreover have "\<forall>(inp, n, ttl, now, t1) \<in> set xs. active_at ?s1 now"
    using Cons.prems(3) by (simp add: active_at_def append_fields)
  moreover have "append_all lease (x # xs) c = append_all lease xs ?c1" by (simp add: append_all_def x)
  ultimately show ?case using Cons.IH [OF f] f
    by (auto simp: append_inputs_def append_fields x append_all_def)
qed (simp add: append_all_def append_inputs_def)

lemma text_seq_after_pos: "0 \<le> cur \<Longrightarrow> 0 \<le> n \<Longrightarrow> cur \<le> text_seq_after cur n xs \<or> n < text_seq_after cur n xs"
  by (induction cur n xs rule: text_seq_after.induct) (auto split: if_splits)

lemma text_seq_after_nonempty:
  "0 \<le> n \<Longrightarrow> 0 \<le> cur \<Longrightarrow> concat (map ap_TextDelta xs) \<noteq> [] \<Longrightarrow> 0 < text_seq_after cur n xs"
proof (induction cur n xs rule: text_seq_after.induct)
  case (2 cur n x xs)
  then show ?case using text_seq_after_pos [of "n + 1" "n + 1" xs] by (cases "ap_TextDelta x = []") auto
qed simp

text \<open>
  C24: the text snapshot is complete although the event list is not. Whatever
  retention bounds the appends of the lease holder use, the snapshot a client gets is the text so
  far followed by every delta appended since, and its number is that of the last event with text,
  so that the events after it hold no text the snapshot lacks.
\<close>

theorem text_snapshot_exact:
  assumes "find_stream (gl_RunID lease) c = Some s" and "executionID s = trim_space (gl_ExecutionID lease)"
    and "\<forall>(inp, n, ttl, now, t1) \<in> set xs. active_at s now"
    and "stream_ok s" and "concat (map ap_TextDelta (append_inputs xs)) \<noteq> []"
    and "last xs = (inp, n, ttl, now, t1)" and "0 \<le> t1" and "t \<le> ttlFromNow t1 ttl"
  shows "GetGenerationStreamTextSnapshot (gl_RunID lease) t (append_all lease xs c) =
     Some \<lparr>ts_Seq = text_seq_after (textSeq s) (st_seq s) (append_inputs xs),
       ts_Content = textContent s @ concat (map ap_TextDelta (append_inputs xs))\<rparr>"
proof -
  obtain s' where s': "find_stream (gl_RunID lease) (append_all lease xs c) = Some s'"
     "textContent s' = textContent s @ concat (map ap_TextDelta (append_inputs xs))"
     "textSeq s' = text_seq_after (textSeq s) (st_seq s) (append_inputs xs)"
     "xs \<noteq> [] \<longrightarrow> eventsExpiresAt s' = (case last xs of (inp, n, ttl, now, t1) \<Rightarrow> ttlFromNow t1 ttl)"
    using append_all_stream [OF assms(1-3)] by auto
  have "xs \<noteq> []" using assms(5) by (auto simp: append_inputs_def)
  then have "eventsExpiresAt s' = ttlFromNow t1 ttl" using s'(4) assms(6) by simp
  then have "\<not> eventsExpired s' t" using ttlFromNow_pos [OF assms(7), of ttl] assms(8)
    by (simp add: eventsExpired_def is_zero_def)
  moreover have "0 < textSeq s'"
    unfolding s'(3) using assms(4,5) by (intro text_seq_after_nonempty) (auto simp: stream_ok_def)
  ultimately show ?thesis using s' by (simp add: GetGenerationStreamTextSnapshot_def)
qed

definition demo_inputs :: "(stream_append \<times> int \<times> duration \<times> gotime \<times> gotime) list" where
  "demo_inputs = map (\<lambda>d. (\<lparr>ap_PayloadJSON = ''{}'', ap_TextDelta = d, ap_UpstreamThink = None\<rparr>, 1, minute, 7, 7)) [''d'', ''e'', []]"

lemma text_snapshot_exact_witness:
  "GetGenerationStreamTextSnapshot ''r1'' 8 (append_all demo_lease demo_inputs demo_stream_cache) =
     Some \<lparr>ts_Seq = 5, ts_Content = ''abcde''\<rparr>"
proof -
  have "map_option (\<lambda>s. (executionID s, activeExpiresAt s, textContent s, textSeq s, st_seq s)) (find_stream ''r1'' demo_stream_cache) =
      Some (''e1'', 60000000005, ''abc'', 3, 3)" by code_simp
  then obtain s where s: "find_stream ''r1'' demo_stream_cache = Some s" "executionID s = ''e1''"
      "activeExpiresAt s = 60000000005" "textContent s = ''abc''" "textSeq s = 3" "st_seq s = 3" by auto
  have ok: "stream_ok s" using find_stream_ok [OF demo_stream_cache_ok s(1)] .
  have "trim_space ''e1'' = ''e1''" "8 \<le> ttlFromNow 7 minute" by code_simp+
  then show ?thesis
    using text_snapshot_exact [where lease = demo_lease and c = demo_stream_cache and s = s and xs = demo_inputs
        and t = 8 and ?t1.0 = 7 and ttl = minute and now = 7 and n = 1
        and inp = "\<lparr>ap_PayloadJSON = ''{}'', ap_TextDelta = [], ap_UpstreamThink = None\<rparr>"] s ok
    by (simp add: demo_lease_def demo_inputs_def append_inputs_def active_at_def is_zero_def)
qed

end
