(* ===== verification/Route_Protocols.thy ===== *)
theory Route_Protocols
  imports Go_Prelude
begin

text \<open>
  The protocol vocabulary of the upstream adapters (\<open>ports/llm/adapter.go\<close>), the rules that say
  which protocol serves which model kind and task (\<open>application/channel/model_catalog.go\<close>), and
  the name normalisers of \<open>application/channel/service_view_normalization.go\<close>. Decoding JSON is an
  argument: \<open>um\<close> is \<open>json.Unmarshal\<close> into a \<open>[]string\<close>, \<open>ud\<close> is \<open>json.Unmarshal\<close> into a
  \<open>map[string]*string\<close> of the trimmed text (\<open>None\<close> on an error, \<open>Some None\<close> for \<open>null\<close>).
\<close>

section \<open>Errors of the channel service\<close>

datatype channel_error =
    ErrModelNotFound | ErrRouteNotFound | ErrAllRoutesUnavailable | RoutesRateLimitedError duration
  | ErrCircuitBreakerDisabled | ErrInvalidPlatformModelName | ErrModelAccessDenied | ErrNoActiveKey
  | ErrInvalidAdapter | ErrProtocolRequired | ErrInvalidRouteProtocolCombination | ErrInvalidKinds
  | ErrInvalidJSONConfig | ErrInvalidModelAccessScope
  | RepositoryError string

section \<open>Adapters\<close>

abbreviation "AdapterOpenAIResponses \<equiv> ''openai_responses''"
abbreviation "AdapterOpenRouterChat \<equiv> ''openrouter_chat_completions''"
abbreviation "AdapterOpenRouterResponses \<equiv> ''openrouter_responses''"
abbreviation "AdapterOpenRouterImages \<equiv> ''openrouter_images''"
abbreviation "AdapterOpenAIChatCompletions \<equiv> ''openai_chat_completions''"
abbreviation "AdapterOpenAIImageGenerations \<equiv> ''openai_image_generations''"
abbreviation "AdapterOpenAIImageEdits \<equiv> ''openai_image_edits''"
abbreviation "AdapterAnthropicMessages \<equiv> ''anthropic_messages''"
abbreviation "AdapterGoogleGenerateContent \<equiv> ''google_generate_content''"
abbreviation "AdapterGoogleImageGeneration \<equiv> ''google_image_generation''"
abbreviation "AdapterGeminiInteractions \<equiv> ''gemini_interactions''"
abbreviation "AdapterXAIResponses \<equiv> ''xai_responses''"
abbreviation "AdapterXAIImage \<equiv> ''xai_image''"
abbreviation "AdapterXAIImageEdits \<equiv> ''xai_image_edits''"
abbreviation "AdapterXAIVideo \<equiv> ''xai_video''"
abbreviation "AdapterXAIVideoExtensions \<equiv> ''xai_video_extensions''"
abbreviation "protocolOpenAIVideoGenerations \<equiv> ''openai_video_generations''"

text \<open>\<open>strings.TrimSpace(strings.ToLower(raw))\<close>, the normal form of every name below.\<close>

definition norm_name :: "string \<Rightarrow> string" where
  "norm_name raw = trim_space (to_lower raw)"

definition NormalizeAdapter :: "string \<Rightarrow> string" where
  "NormalizeAdapter raw = (if norm_name raw = [] then AdapterOpenAIResponses else norm_name raw)"

definition implemented_adapters :: "string list" where
  "implemented_adapters =
     [AdapterOpenAIResponses, AdapterOpenRouterChat, AdapterOpenRouterResponses, AdapterOpenRouterImages,
      AdapterOpenAIChatCompletions, AdapterOpenAIImageGenerations, AdapterOpenAIImageEdits, AdapterXAIResponses,
      AdapterAnthropicMessages, AdapterGoogleGenerateContent, AdapterGoogleImageGeneration,
      AdapterGeminiInteractions, AdapterXAIImage, AdapterXAIImageEdits, AdapterXAIVideo,
      AdapterXAIVideoExtensions]"

definition IsImplementedAdapter :: "string \<Rightarrow> bool" where
  "IsImplementedAdapter raw = List.member implemented_adapters (NormalizeAdapter raw)"

definition SupportsStreamingAdapter :: "string \<Rightarrow> bool" where
  "SupportsStreamingAdapter raw = List.member
     [AdapterOpenAIResponses, AdapterOpenRouterChat, AdapterOpenRouterResponses, AdapterOpenRouterImages,
      AdapterOpenAIChatCompletions, AdapterOpenAIImageGenerations, AdapterOpenAIImageEdits,
      AdapterAnthropicMessages, AdapterGoogleGenerateContent, AdapterGoogleImageGeneration,
      AdapterGeminiInteractions, AdapterXAIResponses] (NormalizeAdapter raw)"

definition openAIImageGenerationModelSupportsStream :: "string \<Rightarrow> bool" where
  "openAIImageGenerationModelSupportsStream model = has_prefix (to_lower (trim_space model)) ''gpt-image-''"

definition openAIImageEditModelSupportsStream :: "string \<Rightarrow> bool" where
  "openAIImageEditModelSupportsStream model =
     (let normalized = to_lower (trim_space model)
      in has_prefix normalized ''gpt-image-'' \<or> normalized = ''chatgpt-image-latest'')"

definition SupportsImageGenerationStream :: "string \<Rightarrow> string \<Rightarrow> bool" where
  "SupportsImageGenerationStream protocol model =
     (let a = NormalizeAdapter protocol in
      if a = AdapterOpenAIImageGenerations then openAIImageGenerationModelSupportsStream model
      else if a = AdapterGoogleImageGeneration then True
      else if a = AdapterGeminiInteractions then True
      else if a = AdapterOpenAIImageEdits then openAIImageEditModelSupportsStream model
      else a = AdapterOpenRouterImages)"

definition IsImageGenerationAdapter :: "string \<Rightarrow> bool" where
  "IsImageGenerationAdapter raw = List.member
     [AdapterOpenAIImageGenerations, AdapterGoogleImageGeneration, AdapterGeminiInteractions,
      AdapterXAIImage, AdapterOpenRouterImages] (NormalizeAdapter raw)"

definition IsImageEditAdapter :: "string \<Rightarrow> bool" where
  "IsImageEditAdapter raw = List.member
     [AdapterOpenAIImageEdits, AdapterGoogleImageGeneration, AdapterGeminiInteractions,
      AdapterXAIImageEdits, AdapterOpenRouterImages] (NormalizeAdapter raw)"

definition IsVideoGenerationAdapter :: "string \<Rightarrow> bool" where
  "IsVideoGenerationAdapter raw = List.member
     [AdapterGeminiInteractions, AdapterXAIVideo, AdapterXAIVideoExtensions] (NormalizeAdapter raw)"

datatype llm_endpoint = EndpointChatCompletions | EndpointImageGenerations | EndpointImageEdits | EndpointImages
  | EndpointVideoGenerations | EndpointVideoExtensions | EndpointInteractions | EndpointResponses

definition DefaultEndpointForAdapter :: "string \<Rightarrow> llm_endpoint" where
  "DefaultEndpointForAdapter adapter =
     (let a = NormalizeAdapter adapter in
      if List.member [AdapterOpenAIChatCompletions, AdapterOpenRouterChat] a then EndpointChatCompletions
      else if List.member [AdapterOpenAIImageGenerations, AdapterGoogleImageGeneration, AdapterXAIImage] a
        then EndpointImageGenerations
      else if List.member [AdapterOpenAIImageEdits, AdapterXAIImageEdits] a then EndpointImageEdits
      else if a = AdapterOpenRouterImages then EndpointImages
      else if a = AdapterXAIVideo then EndpointVideoGenerations
      else if a = AdapterXAIVideoExtensions then EndpointVideoExtensions
      else if a = AdapterGeminiInteractions then EndpointInteractions
      else EndpointResponses)"

definition SupportsPreviousResponseID :: "string \<Rightarrow> bool" where
  "SupportsPreviousResponseID adapter \<longleftrightarrow> NormalizeAdapter adapter = AdapterOpenAIResponses"

section \<open>Kinds, protocols and tasks\<close>

abbreviation "TaskTypeChat \<equiv> ''chat''"
abbreviation "TaskTypeImageGeneration \<equiv> ''image_generation''"
abbreviation "TaskTypeImageEdit \<equiv> ''image_edit''"
abbreviation "TaskTypeVideoGeneration \<equiv> ''video_generation''"
abbreviation "TaskTypeVideoExtension \<equiv> ''video_extension''"
abbreviation "modelKindChat \<equiv> ''chat''"
abbreviation "modelKindAudio \<equiv> ''audio''"
abbreviation "modelKindImageGen \<equiv> ''image_gen''"
abbreviation "modelKindImageEdit \<equiv> ''image_edit''"
abbreviation "modelKindVideoGen \<equiv> ''video_gen''"
abbreviation "modelKindVideoExtension \<equiv> ''video_extension''"
abbreviation "compatibleOpenAI \<equiv> ''openai''"
abbreviation "compatibleAnthropic \<equiv> ''anthropic''"
abbreviation "compatibleGoogle \<equiv> ''google''"
abbreviation "compatibleXAI \<equiv> ''xai''"
abbreviation "compatibleOpenRouter \<equiv> ''openrouter''"
abbreviation "compatibleCustom \<equiv> ''custom''"

definition protocolDefaultKindOrder :: "string list" where
  "protocolDefaultKindOrder = [modelKindChat, modelKindAudio, modelKindImageGen, modelKindImageEdit,
     modelKindVideoGen, modelKindVideoExtension]"

definition normalizeCompatible :: "string \<Rightarrow> string" where
  "normalizeCompatible raw =
     (let v = norm_name raw in
      if List.member [compatibleAnthropic, compatibleGoogle, compatibleXAI, compatibleOpenRouter, compatibleCustom] v then v
      else if v = [] \<or> v = compatibleOpenAI then compatibleOpenAI
      else [])"

text \<open>A Go map literal, as an association list; a missing key reads as the empty string.\<close>

definition fallback_table :: "string \<Rightarrow> (string \<times> string) list" where
  "fallback_table v =
     (if v = compatibleOpenAI then
        [(modelKindChat, AdapterOpenAIChatCompletions), (modelKindAudio, AdapterOpenAIChatCompletions),
         (modelKindImageGen, AdapterOpenAIImageGenerations), (modelKindImageEdit, AdapterOpenAIImageEdits),
         (modelKindVideoGen, protocolOpenAIVideoGenerations)]
      else if v = compatibleAnthropic then
        [(modelKindChat, AdapterAnthropicMessages), (modelKindAudio, AdapterAnthropicMessages)]
      else if v = compatibleGoogle then
        [(modelKindChat, AdapterGoogleGenerateContent), (modelKindAudio, AdapterGoogleGenerateContent),
         (modelKindImageGen, AdapterGoogleImageGeneration), (modelKindImageEdit, AdapterGoogleImageGeneration),
         (modelKindVideoGen, AdapterGeminiInteractions)]
      else if v = compatibleXAI then
        [(modelKindChat, AdapterXAIResponses), (modelKindAudio, AdapterXAIResponses),
         (modelKindImageGen, AdapterXAIImage), (modelKindImageEdit, AdapterXAIImageEdits),
         (modelKindVideoGen, AdapterXAIVideo), (modelKindVideoExtension, AdapterXAIVideoExtensions)]
      else if v = compatibleOpenRouter then
        [(modelKindChat, AdapterOpenRouterResponses), (modelKindAudio, AdapterOpenRouterResponses),
         (modelKindImageGen, AdapterOpenRouterImages), (modelKindImageEdit, AdapterOpenRouterImages),
         (modelKindVideoGen, protocolOpenAIVideoGenerations)]
      else if v = compatibleCustom then
        [(modelKindChat, AdapterOpenAIChatCompletions), (modelKindAudio, AdapterOpenAIChatCompletions),
         (modelKindImageGen, AdapterOpenAIImageGenerations), (modelKindImageEdit, AdapterOpenAIImageEdits)]
      else [])"

definition systemFallbackProtocols :: "string \<Rightarrow> (string \<times> string) list" where
  "systemFallbackProtocols compatible = fallback_table (normalizeCompatible compatible)"

definition fallback_protocol :: "string \<Rightarrow> string \<Rightarrow> string" where
  "fallback_protocol compatible kind =
     (case map_of (systemFallbackProtocols compatible) kind of None \<Rightarrow> [] | Some p \<Rightarrow> p)"

definition known_protocols :: "string list" where
  "known_protocols = [AdapterOpenAIResponses, AdapterOpenRouterChat, AdapterOpenRouterResponses,
     AdapterOpenAIChatCompletions, AdapterAnthropicMessages, AdapterGoogleGenerateContent, AdapterXAIResponses,
     AdapterOpenAIImageGenerations, AdapterOpenAIImageEdits, AdapterOpenRouterImages,
     protocolOpenAIVideoGenerations, AdapterGoogleImageGeneration, AdapterGeminiInteractions, AdapterXAIImage,
     AdapterXAIImageEdits, AdapterXAIVideo, AdapterXAIVideoExtensions]"

definition isKnownProtocol :: "string \<Rightarrow> bool" where
  "isKnownProtocol raw \<longleftrightarrow> List.member known_protocols (norm_name raw)"

definition kind_protocols :: "string \<Rightarrow> string list" where
  "kind_protocols kind =
     (if kind = modelKindChat then
        [AdapterOpenAIResponses, AdapterOpenRouterChat, AdapterOpenRouterResponses, AdapterOpenAIChatCompletions,
         AdapterAnthropicMessages, AdapterGoogleGenerateContent, AdapterGeminiInteractions, AdapterXAIResponses]
      else if kind = modelKindAudio then
        [AdapterOpenAIResponses, AdapterOpenRouterChat, AdapterOpenRouterResponses, AdapterOpenAIChatCompletions,
         AdapterAnthropicMessages, AdapterGoogleGenerateContent, AdapterXAIResponses]
      else if kind = modelKindImageGen then
        [AdapterOpenAIImageGenerations, AdapterOpenRouterImages, AdapterGoogleImageGeneration,
         AdapterGeminiInteractions, AdapterXAIImage]
      else if kind = modelKindImageEdit then
        [AdapterOpenAIImageEdits, AdapterOpenRouterImages, AdapterGoogleImageGeneration,
         AdapterGeminiInteractions, AdapterXAIImageEdits]
      else if kind = modelKindVideoGen then
        [protocolOpenAIVideoGenerations, AdapterGeminiInteractions, AdapterXAIVideo]
      else if kind = modelKindVideoExtension then [AdapterXAIVideoExtensions]
      else [])"

definition isProtocolAllowedForKind :: "string \<Rightarrow> string \<Rightarrow> bool" where
  "isProtocolAllowedForKind kind protocol = List.member (kind_protocols kind) protocol"

fun normalizeKindList :: "string list \<Rightarrow> string list \<Rightarrow> string list" where
  "normalizeKindList [] seen = []"
| "normalizeKindList (kind # kinds) seen =
     (let v = norm_name kind in
      if v = [] \<or> List.member seen v then normalizeKindList kinds seen
      else v # normalizeKindList kinds (v # seen))"

definition parseKinds :: "(string \<Rightarrow> string list option) \<Rightarrow> string \<Rightarrow> string list" where
  "parseKinds um raw =
     (let v = trim_space raw in
      if v = [] then []
      else case (if has_prefix v ''['' then um v else None) of
          Some parsed \<Rightarrow> normalizeKindList parsed []
        | None \<Rightarrow> normalizeKindList [v] [])"

definition validateKinds :: "string list \<Rightarrow> bool" where
  "validateKinds kinds \<longleftrightarrow> kinds \<noteq> [] \<and> list_all (List.member protocolDefaultKindOrder) kinds"

text \<open>\<open>normalizeKindsJSON\<close> returns the list that \<open>json.Marshal\<close> then prints.\<close>

definition normalizeKindsJSON :: "(string \<Rightarrow> string list option) \<Rightarrow> string \<Rightarrow> channel_error + string list" where
  "normalizeKindsJSON um raw =
     (let v = trim_space raw in
      if v = [] then Inr [modelKindChat]
      else (let kinds0 = parseKinds um v;
                kinds = (if kinds0 = [] \<and> \<not> has_prefix v ''['' then [v] else kinds0)
            in if \<not> validateKinds kinds then Inl ErrInvalidKinds else Inr kinds))"

definition normalizeProtocol :: "string \<Rightarrow> channel_error + string" where
  "normalizeProtocol raw =
     (let v = norm_name raw in
      if v = [] then Inl ErrProtocolRequired else if \<not> isKnownProtocol v then Inl ErrInvalidAdapter else Inr v)"

definition hasModelKind :: "string list \<Rightarrow> string \<Rightarrow> bool" where
  "hasModelKind kinds target = list_ex (\<lambda>k. k = target) kinds"

definition primaryKindFromKinds :: "string list \<Rightarrow> string" where
  "primaryKindFromKinds kinds =
     (case List.find (\<lambda>candidate. List.member kinds candidate) protocolDefaultKindOrder of
        None \<Rightarrow> [] | Some k \<Rightarrow> k)"

definition isProtocolAllowedForKinds :: "string list \<Rightarrow> string \<Rightarrow> bool" where
  "isProtocolAllowedForKinds kinds protocol \<longleftrightarrow>
     kinds = [] \<or> list_ex (\<lambda>kind. isProtocolAllowedForKind kind protocol) kinds"

definition routeProtocolSupportsAllKinds :: "string \<Rightarrow> string list \<Rightarrow> bool" where
  "routeProtocolSupportsAllKinds protocol kinds \<longleftrightarrow>
     list_all (\<lambda>kind. isProtocolAllowedForKind kind protocol) kinds \<and> 0 < length kinds"

fun uniqueRouteProtocols :: "string list \<Rightarrow> string list \<Rightarrow> string list" where
  "uniqueRouteProtocols [] seen = []"
| "uniqueRouteProtocols (raw # vals) seen =
     (let protocol = norm_name raw in
      if protocol = [] \<or> List.member seen protocol then uniqueRouteProtocols vals seen
      else protocol # uniqueRouteProtocols vals (protocol # seen))"

definition isSupportedRouteProtocolCombination :: "string list \<Rightarrow> bool" where
  "isSupportedRouteProtocolCombination protocols =
     (let seen = remdups (filter (\<lambda>p. p \<noteq> []) (map norm_name protocols)) in
      if length seen \<le> 1 then True
      else if length seen \<noteq> 2 then False
      else if List.member seen AdapterOpenAIImageGenerations \<and> List.member seen AdapterOpenAIImageEdits then True
      else if List.member seen AdapterXAIImage \<and> List.member seen AdapterXAIImageEdits then True
      else List.member seen AdapterXAIVideo \<and> List.member seen AdapterXAIVideoExtensions)"

text \<open>The defaults an upstream is configured with: \<open>ud\<close> decodes them, a JSON \<open>null\<close> value is \<open>None\<close>.\<close>

type_synonym defaults_decoder = "string \<Rightarrow> (string \<rightharpoonup> string option) option"

definition protocolDefaultForKind :: "defaults_decoder \<Rightarrow> string \<Rightarrow> string \<Rightarrow> string" where
  "protocolDefaultForKind ud defaultsJSON kind =
     (case ud (trim_space defaultsJSON) of
        None \<Rightarrow> []
      | Some defaults \<Rightarrow>
          (case defaults kind of
             Some (Some val) \<Rightarrow>
               (let protocol = norm_name val in
                if \<not> isKnownProtocol protocol then []
                else if \<not> isProtocolAllowedForKind kind protocol then [] else protocol)
           | _ \<Rightarrow> []))"

definition defaultRouteProtocolForKind :: "defaults_decoder \<Rightarrow> string \<Rightarrow> string \<Rightarrow> string \<Rightarrow> string" where
  "defaultRouteProtocolForKind ud upCompatible defaultsJSON kind =
     (let p = protocolDefaultForKind ud defaultsJSON kind in
      if p \<noteq> [] then p else fallback_protocol upCompatible kind)"

definition unifiedProtocolForMultiKindRoute :: "defaults_decoder \<Rightarrow> string \<Rightarrow> string \<Rightarrow> string list \<Rightarrow> string" where
  "unifiedProtocolForMultiKindRoute ud upCompatible defaultsJSON kinds =
     (if length kinds \<le> 1 \<or> \<not> hasModelKind kinds modelKindVideoGen then []
      else (let protocol = defaultRouteProtocolForKind ud upCompatible defaultsJSON modelKindVideoGen in
        if protocol = [] \<or> \<not> routeProtocolSupportsAllKinds protocol kinds then [] else protocol))"

text \<open>The functions that take \<open>kindsJSON\<close> in Go take its parsed kinds here (\<open>kinds = parseKinds um kindsJSON\<close>).\<close>

definition resolveRouteProtocol ::
  "defaults_decoder \<Rightarrow> string \<Rightarrow> string \<Rightarrow> string \<Rightarrow> string list \<Rightarrow> channel_error + string" where
  "resolveRouteProtocol ud explicit upCompatible defaultsJSON kinds =
     (let kind = primaryKindFromKinds kinds; protocol = norm_name explicit in
      if protocol \<noteq> [] then
        if \<not> isKnownProtocol protocol then Inl ErrInvalidAdapter
        else if \<not> isProtocolAllowedForKinds kinds protocol then Inl ErrInvalidAdapter
        else Inr protocol
      else if kind = [] then Inl ErrProtocolRequired
      else (let u = unifiedProtocolForMultiKindRoute ud upCompatible defaultsJSON kinds in
        if u \<noteq> [] then Inr u
        else (let d = protocolDefaultForKind ud defaultsJSON kind in
          if d \<noteq> [] then Inr d
          else (let f = fallback_protocol upCompatible kind in
            if f \<noteq> [] then Inr f else Inl ErrProtocolRequired))))"

text \<open>The loop over the explicit protocols; \<open>acc\<close> is the list built so far (also the \<open>seen\<close> set).\<close>

fun resolve_explicit ::
  "defaults_decoder \<Rightarrow> string \<Rightarrow> string \<Rightarrow> string list \<Rightarrow> string list \<Rightarrow> string list \<Rightarrow> channel_error + string list" where
  "resolve_explicit ud upCompatible defaultsJSON kinds [] acc = Inr acc"
| "resolve_explicit ud upCompatible defaultsJSON kinds (raw # raws) acc =
     (let v = norm_name raw in
      if v = [] then resolve_explicit ud upCompatible defaultsJSON kinds raws acc
      else case resolveRouteProtocol ud v upCompatible defaultsJSON kinds of
          Inl e \<Rightarrow> Inl e
        | Inr protocol \<Rightarrow>
            if List.member acc protocol then resolve_explicit ud upCompatible defaultsJSON kinds raws acc
            else resolve_explicit ud upCompatible defaultsJSON kinds raws (acc @ [protocol]))"

definition image_pair :: "defaults_decoder \<Rightarrow> string \<Rightarrow> string \<Rightarrow> string list \<Rightarrow> string list option" where
  "image_pair ud upCompatible defaultsJSON kinds =
     (if hasModelKind kinds modelKindImageGen \<and> hasModelKind kinds modelKindImageEdit then
        (let g = defaultRouteProtocolForKind ud upCompatible defaultsJSON modelKindImageGen;
             e = defaultRouteProtocolForKind ud upCompatible defaultsJSON modelKindImageEdit
         in if g \<noteq> [] \<and> e \<noteq> [] then
              (let protocols = uniqueRouteProtocols [g, e] []
               in if isSupportedRouteProtocolCombination protocols then Some protocols else None)
            else None)
      else None)"

definition resolveRouteProtocols ::
  "defaults_decoder \<Rightarrow> string list \<Rightarrow> string \<Rightarrow> string \<Rightarrow> string list \<Rightarrow> channel_error + string list" where
  "resolveRouteProtocols ud explicit upCompatible defaultsJSON kinds =
     (case resolve_explicit ud upCompatible defaultsJSON kinds explicit [] of
        Inl e \<Rightarrow> Inl e
      | Inr protocols \<Rightarrow>
        if protocols \<noteq> [] then
          if \<not> isSupportedRouteProtocolCombination protocols then Inl ErrInvalidRouteProtocolCombination
          else Inr protocols
        else (let u = unifiedProtocolForMultiKindRoute ud upCompatible defaultsJSON kinds in
          if u \<noteq> [] then Inr [u]
          else case image_pair ud upCompatible defaultsJSON kinds of
              Some ps \<Rightarrow> Inr ps
            | None \<Rightarrow>
                if hasModelKind kinds modelKindVideoGen \<and> hasModelKind kinds modelKindVideoExtension \<and>
                   normalizeCompatible upCompatible = compatibleXAI \<and>
                   defaultRouteProtocolForKind ud upCompatible defaultsJSON modelKindVideoGen = AdapterXAIVideo
                then Inr [AdapterXAIVideo, AdapterXAIVideoExtensions]
                else (case resolveRouteProtocol ud [] upCompatible defaultsJSON kinds of
                    Inl e \<Rightarrow> Inl e | Inr p \<Rightarrow> Inr [p])))"

definition NormalizeTaskType :: "string \<Rightarrow> string" where
  "NormalizeTaskType raw =
     (let v = norm_name raw in
      if List.member [TaskTypeImageGeneration, TaskTypeImageEdit, TaskTypeVideoGeneration, TaskTypeVideoExtension] v
      then v else TaskTypeChat)"

definition IsRouteAllowedForTask :: "string \<Rightarrow> string list \<Rightarrow> string \<Rightarrow> bool" where
  "IsRouteAllowedForTask taskType kinds protocol0 =
     (let protocol = norm_name protocol0; task = NormalizeTaskType taskType in
      if kinds = [] then
        if task = TaskTypeImageGeneration then isProtocolAllowedForKind modelKindImageGen protocol
        else if task = TaskTypeImageEdit then isProtocolAllowedForKind modelKindImageEdit protocol
        else if task = TaskTypeVideoGeneration then
          isProtocolAllowedForKind modelKindVideoGen protocol \<and> protocol \<noteq> AdapterXAIVideoExtensions
        else if task = TaskTypeVideoExtension then isProtocolAllowedForKind modelKindVideoExtension protocol
        else isProtocolAllowedForKind modelKindChat protocol \<or> isProtocolAllowedForKind modelKindAudio protocol
      else
        if task = TaskTypeImageGeneration then
          hasModelKind kinds modelKindImageGen \<and> isProtocolAllowedForKind modelKindImageGen protocol
        else if task = TaskTypeImageEdit then
          hasModelKind kinds modelKindImageEdit \<and> isProtocolAllowedForKind modelKindImageEdit protocol
        else if task = TaskTypeVideoGeneration then
          hasModelKind kinds modelKindVideoGen \<and> isProtocolAllowedForKind modelKindVideoGen protocol \<and>
          protocol \<noteq> AdapterXAIVideoExtensions
        else if task = TaskTypeVideoExtension then
          hasModelKind kinds modelKindVideoExtension \<and> isProtocolAllowedForKind modelKindVideoExtension protocol
        else list_ex (\<lambda>kind. (kind = modelKindChat \<or> kind = modelKindAudio) \<and> isProtocolAllowedForKind kind protocol) kinds)"

section \<open>Vendors\<close>

text \<open>\<open>strings.Contains(s, p)\<close>.\<close>

fun contains_sub :: "string \<Rightarrow> string \<Rightarrow> bool" where
  "contains_sub [] p \<longleftrightarrow> p = []"
| "contains_sub (c # s) p \<longleftrightarrow> has_prefix (c # s) p \<or> contains_sub s p"

text \<open>The value itself, what follows its first slash, and what follows its last one.\<close>

definition modelIdentityCandidateValues :: "string \<Rightarrow> string list" where
  "modelIdentityCandidateValues raw =
     (let v = norm_name raw in
      if v = [] then []
      else if CHR ''/'' \<in> set v then
        (let first = tl (dropWhile (\<lambda>c. c \<noteq> CHR ''/'') v);
             last = rev (takeWhile (\<lambda>c. c \<noteq> CHR ''/'') (rev v))
         in v # (if first \<noteq> [] then [first] else []) @ (if last \<noteq> [] then [last] else []))
      else [v])"

definition vendor_of_value :: "string \<Rightarrow> string option" where
  "vendor_of_value v =
     (if has_prefix v ''claude'' \<or> contains_sub v ''anthropic/''
       then Some ''anthropic''
     else if has_prefix v ''nano-banana'' \<or> has_prefix v ''gemini'' \<or> has_prefix v ''gemma'' \<or>
         has_prefix v ''imagen'' \<or> has_prefix v ''veo'' \<or> contains_sub v ''google/''
       then Some ''google''
     else if has_prefix v ''llama'' \<or> contains_sub v ''meta/''
       then Some ''meta''
     else if has_prefix v ''phi'' \<or> contains_sub v ''microsoft/''
       then Some ''microsoft''
     else if has_prefix v ''nova'' \<or> has_prefix v ''titan'' \<or> contains_sub v ''bedrock'' \<or>
         contains_sub v ''amazon/'' \<or> contains_sub v ''amazon.'' \<or> contains_sub v ''aws/'' \<or>
         contains_sub v ''aws.''
       then Some ''amazon''
     else if has_prefix v ''nemotron'' \<or> contains_sub v ''nvidia/''
       then Some ''nvidia''
     else if has_prefix v ''grok'' \<or> contains_sub v ''xai/''
       then Some ''xai''
     else if has_prefix v ''deepseek''
       then Some ''deepseek''
     else if has_prefix v ''kimi'' \<or> contains_sub v ''moonshot'' \<or> has_prefix v ''moonshot''
       then Some ''moonshot''
     else if has_prefix v ''qwen'' \<or> has_prefix v ''qwq'' \<or> has_prefix v ''qvq'' \<or>
         has_prefix v ''wanx'' \<or> contains_sub v ''tongyi'' \<or> contains_sub v ''alibaba/''
       then Some ''alibaba''
     else if has_prefix v ''mistral'' \<or> has_prefix v ''mixtral'' \<or> has_prefix v ''ministral'' \<or>
         has_prefix v ''codestral'' \<or> has_prefix v ''pixtral'' \<or> has_prefix v ''devstral'' \<or>
         contains_sub v ''mistral''
       then Some ''mistral''
     else if has_prefix v ''glm'' \<or> has_prefix v ''chatglm'' \<or> has_prefix v ''cogview'' \<or>
         has_prefix v ''cogvideo'' \<or> contains_sub v ''bigmodel'' \<or> contains_sub v ''zhipu''
       then Some ''zhipu''
     else if has_prefix v ''minimax'' \<or> has_prefix v ''abab'' \<or> has_prefix v ''hailuo''
       then Some ''minimax''
     else if has_prefix v ''doubao'' \<or> contains_sub v ''bytedance/'' \<or> contains_sub v ''volcengine/'' \<or>
         has_prefix v ''seed''
       then Some ''bytedance''
     else if has_prefix v ''hunyuan'' \<or> contains_sub v ''tencent/''
       then Some ''tencent''
     else if has_prefix v ''longcat''
       then Some ''longcat''
     else if has_prefix v ''mimo'' \<or> contains_sub v ''xiaomi/''
       then Some ''xiaomi''
     else if has_prefix v ''spark'' \<or> contains_sub v ''iflytek''
       then Some ''iflytek''
     else if has_prefix v ''step'' \<or> contains_sub v ''stepfun''
       then Some ''stepfun''
     else if has_prefix v ''baichuan''
       then Some ''baichuan''
     else if has_prefix v ''ernie'' \<or> has_prefix v ''wenxin'' \<or> contains_sub v ''baidu/''
       then Some ''baidu''
     else if contains_sub v ''copilot'' \<or> contains_sub v ''github/''
       then Some ''copilot''
     else if has_prefix v ''gpt-'' \<or> has_prefix v ''chatgpt'' \<or> has_prefix v ''gpt-image'' \<or>
         has_prefix v ''o1'' \<or> has_prefix v ''o3'' \<or> has_prefix v ''o4'' \<or> has_prefix v ''codex'' \<or>
         has_prefix v ''dall-e'' \<or> has_prefix v ''sora'' \<or> contains_sub v ''openai/''
       then Some ''openai''
     else None)"

fun detect_values :: "string list \<Rightarrow> string \<Rightarrow> string" where
  "detect_values [] fallback = fallback"
| "detect_values (v # vs) fallback =
     (case vendor_of_value v of
        Some vendor \<Rightarrow> vendor
      | None \<Rightarrow> detect_values vs
          (if has_prefix v ''openrouter/'' \<or> has_prefix v ''openrouter-'' then ''openrouter'' else fallback))"

definition detectModelVendor :: "string list \<Rightarrow> string" where
  "detectModelVendor candidates = detect_values (concat (map modelIdentityCandidateValues candidates)) []"

definition canonicalVendorKey :: "string \<Rightarrow> string" where
  "canonicalVendorKey raw =
     (let v = trim_space (to_lower raw) in
      if v = [] then []
      else if v = ''openai'' then ''openai''
      else if v = ''anthropic'' \<or> v = ''claude'' then ''anthropic''
      else if v = ''google'' \<or> v = ''gemini'' \<or> v = ''gemma'' then ''google''
      else if v = ''meta'' \<or> v = ''llama'' then ''meta''
      else if v = ''microsoft'' \<or> v = ''phi'' then ''microsoft''
      else if v = ''amazon'' \<or> v = ''aws'' \<or> v = ''bedrock'' \<or> v = ''nova'' \<or> v = ''titan'' then ''amazon''
      else if v = ''nvidia'' \<or> v = ''nemotron'' then ''nvidia''
      else if v = ''xai'' \<or> v = ''grok'' then ''xai''
      else if v = ''deepseek'' then ''deepseek''
      else if v = ''moonshot'' \<or> v = ''kimi'' then ''moonshot''
      else if v = ''alibaba'' \<or> v = ''qwen'' \<or> v = ''qwq'' \<or> v = ''qvq'' \<or> v = ''tongyi'' \<or> v = ''wanx'' then ''alibaba''
      else if v = ''mistral'' \<or> v = ''mixtral'' \<or> v = ''codestral'' \<or> v = ''pixtral'' \<or> v = ''ministral'' \<or> v = ''devstral'' then ''mistral''
      else if v = ''zhipu'' \<or> v = ''glm'' \<or> v = ''chatglm'' \<or> v = ''bigmodel'' then ''zhipu''
      else if v = ''minimax'' \<or> v = ''abab'' \<or> v = ''hailuo'' then ''minimax''
      else if v = ''bytedance'' \<or> v = ''byte'' \<or> v = ''volcengine'' \<or> v = ''doubao'' \<or> v = ''seed'' then ''bytedance''
      else if v = ''tencent'' \<or> v = ''hunyuan'' then ''tencent''
      else if v = ''longcat'' then ''longcat''
      else if v = ''xiaomi'' \<or> v = ''mimo'' \<or> v = ''xiaomimimo'' \<or> v = ''xiaomi-mi-mo'' then ''xiaomi''
      else if v = ''iflytek'' \<or> v = ''iflytekcloud'' \<or> v = ''spark'' then ''iflytek''
      else if v = ''stepfun'' \<or> v = ''step'' then ''stepfun''
      else if v = ''baichuan'' then ''baichuan''
      else if v = ''baidu'' \<or> v = ''ernie'' \<or> v = ''wenxin'' then ''baidu''
      else if v = ''openrouter'' then ''openrouter''
      else if v = ''copilot'' \<or> v = ''github'' then ''copilot''
      else if v = ''unknown'' then ''unknown''
      else [])"

definition normalizeModelVendor :: "string \<Rightarrow> string list \<Rightarrow> string" where
  "normalizeModelVendor raw candidates =
     (let canonical = canonicalVendorKey raw in
      if canonical \<noteq> [] then canonical
      else (let detected = detectModelVendor candidates in if detected \<noteq> [] then detected else ''unknown''))"

definition reasoningContentPassbackVendors :: "string list" where
  "reasoningContentPassbackVendors = [''deepseek'', ''moonshot'', ''zhipu'', ''xiaomi'', ''alibaba'', ''minimax'']"

definition reasoningContentPassbackRequired :: "string \<Rightarrow> string list \<Rightarrow> bool" where
  "reasoningContentPassbackRequired protocol candidates =
     (let a = NormalizeAdapter protocol in
      if a = AdapterOpenRouterChat then True
      else if a = AdapterOpenAIChatCompletions
      then List.member reasoningContentPassbackVendors (detectModelVendor candidates)
      else False)"

text \<open>The options are a map of JSON values; the only entry of the table is \<open>preserve_thinking: true\<close>.\<close>

definition reasoningPassbackVendorRequestOptions :: "string \<Rightarrow> (string \<times> bool) list" where
  "reasoningPassbackVendorRequestOptions vendor =
     (if vendor = ''alibaba'' then [(''preserve_thinking'', True)] else [])"

definition reasoningPassbackRequestOptions :: "string \<Rightarrow> string list \<Rightarrow> (string \<times> bool) list" where
  "reasoningPassbackRequestOptions protocol candidates =
     (if NormalizeAdapter protocol \<noteq> AdapterOpenAIChatCompletions then []
      else (let vendor = detectModelVendor candidates in
        if \<not> List.member reasoningContentPassbackVendors vendor then []
        else reasoningPassbackVendorRequestOptions vendor))"

section \<open>The tables agree\<close>

lemma norm_name_idem [simp]: "norm_name (norm_name s) = norm_name s"
  unfolding norm_name_def by (metis lowered_to_lower lowered_trim to_lower_id trim_space_idem)

lemma known_norm: "p \<in> set known_protocols \<Longrightarrow> norm_name p = p \<and> p \<noteq> []"
proof -
  have "map norm_name known_protocols = known_protocols" by code_simp
  then have "\<forall>p \<in> set known_protocols. norm_name p = p" by (metis map_idI map_eq_conv id_apply list.map_id)
  moreover have "[] \<notin> set known_protocols" by code_simp
  ultimately show "p \<in> set known_protocols \<Longrightarrow> norm_name p = p \<and> p \<noteq> []" by metis
qed

lemma kind_protocols_known: "p \<in> set (kind_protocols kind) \<Longrightarrow> p \<in> set known_protocols"
proof -
  have "list_all (\<lambda>k. list_all (List.member known_protocols) (kind_protocols k)) protocolDefaultKindOrder" by code_simp
  moreover have "kind \<notin> set protocolDefaultKindOrder \<Longrightarrow> kind_protocols kind = []"
    by (simp add: kind_protocols_def protocolDefaultKindOrder_def)
  ultimately show "p \<in> set (kind_protocols kind) \<Longrightarrow> p \<in> set known_protocols"
    by (cases "kind \<in> set protocolDefaultKindOrder") (auto simp: list_all_iff)
qed

lemma allowed_known: "isProtocolAllowedForKind kind p \<Longrightarrow> p \<in> set known_protocols"
  by (auto simp: isProtocolAllowedForKind_def dest: kind_protocols_known)

definition compatible_values :: "string list" where
  "compatible_values = [compatibleOpenAI, compatibleAnthropic, compatibleGoogle, compatibleXAI, compatibleOpenRouter, compatibleCustom]"

lemma fallback_allowed: "fallback_protocol c kind \<noteq> [] \<Longrightarrow> isProtocolAllowedForKind kind (fallback_protocol c kind)"
proof -
  have t: "list_all (\<lambda>v. list_all (\<lambda>(k, p). isProtocolAllowedForKind k p) (fallback_table v)) compatible_values" by code_simp
  have n: "v \<notin> set compatible_values \<Longrightarrow> fallback_table v = []" for v
    by (simp add: fallback_table_def compatible_values_def)
  assume "fallback_protocol c kind \<noteq> []"
  then have m: "map_of (fallback_table (normalizeCompatible c)) kind = Some (fallback_protocol c kind)"
    by (auto simp: fallback_protocol_def systemFallbackProtocols_def split: option.splits)
  have "normalizeCompatible c \<in> set compatible_values" using m n by (cases "normalizeCompatible c \<in> set compatible_values") auto
  then show ?thesis using t map_of_SomeD [OF m] by (auto simp: list_all_iff)
qed

lemma default_allowed:
  "protocolDefaultForKind ud d kind \<noteq> [] \<Longrightarrow> isProtocolAllowedForKind kind (protocolDefaultForKind ud d kind)"
  by (auto simp: protocolDefaultForKind_def Let_def split: option.splits if_splits)

lemma default_route_allowed:
  "defaultRouteProtocolForKind ud c d kind \<noteq> [] \<Longrightarrow> isProtocolAllowedForKind kind (defaultRouteProtocolForKind ud c d kind)"
  by (auto simp: defaultRouteProtocolForKind_def Let_def default_allowed fallback_allowed split: if_splits)

text \<open>A protocol fit for a model: known, and allowed for one of the model's kinds when it has any.\<close>

definition good_protocol :: "string list \<Rightarrow> string \<Rightarrow> bool" where
  "good_protocol kinds p \<longleftrightarrow> List.member known_protocols p \<and> isProtocolAllowedForKinds kinds p"

lemma good_for_kind:
  "hasModelKind kinds kind \<Longrightarrow> isProtocolAllowedForKind kind p \<Longrightarrow> good_protocol kinds p"
  by (auto simp: hasModelKind_def isProtocolAllowedForKinds_def list_ex_iff good_protocol_def dest: allowed_known)

lemma primary_member:
  assumes "primaryKindFromKinds kinds \<noteq> []" shows "hasModelKind kinds (primaryKindFromKinds kinds)"
proof (cases "List.find (\<lambda>candidate. candidate \<in> set kinds) protocolDefaultKindOrder")
  case (Some k)
  then have "k \<in> set kinds" by (auto simp: find_Some_iff)
  then show ?thesis using Some by (simp add: primaryKindFromKinds_def hasModelKind_def list_ex_iff)
qed (use assms in \<open>simp add: primaryKindFromKinds_def\<close>)

lemma unified_good:
  assumes "unifiedProtocolForMultiKindRoute ud c d kinds \<noteq> []"
  shows "good_protocol kinds (unifiedProtocolForMultiKindRoute ud c d kinds)"
proof -
  let ?p = "defaultRouteProtocolForKind ud c d modelKindVideoGen"
  have p: "unifiedProtocolForMultiKindRoute ud c d kinds = ?p" "?p \<noteq> []" "hasModelKind kinds modelKindVideoGen"
    using assms by (simp_all add: unifiedProtocolForMultiKindRoute_def Let_def split: if_splits)
  show ?thesis using good_for_kind [OF p(3) default_route_allowed [OF p(2)]] p(1) by simp
qed

lemma resolveRouteProtocol_good:
  assumes "resolveRouteProtocol ud explicit c d kinds = Inr p" shows "good_protocol kinds p"
proof -
  let ?k = "primaryKindFromKinds kinds"
  consider "norm_name explicit \<noteq> []" | "norm_name explicit = []" by blast
  then show ?thesis
  proof cases
    case 1
    then show ?thesis using assms
      by (auto simp: resolveRouteProtocol_def Let_def good_protocol_def isKnownProtocol_def split: if_splits)
  next
    case 2
    then have k: "?k \<noteq> []" using assms by (auto simp: resolveRouteProtocol_def Let_def)
    show ?thesis using assms 2 k unified_good [of ud c d kinds]
        good_for_kind [OF primary_member [OF k] default_allowed [of ud d ?k]]
        good_for_kind [OF primary_member [OF k] fallback_allowed [of c ?k]]
      by (auto simp: resolveRouteProtocol_def Let_def split: if_splits)
  qed
qed

lemma resolve_explicit_good:
  assumes "resolve_explicit ud c d kinds raws acc = Inr ps" and "distinct acc" and "\<forall>p \<in> set acc. good_protocol kinds p"
  shows "distinct ps \<and> (\<forall>p \<in> set ps. good_protocol kinds p)"
  using assms
proof (induction ud c d kinds raws acc rule: resolve_explicit.induct)
  case (2 ud c d kinds raw raws acc)
  show ?case
  proof (cases "norm_name raw = []")
    case False
    then obtain p where p: "resolveRouteProtocol ud (norm_name raw) c d kinds = Inr p"
      using "2.prems"(1) by (auto simp: Let_def split: sum.splits)
    show ?thesis
    proof (cases "List.member acc p")
      case True
      then show ?thesis using False p "2.prems" "2.IH"(2) [OF refl False p True] by (simp add: Let_def)
    next
      case no: False
      have "distinct (acc @ [p])" "\<forall>q \<in> set (acc @ [p]). good_protocol kinds q"
        using "2.prems"(2,3) no resolveRouteProtocol_good [OF p] by auto
      then show ?thesis using False p no "2.prems"(1) "2.IH"(3) [OF refl False p no] by (simp add: Let_def)
    qed
  qed (use 2 in \<open>simp add: Let_def\<close>)
qed simp

lemma image_pair_good:
  assumes "image_pair ud c d kinds = Some ps"
  shows "ps \<noteq> [] \<and> distinct ps \<and> isSupportedRouteProtocolCombination ps \<and> (\<forall>p \<in> set ps. good_protocol kinds p)"
proof -
  let ?g = "defaultRouteProtocolForKind ud c d modelKindImageGen"
  let ?e = "defaultRouteProtocolForKind ud c d modelKindImageEdit"
  have k: "hasModelKind kinds modelKindImageGen" "hasModelKind kinds modelKindImageEdit" "?g \<noteq> []" "?e \<noteq> []"
    and ps: "ps = uniqueRouteProtocols [?g, ?e] []" "isSupportedRouteProtocolCombination ps"
    using assms by (auto simp: image_pair_def Let_def split: if_splits)
  note ge = default_route_allowed [OF k(3)] default_route_allowed [OF k(4)]
  have "norm_name ?g = ?g" "norm_name ?e = ?e" using ge known_norm allowed_known by blast+
  then have "ps = (if ?e = ?g then [?g] else [?g, ?e])" using ps(1) k(3,4) by (simp add: Let_def)
  then show ?thesis using ps(2) good_for_kind [OF k(1) ge(1)] good_for_kind [OF k(2) ge(2)] by auto
qed

lemma single_supported: "isSupportedRouteProtocolCombination [p]"
  by (simp add: isSupportedRouteProtocolCombination_def Let_def)

lemma xai_pair:
  "isSupportedRouteProtocolCombination [AdapterXAIVideo, AdapterXAIVideoExtensions]"
  "isProtocolAllowedForKind modelKindVideoGen AdapterXAIVideo"
  "isProtocolAllowedForKind modelKindVideoExtension AdapterXAIVideoExtensions"
  by code_simp+

text \<open>
  What an import may bind. Whatever protocols are asked for, whatever defaults the
  upstream is configured with and whatever compatibility it declares, the protocols resolved for a
  model are at least one, without duplicates, form a combination one binding supports, and each is
  known and allowed for one of the model's kinds.
\<close>

theorem resolved_protocols_sound:
  assumes "resolveRouteProtocols ud explicit c d kinds = Inr ps"
  shows "ps \<noteq> [] \<and> distinct ps \<and> isSupportedRouteProtocolCombination ps \<and>
     (\<forall>p \<in> set ps. List.member known_protocols p \<and> isProtocolAllowedForKinds kinds p)"
proof -
  obtain qs where q: "resolve_explicit ud c d kinds explicit [] = Inr qs"
    using assms by (auto simp: resolveRouteProtocols_def split: sum.splits)
  note qs = resolve_explicit_good [OF q]
  have "ps \<noteq> [] \<and> distinct ps \<and> isSupportedRouteProtocolCombination ps \<and> (\<forall>p \<in> set ps. good_protocol kinds p)"
  proof (cases "qs = [] \<and> unifiedProtocolForMultiKindRoute ud c d kinds = []")
    case False
    then show ?thesis using assms q qs unified_good [of ud c d kinds]
      by (auto simp: resolveRouteProtocols_def Let_def single_supported split: if_splits)
  next
    case True
    show ?thesis
    proof (cases "image_pair ud c d kinds")
      case (Some xs)
      then show ?thesis using assms q True image_pair_good [OF Some] by (simp add: resolveRouteProtocols_def Let_def)
    next
      case None
      then consider "hasModelKind kinds modelKindVideoGen" "hasModelKind kinds modelKindVideoExtension"
          "ps = [AdapterXAIVideo, AdapterXAIVideoExtensions]"
        | p where "resolveRouteProtocol ud [] c d kinds = Inr p" "ps = [p]"
        using assms q True by (auto simp: resolveRouteProtocols_def Let_def split: if_splits sum.splits)
      then show ?thesis
      proof cases
        case 1
        then show ?thesis using xai_pair good_for_kind by auto
      next
        case 2
        then show ?thesis using resolveRouteProtocol_good single_supported by auto
      qed
    qed
  qed
  then show ?thesis by (simp add: good_protocol_def)
qed

lemma resolved_protocols_sound_witness:
  "resolveRouteProtocols (\<lambda>_. None) [] ''XAI '' [] [''video_gen'', ''video_extension''] =
     Inr [AdapterXAIVideo, AdapterXAIVideoExtensions] \<and>
   isSupportedRouteProtocolCombination [AdapterXAIVideo, AdapterXAIVideoExtensions]"
proof -
  have "resolveRouteProtocols (\<lambda>_. None) [] ''XAI '' [] [''video_gen'', ''video_extension''] =
     Inr [AdapterXAIVideo, AdapterXAIVideoExtensions]" by code_simp
  from this resolved_protocols_sound [OF this] show ?thesis by simp
qed

lemma kinds_implemented:
  "kind \<in> set protocolDefaultKindOrder \<Longrightarrow> p \<in> set (kind_protocols kind) \<Longrightarrow>
     p \<noteq> protocolOpenAIVideoGenerations \<Longrightarrow> p \<in> set implemented_adapters"
proof -
  have "list_all (\<lambda>k. list_all (List.member (protocolOpenAIVideoGenerations # implemented_adapters)) (kind_protocols k))
      protocolDefaultKindOrder" by code_simp
  then show "kind \<in> set protocolDefaultKindOrder \<Longrightarrow> p \<in> set (kind_protocols kind) \<Longrightarrow>
     p \<noteq> protocolOpenAIVideoGenerations \<Longrightarrow> p \<in> set implemented_adapters"
    by (auto simp: list_all_iff)
qed

lemma allowed_kind_adapters:
  assumes "isProtocolAllowedForKind kind (norm_name p)" and "norm_name p \<noteq> protocolOpenAIVideoGenerations"
  shows "IsImplementedAdapter p"
    and "kind = modelKindImageGen \<Longrightarrow> IsImageGenerationAdapter p"
    and "kind = modelKindImageEdit \<Longrightarrow> IsImageEditAdapter p"
    and "kind = modelKindVideoGen \<or> kind = modelKindVideoExtension \<Longrightarrow> IsVideoGenerationAdapter p"
    and "kind = modelKindChat \<or> kind = modelKindAudio \<Longrightarrow> SupportsStreamingAdapter p"
proof -
  have m: "norm_name p \<in> set (kind_protocols kind)" using assms(1) by (simp add: isProtocolAllowedForKind_def)
  have a: "NormalizeAdapter p = norm_name p"
    using known_norm [OF kind_protocols_known [OF m]] by (simp add: NormalizeAdapter_def)
  have k: "kind \<in> set protocolDefaultKindOrder"
    using m by (auto simp: kind_protocols_def protocolDefaultKindOrder_def split: if_splits)
  then show "IsImplementedAdapter p"
    using m assms(2) kinds_implemented by (auto simp: IsImplementedAdapter_def a)
  show "kind = modelKindImageGen \<Longrightarrow> IsImageGenerationAdapter p"
    using m unfolding IsImageGenerationAdapter_def a by (simp add: kind_protocols_def) blast
  show "kind = modelKindImageEdit \<Longrightarrow> IsImageEditAdapter p"
    using m unfolding IsImageEditAdapter_def a by (simp add: kind_protocols_def) blast
  show "kind = modelKindVideoGen \<or> kind = modelKindVideoExtension \<Longrightarrow> IsVideoGenerationAdapter p"
    using m assms(2) unfolding IsVideoGenerationAdapter_def a by (auto simp: kind_protocols_def)
  show "kind = modelKindChat \<or> kind = modelKindAudio \<Longrightarrow> SupportsStreamingAdapter p"
    using m unfolding SupportsStreamingAdapter_def a by (auto simp: kind_protocols_def)
qed

text \<open>The kind that serves a task; a chat task may also use an audio model.\<close>

definition task_kinds :: "string \<Rightarrow> string list" where
  "task_kinds task =
     (if task = TaskTypeImageGeneration then [modelKindImageGen]
      else if task = TaskTypeImageEdit then [modelKindImageEdit]
      else if task = TaskTypeVideoGeneration then [modelKindVideoGen]
      else if task = TaskTypeVideoExtension then [modelKindVideoExtension]
      else [modelKindChat, modelKindAudio])"

lemma allowed_task_kind:
  assumes "IsRouteAllowedForTask task kinds p"
  shows "\<exists>kind \<in> set (task_kinds (NormalizeTaskType task)). isProtocolAllowedForKind kind (norm_name p)"
  using assms unfolding IsRouteAllowedForTask_def task_kinds_def Let_def
  by (auto simp: list_ex_iff split: if_splits)

text \<open>
  The task rules and the adapters agree. A route a task may use has an adapter
  of the task's kind (chat routes even one that streams), with one exception:
  \<open>openai_video_generations\<close> is known and allowed for video models, but has no adapter.
\<close>

theorem task_protocols_implemented:
  assumes "IsRouteAllowedForTask task kinds p"
  shows "(if norm_name p = protocolOpenAIVideoGenerations then \<not> IsImplementedAdapter p else IsImplementedAdapter p \<and>
     (NormalizeTaskType task = TaskTypeImageGeneration \<longrightarrow> IsImageGenerationAdapter p) \<and>
     (NormalizeTaskType task = TaskTypeImageEdit \<longrightarrow> IsImageEditAdapter p) \<and>
     (NormalizeTaskType task \<in> {TaskTypeVideoGeneration, TaskTypeVideoExtension} \<longrightarrow> IsVideoGenerationAdapter p) \<and>
     (NormalizeTaskType task = TaskTypeChat \<longrightarrow> SupportsStreamingAdapter p))"
proof (cases "norm_name p = protocolOpenAIVideoGenerations")
  case True
  then have "NormalizeAdapter p = protocolOpenAIVideoGenerations" by (simp add: NormalizeAdapter_def)
  then show ?thesis using True by (simp add: IsImplementedAdapter_def implemented_adapters_def)
next
  case False
  obtain kind where k: "kind \<in> set (task_kinds (NormalizeTaskType task))" "isProtocolAllowedForKind kind (norm_name p)"
    using allowed_task_kind [OF assms] by blast
  note a = allowed_kind_adapters [OF k(2) False]
  show ?thesis using False k(1) a by (auto simp: task_kinds_def)
qed

lemma task_protocols_implemented_witness:
  "IsRouteAllowedForTask ''image_edit'' [''image_gen'', ''image_edit''] ''XAI_Image_Edits'' \<and> IsImageEditAdapter ''XAI_Image_Edits''"
proof -
  have "IsRouteAllowedForTask ''image_edit'' [''image_gen'', ''image_edit''] ''XAI_Image_Edits''"
    "norm_name ''XAI_Image_Edits'' = AdapterXAIImageEdits" "NormalizeTaskType ''image_edit'' = TaskTypeImageEdit" by code_simp+
  then show ?thesis using task_protocols_implemented by fastforce
qed

section \<open>Vendors are canonical\<close>

definition canonical_vendors :: "string list" where
  "canonical_vendors =
     [''openai'', ''anthropic'', ''google'', ''meta'', ''microsoft'', ''amazon'', ''nvidia'',
      ''xai'', ''deepseek'', ''moonshot'', ''alibaba'', ''mistral'', ''zhipu'', ''minimax'',
      ''bytedance'', ''tencent'', ''longcat'', ''xiaomi'', ''iflytek'', ''stepfun'', ''baichuan'',
      ''baidu'', ''openrouter'', ''copilot'', ''unknown'']"

lemma if_in: "x \<in> S \<Longrightarrow> y \<in> S \<Longrightarrow> (if b then x else y) \<in> S"
  by simp

lemma canonicalVendorKey_range: "canonicalVendorKey raw \<in> insert [] (set canonical_vendors)"
  unfolding canonicalVendorKey_def Let_def canonical_vendors_def
  by (intro if_in; simp)

lemma canonicalVendorKey_fixed: "v \<in> set canonical_vendors \<Longrightarrow> canonicalVendorKey v = v \<and> v \<noteq> []"
proof -
  have "map canonicalVendorKey canonical_vendors = canonical_vendors" by code_simp
  then have "\<forall>v \<in> set canonical_vendors. canonicalVendorKey v = v" by (metis map_idI map_eq_conv id_apply list.map_id)
  moreover have "[] \<notin> set canonical_vendors" by code_simp
  ultimately show "v \<in> set canonical_vendors \<Longrightarrow> canonicalVendorKey v = v \<and> v \<noteq> []" by metis
qed

lemma vendor_of_value_range: "vendor_of_value v \<in> insert None (Some ` set canonical_vendors)"
  unfolding vendor_of_value_def canonical_vendors_def
  by (intro if_in; simp)

lemma detect_values_range:
  "detect_values vs fb \<in> insert fb (set canonical_vendors)"
proof (induction vs fb rule: detect_values.induct)
  case (2 v vs fb)
  have "''openrouter'' \<in> set canonical_vendors" by code_simp
  then show ?case using 2 vendor_of_value_range [of v] by (auto split: option.splits if_splits)
qed simp

text \<open>
  The stored vendor is a normal form. Normalising a vendor gives one of the 25
  canonical keys, from whatever text and whatever model names it was derived, and normalising it
  again, next to other model names, changes nothing.
\<close>

theorem vendor_normal_form:
  "List.member canonical_vendors (normalizeModelVendor raw candidates) \<and>
   normalizeModelVendor (normalizeModelVendor raw candidates) candidates' = normalizeModelVendor raw candidates"
proof -
  have u: "''unknown'' \<in> set canonical_vendors" by code_simp
  have m: "normalizeModelVendor raw candidates \<in> set canonical_vendors"
    using canonicalVendorKey_range [of raw] u detect_values_range [of "concat (map modelIdentityCandidateValues candidates)" "[]"]
    by (auto simp: normalizeModelVendor_def detectModelVendor_def Let_def)
  from m canonicalVendorKey_fixed [OF m] show ?thesis
    by (simp add: normalizeModelVendor_def [of "normalizeModelVendor raw candidates"])
qed

end
