(* ===== verification/Circuit_Breaker.thy ===== *)
theory Circuit_Breaker
  imports Cache_State
begin

text \<open>
  The two-level circuit breaker of \<open>memory/channel.go\<close>: one circuit per upstream and one per
  upstream model. A circuit opens when enough failures fall into a sliding window, stays open for
  a configured time, then lets one probe request through per probe period (half open), and closes
  when the half-open period passes or a probe succeeds (the caller clears the circuit).
\<close>

section \<open>Operations\<close>

text \<open>\<open>checkCircuitStateLocked\<close> on a non-nil state: the verdict and the state it leaves behind.\<close>

definition check_circuit :: "gotime \<Rightarrow> circuit_state \<Rightarrow> string \<times> circuit_state" where
  "check_circuit now st =
     (if manualOpen st then
        if now < openUntil st then (''open'', st)
        else (''closed'', st\<lparr>openUntil := 0, probeUntil := 0, manualOpen := False\<rparr>)
      else if now < openUntil st then (''open'', st)
      else if \<not> is_zero (openUntil st) then
        if openUntil st + circuitProbeTTL < now
        then (''closed'', st\<lparr>openUntil := 0, probeUntil := 0, manualOpen := False\<rparr>)
        else if now < probeUntil st then (''half_open_denied'', st)
        else (''half_open_granted'', st\<lparr>probeUntil := now + circuitProbeTTL\<rparr>)
      else (''closed'', st))"

definition checkCircuitStateLocked :: "gotime \<Rightarrow> circuit_state option \<Rightarrow> string \<times> circuit_state option" where
  "checkCircuitStateLocked now so =
     (case so of None \<Rightarrow> (''closed'', None)
      | Some st \<Rightarrow> (let (v, st') = check_circuit now st in (v, Some st')))"

text \<open>\<open>fmt.Sprintf("%d:%s", upstreamID, strings.TrimSpace(modelKey))\<close>.\<close>

definition modelCircuitKey :: "nat \<Rightarrow> string \<Rightarrow> string" where
  "modelCircuitKey upstreamID modelKey = show_nat upstreamID @ '':'' @ trim_space modelKey"

definition CheckUpstreamCircuitState :: "gotime \<Rightarrow> nat \<Rightarrow> cache \<Rightarrow> string \<times> cache" where
  "CheckUpstreamCircuitState now u c =
     (let (v, so) = checkCircuitStateLocked now (upstreamCB c u)
      in (v, c\<lparr>upstreamCB := (upstreamCB c)(u := so)\<rparr>))"

definition CheckModelCircuitState :: "gotime \<Rightarrow> nat \<Rightarrow> string \<Rightarrow> cache \<Rightarrow> string \<times> cache" where
  "CheckModelCircuitState now u mk c =
     (let k = modelCircuitKey u mk; (v, so) = checkCircuitStateLocked now (modelCB c k)
      in (v, c\<lparr>modelCB := (modelCB c)(k := so)\<rparr>))"

definition ensureUpstreamCircuitLocked :: "nat \<Rightarrow> cache \<Rightarrow> circuit_state \<times> cache" where
  "ensureUpstreamCircuitLocked u c =
     (case upstreamCB c u of
        None \<Rightarrow> (new_circuit, c\<lparr>upstreamCB := (upstreamCB c)(u \<mapsto> new_circuit)\<rparr>)
      | Some st \<Rightarrow> (st, c))"

definition ensureModelCircuitLocked :: "nat \<Rightarrow> string \<Rightarrow> cache \<Rightarrow> circuit_state \<times> cache" where
  "ensureModelCircuitLocked u mk c =
     (let k = modelCircuitKey u mk in
      case modelCB c k of
        None \<Rightarrow> (new_circuit, c\<lparr>modelCB := (modelCB c)(k \<mapsto> new_circuit)\<rparr>)
      | Some st \<Rightarrow> (st, c))"

definition recordFailure :: "circuit_state \<Rightarrow> gotime \<Rightarrow> duration \<Rightarrow> circuit_state" where
  "recordFailure st now win =
     (let w = (if win \<le> 0 then 5 * minute else win); cutoff = now - w
      in st\<lparr>failures := filter (\<lambda>t. cutoff < t) (failures st) @ [now], lastFailure := now\<rparr>)"

definition shouldTrip :: "circuit_state \<Rightarrow> int \<Rightarrow> bool" where
  "shouldTrip st threshold \<longleftrightarrow> 0 < threshold \<and> threshold \<le> int (length (failures st))"

text \<open>
  \<open>openModelCountLocked\<close>: the loop over the active keys with the \<open>seen\<close> set and the running
  count; \<open>modelCB\<close> is the map after the failing model's own state was updated.
\<close>

fun openModelCount :: "(string \<rightharpoonup> circuit_state) \<Rightarrow> nat \<Rightarrow> gotime \<Rightarrow> string list \<Rightarrow> string list \<Rightarrow> int \<Rightarrow> int" where
  "openModelCount m u now [] seen count = count"
| "openModelCount m u now (mk # mks) seen count =
     (let k = modelCircuitKey u mk in
      if k \<in> set seen then openModelCount m u now mks seen count
      else openModelCount m u now mks (k # seen)
             (case m k of None \<Rightarrow> count | Some st \<Rightarrow> if now < openUntil st then count + 1 else count))"

definition openModelCountLocked :: "cache \<Rightarrow> nat \<Rightarrow> string list \<Rightarrow> gotime \<Rightarrow> int" where
  "openModelCountLocked c u mks now = openModelCount (modelCB c) u now mks [] 0"

record trip_input =
  ti_FailureMet :: bool
  ti_FailureThreshold :: int
  ti_ModelMet :: bool
  ti_ModelThreshold :: int
  ti_Logic :: string

definition shouldTripUpstream :: "trip_input \<Rightarrow> bool" where
  "shouldTripUpstream i =
     (if trim_space (ti_Logic i) = ''and'' then
        if 0 < ti_FailureThreshold i \<and> 0 < ti_ModelThreshold i then ti_FailureMet i \<and> ti_ModelMet i
        else if 0 < ti_FailureThreshold i then ti_FailureMet i
        else if 0 < ti_ModelThreshold i then ti_ModelMet i
        else False
      else ti_FailureMet i \<or> ti_ModelMet i)"

record circuit_failure_input =
  cfi_UpstreamID :: nat
  cfi_ModelKey :: string
  cfi_ModelWindowSec :: int
  cfi_ModelFailureThreshold :: int
  cfi_ModelDurationSec :: int
  cfi_UpstreamWindowSec :: int
  cfi_UpstreamFailureThreshold :: int
  cfi_UpstreamModelThreshold :: int
  cfi_UpstreamThresholdLogic :: string
  cfi_UpstreamDurationSec :: int
  cfi_ActiveModelKeys :: "string list"

text \<open>The model half of \<open>RecordCircuitFailure\<close> (lines 104 to 111).\<close>

definition record_model_failure :: "gotime \<Rightarrow> circuit_failure_input \<Rightarrow> cache \<Rightarrow> cache" where
  "record_model_failure now i c =
     (let (st, c1) = ensureModelCircuitLocked (cfi_UpstreamID i) (cfi_ModelKey i) c;
          probeFailed = now < probeUntil st;
          st1 = recordFailure (st\<lparr>probeUntil := 0\<rparr>) now (seconds_duration (cfi_ModelWindowSec i));
          st2 = (if (probeFailed \<or> shouldTrip st1 (cfi_ModelFailureThreshold i)) \<and> 0 < cfi_ModelDurationSec i
                 then st1\<lparr>openUntil := now + seconds_duration (cfi_ModelDurationSec i), manualOpen := False\<rparr>
                 else st1)
      in c1\<lparr>modelCB := (modelCB c1)(modelCircuitKey (cfi_UpstreamID i) (cfi_ModelKey i) \<mapsto> st2)\<rparr>)"

text \<open>The upstream half (lines 112 to 130).\<close>

definition record_upstream_failure :: "gotime \<Rightarrow> circuit_failure_input \<Rightarrow> cache \<Rightarrow> cache" where
  "record_upstream_failure now i c =
     (let (st, c1) = ensureUpstreamCircuitLocked (cfi_UpstreamID i) c;
          probeFailed = now < probeUntil st;
          st1 = recordFailure (st\<lparr>probeUntil := 0\<rparr>) now (seconds_duration (cfi_UpstreamWindowSec i));
          failMet = probeFailed \<or> shouldTrip st1 (cfi_UpstreamFailureThreshold i);
          modelMet = 0 < cfi_UpstreamModelThreshold i \<and>
            cfi_UpstreamModelThreshold i \<le> openModelCountLocked c1 (cfi_UpstreamID i) (cfi_ActiveModelKeys i) now;
          trip = shouldTripUpstream \<lparr>ti_FailureMet = failMet, ti_FailureThreshold = cfi_UpstreamFailureThreshold i,
            ti_ModelMet = modelMet, ti_ModelThreshold = cfi_UpstreamModelThreshold i,
            ti_Logic = cfi_UpstreamThresholdLogic i\<rparr>;
          st2 = (if trip \<and> 0 < cfi_UpstreamDurationSec i
                 then st1\<lparr>openUntil := now + seconds_duration (cfi_UpstreamDurationSec i), manualOpen := False\<rparr>
                 else st1)
      in c1\<lparr>upstreamCB := (upstreamCB c1)(cfi_UpstreamID i \<mapsto> st2)\<rparr>)"

definition RecordCircuitFailure :: "gotime \<Rightarrow> circuit_failure_input \<Rightarrow> cache \<Rightarrow> cache" where
  "RecordCircuitFailure now i c =
     (if cfi_UpstreamID i = 0 \<or> trim_space (cfi_ModelKey i) = [] then c
      else maybeSweepLocked now (record_upstream_failure now i (record_model_failure now i c)))"

definition RecordFailureMetadata :: "gotime \<Rightarrow> nat \<Rightarrow> string \<Rightarrow> cache \<Rightarrow> cache" where
  "RecordFailureMetadata now u lastError c = maybeSweepLocked now
     (c\<lparr>upstreamMeta := (upstreamMeta c)(u \<mapsto>
          \<lparr>meta_lastError = lastError, meta_lastFailure = now, meta_lastSuccess = 0\<rparr>)\<rparr>)"

definition RecordSuccessMetadata :: "gotime \<Rightarrow> nat \<Rightarrow> cache \<Rightarrow> cache" where
  "RecordSuccessMetadata now u c =
     (let meta = map_get (upstreamMeta c) \<lparr>meta_lastError = [], meta_lastFailure = 0, meta_lastSuccess = 0\<rparr> u
      in maybeSweepLocked now (c\<lparr>upstreamMeta := (upstreamMeta c)(u \<mapsto> meta\<lparr>meta_lastSuccess := now\<rparr>)\<rparr>))"

definition ClearUpstreamCircuitKeys :: "nat \<Rightarrow> cache \<Rightarrow> cache" where
  "ClearUpstreamCircuitKeys u c = c\<lparr>upstreamCB := map_del u (upstreamCB c)\<rparr>"

definition ClearModelCircuitKeys :: "nat \<Rightarrow> string \<Rightarrow> cache \<Rightarrow> cache" where
  "ClearModelCircuitKeys u mk c = c\<lparr>modelCB := map_del (modelCircuitKey u mk) (modelCB c)\<rparr>"

definition ResetAllCircuitStates :: "cache \<Rightarrow> cache" where
  "ResetAllCircuitStates c = c\<lparr>upstreamCB := Map.empty, modelCB := Map.empty\<rparr>"

definition ReleaseRouteProbes :: "nat \<Rightarrow> string \<Rightarrow> cache \<Rightarrow> cache" where
  "ReleaseRouteProbes u mk c =
     (if trim_space mk = [] then
        (case upstreamCB c u of None \<Rightarrow> c
         | Some st \<Rightarrow> c\<lparr>upstreamCB := (upstreamCB c)(u \<mapsto> st\<lparr>probeUntil := 0\<rparr>)\<rparr>)
      else (let k = modelCircuitKey u mk in
        case modelCB c k of None \<Rightarrow> c
         | Some st \<Rightarrow> c\<lparr>modelCB := (modelCB c)(k \<mapsto> st\<lparr>probeUntil := 0\<rparr>)\<rparr>))"

definition OpenUpstreamCircuit :: "gotime \<Rightarrow> nat \<Rightarrow> cache \<Rightarrow> cache" where
  "OpenUpstreamCircuit now u c =
     (let (st, c1) = ensureUpstreamCircuitLocked u c;
          st1 = st\<lparr>openUntil := now + circuitManualOpenDuration, manualOpen := True\<rparr>
      in maybeSweepLocked now (c1\<lparr>upstreamCB := (upstreamCB c1)(u \<mapsto> st1)\<rparr>))"

definition ResetUpstreamCircuit :: "nat \<Rightarrow> cache \<Rightarrow> cache" where
  "ResetUpstreamCircuit u c = c\<lparr>upstreamCB := map_del u (upstreamCB c), upstreamMeta := map_del u (upstreamMeta c)\<rparr>"

definition OpenModelCircuit :: "gotime \<Rightarrow> nat \<Rightarrow> string \<Rightarrow> cache \<Rightarrow> cache" where
  "OpenModelCircuit now u mk c =
     (let (st, c1) = ensureModelCircuitLocked u mk c;
          st1 = st\<lparr>openUntil := now + circuitManualOpenDuration, manualOpen := True\<rparr>
      in maybeSweepLocked now (c1\<lparr>modelCB := (modelCB c1)(modelCircuitKey u mk \<mapsto> st1)\<rparr>))"

definition ResetModelCircuit :: "nat \<Rightarrow> string \<Rightarrow> cache \<Rightarrow> cache" where
  "ResetModelCircuit u mk c = c\<lparr>modelCB := map_del (modelCircuitKey u mk) (modelCB c)\<rparr>"

text \<open>\<open>unix\<close> is \<open>time.Time.Unix\<close>: whole seconds since 1970, rounded down.\<close>

definition unix_offset :: int where "unix_offset = 62135596800"

definition unix :: "gotime \<Rightarrow> int" where
  "unix t = t div second - unix_offset"

definition queryCircuitStatus :: "gotime \<Rightarrow> circuit_state option \<Rightarrow> bool \<times> string" where
  "queryCircuitStatus now so =
     (case so of None \<Rightarrow> (False, [])
      | Some st \<Rightarrow> if \<not> now < openUntil st then (False, []) else (True, format_int (unix (openUntil st))))"

definition QueryUpstreamCircuitStatus :: "gotime \<Rightarrow> nat \<Rightarrow> cache \<Rightarrow> bool \<times> string" where
  "QueryUpstreamCircuitStatus now u c = queryCircuitStatus now (upstreamCB c u)"

definition QueryModelCircuitStatus :: "gotime \<Rightarrow> nat \<Rightarrow> string \<Rightarrow> cache \<Rightarrow> bool \<times> string" where
  "QueryModelCircuitStatus now u mk c = queryCircuitStatus now (modelCB c (modelCircuitKey u mk))"

section \<open>Keys\<close>

lemma modelCircuitKey_inj [simp]:
  "modelCircuitKey u a = modelCircuitKey v b \<longleftrightarrow> u = v \<and> trim_space a = trim_space b"
proof
  assume eq: "modelCircuitKey u a = modelCircuitKey v b"
  then have "show_nat u @ CHR '':'' # trim_space a = show_nat v @ CHR '':'' # trim_space b"
    by (simp add: modelCircuitKey_def)
  then have "show_nat u = show_nat v \<and> trim_space a = trim_space b"
    by (rule split_at_char_inj) (simp_all add: show_nat_no_char)
  then show "u = v \<and> trim_space a = trim_space b" by simp
qed (simp add: modelCircuitKey_def)

section \<open>Verdicts of a single circuit\<close>

definition blocked :: "string \<Rightarrow> bool" where
  "blocked v \<longleftrightarrow> v = ''open'' \<or> v = ''half_open_denied''"

lemma check_circuit_fst:
  "fst (check_circuit now st) =
     (if now < openUntil st then ''open''
      else if manualOpen st \<or> openUntil st = 0 \<or> openUntil st + circuitProbeTTL < now then ''closed''
      else if now < probeUntil st then ''half_open_denied'' else ''half_open_granted'')"
  by (simp add: check_circuit_def is_zero_def)

lemma check_circuit_snd:
  "snd (check_circuit now st) =
     (if now < openUntil st then st
      else if manualOpen st then st\<lparr>openUntil := 0, probeUntil := 0, manualOpen := False\<rparr>
      else if openUntil st = 0 then st
      else if openUntil st + circuitProbeTTL < now then st\<lparr>openUntil := 0, probeUntil := 0, manualOpen := False\<rparr>
      else if now < probeUntil st then st
      else st\<lparr>probeUntil := now + circuitProbeTTL\<rparr>)"
  by (simp add: check_circuit_def is_zero_def)

lemma checkLocked_simps [simp]:
  "checkCircuitStateLocked now None = (''closed'', None)"
  "checkCircuitStateLocked now (Some st) = (fst (check_circuit now st), Some (snd (check_circuit now st)))"
  by (simp_all add: checkCircuitStateLocked_def split_beta)

lemma checkLocked_snd_None [simp]:
  "snd (checkCircuitStateLocked now so) = None \<longleftrightarrow> so = None"
  by (cases so) simp_all

lemma CheckModel_simps:
  "fst (CheckModelCircuitState now u mk c) =
     fst (checkCircuitStateLocked now (modelCB c (modelCircuitKey u mk)))"
  "snd (CheckModelCircuitState now u mk c) =
     c\<lparr>modelCB := (modelCB c)(modelCircuitKey u mk :=
        snd (checkCircuitStateLocked now (modelCB c (modelCircuitKey u mk))))\<rparr>"
  by (simp_all add: CheckModelCircuitState_def Let_def split_beta)

lemma CheckUpstream_simps:
  "fst (CheckUpstreamCircuitState now u c) = fst (checkCircuitStateLocked now (upstreamCB c u))"
  "snd (CheckUpstreamCircuitState now u c) =
     c\<lparr>upstreamCB := (upstreamCB c)(u := snd (checkCircuitStateLocked now (upstreamCB c u)))\<rparr>"
  by (simp_all add: CheckUpstreamCircuitState_def split_beta)

text \<open>A circuit that the sweep may drop blocks nobody, now or later.\<close>

lemma expired_not_blocked:
  assumes "circuitStateExpired st now" and "0 \<le> now" and "now \<le> t"
  shows "\<not> blocked (fst (check_circuit t st))"
  using assms
  by (auto simp: circuitStateExpired_def check_circuit_fst blocked_def is_zero_def go_time split: if_splits)

lemma sweep_verdict_upstream:
  assumes "0 \<le> now" and "now \<le> t"
  shows "blocked (fst (CheckUpstreamCircuitState t u (maybeSweepLocked now c))) =
    blocked (fst (CheckUpstreamCircuitState t u c))"
proof (cases "upstreamCB c u")
  case None
  then have "upstreamCB (maybeSweepLocked now c) u = None"
    by (metis maybeSweep_upstreamCB(1) not_Some_eq)
  with None show ?thesis by (simp add: CheckUpstream_simps)
next
  case (Some st)
  show ?thesis
  proof (cases "upstreamCB (maybeSweepLocked now c) u")
    case None
    with Some have "circuitStateExpired st now" by (metis maybeSweep_upstreamCB(2) option.distinct(1))
    with assms Some None expired_not_blocked show ?thesis
      by (simp add: CheckUpstream_simps) (simp add: blocked_def)
  next
    case (Some st')
    with \<open>upstreamCB c u = Some st\<close> have "st' = st" by (metis maybeSweep_upstreamCB(1) option.inject)
    with Some \<open>upstreamCB c u = Some st\<close> show ?thesis by (simp add: CheckUpstream_simps)
  qed
qed

lemma sweep_verdict_model:
  assumes "0 \<le> now" and "now \<le> t"
  shows "blocked (fst (CheckModelCircuitState t u mk (maybeSweepLocked now c))) =
    blocked (fst (CheckModelCircuitState t u mk c))"
proof (cases "modelCB c (modelCircuitKey u mk)")
  case None
  then have "modelCB (maybeSweepLocked now c) (modelCircuitKey u mk) = None"
    by (metis maybeSweep_modelCB(1) not_Some_eq)
  with None show ?thesis by (simp add: CheckModel_simps)
next
  case (Some st)
  show ?thesis
  proof (cases "modelCB (maybeSweepLocked now c) (modelCircuitKey u mk)")
    case None
    with Some have "circuitStateExpired st now" by (metis maybeSweep_modelCB(2) option.distinct(1))
    with assms Some None expired_not_blocked show ?thesis
      by (simp add: CheckModel_simps) (simp add: blocked_def)
  next
    case (Some st')
    with \<open>modelCB c (modelCircuitKey u mk) = Some st\<close> have "st' = st"
      by (metis maybeSweep_modelCB(1) option.inject)
    with Some \<open>modelCB c (modelCircuitKey u mk) = Some st\<close> show ?thesis by (simp add: CheckModel_simps)
  qed
qed

section \<open>The failure log is a sliding window\<close>

definition effective_window :: "duration \<Rightarrow> duration" where
  "effective_window win = (if win \<le> 0 then 5 * minute else win)"

lemma effective_window_pos: "0 < effective_window win"
  by (simp add: effective_window_def go_time)

lemma recordFailure_simps [simp]:
  "failures (recordFailure st now win) = filter (\<lambda>t. now - effective_window win < t) (failures st) @ [now]"
  "openUntil (recordFailure st now win) = openUntil st"
  "probeUntil (recordFailure st now win) = probeUntil st"
  "manualOpen (recordFailure st now win) = manualOpen st"
  "lastFailure (recordFailure st now win) = now"
  by (simp_all add: recordFailure_def effective_window_def Let_def)

text \<open>Recording a run of failures, oldest first.\<close>

definition record_failures :: "duration \<Rightarrow> gotime list \<Rightarrow> circuit_state \<Rightarrow> circuit_state" where
  "record_failures win ts st = fold (\<lambda>t s. recordFailure s t win) ts st"

lemma record_failures_log:
  "sorted ts \<Longrightarrow> ts \<noteq> [] \<Longrightarrow> failures st = [] \<Longrightarrow>
   failures (record_failures win ts st) = filter (\<lambda>t. last ts - effective_window win < t) ts"
proof (induction ts rule: rev_induct)
  case Nil
  then show ?case by simp
next
  case (snoc t ts)
  let ?w = "effective_window win"
  have le: "\<forall>s \<in> set ts. s \<le> t" using snoc.prems(1) by (auto simp: sorted_append)
  have log: "failures (record_failures win ts st) = (if ts = [] then [] else filter (\<lambda>s. last ts - ?w < s) ts)"
    using snoc by (auto simp: sorted_append record_failures_def)
  have "filter (\<lambda>s. t - ?w < s) (failures (record_failures win ts st)) = filter (\<lambda>s. t - ?w < s) ts"
  proof (cases "ts = []")
    case False
    then have "last ts \<le> t" using le by simp
    then show ?thesis using False log by (auto intro!: filter_cong)
  next
    case True
    then show ?thesis using log by simp
  qed
  then show ?case
    using effective_window_pos [of win] by (simp add: record_failures_def)
qed

section \<open>Recording a failure\<close>

lemma ensure_simps:
  "fst (ensureModelCircuitLocked u mk c) = map_get (modelCB c) new_circuit (modelCircuitKey u mk)"
  "upstreamCB (snd (ensureModelCircuitLocked u mk c)) = upstreamCB c"
  "(modelCB (snd (ensureModelCircuitLocked u mk c)))(modelCircuitKey u mk := x) =
     (modelCB c)(modelCircuitKey u mk := x)"
  "fst (ensureUpstreamCircuitLocked u c) = map_get (upstreamCB c) new_circuit u"
  "modelCB (snd (ensureUpstreamCircuitLocked u c)) = modelCB c"
  "(upstreamCB (snd (ensureUpstreamCircuitLocked u c)))(u := y) = (upstreamCB c)(u := y)"
  by (auto simp: ensureModelCircuitLocked_def ensureUpstreamCircuitLocked_def map_get_def Let_def
      split: option.splits)

definition next_model_state :: "gotime \<Rightarrow> circuit_failure_input \<Rightarrow> circuit_state \<Rightarrow> circuit_state" where
  "next_model_state now i st =
     (let st1 = recordFailure (st\<lparr>probeUntil := 0\<rparr>) now (seconds_duration (cfi_ModelWindowSec i))
      in if (now < probeUntil st \<or> shouldTrip st1 (cfi_ModelFailureThreshold i)) \<and> 0 < cfi_ModelDurationSec i
         then st1\<lparr>openUntil := now + seconds_duration (cfi_ModelDurationSec i), manualOpen := False\<rparr>
         else st1)"

lemma record_model_failure_fields:
  "modelCB (record_model_failure now i c) =
     (let k = modelCircuitKey (cfi_UpstreamID i) (cfi_ModelKey i)
      in (modelCB c)(k \<mapsto> next_model_state now i (map_get (modelCB c) new_circuit k)))"
  "upstreamCB (record_model_failure now i c) = upstreamCB c"
  by (simp_all add: record_model_failure_def next_model_state_def ensure_simps Let_def split_beta)

lemma record_upstream_failure_modelCB:
  "modelCB (record_upstream_failure now i c) = modelCB c"
  by (simp add: record_upstream_failure_def ensure_simps Let_def split_beta)

lemma ensure_upstream_other:
  "v \<noteq> u \<Longrightarrow> upstreamCB (snd (ensureUpstreamCircuitLocked u c)) v = upstreamCB c v"
  by (simp add: ensureUpstreamCircuitLocked_def split: option.splits)

lemma record_upstream_failure_other:
  "u \<noteq> cfi_UpstreamID i \<Longrightarrow> upstreamCB (record_upstream_failure now i c) u = upstreamCB c u"
  by (simp add: record_upstream_failure_def ensure_simps Let_def split_beta ensure_upstream_other)

text \<open>An open circuit is never swept, and it answers \<open>open\<close> until its time.\<close>

lemma open_not_expired: "0 \<le> now \<Longrightarrow> now < openUntil st \<Longrightarrow> \<not> circuitStateExpired st now"
  by (auto simp: circuitStateExpired_def is_zero_def go_time)

definition valid_failure :: "circuit_failure_input \<Rightarrow> bool" where
  "valid_failure i \<longleftrightarrow> cfi_UpstreamID i \<noteq> 0 \<and> trim_space (cfi_ModelKey i) \<noteq> []"

lemma RecordCircuitFailure_valid:
  "valid_failure i \<Longrightarrow> RecordCircuitFailure now i c =
     maybeSweepLocked now (record_upstream_failure now i (record_model_failure now i c))"
  by (simp add: RecordCircuitFailure_def valid_failure_def)

lemma trip_opens_model:
  assumes "valid_failure i" and "0 \<le> now"
    and "0 < cfi_ModelDurationSec i" and "cfi_ModelDurationSec i \<le> 9223372036"
    and k: "k = modelCircuitKey (cfi_UpstreamID i) (cfi_ModelKey i)"
    and st: "st = map_get (modelCB c) new_circuit k"
    and trip: "now < probeUntil st \<or>
      shouldTrip (recordFailure (st\<lparr>probeUntil := 0\<rparr>) now (seconds_duration (cfi_ModelWindowSec i)))
        (cfi_ModelFailureThreshold i)"
    and t: "t < now + cfi_ModelDurationSec i * second"
  shows "fst (CheckModelCircuitState t (cfi_UpstreamID i) (cfi_ModelKey i) (RecordCircuitFailure now i c)) = ''open''"
proof -
  let ?st = "next_model_state now i st"
  have dur: "seconds_duration (cfi_ModelDurationSec i) = cfi_ModelDurationSec i * second"
    using assms(3,4) by (intro seconds_duration_exact) simp
  have op: "openUntil ?st = now + cfi_ModelDurationSec i * second"
    using trip assms(3) dur by (auto simp: next_model_state_def Let_def)
  have pos: "0 < cfi_ModelDurationSec i * second" using assms(3) by (simp add: go_time)
  have "modelCB (record_upstream_failure now i (record_model_failure now i c)) k = Some ?st"
    using k st by (simp add: record_upstream_failure_modelCB record_model_failure_fields Let_def)
  moreover have "\<not> circuitStateExpired ?st now"
    using assms(2) op pos by (intro open_not_expired) simp_all
  ultimately have "modelCB (RecordCircuitFailure now i c) k = Some ?st"
    using assms(1) by (simp add: RecordCircuitFailure_valid maybeSweep_modelCB(2))
  with k op t show ?thesis by (simp add: CheckModel_simps check_circuit_fst)
qed

text \<open>Below the threshold, with no probe in flight, a closed circuit stays closed.\<close>

lemma no_trip_stays_closed:
  assumes "valid_failure i" and "0 \<le> now" and "now \<le> t"
    and k: "k = modelCircuitKey (cfi_UpstreamID i) (cfi_ModelKey i)"
    and st: "st = map_get (modelCB c) new_circuit k"
    and closed: "openUntil st = 0" "\<not> now < probeUntil st"
    and no_trip: "\<not> shouldTrip (recordFailure (st\<lparr>probeUntil := 0\<rparr>) now (seconds_duration (cfi_ModelWindowSec i)))
        (cfi_ModelFailureThreshold i)"
  shows "\<not> blocked (fst (CheckModelCircuitState t (cfi_UpstreamID i) (cfi_ModelKey i) (RecordCircuitFailure now i c)))"
proof -
  have "openUntil (next_model_state now i st) = 0"
    using closed no_trip by (simp add: next_model_state_def Let_def)
  then have "\<not> blocked (fst (CheckModelCircuitState t (cfi_UpstreamID i) (cfi_ModelKey i)
      (record_upstream_failure now i (record_model_failure now i c))))"
    using assms(2,3) k st
    by (simp add: CheckModel_simps record_upstream_failure_modelCB record_model_failure_fields
        Let_def check_circuit_fst blocked_def)
  then show ?thesis
    using assms(1-3) by (simp add: RecordCircuitFailure_valid sweep_verdict_model)
qed

text \<open>A failure leaves the verdicts of every other circuit alone.\<close>

lemma failure_frame_model:
  assumes "0 \<le> now" and "now \<le> t"
    and "modelCircuitKey u mk \<noteq> modelCircuitKey (cfi_UpstreamID i) (cfi_ModelKey i)"
  shows "blocked (fst (CheckModelCircuitState t u mk (RecordCircuitFailure now i c))) =
    blocked (fst (CheckModelCircuitState t u mk c))"
proof (cases "valid_failure i")
  case True
  have "modelCB (record_upstream_failure now i (record_model_failure now i c)) (modelCircuitKey u mk) =
      modelCB c (modelCircuitKey u mk)"
    using assms(3) by (auto simp: record_upstream_failure_modelCB record_model_failure_fields Let_def)
  then show ?thesis
    using True assms(1,2) by (simp add: RecordCircuitFailure_valid sweep_verdict_model) (simp add: CheckModel_simps)
qed (auto simp: RecordCircuitFailure_def valid_failure_def)

lemma failure_frame_upstream:
  assumes "0 \<le> now" and "now \<le> t" and "u \<noteq> cfi_UpstreamID i"
  shows "blocked (fst (CheckUpstreamCircuitState t u (RecordCircuitFailure now i c))) =
    blocked (fst (CheckUpstreamCircuitState t u c))"
proof (cases "valid_failure i")
  case True
  then show ?thesis
    using assms by (simp add: RecordCircuitFailure_valid sweep_verdict_upstream)
      (simp add: CheckUpstream_simps record_upstream_failure_other record_model_failure_fields)
qed (auto simp: RecordCircuitFailure_def valid_failure_def)

section \<open>Counting open models\<close>

lemma openModelCount_card:
  "openModelCount m u now mks seen n =
     n + int (card {k \<in> modelCircuitKey u ` set mks - set seen. \<exists>st. m k = Some st \<and> now < openUntil st})"
proof (induction m u now mks seen n rule: openModelCount.induct)
  case (1 m u now seen count)
  then show ?case by simp
next
  case (2 m u now mk mks seen count)
  let ?k = "modelCircuitKey u mk"
  let ?open = "\<lambda>k. \<exists>st. m k = Some st \<and> now < openUntil st"
  show ?case
  proof (cases "?k \<in> set seen")
    case True
    then have "modelCircuitKey u ` set (mk # mks) - set seen = modelCircuitKey u ` set mks - set seen" by auto
    with True 2 show ?thesis by (simp add: Let_def)
  next
    case False
    let ?B = "{k \<in> modelCircuitKey u ` set mks - set (?k # seen). ?open k}"
    have "{k \<in> modelCircuitKey u ` set (mk # mks) - set seen. ?open k} =
        (if ?open ?k then insert ?k ?B else ?B)"
      using False by auto
    moreover have "finite ?B" and "?k \<notin> ?B" by simp_all
    ultimately have "int (card {k \<in> modelCircuitKey u ` set (mk # mks) - set seen. ?open k}) =
        (if ?open ?k then 1 else 0) + int (card ?B)"
      by simp
    moreover have "openModelCount m u now (mk # mks) seen count =
        openModelCount m u now mks (?k # seen) (count + (if ?open ?k then 1 else 0))"
      using False by (auto simp: Let_def split: option.splits)
    ultimately show ?thesis using 2(2) [OF refl False] False
      by (auto simp: Let_def split: option.splits)
  qed
qed

section \<open>Interleaved operations and the half-open probe\<close>

text \<open>
  The exported operations as one step function, so that a trace is a list of timed operations.
  Operations without a verdict answer the empty string.
\<close>

datatype channel_op =
    OpCheckUpstream nat
  | OpCheckModel nat string
  | OpFailure circuit_failure_input
  | OpFailureMeta nat string
  | OpSuccessMeta nat
  | OpClearUpstream nat
  | OpClearModel nat string
  | OpResetAll
  | OpRelease nat string
  | OpOpenUpstream nat
  | OpOpenModel nat string
  | OpResetUpstream nat
  | OpResetModel nat string

fun channel_step :: "gotime \<Rightarrow> channel_op \<Rightarrow> cache \<Rightarrow> string \<times> cache" where
  "channel_step now (OpCheckUpstream u) c = CheckUpstreamCircuitState now u c"
| "channel_step now (OpCheckModel u mk) c = CheckModelCircuitState now u mk c"
| "channel_step now (OpFailure i) c = ([], RecordCircuitFailure now i c)"
| "channel_step now (OpFailureMeta u e) c = ([], RecordFailureMetadata now u e c)"
| "channel_step now (OpSuccessMeta u) c = ([], RecordSuccessMetadata now u c)"
| "channel_step now (OpClearUpstream u) c = ([], ClearUpstreamCircuitKeys u c)"
| "channel_step now (OpClearModel u mk) c = ([], ClearModelCircuitKeys u mk c)"
| "channel_step now OpResetAll c = ([], ResetAllCircuitStates c)"
| "channel_step now (OpRelease u mk) c = ([], ReleaseRouteProbes u mk c)"
| "channel_step now (OpOpenUpstream u) c = ([], OpenUpstreamCircuit now u c)"
| "channel_step now (OpOpenModel u mk) c = ([], OpenModelCircuit now u mk c)"
| "channel_step now (OpResetUpstream u) c = ([], ResetUpstreamCircuit u c)"
| "channel_step now (OpResetModel u mk) c = ([], ResetModelCircuit u mk c)"

fun channel_run :: "(gotime \<times> channel_op) list \<Rightarrow> cache \<Rightarrow> cache" where
  "channel_run [] c = c"
| "channel_run ((now, op) # rest) c = channel_run rest (snd (channel_step now op c))"

text \<open>The operations that settle the probe of a model circuit: its outcome, or giving it back.\<close>

fun settles_model :: "string \<Rightarrow> channel_op \<Rightarrow> bool" where
  "settles_model k (OpFailure i) \<longleftrightarrow> modelCircuitKey (cfi_UpstreamID i) (cfi_ModelKey i) = k"
| "settles_model k (OpClearModel u mk) \<longleftrightarrow> modelCircuitKey u mk = k"
| "settles_model k OpResetAll \<longleftrightarrow> True"
| "settles_model k (OpRelease u mk) \<longleftrightarrow> trim_space mk \<noteq> [] \<and> modelCircuitKey u mk = k"
| "settles_model k (OpResetModel u mk) \<longleftrightarrow> modelCircuitKey u mk = k"
| "settles_model k _ \<longleftrightarrow> False"

text \<open>
  What keeps a second probe out: the probe is still pending, or the circuit is closed, manually
  open or gone, none of which grants a probe.
\<close>

definition probe_held :: "gotime \<Rightarrow> circuit_state option \<Rightarrow> bool" where
  "probe_held deadline so \<longleftrightarrow>
     (case so of None \<Rightarrow> True
      | Some st \<Rightarrow> manualOpen st \<or> openUntil st = 0 \<or> probeUntil st = deadline)"

lemma probe_held_check:
  "now < deadline \<Longrightarrow> probe_held deadline so \<Longrightarrow> probe_held deadline (snd (checkCircuitStateLocked now so))"
  by (cases so) (auto simp: probe_held_def check_circuit_snd)

lemma probe_held_not_granted:
  "now < deadline \<Longrightarrow> probe_held deadline so \<Longrightarrow> fst (checkCircuitStateLocked now so) \<noteq> ''half_open_granted''"
  by (cases so) (auto simp: probe_held_def check_circuit_fst)

lemma probe_held_sweep:
  "probe_held d (modelCB c k) \<Longrightarrow> probe_held d (modelCB (maybeSweepLocked now c) k)"
  by (cases "modelCB (maybeSweepLocked now c) k")
     (auto simp: probe_held_def dest: maybeSweep_modelCB(1))

lemma probe_held_open_model:
  "probe_held d (modelCB c k) \<Longrightarrow> probe_held d (modelCB (OpenModelCircuit now u mk c) k)"
  unfolding OpenModelCircuit_def Let_def split_beta
  by (rule probe_held_sweep) (simp add: ensure_simps, simp add: probe_held_def)

lemma probe_held_failure:
  assumes "modelCircuitKey (cfi_UpstreamID i) (cfi_ModelKey i) \<noteq> k" and "probe_held d (modelCB c k)"
  shows "probe_held d (modelCB (RecordCircuitFailure now i c) k)"
proof -
  have "probe_held d (modelCB (record_upstream_failure now i (record_model_failure now i c)) k)"
    using assms by (simp add: record_upstream_failure_modelCB record_model_failure_fields Let_def)
  then show ?thesis using assms(2) by (simp add: RecordCircuitFailure_def probe_held_sweep)
qed

lemma other_ops_modelCB:
  "modelCB (snd (CheckUpstreamCircuitState now u c)) = modelCB c"
  "modelCB (ClearUpstreamCircuitKeys u c) = modelCB c"
  "modelCB (ResetUpstreamCircuit u c) = modelCB c"
  by (simp_all add: CheckUpstream_simps ClearUpstreamCircuitKeys_def ResetUpstreamCircuit_def)

lemma release_modelCB:
  "modelCB (ReleaseRouteProbes u mk c) k =
     (if trim_space mk \<noteq> [] \<and> modelCircuitKey u mk = k
      then map_option (\<lambda>st. st\<lparr>probeUntil := 0\<rparr>) (modelCB c k) else modelCB c k)"
  by (auto simp: ReleaseRouteProbes_def Let_def split: option.splits)

lemma probe_held_step:
  assumes "now < deadline" and "\<not> settles_model k op" and held: "probe_held deadline (modelCB c k)"
  shows "probe_held deadline (modelCB (snd (channel_step now op c)) k)"
proof (cases op)
  case (OpCheckModel u mk)
  then show ?thesis using assms by (auto simp: CheckModel_simps intro: probe_held_check)
next
  case (OpFailure i)
  then show ?thesis using assms probe_held_failure by simp
next
  case (OpFailureMeta u e)
  then show ?thesis using held by (simp add: RecordFailureMetadata_def probe_held_sweep)
next
  case (OpSuccessMeta u)
  then show ?thesis using held by (simp add: RecordSuccessMetadata_def Let_def probe_held_sweep)
next
  case (OpOpenUpstream u)
  then show ?thesis using held
    by (simp add: OpenUpstreamCircuit_def Let_def split_beta probe_held_sweep ensure_simps)
next
  case (OpOpenModel u mk)
  then show ?thesis using held by (simp add: probe_held_open_model)
next
  case (OpRelease u mk)
  then show ?thesis using assms by (auto simp: release_modelCB)
qed (use assms in \<open>auto simp: other_ops_modelCB ClearModelCircuitKeys_def ResetModelCircuit_def\<close>)

lemma probe_held_run:
  assumes "\<forall>(now, op) \<in> set tr. now < deadline \<and> \<not> settles_model k op"
    and "probe_held deadline (modelCB c k)"
  shows "probe_held deadline (modelCB (channel_run tr c) k)"
  using assms
proof (induction tr arbitrary: c)
  case (Cons x tr)
  obtain now op where x: "x = (now, op)" by (cases x)
  then have "probe_held deadline (modelCB (snd (channel_step now op c)) k)"
    using Cons.prems by (intro probe_held_step) auto
  with Cons x show ?case by auto
qed simp

lemma grant_holds_probe:
  "fst (CheckModelCircuitState t u mk c) = ''half_open_granted'' \<Longrightarrow>
   probe_held (t + circuitProbeTTL) (modelCB (snd (CheckModelCircuitState t u mk c)) (modelCircuitKey u mk))"
  by (cases "modelCB c (modelCircuitKey u mk)")
     (auto simp: CheckModel_simps probe_held_def check_circuit_fst check_circuit_snd split: if_splits)

section \<open>Properties\<close>

text \<open>C19: While the probe request of a half-open model circuit is pending, no other request
  is granted a probe on that circuit: after a grant at time \<open>t\<close>, whatever operations on any circuit
  follow (none of them settling this probe), a check before \<open>t\<close> plus the probe's 30 seconds is not
  granted.\<close>

theorem probe_exclusive:
  assumes "fst (CheckModelCircuitState t u mk c) = ''half_open_granted''"
    and "\<forall>(now, op) \<in> set tr. now < t + circuitProbeTTL \<and> \<not> settles_model (modelCircuitKey u mk) op"
    and "t' < t + circuitProbeTTL"
  shows "fst (CheckModelCircuitState t' u mk (channel_run tr (snd (CheckModelCircuitState t u mk c)))) \<noteq> ''half_open_granted''"
  using probe_held_not_granted [OF assms(3) probe_held_run [OF assms(2) grant_holds_probe [OF assms(1)]]]
  by (simp add: CheckModel_simps)

definition half_open_cache :: cache where
  "half_open_cache = new_cache\<lparr>modelCB := [''1:m'' \<mapsto> new_circuit\<lparr>openUntil := 50 * second\<rparr>]\<rparr>"

theorem probe_exclusive_witness:
  "fst (CheckModelCircuitState (70 * second) 1 ''m''
     (channel_run [(65 * second, OpCheckUpstream 1), (66 * second, OpCheckModel 1 ''m'')]
       (snd (CheckModelCircuitState (60 * second) 1 ''m'' half_open_cache)))) \<noteq> ''half_open_granted''"
proof (rule probe_exclusive)
  show "fst (CheckModelCircuitState (60 * second) 1 ''m'' half_open_cache) = ''half_open_granted''"
    by code_simp
  show "\<forall>(now, op) \<in> set [(65 * second, OpCheckUpstream 1), (66 * second, OpCheckModel 1 ''m'')].
      now < 60 * second + circuitProbeTTL \<and> \<not> settles_model (modelCircuitKey 1 ''m'') op"
    by (simp add: go_time)
  show "70 * second < 60 * second + circuitProbeTTL" by (simp add: go_time)
qed

text \<open>C20: A failure opens a closed model circuit for the configured duration exactly when
  the threshold is positive and reached by the failures of the sliding window, this one included.\<close>

theorem model_trip_iff:
  assumes "valid_failure i" and "0 \<le> now" and "now \<le> t"
    and "0 < cfi_ModelDurationSec i" and "cfi_ModelDurationSec i \<le> 9223372036"
    and "t < now + cfi_ModelDurationSec i * second"
    and st: "modelCB c (modelCircuitKey (cfi_UpstreamID i) (cfi_ModelKey i)) = Some st"
    and closed: "openUntil st = 0" "probeUntil st \<le> now"
  shows "fst (CheckModelCircuitState t (cfi_UpstreamID i) (cfi_ModelKey i) (RecordCircuitFailure now i c)) = ''open'' \<longleftrightarrow>
     0 < cfi_ModelFailureThreshold i \<and>
     cfi_ModelFailureThreshold i \<le> int (length (filter
       (\<lambda>f. now - effective_window (seconds_duration (cfi_ModelWindowSec i)) < f) (failures st))) + 1"
proof -
  let ?trip = "shouldTrip (recordFailure (st\<lparr>probeUntil := 0\<rparr>) now (seconds_duration (cfi_ModelWindowSec i)))
      (cfi_ModelFailureThreshold i)"
  have get: "st = map_get (modelCB c) new_circuit (modelCircuitKey (cfi_UpstreamID i) (cfi_ModelKey i))"
    using st by simp
  have "fst (CheckModelCircuitState t (cfi_UpstreamID i) (cfi_ModelKey i) (RecordCircuitFailure now i c)) = ''open'' \<longleftrightarrow> ?trip"
  proof (cases ?trip)
    case True
    with trip_opens_model [OF assms(1,2,4,5) refl get _ assms(6)] show ?thesis by simp
  next
    case False
    with no_trip_stays_closed [OF assms(1-3) refl get closed(1) _ False] closed(2)
    show ?thesis by (simp add: blocked_def)
  qed
  then show ?thesis by (auto simp: shouldTrip_def)
qed

definition example_failure :: circuit_failure_input where
  "example_failure = \<lparr>cfi_UpstreamID = 1, cfi_ModelKey = ''m'', cfi_ModelWindowSec = 180,
     cfi_ModelFailureThreshold = 2, cfi_ModelDurationSec = 900, cfi_UpstreamWindowSec = 300,
     cfi_UpstreamFailureThreshold = 20, cfi_UpstreamModelThreshold = 3, cfi_UpstreamThresholdLogic = ''or'',
     cfi_UpstreamDurationSec = 1800, cfi_ActiveModelKeys = [''m'']\<rparr>"

definition one_failure_cache :: cache where
  "one_failure_cache = new_cache\<lparr>modelCB := [''1:m'' \<mapsto> new_circuit\<lparr>failures := [10 * second]\<rparr>]\<rparr>"

theorem model_trip_iff_witness:
  "fst (CheckModelCircuitState (100 * second) 1 ''m''
     (RecordCircuitFailure (60 * second) example_failure one_failure_cache)) = ''open''"
proof -
  have fields: "cfi_UpstreamID example_failure = 1" "cfi_ModelKey example_failure = ''m''"
    "cfi_ModelDurationSec example_failure = 900" "cfi_ModelFailureThreshold example_failure = 2"
    "cfi_ModelWindowSec example_failure = 180"
    by (simp_all add: example_failure_def)
  have v: "valid_failure example_failure" by code_simp
  have m: "modelCB one_failure_cache (modelCircuitKey (cfi_UpstreamID example_failure) (cfi_ModelKey example_failure)) =
      Some (new_circuit\<lparr>failures := [10 * second]\<rparr>)"
    by code_simp
  show ?thesis
    using model_trip_iff [OF v _ _ _ _ _ m, of "60 * second" "100 * second"]
    by (simp add: fields go_time new_circuit_def effective_window_def seconds_duration_exact)
qed

text \<open>After failures at times \<open>ts\<close> (in order), the log of a fresh circuit is exactly the
  failures later than the window before the last one.\<close>

theorem failure_log_window:
  assumes "sorted ts" and "ts \<noteq> []"
  shows "failures (record_failures win ts new_circuit) = filter (\<lambda>t. last ts - effective_window win < t) ts"
  using assms by (intro record_failures_log) (simp_all add: new_circuit_def)

theorem failure_log_window_witness:
  "failures (record_failures (3 * second) [second, 2 * second, 4 * second] new_circuit) = [2 * second, 4 * second]"
  using failure_log_window [of "[second, 2 * second, 4 * second]" "3 * second"]
  by (simp add: go_time effective_window_def)

text \<open>Recording a failure changes no verdict of another circuit: not of a model with a
  different upstream or (trimmed) model key, and not of another upstream, now or later.\<close>

theorem circuit_isolation:
  assumes "0 \<le> now" and "now \<le> t"
    and "u \<noteq> cfi_UpstreamID i \<or> trim_space mk \<noteq> trim_space (cfi_ModelKey i)" and "v \<noteq> cfi_UpstreamID i"
  shows "blocked (fst (CheckModelCircuitState t u mk (RecordCircuitFailure now i c))) =
      blocked (fst (CheckModelCircuitState t u mk c)) \<and>
    blocked (fst (CheckUpstreamCircuitState t v (RecordCircuitFailure now i c))) =
      blocked (fst (CheckUpstreamCircuitState t v c))"
  using assms by (intro conjI failure_frame_model failure_frame_upstream) auto

theorem circuit_isolation_witness:
  "blocked (fst (CheckModelCircuitState 60 1 ''n'' (RecordCircuitFailure 60 example_failure one_failure_cache))) =
      blocked (fst (CheckModelCircuitState 60 1 ''n'' one_failure_cache)) \<and>
    blocked (fst (CheckUpstreamCircuitState 60 2 (RecordCircuitFailure 60 example_failure one_failure_cache))) =
      blocked (fst (CheckUpstreamCircuitState 60 2 one_failure_cache))"
proof (rule circuit_isolation)
  show "1 \<noteq> cfi_UpstreamID example_failure \<or> trim_space ''n'' \<noteq> trim_space (cfi_ModelKey example_failure)"
    by code_simp
qed (simp_all add: example_failure_def)

text \<open>The periodic maintenance never changes whether a circuit blocks a request, at the
  time of the sweep or later.\<close>

theorem sweep_transparent:
  assumes "0 \<le> now" and "now \<le> t"
  shows "blocked (fst (CheckUpstreamCircuitState t u (maybeSweepLocked now c))) =
      blocked (fst (CheckUpstreamCircuitState t u c)) \<and>
    blocked (fst (CheckModelCircuitState t u mk (maybeSweepLocked now c))) =
      blocked (fst (CheckModelCircuitState t u mk c))"
  using assms by (simp add: sweep_verdict_upstream sweep_verdict_model)

theorem sweep_transparent_witness:
  "blocked (fst (CheckUpstreamCircuitState 9 1 (maybeSweepLocked 5 half_open_cache))) =
      blocked (fst (CheckUpstreamCircuitState 9 1 half_open_cache)) \<and>
    blocked (fst (CheckModelCircuitState 9 1 ''m'' (maybeSweepLocked 5 half_open_cache))) =
      blocked (fst (CheckModelCircuitState 9 1 ''m'' half_open_cache))"
  by (rule sweep_transparent) simp_all

text \<open>The count that trips an upstream is the number of distinct circuits, among the
  active model keys, that are open now.\<close>

theorem open_model_count_exact:
  "openModelCountLocked c u mks now =
     int (card {k \<in> modelCircuitKey u ` set mks. \<exists>st. modelCB c k = Some st \<and> now < openUntil st})"
  by (simp add: openModelCountLocked_def openModelCount_card)

end
