(* ===== verification/Rate_Limits.thy ===== *)
theory Rate_Limits
  imports Cache_State
begin

text \<open>
  The counters of the in-process cache that limit requests: the exponential backoff of a
  rate-limited route and the round-robin counter of an upstream's API keys (\<open>memory/channel.go\<close>),
  and the sliding-window and fixed-window HTTP limiters (\<open>memory/rate_limiter.go\<close>).
\<close>

section \<open>Route backoff\<close>

record backoff_params =
  bp_UpstreamID :: nat
  bp_RouteID :: nat
  bp_BackoffBaseSec :: int
  bp_BackoffMaxSec :: int
  bp_BackoffMultiplier :: int
  bp_RetryAfterSec :: int

text \<open>The loop \<open>for i := 1; i < attempt; i++\<close>, with \<open>n\<close> rounds left; the product is a Go \<open>int\<close>.\<close>

fun backoff_loop :: "nat \<Rightarrow> int \<Rightarrow> int \<Rightarrow> int \<Rightarrow> int" where
  "backoff_loop 0 maxSec multiplier backoff = backoff"
| "backoff_loop (Suc n) maxSec multiplier backoff =
     (if maxSec \<le> backoff then maxSec
      else (let b = wrap64 (backoff * multiplier) in
            if maxSec \<le> b then maxSec else backoff_loop n maxSec multiplier b))"

definition calculateBackoffSeconds :: "int \<Rightarrow> backoff_params \<Rightarrow> int" where
  "calculateBackoffSeconds attempt p =
     (let base = (if bp_BackoffBaseSec p \<le> 0 then 5 else bp_BackoffBaseSec p);
          maxSec = (if bp_BackoffMaxSec p \<le> 0 then 60 else bp_BackoffMaxSec p);
          multiplier = (if bp_BackoffMultiplier p \<le> 1 then 2 else bp_BackoffMultiplier p);
          backoff = backoff_loop (nat (attempt - 1)) maxSec multiplier base;
          backoff' = (if backoff < bp_RetryAfterSec p then bp_RetryAfterSec p else backoff)
      in if maxSec < backoff' then maxSec else backoff')"

definition GetRateLimitBackoff :: "gotime \<Rightarrow> nat \<Rightarrow> nat \<Rightarrow> cache \<Rightarrow> duration" where
  "GetRateLimitBackoff now u r c =
     (if u = 0 \<or> r = 0 then 0
      else (let remaining = backoffUntil (map_get (rateLimits c)
                  \<lparr>backoffUntil = 0, backoffCount = 0, countExpires = 0\<rparr> (u, r)) - now
            in if remaining \<le> 0 then 0 else remaining))"

definition RecordRateLimitBackoff :: "gotime \<Rightarrow> backoff_params \<Rightarrow> cache \<Rightarrow> cache" where
  "RecordRateLimitBackoff now p c =
     (if bp_UpstreamID p = 0 \<or> bp_RouteID p = 0 then c
      else (let k = (bp_UpstreamID p, bp_RouteID p);
                st = map_get (rateLimits c) \<lparr>backoffUntil = 0, backoffCount = 0, countExpires = 0\<rparr> k;
                count = (if countExpires st < now then 0 else backoffCount st) + 1
            in maybeSweepLocked now (c\<lparr>rateLimits := (rateLimits c)(k \<mapsto>
                 \<lparr>backoffUntil = now + seconds_duration (calculateBackoffSeconds count p),
                  backoffCount = count, countExpires = now + 5 * minute\<rparr>)\<rparr>)))"

definition ClearRateLimitBackoff :: "nat \<Rightarrow> nat \<Rightarrow> cache \<Rightarrow> cache" where
  "ClearRateLimitBackoff u r c =
     (if u = 0 \<or> r = 0 then c else c\<lparr>rateLimits := map_del (u, r) (rateLimits c)\<rparr>)"

definition IncrAPIKeyCounter :: "gotime \<Rightarrow> nat \<Rightarrow> cache \<Rightarrow> int \<times> bool \<times> cache" where
  "IncrAPIKeyCounter now u c =
     (let next = key_next (map_get (keyCounters c) \<lparr>key_next = 0, key_lastUsed = 0\<rparr> u)
      in (next, True, maybeSweepLocked now
            (c\<lparr>keyCounters := (keyCounters c)(u \<mapsto> \<lparr>key_next = wrap64 (next + 1), key_lastUsed = now\<rparr>)\<rparr>)))"

subsection \<open>The backoff in closed form\<close>

definition effective :: "int \<Rightarrow> int \<Rightarrow> int \<Rightarrow> int" where
  "effective lo dflt v = (if v \<le> lo then dflt else v)"

lemma backoff_loop_le: "b \<le> maxSec \<Longrightarrow> backoff_loop n maxSec m b \<le> maxSec"
  by (induction n arbitrary: b) (auto simp: Let_def)

text \<open>As long as one more multiplication fits into 64 bits, the loop computes the capped power.\<close>

lemma backoff_loop_power:
  assumes "0 < m" and "maxSec * m \<le> max_int64"
  shows "0 < b \<Longrightarrow> 0 < maxSec \<Longrightarrow> min maxSec (backoff_loop n maxSec m b) = min maxSec (b * m ^ n)"
proof (induction n arbitrary: b)
  case (Suc n)
  have pow: "1 \<le> m ^ n" and "1 \<le> m" using assms(1) by (simp_all add: one_le_power)
  show ?case
  proof (cases "maxSec \<le> b")
    case True
    have "b * 1 \<le> b * (m * m ^ n)" using Suc.prems \<open>1 \<le> m\<close> pow
      by (intro mult_left_mono) (auto intro: order_trans [OF _ mult_mono [of 1 m 1 "m ^ n"]])
    with True show ?thesis by simp
  next
    case False
    have "b * m \<le> maxSec * m" using False assms(1) by simp
    moreover have "0 < b * m" using Suc.prems assms(1) by simp
    ultimately have w: "wrap64 (b * m) = b * m"
      using assms(2) by (intro wrap64_id) (simp add: int64_defs)
    have "b * m * 1 \<le> b * m * m ^ n" using \<open>0 < b * m\<close> pow by (intro mult_left_mono) auto
    then show ?thesis
      using False w Suc.IH [OF \<open>0 < b * m\<close> Suc.prems(2)] by (auto simp: Let_def mult.assoc)
  qed
qed simp

lemma backoff_bounds: "calculateBackoffSeconds a p \<le> effective 0 60 (bp_BackoffMaxSec p)"
  by (simp add: calculateBackoffSeconds_def effective_def Let_def)

lemma cap_min_max: "(if mx < (if l < r then r else l) then mx else (if l < r then r else l)) = min mx (max l (r :: int))"
  by auto

lemma min_max_cap: "min mx l = min mx x \<Longrightarrow> min mx (max l r) = min mx (max x (r :: int))"
  by linarith

lemma backoff_closed_form:
  assumes "1 \<le> attempt"
    and "effective 0 60 (bp_BackoffMaxSec p) * effective 1 2 (bp_BackoffMultiplier p) \<le> max_int64"
  shows "calculateBackoffSeconds attempt p =
    min (effective 0 60 (bp_BackoffMaxSec p))
        (max (effective 0 5 (bp_BackoffBaseSec p) * effective 1 2 (bp_BackoffMultiplier p) ^ nat (attempt - 1))
             (bp_RetryAfterSec p))"
proof -
  let ?base = "effective 0 5 (bp_BackoffBaseSec p)"
  let ?max = "effective 0 60 (bp_BackoffMaxSec p)"
  let ?m = "effective 1 2 (bp_BackoffMultiplier p)"
  let ?l = "backoff_loop (nat (attempt - 1)) ?max ?m ?base"
  have "min ?max ?l = min ?max (?base * ?m ^ nat (attempt - 1))"
    using assms(2) by (intro backoff_loop_power) (auto simp: effective_def)
  then have "min ?max (max ?l (bp_RetryAfterSec p)) =
      min ?max (max (?base * ?m ^ nat (attempt - 1)) (bp_RetryAfterSec p))"
    by (rule min_max_cap)
  moreover have "calculateBackoffSeconds attempt p =
      (if ?max < (if ?l < bp_RetryAfterSec p then bp_RetryAfterSec p else ?l) then ?max
       else (if ?l < bp_RetryAfterSec p then bp_RetryAfterSec p else ?l))"
    unfolding calculateBackoffSeconds_def effective_def Let_def by (rule refl)
  ultimately show ?thesis by (simp only: cap_min_max)
qed

lemma RecordRateLimitBackoff_lookup:
  assumes "bp_UpstreamID p \<noteq> 0" and "bp_RouteID p \<noteq> 0"
  shows "\<exists>r. rateLimits (RecordRateLimitBackoff now p c) (bp_UpstreamID p, bp_RouteID p) = Some r \<and>
    backoffUntil r = now + seconds_duration (calculateBackoffSeconds (backoffCount r) p) \<and>
    countExpires r = now + 5 * minute \<and>
    backoffCount r = (case rateLimits c (bp_UpstreamID p, bp_RouteID p) of None \<Rightarrow> 1
      | Some s \<Rightarrow> if countExpires s < now then 1 else backoffCount s + 1)"
proof -
  let ?k = "(bp_UpstreamID p, bp_RouteID p)"
  let ?st = "map_get (rateLimits c) \<lparr>backoffUntil = 0, backoffCount = 0, countExpires = 0\<rparr> ?k"
  let ?count = "(if countExpires ?st < now then 0 else backoffCount ?st) + 1"
  let ?r = "\<lparr>backoffUntil = now + seconds_duration (calculateBackoffSeconds ?count p),
     backoffCount = ?count, countExpires = now + 5 * minute\<rparr>"
  have "RecordRateLimitBackoff now p c = maybeSweepLocked now (c\<lparr>rateLimits := (rateLimits c)(?k \<mapsto> ?r)\<rparr>)"
    using assms by (simp only: RecordRateLimitBackoff_def Let_def simp_thms if_False)
  then have "rateLimits (RecordRateLimitBackoff now p c) ?k = Some ?r"
    by (simp add: maybeSweep_rateLimits(2) go_time)
  then show ?thesis by (auto split: option.splits)
qed

section \<open>HTTP limiters\<close>

definition AllowSlidingWindow :: "gotime \<Rightarrow> string \<Rightarrow> int \<Rightarrow> duration \<Rightarrow> duration \<Rightarrow> cache \<Rightarrow> bool \<times> cache" where
  "AllowSlidingWindow now key limit win ttl c =
     (if trim_space key = [] \<or> limit \<le> 0 then (True, c)
      else (let w = (if win \<le> 0 then minute else win);
                cutoff = now - w;
                evs = filter (\<lambda>t. cutoff < t) (map_get (slidingHTTP c) [] key);
                allowed = int (length evs) < limit;
                evs' = (if allowed then evs @ [now] else evs)
            in (allowed, maybeSweepLocked now (c\<lparr>slidingHTTP := (slidingHTTP c)(key \<mapsto> evs')\<rparr>))))"

fun fixed_window_loop ::
  "gotime \<Rightarrow> int \<Rightarrow> duration \<Rightarrow> string list \<Rightarrow> (string \<rightharpoonup> fixed_window_counter) \<Rightarrow> bool \<Rightarrow>
     bool \<times> (string \<rightharpoonup> fixed_window_counter)" where
  "fixed_window_loop now limit ttl [] m allowed = (allowed, m)"
| "fixed_window_loop now limit ttl (key # keys) m allowed =
     (let k = trim_space key in
      if k = [] then fixed_window_loop now limit ttl keys m allowed
      else (let item = map_get m \<lparr>fw_count = 0, fw_expiresAt = 0\<rparr> k;
                item1 = (if fw_expiresAt item < now then \<lparr>fw_count = 0, fw_expiresAt = now + ttl\<rparr> else item);
                item2 = item1\<lparr>fw_count := fw_count item1 + 1\<rparr>
            in fixed_window_loop now limit ttl keys (m(k \<mapsto> item2))
                 (if limit < fw_count item2 then False else allowed)))"

definition AllowFixedWindow :: "gotime \<Rightarrow> string list \<Rightarrow> int \<Rightarrow> duration \<Rightarrow> cache \<Rightarrow> bool \<times> cache" where
  "AllowFixedWindow now keys limit ttl c =
     (if keys = [] \<or> limit \<le> 0 then (True, c)
      else (let (allowed, m) = fixed_window_loop now limit (if ttl \<le> 0 then minute else ttl) keys (fixedHTTP c) True
            in (allowed, maybeSweepLocked now (c\<lparr>fixedHTTP := m\<rparr>))))"

subsection \<open>The sliding window\<close>

text \<open>A run of requests on arbitrary keys; the result lists the times allowed for \<open>key\<close>.\<close>

fun sliding_run :: "string \<Rightarrow> int \<Rightarrow> duration \<Rightarrow> (gotime \<times> string) list \<Rightarrow> cache \<Rightarrow> gotime list \<times> cache" where
  "sliding_run key limit win [] c = ([], c)"
| "sliding_run key limit win ((now, k) # rest) c =
     (let (ok, c1) = AllowSlidingWindow now k limit win 0 c;
          (as, c2) = sliding_run key limit win rest c1
      in (if ok \<and> k = key then now # as else as, c2))"

definition in_window :: "duration \<Rightarrow> gotime \<Rightarrow> gotime list \<Rightarrow> nat" where
  "in_window w t as = length (filter (\<lambda>a. t - w < a \<and> a \<le> t) as)"

text \<open>
  What the log of \<open>key\<close> still knows about the allowed requests \<open>as\<close> (oldest first) at time \<open>now\<close>:
  every one of them in the window.
\<close>

definition log_covers :: "string \<Rightarrow> duration \<Rightarrow> gotime \<Rightarrow> gotime list \<Rightarrow> cache \<Rightarrow> bool" where
  "log_covers key w now as c \<longleftrightarrow>
     (\<forall>lo \<ge> now - w. filter (\<lambda>t. lo < t) (map_get (slidingHTTP c) [] key) = filter (\<lambda>t. lo < t) as)"

lemma log_covers_mono: "now \<le> now' \<Longrightarrow> log_covers key w now as c \<Longrightarrow> log_covers key w now' as c"
  by (auto simp: log_covers_def)

lemma filter_sweep_sliding:
  "c0 \<le> lo \<Longrightarrow> filter (\<lambda>t. lo < t) (map_get (sweep_sliding c0 m) [] key) =
     filter (\<lambda>t. lo < t) (map_get m [] key)"
proof (cases "m key")
  case (Some evs)
  assume "c0 \<le> lo"
  then have "filter (\<lambda>t. lo < t) (filter (\<lambda>t. c0 < t) evs) = filter (\<lambda>t. lo < t) evs"
    by (auto intro!: filter_cong)
  with Some show ?thesis
    by (cases "filter (\<lambda>t. c0 < t) evs = []") (simp_all add: sweep_sliding_def map_get_def)
qed (simp add: sweep_sliding_def map_get_def)

lemma log_covers_sweep:
  assumes "w \<le> slidingWindowRetention" and "log_covers key w now as c"
  shows "log_covers key w now as (maybeSweepLocked now c)"
  using maybeSweep_slidingHTTP [of now c] assms
  by (auto simp: log_covers_def filter_sweep_sliding)

lemma sliding_step:
  assumes "0 < w" and "w \<le> slidingWindowRetention" and "0 < limit" and "trim_space k \<noteq> []"
    and cov: "log_covers key w now as c"
    and step: "AllowSlidingWindow now k limit w ttl c = (ok, c')"
  shows "log_covers key w now (if ok \<and> k = key then as @ [now] else as) c'"
    and "k = key \<Longrightarrow> ok \<longleftrightarrow> int (length (filter (\<lambda>t. now - w < t) as)) < limit"
proof -
  let ?evs = "filter (\<lambda>t. now - w < t) (map_get (slidingHTTP c) [] k)"
  have own: "k = key \<Longrightarrow> ?evs = filter (\<lambda>t. now - w < t) as"
    using cov by (simp add: log_covers_def)
  have ok: "ok \<longleftrightarrow> int (length ?evs) < limit"
    and c': "c' = maybeSweepLocked now
      (c\<lparr>slidingHTTP := (slidingHTTP c)(k \<mapsto> if ok then ?evs @ [now] else ?evs)\<rparr>)"
    using step assms(1,3,4) by (auto simp: AllowSlidingWindow_def Let_def)
  have "log_covers key w now (if ok \<and> k = key then as @ [now] else as)
      (c\<lparr>slidingHTTP := (slidingHTTP c)(k \<mapsto> if ok then ?evs @ [now] else ?evs)\<rparr>)"
  proof (cases "k = key")
    case True
    have sub: "filter (\<lambda>t. lo < t) ?evs = filter (\<lambda>t. lo < t) as" if "now - w \<le> lo" for lo
      using that own [OF True] by (auto intro!: filter_cong)
    show ?thesis using True sub by (auto simp: log_covers_def map_get_def)
  next
    case False
    then show ?thesis using cov by (simp add: log_covers_def map_get_def)
  qed
  then show "log_covers key w now (if ok \<and> k = key then as @ [now] else as) c'"
    unfolding c' by (rule log_covers_sweep [OF assms(2)])
  show "k = key \<Longrightarrow> ok \<longleftrightarrow> int (length (filter (\<lambda>t. now - w < t) as)) < limit"
    using ok own by simp
qed

lemma in_window_snoc:
  assumes "0 < w" and "\<forall>a \<in> set as. a \<le> now" and "\<forall>t. int (in_window w t as) \<le> limit"
    and "int (length (filter (\<lambda>t. now - w < t) as)) < limit"
  shows "int (in_window w t (as @ [now])) \<le> limit"
proof (cases "t - w < now \<and> now \<le> t")
  case True
  have "set (filter (\<lambda>a. t - w < a \<and> a \<le> t) as) \<subseteq> set (filter (\<lambda>a. now - w < a) as)"
    using True by auto
  have "length (filter (\<lambda>a. t - w < a \<and> a \<le> t) as) \<le> length (filter (\<lambda>a. now - w < a) as)"
    using True by (induction as) auto
  with True assms(4) show ?thesis by (simp add: in_window_def)
next
  case False
  with assms(3) show ?thesis by (auto simp: in_window_def)
qed

lemma sliding_run_window:
  assumes "0 < w" and "w \<le> slidingWindowRetention" and "0 < limit"
  shows "sorted (map fst reqs) \<Longrightarrow> \<forall>(t, k) \<in> set reqs. now \<le> t \<and> trim_space k \<noteq> [] \<Longrightarrow>
    \<forall>a \<in> set as. a \<le> now \<Longrightarrow> log_covers key w now as c \<Longrightarrow> \<forall>t. int (in_window w t as) \<le> limit \<Longrightarrow>
    int (in_window w t (as @ fst (sliding_run key limit w reqs c))) \<le> limit"
proof (induction reqs arbitrary: now as c)
  case Nil
  then show ?case by simp
next
  case (Cons r reqs)
  obtain now' k where r: "r = (now', k)" by (cases r)
  obtain ok c1 where step: "AllowSlidingWindow now' k limit w 0 c = (ok, c1)" by (cases "AllowSlidingWindow now' k limit w 0 c")
  let ?as = "if ok \<and> k = key then as @ [now'] else as"
  have le: "now \<le> now'" and k: "trim_space k \<noteq> []" using Cons.prems(2) r by auto
  have cov: "log_covers key w now' as c" using log_covers_mono le Cons.prems(4) by blast
  note st = sliding_step [OF assms k cov step]
  have bound: "\<forall>a \<in> set ?as. a \<le> now'" using Cons.prems(3) le by auto
  have win: "\<forall>t. int (in_window w t ?as) \<le> limit"
    using in_window_snoc [OF assms(1), of as now' limit] Cons.prems(3,5) le st(2) by fastforce
  have "int (in_window w t (?as @ fst (sliding_run key limit w reqs c1))) \<le> limit"
    using Cons.prems(1,2) r by (intro Cons.IH [OF _ _ bound st(1) win]) auto
  then show ?case using r step by (auto simp: Let_def split_beta)
qed

subsection \<open>The fixed window\<close>

text \<open>\<open>n\<close> requests with one key, at the times \<open>ts\<close>; the verdicts in order.\<close>

fun fixed_run :: "string \<Rightarrow> int \<Rightarrow> duration \<Rightarrow> gotime list \<Rightarrow> cache \<Rightarrow> bool list \<times> cache" where
  "fixed_run key limit ttl [] c = ([], c)"
| "fixed_run key limit ttl (now # ts) c =
     (let (ok, c1) = AllowFixedWindow now [key] limit ttl c;
          (oks, c2) = fixed_run key limit ttl ts c1
      in (ok # oks, c2))"

lemma fixed_step_live:
  assumes "trim_space key \<noteq> []" and "0 < limit"
    and "fixedHTTP c (trim_space key) = Some \<lparr>fw_count = n, fw_expiresAt = e\<rparr>" and "now \<le> e"
  shows "\<exists>c'. AllowFixedWindow now [key] limit ttl c = (n + 1 \<le> limit, c') \<and>
    fixedHTTP c' (trim_space key) = Some \<lparr>fw_count = n + 1, fw_expiresAt = e\<rparr>"
  using assms by (auto simp: AllowFixedWindow_def Let_def maybeSweep_fixedHTTP(2))

lemma fixed_step_new:
  assumes "trim_space key \<noteq> []" and "0 < limit" and "0 < ttl"
    and "fw_expiresAt (map_get (fixedHTTP c) \<lparr>fw_count = 0, fw_expiresAt = 0\<rparr> (trim_space key)) < now"
  shows "\<exists>c'. AllowFixedWindow now [key] limit ttl c = (True, c') \<and>
    fixedHTTP c' (trim_space key) = Some \<lparr>fw_count = 1, fw_expiresAt = now + ttl\<rparr>"
  using assms by (auto simp: AllowFixedWindow_def Let_def maybeSweep_fixedHTTP(2))

lemma fixed_run_live:
  assumes "trim_space key \<noteq> []" and "0 < limit"
  shows "fixedHTTP c (trim_space key) = Some \<lparr>fw_count = n, fw_expiresAt = e\<rparr> \<Longrightarrow> \<forall>t \<in> set ts. t \<le> e \<Longrightarrow>
    fst (fixed_run key limit ttl ts c) = map (\<lambda>j. n + int j < limit) [0..<length ts]"
proof (induction ts arbitrary: c n)
  case Nil
  then show ?case by simp
next
  case (Cons now ts)
  then obtain c' where c': "AllowFixedWindow now [key] limit ttl c = (n + 1 \<le> limit, c')"
    "fixedHTTP c' (trim_space key) = Some \<lparr>fw_count = n + 1, fw_expiresAt = e\<rparr>"
    using fixed_step_live [OF assms] by fastforce
  have "fst (fixed_run key limit ttl ts c') = map (\<lambda>j. n + 1 + int j < limit) [0..<length ts]"
    using c' Cons.prems by (intro Cons.IH) auto
  moreover have "map (\<lambda>j. n + int j < limit) [0..<length (now # ts)] =
      (n < limit) # map (\<lambda>j. n + 1 + int j < limit) [0..<length ts]"
    by (simp add: upt_conv_Cons map_Suc_upt [symmetric] del: upt_Suc) (simp add: algebra_simps)
  ultimately show ?case using c' by (auto simp: split_beta)
qed

section \<open>Properties\<close>

text \<open>The backoff of the \<open>n\<close>-th consecutive rate-limit response is the base times the
  multiplier to the power \<open>n - 1\<close>, raised to the upstream's \<open>Retry-After\<close> and capped by the maximum
  (with the defaults 5, 60 and 2 for missing settings), whenever one more multiplication of the
  cap fits into 64 bits.\<close>

theorem backoff_exact:
  assumes "1 \<le> attempt"
    and "effective 0 60 (bp_BackoffMaxSec p) * effective 1 2 (bp_BackoffMultiplier p) \<le> max_int64"
  shows "calculateBackoffSeconds attempt p =
    min (effective 0 60 (bp_BackoffMaxSec p))
        (max (effective 0 5 (bp_BackoffBaseSec p) * effective 1 2 (bp_BackoffMultiplier p) ^ nat (attempt - 1))
             (bp_RetryAfterSec p))"
  using assms by (rule backoff_closed_form)

definition example_backoff :: backoff_params where
  "example_backoff = \<lparr>bp_UpstreamID = 1, bp_RouteID = 2, bp_BackoffBaseSec = 3, bp_BackoffMaxSec = 0,
     bp_BackoffMultiplier = 0, bp_RetryAfterSec = 7\<rparr>"

theorem backoff_exact_witness: "calculateBackoffSeconds 4 example_backoff = 24"
  using backoff_exact [of 4 example_backoff]
  by (simp add: example_backoff_def effective_def int64_defs)

text \<open>After a rate-limit response is recorded, the route's remaining backoff at every later
  time is the recorded one less the elapsed time, never negative; the attempt number restarts at 1
  when the previous count has expired.\<close>

theorem backoff_wait:
  assumes "bp_UpstreamID p \<noteq> 0" and "bp_RouteID p \<noteq> 0"
  shows "GetRateLimitBackoff t (bp_UpstreamID p) (bp_RouteID p) (RecordRateLimitBackoff now p c) =
    max 0 (now + seconds_duration (calculateBackoffSeconds
      (case rateLimits c (bp_UpstreamID p, bp_RouteID p) of None \<Rightarrow> 1
       | Some s \<Rightarrow> if countExpires s < now then 1 else backoffCount s + 1) p) - t)"
  using RecordRateLimitBackoff_lookup [OF assms, of now c] assms
  by (auto simp: GetRateLimitBackoff_def Let_def)

theorem backoff_wait_witness:
  "GetRateLimitBackoff (2 * second) 1 2 (RecordRateLimitBackoff second example_backoff new_cache) = 6 * second"
proof -
  have f: "bp_UpstreamID example_backoff = 1" "bp_RouteID example_backoff = 2"
    by (simp_all add: example_backoff_def)
  have c: "calculateBackoffSeconds 1 example_backoff = 7" by code_simp
  show ?thesis
    using backoff_wait [of example_backoff "2 * second" second new_cache]
    by (simp add: f c new_cache_def seconds_duration_exact go_time)
qed

text \<open>However requests on any keys are interleaved (in clock order), and whenever the
  maintenance runs, no window of the configured length contains more allowed requests of a key
  than its limit. The window is at most the 10 minutes the maintenance keeps.\<close>

theorem sliding_window_limit:
  assumes "0 < w" and "w \<le> slidingWindowRetention" and "0 < limit"
    and "sorted (map fst reqs)" and "\<forall>(t, k) \<in> set reqs. trim_space k \<noteq> []"
    and "slidingHTTP c = Map.empty"
  shows "int (in_window w t (fst (sliding_run key limit w reqs c))) \<le> limit"
proof (cases reqs)
  case Nil
  with assms(3) show ?thesis by (simp add: in_window_def)
next
  case (Cons r rs)
  have "int (in_window w t ([] @ fst (sliding_run key limit w reqs c))) \<le> limit"
  proof (rule sliding_run_window [OF assms(1-3), where now = "fst r"])
    show "\<forall>(t, k) \<in> set reqs. fst r \<le> t \<and> trim_space k \<noteq> []"
      using assms(4,5) Cons by fastforce
  qed (use assms in \<open>simp_all add: log_covers_def map_get_def in_window_def\<close>)
  then show ?thesis by simp
qed

theorem sliding_window_limit_witness:
  "int (in_window second 7 (fst (sliding_run ''k'' 2 second [(5, ''k''), (6, ''j''), (6, ''k''), (7, ''k'')] new_cache))) \<le> 2"
proof (rule sliding_window_limit)
  show "\<forall>(t, k) \<in> set [(5, ''k''), (6, ''j''), (6, ''k''), (7, ''k'')]. trim_space k \<noteq> []" by code_simp
qed (simp_all add: go_time new_cache_def)

text \<open>When no window is open, a request opens one, and of it and the requests that follow
  within the window's lifetime exactly the first \<open>limit\<close> are allowed.\<close>

theorem fixed_window_quota:
  assumes "trim_space key \<noteq> []" and "0 < limit" and "0 < ttl"
    and "fw_expiresAt (map_get (fixedHTTP c) \<lparr>fw_count = 0, fw_expiresAt = 0\<rparr> (trim_space key)) < now"
    and "\<forall>t \<in> set ts. t \<le> now + ttl"
  shows "fst (fixed_run key limit ttl (now # ts) c) = map (\<lambda>j. int j < limit) [0..<length (now # ts)]"
proof -
  obtain c' where c': "AllowFixedWindow now [key] limit ttl c = (True, c')"
    "fixedHTTP c' (trim_space key) = Some \<lparr>fw_count = 1, fw_expiresAt = now + ttl\<rparr>"
    using fixed_step_new [OF assms(1-4)] by blast
  have "map (\<lambda>j. int j < limit) [0..<length (now # ts)] = True # map (\<lambda>j. 1 + int j < limit) [0..<length ts]"
    using assms(2)
    by (simp add: upt_conv_Cons map_Suc_upt [symmetric] del: upt_Suc)
  with c' fixed_run_live [OF assms(1,2) c'(2) assms(5)] show ?thesis by (simp add: split_beta)
qed

theorem fixed_window_quota_witness:
  "fst (fixed_run ''ip'' 2 minute [5, 6, 7] new_cache) = [True, True, False]"
proof -
  have t: "trim_space ''ip'' \<noteq> []" by code_simp
  show ?thesis
    using fixed_window_quota [OF t, of 2 minute new_cache 5 "[6, 7]"]
    by (simp add: new_cache_def map_get_def go_time upt_rec)
qed

end
