(* ===== verification/Channel_Routing.thy ===== *)
theory Channel_Routing
  imports Route_Protocols Circuit_Breaker Rate_Limits "HOL-Library.Char_ord" "HOL-Library.List_Lexorder"
begin

text \<open>
  Model routing (\<open>application/channel/service_routing.go\<close>): which upstream serves a request, with
  which key, and what the outcome of the call does to the circuit breaker and the rate-limit
  backoff. The service sees its cache through the interface \<open>ChannelCacheRepository\<close>, here the
  record \<open>channel_cache\<close> of operations on an arbitrary state \<open>'s\<close>; \<open>memory_cache\<close> is the in-process
  implementation. The database, key decryption, JSON, Unicode case folding and URL validation are arguments.
  Every clock reading and every random number is the next element of a stream of the environment.
\<close>

section \<open>The interfaces\<close>

text \<open>
  \<open>ChannelCacheRepository\<close>, as far as routing calls it. Errors of the bookkeeping operations are
  only logged by the service, so these operations return just the new state.
\<close>

record 's channel_cache =
  cc_CheckUpstream :: "gotime \<Rightarrow> nat \<Rightarrow> 's \<Rightarrow> (string + string) \<times> 's"
  cc_CheckModel :: "gotime \<Rightarrow> nat \<Rightarrow> string \<Rightarrow> 's \<Rightarrow> (string + string) \<times> 's"
  cc_RecordCircuitFailure :: "gotime \<Rightarrow> circuit_failure_input \<Rightarrow> 's \<Rightarrow> 's"
  cc_RecordFailureMetadata :: "gotime \<Rightarrow> nat \<Rightarrow> string \<Rightarrow> 's \<Rightarrow> 's"
  cc_RecordSuccessMetadata :: "gotime \<Rightarrow> nat \<Rightarrow> 's \<Rightarrow> 's"
  cc_ClearUpstream :: "nat \<Rightarrow> 's \<Rightarrow> 's"
  cc_ClearModel :: "nat \<Rightarrow> string \<Rightarrow> 's \<Rightarrow> 's"
  cc_ReleaseProbes :: "nat \<Rightarrow> string \<Rightarrow> 's \<Rightarrow> 's"
  cc_GetBackoff :: "gotime \<Rightarrow> nat \<Rightarrow> nat \<Rightarrow> 's \<Rightarrow> (string + duration) \<times> 's"
  cc_RecordBackoff :: "gotime \<Rightarrow> backoff_params \<Rightarrow> 's \<Rightarrow> 's"
  cc_ClearBackoff :: "nat \<Rightarrow> nat \<Rightarrow> 's \<Rightarrow> 's"
  cc_IncrKeyCounter :: "gotime \<Rightarrow> nat \<Rightarrow> 's \<Rightarrow> (int \<times> bool) \<times> 's"

definition memory_cache :: "cache channel_cache" where
  "memory_cache = \<lparr>
     cc_CheckUpstream = (\<lambda>now u c. let (v, c') = CheckUpstreamCircuitState now u c in (Inr v, c')),
     cc_CheckModel = (\<lambda>now u k c. let (v, c') = CheckModelCircuitState now u k c in (Inr v, c')),
     cc_RecordCircuitFailure = RecordCircuitFailure,
     cc_RecordFailureMetadata = RecordFailureMetadata,
     cc_RecordSuccessMetadata = RecordSuccessMetadata,
     cc_ClearUpstream = ClearUpstreamCircuitKeys,
     cc_ClearModel = ClearModelCircuitKeys,
     cc_ReleaseProbes = ReleaseRouteProbes,
     cc_GetBackoff = (\<lambda>now u r c. (Inr (GetRateLimitBackoff now u r c), c)),
     cc_RecordBackoff = RecordRateLimitBackoff,
     cc_ClearBackoff = ClearRateLimitBackoff,
     cc_IncrKeyCounter = (\<lambda>now u c. let (n, ok, c') = IncrAPIKeyCounter now u c in ((n, ok), c'))\<rparr>"

record api_key =
  ak_Key :: string
  ak_Status :: string
  ak_Note :: string

record api_keys_config =
  kc_Strategy :: string
  kc_Keys :: "api_key list"

record route_row =
  rw_RouteID :: nat
  rw_UpstreamModelID :: nat
  rw_UpstreamID :: nat
  rw_UpstreamName :: string
  rw_PlatformModelID :: nat
  rw_PlatformModelName :: string
  rw_ModelVendor :: string
  rw_ModelIcon :: string
  rw_ModelKindsJSON :: string
  rw_ModelCapabilitiesJSON :: string
  rw_ModelSystemPrompt :: string
  rw_Protocol :: string
  rw_BaseURL :: string
  rw_APIKeysEnc :: string
  rw_ConnectTimeoutMS :: int
  rw_ReadTimeoutMS :: int
  rw_StreamIdleTimeoutMS :: int
  rw_HeadersJSON :: string
  rw_RouteHeadersJSON :: string
  rw_BindingCode :: string
  rw_UpstreamModelName :: string
  rw_Weight :: int
  rw_RoutePriority :: int
  rw_UpstreamCbFailureThreshold :: int
  rw_UpstreamCbModelThreshold :: int
  rw_UpstreamCbThresholdLogic :: string
  rw_UpstreamCbDurationMin :: int
  rw_UpstreamCbWindowMin :: int
  rw_PlatformModelCbPolicyMode :: string
  rw_PlatformModelCbFailureThreshold :: int
  rw_PlatformModelCbDurationMin :: int
  rw_PlatformModelCbWindowMin :: int
  rw_ModelCbFailureThreshold :: int
  rw_ModelCbDurationMin :: int
  rw_ModelCbWindowMin :: int

record resolved_route =
  rs_RouteID :: nat
  rs_PlatformModelID :: nat
  rs_PlatformModelName :: string
  rs_UpstreamModelID :: nat
  rs_UpstreamID :: nat
  rs_UpstreamName :: string
  rs_BindingCode :: string
  rs_Protocol :: string
  rs_BaseURL :: string
  rs_APIKey :: string
  rs_ConnectTimeoutMS :: int
  rs_ReadTimeoutMS :: int
  rs_StreamIdleTimeoutMS :: int
  rs_HeadersJSON :: string
  rs_ModelVendor :: string
  rs_ModelIcon :: string
  rs_ModelCapabilitiesJSON :: string
  rs_ModelSystemPrompt :: string
  rs_UpstreamModel :: string
  rs_ReasoningContentPassback :: bool
  rs_ReasoningPassbackRequestOptions :: "(string \<times> bool) list"
  rs_UpstreamCbFailureThreshold :: int
  rs_UpstreamCbModelThreshold :: int
  rs_UpstreamCbThresholdLogic :: string
  rs_UpstreamCbDurationMin :: int
  rs_UpstreamCbWindowMin :: int
  rs_PlatformModelCbPolicyMode :: string
  rs_PlatformModelCbFailureThreshold :: int
  rs_PlatformModelCbDurationMin :: int
  rs_PlatformModelCbWindowMin :: int
  rs_ModelCbFailureThreshold :: int
  rs_ModelCbDurationMin :: int
  rs_ModelCbWindowMin :: int
  rs_UpstreamProbeGranted :: bool
  rs_ModelProbeGranted :: bool

record breaker_defaults =
  bd_Enabled :: bool
  bd_ModelFailureThreshold :: int
  bd_ModelDurationMin :: int
  bd_ModelWindowMin :: int
  bd_UpstreamFailureThreshold :: int
  bd_UpstreamModelThreshold :: int
  bd_UpstreamThresholdLogic :: string
  bd_UpstreamDurationMin :: int
  bd_UpstreamWindowMin :: int

definition zero_breaker_defaults :: breaker_defaults where
  "zero_breaker_defaults = \<lparr>bd_Enabled = False, bd_ModelFailureThreshold = 0, bd_ModelDurationMin = 0,
     bd_ModelWindowMin = 0, bd_UpstreamFailureThreshold = 0, bd_UpstreamModelThreshold = 0,
     bd_UpstreamThresholdLogic = [], bd_UpstreamDurationMin = 0, bd_UpstreamWindowMin = 0\<rparr>"

definition DefaultBreakerDefaults :: breaker_defaults where
  "DefaultBreakerDefaults = \<lparr>bd_Enabled = False, bd_ModelFailureThreshold = 5, bd_ModelDurationMin = 15,
     bd_ModelWindowMin = 3, bd_UpstreamFailureThreshold = 20, bd_UpstreamModelThreshold = 3,
     bd_UpstreamThresholdLogic = ''or'', bd_UpstreamDurationMin = 30, bd_UpstreamWindowMin = 5\<rparr>"

definition BreakerDefaults_Valid :: "breaker_defaults \<Rightarrow> bool" where
  "BreakerDefaults_Valid d =
     (if list_ex (\<lambda>v. v < 0) [bd_ModelFailureThreshold d, bd_ModelDurationMin d, bd_ModelWindowMin d,
          bd_UpstreamFailureThreshold d, bd_UpstreamModelThreshold d, bd_UpstreamDurationMin d,
          bd_UpstreamWindowMin d] then False
      else if list_ex (\<lambda>v. go_div max_int64 60 < v) [bd_ModelDurationMin d, bd_ModelWindowMin d,
          bd_UpstreamDurationMin d, bd_UpstreamWindowMin d] then False
      else (let logic = trim_space (bd_UpstreamThresholdLogic d)
            in logic = [] \<or> logic = ''and'' \<or> logic = ''or''))"

record error_classification =
  ec_CircuitErrors :: "string list"
  ec_RateLimitErrors :: "string list"
  ec_IgnoreErrors :: "string list"

record rate_limit_defaults =
  rd_BackoffBaseSec :: int
  rd_BackoffMaxSec :: int
  rd_BackoffMultiplier :: int

text \<open>What a request finds outside the service: the rows of the database and the injected parts.\<close>

record permission_groups =
  pg_ModelGroups :: "nat \<Rightarrow> channel_error + nat list"
  pg_UserGroups :: "nat \<Rightarrow> channel_error + nat list"
  pg_DefaultGroups :: "channel_error + nat list"
  pg_SubscriptionGroup :: "(nat \<Rightarrow> channel_error + nat option) option"

record route_repo =
  rp_ActiveModel :: "string \<Rightarrow> channel_error + nat \<times> string"  \<comment> \<open>id and access scope of \<open>GetActiveModelByName\<close>\<close>
  rp_ActiveRoutes :: "string \<Rightarrow> channel_error + route_row list"
  rp_BindingCodes :: "nat \<Rightarrow> channel_error + string list"
  rp_BreakerDefaults :: "channel_error + breaker_defaults"
  rp_Classification :: error_classification
  rp_RateLimitDefaults :: rate_limit_defaults
  rp_Permissions :: "permission_groups option"

record 's route_env =
  re_cache :: "'s channel_cache option"
  re_clock :: "nat \<Rightarrow> gotime"
  re_rand :: "nat \<Rightarrow> nat"
  re_validURL :: "string \<Rightarrow> bool"
  re_decrypt :: "string \<Rightarrow> string option"  \<comment> \<open>\<open>secretbox.DecryptString\<close>\<close>
  re_unmarshalKeys :: "string \<Rightarrow> api_keys_config option"  \<comment> \<open>\<open>json.Unmarshal\<close> into \<open>apiKeysPayload\<close>\<close>
  re_unmarshalKinds :: "string \<Rightarrow> string list option"
  re_unmarshalMap :: "string \<Rightarrow> (string \<times> string) list option"  \<comment> \<open>a JSON object: its keys with the text of their values\<close>
  re_marshalMap :: "(string \<times> string) list \<Rightarrow> string option"  \<comment> \<open>the entries in key order\<close>
  re_fold :: "string \<Rightarrow> string"  \<comment> \<open>strings with equal folds are \<open>strings.EqualFold\<close>\<close>
  re_parseTime :: "string \<Rightarrow> gotime option"

text \<open>The breaker settings the service caches, and the state of one instance of the service.\<close>

record breaker_cache =
  bc_defaults :: breaker_defaults
  bc_loaded :: bool
  bc_validUntil :: gotime

record 's router =
  ro_cache :: 's
  ro_localKeyCounters :: "nat \<rightharpoonup> nat"
  ro_breaker :: breaker_cache
  ro_ticks :: nat
  ro_draws :: nat

definition tick :: "'s route_env \<Rightarrow> 's router \<Rightarrow> gotime \<times> 's router" where
  "tick env st = (re_clock env (ro_ticks st), st\<lparr>ro_ticks := Suc (ro_ticks st)\<rparr>)"

text \<open>\<open>rand.Intn(n)\<close>: any number below \<open>n\<close>.\<close>

definition rand_Intn :: "'s route_env \<Rightarrow> nat \<Rightarrow> 's router \<Rightarrow> nat \<times> 's router" where
  "rand_Intn env n st = (re_rand env (ro_draws st) mod n, st\<lparr>ro_draws := Suc (ro_draws st)\<rparr>)"

section \<open>Names and access\<close>

definition hasUnsafeModelNameRune :: "string \<Rightarrow> bool" where
  "hasUnsafeModelNameRune r \<longleftrightarrow>
     (case r of
        [b] \<Rightarrow> byte_between 0 31 b \<or> b = CHR 0x7F
      | [a, b] \<Rightarrow> a = CHR 0xC2 \<and> byte_between 128 159 b
      | _ \<Rightarrow> False) \<or> (0 < space_rune r \<and> r \<noteq> '' '')"

definition normalizePlatformModelName :: "string \<Rightarrow> channel_error + string" where
  "normalizePlatformModelName raw =
     (let v = trim_space raw in
      if v = [] then Inl ErrInvalidPlatformModelName
      else if list_ex hasUnsafeModelNameRune (utf8_runes v) then Inl ErrInvalidPlatformModelName
      else Inr v)"

definition normalizeRouteScope :: "string \<Rightarrow> string" where
  "normalizeRouteScope raw = (if norm_name raw = ''internal'' then ''internal'' else ''user'')"

definition normalizeModelAccessScopeValue :: "string \<Rightarrow> string" where
  "normalizeModelAccessScopeValue raw = (let v = norm_name raw in if v = [] then ''public'' else v)"

definition routeScopeAllowsModelAccess :: "string \<Rightarrow> string \<Rightarrow> bool" where
  "routeScopeAllowsModelAccess routeScope modelAccessScope =
     (if normalizeRouteScope routeScope = ''internal'' then True
      else normalizeModelAccessScopeValue modelAccessScope = ''public'')"

definition normalizeCbLogic :: "string \<Rightarrow> string" where
  "normalizeCbLogic raw = (if trim_space raw = ''and'' then ''and'' else ''or'')"

definition normalizeModelCircuitPolicyMode :: "string \<Rightarrow> string" where
  "normalizeModelCircuitPolicyMode raw = (if norm_name raw = ''enforced'' then ''enforced'' else ''default'')"

text \<open>The set of groups a user belongs to, as the list of everything added to it.\<close>

definition resolveUserGroupIDs :: "permission_groups option \<Rightarrow> nat \<Rightarrow> channel_error + nat list" where
  "resolveUserGroupIDs pgo userID =
     (case pgo of None \<Rightarrow> Inr []
      | Some pg \<Rightarrow>
        if userID = 0 then Inr []
        else case pg_UserGroups pg userID of Inl e \<Rightarrow> Inl e
        | Inr ids \<Rightarrow>
          (case pg_DefaultGroups pg of Inl e \<Rightarrow> Inl e
           | Inr defaultIDs \<Rightarrow>
             (case pg_SubscriptionGroup pg of None \<Rightarrow> Inr (ids @ defaultIDs)
              | Some resolver \<Rightarrow>
                (case resolver userID of Inl e \<Rightarrow> Inl e
                 | Inr None \<Rightarrow> Inr (ids @ defaultIDs)
                 | Inr (Some g) \<Rightarrow> Inr (ids @ defaultIDs @ [g])))))"

definition isModelAccessible :: "permission_groups option \<Rightarrow> nat \<Rightarrow> nat \<Rightarrow> channel_error + bool" where
  "isModelAccessible pgo platformModelID userID =
     (case pgo of None \<Rightarrow> Inr True
      | Some pg \<Rightarrow>
        if userID = 0 then Inr True
        else case pg_ModelGroups pg platformModelID of Inl e \<Rightarrow> Inl e
        | Inr modelGroups \<Rightarrow>
          if modelGroups = [] then Inr False
          else case resolveUserGroupIDs pgo userID of Inl e \<Rightarrow> Inl e
          | Inr userGroups \<Rightarrow> Inr (list_ex (List.member userGroups) modelGroups))"

section \<open>Breaker settings\<close>

definition breakerDefaultsCacheTTL :: duration where "breakerDefaultsCacheTTL = 5 * second"
definition breakerDefaultsErrorRetryTTL :: duration where "breakerDefaultsErrorRetryTTL = second"

text \<open>
  \<open>now\<close> and \<open>now'\<close> are the readings before and after the write lock; \<open>fetched\<close> is what
  \<open>GetBreakerDefaults\<close> answers when it is asked.
\<close>

definition load_defaults ::
  "channel_error + breaker_defaults \<Rightarrow> gotime \<Rightarrow> gotime \<Rightarrow> breaker_cache \<Rightarrow> breaker_defaults \<times> breaker_cache" where
  "load_defaults fetched now now' bc =
     (if now < bc_validUntil bc then (bc_defaults bc, bc)
      else if now' < bc_validUntil bc then (bc_defaults bc, bc)
      else case fetched of
          Inl e \<Rightarrow>
            (if bc_loaded bc then bc_defaults bc else zero_breaker_defaults,
             bc\<lparr>bc_validUntil := now' + breakerDefaultsErrorRetryTTL\<rparr>)
        | Inr cfg \<Rightarrow> (cfg, \<lparr>bc_defaults = cfg, bc_loaded = True, bc_validUntil = now' + breakerDefaultsCacheTTL\<rparr>))"

definition storeBreakerDefaults :: "breaker_defaults \<Rightarrow> gotime \<Rightarrow> breaker_cache \<Rightarrow> breaker_cache" where
  "storeBreakerDefaults cfg now bc =
     \<lparr>bc_defaults = cfg, bc_loaded = True, bc_validUntil = now + breakerDefaultsCacheTTL\<rparr>"

definition loadBreakerDefaults :: "'s route_env \<Rightarrow> route_repo \<Rightarrow> 's router \<Rightarrow> breaker_defaults \<times> 's router" where
  "loadBreakerDefaults env repo st =
     (let (now, st1) = tick env st; (now', st2) = tick env st1;
          (cfg, bc) = load_defaults (rp_BreakerDefaults repo) now now' (ro_breaker st)
      in (cfg, if now < bc_validUntil (ro_breaker st) then st1 else st2\<lparr>ro_breaker := bc\<rparr>))"

section \<open>Candidates\<close>

type_synonym candidate = "route_row \<times> string"

definition makeRouteIDSet :: "nat list \<Rightarrow> nat set" where
  "makeRouteIDSet routeIDs = set (filter (\<lambda>r. r \<noteq> 0) routeIDs)"

definition effective_weight :: "candidate \<Rightarrow> int" where
  "effective_weight c = (if rw_Weight (fst c) \<le> 0 then 100 else rw_Weight (fst c))"

text \<open>\<open>totalWeight\<close> and \<open>cumulative\<close> are Go \<open>int\<close>s.\<close>

fun total_weight :: "int \<Rightarrow> candidate list \<Rightarrow> int" where
  "total_weight acc [] = acc"
| "total_weight acc (c # cs) = total_weight (wrap64 (acc + effective_weight c)) cs"

fun pick_cumulative :: "int \<Rightarrow> int \<Rightarrow> nat \<Rightarrow> candidate list \<Rightarrow> nat option" where
  "pick_cumulative r cumulative i [] = None"
| "pick_cumulative r cumulative i (c # cs) =
     (let cumulative' = wrap64 (cumulative + effective_weight c) in
      if r < cumulative' then Some i else pick_cumulative r cumulative' (Suc i) cs)"

text \<open>The index \<open>weightedRandomCandidate\<close> picks in a non-empty list, from one random number \<open>n\<close>.\<close>

definition weighted_index :: "nat \<Rightarrow> candidate list \<Rightarrow> nat" where
  "weighted_index n rows =
     (let totalWeight = total_weight 0 rows in
      if totalWeight \<le> 0 then n mod length rows
      else case pick_cumulative (int (n mod nat totalWeight)) 0 0 rows of
          Some i \<Rightarrow> i | None \<Rightarrow> length rows - 1)"

definition weightedRandomCandidate :: "'s route_env \<Rightarrow> candidate list \<Rightarrow> 's router \<Rightarrow> candidate option \<times> 's router" where
  "weightedRandomCandidate env rows st =
     (if rows = [] then (None, st)
      else (Some (rows ! weighted_index (re_rand env (ro_draws st)) rows), st\<lparr>ro_draws := Suc (ro_draws st)\<rparr>))"

definition removeCandidate :: "candidate list \<Rightarrow> nat \<Rightarrow> nat \<Rightarrow> candidate list" where
  "removeCandidate items upstreamID upstreamModelID =
     filter (\<lambda>i. \<not> (rw_UpstreamID (fst i) = upstreamID \<and> rw_UpstreamModelID (fst i) = upstreamModelID)) items"

definition bindingCircuitKey :: "string \<Rightarrow> string" where
  "bindingCircuitKey bindingCode =
     (let code = trim_space bindingCode in
      if code = [] then [] else ''upstream-model-'' @ replace_char (CHR '':'') (CHR ''-'') code)"

definition bindingCircuitKeys :: "string list \<Rightarrow> string list" where
  "bindingCircuitKeys codes = filter (\<lambda>k. k \<noteq> []) (map bindingCircuitKey codes)"

definition routeModelCircuitKey :: "resolved_route \<Rightarrow> string" where
  "routeModelCircuitKey route = bindingCircuitKey (rs_BindingCode route)"

text \<open>Header settings: a JSON object of the upstream, overridden by one of the route.\<close>

definition put_header :: "(string \<Rightarrow> string) \<Rightarrow> string \<times> string \<Rightarrow> (string \<times> string) list \<Rightarrow> (string \<times> string) list" where
  "put_header fd kv target =
     (let key = trim_space (fst kv) in
      if key = [] then target
      else filter (\<lambda>(k, v). fd k \<noteq> fd key) target @ [(key, snd kv)])"

definition mergeIntoJSONMap :: "'s route_env \<Rightarrow> string \<Rightarrow> (string \<times> string) list \<Rightarrow> (string \<times> string) list" where
  "mergeIntoJSONMap env raw target =
     (if trim_space raw = [] then target
      else case re_unmarshalMap env raw of
          None \<Rightarrow> target
        | Some parsed \<Rightarrow> List.fold (put_header (re_fold env)) (sort_key fst parsed) target)"

definition mergeHeaderJSON :: "'s route_env \<Rightarrow> string \<Rightarrow> string \<Rightarrow> string" where
  "mergeHeaderJSON env upstreamHeaders routeHeaders =
     (let merged = mergeIntoJSONMap env (trim_space routeHeaders) (mergeIntoJSONMap env (trim_space upstreamHeaders) [])
      in if merged = [] then []
         else case re_marshalMap env (sort_key fst merged) of
             None \<Rightarrow> trim_space upstreamHeaders
           | Some payload \<Rightarrow> payload)"

definition buildResolvedRoute :: "'s route_env \<Rightarrow> route_row \<Rightarrow> string \<Rightarrow> resolved_route" where
  "buildResolvedRoute env row key = \<lparr>
     rs_RouteID = rw_RouteID row,
     rs_PlatformModelID = rw_PlatformModelID row,
     rs_PlatformModelName = trim_space (rw_PlatformModelName row),
     rs_UpstreamModelID = rw_UpstreamModelID row,
     rs_UpstreamID = rw_UpstreamID row,
     rs_UpstreamName = trim_space (rw_UpstreamName row),
     rs_BindingCode = trim_space (rw_BindingCode row),
     rs_Protocol = rw_Protocol row,
     rs_BaseURL = trim_space (rw_BaseURL row),
     rs_APIKey = key,
     rs_ConnectTimeoutMS = rw_ConnectTimeoutMS row,
     rs_ReadTimeoutMS = rw_ReadTimeoutMS row,
     rs_StreamIdleTimeoutMS = rw_StreamIdleTimeoutMS row,
     rs_HeadersJSON = mergeHeaderJSON env (rw_HeadersJSON row) (rw_RouteHeadersJSON row),
     rs_ModelVendor = trim_space (rw_ModelVendor row),
     rs_ModelIcon = trim_space (rw_ModelIcon row),
     rs_ModelCapabilitiesJSON = trim_space (rw_ModelCapabilitiesJSON row),
     rs_ModelSystemPrompt = trim_space (rw_ModelSystemPrompt row),
     rs_UpstreamModel = trim_space (rw_UpstreamModelName row),
     rs_ReasoningContentPassback = reasoningContentPassbackRequired (rw_Protocol row) 
       [rw_ModelVendor row, rw_PlatformModelName row, rw_UpstreamModelName row, rw_UpstreamName row],
     rs_ReasoningPassbackRequestOptions = reasoningPassbackRequestOptions (rw_Protocol row) 
       [rw_ModelVendor row, rw_PlatformModelName row, rw_UpstreamModelName row, rw_UpstreamName row],
     rs_UpstreamCbFailureThreshold = rw_UpstreamCbFailureThreshold row,
     rs_UpstreamCbModelThreshold = rw_UpstreamCbModelThreshold row,
     rs_UpstreamCbThresholdLogic = rw_UpstreamCbThresholdLogic row,
     rs_UpstreamCbDurationMin = rw_UpstreamCbDurationMin row,
     rs_UpstreamCbWindowMin = rw_UpstreamCbWindowMin row,
     rs_PlatformModelCbPolicyMode = rw_PlatformModelCbPolicyMode row,
     rs_PlatformModelCbFailureThreshold = rw_PlatformModelCbFailureThreshold row,
     rs_PlatformModelCbDurationMin = rw_PlatformModelCbDurationMin row,
     rs_PlatformModelCbWindowMin = rw_PlatformModelCbWindowMin row,
     rs_ModelCbFailureThreshold = rw_ModelCbFailureThreshold row,
     rs_ModelCbDurationMin = rw_ModelCbDurationMin row,
     rs_ModelCbWindowMin = rw_ModelCbWindowMin row,
     rs_UpstreamProbeGranted = False,
     rs_ModelProbeGranted = False\<rparr>"

section \<open>Keys\<close>

definition parseAPIKeysConfig :: "'s route_env \<Rightarrow> string \<Rightarrow> api_keys_config option" where
  "parseAPIKeysConfig env encrypted =
     (case re_decrypt env encrypted of None \<Rightarrow> None
      | Some plain \<Rightarrow>
        (let raw = trim_space plain in
         if raw = [] then Some \<lparr>kc_Strategy = [], kc_Keys = []\<rparr> else re_unmarshalKeys env raw))"

definition nextLocalAPIKeyIndex :: "nat \<Rightarrow> 's router \<Rightarrow> nat \<times> 's router" where
  "nextLocalAPIKeyIndex u st =
     (let n = map_get (ro_localKeyCounters st) 0 u in
      (n, st\<lparr>ro_localKeyCounters := (ro_localKeyCounters st)(u \<mapsto> (n + 1) mod 2 ^ 64)\<rparr>))"

definition nextAPIKeyIndex :: "'s route_env \<Rightarrow> nat \<Rightarrow> 's router \<Rightarrow> nat \<times> 's router" where
  "nextAPIKeyIndex env u st =
     (if u = 0 then rand_Intn env 1024 st
      else case re_cache env of
          None \<Rightarrow> nextLocalAPIKeyIndex u st
        | Some cc \<Rightarrow>
            (let (now, st1) = tick env st;
                 ((idx, ok), s') = cc_IncrKeyCounter cc now u (ro_cache st1);
                 st2 = st1\<lparr>ro_cache := s'\<rparr>
             in if ok then (nat (idx mod 2 ^ 64), st2) else nextLocalAPIKeyIndex u st2))"

definition active_keys :: "api_key list \<Rightarrow> api_key list" where
  "active_keys entries = filter (\<lambda>e. (ak_Status e = [] \<or> ak_Status e = ''active'') \<and> trim_space (ak_Key e) \<noteq> []) entries"

definition pickActiveKey ::
  "'s route_env \<Rightarrow> nat \<Rightarrow> api_key list \<Rightarrow> string \<Rightarrow> 's router \<Rightarrow> (channel_error + string) \<times> 's router" where
  "pickActiveKey env u entries strategy st =
     (let active = active_keys entries in
      if active = [] then (Inl ErrNoActiveKey, st)
      else if trim_space strategy = ''failover'' then (Inr (ak_Key (hd active)), st)
      else if trim_space strategy = ''round_robin'' then
        (let (idx, st') = nextAPIKeyIndex env u st in (Inr (ak_Key (active ! (idx mod length active))), st'))
      else (let (i, st') = rand_Intn env (length active) st in (Inr (ak_Key (active ! i)), st')))"

definition selectAPIKey ::
  "'s route_env \<Rightarrow> nat \<Rightarrow> api_keys_config \<Rightarrow> 's router \<Rightarrow> (channel_error + string) \<times> 's router" where
  "selectAPIKey env u cfg st =
     (if kc_Keys cfg = [] then (Inl ErrNoActiveKey, st)
      else pickActiveKey env u (kc_Keys cfg) (kc_Strategy cfg) st)"

section \<open>Resolving a route\<close>

definition routeRateLimitBackoff :: "'s route_env \<Rightarrow> nat \<Rightarrow> nat \<Rightarrow> 's router \<Rightarrow> duration \<times> 's router" where
  "routeRateLimitBackoff env u r st =
     (case re_cache env of None \<Rightarrow> (0, st)
      | Some cc \<Rightarrow>
        if u = 0 \<or> r = 0 then (0, st)
        else (let (now, st1) = tick env st; (res, s') = cc_GetBackoff cc now u r (ro_cache st1)
              in (case res of Inl e \<Rightarrow> 0 | Inr remaining \<Rightarrow> remaining, st1\<lparr>ro_cache := s'\<rparr>)))"

definition checkUpstreamCircuitState ::
  "'s route_env \<Rightarrow> 's channel_cache \<Rightarrow> nat \<Rightarrow> 's router \<Rightarrow> (string + string) \<times> 's router" where
  "checkUpstreamCircuitState env cc u st =
     (let (now, st1) = tick env st; (res, s') = cc_CheckUpstream cc now u (ro_cache st1)
      in (res, st1\<lparr>ro_cache := s'\<rparr>))"

definition checkModelCircuitState ::
  "'s route_env \<Rightarrow> 's channel_cache \<Rightarrow> nat \<Rightarrow> string \<Rightarrow> 's router \<Rightarrow> (string + string) \<times> 's router" where
  "checkModelCircuitState env cc u k st =
     (let (now, st1) = tick env st; (res, s') = cc_CheckModel cc now u k (ro_cache st1)
      in (res, st1\<lparr>ro_cache := s'\<rparr>))"

definition releaseUpstreamProbe :: "'s channel_cache \<Rightarrow> nat \<Rightarrow> 's router \<Rightarrow> 's router" where
  "releaseUpstreamProbe cc u st = st\<lparr>ro_cache := cc_ReleaseProbes cc u [] (ro_cache st)\<rparr>"

text \<open>
  One round of the inner loop on a chosen candidate. \<open>Inl None\<close> removes it and goes on, \<open>Inl (Some e)\<close>
  ends with an error, \<open>Inr\<close> with a route. \<open>cco\<close> is the cache when the breaker is enabled.
\<close>

definition blocked_state :: "string \<Rightarrow> bool" where
  "blocked_state v \<longleftrightarrow> v = ''open'' \<or> v = ''half_open_denied''"

definition try_candidate ::
  "'s route_env \<Rightarrow> 's channel_cache option \<Rightarrow> candidate \<Rightarrow> 's router \<Rightarrow> (channel_error option + resolved_route) \<times> 's router" where
  "try_candidate env cco c st =
     (let row = fst c; u = rw_UpstreamID row; route = buildResolvedRoute env row (snd c) in
      case cco of
        None \<Rightarrow> (Inr route, st)
      | Some cc \<Rightarrow>
        (case checkUpstreamCircuitState env cc u st of
           (Inl e, st1) \<Rightarrow> (Inl (Some (RepositoryError e)), st1)
         | (Inr upstreamState, st1) \<Rightarrow>
           if blocked_state upstreamState then (Inl None, st1)
           else (let granted = (upstreamState = ''half_open_granted'');
                     release = (\<lambda>st. if granted then releaseUpstreamProbe cc u st else st)
                 in case checkModelCircuitState env cc u (bindingCircuitKey (rw_BindingCode row)) st1 of
                     (Inl e, st2) \<Rightarrow> (Inl (Some (RepositoryError e)), release st2)
                   | (Inr modelState, st2) \<Rightarrow>
                       if blocked_state modelState then (Inl None, release st2)
                       else (Inr (route\<lparr>rs_UpstreamProbeGranted := granted,
                               rs_ModelProbeGranted := (modelState = ''half_open_granted'')\<rparr>), st2))))"

lemma weighted_index_less: "rows \<noteq> [] \<Longrightarrow> weighted_index n rows < length rows"
proof -
  have p: "pick_cumulative r cum i cs = Some j \<Longrightarrow> j < i + length cs" for r cum i cs j
    by (induction cs arbitrary: cum i) (fastforce simp: Let_def split: if_splits)+
  assume "rows \<noteq> []"
  then show ?thesis using p [of _ 0 0 rows] by (auto simp: weighted_index_def Let_def split: option.splits)
qed

lemma removeCandidate_less:
  assumes "c \<in> set cs"
  shows "length (removeCandidate cs (rw_UpstreamID (fst c)) (rw_UpstreamModelID (fst c))) < length cs"
  unfolding removeCandidate_def using assms by (intro length_filter_less) auto

text \<open>The loop over the candidates of a priority group; \<open>None\<close> when none is left.\<close>

function try_candidates ::
  "'s route_env \<Rightarrow> 's channel_cache option \<Rightarrow> candidate list \<Rightarrow> 's router \<Rightarrow> (channel_error + resolved_route) option \<times> 's router" where
  "try_candidates env cco cs st =
     (if cs = [] then (None, st)
      else (let c = cs ! weighted_index (re_rand env (ro_draws st)) cs;
                st0 = st\<lparr>ro_draws := Suc (ro_draws st)\<rparr>
            in case try_candidate env cco c st0 of
                (Inr route, st1) \<Rightarrow> (Some (Inr route), st1)
              | (Inl (Some e), st1) \<Rightarrow> (Some (Inl e), st1)
              | (Inl None, st1) \<Rightarrow> try_candidates env cco
                  (removeCandidate cs (rw_UpstreamID (fst c)) (rw_UpstreamModelID (fst c))) st1))"
  by pat_completeness auto
termination
  by (relation "measure (\<lambda>(env, cco, cs, st). length cs)")
    (auto intro: removeCandidate_less simp: weighted_index_less)

declare try_candidates.simps [simp del]

text \<open>The rows of one group that can serve at all, with the key picked for each.\<close>

definition usable_row :: "'s route_env \<Rightarrow> route_row \<Rightarrow> bool" where
  "usable_row env row \<longleftrightarrow>
     \<not> (rw_UpstreamModelID row = 0 \<or> trim_space (rw_BindingCode row) = [] \<or> trim_space (rw_UpstreamModelName row) = []) \<and>
     IsImplementedAdapter (rw_Protocol row) \<and> re_validURL env (rw_BaseURL row)"

fun collect_group ::
  "'s route_env \<Rightarrow> route_row list \<Rightarrow> duration \<Rightarrow> 's router \<Rightarrow> candidate list \<times> duration \<times> 's router" where
  "collect_group env [] shortest st = ([], shortest, st)"
| "collect_group env (row # rows) shortest st =
     (if \<not> usable_row env row then collect_group env rows shortest st
      else (let (remaining, st1) = routeRateLimitBackoff env (rw_UpstreamID row) (rw_RouteID row) st in
        if 0 < remaining then
          collect_group env rows (if shortest = 0 \<or> remaining < shortest then remaining else shortest) st1
        else case parseAPIKeysConfig env (rw_APIKeysEnc row) of
            None \<Rightarrow> collect_group env rows shortest st1
          | Some cfg \<Rightarrow>
              (case selectAPIKey env (rw_UpstreamID row) cfg st1 of
                 (Inl e, st2) \<Rightarrow> collect_group env rows shortest st2
               | (Inr key, st2) \<Rightarrow>
                   (let (cands, shortest', st3) = collect_group env rows shortest st2
                    in ((row, key) # cands, shortest', st3)))))"

text \<open>The outer loop: the rows come sorted, so each group is a maximal prefix of equal priority.\<close>

function resolve_groups ::
  "'s route_env \<Rightarrow> 's channel_cache option \<Rightarrow> route_row list \<Rightarrow> duration \<Rightarrow> 's router \<Rightarrow> (channel_error + resolved_route) \<times> 's router" where
  "resolve_groups env cco [] shortest st =
     (if 0 < shortest then (Inl (RoutesRateLimitedError shortest), st) else (Inl ErrAllRoutesUnavailable, st))"
| "resolve_groups env cco (row # rows) shortest st =
     (let same = (\<lambda>r. rw_RoutePriority r = rw_RoutePriority row);
          (cands, shortest', st1) = collect_group env (row # takeWhile same rows) shortest st
      in case try_candidates env cco cands st1 of
          (Some res, st2) \<Rightarrow> (res, st2)
        | (None, st2) \<Rightarrow> resolve_groups env cco (dropWhile same rows) shortest' st2)"
  by pat_completeness auto
termination
  by (relation "measure (\<lambda>(env, cco, rows, shortest, st). length rows)")
    (auto simp: less_Suc_eq_le length_dropWhile_le)

record route_input =
  ri_PlatformModelName :: string
  ri_TaskType :: string
  ri_Scope :: string
  ri_UserID :: nat
  ri_ExcludedRouteIDs :: "nat list"

definition available_rows :: "'s route_env \<Rightarrow> route_input \<Rightarrow> route_row list \<Rightarrow> route_row list" where
  "available_rows env inp rows = filter (\<lambda>row. rw_RouteID row \<notin> makeRouteIDSet (ri_ExcludedRouteIDs inp) \<and>
     IsRouteAllowedForTask (ri_TaskType inp) (parseKinds (re_unmarshalKinds env) (rw_ModelKindsJSON row))
       (rw_Protocol row)) rows"

definition ResolveRoute ::
  "'s route_env \<Rightarrow> route_repo \<Rightarrow> route_input \<Rightarrow> 's router \<Rightarrow> (channel_error + resolved_route) \<times> 's router" where
  "ResolveRoute env repo inp st0 =
     (let (cco, st) = (case re_cache env of None \<Rightarrow> (None, st0)
            | Some cc \<Rightarrow> (let (cfg, st) = loadBreakerDefaults env repo st0
                          in (if bd_Enabled cfg then Some cc else None, st)))
      in case normalizePlatformModelName (ri_PlatformModelName inp) of
          Inl e \<Rightarrow> (Inl ErrModelNotFound, st)
        | Inr name \<Rightarrow>
          (case rp_ActiveModel repo name of
             Inl e \<Rightarrow> (Inl e, st)
           | Inr (modelID, accessScope) \<Rightarrow>
             if \<not> routeScopeAllowsModelAccess (ri_Scope inp) accessScope then (Inl ErrModelAccessDenied, st)
             else (case (if normalizeRouteScope (ri_Scope inp) = ''user'' \<and> 0 < ri_UserID inp
                         then isModelAccessible (rp_Permissions repo) modelID (ri_UserID inp) else Inr True) of
                 Inl e \<Rightarrow> (Inl e, st)
               | Inr False \<Rightarrow> (Inl ErrModelAccessDenied, st)
               | Inr True \<Rightarrow>
                 (case rp_ActiveRoutes repo name of
                    Inl e \<Rightarrow> (Inl e, st)
                  | Inr rows \<Rightarrow>
                    if rows = [] then (Inl ErrRouteNotFound, st)
                    else (let available = available_rows env inp rows in
                      if available = [] then (Inl ErrAllRoutesUnavailable, st)
                      else resolve_groups env cco available 0 st)))))"

section \<open>Failures\<close>

text \<open>
  Error values: a node and the errors it wraps, in the order \<open>errors.Is\<close> and \<open>errors.As\<close> visit
  them. \<open>context.DeadlineExceeded\<close> is itself a \<open>net.Error\<close>; \<open>NodeNet\<close> is any other.
\<close>

record upstream_error =
  ue_StatusCode :: int
  ue_DebugHeaders :: "(string \<times> string) list option"  \<comment> \<open>\<open>Debug.Response.Headers\<close> in range order; \<open>None\<close> without \<open>Debug\<close>\<close>

datatype error_node = NodeCanceled | NodeDeadlineExceeded | NodeEOF | NodeUnexpectedEOF
  | NodeUpstream upstream_error | NodeAccepted | NodeNet | NodeOther string

datatype go_error = GoError error_node "go_error list"

fun error_nodes :: "go_error \<Rightarrow> error_node list" where
  "error_nodes (GoError n es) = n # concat (map error_nodes es)"

definition errors_is :: "error_node \<Rightarrow> go_error \<Rightarrow> bool" where
  "errors_is target e = List.member (error_nodes e) target"

fun first_upstream :: "error_node list \<Rightarrow> upstream_error option" where
  "first_upstream [] = None"
| "first_upstream (NodeUpstream u # ns) = Some u"
| "first_upstream (n # ns) = first_upstream ns"

definition as_upstream :: "go_error \<Rightarrow> upstream_error option" where
  "as_upstream e = first_upstream (error_nodes e)"

definition as_net :: "go_error \<Rightarrow> bool" where
  "as_net e \<longleftrightarrow> errors_is NodeNet e \<or> errors_is NodeDeadlineExceeded e"

definition RequestWasAccepted :: "go_error \<Rightarrow> bool" where
  "RequestWasAccepted e = errors_is NodeAccepted e"

datatype route_failure_class = RouteFailureCircuit | RouteFailureRateLimit | RouteFailureIgnore

definition isRateLimitFailure :: "go_error \<Rightarrow> bool" where
  "isRateLimitFailure e = (case as_upstream e of None \<Rightarrow> False | Some u \<Rightarrow> ue_StatusCode u = 429)"

definition isIgnorableFailure :: "go_error \<Rightarrow> bool" where
  "isIgnorableFailure e = (case as_upstream e of None \<Rightarrow> False
     | Some u \<Rightarrow> 400 \<le> ue_StatusCode u \<and> ue_StatusCode u < 500 \<and> ue_StatusCode u \<noteq> 429)"

definition isCircuitFailure :: "go_error \<Rightarrow> bool" where
  "isCircuitFailure e = (case as_upstream e of Some u \<Rightarrow> 500 \<le> ue_StatusCode u
     | None \<Rightarrow> if errors_is NodeDeadlineExceeded e then True else as_net e)"

definition matchesFailureRule :: "string list \<Rightarrow> string \<Rightarrow> bool" where
  "matchesFailureRule rules target = list_ex (\<lambda>rule. norm_name rule = norm_name target) rules"

definition classifyRouteFailure :: "error_classification \<Rightarrow> go_error option \<Rightarrow> route_failure_class" where
  "classifyRouteFailure rules cause =
     (case cause of None \<Rightarrow> RouteFailureIgnore
      | Some e \<Rightarrow>
        if errors_is NodeCanceled e then RouteFailureIgnore
        else if isRateLimitFailure e \<and> matchesFailureRule (ec_RateLimitErrors rules) ''429'' then RouteFailureRateLimit
        else if isIgnorableFailure e \<and> matchesFailureRule (ec_IgnoreErrors rules) ''4xx'' then RouteFailureIgnore
        else if isCircuitFailure e \<and> (matchesFailureRule (ec_CircuitErrors rules) ''5xx'' \<or>
            matchesFailureRule (ec_CircuitErrors rules) ''timeout'' \<or>
            matchesFailureRule (ec_CircuitErrors rules) ''connection_error'') then RouteFailureCircuit
        else RouteFailureCircuit)"

definition ShouldFailoverRoute :: "go_error option \<Rightarrow> bool" where
  "ShouldFailoverRoute cause =
     (case cause of None \<Rightarrow> False
      | Some e \<Rightarrow>
        if errors_is NodeCanceled e \<or> RequestWasAccepted e then False
        else case as_upstream e of
            Some u \<Rightarrow> ue_StatusCode u = 408 \<or> ue_StatusCode u = 429 \<or> 500 \<le> ue_StatusCode u
          | None \<Rightarrow> if errors_is NodeDeadlineExceeded e \<or> errors_is NodeEOF e \<or> errors_is NodeUnexpectedEOF e
                    then True else as_net e)"

text \<open>\<open>strconv.Atoi\<close>: \<open>None\<close> on a syntax or range error.\<close>

definition atoi :: "string \<Rightarrow> int option" where
  "atoi s =
     (let (neg, ds) = (case s of
          c # t \<Rightarrow> if c = CHR ''-'' then (True, t) else if c = CHR ''+'' then (False, t) else (False, s)
        | [] \<Rightarrow> (False, []));
          n = (if neg then - int (read_nat ds) else int (read_nat ds))
      in if ds = [] \<or> \<not> list_all is_digit ds \<or> \<not> in_int64 n then None else Some n)"

definition upstreamRetryAfterSeconds :: "(string \<Rightarrow> gotime option) \<Rightarrow> go_error option \<Rightarrow> gotime \<Rightarrow> int" where
  "upstreamRetryAfterSeconds parseTime cause now =
     (case Option.bind (Option.bind cause as_upstream) ue_DebugHeaders of
        None \<Rightarrow> 0
      | Some headers \<Rightarrow>
        (let raw = (case List.find (\<lambda>(k, v). equal_fold_ascii (trim_space k) ''Retry-After'') headers of
              None \<Rightarrow> [] | Some (k, v) \<Rightarrow> trim_space v)
         in if raw = [] then 0
            else case atoi raw of
                Some seconds \<Rightarrow> max seconds 0
              | None \<Rightarrow>
                (case parseTime raw of
                   None \<Rightarrow> 0
                 | Some retryAt \<Rightarrow> if \<not> now < retryAt then 0 else go_div (retryAt - now + second - 1) second)))"

definition routeFailureSummary :: "go_error option \<Rightarrow> string" where
  "routeFailureSummary cause =
     (case cause of None \<Rightarrow> []
      | Some e \<Rightarrow>
        if errors_is NodeDeadlineExceeded e then ''upstream request timed out''
        else case as_upstream e of
            Some u \<Rightarrow> if 0 < ue_StatusCode u then ''upstream request failed with status '' @ format_int (ue_StatusCode u)
                      else ''upstream request failed''
          | None \<Rightarrow> ''upstream request failed'')"

section \<open>Outcomes\<close>

definition releaseGrantedRouteProbes :: "'s channel_cache \<Rightarrow> resolved_route \<Rightarrow> 's router \<Rightarrow> 's router" where
  "releaseGrantedRouteProbes cc route st =
     (if rs_UpstreamID route = 0 then st
      else (let st1 = (if rs_UpstreamProbeGranted route then releaseUpstreamProbe cc (rs_UpstreamID route) st else st);
                k = routeModelCircuitKey route
            in if rs_ModelProbeGranted route \<and> k \<noteq> []
               then st1\<lparr>ro_cache := cc_ReleaseProbes cc (rs_UpstreamID route) k (ro_cache st1)\<rparr> else st1))"

definition MarkRouteSuccess :: "'s route_env \<Rightarrow> resolved_route \<Rightarrow> 's router \<Rightarrow> 's router" where
  "MarkRouteSuccess env route st =
     (case re_cache env of None \<Rightarrow> st
      | Some cc \<Rightarrow>
        if rs_UpstreamID route = 0 then st
        else (let u = rs_UpstreamID route; k = routeModelCircuitKey route;
                  s1 = cc_ClearBackoff cc u (rs_RouteID route) (ro_cache st);
                  s2 = (if rs_UpstreamProbeGranted route then cc_ClearUpstream cc u s1 else s1);
                  s3 = (if rs_ModelProbeGranted route \<and> k \<noteq> [] then cc_ClearModel cc u k s2 else s2);
                  (now, st1) = tick env (st\<lparr>ro_cache := s3\<rparr>)
              in st1\<lparr>ro_cache := cc_RecordSuccessMetadata cc now u (ro_cache st1)\<rparr>))"

definition resolveModelCircuitValue :: "bool \<Rightarrow> int \<Rightarrow> int \<Rightarrow> int \<Rightarrow> int" where
  "resolveModelCircuitValue platformModelPolicyEnforced routeValue platformValue defaultValue =
     (let v = (if platformModelPolicyEnforced \<or> routeValue \<le> 0 then platformValue else routeValue)
      in if v \<le> 0 then defaultValue else v)"

definition or_default :: "int \<Rightarrow> int \<Rightarrow> int" where
  "or_default v d = (if v \<le> 0 then d else v)"

definition circuit_failure_of ::
  "route_repo \<Rightarrow> resolved_route \<Rightarrow> breaker_defaults \<Rightarrow> circuit_failure_input" where
  "circuit_failure_of repo route defaults =
     (let k = routeModelCircuitKey route;
          enforced = (normalizeModelCircuitPolicyMode (rs_PlatformModelCbPolicyMode route) = ''enforced'');
          threshold = resolveModelCircuitValue enforced (rs_ModelCbFailureThreshold route)
            (rs_PlatformModelCbFailureThreshold route) (bd_ModelFailureThreshold defaults);
          windowMin = resolveModelCircuitValue enforced (rs_ModelCbWindowMin route)
            (rs_PlatformModelCbWindowMin route) (bd_ModelWindowMin defaults);
          durationMin = resolveModelCircuitValue enforced (rs_ModelCbDurationMin route)
            (rs_PlatformModelCbDurationMin route) (bd_ModelDurationMin defaults);
          logic = (if trim_space (rs_UpstreamCbThresholdLogic route) = []
                   then normalizeCbLogic (bd_UpstreamThresholdLogic defaults)
                   else normalizeCbLogic (rs_UpstreamCbThresholdLogic route));
          activeModelKeys = (case rp_BindingCodes repo (rs_UpstreamID route) of
              Inl e \<Rightarrow> [k]
            | Inr codes \<Rightarrow> if bindingCircuitKeys codes = [] then [k] else bindingCircuitKeys codes)
      in \<lparr>cfi_UpstreamID = rs_UpstreamID route, cfi_ModelKey = k,
          cfi_ModelWindowSec = wrap64 (windowMin * 60),
          cfi_ModelFailureThreshold = threshold,
          cfi_ModelDurationSec = wrap64 (durationMin * 60),
          cfi_UpstreamWindowSec = wrap64 (or_default (rs_UpstreamCbWindowMin route) (bd_UpstreamWindowMin defaults) * 60),
          cfi_UpstreamFailureThreshold = or_default (rs_UpstreamCbFailureThreshold route) (bd_UpstreamFailureThreshold defaults),
          cfi_UpstreamModelThreshold = or_default (rs_UpstreamCbModelThreshold route) (bd_UpstreamModelThreshold defaults),
          cfi_UpstreamThresholdLogic = logic,
          cfi_UpstreamDurationSec = wrap64 (or_default (rs_UpstreamCbDurationMin route) (bd_UpstreamDurationMin defaults) * 60),
          cfi_ActiveModelKeys = activeModelKeys\<rparr>)"

definition recordCircuitFailure ::
  "'s route_env \<Rightarrow> route_repo \<Rightarrow> 's channel_cache \<Rightarrow> resolved_route \<Rightarrow> breaker_defaults \<Rightarrow> 's router \<Rightarrow> 's router" where
  "recordCircuitFailure env repo cc route defaults st =
     (if rs_UpstreamID route = 0 \<or> routeModelCircuitKey route = [] then st
      else (let (now, st1) = tick env st
            in st1\<lparr>ro_cache := cc_RecordCircuitFailure cc now (circuit_failure_of repo route defaults) (ro_cache st1)\<rparr>))"

definition recordRateLimitBackoff ::
  "'s route_env \<Rightarrow> route_repo \<Rightarrow> 's channel_cache \<Rightarrow> resolved_route \<Rightarrow> go_error option \<Rightarrow> 's router \<Rightarrow> 's router" where
  "recordRateLimitBackoff env repo cc route cause st =
     (if rs_UpstreamID route = 0 \<or> rs_RouteID route = 0 then st
      else (let defaults = rp_RateLimitDefaults repo; (now, st1) = tick env st; (now', st2) = tick env st1;
                params = \<lparr>bp_UpstreamID = rs_UpstreamID route, bp_RouteID = rs_RouteID route,
                  bp_BackoffBaseSec = rd_BackoffBaseSec defaults, bp_BackoffMaxSec = rd_BackoffMaxSec defaults,
                  bp_BackoffMultiplier = rd_BackoffMultiplier defaults,
                  bp_RetryAfterSec = upstreamRetryAfterSeconds (re_parseTime env) cause now\<rparr>
            in st2\<lparr>ro_cache := cc_RecordBackoff cc now' params (ro_cache st2)\<rparr>))"

definition MarkRouteFailure ::
  "'s route_env \<Rightarrow> route_repo \<Rightarrow> resolved_route \<Rightarrow> go_error option \<Rightarrow> 's router \<Rightarrow> 's router" where
  "MarkRouteFailure env repo route cause st0 =
     (case re_cache env of None \<Rightarrow> st0
      | Some cc \<Rightarrow>
        if rs_UpstreamID route = 0 then st0
        else (let (now, st1) = tick env st0;
                  st = st1\<lparr>ro_cache := cc_RecordFailureMetadata cc now (rs_UpstreamID route)
                    (routeFailureSummary cause) (ro_cache st1)\<rparr>
              in case classifyRouteFailure (rp_Classification repo) cause of
                  RouteFailureIgnore \<Rightarrow> releaseGrantedRouteProbes cc route st
                | RouteFailureRateLimit \<Rightarrow>
                    recordRateLimitBackoff env repo cc route cause (releaseGrantedRouteProbes cc route st)
                | RouteFailureCircuit \<Rightarrow>
                    (let (defaults, st2) = loadBreakerDefaults env repo st in
                     if \<not> bd_Enabled defaults then releaseGrantedRouteProbes cc route st2
                     else recordCircuitFailure env repo cc route defaults st2)))"

end
