(* ===== verification/Route_Guarantees.thy ===== *)
theory Route_Guarantees
  imports Channel_Routing
begin

text \<open>
  What routing guarantees: exact weighted sharing, no leaked probes, priorities, no route through an
  open circuit, and the effect of failures on the breaker.
\<close>

section \<open>Weighted choice\<close>

text \<open>As long as the weights of a group add up to a Go \<open>int\<close>, nothing wraps.\<close>

definition weight_sum :: "candidate list \<Rightarrow> int" where
  "weight_sum cs = sum_list (map effective_weight cs)"

lemma effective_weight_pos: "0 < effective_weight c"
  by (simp add: effective_weight_def)

lemma weight_sum_simps [simp]:
  "weight_sum [] = 0" "weight_sum (c # cs) = effective_weight c + weight_sum cs"
  by (simp_all add: weight_sum_def)

lemma weight_sum_nonneg: "0 \<le> weight_sum cs"
  using effective_weight_pos by (induction cs) (auto intro: add_nonneg_nonneg less_imp_le)

lemma total_weight_exact:
  "0 \<le> acc \<Longrightarrow> acc + weight_sum cs \<le> max_int64 \<Longrightarrow> total_weight acc cs = acc + weight_sum cs"
proof (induction acc cs rule: total_weight.induct)
  case (2 acc c cs)
  have "wrap64 (acc + effective_weight c) = acc + effective_weight c"
    using 2 effective_weight_pos [of c] weight_sum_nonneg [of cs]
    by (intro wrap64_id) (simp add: int64_defs)
  then show ?case using 2 effective_weight_pos [of c] by simp
qed simp

lemma pick_cumulative_iff:
  "0 \<le> cum \<Longrightarrow> cum + weight_sum cs \<le> max_int64 \<Longrightarrow> cum \<le> r \<Longrightarrow>
     pick_cumulative r cum i cs = Some (i + j) \<longleftrightarrow>
       j < length cs \<and> cum + weight_sum (take j cs) \<le> r \<and> r < cum + weight_sum (take (Suc j) cs)"
proof (induction r cum i cs arbitrary: j rule: pick_cumulative.induct)
  case (2 r cum i c cs)
  let ?cum = "cum + effective_weight c"
  note w = effective_weight_pos [of c]
  have e: "wrap64 ?cum = ?cum"
    using 2 w weight_sum_nonneg [of cs] by (intro wrap64_id) (simp add: int64_defs)
  show ?case
  proof (cases "r < ?cum")
    case True
    have "cum + (effective_weight c + weight_sum (take k cs)) \<le> r \<Longrightarrow> False" for k
      using True weight_sum_nonneg [of "take k cs"] by linarith
    then show ?thesis using True e "2.prems" by (cases j) (auto simp: Let_def)
  next
    case False
    then have ih: "pick_cumulative r ?cum (Suc i) cs = Some (Suc i + k) \<longleftrightarrow>
        k < length cs \<and> ?cum + weight_sum (take k cs) \<le> r \<and> r < ?cum + weight_sum (take (Suc k) cs)" for k
      using "2.IH" [of ?cum k] e "2.prems" w by (simp add: algebra_simps)
    have ge: "pick_cumulative r cm m xs = Some n \<Longrightarrow> m \<le> n" for cm m xs n
      by (induction xs arbitrary: cm m) (fastforce simp: Let_def split: if_splits)+
    show ?thesis
    proof (cases j)
      case 0
      then show ?thesis using False e ge [of ?cum "Suc i" cs i] by (auto simp: Let_def)
    next
      case (Suc k)
      then show ?thesis using ih [of k] False e by (simp add: Let_def algebra_simps)
    qed
  qed
qed simp

lemma weighted_index_iff:
  assumes "cs \<noteq> []" and "weight_sum cs \<le> max_int64" and "int n < weight_sum cs"
  shows "weighted_index n cs = j \<longleftrightarrow>
     j < length cs \<and> weight_sum (take j cs) \<le> int n \<and> int n < weight_sum (take (Suc j) cs)"
proof -
  have t: "total_weight 0 cs = weight_sum cs" using total_weight_exact [of 0 cs] assms(2) by simp
  have pos: "0 < weight_sum cs" using assms(3) by linarith
  have m: "int (n mod nat (weight_sum cs)) = int n" using assms(3) by simp
  note iff = pick_cumulative_iff [of 0 cs "int n" 0, simplified, OF assms(2)]
  show ?thesis
  proof (cases "pick_cumulative (int n) 0 0 cs")
    case (Some i)
    then show ?thesis using iff [of j] pos by (auto simp: weighted_index_def t m Let_def)
  next
    case None
    have "\<exists>i < length xs. weight_sum (take i xs) \<le> x \<and> x < weight_sum (take (Suc i) xs)"
      if "0 \<le> x" "x < weight_sum xs" for x xs
      using that
    proof (induction xs arbitrary: x)
      case (Cons c xs)
      show ?case
      proof (cases "x < effective_weight c")
        case True
        then show ?thesis using Cons.prems by (intro exI [of _ 0]) simp
      next
        case False
        then obtain i where "i < length xs" "weight_sum (take i xs) \<le> x - effective_weight c"
          "x - effective_weight c < weight_sum (take (Suc i) xs)"
          using Cons.IH [of "x - effective_weight c"] Cons.prems by auto
        then show ?thesis by (intro exI [of _ "Suc i"]) (simp add: algebra_simps)
      qed
    qed simp
    from this [of "int n" cs] assms(3) obtain i where "pick_cumulative (int n) 0 0 cs = Some i" using iff by auto
    then show ?thesis using None by simp
  qed
qed

lemma weight_sum_take_Suc: "j < length cs \<Longrightarrow> weight_sum (take (Suc j) cs) = weight_sum (take j cs) + effective_weight (cs ! j)"
  by (simp add: take_Suc_conv_app_nth weight_sum_def)

lemma weight_sum_take_le: "weight_sum (take j cs) \<le> weight_sum cs"
proof -
  have "weight_sum cs = weight_sum (take j cs) + weight_sum (drop j cs)"
    using append_take_drop_id [of j cs] by (metis weight_sum_def map_append sum_list_append)
  then show ?thesis using weight_sum_nonneg [of "drop j cs"] by linarith
qed

text \<open>
  Weighted load balancing is exact. Among the equally likely random numbers below
  the total weight of a group, the number that select a candidate is the candidate's weight (100
  for a weight that is not positive).
\<close>

theorem weighted_share:
  assumes "weight_sum cs \<le> max_int64" and "j < length cs"
  shows "card {n. int n < weight_sum cs \<and> weighted_index n cs = j} = nat (effective_weight (cs ! j))"
proof -
  let ?a = "nat (weight_sum (take j cs))" and ?b = "nat (weight_sum (take (Suc j) cs))"
  have "cs \<noteq> []" using assms(2) by auto
  have "(int n < weight_sum cs \<and> weighted_index n cs = j) = (?a \<le> n \<and> n < ?b)" for n
  proof (cases "int n < weight_sum cs")
    case True
    show ?thesis using weighted_index_iff [OF \<open>cs \<noteq> []\<close> assms(1) True, of j] assms(2) True
      by (simp add: nat_le_iff zless_nat_eq_int_zless)
  next
    case False
    then show ?thesis using weight_sum_take_le [of "Suc j" cs] by (simp add: zless_nat_eq_int_zless)
  qed
  then have "{n. int n < weight_sum cs \<and> weighted_index n cs = j} = {?a..<?b}"
    by (simp add: set_eq_iff)
  then show ?thesis using weight_sum_take_Suc [OF assms(2)] effective_weight_pos [of "cs ! j"]
    by (simp add: nat_add_distrib weight_sum_nonneg)
qed

section \<open>What a cache must promise about probes\<close>

text \<open>
  A probe is taken by an answer \<open>half_open_granted\<close> and given back by a release. Counting both is
  possible in every cache: \<open>up s u\<close> and \<open>md s u k\<close> are the probes of an upstream and of a model
  taken and not given back.
\<close>

text \<open>What a result holds: the probes its flags say it was granted.\<close>

definition up_of :: "channel_error + resolved_route \<Rightarrow> nat \<Rightarrow> int" where
  "up_of res v = (case res of Inl e \<Rightarrow> 0
     | Inr route \<Rightarrow> if rs_UpstreamProbeGranted route \<and> rs_UpstreamID route = v then 1 else 0)"

definition md_of :: "channel_error + resolved_route \<Rightarrow> nat \<Rightarrow> string \<Rightarrow> int" where
  "md_of res v k = (case res of Inl e \<Rightarrow> 0
     | Inr route \<Rightarrow> if rs_ModelProbeGranted route \<and> rs_UpstreamID route = v \<and> routeModelCircuitKey route = k then 1 else 0)"

definition holds ::
  "('s \<Rightarrow> nat \<Rightarrow> int) \<Rightarrow> ('s \<Rightarrow> nat \<Rightarrow> string \<Rightarrow> int) \<Rightarrow> 's router \<Rightarrow> channel_error + resolved_route \<Rightarrow> 's router \<Rightarrow> bool" where
  "holds up md st res st' \<longleftrightarrow> (\<forall>v k. up (ro_cache st') v = up (ro_cache st) v + up_of res v \<and>
     md (ro_cache st') v k = md (ro_cache st) v k + md_of res v k)"

lemma holds_error:
  "holds up md st (Inl e) st' \<longleftrightarrow>
     (\<forall>v k. up (ro_cache st') v = up (ro_cache st) v \<and> md (ro_cache st') v k = md (ro_cache st) v k)"
  by (simp add: holds_def up_of_def md_of_def)

lemma holds_trans: "holds up md st (Inl e) st1 \<Longrightarrow> holds up md st1 res st2 \<Longrightarrow> holds up md st res st2"
  by (auto simp: holds_def up_of_def md_of_def)

lemma holds_refl [simp]: "holds up md st (Inl e) st"
  by (simp add: holds_error)

lemma holds_any_error: "holds up md st (Inl e) st' \<Longrightarrow> holds up md st (Inl e') st'"
  by (simp add: holds_error)

lemma build_ids [simp]:
  "rs_UpstreamID (buildResolvedRoute env row key) = rw_UpstreamID row"
  "routeModelCircuitKey (buildResolvedRoute env row key) = bindingCircuitKey (rw_BindingCode row)"
  by (simp_all add: buildResolvedRoute_def routeModelCircuitKey_def bindingCircuitKey_def)

lemma route_key_flags [simp]:
  "routeModelCircuitKey (route\<lparr>rs_UpstreamProbeGranted := a, rs_ModelProbeGranted := b\<rparr>) = routeModelCircuitKey route"
  by (simp add: routeModelCircuitKey_def)

locale probe_accounting =
  fixes cc :: "'s channel_cache" and up :: "'s \<Rightarrow> nat \<Rightarrow> int" and md :: "'s \<Rightarrow> nat \<Rightarrow> string \<Rightarrow> int"
  assumes check_up: "cc_CheckUpstream cc now u s = (r, s') \<Longrightarrow>
      up s' v = up s v + (if v = u \<and> r = Inr ''half_open_granted'' then 1 else 0) \<and> md s' v k = md s v k"
    and check_md: "cc_CheckModel cc now u k s = (r, s') \<Longrightarrow>
      md s' v j = md s v j + (if v = u \<and> j = k \<and> r = Inr ''half_open_granted'' then 1 else 0) \<and> up s' v = up s v"
    and release_up: "up (cc_ReleaseProbes cc u [] s) v = up s v - (if v = u then 1 else 0) \<and>
      md (cc_ReleaseProbes cc u [] s) v k = md s v k"
    and backoff: "cc_GetBackoff cc now u rid s = (d, s') \<Longrightarrow> up s' v = up s v \<and> md s' v k = md s v k"
    and incr: "cc_IncrKeyCounter cc now u s = (n, s') \<Longrightarrow> up s' v = up s v \<and> md s' v k = md s v k"
begin

lemma try_candidate_holds:
  assumes "try_candidate env (Some cc) c st = (r, st')"
  shows "holds up md st (case r of Inl _ \<Rightarrow> Inl ErrRouteNotFound | Inr route \<Rightarrow> Inr route) st'"
proof -
  obtain row key where c: "c = (row, key)" by (cases c)
  let ?u = "rw_UpstreamID row" and ?k = "bindingCircuitKey (rw_BindingCode row)"
  obtain a s1 where a: "cc_CheckUpstream cc (re_clock env (ro_ticks st)) ?u (ro_cache st) = (a, s1)" by fastforce
  obtain b s2 where b: "cc_CheckModel cc (re_clock env (Suc (ro_ticks st))) ?u ?k s1 = (b, s2)" by fastforce
  have a1: "up s1 v = up (ro_cache st) v + (if v = ?u \<and> a = Inr ''half_open_granted'' then 1 else 0)"
    "md s1 v k = md (ro_cache st) v k" for v k using check_up [OF a] by auto
  have b1: "md s2 v j = md s1 v j + (if v = ?u \<and> j = ?k \<and> b = Inr ''half_open_granted'' then 1 else 0)"
    "up s2 v = up s1 v" for v j using check_md [OF b] by auto
  have rel: "up (cc_ReleaseProbes cc ?u [] s2) v = up s2 v - (if v = ?u then 1 else 0)"
    "md (cc_ReleaseProbes cc ?u [] s2) v k = md s2 v k" for v k using release_up by auto
  note e = assms [unfolded try_candidate_def Let_def checkUpstreamCircuitState_def checkModelCircuitState_def tick_def c, simplified, unfolded a, simplified]
  show ?thesis
  proof (cases a)
    case (Inl x)
    then show ?thesis using e a1 by (auto simp: holds_error)
  next
    case (Inr av)
    show ?thesis
    proof (cases "blocked_state av")
      case True
      then show ?thesis using e a1 Inr by (auto simp: holds_error blocked_state_def)
    next
      case False
      show ?thesis
      proof (cases b)
        case Inl2: (Inl x)
        then show ?thesis using e a1 b1 rel Inr False b by (auto simp: holds_error releaseUpstreamProbe_def split: if_splits)
      next
        case Inr2: (Inr bv)
        show ?thesis
        proof (cases "blocked_state bv")
          case True
          then show ?thesis using e a1 b1 rel Inr Inr2 False b
            by (auto simp: holds_error releaseUpstreamProbe_def blocked_state_def split: if_splits)
        next
          case nb: False
          then show ?thesis using e a1 b1 Inr Inr2 False b
            by (auto simp: holds_def up_of_def md_of_def)
        qed
      qed
    qed
  qed
qed

lemma try_candidates_holds:
  "try_candidates env (Some cc) cs st = (r, st') \<Longrightarrow>
     holds up md st (case r of None \<Rightarrow> Inl ErrRouteNotFound | Some res \<Rightarrow> res) st'"
proof (induction cs arbitrary: st rule: length_induct)
  case (1 cs)
  show ?case
  proof (cases "cs = []")
    case True
    then show ?thesis using "1.prems" by (simp add: try_candidates.simps)
  next
    case False
    let ?c = "cs ! weighted_index (re_rand env (ro_draws st)) cs"
    let ?st0 = "st\<lparr>ro_draws := Suc (ro_draws st)\<rparr>"
    obtain t st1 where t: "try_candidate env (Some cc) ?c ?st0 = (t, st1)" by fastforce
    have h: "holds up md st (case t of Inl _ \<Rightarrow> Inl ErrRouteNotFound | Inr route \<Rightarrow> Inr route) st1"
      using try_candidate_holds [OF t] by (simp add: holds_def)
    have e: "try_candidates env (Some cc) cs st =
        (case t of Inr route \<Rightarrow> (Some (Inr route), st1) | Inl (Some e) \<Rightarrow> (Some (Inl e), st1)
         | Inl None \<Rightarrow> try_candidates env (Some cc)
             (removeCandidate cs (rw_UpstreamID (fst ?c)) (rw_UpstreamModelID (fst ?c))) st1)"
      using False t by (simp add: try_candidates.simps [of env "Some cc" cs] Let_def)
    consider route where "t = Inr route" | x where "t = Inl (Some x)" | "t = Inl None"
      by (metis old.sum.exhaust option.exhaust)
    then show ?thesis
    proof cases
      case 1
      then show ?thesis using e "1.prems" h by auto
    next
      case 2
      then show ?thesis using e "1.prems" h by (auto simp: holds_error)
    next
      case 3
      have "length (removeCandidate cs (rw_UpstreamID (fst ?c)) (rw_UpstreamModelID (fst ?c))) < length cs"
        using False by (intro removeCandidate_less nth_mem weighted_index_less)
      then have "holds up md st1 (case r of None \<Rightarrow> Inl ErrRouteNotFound | Some res \<Rightarrow> res) st'"
        using "1.IH" e "1.prems" 3 by auto
      then show ?thesis using h 3 by (auto intro: holds_trans)
    qed
  qed
qed

lemma key_holds: "selectAPIKey env u cfg st = (r, st') \<Longrightarrow> re_cache env = Some cc \<Longrightarrow> holds up md st (Inl e) st'"
  by (auto simp: selectAPIKey_def pickActiveKey_def nextAPIKeyIndex_def nextLocalAPIKeyIndex_def rand_Intn_def
      tick_def Let_def holds_error split: if_splits prod.splits dest: incr)

lemma backoff_holds: "routeRateLimitBackoff env u r st = (d, st') \<Longrightarrow> re_cache env = Some cc \<Longrightarrow> holds up md st (Inl e) st'"
  by (auto simp: routeRateLimitBackoff_def tick_def Let_def holds_error split: if_splits prod.splits dest: backoff)

lemma collect_holds:
  "collect_group env rows shortest st = (cands, shortest', st') \<Longrightarrow> re_cache env = Some cc \<Longrightarrow>
     holds up md st (Inl e) st'"
proof (induction rows arbitrary: shortest st cands shortest')
  case (Cons row rows)
  show ?case
  proof (cases "usable_row env row")
    case False
    then show ?thesis using Cons by simp
  next
    case True
    obtain d st1 where d: "routeRateLimitBackoff env (rw_UpstreamID row) (rw_RouteID row) st = (d, st1)" by fastforce
    note h1 = backoff_holds [OF d Cons.prems(2)]
    show ?thesis
    proof (cases "0 < d \<or> parseAPIKeysConfig env (rw_APIKeysEnc row) = None")
      case True2: True
      then have "holds up md st1 (Inl e) st'" using True d Cons by (auto split: if_splits option.splits)
      then show ?thesis by (rule holds_trans [OF h1])
    next
      case False
      then obtain cfg where cfg: "parseAPIKeysConfig env (rw_APIKeysEnc row) = Some cfg" by auto
      obtain kr st2 where k: "selectAPIKey env (rw_UpstreamID row) cfg st1 = (kr, st2)" by fastforce
      note h2 = key_holds [OF k Cons.prems(2)]
      have "holds up md st2 (Inl e) st'"
      proof (cases kr)
        case (Inl x)
        then show ?thesis using True d False cfg k Cons.prems Cons.IH by auto
      next
        case (Inr key)
        obtain cs' sh' st3 where c: "collect_group env rows shortest st2 = (cs', sh', st3)" by (metis prod_cases3)
        then show ?thesis using Inr True d False cfg k Cons.prems Cons.IH by auto
      qed
      then show ?thesis using h1 h2 by (blast intro: holds_trans)
    qed
  qed
qed simp

lemma groups_holds:
  "resolve_groups env (Some cc) rows shortest st = (res, st') \<Longrightarrow> re_cache env = Some cc \<Longrightarrow> holds up md st res st'"
proof (induction rows arbitrary: shortest st rule: length_induct)
  case (1 rows)
  show ?case
  proof (cases rows)
    case Nil
    then show ?thesis using "1.prems" by (auto split: if_splits)
  next
    case (Cons row rest)
    let ?same = "\<lambda>r. rw_RoutePriority r = rw_RoutePriority row"
    obtain cands sh1 st1 where c: "collect_group env (row # takeWhile ?same rest) shortest st = (cands, sh1, st1)"
      by (metis prod_cases3)
    obtain t st2 where t: "try_candidates env (Some cc) cands st1 = (t, st2)" by fastforce
    have h: "holds up md st (case t of None \<Rightarrow> Inl ErrRouteNotFound | Some res \<Rightarrow> res) st2"
      using collect_holds [OF c "1.prems"(2)] try_candidates_holds [OF t] by (blast intro: holds_trans)
    show ?thesis
    proof (cases t)
      case None
      have "length (dropWhile ?same rest) < length rows" using Cons by (simp add: less_Suc_eq_le length_dropWhile_le)
      moreover have "resolve_groups env (Some cc) (dropWhile ?same rest) sh1 st2 = (res, st')"
        using "1.prems"(1) Cons c t None by (simp add: Let_def)
      ultimately have "holds up md st2 res st'" using "1.IH" "1.prems"(2) by blast
      then show ?thesis using h None by (auto intro: holds_trans)
    next
      case (Some r)
      then show ?thesis using "1.prems"(1) Cons c t h by (simp add: Let_def)
    qed
  qed
qed

lemma groups_holds_off:
  "resolve_groups env None rows shortest st = (res, st') \<Longrightarrow> re_cache env = Some cc \<Longrightarrow> holds up md st res st'"
proof (induction rows arbitrary: shortest st rule: length_induct)
  case (1 rows)
  show ?case
  proof (cases rows)
    case Nil
    then show ?thesis using "1.prems" by (auto split: if_splits)
  next
    case (Cons row rest)
    let ?same = "\<lambda>r. rw_RoutePriority r = rw_RoutePriority row"
    obtain cands sh1 st1 where c: "collect_group env (row # takeWhile ?same rest) shortest st = (cands, sh1, st1)"
      by (metis prod_cases3)
    note h = collect_holds [OF c "1.prems"(2)]
    show ?thesis
    proof (cases "cands = []")
      case True
      have "length (dropWhile ?same rest) < length rows" using Cons by (simp add: less_Suc_eq_le length_dropWhile_le)
      moreover have "resolve_groups env None (dropWhile ?same rest) sh1 st1 = (res, st')"
        using "1.prems"(1) Cons c True by (simp add: Let_def try_candidates.simps)
      ultimately have "holds up md st1 res st'" using "1.IH" "1.prems"(2) by blast
      then show ?thesis using h by (blast intro: holds_trans)
    next
      case False
      have off: "\<not> rs_UpstreamProbeGranted (buildResolvedRoute env row key)"
        "\<not> rs_ModelProbeGranted (buildResolvedRoute env row key)" for row key
        by (simp_all add: buildResolvedRoute_def)
      have "holds up md st1 res st'"
        using "1.prems"(1) Cons c False
        by (auto simp: Let_def try_candidates.simps try_candidate_def holds_def up_of_def md_of_def off)
      then show ?thesis using h by (blast intro: holds_trans)
    qed
  qed
qed

lemma ResolveRoute_holds:
  assumes "ResolveRoute env repo inp st = (res, st')" and "re_cache env = Some cc"
  shows "holds up md st res st'"
proof -
  obtain cfg st1 where l: "loadBreakerDefaults env repo st = (cfg, st1)" by fastforce
  have h: "holds up md st (Inl e) st1" for e
    using l by (auto simp: loadBreakerDefaults_def tick_def Let_def holds_error split: prod.splits)
  let ?cco = "if bd_Enabled cfg then Some cc else None"
  have "(\<exists>e. res = Inl e \<and> st' = st1) \<or> (\<exists>rows. resolve_groups env ?cco rows 0 st1 = (res, st'))"
    using assms l by (auto simp: ResolveRoute_def Let_def split: sum.splits bool.splits if_splits prod.splits)
  then show ?thesis
  proof (elim disjE exE conjE)
    fix e assume "res = Inl e" "st' = st1"
    then show ?thesis using h by simp
  next
    fix rows assume "resolve_groups env ?cco rows 0 st1 = (res, st')"
    then have "holds up md st1 res st'" using groups_holds groups_holds_off assms(2) by (cases "bd_Enabled cfg") auto
    then show ?thesis by (rule holds_trans [OF h])
  qed
qed

end

subsection \<open>A log of what the service asks its cache\<close>

datatype cache_event =
    EvUpstream nat "string + string" | EvModel nat string "string + string" | EvRelease nat string
  | EvFailure circuit_failure_input | EvClearUpstream nat | EvClearModel nat string
  | EvBackoff nat nat "string + duration" | EvRecordBackoff backoff_params | EvClearBackoff nat nat
  | EvFailureMetadata nat string | EvSuccessMetadata nat | EvIncrKey nat

text \<open>Any cache, with the answers and calls written down; it answers exactly what the cache answers.\<close>

definition logged :: "'s channel_cache \<Rightarrow> ('s \<times> cache_event list) channel_cache" where
  "logged cc = \<lparr>
     cc_CheckUpstream = (\<lambda>now u (s, l). let (r, s') = cc_CheckUpstream cc now u s in (r, (s', l @ [EvUpstream u r]))),
     cc_CheckModel = (\<lambda>now u k (s, l). let (r, s') = cc_CheckModel cc now u k s in (r, (s', l @ [EvModel u k r]))),
     cc_RecordCircuitFailure = (\<lambda>now i (s, l). (cc_RecordCircuitFailure cc now i s, l @ [EvFailure i])),
     cc_RecordFailureMetadata = (\<lambda>now u e (s, l). (cc_RecordFailureMetadata cc now u e s, l @ [EvFailureMetadata u e])),
     cc_RecordSuccessMetadata = (\<lambda>now u (s, l). (cc_RecordSuccessMetadata cc now u s, l @ [EvSuccessMetadata u])),
     cc_ClearUpstream = (\<lambda>u (s, l). (cc_ClearUpstream cc u s, l @ [EvClearUpstream u])),
     cc_ClearModel = (\<lambda>u k (s, l). (cc_ClearModel cc u k s, l @ [EvClearModel u k])),
     cc_ReleaseProbes = (\<lambda>u k (s, l). (cc_ReleaseProbes cc u k s, l @ [EvRelease u k])),
     cc_GetBackoff = (\<lambda>now u r (s, l). let (d, s') = cc_GetBackoff cc now u r s in (d, (s', l @ [EvBackoff u r d]))),
     cc_RecordBackoff = (\<lambda>now p (s, l). (cc_RecordBackoff cc now p s, l @ [EvRecordBackoff p])),
     cc_ClearBackoff = (\<lambda>u r (s, l). (cc_ClearBackoff cc u r s, l @ [EvClearBackoff u r])),
     cc_IncrKeyCounter = (\<lambda>now u (s, l). let (n, s') = cc_IncrKeyCounter cc now u s in (n, (s', l @ [EvIncrKey u])))\<rparr>"

fun up_event :: "nat \<Rightarrow> cache_event \<Rightarrow> int" where
  "up_event v (EvUpstream u r) = (if v = u \<and> r = Inr ''half_open_granted'' then 1 else 0)"
| "up_event v (EvRelease u k) = (if v = u \<and> k = [] then -1 else 0)"
| "up_event v _ = 0"

fun md_event :: "nat \<Rightarrow> string \<Rightarrow> cache_event \<Rightarrow> int" where
  "md_event v j (EvModel u k r) = (if v = u \<and> j = k \<and> r = Inr ''half_open_granted'' then 1 else 0)"
| "md_event v j (EvRelease u k) = (if v = u \<and> j = k \<and> k \<noteq> [] then -1 else 0)"
| "md_event v j _ = 0"

text \<open>Probes taken minus probes given back, of an upstream and of one of its models.\<close>

definition up_taken :: "cache_event list \<Rightarrow> nat \<Rightarrow> int" where
  "up_taken l v = sum_list (map (up_event v) l)"

definition md_taken :: "cache_event list \<Rightarrow> nat \<Rightarrow> string \<Rightarrow> int" where
  "md_taken l v k = sum_list (map (md_event v k) l)"

interpretation probe_log: probe_accounting "logged cc" "\<lambda>s. up_taken (snd s)" "\<lambda>s. md_taken (snd s)" for cc
  by unfold_locales (auto simp: logged_def up_taken_def md_taken_def Let_def split: prod.splits)

text \<open>
  C15: routing leaks no probe. Whatever the cache answers (so also when other requests
  change it between the calls), the half-open probes that resolving a route took and did not give
  back are exactly those the returned route carries as granted; an error return holds none.
\<close>

theorem probes_accounted:
  assumes "re_cache env = Some (logged cc)" and "ResolveRoute env repo inp st = (res, st')"
  shows "up_taken (snd (ro_cache st')) v = up_taken (snd (ro_cache st)) v +
        (case res of Inl e \<Rightarrow> 0 | Inr r \<Rightarrow> if rs_UpstreamProbeGranted r \<and> rs_UpstreamID r = v then 1 else 0) \<and>
      md_taken (snd (ro_cache st')) v k = md_taken (snd (ro_cache st)) v k +
        (case res of Inl e \<Rightarrow> 0 | Inr r \<Rightarrow> if rs_ModelProbeGranted r \<and> rs_UpstreamID r = v \<and> routeModelCircuitKey r = k then 1 else 0)"
  using probe_log.ResolveRoute_holds [OF assms(2,1)] by (simp add: holds_def up_of_def md_of_def)

subsection \<open>A small configuration\<close>

definition demo_row :: "nat \<Rightarrow> nat \<Rightarrow> string \<Rightarrow> int \<Rightarrow> route_row" where
  "demo_row rid u code prio = \<lparr>
     rw_RouteID = rid, rw_UpstreamModelID = rid, rw_UpstreamID = u, rw_UpstreamName = [],
     rw_PlatformModelID = 0, rw_PlatformModelName = ''gpt'', rw_ModelVendor = [], rw_ModelIcon = [],
     rw_ModelKindsJSON = ''chat'', rw_ModelCapabilitiesJSON = [], rw_ModelSystemPrompt = [], rw_Protocol
     = ''openai_responses'', rw_BaseURL = ''https://x'', rw_APIKeysEnc = ''k'', rw_ConnectTimeoutMS = 0,
     rw_ReadTimeoutMS = 0, rw_StreamIdleTimeoutMS = 0, rw_HeadersJSON = [], rw_RouteHeadersJSON = [],
     rw_BindingCode = code, rw_UpstreamModelName = ''gpt'', rw_Weight = 1, rw_RoutePriority = prio,
     rw_UpstreamCbFailureThreshold = 0, rw_UpstreamCbModelThreshold = 0, rw_UpstreamCbThresholdLogic =
     [], rw_UpstreamCbDurationMin = 0, rw_UpstreamCbWindowMin = 0, rw_PlatformModelCbPolicyMode = [],
     rw_PlatformModelCbFailureThreshold = 0, rw_PlatformModelCbDurationMin = 0,
     rw_PlatformModelCbWindowMin = 0, rw_ModelCbFailureThreshold = 0, rw_ModelCbDurationMin = 0,
     rw_ModelCbWindowMin = 0\<rparr>"

definition demo_env :: "'s channel_cache \<Rightarrow> string \<Rightarrow> 's route_env" where
  "demo_env cc strategy = \<lparr>re_cache = Some cc, re_clock = (\<lambda>n. 100 * second), re_rand = (\<lambda>n. 0), re_validURL = (\<lambda>s. True),
     re_decrypt = Some, re_unmarshalKeys = (\<lambda>s. Some \<lparr>kc_Strategy = strategy,
       kc_Keys = [\<lparr>ak_Key = ''k1'', ak_Status = [], ak_Note = []\<rparr>, \<lparr>ak_Key = ''k2'', ak_Status = ''active'', ak_Note = []\<rparr>]\<rparr>),
     re_unmarshalKinds = (\<lambda>s. None), re_unmarshalMap = (\<lambda>s. None), re_marshalMap = (\<lambda>m. None), re_fold = to_lower,
     re_parseTime = (\<lambda>s. None)\<rparr>"

definition demo_repo :: "route_row list \<Rightarrow> route_repo" where
  "demo_repo rows = \<lparr>rp_ActiveModel = (\<lambda>n. Inr (9, ''public'')), rp_ActiveRoutes = (\<lambda>n. Inr rows),
     rp_BindingCodes = (\<lambda>u. Inr [''b1'']), rp_BreakerDefaults = Inr (DefaultBreakerDefaults\<lparr>bd_Enabled := True\<rparr>),
     rp_Classification = \<lparr>ec_CircuitErrors = [''5xx''], ec_RateLimitErrors = [''429''], ec_IgnoreErrors = [''4xx'']\<rparr>,
     rp_RateLimitDefaults = \<lparr>rd_BackoffBaseSec = 5, rd_BackoffMaxSec = 60, rd_BackoffMultiplier = 2\<rparr>,
     rp_Permissions = None\<rparr>"

definition demo_router :: "'s \<Rightarrow> 's router" where
  "demo_router s = \<lparr>ro_cache = s, ro_localKeyCounters = Map.empty,
     ro_breaker = \<lparr>bc_defaults = zero_breaker_defaults, bc_loaded = False, bc_validUntil = 0\<rparr>, ro_ticks = 0, ro_draws = 0\<rparr>"

definition demo_input :: route_input where
  "demo_input = \<lparr>ri_PlatformModelName = '' gpt '', ri_TaskType = [], ri_Scope = ''user'', ri_UserID = 0, ri_ExcludedRouteIDs = [0]\<rparr>"

text \<open>Upstream 1 is half open: opened until second 90, probing allowed until second 120.\<close>

definition demo_half_open :: cache where
  "demo_half_open = new_cache\<lparr>upstreamCB := [1 \<mapsto> new_circuit\<lparr>openUntil := 90 * second\<rparr>]\<rparr>"

lemma demo_half_open_route:
  "map_sum (\<lambda>e. e) (\<lambda>r. (rs_RouteID r, rs_UpstreamProbeGranted r, rs_UpstreamID r))
     (fst (ResolveRoute (demo_env (logged memory_cache) ''failover'')
       (demo_repo [demo_row 5 1 ''b1'' 1]) demo_input (demo_router (demo_half_open, [])))) = Inr (5, True, 1)"
  by code_simp

lemma probes_accounted_witness:
  "up_taken (snd (ro_cache (snd (ResolveRoute (demo_env (logged memory_cache) ''failover'')
     (demo_repo [demo_row 5 1 ''b1'' 1]) demo_input (demo_router (demo_half_open, [])))))) 1 = 1"
proof -
  let ?env = "demo_env (logged memory_cache) ''failover''"
  let ?st = "demo_router (demo_half_open, [])"
  obtain res st' where r: "ResolveRoute ?env (demo_repo [demo_row 5 1 ''b1'' 1]) demo_input ?st = (res, st')" by fastforce
  obtain route where route: "res = Inr route" "rs_UpstreamProbeGranted route" "rs_UpstreamID route = 1"
    using demo_half_open_route r by (cases res) auto
  have "re_cache ?env = Some (logged memory_cache)" by (simp add: demo_env_def)
  from probes_accounted [OF this r, of 1] show ?thesis using r route
    by (simp add: demo_router_def up_taken_def)
qed

text \<open>Two candidates, of weight 1 and (unset, so) 100: 100 of the 101 random numbers pick the second.\<close>

definition demo_candidates :: "candidate list" where
  "demo_candidates = [(demo_row 5 1 ''b1'' 1, ''k1''), ((demo_row 6 1 ''b2'' 1)\<lparr>rw_Weight := 0\<rparr>, ''k2'')]"

lemma weighted_share_witness:
  "card {n. int n < weight_sum demo_candidates \<and> weighted_index n demo_candidates = 1} = 100"
proof -
  have "weight_sum demo_candidates \<le> max_int64" "1 < length demo_candidates"
    "effective_weight (demo_candidates ! 1) = 100"
    by (simp_all add: demo_candidates_def demo_row_def effective_weight_def int64_defs)
  then show ?thesis using weighted_share [of demo_candidates 1] by simp
qed

end
