(* ===== verification/Route_Safety.thy ===== *)
theory Route_Safety
  imports Route_Guarantees
begin

text \<open>
  What a resolved route is, and what routing avoids: the route is an allowed, implemented row of the
  database with an active key, and neither its upstream nor its model has an open circuit.
\<close>

section \<open>What a call of the service does to its state\<close>

text \<open>
  A relation that every single step of routing keeps is kept by the whole call, and the route
  returned is the answer of \<open>try_candidate\<close> to a candidate collected from the rows.
\<close>

locale routing_relation =
  fixes env :: "'s route_env" and R :: "'s router \<Rightarrow> 's router \<Rightarrow> bool"
  assumes R_refl: "R st st"
    and R_trans: "R st st1 \<Longrightarrow> R st1 st2 \<Longrightarrow> R st st2"
    and draw: "R st (st\<lparr>ro_draws := n\<rparr>)"
    and breaker: "loadBreakerDefaults env repo st = (cfg, st') \<Longrightarrow> R st st'"
    and up: "re_cache env = Some cc \<Longrightarrow> checkUpstreamCircuitState env cc u st = (r, st') \<Longrightarrow> R st st'"
    and md: "re_cache env = Some cc \<Longrightarrow> checkModelCircuitState env cc u k st = (r, st') \<Longrightarrow> R st st'"
    and release: "re_cache env = Some cc \<Longrightarrow> R st (releaseUpstreamProbe cc u st)"
    and backoff: "routeRateLimitBackoff env u rid st = (d, st') \<Longrightarrow> R st st'"
    and key: "selectAPIKey env u kc st = (kr, st') \<Longrightarrow> R st st'"
begin

lemma try_R: "try_candidate env cco c st = (r, st') \<Longrightarrow> cco = None \<or> cco = re_cache env \<Longrightarrow> R st st'"
proof (cases cco)
  case None
  then show "try_candidate env cco c st = (r, st') \<Longrightarrow> R st st'" by (auto simp: try_candidate_def Let_def R_refl)
next
  case cco: (Some cc)
  assume t: "try_candidate env cco c st = (r, st')" and "cco = None \<or> cco = re_cache env"
  with cco have cc: "re_cache env = Some cc" by simp
  obtain a st1 where a: "checkUpstreamCircuitState env cc (rw_UpstreamID (fst c)) st = (a, st1)" by fastforce
  obtain b st2 where b: "checkModelCircuitState env cc (rw_UpstreamID (fst c))
      (bindingCircuitKey (rw_BindingCode (fst c))) st1 = (b, st2)" by fastforce
  have "st' = st1 \<or> st' = st2 \<or> st' = releaseUpstreamProbe cc (rw_UpstreamID (fst c)) st2"
    using t a b by (auto simp: cco try_candidate_def Let_def split: sum.splits if_splits)
  then show "R st st'" using up [OF cc a] md [OF cc b] release [OF cc] by (metis R_trans)
qed

lemma try_candidates_R:
  "try_candidates env cco cs st = (r, st') \<Longrightarrow> cco = None \<or> cco = re_cache env \<Longrightarrow>
     R st st' \<and> (\<forall>route. r = Some (Inr route) \<longrightarrow>
       (\<exists>c \<in> set cs. \<exists>st1. R st st1 \<and> try_candidate env cco c st1 = (Inr route, st')))"
proof (induction cs arbitrary: st rule: length_induct)
  case (1 cs)
  show ?case
  proof (cases "cs = []")
    case True
    then show ?thesis using "1.prems" by (auto simp: try_candidates.simps R_refl)
  next
    case False
    let ?c = "cs ! weighted_index (re_rand env (ro_draws st)) cs"
    let ?st0 = "st\<lparr>ro_draws := Suc (ro_draws st)\<rparr>"
    have c: "?c \<in> set cs" using False by (intro nth_mem weighted_index_less)
    obtain t st1 where t: "try_candidate env cco ?c ?st0 = (t, st1)" by fastforce
    note r1 = R_trans [OF draw try_R [OF t "1.prems"(2)]]
    let ?cs = "removeCandidate cs (rw_UpstreamID (fst ?c)) (rw_UpstreamModelID (fst ?c))"
    have e: "try_candidates env cco cs st =
        (case t of Inr route \<Rightarrow> (Some (Inr route), st1) | Inl (Some e) \<Rightarrow> (Some (Inl e), st1)
         | Inl None \<Rightarrow> try_candidates env cco ?cs st1)"
      using False t by (simp add: try_candidates.simps [of env cco cs] Let_def)
    consider route where "t = Inr route" | x where "t = Inl (Some x)" | "t = Inl None"
      by (metis old.sum.exhaust option.exhaust)
    then show ?thesis
    proof cases
      case (1 route)
      then show ?thesis using e "1.prems" r1 c t draw [of st "Suc (ro_draws st)"] by auto
    next
      case 2
      then show ?thesis using e "1.prems" r1 by auto
    next
      case 3
      have "length ?cs < length cs" using c by (rule removeCandidate_less)
      then have "R st1 st' \<and> (\<forall>route. r = Some (Inr route) \<longrightarrow>
          (\<exists>c \<in> set ?cs. \<exists>st2. R st1 st2 \<and> try_candidate env cco c st2 = (Inr route, st')))"
        using "1.IH" e "1.prems" 3 by auto
      then show ?thesis using R_trans [OF r1] by (fastforce simp: removeCandidate_def)
    qed
  qed
qed

lemma collect_R:
  "collect_group env rows shortest st = (cands, shortest', st') \<Longrightarrow>
     R st st' \<and> (\<forall>(row, k) \<in> set cands. row \<in> set rows \<and> usable_row env row \<and>
       (\<exists>cfg st1 st2. parseAPIKeysConfig env (rw_APIKeysEnc row) = Some cfg \<and>
          selectAPIKey env (rw_UpstreamID row) cfg st1 = (Inr k, st2)))"
proof (induction rows arbitrary: shortest st cands shortest')
  case (Cons row rows)
  obtain d st1 where d: "routeRateLimitBackoff env (rw_UpstreamID row) (rw_RouteID row) st = (d, st1)" by fastforce
  note h1 = backoff [OF d]
  consider "\<not> usable_row env row" | "usable_row env row" "0 < d \<or> parseAPIKeysConfig env (rw_APIKeysEnc row) = None"
    | cfg where "usable_row env row" "\<not> 0 < d" "parseAPIKeysConfig env (rw_APIKeysEnc row) = Some cfg" by fastforce
  then show ?case
  proof cases
    case 1
    then show ?thesis using Cons by fastforce
  next
    case 2
    then obtain sh where "collect_group env rows sh st1 = (cands, shortest', st')"
      using d Cons.prems by (auto split: if_splits option.splits)
    from Cons.IH [OF this] show ?thesis using R_trans [OF h1] by auto
  next
    case 3
    obtain kr st2 where k: "selectAPIKey env (rw_UpstreamID row) cfg st1 = (kr, st2)" by fastforce
    note h2 = R_trans [OF h1 key [OF k]]
    obtain cs sh st3 where c: "collect_group env rows shortest st2 = (cs, sh, st3)" by (metis prod_cases3)
    have e: "st' = st3" "sh = shortest'" "cands = (case kr of Inl x \<Rightarrow> cs | Inr ky \<Rightarrow> (row, ky) # cs)"
      using Cons.prems d k c 3 by (auto split: sum.splits)
    have c': "collect_group env rows shortest st2 = (cs, shortest', st')" using c e by simp
    show ?thesis using Cons.IH [OF c'] R_trans [OF h2] 3 k by (auto simp: e split: sum.splits)
  qed
qed (simp add: R_refl)

lemma groups_R:
  "resolve_groups env cco rows shortest st = (res, st') \<Longrightarrow> cco = None \<or> cco = re_cache env \<Longrightarrow>
     R st st' \<and> (\<forall>route. res = Inr route \<longrightarrow>
       (\<exists>row \<in> set rows. usable_row env row \<and> (\<exists>k cfg st1 st2 st3. parseAPIKeysConfig env (rw_APIKeysEnc row) = Some cfg \<and>
          selectAPIKey env (rw_UpstreamID row) cfg st1 = (Inr k, st2) \<and>
          R st st3 \<and> try_candidate env cco (row, k) st3 = (Inr route, st'))))"
proof (induction rows arbitrary: shortest st rule: length_induct)
  case (1 rows)
  show ?case
  proof (cases rows)
    case Nil
    then show ?thesis using "1.prems" by (auto simp: R_refl split: if_splits)
  next
    case (Cons row rest)
    let ?same = "\<lambda>r. rw_RoutePriority r = rw_RoutePriority row"
    let ?G = "row # takeWhile ?same rest" and ?L = "dropWhile ?same rest"
    obtain cands sh1 st1 where c: "collect_group env ?G shortest st = (cands, sh1, st1)" by (metis prod_cases3)
    obtain t st2 where t: "try_candidates env cco cands st1 = (t, st2)" by fastforce
    note rc = collect_R [OF c] and rt = try_candidates_R [OF t "1.prems"(2)]
    have r2: "R st st2" using rc rt by (blast intro: R_trans)
    show ?thesis
    proof (cases t)
      case None
      have "length ?L < length rows" using Cons by (simp add: less_Suc_eq_le length_dropWhile_le)
      moreover have "resolve_groups env cco ?L sh1 st2 = (res, st')"
        using "1.prems"(1) Cons c t None by (simp add: Let_def)
      ultimately have ih: "R st2 st' \<and> (\<forall>route. res = Inr route \<longrightarrow>
         (\<exists>row \<in> set ?L. usable_row env row \<and> (\<exists>k cfg st1 st2' st3. parseAPIKeysConfig env (rw_APIKeysEnc row) = Some cfg \<and>
          selectAPIKey env (rw_UpstreamID row) cfg st1 = (Inr k, st2') \<and>
          R st2 st3 \<and> try_candidate env cco (row, k) st3 = (Inr route, st'))))"
        using "1.IH" "1.prems"(2) by blast
      have "set ?L \<subseteq> set rows" using Cons set_dropWhileD by fastforce
      then show ?thesis using ih R_trans [OF r2] by blast
    next
      case (Some r)
      then have e: "res = r" "st' = st2" using "1.prems"(1) Cons c t by (simp_all add: Let_def)
      show ?thesis
      proof (intro conjI allI impI)
        show "R st st'" using r2 e by simp
        fix route assume "res = Inr route"
        then obtain c0 st3 where c0: "c0 \<in> set cands" "R st1 st3" "try_candidate env cco c0 st3 = (Inr route, st')"
          using rt Some e by blast
        obtain row0 k where "c0 = (row0, k)" by (cases c0)
        moreover have "set ?G \<subseteq> set rows" using Cons set_takeWhileD by fastforce
        moreover have "R st st3" using rc c0 by (blast intro: R_trans)
        ultimately show "\<exists>row \<in> set rows. usable_row env row \<and> (\<exists>k cfg st1 st2 st3.
            parseAPIKeysConfig env (rw_APIKeysEnc row) = Some cfg \<and>
            selectAPIKey env (rw_UpstreamID row) cfg st1 = (Inr k, st2) \<and>
            R st st3 \<and> try_candidate env cco (row, k) st3 = (Inr route, st'))"
          using rc c0 by blast
      qed
    qed
  qed
qed

lemma ResolveRoute_R:
  assumes "ResolveRoute env repo inp st = (res, st')"
  shows "R st st'"
    and "res = Inr route \<Longrightarrow> \<exists>name rows row key cfg st1 st2 st3.
       normalizePlatformModelName (ri_PlatformModelName inp) = Inr name \<and> rp_ActiveRoutes repo name = Inr rows \<and>
       row \<in> set (available_rows env inp rows) \<and> usable_row env row \<and>
       parseAPIKeysConfig env (rw_APIKeysEnc row) = Some cfg \<and>
       selectAPIKey env (rw_UpstreamID row) cfg st1 = (Inr key, st2) \<and> R st st3 \<and>
       try_candidate env (if bd_Enabled (fst (loadBreakerDefaults env repo st)) then re_cache env else None) (row, key) st3 =
         (Inr route, st')"
proof -
  obtain cfg st1 where l: "loadBreakerDefaults env repo st = (cfg, st1)" by fastforce
  let ?cco = "if bd_Enabled cfg then re_cache env else None"
  have r1: "R st st1" using breaker [OF l] .
  have r0: "R st st" by (rule R_refl)
  let ?st = "if re_cache env = None then st else st1"
  have r1: "R st ?st" using r0 r1 by simp
  have "(\<exists>e. res = Inl e \<and> st' = ?st) \<or> (\<exists>name rows. normalizePlatformModelName (ri_PlatformModelName inp) = Inr name \<and>
      rp_ActiveRoutes repo name = Inr rows \<and> resolve_groups env ?cco (available_rows env inp rows) 0 ?st = (res, st'))"
    using assms l by (auto simp: ResolveRoute_def Let_def split: option.splits sum.splits bool.splits if_splits prod.splits)
  then consider e where "res = Inl e" "st' = ?st"
    | name rows where "normalizePlatformModelName (ri_PlatformModelName inp) = Inr name"
      "rp_ActiveRoutes repo name = Inr rows" "resolve_groups env ?cco (available_rows env inp rows) 0 ?st = (res, st')"
    by blast
  note cs = this
  have two: "?cco = None \<or> ?cco = re_cache env" by simp
  show "R st st'"
    using cs
  proof cases
    case 1
    then show ?thesis using r1 by simp
  next
    case 2
    from groups_R [OF 2(3) two] R_trans [OF r1] show ?thesis by blast
  qed
  assume r: "res = Inr route"
  from cs show "\<exists>name rows row key cfg st1 st2 st3.
       normalizePlatformModelName (ri_PlatformModelName inp) = Inr name \<and> rp_ActiveRoutes repo name = Inr rows \<and>
       row \<in> set (available_rows env inp rows) \<and> usable_row env row \<and>
       parseAPIKeysConfig env (rw_APIKeysEnc row) = Some cfg \<and>
       selectAPIKey env (rw_UpstreamID row) cfg st1 = (Inr key, st2) \<and> R st st3 \<and>
       try_candidate env (if bd_Enabled (fst (loadBreakerDefaults env repo st)) then re_cache env else None) (row, key) st3 =
         (Inr route, st')"
  proof cases
    case 1
    then show ?thesis using r by simp
  next
    case 2
    from groups_R [OF 2(3) two] r obtain row k kc s1 s2 s3 where
      "row \<in> set (available_rows env inp rows)" "usable_row env row"
      "parseAPIKeysConfig env (rw_APIKeysEnc row) = Some kc"
      "selectAPIKey env (rw_UpstreamID row) kc s1 = (Inr k, s2)" "R ?st s3"
      "try_candidate env ?cco (row, k) s3 = (Inr route, st')" by blast
    then show ?thesis using 2 R_trans [OF r1] unfolding l fst_conv by blast
  qed
qed

end

section \<open>The returned route\<close>

interpretation any_step: routing_relation env "\<lambda>st st'. True" for env
  by unfold_locales simp_all

lemma try_candidate_route:
  "try_candidate env cco (row, key) st = (Inr route, st') \<Longrightarrow>
     \<exists>a b. route = (buildResolvedRoute env row key)\<lparr>rs_UpstreamProbeGranted := a, rs_ModelProbeGranted := b\<rparr>"
proof (induction cco)
  case None
  then show ?case
    by (intro exI [of _ False]) (auto simp: try_candidate_def Let_def buildResolvedRoute_def)
next
  case (Some cc)
  then show ?case by (auto simp: try_candidate_def Let_def split: prod.splits sum.splits if_splits)
qed

lemma selectAPIKey_active:
  assumes "selectAPIKey env u cfg st = (Inr key, st')"
  shows "key \<in> ak_Key ` set (active_keys (kc_Keys cfg))"
proof -
  have "active_keys (kc_Keys cfg) \<noteq> []"
    using assms by (auto simp: selectAPIKey_def pickActiveKey_def split: if_splits)
  then show ?thesis
    using assms by (auto simp: selectAPIKey_def pickActiveKey_def rand_Intn_def Let_def split: if_splits prod.splits)
qed

text \<open>
  C1: a resolved route is a real, permitted way to serve the request. It is built from one of the
  rows the database gave for the model; the row is not excluded, its protocol is implemented and
  allowed for the task, its base URL was accepted, and its key is an active key of the row.
\<close>

theorem route_sound:
  assumes "ResolveRoute env repo inp st = (Inr route, st')"
  shows "\<exists>name rows row cfg. normalizePlatformModelName (ri_PlatformModelName inp) = Inr name \<and>
    rp_ActiveRoutes repo name = Inr rows \<and> row \<in> set rows \<and>
    rw_RouteID row \<notin> makeRouteIDSet (ri_ExcludedRouteIDs inp) \<and>
    IsRouteAllowedForTask (ri_TaskType inp) (parseKinds (re_unmarshalKinds env) (rw_ModelKindsJSON row)) (rw_Protocol row) \<and>
    IsImplementedAdapter (rw_Protocol row) \<and> re_validURL env (rw_BaseURL row) \<and>
    parseAPIKeysConfig env (rw_APIKeysEnc row) = Some cfg \<and> rs_APIKey route \<in> ak_Key ` set (active_keys (kc_Keys cfg)) \<and>
    (\<exists>a b. route = (buildResolvedRoute env row (rs_APIKey route))\<lparr>rs_UpstreamProbeGranted := a, rs_ModelProbeGranted := b\<rparr>)"
proof -
  obtain name rows row key cfg st1 st2 st3 cco where f: "normalizePlatformModelName (ri_PlatformModelName inp) = Inr name"
    "rp_ActiveRoutes repo name = Inr rows" "row \<in> set (available_rows env inp rows)" "usable_row env row"
    "parseAPIKeysConfig env (rw_APIKeysEnc row) = Some cfg" "selectAPIKey env (rw_UpstreamID row) cfg st1 = (Inr key, st2)"
    "try_candidate env cco (row, key) st3 = (Inr route, st')"
    using any_step.ResolveRoute_R(2) [OF assms refl] by blast
  obtain a b where r: "route = (buildResolvedRoute env row key)\<lparr>rs_UpstreamProbeGranted := a, rs_ModelProbeGranted := b\<rparr>"
    using try_candidate_route [OF f(7)] by blast
  then have "rs_APIKey route = key" by (simp add: buildResolvedRoute_def)
  then show ?thesis using f r selectAPIKey_active [OF f(6)] by (auto simp: available_rows_def usable_row_def)
qed

section \<open>Open circuits\<close>

lemma memory_sel [simp]:
  "cc_CheckUpstream memory_cache now u c = (let (v, c') = CheckUpstreamCircuitState now u c in (Inr v, c'))"
  "cc_CheckModel memory_cache now u k c = (let (v, c') = CheckModelCircuitState now u k c in (Inr v, c'))"
  "cc_RecordCircuitFailure memory_cache = RecordCircuitFailure"
  "cc_RecordFailureMetadata memory_cache = RecordFailureMetadata"
  "cc_RecordSuccessMetadata memory_cache = RecordSuccessMetadata"
  "cc_ClearUpstream memory_cache = ClearUpstreamCircuitKeys"
  "cc_ClearModel memory_cache = ClearModelCircuitKeys"
  "cc_ReleaseProbes memory_cache = ReleaseRouteProbes"
  "cc_GetBackoff memory_cache now u r c = (Inr (GetRateLimitBackoff now u r c), c)"
  "cc_RecordBackoff memory_cache = RecordRateLimitBackoff"
  "cc_ClearBackoff memory_cache = ClearRateLimitBackoff"
  "cc_IncrKeyCounter memory_cache now u c = (let (n, ok, c') = IncrAPIKeyCounter now u c in ((n, ok), c'))"
  by (simp_all add: memory_cache_def)

text \<open>A circuit that stays open up to a time.\<close>

definition open_until :: "gotime \<Rightarrow> circuit_state option \<Rightarrow> bool" where
  "open_until T so \<longleftrightarrow> (case so of None \<Rightarrow> False | Some st \<Rightarrow> T \<le> openUntil st)"

lemma check_keeps_open: "now < T \<Longrightarrow> open_until T so \<Longrightarrow> snd (checkCircuitStateLocked now so) = so"
  by (cases so) (simp_all add: open_until_def check_circuit_snd)

lemma check_stays_open:
  "checkCircuitStateLocked now so = (v, so') \<Longrightarrow> now < T \<Longrightarrow> open_until T so \<Longrightarrow> open_until T so'"
  by (metis check_keeps_open snd_conv)

lemma check_open: "now < T \<Longrightarrow> open_until T so \<Longrightarrow> fst (checkCircuitStateLocked now so) = ''open''"
  by (cases so) (simp_all add: open_until_def check_circuit_fst)

lemma sweep_keeps_open:
  assumes "0 \<le> now" and "now < T"
  shows "open_until T (upstreamCB c u) \<Longrightarrow> open_until T (upstreamCB (maybeSweepLocked now c) u)"
    and "open_until T (modelCB c k) \<Longrightarrow> open_until T (modelCB (maybeSweepLocked now c) k)"
  using assms
  by (auto simp: open_until_def maybeSweep_upstreamCB(2) maybeSweep_modelCB(2) open_not_expired split: option.splits)

definition bars_kept :: "gotime \<Rightarrow> cache \<Rightarrow> cache \<Rightarrow> bool" where
  "bars_kept T c c' \<longleftrightarrow> (\<forall>u. open_until T (upstreamCB c u) \<longrightarrow> open_until T (upstreamCB c' u)) \<and>
     (\<forall>k. open_until T (modelCB c k) \<longrightarrow> open_until T (modelCB c' k))"

text \<open>While every clock reading of the call is before \<open>T\<close>, circuits open until \<open>T\<close> stay open.\<close>

definition keeps_open :: "gotime \<Rightarrow> cache route_env \<Rightarrow> cache router \<Rightarrow> cache router \<Rightarrow> bool" where
  "keeps_open T env st st' \<longleftrightarrow> ro_ticks st \<le> ro_ticks st' \<and>
     (re_cache env = Some memory_cache \<longrightarrow>
      (\<forall>n \<in> {ro_ticks st..<ro_ticks st'}. 0 \<le> re_clock env n \<and> re_clock env n < T) \<longrightarrow>
      bars_kept T (ro_cache st) (ro_cache st'))"

lemma keeps_open_trans: "keeps_open T env st st1 \<Longrightarrow> keeps_open T env st1 st2 \<Longrightarrow> keeps_open T env st st2"
  by (fastforce simp: keeps_open_def bars_kept_def)

lemma keeps_same: "ro_ticks st \<le> ro_ticks st' \<Longrightarrow> ro_cache st' = ro_cache st \<Longrightarrow> keeps_open T env st st'"
  by (simp add: keeps_open_def bars_kept_def)

lemma keeps_tick:
  "ro_ticks st' = Suc (ro_ticks st) \<Longrightarrow>
   (re_cache env = Some memory_cache \<Longrightarrow> 0 \<le> re_clock env (ro_ticks st) \<Longrightarrow> re_clock env (ro_ticks st) < T \<Longrightarrow>
      bars_kept T (ro_cache st) (ro_cache st')) \<Longrightarrow> keeps_open T env st st'"
  by (simp add: keeps_open_def)

lemma keeps_upstream_check:
  "checkUpstreamCircuitState env cc u st = (r, st') \<Longrightarrow> re_cache env = Some cc \<Longrightarrow> keeps_open T env st st'"
  by (intro keeps_tick)
     (auto simp: checkUpstreamCircuitState_def tick_def CheckUpstreamCircuitState_def bars_kept_def
       Let_def split: prod.splits intro: check_stays_open)

lemma keeps_model_check:
  "checkModelCircuitState env cc u k st = (r, st') \<Longrightarrow> re_cache env = Some cc \<Longrightarrow> keeps_open T env st st'"
  by (intro keeps_tick)
     (auto simp: checkModelCircuitState_def tick_def CheckModelCircuitState_def bars_kept_def
       Let_def split: prod.splits intro: check_stays_open)

lemma keeps_release: "re_cache env = Some cc \<Longrightarrow> keeps_open T env st (releaseUpstreamProbe cc u st)"
  by (auto simp: keeps_open_def releaseUpstreamProbe_def ReleaseRouteProbes_def bars_kept_def
      open_until_def split: option.splits)

lemma keeps_backoff: "routeRateLimitBackoff env u rid st = (d, st') \<Longrightarrow> keeps_open T env st st'"
  by (cases "re_cache env")
     (auto simp: routeRateLimitBackoff_def tick_def Let_def keeps_open_def bars_kept_def
      split: if_splits prod.splits)

lemma keeps_next_key:
  assumes "nextAPIKeyIndex env u st = (i, st')"
  shows "keeps_open T env st st'"
proof (cases "re_cache env = None \<or> u = 0")
  case True
  then show ?thesis using assms
    by (intro keeps_same) (auto simp: nextAPIKeyIndex_def nextLocalAPIKeyIndex_def rand_Intn_def Let_def split: if_splits)
next
  case False
  then obtain cc where cc: "re_cache env = Some cc" by auto
  show ?thesis
  proof (rule keeps_tick)
    show "ro_ticks st' = Suc (ro_ticks st)" using assms False cc
      by (auto simp: nextAPIKeyIndex_def nextLocalAPIKeyIndex_def tick_def Let_def split: if_splits prod.splits)
    assume "re_cache env = Some memory_cache" and t: "0 \<le> re_clock env (ro_ticks st)" "re_clock env (ro_ticks st) < T"
    then show "bars_kept T (ro_cache st) (ro_cache st')" using assms False
      by (auto simp: nextAPIKeyIndex_def nextLocalAPIKeyIndex_def tick_def Let_def bars_kept_def
          IncrAPIKeyCounter_def intro!: sweep_keeps_open)
  qed
qed

lemma keeps_key: "selectAPIKey env u cfg st = (kr, st') \<Longrightarrow> keeps_open T env st st'"
  by (auto simp: selectAPIKey_def pickActiveKey_def rand_Intn_def Let_def split: if_splits prod.splits
      intro: keeps_next_key keeps_same)

lemma keeps_breaker: "loadBreakerDefaults env repo st = (cfg, st') \<Longrightarrow> keeps_open T env st st'"
  by (intro keeps_same) (auto simp: loadBreakerDefaults_def tick_def Let_def split: prod.splits if_splits)

interpretation open_circuits: routing_relation env "keeps_open T env" for T env
  by unfold_locales (auto intro: keeps_same keeps_open_trans keeps_breaker keeps_upstream_check keeps_model_check
      keeps_release keeps_backoff keeps_key)

lemma granted_not_open:
  assumes "try_candidate env (Some memory_cache) (row, key) st = (Inr route, st')"
    and "\<forall>n \<in> {ro_ticks st..<ro_ticks st'}. 0 \<le> re_clock env n \<and> re_clock env n < T"
  shows "\<not> open_until T (upstreamCB (ro_cache st) (rw_UpstreamID row)) \<and>
    \<not> open_until T (modelCB (ro_cache st) (modelCircuitKey (rw_UpstreamID row) (bindingCircuitKey (rw_BindingCode row))))"
proof -
  let ?u = "rw_UpstreamID row" and ?k = "bindingCircuitKey (rw_BindingCode row)"
  let ?t1 = "re_clock env (ro_ticks st)" and ?t2 = "re_clock env (Suc (ro_ticks st))"
  have v: "\<not> blocked_state (fst (checkCircuitStateLocked ?t1 (upstreamCB (ro_cache st) ?u)))"
    "\<not> blocked_state (fst (checkCircuitStateLocked ?t2 (modelCB (ro_cache st) (modelCircuitKey ?u ?k))))"
    "ro_ticks st' = Suc (Suc (ro_ticks st))"
    using assms(1) by (auto simp: try_candidate_def checkUpstreamCircuitState_def checkModelCircuitState_def tick_def
        CheckUpstreamCircuitState_def CheckModelCircuitState_def Let_def split: prod.splits if_splits)
  then have "?t1 < T" "?t2 < T" using assms(2) by auto
  then show ?thesis using v(1,2) check_open by (metis blocked_state_def)
qed

text \<open>
  C5: with the breaker enabled and the in-process cache, no request is routed through an open
  circuit: when every clock reading of the call is before \<open>T\<close>, the upstream of the returned route
  was not open until \<open>T\<close> when the call began, and neither was the circuit of its model.
\<close>

theorem open_circuit_avoided:
  assumes "ResolveRoute env repo inp st = (Inr route, st')"
    and "re_cache env = Some memory_cache" and "bd_Enabled (fst (loadBreakerDefaults env repo st))"
    and "\<forall>n \<in> {ro_ticks st..<ro_ticks st'}. 0 \<le> re_clock env n \<and> re_clock env n < T"
  shows "\<not> open_until T (upstreamCB (ro_cache st) (rs_UpstreamID route)) \<and>
    \<not> open_until T (modelCB (ro_cache st) (modelCircuitKey (rs_UpstreamID route) (routeModelCircuitKey route)))"
proof -
  obtain row key st3 where k: "keeps_open T env st st3"
    and t: "try_candidate env (Some memory_cache) (row, key) st3 = (Inr route, st')"
    using open_circuits.ResolveRoute_R(2) [OF assms(1) refl, of T] assms(2,3) by auto
  obtain a b where r: "route = (buildResolvedRoute env row key)\<lparr>rs_UpstreamProbeGranted := a, rs_ModelProbeGranted := b\<rparr>"
    using try_candidate_route [OF t] by blast
  have le: "ro_ticks st \<le> ro_ticks st3" using k by (simp add: keeps_open_def)
  have le': "ro_ticks st3 \<le> ro_ticks st'"
    using open_circuits.try_R [OF t, of T] assms(2) by (simp add: keeps_open_def)
  have "bars_kept T (ro_cache st) (ro_cache st3)" using k assms(2,4) le le' by (simp add: keeps_open_def)
  moreover have "\<forall>n \<in> {ro_ticks st3..<ro_ticks st'}. 0 \<le> re_clock env n \<and> re_clock env n < T"
    using assms(4) le by auto
  ultimately show ?thesis using granted_not_open [OF t] by (auto simp: r bars_kept_def)
qed

section \<open>Outcomes\<close>

text \<open>A model circuit key is never blank: trimming cannot remove its letters.\<close>

lemma drop_runes_keeps:
  assumes "\<And>s. c \<notin> set (take (w s) s)" and "c \<in> set s"
  shows "c \<in> set (drop_runes w s)"
  using assms(2)
proof (induction "length s" arbitrary: s rule: less_induct)
  case less
  show ?case
  proof (cases "s = [] \<or> w s = 0")
    case True
    then show ?thesis using less.prems by (simp add: drop_runes_stop)
  next
    case False
    have "c \<in> set (drop (w s) s)" using less.prems assms(1) [of s] append_take_drop_id [of "w s" s] by (metis Un_iff set_append)
    then show ?thesis using less.hyps [of "drop (w s) s"] False by (simp add: drop_runes.simps [of w s])
  qed
qed

lemma no_u_in_space:
  "\<not> ascii_space (CHR ''u'')" "two_byte_space a b \<Longrightarrow> a \<noteq> CHR ''u'' \<and> b \<noteq> CHR ''u''"
  "three_byte_space a b c \<Longrightarrow> a \<noteq> CHR ''u'' \<and> b \<noteq> CHR ''u'' \<and> c \<noteq> CHR ''u''"
  by (auto simp: ascii_space_def two_byte_space_def three_byte_space_def)

lemma space_runes_no_u: "CHR ''u'' \<notin> set (take (space_rune s) s)" "CHR ''u'' \<notin> set (take (space_rune_rev s) s)"
proof -
  show "CHR ''u'' \<notin> set (take (space_rune s) s)"
    using no_u_in_space(1) by (cases s rule: space_rune.cases) (auto dest: no_u_in_space(2,3))
  show "CHR ''u'' \<notin> set (take (space_rune_rev s) s)"
    using no_u_in_space(1) by (cases s rule: space_rune_rev.cases) (auto dest: no_u_in_space(2,3))
qed

lemma trim_space_keeps_u: "CHR ''u'' \<in> set s \<Longrightarrow> CHR ''u'' \<in> set (trim_space s)"
  using drop_runes_keeps [of "CHR ''u''", OF space_runes_no_u(1)] drop_runes_keeps [of "CHR ''u''", OF space_runes_no_u(2)]
  by (metis (no_types, lifting) trim_space_def trim_left_def trim_right_def set_rev)

lemma circuit_key_not_blank: "bindingCircuitKey code \<noteq> [] \<Longrightarrow> trim_space (bindingCircuitKey code) \<noteq> []"
  using trim_space_keeps_u [of "bindingCircuitKey code"] by (force simp: bindingCircuitKey_def Let_def split: if_splits)

text \<open>A circuit on which no probe is pending.\<close>

definition probe_free :: "circuit_state option \<Rightarrow> bool" where
  "probe_free so \<longleftrightarrow> (case so of None \<Rightarrow> True | Some cb \<Rightarrow> probeUntil cb = 0)"

lemma probe_free_simps [simp]: "probe_free None" "probe_free (Some cb) \<longleftrightarrow> probeUntil cb = 0"
  by (simp_all add: probe_free_def)

lemma probe_free_sweep [intro]:
  "probe_free (upstreamCB c u) \<Longrightarrow> probe_free (upstreamCB (maybeSweepLocked now c) u)"
  "probe_free (modelCB c k) \<Longrightarrow> probe_free (modelCB (maybeSweepLocked now c) k)"
  by (auto simp: probe_free_def dest: maybeSweep_upstreamCB(1) maybeSweep_modelCB(1) split: option.splits)

lemma failure_frees_probes:
  assumes "valid_failure i"
  shows "probe_free (upstreamCB (RecordCircuitFailure now i c) (cfi_UpstreamID i)) \<and>
    probe_free (modelCB (RecordCircuitFailure now i c) (modelCircuitKey (cfi_UpstreamID i) (cfi_ModelKey i)))"
  unfolding RecordCircuitFailure_valid [OF assms]
proof (intro conjI probe_free_sweep)
  show "probe_free (upstreamCB (record_upstream_failure now i (record_model_failure now i c)) (cfi_UpstreamID i))"
    by (simp add: record_upstream_failure_def Let_def split_beta)
  show "probe_free (modelCB (record_upstream_failure now i (record_model_failure now i c))
      (modelCircuitKey (cfi_UpstreamID i) (cfi_ModelKey i)))"
    by (simp add: record_upstream_failure_modelCB record_model_failure_fields next_model_state_def Let_def)
qed

lemma release_circuits:
  "trim_space mk = [] \<Longrightarrow> upstreamCB (ReleaseRouteProbes u mk c) =
     (upstreamCB c)(u := map_option (probeUntil_update (\<lambda>_. 0)) (upstreamCB c u)) \<and> modelCB (ReleaseRouteProbes u mk c) = modelCB c"
  "trim_space mk \<noteq> [] \<Longrightarrow> modelCB (ReleaseRouteProbes u mk c) = (modelCB c)(modelCircuitKey u mk :=
     map_option (probeUntil_update (\<lambda>_. 0)) (modelCB c (modelCircuitKey u mk))) \<and> upstreamCB (ReleaseRouteProbes u mk c) = upstreamCB c"
  by (auto simp: ReleaseRouteProbes_def Let_def fun_eq_iff split: option.splits)

text \<open>The circuits of a route, settled: what its probes asked is answered.\<close>

definition settled :: "resolved_route \<Rightarrow> cache \<Rightarrow> bool" where
  "settled route c \<longleftrightarrow>
     (rs_UpstreamProbeGranted route \<longrightarrow> probe_free (upstreamCB c (rs_UpstreamID route))) \<and>
     (rs_ModelProbeGranted route \<longrightarrow> probe_free (modelCB c (modelCircuitKey (rs_UpstreamID route) (routeModelCircuitKey route))))"

lemma settled_sweep: "settled route c \<Longrightarrow> settled route (maybeSweepLocked now c)"
  by (auto simp: settled_def)

lemma settled_update [simp]:
  "settled route (c\<lparr>upstreamMeta := m\<rparr>) = settled route c" "settled route (c\<lparr>rateLimits := rl\<rparr>) = settled route c"
  by (simp_all add: settled_def)

lemma route_key_not_blank: "routeModelCircuitKey route \<noteq> [] \<Longrightarrow> trim_space (routeModelCircuitKey route) \<noteq> []"
  by (auto simp: routeModelCircuitKey_def circuit_key_not_blank)

lemma release_settles:
  assumes "rs_UpstreamID route \<noteq> 0" and "routeModelCircuitKey route \<noteq> []"
  shows "settled route (ro_cache (releaseGrantedRouteProbes memory_cache route st))"
  using assms release_circuits(1) [of "[]" "rs_UpstreamID route"]
    release_circuits(2) [OF route_key_not_blank [OF assms(2)]]
  by (auto simp: settled_def releaseGrantedRouteProbes_def releaseUpstreamProbe_def Let_def probe_free_def split: option.splits)

lemma backoff_settled:
  "settled route (ro_cache st) \<Longrightarrow> settled route (ro_cache (recordRateLimitBackoff env repo memory_cache route cause st))"
  by (auto simp: recordRateLimitBackoff_def RecordRateLimitBackoff_def Let_def tick_def intro!: settled_sweep)

lemma MarkRouteFailure_settles:
  assumes "re_cache env = Some memory_cache" and "rs_UpstreamID route \<noteq> 0" and "routeModelCircuitKey route \<noteq> []"
  shows "settled route (ro_cache (MarkRouteFailure env repo route cause st))"
proof -
  let ?c = "classifyRouteFailure (rp_Classification repo) cause"
  have v: "valid_failure (circuit_failure_of repo route d)" for d
    using assms route_key_not_blank by (simp add: valid_failure_def circuit_failure_of_def Let_def)
  have f: "settled route (ro_cache (recordCircuitFailure env repo memory_cache route d s))" for d s
    using assms failure_frees_probes [OF v]
    by (simp add: recordCircuitFailure_def tick_def settled_def Let_def) (simp add: circuit_failure_of_def Let_def)
  show ?thesis
    using assms release_settles [OF assms(2,3)] backoff_settled f
    by (cases ?c) (auto simp: MarkRouteFailure_def Let_def tick_def split: prod.splits)
qed

lemma MarkRouteSuccess_settles:
  assumes "re_cache env = Some memory_cache" and "rs_UpstreamID route \<noteq> 0" and "routeModelCircuitKey route \<noteq> []"
  shows "settled route (ro_cache (MarkRouteSuccess env route st))"
  using assms
  by (auto simp: MarkRouteSuccess_def Let_def tick_def RecordSuccessMetadata_def ClearUpstreamCircuitKeys_def
      ClearModelCircuitKeys_def settled_def map_del_def intro!: settled_sweep)

text \<open>
  C17: whatever the outcome of a request, reporting it ends the probes the request carried: success,
  a failure of any class and a cancellation all leave no probe pending on the route's circuits.
\<close>

theorem outcome_settles_probe:
  assumes "re_cache env = Some memory_cache" and "rs_UpstreamID route \<noteq> 0" and "routeModelCircuitKey route \<noteq> []"
  shows "settled route (ro_cache (MarkRouteSuccess env route st)) \<and>
    settled route (ro_cache (MarkRouteFailure env repo route cause st))"
  using MarkRouteSuccess_settles [OF assms] MarkRouteFailure_settles [OF assms] by blast

section \<open>What counts as a failure of the upstream\<close>

text \<open>Two caches whose circuits differ at most in cleared probes and swept, blocking-free circuits.\<close>

definition same_record :: "circuit_state option \<Rightarrow> circuit_state option \<Rightarrow> bool" where
  "same_record so so' \<longleftrightarrow> (case so' of None \<Rightarrow> True
     | Some cb' \<Rightarrow> \<exists>cb p. so = Some cb \<and> cb' = cb\<lparr>probeUntil := p\<rparr>)"

definition no_new_failure :: "cache \<Rightarrow> cache \<Rightarrow> bool" where
  "no_new_failure c c' \<longleftrightarrow> (\<forall>u. same_record (upstreamCB c u) (upstreamCB c' u)) \<and>
     (\<forall>k. same_record (modelCB c k) (modelCB c' k))"

lemma same_record_refl [simp]: "same_record so so"
proof (cases so)
  case (Some cb)
  have "cb = cb\<lparr>probeUntil := probeUntil cb\<rparr>" by simp
  then have "\<exists>p. cb = cb\<lparr>probeUntil := p\<rparr>" by (rule exI)
  then show ?thesis using Some by (simp add: same_record_def)
qed (simp add: same_record_def)

lemma same_record_release [simp]: "same_record so (map_option (probeUntil_update (\<lambda>_. 0)) so)"
  by (cases so) (auto simp: same_record_def)

lemma same_record_trans: "same_record a b \<Longrightarrow> same_record b c \<Longrightarrow> same_record a c"
  by (fastforce simp: same_record_def split: option.splits)

lemma no_new_failure_trans: "no_new_failure a b \<Longrightarrow> no_new_failure b c \<Longrightarrow> no_new_failure a c"
  unfolding no_new_failure_def using same_record_trans by blast

lemma no_new_failure_refl [simp]: "no_new_failure c c"
  by (simp add: no_new_failure_def)

lemma sweep_no_failure: "no_new_failure c (maybeSweepLocked now c)"
proof -
  have k: "(\<And>x. so' = Some x \<Longrightarrow> so = Some x) \<Longrightarrow> same_record so so'" for so so'
    by (cases so') (use same_record_refl in \<open>auto simp: same_record_def\<close>)
  show ?thesis unfolding no_new_failure_def
    by (intro conjI allI k) (auto dest: maybeSweep_upstreamCB(1) maybeSweep_modelCB(1))
qed

lemma release_no_failure: "no_new_failure c (ReleaseRouteProbes u mk c)"
  by (cases "trim_space mk = []") (auto simp: no_new_failure_def release_circuits)

lemma granted_release_no_failure:
  "no_new_failure (ro_cache st) (ro_cache (releaseGrantedRouteProbes memory_cache route st))"
  by (auto simp: releaseGrantedRouteProbes_def releaseUpstreamProbe_def Let_def
      intro: release_no_failure no_new_failure_trans)

lemma backoff_no_failure:
  "no_new_failure (ro_cache st) (ro_cache (recordRateLimitBackoff env repo memory_cache route cause st))"
proof -
  have "no_new_failure c (maybeSweepLocked now (c\<lparr>rateLimits := rl\<rparr>))" for c now rl
    using sweep_no_failure [of "c\<lparr>rateLimits := rl\<rparr>" now] by (simp add: no_new_failure_def)
  then show ?thesis by (auto simp: recordRateLimitBackoff_def RecordRateLimitBackoff_def Let_def tick_def)
qed

lemma metadata_no_failure: "no_new_failure c (RecordFailureMetadata now u e c)"
  using sweep_no_failure [of "c\<lparr>upstreamMeta := m\<rparr>" now for m] by (simp add: no_new_failure_def RecordFailureMetadata_def)

lemma not_circuit_no_failure:
  assumes "re_cache env = Some memory_cache" and "classifyRouteFailure (rp_Classification repo) cause \<noteq> RouteFailureCircuit"
  shows "no_new_failure (ro_cache st) (ro_cache (MarkRouteFailure env repo route cause st))"
proof (cases "rs_UpstreamID route = 0")
  case False
  let ?st = "st\<lparr>ro_ticks := Suc (ro_ticks st), ro_cache := RecordFailureMetadata (re_clock env (ro_ticks st))
    (rs_UpstreamID route) (routeFailureSummary cause) (ro_cache st)\<rparr>"
  let ?st' = "releaseGrantedRouteProbes memory_cache route ?st"
  have m: "no_new_failure (ro_cache st) (ro_cache ?st)" by (simp add: metadata_no_failure)
  have r: "no_new_failure (ro_cache st) (ro_cache ?st')"
    by (rule no_new_failure_trans [OF m granted_release_no_failure])
  moreover have "no_new_failure (ro_cache st) (ro_cache (recordRateLimitBackoff env repo memory_cache route cause ?st'))"
    using r backoff_no_failure by (rule no_new_failure_trans)
  ultimately show ?thesis using assms False
    by (cases "classifyRouteFailure (rp_Classification repo) cause") (simp_all add: MarkRouteFailure_def Let_def tick_def)
qed (use assms in \<open>simp add: MarkRouteFailure_def\<close>)

text \<open>
  No circuit is charged for what is not the upstream's failure. When the caller canceled the
  request, or the upstream answered a client error (4xx) that the rules list, with 429 listed as a
  rate limit, then reporting the failure adds nothing to any circuit's failures and opens none.
\<close>

theorem innocent_failures:
  assumes "re_cache env = Some memory_cache"
    and "errors_is NodeCanceled e \<or>
      (as_upstream e = Some ue \<and> ue_StatusCode ue = 429 \<and> matchesFailureRule (ec_RateLimitErrors (rp_Classification repo)) ''429'') \<or>
      (as_upstream e = Some ue \<and> 400 \<le> ue_StatusCode ue \<and> ue_StatusCode ue < 500 \<and> ue_StatusCode ue \<noteq> 429 \<and>
         matchesFailureRule (ec_IgnoreErrors (rp_Classification repo)) ''4xx'')"
  shows "no_new_failure (ro_cache st) (ro_cache (MarkRouteFailure env repo route (Some e) st))"
proof (rule not_circuit_no_failure [OF assms(1)])
  show "classifyRouteFailure (rp_Classification repo) (Some e) \<noteq> RouteFailureCircuit"
    using assms(2) by (auto simp: classifyRouteFailure_def isRateLimitFailure_def isIgnorableFailure_def)
qed

text \<open>
  A failure is charged to the circuit exactly when none of the exceptions applies. The
  configured list of circuit errors takes no part in the decision.
\<close>

theorem circuit_class_iff:
  "classifyRouteFailure rules (Some e) = RouteFailureCircuit \<longleftrightarrow>
     \<not> errors_is NodeCanceled e \<and>
     (case as_upstream e of None \<Rightarrow> True
      | Some u \<Rightarrow> \<not> (ue_StatusCode u = 429 \<and> matchesFailureRule (ec_RateLimitErrors rules) ''429'') \<and>
          \<not> (400 \<le> ue_StatusCode u \<and> ue_StatusCode u < 500 \<and> ue_StatusCode u \<noteq> 429 \<and>
             matchesFailureRule (ec_IgnoreErrors rules) ''4xx''))"
  by (auto simp: classifyRouteFailure_def isRateLimitFailure_def isIgnorableFailure_def split: option.splits)

text \<open>
  A request goes to another route only if it may be repeated: never after a cancellation,
  never once an upstream has accepted it (at any depth of the error), and, when an upstream answered,
  only on a timeout, a rate limit or a server error.
\<close>

theorem failover_is_safe:
  assumes "ShouldFailoverRoute (Some e)"
  shows "\<not> errors_is NodeCanceled e \<and> \<not> RequestWasAccepted e \<and>
    (case as_upstream e of
       None \<Rightarrow> errors_is NodeDeadlineExceeded e \<or> errors_is NodeEOF e \<or> errors_is NodeUnexpectedEOF e \<or> as_net e
     | Some u \<Rightarrow> ue_StatusCode u \<in> {408, 429} \<or> 500 \<le> ue_StatusCode u)"
  using assms by (auto simp: ShouldFailoverRoute_def split: option.splits if_splits)

lemma failover_is_safe_witness:
  "\<not> RequestWasAccepted (GoError (NodeOther ''call'') [GoError (NodeUpstream \<lparr>ue_StatusCode = 503, ue_DebugHeaders = None\<rparr>) []])"
proof -
  have "ShouldFailoverRoute (Some (GoError (NodeOther ''call'') [GoError (NodeUpstream \<lparr>ue_StatusCode = 503, ue_DebugHeaders = None\<rparr>) []]))"
    by code_simp
  then show ?thesis using failover_is_safe by blast
qed

section \<open>Access\<close>


section \<open>Examples\<close>

text \<open>Upstream 1 is open until second 200, so the request goes to upstream 2, which has lower priority.\<close>

definition demo_open :: cache where
  "demo_open = new_cache\<lparr>upstreamCB := [1 \<mapsto> new_circuit\<lparr>openUntil := 200 * second\<rparr>]\<rparr>"

definition demo_permissions :: permission_groups where
  "demo_permissions = \<lparr>pg_ModelGroups = (\<lambda>m. Inr [3, 4]), pg_UserGroups = (\<lambda>u. Inr [1]), pg_DefaultGroups = Inr [2],
     pg_SubscriptionGroup = Some (\<lambda>u. Inr (Some 4))\<rparr>"

definition demo_safe_repo :: route_repo where
  "demo_safe_repo = (demo_repo [demo_row 5 1 ''b1'' 1, demo_row 6 2 ''b2'' 2])\<lparr>rp_Permissions := Some demo_permissions\<rparr>"

definition demo_user_input :: route_input where
  "demo_user_input = demo_input\<lparr>ri_UserID := 7\<rparr>"

lemma demo_open_route:
  "map_sum (\<lambda>e. e) (\<lambda>r. (rs_RouteID r, rs_UpstreamID r)) (fst (ResolveRoute (demo_env memory_cache ''failover'')
     demo_safe_repo demo_user_input (demo_router demo_open))) = Inr (6, 2)"
  by code_simp

lemma demo_resolved:
  obtains route st' where "ResolveRoute (demo_env memory_cache ''failover'') demo_safe_repo demo_user_input
      (demo_router demo_open) = (Inr route, st')" "rs_RouteID route = 6" "rs_UpstreamID route = 2"
proof -
  obtain res st' where r: "ResolveRoute (demo_env memory_cache ''failover'') demo_safe_repo demo_user_input
      (demo_router demo_open) = (res, st')" by fastforce
  then obtain route where "res = Inr route" "rs_RouteID route = 6 \<and> rs_UpstreamID route = 2"
    using demo_open_route by (cases res) auto
  then show ?thesis using that r by blast
qed

lemma open_circuit_avoided_witness:
  "\<exists>route st'. ResolveRoute (demo_env memory_cache ''failover'') demo_safe_repo demo_user_input (demo_router demo_open) =
      (Inr route, st') \<and> \<not> open_until (150 * second) (upstreamCB demo_open (rs_UpstreamID route))"
proof -
  obtain route st' where r: "ResolveRoute (demo_env memory_cache ''failover'') demo_safe_repo demo_user_input
      (demo_router demo_open) = (Inr route, st')" by (rule demo_resolved)
  have "re_cache (demo_env memory_cache ''failover'') = Some memory_cache"
    "bd_Enabled (fst (loadBreakerDefaults (demo_env memory_cache ''failover'') demo_safe_repo (demo_router demo_open)))"
    by (simp add: demo_env_def) code_simp
  moreover have "\<forall>n \<in> {ro_ticks (demo_router demo_open)..<ro_ticks st'}. 0 \<le> re_clock (demo_env memory_cache ''failover'') n \<and>
      re_clock (demo_env memory_cache ''failover'') n < 150 * second" by (simp add: demo_env_def go_time)
  ultimately have "\<not> open_until (150 * second) (upstreamCB (ro_cache (demo_router demo_open)) (rs_UpstreamID route))"
    using open_circuit_avoided [OF r] by blast
  then show ?thesis using r by (auto simp: demo_router_def)
qed

lemma route_sound_witness:
  "\<exists>route st'. ResolveRoute (demo_env memory_cache ''failover'') demo_safe_repo demo_user_input (demo_router demo_open) =
      (Inr route, st') \<and> rs_APIKey route \<in> {''k1'', ''k2''}"
proof -
  obtain route st' where r: "ResolveRoute (demo_env memory_cache ''failover'') demo_safe_repo demo_user_input
      (demo_router demo_open) = (Inr route, st')" by (rule demo_resolved)
  have keys: "ak_Key ` set (active_keys (kc_Keys cfg)) \<subseteq> {''k1'', ''k2''}"
    if "parseAPIKeysConfig (demo_env memory_cache ''failover'') x = Some cfg" for x cfg
    using that by (auto simp: parseAPIKeysConfig_def demo_env_def active_keys_def Let_def split: if_splits)
  show ?thesis using route_sound [OF r] r keys by blast
qed


definition demo_probing_route :: resolved_route where
  "demo_probing_route = (buildResolvedRoute (demo_env memory_cache ''failover'') (demo_row 5 1 ''b1'' 1) ''k1'')
     \<lparr>rs_UpstreamProbeGranted := True, rs_ModelProbeGranted := True\<rparr>"

definition demo_probing :: cache where
  "demo_probing = new_cache\<lparr>
     upstreamCB := [1 \<mapsto> new_circuit\<lparr>openUntil := 90 * second, probeUntil := 130 * second\<rparr>],
     modelCB := [modelCircuitKey 1 ''upstream-model-b1'' \<mapsto> new_circuit\<lparr>openUntil := 95 * second, probeUntil := 130 * second\<rparr>]\<rparr>"

lemma outcome_settles_probe_witness:
  "\<not> settled demo_probing_route demo_probing \<and>
   settled demo_probing_route (ro_cache (MarkRouteFailure (demo_env memory_cache ''failover'') demo_safe_repo
     demo_probing_route (Some (GoError NodeCanceled [])) (demo_router demo_probing)))"
proof
  have k: "rs_UpstreamID demo_probing_route = 1" "rs_UpstreamProbeGranted demo_probing_route"
    "routeModelCircuitKey demo_probing_route = ''upstream-model-b1''"
    by (simp add: demo_probing_route_def demo_row_def, simp add: demo_probing_route_def, code_simp)
  then show "\<not> settled demo_probing_route demo_probing"
    by (simp add: settled_def demo_probing_def go_time)
  show "settled demo_probing_route (ro_cache (MarkRouteFailure (demo_env memory_cache ''failover'') demo_safe_repo
     demo_probing_route (Some (GoError NodeCanceled [])) (demo_router demo_probing)))"
    using outcome_settles_probe [of "demo_env memory_cache ''failover''" demo_probing_route] k
    by (simp add: demo_env_def)
qed

lemma innocent_failures_witness:
  "no_new_failure demo_probing (ro_cache (MarkRouteFailure (demo_env memory_cache ''failover'') demo_safe_repo
     demo_probing_route (Some (GoError (NodeUpstream \<lparr>ue_StatusCode = 404, ue_DebugHeaders = None\<rparr>) [])) (demo_router demo_probing)))"
proof -
  have "matchesFailureRule (ec_IgnoreErrors (rp_Classification demo_safe_repo)) ''4xx''"
    "re_cache (demo_env memory_cache ''failover'') = Some memory_cache"
    by code_simp (simp add: demo_env_def)
  then show ?thesis
    using innocent_failures [of "demo_env memory_cache ''failover''" _ "\<lparr>ue_StatusCode = 404, ue_DebugHeaders = None\<rparr>"
        demo_safe_repo "demo_router demo_probing"]
    by (simp add: as_upstream_def demo_router_def)
qed

end
