(* ===== verification/Route_Keys.thy ===== *)
theory Route_Keys
  imports Route_Safety
begin

text \<open>
  Which API key a request uses, and which headers: rotation over the active keys of an upstream with
  the in-process cache, and the merge of the upstream's and the route's header settings.
\<close>

section \<open>Rotation\<close>

text \<open>The keys a run of \<open>n\<close> selections for one upstream picks.\<close>

fun key_picks :: "'s route_env \<Rightarrow> nat \<Rightarrow> api_keys_config \<Rightarrow> nat \<Rightarrow> 's router \<Rightarrow> string list" where
  "key_picks env u cfg 0 st = []"
| "key_picks env u cfg (Suc n) st =
     (case selectAPIKey env u cfg st of
        (Inl e, st') \<Rightarrow> []
      | (Inr k, st') \<Rightarrow> k # key_picks env u cfg n st')"

definition counter_of :: "cache \<Rightarrow> nat \<Rightarrow> int" where
  "counter_of c u = key_next (map_get (keyCounters c) \<lparr>key_next = 0, key_lastUsed = 0\<rparr> u)"

lemma IncrAPIKeyCounter_next:
  "IncrAPIKeyCounter now u c = (i, ok, c') \<Longrightarrow> i = counter_of c u \<and> ok \<and> counter_of c' u = wrap64 (counter_of c u + 1)"
proof -
  assume a: "IncrAPIKeyCounter now u c = (i, ok, c')"
  let ?k = "\<lparr>key_next = wrap64 (counter_of c u + 1), key_lastUsed = now\<rparr>"
  have "c' = maybeSweepLocked now (c\<lparr>keyCounters := (keyCounters c)(u \<mapsto> ?k)\<rparr>)" "i = counter_of c u" "ok"
    using a by (auto simp: IncrAPIKeyCounter_def counter_of_def Let_def)
  moreover have "keyCounters (maybeSweepLocked now (c\<lparr>keyCounters := (keyCounters c)(u \<mapsto> ?k)\<rparr>)) u = Some ?k"
    by (rule maybeSweep_keyCounters(2)) (simp_all add: keyCounterRetention_def go_time)
  ultimately show ?thesis by (simp add: counter_of_def)
qed

lemma selectAPIKey_round_robin:
  assumes "re_cache env = Some memory_cache" and "u \<noteq> 0" and "trim_space (kc_Strategy cfg) = ''round_robin''"
    and "active_keys (kc_Keys cfg) \<noteq> []" and "0 \<le> counter_of (ro_cache st) u" and "counter_of (ro_cache st) u < max_int64"
  shows "\<exists>st'. selectAPIKey env u cfg st = (Inr (ak_Key (active_keys (kc_Keys cfg) !
      (nat (counter_of (ro_cache st) u) mod length (active_keys (kc_Keys cfg))))), st') \<and>
    counter_of (ro_cache st') u = counter_of (ro_cache st) u + 1"
proof -
  let ?c = "counter_of (ro_cache st) u"
  obtain i ok c' where inc: "IncrAPIKeyCounter (re_clock env (ro_ticks st)) u (ro_cache st) = (i, ok, c')"
    by (metis prod_cases3)
  have w: "wrap64 (?c + 1) = ?c + 1" using assms(5,6) by (intro wrap64_id) (simp add: int64_defs)
  have m: "?c mod 2 ^ 64 = ?c" using assms(5,6) by (intro mod_pos_pos_trivial) (simp_all add: int64_defs)
  have ne: "kc_Keys cfg \<noteq> []" using assms(4) by (auto simp: active_keys_def)
  note n = IncrAPIKeyCounter_next [OF inc]
  show ?thesis
    using assms(1-4) inc n w m ne
    by (simp add: selectAPIKey_def pickActiveKey_def nextAPIKeyIndex_def tick_def Let_def)
qed

text \<open>
  Round-robin rotation is fair. With the in-process cache, consecutive selections for an
  upstream walk through its active keys in order, wrapping around, from where the counter stands; so
  any run as long as the number of active keys uses each of them once.
\<close>

theorem round_robin_sequence:
  assumes "re_cache env = Some memory_cache" and "u \<noteq> 0" and "trim_space (kc_Strategy cfg) = ''round_robin''"
    and "active_keys (kc_Keys cfg) \<noteq> []" and "0 \<le> counter_of (ro_cache st) u"
    and "counter_of (ro_cache st) u + int n \<le> max_int64"
  shows "key_picks env u cfg n st = map (\<lambda>i. ak_Key (active_keys (kc_Keys cfg) !
    ((nat (counter_of (ro_cache st) u) + i) mod length (active_keys (kc_Keys cfg))))) [0..<n]"
  using assms(5,6)
proof (induction n arbitrary: st)
  case (Suc n)
  let ?act = "active_keys (kc_Keys cfg)" and ?c = "counter_of (ro_cache st) u"
  have lt: "?c < max_int64" using Suc.prems by linarith
  from selectAPIKey_round_robin [OF assms(1-4) Suc.prems(1) lt]
  obtain st' where st': "selectAPIKey env u cfg st = (Inr (ak_Key (?act ! (nat ?c mod length ?act))), st')"
    "counter_of (ro_cache st') u = ?c + 1" by blast
  have "key_picks env u cfg n st' = map (\<lambda>i. ak_Key (?act ! ((nat (?c + 1) + i) mod length ?act))) [0..<n]"
    using Suc.IH [of st'] st'(2) Suc.prems by simp
  moreover have "nat (?c + 1) + i = nat ?c + Suc i" for i using Suc.prems(1) by simp
  moreover have "[0..<Suc n] = 0 # map Suc [0..<n]" by (simp add: map_Suc_upt upt_conv_Cons)
  ultimately show ?case using st'(1) by (simp add: comp_def)
qed simp

lemma round_robin_sequence_witness:
  "key_picks (demo_env memory_cache ''round_robin'') 1
     \<lparr>kc_Strategy = ''round_robin'', kc_Keys = [\<lparr>ak_Key = ''a'', ak_Status = [], ak_Note = []\<rparr>,
        \<lparr>ak_Key = ''b'', ak_Status = ''disabled'', ak_Note = []\<rparr>, \<lparr>ak_Key = ''c'', ak_Status = ''active'', ak_Note = []\<rparr>]\<rparr>
     3 (demo_router new_cache) = [''a'', ''c'', ''a'']"
proof -
  let ?cfg = "\<lparr>kc_Strategy = ''round_robin'', kc_Keys = [\<lparr>ak_Key = ''a'', ak_Status = [], ak_Note = []\<rparr>,
        \<lparr>ak_Key = ''b'', ak_Status = ''disabled'', ak_Note = []\<rparr>, \<lparr>ak_Key = ''c'', ak_Status = ''active'', ak_Note = []\<rparr>]\<rparr>"
  have "active_keys (kc_Keys ?cfg) = [\<lparr>ak_Key = ''a'', ak_Status = [], ak_Note = []\<rparr>, \<lparr>ak_Key = ''c'', ak_Status = ''active'', ak_Note = []\<rparr>]"
    by code_simp
  moreover have "trim_space (kc_Strategy ?cfg) = ''round_robin''" by code_simp
  moreover have "counter_of (ro_cache (demo_router new_cache)) 1 = 0"
    by (simp add: counter_of_def demo_router_def new_cache_def)
  moreover have "re_cache (demo_env memory_cache ''round_robin'') = Some memory_cache" by (simp add: demo_env_def)
  ultimately show ?thesis
    using round_robin_sequence [of "demo_env memory_cache ''round_robin''" 1 ?cfg "demo_router new_cache" 3]
    by (simp add: int64_defs upt_rec)
qed

section \<open>Headers\<close>

text \<open>The value of a header in a list of settings, names compared by \<open>fd\<close>, and what a setting gives it.\<close>

definition header_in :: "(string \<Rightarrow> string) \<Rightarrow> string \<Rightarrow> (string \<times> string) list \<Rightarrow> string option" where
  "header_in fd h kvs = map_of (map (\<lambda>(k, v). (fd k, v)) kvs) (fd h)"

definition header_of :: "(string \<Rightarrow> string) \<Rightarrow> string \<Rightarrow> (string \<times> string) list \<Rightarrow> string option" where
  "header_of fd h kvs = header_in fd h (rev (map (\<lambda>(k, v). (trim_space k, v)) (filter (\<lambda>(k, v). trim_space k \<noteq> []) kvs)))"

definition setting_of :: "'s route_env \<Rightarrow> string \<Rightarrow> string \<Rightarrow> string option" where
  "setting_of env h raw =
     (if trim_space raw = [] then None
      else case re_unmarshalMap env raw of None \<Rightarrow> None
        | Some parsed \<Rightarrow> header_of (re_fold env) h (sort_key fst parsed))"

lemma header_in_simps:
  "header_in fd h [] = None"
  "header_in fd h ((k, v) # kvs) = (if fd k = fd h then Some v else header_in fd h kvs)"
  "header_in fd h (xs @ ys) = (case header_in fd h xs of None \<Rightarrow> header_in fd h ys | Some v \<Rightarrow> Some v)"
  by (auto simp: header_in_def map_add_def split: option.splits)

lemma header_in_filter:
  "header_in fd h (filter (\<lambda>(k, v). fd k \<noteq> fd key) t) = (if fd key = fd h then None else header_in fd h t)"
  by (induction t) (auto simp: header_in_simps)

lemma put_header_in:
  "header_in fd h (put_header fd (k, v) t) =
     (if trim_space k \<noteq> [] \<and> fd (trim_space k) = fd h then Some v else header_in fd h t)"
  by (auto simp: put_header_def Let_def header_in_simps header_in_filter split: option.splits)

lemma fold_put_header_in:
  "header_in fd h (List.fold (put_header fd) kvs t) =
     (case header_of fd h kvs of None \<Rightarrow> header_in fd h t | Some v \<Rightarrow> Some v)"
  by (induction kvs arbitrary: t)
    (auto simp: header_of_def header_in_simps put_header_in split: option.splits)

lemma merge_into_in:
  "header_in (re_fold env) h (mergeIntoJSONMap env raw t) =
     (case setting_of env h raw of None \<Rightarrow> header_in (re_fold env) h t | Some v \<Rightarrow> Some v)"
  by (auto simp: mergeIntoJSONMap_def setting_of_def fold_put_header_in split: option.splits)

text \<open>Names under which no two entries are the same header.\<close>

definition distinct_names :: "(string \<Rightarrow> string) \<Rightarrow> (string \<times> string) list \<Rightarrow> bool" where
  "distinct_names fd kvs \<longleftrightarrow> distinct (map (\<lambda>(k, v). fd k) kvs)"

lemma put_header_distinct: "distinct_names fd t \<Longrightarrow> distinct_names fd (put_header fd kv t)"
  by (auto simp: distinct_names_def put_header_def Let_def case_prod_unfold distinct_map filter_map inj_on_def)

lemma merge_distinct: "distinct_names (re_fold env) t \<Longrightarrow> distinct_names (re_fold env) (mergeIntoJSONMap env raw t)"
proof -
  have "distinct_names fd t \<Longrightarrow> distinct_names fd (List.fold (put_header fd) kvs t)" for fd kvs t
    by (induction kvs arbitrary: t) (simp_all add: put_header_distinct)
  then show "distinct_names (re_fold env) t \<Longrightarrow> ?thesis" by (simp add: mergeIntoJSONMap_def split: option.split)
qed

text \<open>
  Merging headers. Whatever the two settings are and however they spell the names, the merged
  headers name no header twice, and each header has the value of the route's setting if that names
  it and else the value of the upstream's setting; of several spellings in one setting the last in
  byte order counts.
\<close>

theorem header_override:
  "distinct_names (re_fold env) (mergeIntoJSONMap env (trim_space routeHeaders) (mergeIntoJSONMap env (trim_space upstreamHeaders) [])) \<and>
   header_in (re_fold env) h (mergeIntoJSONMap env (trim_space routeHeaders) (mergeIntoJSONMap env (trim_space upstreamHeaders) [])) =
     (case setting_of env h (trim_space routeHeaders) of
        Some v \<Rightarrow> Some v | None \<Rightarrow> setting_of env h (trim_space upstreamHeaders))"
proof
  have "distinct_names (re_fold env) []" by (simp add: distinct_names_def)
  then show "distinct_names (re_fold env)
      (mergeIntoJSONMap env (trim_space routeHeaders) (mergeIntoJSONMap env (trim_space upstreamHeaders) []))"
    by (intro merge_distinct)
qed (simp add: merge_into_in header_in_simps split: option.split)

section \<open>Rotation across routes\<close>

text \<open>
  Selection runs once for every candidate row, not once for the request. With two routes of one
  upstream in a group and two active keys, the counter moves by two per request, so the first route
  is always paired with the first key and the second route with the second.
\<close>

lemma round_robin_skew:
  "map (map_sum (\<lambda>e. e) (\<lambda>r. (rs_RouteID r, rs_APIKey r))) (
     let run = ResolveRoute (demo_env memory_cache ''round_robin'') (demo_repo [demo_row 5 1 ''b1'' 1, demo_row 6 1 ''b2'' 1]) demo_input;
         (r1, st1) = run (demo_router new_cache); (r2, st2) = run st1
     in [r1, r2]) = [Inr (5, ''k1''), Inr (5, ''k1'')]"
  by code_simp

end
