(* ===== verification/Go_Calendar.thy ===== *)
theory Go_Calendar
  imports Go_Prelude
begin

text \<open>
  The calendar of Go's \<open>time\<close> package, as far as the code uses it: civil dates of the proleptic
  Gregorian calendar, \<open>time.Date\<close> with its normalisation of months and days, \<open>Year\<close>, \<open>Month\<close>, \<open>Day\<close>,
  \<open>Weekday\<close>, \<open>Clock\<close> and \<open>AddDate\<close>. A \<open>time.Location\<close> is what its table answers: for a second, the
  offset from UTC in seconds and the half-open range of seconds in which that offset applies. The tables
  are data of the host, so a location is an argument; days are counted from the first of January of year 1.
\<close>

section \<open>Civil dates\<close>

datatype civil = Civil (cv_year: int) (cv_month: int) (cv_day: int)

instantiation civil :: linorder
begin

definition less_eq_civil :: "civil \<Rightarrow> civil \<Rightarrow> bool" where
  "less_eq_civil a b \<longleftrightarrow> cv_year a < cv_year b \<or> cv_year a = cv_year b \<and>
     (cv_month a < cv_month b \<or> cv_month a = cv_month b \<and> cv_day a \<le> cv_day b)"

definition less_civil :: "civil \<Rightarrow> civil \<Rightarrow> bool" where
  "less_civil a b \<longleftrightarrow> a \<le> b \<and> \<not> b \<le> a"

instance
  by standard (auto simp: less_eq_civil_def less_civil_def civil.expand)

end

lemma civil_less: "a < b \<longleftrightarrow> cv_year a < cv_year b \<or> cv_year a = cv_year b \<and>
    (cv_month a < cv_month b \<or> cv_month a = cv_month b \<and> cv_day a < cv_day (b::civil))"
  by (auto simp: less_eq_civil_def less_civil_def)

definition is_leap :: "int \<Rightarrow> bool" where
  "is_leap y \<longleftrightarrow> y mod 4 = 0 \<and> (y mod 100 \<noteq> 0 \<or> y mod 400 = 0)"

definition days_before_year :: "int \<Rightarrow> int" where
  "days_before_year y = 365 * (y - 1) + (y - 1) div 4 - (y - 1) div 100 + (y - 1) div 400"

definition days_before_month :: "int \<Rightarrow> int \<Rightarrow> int" where
  "days_before_month y m =
     (if m \<le> 1 then 0 else if m = 2 then 31
      else (if is_leap y then 1 else 0) +
        (if m = 3 then 59 else if m = 4 then 90 else if m = 5 then 120 else if m = 6 then 151
         else if m = 7 then 181 else if m = 8 then 212 else if m = 9 then 243 else if m = 10 then 273
         else if m = 11 then 304 else if m = 12 then 334 else 365))"

definition month_len :: "int \<Rightarrow> int \<Rightarrow> int" where
  "month_len y m = days_before_month y (m + 1) - days_before_month y m"

definition year_len :: "int \<Rightarrow> int" where
  "year_len y = (if is_leap y then 366 else 365)"

definition civil_ok :: "civil \<Rightarrow> bool" where
  "civil_ok c \<longleftrightarrow> 1 \<le> cv_month c \<and> cv_month c \<le> 12 \<and> 1 \<le> cv_day c \<and> cv_day c \<le> month_len (cv_year c) (cv_month c)"

text \<open>The day of a date; months outside one to twelve carry into the year, days are simply added.\<close>

definition date_days :: "int \<Rightarrow> int \<Rightarrow> int \<Rightarrow> int" where
  "date_days y m d = days_before_year (y + (m - 1) div 12) +
     days_before_month (y + (m - 1) div 12) ((m - 1) mod 12 + 1) + (d - 1)"

definition civil_days :: "civil \<Rightarrow> int" where
  "civil_days c = date_days (cv_year c) (cv_month c) (cv_day c)"

text \<open>Back from a day: the cycles of 400, 100, 4 and 1 years, then the month by its first day.\<close>

definition year_and_day :: "int \<Rightarrow> int \<times> int" where
  "year_and_day n =
     (let a = n div 146097; r = n mod 146097;
          b = min 3 (r div 36524); r2 = r - 36524 * b;
          c = r2 div 1461; r3 = r2 mod 1461;
          e = min 3 (r3 div 365)
      in (400 * a + 100 * b + 4 * c + e + 1, r3 - 365 * e))"

fun find_month :: "int \<Rightarrow> int \<Rightarrow> nat \<Rightarrow> int" where
  "find_month y yday 0 = 1"
| "find_month y yday (Suc k) =
     (if days_before_month y (int (Suc (Suc k))) \<le> yday then int (Suc (Suc k)) else find_month y yday k)"

definition civil_of :: "int \<Rightarrow> civil" where
  "civil_of n =
     (let (y, yday) = year_and_day n; m = find_month y yday 11
      in Civil y m (yday - days_before_month y m + 1))"

section \<open>Instants in a location\<close>

type_synonym location = "int \<Rightarrow> int \<times> int \<times> int"

definition utc :: location where
  "utc s = (0, - (2 ^ 63), 2 ^ 63 - 1)"

definition day_ns :: duration where "day_ns = 24 * hour"

definition zone_offset :: "location \<Rightarrow> gotime \<Rightarrow> int" where
  "zone_offset loc t = fst (loc (t div second))"

definition local_ns :: "location \<Rightarrow> gotime \<Rightarrow> int" where
  "local_ns loc t = t + zone_offset loc t * second"

definition local_day :: "location \<Rightarrow> gotime \<Rightarrow> int" where
  "local_day loc t = local_ns loc t div day_ns"

definition local_clock :: "location \<Rightarrow> gotime \<Rightarrow> duration" where
  "local_clock loc t = local_ns loc t mod day_ns"

definition Date :: "location \<Rightarrow> gotime \<Rightarrow> civil" where
  "Date loc t = civil_of (local_day loc t)"

definition Weekday :: "location \<Rightarrow> gotime \<Rightarrow> int" where
  "Weekday loc t = (local_day loc t + 1) mod 7"

definition clock_hour :: "location \<Rightarrow> gotime \<Rightarrow> int" where
  "clock_hour loc t = local_clock loc t div hour"

definition clock_minute :: "location \<Rightarrow> gotime \<Rightarrow> int" where
  "clock_minute loc t = local_clock loc t div minute mod 60"

text \<open>
  \<open>time.Date\<close>: the wall-clock reading is taken as if it were UTC, and corrected by the offset that
  applies at that second; if the corrected second lies outside the range of that offset, by the
  offset that applies there.
\<close>

definition at_clock :: "location \<Rightarrow> int \<Rightarrow> duration \<Rightarrow> gotime" where
  "at_clock loc n clock =
     (let wall = n * day_ns + clock; sec = wall div second
      in case loc sec of (offset, start, stop) \<Rightarrow>
           if offset = 0 then wall
           else wall - (if sec - offset < start \<or> stop \<le> sec - offset then fst (loc (sec - offset)) else offset) * second)"

definition go_date :: "location \<Rightarrow> int \<Rightarrow> int \<Rightarrow> int \<Rightarrow> duration \<Rightarrow> gotime" where
  "go_date loc y m d clock = at_clock loc (date_days y m d) clock"

definition AddDate :: "location \<Rightarrow> gotime \<Rightarrow> int \<Rightarrow> int \<Rightarrow> int \<Rightarrow> gotime" where
  "AddDate loc t years months days =
     (let c = Date loc t
      in go_date loc (cv_year c + years) (cv_month c + months) (cv_day c + days) (local_clock loc t))"

section \<open>Days and dates\<close>

lemma div_bounds:
  assumes "(0::int) < d"
  shows "x div d * d \<le> x" and "x < x div d * d + d"
  using pos_mod_bound [OF assms, of x] pos_mod_sign [OF assms, of x] div_mult_mod_eq [of x d] by linarith+

lemma div_pred:
  assumes "(0::int) < d"
  shows "x div d = (x - 1) div d + (if x mod d = 0 then 1 else 0)"
proof (cases "x mod d = 0")
  case True
  then have "x - 1 = d * (x div d - 1) + (d - 1)" using div_mult_mod_eq [of x d] by (simp add: algebra_simps)
  then have "(x - 1) div d = x div d - 1" using assms int_div_pos_eq [of "x - 1" d "x div d - 1" "d - 1"] by simp
  then show ?thesis using True by simp
next
  case False
  then have "0 \<le> x mod d - 1" using pos_mod_sign [OF assms, of x] by linarith
  moreover have "x - 1 = d * (x div d) + (x mod d - 1)" using div_mult_mod_eq [of x d] by (simp add: algebra_simps)
  ultimately have "(x - 1) div d = x div d"
    using assms pos_mod_bound [OF assms, of x] int_div_pos_eq [of "x - 1" d "x div d" "x mod d - 1"] by simp
  then show ?thesis using False by simp
qed

lemma leap_step: "days_before_year (y + 1) = days_before_year y + year_len y"
proof -
  have d: "y div 4 = (y - 1) div 4 + (if y mod 4 = 0 then 1 else 0)"
    "y div 100 = (y - 1) div 100 + (if y mod 100 = 0 then 1 else 0)"
    "y div 400 = (y - 1) div 400 + (if y mod 400 = 0 then 1 else 0)" by (rule div_pred, simp)+
  have m: "y mod 400 = 0 \<Longrightarrow> y mod 100 = 0" "y mod 100 = 0 \<Longrightarrow> y mod 4 = 0"
    by (auto simp: mod_eq_0_iff_dvd intro: dvd_trans [of 100 400] dvd_trans [of 4 100])
  define A B C where abc: "A \<longleftrightarrow> y mod 4 = 0" "B \<longleftrightarrow> y mod 100 = 0" "C \<longleftrightarrow> y mod 400 = 0"
  have "C \<longrightarrow> B" "B \<longrightarrow> A" using m by (simp_all add: abc)
  moreover have "y div 4 = (y - 1) div 4 + (if A then 1 else 0)" "y div 100 = (y - 1) div 100 + (if B then 1 else 0)"
    "y div 400 = (y - 1) div 400 + (if C then 1 else 0)" using d by (simp_all only: abc)
  moreover have "365 * (y + 1 - 1) + q4 - q100 + q400 = 365 * (y - 1) + p4 - p100 + p400 + (if A \<and> (\<not> B \<or> C) then 366 else 365)"
    if "C \<longrightarrow> B" "B \<longrightarrow> A" "q4 = p4 + (if A then 1 else 0)" "q100 = p100 + (if B then 1 else 0)" "q400 = p400 + (if C then 1 else 0)"
    for p4 p100 p400 q4 q100 q400 :: int using that(1,2) unfolding that(3-5) by (cases A; cases B; cases C; simp)
  ultimately show ?thesis unfolding days_before_year_def year_len_def is_leap_def abc [symmetric] add_diff_cancel_right' by blast
qed

lemma days_before_year_mono: "x \<le> y \<Longrightarrow> days_before_year x \<le> days_before_year y"
proof (induction y rule: int_ge_induct)
  case (step i)
  then show ?case unfolding leap_step by (simp add: year_len_def)
qed simp

lemma days_before_year_less: "x < y \<Longrightarrow> days_before_year x + year_len x \<le> days_before_year y"
  using days_before_year_mono [of "x + 1" y] by (simp add: leap_step)

lemma month_total [simp]: "days_before_month y 1 = 0" "days_before_month y 13 = year_len y"
  by (simp_all add: days_before_month_def year_len_def)

lemma month_len_range:
  assumes "1 \<le> m" and "m \<le> 12"
  shows "28 \<le> month_len y m" and "month_len y m \<le> 31"
proof -
  have "m = 1 \<or> m = 2 \<or> m = 3 \<or> m = 4 \<or> m = 5 \<or> m = 6 \<or> m = 7 \<or> m = 8 \<or> m = 9 \<or> m = 10 \<or> m = 11 \<or> m = 12"
    using assms by presburger
  then show "28 \<le> month_len y m" and "month_len y m \<le> 31"
    by (auto simp: month_len_def days_before_month_def)
qed

lemma days_before_month_step: "days_before_month y (m + 1) = days_before_month y m + month_len y m"
  by (simp add: month_len_def)

lemma days_before_month_mono:
  assumes "1 \<le> m" and "m \<le> k" and "k \<le> 13"
  shows "days_before_month y m \<le> days_before_month y k"
  using assms(2,3)
proof (induction k rule: int_ge_induct)
  case (step i)
  then show ?case using assms(1) month_len_range [of i y] by (simp add: days_before_month_step)
qed simp

text \<open>A cycle of shorter cycles, where the last of them may be longer by a rest.\<close>

lemma cycle_rest:
  assumes "0 < d" and "0 \<le> x" and "0 \<le> (k::int)"
  shows "0 \<le> min k (x div d)" and "min k (x div d) \<le> k" and "0 \<le> x - d * min k (x div d)"
    and "min k (x div d) < k \<Longrightarrow> x - d * min k (x div d) < d"
    and "x - d * min k (x div d) \<le> max (d - 1) (x - d * k)"
    and "d \<le> x - d * min k (x div d) \<Longrightarrow> min k (x div d) = k"
proof -
  define q where q: "q = x div d"
  have b: "q * d \<le> x" "x < q * d + d" "0 \<le> q" unfolding q using div_bounds [OF assms(1), of x] assms by (simp_all add: pos_imp_zdiv_nonneg_iff)
  have "d * min k q \<le> d * q" using assms(1) by (intro mult_left_mono) auto
  then have "d * min k q \<le> q * d" by (simp only: mult.commute [of q d])
  then show "0 \<le> x - d * min k (x div d)" using b unfolding q [symmetric] by linarith
  show "0 \<le> min k (x div d)" "min k (x div d) \<le> k" using b assms unfolding q [symmetric] by simp_all
  show "min k (x div d) < k \<Longrightarrow> x - d * min k (x div d) < d" using b unfolding q [symmetric] by (simp add: min_def mult.commute split: if_splits)
  show "x - d * min k (x div d) \<le> max (d - 1) (x - d * k)"
    using b unfolding q [symmetric] by (cases "k \<le> q") (simp_all add: min_def mult.commute [of q d] max.coboundedI1)
  show "d \<le> x - d * min k (x div d) \<Longrightarrow> min k (x div d) = k" using b unfolding q [symmetric] by (simp add: min_def mult.commute split: if_splits)
qed

lemma year_and_day_spec:
  assumes "year_and_day n = (y, yday)"
  shows "days_before_year y + yday = n" and "0 \<le> yday" and "yday < year_len y"
proof -
  define a r where ar: "a = n div 146097" "r = n mod 146097"
  have n: "n = 146097 * a + r" "0 \<le> r" "r < 146097" by (simp_all add: ar)
  define b where b: "b = min 3 (r div 36524)"
  define r2 where r2: "r2 = r - 36524 * b"
  have bb: "0 \<le> b" "b \<le> 3" "0 \<le> r2" "b < 3 \<Longrightarrow> r2 < 36524" "r2 \<le> 36524"
    using n cycle_rest [of 36524 r 3, folded b, folded r2] by simp_all
  define c r3 where c: "c = r2 div 1461" "r3 = r2 mod 1461"
  have cc: "r2 = 1461 * c + r3" "0 \<le> r3" "r3 < 1461" by (simp_all add: c)
  have c24: "0 \<le> c" "c \<le> 24" using bb cc by linarith+
  define e where e: "e = min 3 (r3 div 365)"
  have ee: "0 \<le> e" "e \<le> 3" "0 \<le> r3 - 365 * e" "r3 - 365 * e \<le> 365" "r3 - 365 * e = 365 \<Longrightarrow> e = 3 \<and> r3 = 1460"
    using cc cycle_rest [of 365 r3 3, folded e] by simp_all
  have y: "y = 400 * a + 100 * b + 4 * c + e + 1" and yd: "yday = r3 - 365 * e"
    using assms unfolding year_and_day_def Let_def ar [symmetric] b [symmetric] r2 [symmetric] c [symmetric] e [symmetric]
    by simp_all
  have d4: "(y - 1) div 4 = 100 * a + 25 * b + c" using ee y int_div_pos_eq [of "y - 1" 4 "100 * a + 25 * b + c" e] by simp
  have d100: "(y - 1) div 100 = 4 * a + b" using ee y c24 int_div_pos_eq [of "y - 1" 100 "4 * a + b" "4 * c + e"] by simp
  have d400: "(y - 1) div 400 = a" using ee y c24 bb int_div_pos_eq [of "y - 1" 400 a "100 * b + 4 * c + e"] by simp
  show "days_before_year y + yday = n"
    unfolding days_before_year_def d4 d100 d400 yd using y n cc by (simp add: r2 algebra_simps)
  show "0 \<le> yday" using ee yd by simp
  show "yday < year_len y"
  proof (cases "yday = 365")
    case True
    then have "e = 3" "r3 = 1460" using ee yd by simp_all
    then have "c = 24 \<Longrightarrow> b = 3" using bb cc by (cases "b < 3") auto
    moreover have "y mod 4 = 0" using y \<open>e = 3\<close> int_mod_pos_eq [of y 4 "100 * a + 25 * b + c + 1" 0] by simp
    moreover have "y mod 100 \<noteq> 0" if "c \<noteq> 24"
      using y \<open>e = 3\<close> that c24 int_mod_pos_eq [of y 100 "4 * a + b" "4 * c + 4"] by simp
    moreover have "y mod 400 = 0" if "c = 24" "b = 3"
      using y \<open>e = 3\<close> that int_mod_pos_eq [of y 400 "a + 1" 0] by simp
    ultimately have "is_leap y" by (cases "c = 24") (auto simp: is_leap_def)
    then show ?thesis using True by (simp add: year_len_def)
  qed (use ee yd in \<open>simp add: year_len_def\<close>)
qed

lemma find_month_spec:
  "0 \<le> yday \<Longrightarrow> yday < days_before_month y (int k + 2) \<Longrightarrow> k \<le> 11 \<Longrightarrow>
   1 \<le> find_month y yday k \<and> find_month y yday k \<le> int k + 1 \<and>
   days_before_month y (find_month y yday k) \<le> yday \<and> yday < days_before_month y (find_month y yday k + 1)"
proof (induction k)
  case 0 then show ?case by simp
next
  case (Suc k)
  show ?case
  proof (cases "days_before_month y (int (Suc (Suc k))) \<le> yday")
    case True then show ?thesis using Suc.prems by (simp add: algebra_simps)
  next
    case False
    then have "yday < days_before_month y (int k + 2)" by (simp add: algebra_simps)
    then show ?thesis using Suc.IH Suc.prems False by auto
  qed
qed

lemma date_days_ok: "1 \<le> m \<Longrightarrow> m \<le> 12 \<Longrightarrow> date_days y m d = days_before_year y + days_before_month y m + (d - 1)"
  by (simp add: date_days_def)

text \<open>Every day is the day of exactly one date, and later dates have later days.\<close>

lemma civil_of_days:
  shows civil_days_of [simp]: "civil_days (civil_of n) = n" and civil_of_ok [simp]: "civil_ok (civil_of n)"
proof -
  obtain y yday where e: "year_and_day n = (y, yday)" by fastforce
  note s = year_and_day_spec [OF e]
  define m where m: "m = find_month y yday 11"
  have f: "1 \<le> m" "m \<le> 12" "days_before_month y m \<le> yday" "yday < days_before_month y (m + 1)"
    using find_month_spec [of yday y 11] s by (simp_all add: m)
  have c: "civil_of n = Civil y m (yday - days_before_month y m + 1)"
    by (simp add: civil_of_def e m Let_def)
  show "civil_days (civil_of n) = n" using f s by (simp add: c civil_days_def date_days_ok)
  show "civil_ok (civil_of n)" using f by (simp add: c civil_ok_def month_len_def)
qed

lemma civil_days_in_month:
  assumes "civil_ok c"
  shows "days_before_year (cv_year c) + days_before_month (cv_year c) (cv_month c) \<le> civil_days c"
    and "civil_days c < days_before_year (cv_year c) + days_before_month (cv_year c) (cv_month c + 1)"
  using assms by (auto simp: civil_ok_def civil_days_def date_days_ok month_len_def)

lemma civil_days_less:
  assumes "civil_ok a" and "civil_ok b" and "a < b"
  shows "civil_days a < civil_days b"
proof -
  note a = civil_days_in_month [OF assms(1)] and b = civil_days_in_month [OF assms(2)]
  have ma: "1 \<le> cv_month a" "cv_month a \<le> 12" and mb: "1 \<le> cv_month b" "cv_month b \<le> 12"
    using assms by (simp_all add: civil_ok_def)
  consider "cv_year a < cv_year b" | "cv_year a = cv_year b" "cv_month a < cv_month b"
    | "cv_year a = cv_year b" "cv_month a = cv_month b" "cv_day a < cv_day b"
    using assms(3) by (auto simp: civil_less)
  then show ?thesis
  proof cases
    case 1
    have "days_before_month (cv_year a) (cv_month a + 1) \<le> year_len (cv_year a)"
      using days_before_month_mono [of "cv_month a + 1" 13 "cv_year a"] ma by simp
    moreover have "0 \<le> days_before_month (cv_year b) (cv_month b)"
      using days_before_month_mono [of 1 "cv_month b" "cv_year b"] mb by simp
    ultimately show ?thesis using a b days_before_year_less [OF 1] by linarith
  next
    case 2
    then have "days_before_month (cv_year a) (cv_month a + 1) \<le> days_before_month (cv_year b) (cv_month b)"
      using days_before_month_mono [of "cv_month a + 1" "cv_month b" "cv_year a"] ma mb by simp
    then show ?thesis using a b 2 by simp
  next
    case 3
    then show ?thesis using ma by (simp add: civil_days_def date_days_ok)
  qed
qed

lemma civil_days_less_iff: "civil_ok a \<Longrightarrow> civil_ok b \<Longrightarrow> civil_days a < civil_days b \<longleftrightarrow> a < b"
  using civil_days_less by (metis less_irrefl less_trans linorder_neqE)

lemma civil_days_inj: "civil_ok a \<Longrightarrow> civil_ok b \<Longrightarrow> civil_days a = civil_days b \<longleftrightarrow> a = b"
  by (metis civil_days_less less_irrefl linorder_neqE)

lemma civil_of_civil_days [simp]: "civil_ok c \<Longrightarrow> civil_of (civil_days c) = c"
  by (simp add: civil_days_inj [symmetric])

lemma civil_of_mono: "m < n \<Longrightarrow> civil_of m < civil_of n"
  by (simp add: civil_days_less_iff [symmetric])

section \<open>Months as a line\<close>

lemma civil_of_month: "1 \<le> cv_month (civil_of n)" "cv_month (civil_of n) \<le> 12"
  using civil_of_ok [of n] by (simp_all add: civil_ok_def)

text \<open>Months numbered through: twelve times the year, plus the month less one.\<close>

definition month_index :: "civil \<Rightarrow> int" where
  "month_index c = 12 * cv_year c + cv_month c - 1"

definition month_first :: "int \<Rightarrow> int" where
  "month_first k = days_before_year (k div 12) + days_before_month (k div 12) (k mod 12 + 1)"

definition mlen :: "int \<Rightarrow> int" where
  "mlen k = month_len (k div 12) (k mod 12 + 1)"

lemma month_of_index: "1 \<le> k mod 12 + 1" "k mod 12 + 1 \<le> (12::int)"
  using pos_mod_sign [of 12 k] pos_mod_bound [of 12 k] by simp_all

lemma mlen_range: "28 \<le> mlen k" "mlen k \<le> 31"
  using month_len_range [OF month_of_index] by (simp_all add: mlen_def)

lemma date_days_index: "date_days y m d = month_first (12 * y + m - 1) + (d - 1)"
proof -
  have "(12 * y + m - 1) div 12 = y + (m - 1) div 12" "(12 * y + m - 1) mod 12 = (m - 1) mod 12"
    using div_mult_self2 [of 12 "m - 1" y] mod_mult_self2 [of "m - 1" 12 y] by (simp_all add: algebra_simps)
  then show ?thesis by (simp add: date_days_def month_first_def)
qed

lemma civil_of_in_month:
  assumes "1 \<le> d" and "d \<le> mlen k"
  shows "civil_of (month_first k + (d - 1)) = Civil (k div 12) (k mod 12 + 1) d"
proof -
  let ?c = "Civil (k div 12) (k mod 12 + 1) d"
  have "civil_ok ?c" using assms month_of_index [of k] by (simp add: civil_ok_def mlen_def)
  moreover have "civil_days ?c = month_first k + (d - 1)"
    using month_of_index [of k] by (simp add: civil_days_def date_days_ok month_first_def)
  ultimately show ?thesis using civil_of_civil_days [of ?c] by simp
qed

lemma month_index_of: "month_index (civil_of n) div 12 = cv_year (civil_of n)"
  "month_index (civil_of n) mod 12 + 1 = cv_month (civil_of n)"
proof -
  have b: "0 \<le> cv_month (civil_of n) - 1" "cv_month (civil_of n) - 1 < 12" using civil_of_month [of n] by simp_all
  show "month_index (civil_of n) div 12 = cv_year (civil_of n)"
    using b int_div_pos_eq [of "month_index (civil_of n)" 12] by (simp add: month_index_def)
  show "month_index (civil_of n) mod 12 + 1 = cv_month (civil_of n)"
    using b int_mod_pos_eq [of "month_index (civil_of n)" 12 "cv_year (civil_of n)" "cv_month (civil_of n) - 1"]
    by (simp add: month_index_def)
qed

lemma day_in_month:
  "n = month_first (month_index (civil_of n)) + (cv_day (civil_of n) - 1)"
  "1 \<le> cv_day (civil_of n)" "cv_day (civil_of n) \<le> mlen (month_index (civil_of n))"
proof -
  have o: "civil_ok (civil_of n)" by simp
  show "n = month_first (month_index (civil_of n)) + (cv_day (civil_of n) - 1)"
    using civil_days_of [of n] civil_of_month [of n] unfolding civil_days_def month_first_def month_index_of
    by (simp add: date_days_ok)
  show "1 \<le> cv_day (civil_of n)" "cv_day (civil_of n) \<le> mlen (month_index (civil_of n))"
    using o by (simp_all add: civil_ok_def mlen_def month_index_of)
qed

lemma month_first_step: "month_first (k + 1) = month_first k + mlen k"
proof (cases "k mod 12 = 11")
  case True
  then have "k = 12 * (k div 12) + 11" using div_mult_mod_eq [of k 12] by simp
  then have "(k + 1) div 12 = k div 12 + 1" "(k + 1) mod 12 = 0"
    using int_div_pos_eq [of "k + 1" 12 "k div 12 + 1" 0] int_mod_pos_eq [of "k + 1" 12 "k div 12 + 1" 0] by simp_all
  then show ?thesis using True by (simp add: month_first_def mlen_def leap_step month_len_def)
next
  case False
  then have "k mod 12 + 1 < 12" using pos_mod_bound [of 12 k] by simp
  then have "(k + 1) div 12 = k div 12" "(k + 1) mod 12 = k mod 12 + 1"
    using int_div_pos_eq [of "k + 1" 12 "k div 12" "k mod 12 + 1"] int_mod_pos_eq [of "k + 1" 12 "k div 12" "k mod 12 + 1"]
      div_mult_mod_eq [of k 12] pos_mod_sign [of 12 k] by simp_all
  then show ?thesis by (simp add: month_first_def mlen_def month_len_def algebra_simps)
qed

lemma month_first_less: "j < k \<Longrightarrow> month_first j < month_first k"
proof -
  assume "j < k"
  then have "j + 1 \<le> k" by simp
  then show ?thesis
  proof (induction k rule: int_ge_induct)
    case base then show ?case using month_first_step [of j] mlen_range [of j] by simp
  next
    case (step i) then show ?case using month_first_step [of i] mlen_range [of i] by simp
  qed
qed

lemma month_first_less_iff [simp]: "month_first j < month_first k \<longleftrightarrow> j < k"
  using month_first_less by (metis less_irrefl less_trans linorder_neqE)

lemma month_first_le_iff [simp]: "month_first j \<le> month_first k \<longleftrightarrow> j \<le> k"
  by (simp add: linorder_not_less [symmetric])

lemma month_first_bounds:
  "month_first (month_index (civil_of n)) \<le> n" "n < month_first (month_index (civil_of n) + 1)"
  using day_in_month [of n] unfolding month_first_step by linarith+

lemma civil_of_month_first [simp]: "civil_of (month_first k) = Civil (k div 12) (k mod 12 + 1) 1"
  using civil_of_in_month [of 1 k] mlen_range [of k] by simp

lemma month_index_civil [simp]: "month_index (Civil (k div 12) (k mod 12 + 1) d) = k"
  using div_mult_mod_eq [of k 12] by (simp add: month_index_def)

section \<open>Midnights\<close>

definition midnight :: "location \<Rightarrow> int \<Rightarrow> gotime" where
  "midnight loc n = at_clock loc n 0"

text \<open>
  Locations in which every day has a midnight and each instant lies between the midnights of its day and
  of the next. It holds for UTC and for every zone whose clocks change at other times of the day.
\<close>

definition midnights_ok :: "location \<Rightarrow> bool" where
  "midnights_ok loc \<longleftrightarrow>
     (\<forall>n. local_day loc (midnight loc n) = n \<and> local_clock loc (midnight loc n) = 0) \<and>
     (\<forall>t. midnight loc (local_day loc t) \<le> t \<and> t < midnight loc (local_day loc t + 1))"

definition fixed_zone :: "int \<Rightarrow> location" where
  "fixed_zone offset s = (offset, - (2 ^ 63), 2 ^ 63 - 1)"

lemma local_day_midnight [simp]: "midnights_ok loc \<Longrightarrow> local_day loc (midnight loc n) = n"
  by (simp add: midnights_ok_def)

lemma local_clock_midnight [simp]: "midnights_ok loc \<Longrightarrow> local_clock loc (midnight loc n) = 0"
  by (simp add: midnights_ok_def)

lemma midnight_bounds:
  assumes "midnights_ok loc"
  shows "midnight loc (local_day loc t) \<le> t" and "t < midnight loc (local_day loc t + 1)"
  using assms unfolding midnights_ok_def by blast+

lemma midnight_step: "midnights_ok loc \<Longrightarrow> midnight loc n < midnight loc (n + 1)"
  unfolding midnights_ok_def by metis

lemma midnight_less:
  assumes "midnights_ok loc" and "m < n"
  shows "midnight loc m < midnight loc n"
proof -
  from assms(2) have "m + 1 \<le> n" by simp
  then show ?thesis
  proof (induction n rule: int_ge_induct)
    case base then show ?case using midnight_step [OF assms(1)] by simp
  next
    case (step i) then show ?case using midnight_step [OF assms(1), of i] by simp
  qed
qed

lemma midnight_less_iff [simp]: "midnights_ok loc \<Longrightarrow> midnight loc m < midnight loc n \<longleftrightarrow> m < n"
  using midnight_less by (metis less_irrefl less_trans linorder_neqE)

lemma midnight_le_iff [simp]: "midnights_ok loc \<Longrightarrow> midnight loc m \<le> midnight loc n \<longleftrightarrow> m \<le> n"
  by (simp add: linorder_not_less [symmetric])

lemma Date_midnight [simp]: "midnights_ok loc \<Longrightarrow> Date loc (midnight loc n) = civil_of n"
  by (simp add: Date_def)

lemma go_date_midnight: "go_date loc y m d 0 = midnight loc (date_days y m d)"
  by (simp add: go_date_def midnight_def)

lemma AddDate_midnight:
  "midnights_ok loc \<Longrightarrow> AddDate loc (midnight loc n) years months days =
     midnight loc (date_days (cv_year (civil_of n) + years) (cv_month (civil_of n) + months) (cv_day (civil_of n) + days))"
  by (simp add: AddDate_def go_date_midnight Let_def)

lemma AddDate_days: "midnights_ok loc \<Longrightarrow> AddDate loc (midnight loc n) 0 0 k = midnight loc (n + k)"
  using civil_days_of [of n] civil_of_month [of n]
  by (simp add: AddDate_midnight date_days_ok civil_days_def algebra_simps)

lemma AddDate_months:
  "midnights_ok loc \<Longrightarrow> AddDate loc (midnight loc (month_first k)) 0 j 0 = midnight loc (month_first (k + j))"
proof -
  have "12 * (k div 12) + (k mod 12 + 1 + j) - 1 = k + j" using div_mult_mod_eq [of k 12] by linarith
  then show "midnights_ok loc \<Longrightarrow> AddDate loc (midnight loc (month_first k)) 0 j 0 = midnight loc (month_first (k + j))"
    by (simp add: AddDate_midnight date_days_index)
qed

lemma fixed_zone_ok: "midnights_ok (fixed_zone offset)"
proof -
  have d: "day_ns = 86400000000000" "second = 1000000000" by (simp_all add: day_ns_def go_time)
  have m: "midnight (fixed_zone offset) n = n * day_ns - offset * second" for n
    by (simp add: midnight_def at_clock_def fixed_zone_def Let_def)
  have l: "local_ns (fixed_zone offset) t = t + offset * second" for t
    by (simp add: local_ns_def zone_offset_def fixed_zone_def)
  have p: "0 < day_ns" by (simp add: d)
  note div_bounds [OF p, of "t + offset * second" for t]
  then show ?thesis using p unfolding midnights_ok_def local_day_def local_clock_def m l
    by (auto simp: algebra_simps)
qed

lemma utc_ok: "midnights_ok utc"
proof -
  have "utc = fixed_zone 0" by (simp add: utc_def fixed_zone_def fun_eq_iff)
  then show ?thesis using fixed_zone_ok [of 0] by simp
qed

section \<open>Day and month loops\<close>

text \<open>\<open>for t := start; go(t); t = next(t) { append(t) }\<close>, which returns only if \<open>go\<close> fails at some time.\<close>

partial_function (option) collect :: "(gotime \<Rightarrow> bool) \<Rightarrow> (gotime \<Rightarrow> gotime) \<Rightarrow> gotime \<Rightarrow> gotime list option" where
  "collect go step t = (if go t then Option.bind (collect go step (step t)) (\<lambda>ts. Some (t # ts)) else Some [])"

lemma collect_steps:
  assumes "\<forall>i<n. go (f i) \<and> step (f i) = f (Suc i)" and "\<not> go (f n)"
  shows "collect go step (f 0) = Some (map f [0..<n])"
  using assms
proof (induction n arbitrary: f)
  case 0 then show ?case by (simp add: collect.simps)
next
  case (Suc n)
  have "collect go step (f 1) = Some (map (\<lambda>i. f (Suc i)) [0..<n])"
    using Suc.IH [of "\<lambda>i. f (Suc i)"] Suc.prems by simp
  moreover have "map f [0..<Suc n] = f 0 # map (\<lambda>i. f (Suc i)) [0..<n]"
    by (simp add: upt_conv_Cons map_Suc_upt [symmetric] del: upt_Suc)
  ultimately show ?case using Suc.prems(1) by (subst collect.simps) auto
qed

end
