(* ===== verification/Billing_State.thy ===== *)
theory Billing_State
  imports Keyed_Stores
begin

text \<open>
  The billing tables (\<open>infra/persistence/models/billing.go\<close>) and what the repository does to them
  (\<open>infra/persistence/postgres/billing\<close>). A GORM transaction is one atomic step: rows are locked
  before they are read for an update, and an error of any statement rolls the whole transaction back.
  Amounts are nano US dollars in a Go \<open>int64\<close>. Ids come from one counter: within a table they are
  new and increasing, which is all the code relies on. Tables with a unique index that the code
  looks rows up by are maps over that index.
\<close>

section \<open>Tables\<close>

record billing_account =
  ba_ID :: nat
  ba_UserID :: nat
  ba_Currency :: string
  ba_BalanceNanousd :: int
  ba_Status :: string

record balance_transaction =
  bt_ID :: nat
  bt_AccountID :: nat
  bt_UserID :: nat
  bt_Type :: string
  bt_AmountNanousd :: int
  bt_BalanceAfterNanousd :: int
  bt_RefType :: string
  bt_RefID :: nat
  bt_RefNo :: string
  bt_Description :: string

record usage_reservation =
  ur_ID :: nat
  ur_UserID :: nat
  ur_RefNo :: string
  ur_Mode :: string
  ur_BalanceNanousd :: int
  ur_PeriodCreditNanousd :: int
  ur_PeriodLimitNanousd :: int
  ur_PeriodStartAt :: "gotime option"
  ur_PeriodEndAt :: "gotime option"
  ur_Status :: string
  ur_UsageLedgerID :: nat
  ur_ExpiresAt :: gotime
  ur_SettledAt :: "gotime option"
  ur_ReleasedAt :: "gotime option"
  ur_ReconciliationAt :: "gotime option"
  ur_FailureCode :: string

text \<open>The descriptive columns of a ledger row, which settlement only copies.\<close>

record usage_details =
  ud_ConversationID :: nat
  ud_ProviderProtocol :: string
  ud_UpstreamName :: string
  ud_PlatformModelName :: string
  ud_RoutedBindingCode :: string
  ud_UpstreamModelName :: string
  ud_UsageDate :: gotime
  ud_InputTokens :: int
  ud_CacheReadTokens :: int
  ud_CacheWriteTokens :: int
  ud_CacheWrite5mTokens :: int
  ud_CacheWrite1hTokens :: int
  ud_OutputTokens :: int
  ud_ReasoningTokens :: int
  ud_CallCount :: int
  ud_DurationSeconds :: int
  ud_LatencyMS :: int
  ud_UsageSpeed :: string
  ud_ServiceTier :: string
  ud_BilledCurrency :: string

record usage_ledger =
  ul_ID :: nat
  ul_UserID :: nat
  ul_RefNo :: string
  ul_IsFreeModel :: bool
  ul_BillingAt :: gotime
  ul_BilledNanousd :: int
  ul_BalanceAfterNanousd :: "int option"
  ul_PricingSnapshotJSON :: string
  ul_Details :: usage_details

record payment_order =
  po_ID :: nat
  po_OrderNo :: string
  po_OrderType :: string
  po_UserID :: nat
  po_PlanID :: nat
  po_PriceID :: nat
  po_Provider :: string
  po_Status :: string
  po_BaseCurrency :: string
  po_BaseAmountCents :: int
  po_PayCurrency :: string
  po_PayAmountCents :: int
  po_FXRate :: string
  po_CreditNanousd :: int
  po_BillingInterval :: string
  po_Cycles :: int
  po_ExternalPaymentID :: string
  po_ExternalCheckoutID :: string
  po_CheckoutURL :: string
  po_PaidAt :: "gotime option"
  po_ExpiredAt :: "gotime option"
  po_SnapshotJSON :: string

record billing_plan =
  bp_ID :: nat
  bp_Code :: string
  bp_Name :: string
  bp_Description :: string
  bp_FeatureJSON :: string
  bp_PeriodCreditNanousd :: int
  bp_SortOrder :: int
  bp_IsActive :: bool
  bp_PermissionGroupID :: "nat option"

record billing_price =
  pr_ID :: nat
  pr_PlanID :: nat
  pr_Code :: string
  pr_BillingInterval :: string
  pr_Currency :: string
  pr_AmountCents :: int
  pr_IsActive :: bool
  pr_IsDefault :: bool
  pr_ExternalPriceRef :: string

record subscription =
  sb_ID :: nat
  sb_UserID :: nat
  sb_PlanID :: nat
  sb_PriceID :: nat
  sb_Status :: string
  sb_StartAt :: gotime
  sb_CurrentPeriodStartAt :: gotime
  sb_CurrentPeriodEndAt :: "gotime option"
  sb_CancelAtPeriodEnd :: bool
  sb_CanceledAt :: "gotime option"
  sb_AutoRenew :: bool

record redemption_code =
  rc_ID :: nat
  rc_CodeHash :: string
  rc_CodeEncrypted :: string
  rc_CodeHint :: string
  rc_Mode :: string
  rc_RewardType :: string
  rc_CreditNanousd :: int
  rc_PlanID :: nat
  rc_DurationDays :: int
  rc_MaxRedemptions :: "int option"
  rc_PerUserLimit :: int
  rc_RedeemedCount :: int
  rc_Status :: string
  rc_ExpiresAt :: "gotime option"
  rc_Description :: string
  rc_CreatedByUserID :: nat

record redemption =
  rd_ID :: nat
  rd_CodeID :: nat
  rd_UserID :: nat
  rd_Mode :: string
  rd_RewardType :: string
  rd_CreditNanousd :: int
  rd_PlanID :: nat
  rd_SubscriptionID :: nat
  rd_BalanceTransactionID :: nat
  rd_RefNo :: string
  rd_SnapshotJSON :: string

record billing_db =
  db_accounts :: "nat \<rightharpoonup> billing_account"  \<comment> \<open>by \<open>user_id\<close>\<close>
  db_transactions :: "balance_transaction list"
  db_reservations :: "usage_reservation list"
  db_ledgers :: "usage_ledger list"
  db_orders :: "string \<rightharpoonup> payment_order"  \<comment> \<open>by \<open>order_no\<close>\<close>
  db_codes :: "redemption_code list"
  db_redemptions :: "redemption list"
  db_plans :: "billing_plan list"
  db_prices :: "billing_price list"
  db_subscriptions :: "subscription list"
  db_lastID :: nat

definition empty_billing_db :: billing_db where
  "empty_billing_db = \<lparr>db_accounts = Map.empty, db_transactions = [], db_reservations = [], db_ledgers = [],
     db_orders = Map.empty, db_codes = [], db_redemptions = [], db_plans = [], db_prices = [],
     db_subscriptions = [], db_lastID = 0\<rparr>"

section \<open>Transactions\<close>

text \<open>
  The body of a transaction either fails or gives a result and the new tables. \<open>fault\<close> is an error
  of the database itself (a lost connection, a failed commit), which can hit any transaction.
\<close>

type_synonym 'a tx = "billing_db \<Rightarrow> repo_error + 'a \<times> billing_db"

definition transaction :: "repo_error option \<Rightarrow> 'a tx \<Rightarrow> billing_db \<Rightarrow> (repo_error + 'a) \<times> billing_db" where
  "transaction fault body db =
     (case fault of Some e \<Rightarrow> (Inl e, db)
      | None \<Rightarrow> (case body db of Inl e \<Rightarrow> (Inl e, db) | Inr (x, db') \<Rightarrow> (Inr x, db')))"

lemma transaction_rollback: "transaction fault body db = (Inl e, db') \<Longrightarrow> db' = db"
  by (auto simp: transaction_def split: option.splits sum.splits)

lemma transaction_commit:
  "transaction fault body db = (Inr x, db') \<longleftrightarrow> fault = None \<and> body db = Inr (x, db')"
  by (auto simp: transaction_def split: option.splits sum.splits)

text \<open>Whatever every successful body keeps, the transaction keeps.\<close>

lemma transaction_keeps:
  "(\<And>x db'. body db = Inr (x, db') \<Longrightarrow> P db') \<Longrightarrow> P db \<Longrightarrow> P (snd (transaction fault body db))"
  by (auto simp: transaction_def split: option.splits sum.splits)

lemma transaction_succeeds: "\<not> isl (fst p) \<Longrightarrow> \<exists>x db'. p = (Inr x, db')"
  by (cases p; cases "fst p") auto

text \<open>A \<open>bigint\<close> column or sum that leaves the 64-bit range is an error of the statement.\<close>

definition db_int :: "int \<Rightarrow> repo_error + int" where
  "db_int n = (if in_int64 n then Inr n else Inl (DatabaseError ''out of range''))"

lemma db_int_Inr [simp]: "db_int n = Inr m \<longleftrightarrow> m = n \<and> in_int64 n"
  by (auto simp: db_int_def)

section \<open>Accounts\<close>

definition getOrCreateBillingAccountForUpdate :: "nat \<Rightarrow> billing_account tx" where
  "getOrCreateBillingAccountForUpdate userID db =
     (if userID = 0 then Inl ErrInvalidInput
      else case db_accounts db userID of
          Some a \<Rightarrow> Inr (a, db)
        | None \<Rightarrow>
          (let n = Suc (db_lastID db);
               a = \<lparr>ba_ID = n, ba_UserID = userID, ba_Currency = ''USD'', ba_BalanceNanousd = 0, ba_Status = ''active''\<rparr>
           in Inr (a, db\<lparr>db_accounts := (db_accounts db)(userID \<mapsto> a), db_lastID := n\<rparr>)))"

text \<open>
  \<open>tx.Model(account).Updates\<close> with a new balance. The value is computed by the database for the
  expressions \<open>balance_nanousd - ?\<close> and \<open>balance_nanousd + ?\<close>, by Go for a plain value.
\<close>

definition update_balance :: "nat \<Rightarrow> int \<Rightarrow> billing_db \<Rightarrow> billing_db" where
  "update_balance userID balance db =
     db\<lparr>db_accounts := (db_accounts db)(userID := map_option
       (\<lambda>a. a\<lparr>ba_BalanceNanousd := balance, ba_Currency := ''USD'', ba_Status := ''active''\<rparr>) (db_accounts db userID))\<rparr>"

definition insert_transaction :: "balance_transaction \<Rightarrow> billing_db \<Rightarrow> nat \<times> billing_db" where
  "insert_transaction t db =
     (let n = Suc (db_lastID db)
      in (n, db\<lparr>db_transactions := db_transactions db @ [t\<lparr>bt_ID := n\<rparr>], db_lastID := n\<rparr>))"

text \<open>The account rows of the code's two-way updates: an expression computed by the database, checked for overflow.\<close>

definition add_to_balance :: "nat \<Rightarrow> int \<Rightarrow> unit tx" where
  "add_to_balance userID delta db =
     (case db_accounts db userID of None \<Rightarrow> Inr ((), db)
      | Some a \<Rightarrow> (case db_int (ba_BalanceNanousd a + delta) of Inl e \<Rightarrow> Inl e
          | Inr n \<Rightarrow> Inr ((), update_balance userID n db)))"

section \<open>Budgets\<close>

definition clampNonNegative :: "int \<Rightarrow> int" where
  "clampNonNegative v = (if v < 0 then 0 else v)"

definition minInt64 :: "int \<Rightarrow> int \<Rightarrow> int" where
  "minInt64 a b = (if a < b then a else b)"

text \<open>The subtractions and additions are those of Go's \<open>int64\<close>.\<close>

definition addNonNegativeInt64 :: "int \<Rightarrow> int \<Rightarrow> int" where
  "addNonNegativeInt64 a0 b0 =
     (let a = (if a0 < 0 then 0 else a0); b = (if b0 < 0 then 0 else b0)
      in if wrap64 (max_int64 - b) < a then max_int64 else wrap64 (a + b))"

definition divideBudgetAcrossSlots :: "int \<Rightarrow> int \<Rightarrow> int" where
  "divideBudgetAcrossSlots available slots =
     (if available \<le> 0 \<or> slots \<le> 0 then 0
      else (let result = go_div available slots
            in if available - go_div available slots * slots \<noteq> 0 then wrap64 (result + 1) else result))"

definition remainingNonNegativeBudget :: "int \<Rightarrow> int \<Rightarrow> int \<Rightarrow> int" where
  "remainingNonNegativeBudget limit consumed0 reserved0 =
     (if limit \<le> 0 then 0
      else (let consumed = clampNonNegative consumed0 in
        if limit \<le> consumed then 0
        else (let remaining = wrap64 (limit - consumed); reserved = clampNonNegative reserved0 in
          if remaining \<le> reserved then 0 else wrap64 (remaining - reserved))))"

lemma clampNonNegative_max: "clampNonNegative v = max 0 v"
  by (simp add: clampNonNegative_def max_def)

lemma minInt64_min: "minInt64 a b = min a b"
  by (simp add: minInt64_def min_def)

lemma addNonNegative_exact:
  "in_int64 a \<Longrightarrow> in_int64 b \<Longrightarrow> addNonNegativeInt64 a b = min max_int64 (max 0 a + max 0 b)"
  unfolding addNonNegativeInt64_def Let_def
  by (subst wrap64_id, simp add: in_int64_def int64_defs)
     (auto simp: in_int64_def int64_defs min_def max_def intro!: wrap64_id)

lemma remaining_exact:
  "in_int64 limit \<Longrightarrow> remainingNonNegativeBudget limit consumed reserved = max 0 (limit - max 0 consumed - max 0 reserved)"
  unfolding remainingNonNegativeBudget_def Let_def clampNonNegative_max
  by (auto simp: in_int64_def int64_defs max_def wrap64_id)

text \<open>Each share is rounded up: the slots together get at least the budget, and no smaller share would do.\<close>

lemma divideBudget_share:
  assumes "0 < available" and "0 < slots" and "in_int64 available"
  shows "available \<le> divideBudgetAcrossSlots available slots * slots"
    and "(divideBudgetAcrossSlots available slots - 1) * slots < available"
    and "0 < divideBudgetAcrossSlots available slots"
    and "divideBudgetAcrossSlots available slots \<le> available"
proof -
  obtain q m where d: "q = available div slots" "m = available mod slots" by simp
  have a: "available = q * slots + m" unfolding d by (simp add: div_mult_mod_eq)
  have m: "0 \<le> m" "m < slots" unfolding d using assms(2) by simp_all
  have q0: "0 \<le> q" unfolding d using assms by (simp add: pos_imp_zdiv_nonneg_iff)
  have qa: "q \<le> q * slots" using q0 assms(2) mult_left_mono [of 1 slots q] by simp
  have w: "m \<noteq> 0 \<Longrightarrow> wrap64 (q + 1) = q + 1"
    using qa a m(1) q0 assms(3) by (intro wrap64_id) (simp add: in_int64_def int64_defs)
  have g: "go_div available slots = q" unfolding d using assms by (simp add: go_div_nonneg)
  have e: "available - q * slots = m" using a by simp
  have r: "divideBudgetAcrossSlots available slots = (if m = 0 then q else q + 1)"
    using assms(1,2) w by (simp add: divideBudgetAcrossSlots_def Let_def g e)
  show "available \<le> divideBudgetAcrossSlots available slots * slots"
    unfolding r using a m by (auto simp: algebra_simps)
  show "(divideBudgetAcrossSlots available slots - 1) * slots < available"
    unfolding r using a m assms(2) by (auto simp: algebra_simps)
  show "0 < divideBudgetAcrossSlots available slots"
    unfolding r using a q0 m assms(1) by (cases "q = 0") auto
  show "divideBudgetAcrossSlots available slots \<le> available"
    unfolding r using a qa m(1) by auto
qed

end
