(* ===== verification/Billing_Reservations.thy ===== *)
theory Billing_Reservations
  imports Billing_State
begin

text \<open>
  Budget reservations (\<open>repository_reservation.go\<close>): before a paid call the service reserves an
  estimate, raises it when the request is known, renews it while the call runs, and settles,
  releases or marks it for reconciliation at the end. Sums and counts are SQL aggregates over the
  reservations that still hold a budget.
\<close>

section \<open>Operations\<close>

definition usageReservationTTL :: duration where "usageReservationTTL = 3 * hour"

definition UsageReservationMaxActivePerUser :: int where "UsageReservationMaxActivePerUser = 5"

record reservation_request =
  rq_UserID :: nat
  rq_RefNo :: string
  rq_Mode :: string
  rq_RequestedNanousd :: int
  rq_PeriodStartAt :: "gotime option"
  rq_PeriodEndAt :: "gotime option"
  rq_PeriodCreditNanousd :: int

text \<open>The condition of the three aggregate queries: an unexpired active row, or one kept for reconciliation.\<close>

definition holds_budget :: "nat \<Rightarrow> gotime \<Rightarrow> usage_reservation \<Rightarrow> bool" where
  "holds_budget userID now r \<longleftrightarrow> ur_UserID r = userID \<and>
     ((ur_Status r = ''active'' \<and> now < ur_ExpiresAt r) \<or> ur_Status r = ''reconciliation'')"

definition sumActiveBalanceReservations :: "nat \<Rightarrow> nat \<Rightarrow> gotime \<Rightarrow> billing_db \<Rightarrow> repo_error + int" where
  "sumActiveBalanceReservations userID excludeID now db =
     db_int (sum_list (map ur_BalanceNanousd (filter (\<lambda>r. holds_budget userID now r \<and>
       (excludeID = 0 \<or> ur_ID r \<noteq> excludeID)) (db_reservations db))))"

definition countActiveUsageReservations :: "nat \<Rightarrow> gotime \<Rightarrow> billing_db \<Rightarrow> int" where
  "countActiveUsageReservations userID now db = int (length (filter (holds_budget userID now) (db_reservations db)))"

definition sumActivePeriodCreditReservations ::
  "nat \<Rightarrow> gotime \<Rightarrow> gotime \<Rightarrow> nat \<Rightarrow> gotime \<Rightarrow> billing_db \<Rightarrow> repo_error + int" where
  "sumActivePeriodCreditReservations userID periodStart periodEnd excludeID now db =
     db_int (sum_list (map ur_PeriodCreditNanousd (filter (\<lambda>r. holds_budget userID now r \<and>
       ur_PeriodStartAt r = Some periodStart \<and> ur_PeriodEndAt r = Some periodEnd \<and>
       (excludeID = 0 \<or> ur_ID r \<noteq> excludeID)) (db_reservations db))))"

definition sumPeriodBilledNanousd :: "nat \<Rightarrow> gotime \<Rightarrow> gotime \<Rightarrow> billing_db \<Rightarrow> repo_error + int" where
  "sumPeriodBilledNanousd userID periodStart periodEnd db =
     db_int (sum_list (map ul_BilledNanousd (filter (\<lambda>l. ul_UserID l = userID \<and> \<not> ul_IsFreeModel l \<and>
       periodStart \<le> ul_BillingAt l \<and> ul_BillingAt l < periodEnd) (db_ledgers db))))"

definition find_reservation :: "nat \<Rightarrow> string \<Rightarrow> billing_db \<Rightarrow> usage_reservation option" where
  "find_reservation userID refNo db = List.find (\<lambda>r. ur_UserID r = userID \<and> ur_RefNo r = refNo) (db_reservations db)"

text \<open>An \<open>UPDATE\<close> of the rows that satisfy \<open>cond\<close>.\<close>

definition update_reservations ::
  "(usage_reservation \<Rightarrow> bool) \<Rightarrow> (usage_reservation \<Rightarrow> usage_reservation) \<Rightarrow> billing_db \<Rightarrow> billing_db" where
  "update_reservations cond f db = db\<lparr>db_reservations := map (\<lambda>r. if cond r then f r else r) (db_reservations db)\<rparr>"

text \<open>What a reservation for a period may take from the period's credit.\<close>

definition available_credit ::
  "nat \<Rightarrow> gotime \<Rightarrow> gotime \<Rightarrow> int \<Rightarrow> nat \<Rightarrow> gotime \<Rightarrow> billing_db \<Rightarrow> repo_error + int" where
  "available_credit userID periodStart periodEnd limit excludeID now db =
     (case sumPeriodBilledNanousd userID periodStart periodEnd db of Inl e \<Rightarrow> Inl e
      | Inr used \<Rightarrow>
        (case sumActivePeriodCreditReservations userID periodStart periodEnd excludeID now db of Inl e \<Rightarrow> Inl e
         | Inr reserved \<Rightarrow> Inr (remainingNonNegativeBudget limit used reserved)))"

definition insert_reservation :: "usage_reservation \<Rightarrow> billing_db \<Rightarrow> usage_reservation \<times> billing_db" where
  "insert_reservation r db =
     (let n = Suc (db_lastID db); r' = r\<lparr>ur_ID := n\<rparr>
      in (r', db\<lparr>db_reservations := db_reservations db @ [r'], db_lastID := n\<rparr>))"

text \<open>The credit a new request may take: none outside period billing.\<close>

definition request_credit :: "gotime \<Rightarrow> reservation_request \<Rightarrow> billing_db \<Rightarrow> repo_error + int" where
  "request_credit now inp db =
     (if rq_Mode inp = ''period''
      then (case (rq_PeriodStartAt inp, rq_PeriodEndAt inp) of
          (Some s, Some e) \<Rightarrow> available_credit (rq_UserID inp) s e (rq_PeriodCreditNanousd inp) 0 now db
        | _ \<Rightarrow> Inr 0)
      else Inr 0)"

text \<open>The budget a request gets: what it asked for, or its share of what is available.\<close>

definition requested_budget :: "int \<Rightarrow> int \<Rightarrow> int \<Rightarrow> int" where
  "requested_budget requested available activeCount =
     (if requested \<le> 0 then divideBudgetAcrossSlots available (UsageReservationMaxActivePerUser - activeCount) else requested)"

definition new_reservation :: "reservation_request \<Rightarrow> int \<Rightarrow> int \<Rightarrow> gotime \<Rightarrow> usage_reservation" where
  "new_reservation inp requested periodCredit now = \<lparr>
     ur_ID = 0, ur_UserID = rq_UserID inp, ur_RefNo = rq_RefNo inp, ur_Mode = rq_Mode inp,
     ur_BalanceNanousd = wrap64 (requested - periodCredit), ur_PeriodCreditNanousd = periodCredit,
     ur_PeriodLimitNanousd = rq_PeriodCreditNanousd inp, ur_PeriodStartAt = rq_PeriodStartAt inp,
     ur_PeriodEndAt = rq_PeriodEndAt inp, ur_Status = ''active'', ur_UsageLedgerID = 0,
     ur_ExpiresAt = now + usageReservationTTL, ur_SettledAt = None, ur_ReleasedAt = None,
     ur_ReconciliationAt = None, ur_FailureCode = []\<rparr>"

text \<open>The body of the transaction of \<open>ReserveUsageBalance\<close>, on the trimmed input.\<close>

definition reserve_body :: "gotime \<Rightarrow> reservation_request \<Rightarrow> usage_reservation tx" where
  "reserve_body now inp db0 =
     (case getOrCreateBillingAccountForUpdate (rq_UserID inp) db0 of Inl e \<Rightarrow> Inl e
      | Inr (account, db) \<Rightarrow>
        if find_reservation (rq_UserID inp) (rq_RefNo inp) db \<noteq> None then Inl ErrConflict
        else if list_ex (\<lambda>t. bt_UserID t = rq_UserID inp \<and> bt_RefNo t = rq_RefNo inp \<and>
            (bt_Type t = ''usage_reserve'' \<or> bt_Type t = ''usage_refund'')) (db_transactions db) then Inl ErrConflict
        else (let activeCount = countActiveUsageReservations (rq_UserID inp) now db in
          if UsageReservationMaxActivePerUser \<le> activeCount then Inl ErrUsageReservationLimitExceeded
          else if ba_BalanceNanousd account < 0 then Inl ErrInsufficientBalance
          else case sumActiveBalanceReservations (rq_UserID inp) 0 now db of Inl e \<Rightarrow> Inl e
          | Inr activeBalance \<Rightarrow>
            (let availableBalance = remainingNonNegativeBudget (ba_BalanceNanousd account) activeBalance 0 in
             case request_credit now inp db of Inl e \<Rightarrow> Inl e
             | Inr availableCredit \<Rightarrow>
               (let available = addNonNegativeInt64 availableCredit availableBalance;
                    requested = requested_budget (rq_RequestedNanousd inp) available activeCount
                in if requested \<le> 0 \<or> available < requested then Inl ErrInsufficientBalance
                   else (let periodCredit = minInt64 requested availableCredit
                         in Inr (insert_reservation (new_reservation inp requested periodCredit now) db))))))"

definition ReserveUsageBalance ::
  "repo_error option \<Rightarrow> gotime \<Rightarrow> reservation_request \<Rightarrow> billing_db \<Rightarrow> (repo_error + usage_reservation) \<times> billing_db" where
  "ReserveUsageBalance fault now inp0 db =
     (let inp = inp0\<lparr>rq_RefNo := trim_space (rq_RefNo inp0), rq_Mode := trim_space (rq_Mode inp0)\<rparr> in
      if rq_UserID inp = 0 \<or> rq_RefNo inp = [] \<or> rq_RequestedNanousd inp < 0 then (Inl ErrInvalidInput, db)
      else if rq_Mode inp \<noteq> ''usage'' \<and> rq_Mode inp \<noteq> ''period'' then (Inl ErrInvalidInput, db)
      else if rq_Mode inp = ''period'' \<and>
          (case (rq_PeriodStartAt inp, rq_PeriodEndAt inp) of (Some s, Some e) \<Rightarrow> \<not> s < e | _ \<Rightarrow> True) then (Inl ErrInvalidInput, db)
      else if rq_Mode inp = ''period'' \<and> rq_PeriodCreditNanousd inp < 0 then (Inl ErrInvalidInput, db)
      else transaction fault (reserve_body now inp) db)"

definition raise_body :: "gotime \<Rightarrow> nat \<Rightarrow> string \<Rightarrow> int \<Rightarrow> unit tx" where
  "raise_body now userID refNo required db0 =
     (case getOrCreateBillingAccountForUpdate userID db0 of Inl e \<Rightarrow> Inl e
      | Inr (account, db) \<Rightarrow>
        (case find_reservation userID refNo db of None \<Rightarrow> Inl ErrConflict
         | Some r \<Rightarrow>
           if ur_Status r \<noteq> ''active'' \<or> \<not> now < ur_ExpiresAt r then Inl ErrConflict
           else if required \<le> addNonNegativeInt64 (ur_BalanceNanousd r) (ur_PeriodCreditNanousd r) then Inr ((), db)
           else case sumActiveBalanceReservations userID (ur_ID r) now db of Inl e \<Rightarrow> Inl e
           | Inr otherBalance \<Rightarrow>
             (let availableBalance = remainingNonNegativeBudget (ba_BalanceNanousd account) otherBalance 0 in
              case (case (ur_PeriodStartAt r, ur_PeriodEndAt r) of
                  (Some s, Some e) \<Rightarrow> if ur_Mode r = ''period''
                    then available_credit userID s e (ur_PeriodLimitNanousd r) (ur_ID r) now db else Inr 0
                | _ \<Rightarrow> Inr 0) of Inl e \<Rightarrow> Inl e
              | Inr availableCredit \<Rightarrow>
                if addNonNegativeInt64 availableCredit availableBalance < required then Inl ErrInsufficientBalance
                else (let periodCredit = minInt64 required availableCredit
                  in Inr ((), update_reservations (\<lambda>x. ur_ID x = ur_ID r) (\<lambda>x. x\<lparr>
                       ur_BalanceNanousd := wrap64 (required - periodCredit), ur_PeriodCreditNanousd := periodCredit\<rparr>) db)))))"

definition RaiseUsageBalanceReservation ::
  "repo_error option \<Rightarrow> gotime \<Rightarrow> nat \<Rightarrow> string \<Rightarrow> int \<Rightarrow> billing_db \<Rightarrow> (repo_error + unit) \<times> billing_db" where
  "RaiseUsageBalanceReservation fault now userID refNo0 required db =
     (let refNo = trim_space refNo0 in
      if userID = 0 \<or> refNo = [] \<or> required < 0 then (Inl ErrInvalidInput, db)
      else transaction fault (raise_body now userID refNo required) db)"

definition release_body :: "gotime \<Rightarrow> nat \<Rightarrow> string \<Rightarrow> unit tx" where
  "release_body now userID refNo db =
     (case find_reservation userID refNo db of None \<Rightarrow> Inr ((), db)
      | Some r \<Rightarrow>
        if ur_Status r \<noteq> ''active'' then Inr ((), db)
        else Inr ((), update_reservations (\<lambda>x. ur_ID x = ur_ID r) (\<lambda>x. x\<lparr>ur_Status := ''released'', ur_ReleasedAt := Some now\<rparr>) db))"

definition ReleaseUsageBalanceReservation ::
  "repo_error option \<Rightarrow> gotime \<Rightarrow> nat \<Rightarrow> string \<Rightarrow> billing_db \<Rightarrow> (repo_error + unit) \<times> billing_db" where
  "ReleaseUsageBalanceReservation fault now userID refNo0 db =
     (let refNo = trim_space refNo0 in
      if userID = 0 \<or> refNo = [] then (Inl ErrInvalidInput, db)
      else transaction fault (release_body now userID refNo) db)"

text \<open>The next two are single \<open>UPDATE\<close> statements; \<open>RowsAffected = 0\<close> is a conflict.\<close>

definition update_where ::
  "(usage_reservation \<Rightarrow> bool) \<Rightarrow> (usage_reservation \<Rightarrow> usage_reservation) \<Rightarrow> unit tx" where
  "update_where cond f db =
     (if list_ex cond (db_reservations db) then Inr ((), update_reservations cond f db) else Inl ErrConflict)"

definition RenewUsageBalanceReservation ::
  "repo_error option \<Rightarrow> gotime \<Rightarrow> nat \<Rightarrow> string \<Rightarrow> billing_db \<Rightarrow> (repo_error + unit) \<times> billing_db" where
  "RenewUsageBalanceReservation fault now userID refNo0 db =
     (let refNo = trim_space refNo0 in
      if userID = 0 \<or> refNo = [] then (Inl ErrInvalidInput, db)
      else transaction fault (update_where
        (\<lambda>r. ur_UserID r = userID \<and> ur_RefNo r = refNo \<and> ur_Status r = ''active'' \<and> now < ur_ExpiresAt r)
        (\<lambda>r. r\<lparr>ur_ExpiresAt := now + usageReservationTTL\<rparr>)) db)"

definition MarkUsageReservationReconciliationRequired ::
  "repo_error option \<Rightarrow> gotime \<Rightarrow> nat \<Rightarrow> string \<Rightarrow> string \<Rightarrow> billing_db \<Rightarrow> (repo_error + unit) \<times> billing_db" where
  "MarkUsageReservationReconciliationRequired fault now userID refNo0 failureCode0 db =
     (let refNo = trim_space refNo0; code = trim_space failureCode0 in
      if userID = 0 \<or> refNo = [] \<or> code = [] then (Inl ErrInvalidInput, db)
      else transaction fault (update_where
        (\<lambda>r. ur_UserID r = userID \<and> ur_RefNo r = refNo \<and> (ur_Status r = ''active'' \<or> ur_Status r = ''reconciliation''))
        (\<lambda>r. r\<lparr>ur_Status := ''reconciliation'', ur_FailureCode := take 64 code, ur_ReconciliationAt := Some now\<rparr>)) db)"

section \<open>What is held\<close>

text \<open>The budgets of a user that reservations hold now, of the balance and of the credit of a period.\<close>

definition held_balance :: "nat \<Rightarrow> gotime \<Rightarrow> billing_db \<Rightarrow> int" where
  "held_balance u now db = sum_list (map ur_BalanceNanousd (filter (holds_budget u now) (db_reservations db)))"

definition held_credit :: "nat \<Rightarrow> gotime \<Rightarrow> gotime \<Rightarrow> gotime \<Rightarrow> billing_db \<Rightarrow> int" where
  "held_credit u s e now db = sum_list (map ur_PeriodCreditNanousd (filter (\<lambda>r. holds_budget u now r \<and>
     ur_PeriodStartAt r = Some s \<and> ur_PeriodEndAt r = Some e) (db_reservations db)))"

text \<open>What was billed to a user in a period, without free models.\<close>

definition billed_in :: "nat \<Rightarrow> gotime \<Rightarrow> gotime \<Rightarrow> billing_db \<Rightarrow> int" where
  "billed_in u s e db = sum_list (map ul_BilledNanousd (filter (\<lambda>l. ul_UserID l = u \<and> \<not> ul_IsFreeModel l \<and>
     s \<le> ul_BillingAt l \<and> ul_BillingAt l < e) (db_ledgers db)))"

lemma sum_active_is_held:
  "sumActiveBalanceReservations u 0 now db = Inr n \<Longrightarrow> n = held_balance u now db"
  "sumActivePeriodCreditReservations u s e 0 now db = Inr n \<Longrightarrow> n = held_credit u s e now db"
  "sumPeriodBilledNanousd u s e db = Inr n \<Longrightarrow> n = billed_in u s e db"
  by (simp_all add: sumActiveBalanceReservations_def sumActivePeriodCreditReservations_def
      sumPeriodBilledNanousd_def held_balance_def held_credit_def billed_in_def)

definition balance_of :: "billing_db \<Rightarrow> nat \<Rightarrow> int" where
  "balance_of db u = (case db_accounts db u of None \<Rightarrow> 0 | Some a \<Rightarrow> ba_BalanceNanousd a)"

text \<open>The columns hold 64-bit integers, and an account is stored under its user.\<close>

definition accounts_ok :: "billing_db \<Rightarrow> bool" where
  "accounts_ok db \<longleftrightarrow> (\<forall>u a. db_accounts db u = Some a \<longrightarrow> ba_UserID a = u \<and> in_int64 (ba_BalanceNanousd a))"

lemma getOrCreate_effects:
  assumes "getOrCreateBillingAccountForUpdate u db0 = Inr (a, db)"
  shows "db_accounts db u = Some a" "ba_BalanceNanousd a = balance_of db0 u" "balance_of db = balance_of db0"
    "db_reservations db = db_reservations db0" "db_ledgers db = db_ledgers db0"
    "db_transactions db = db_transactions db0" "db_orders db = db_orders db0" "u \<noteq> 0" "accounts_ok db0 \<Longrightarrow> accounts_ok db"
    "db_lastID db0 \<le> db_lastID db" "accounts_ok db0 \<Longrightarrow> in_int64 (ba_BalanceNanousd a)" "accounts_ok db0 \<Longrightarrow> ba_UserID a = u"
  using assms
  by (auto simp: getOrCreateBillingAccountForUpdate_def balance_of_def accounts_ok_def Let_def fun_eq_iff in_int64_def
      int64_defs split: if_splits option.splits)

lemma request_credit_value:
  "request_credit now inp db = Inr c \<Longrightarrow> c = 0 \<or> (\<exists>s e. rq_Mode inp = ''period'' \<and> rq_PeriodStartAt inp = Some s \<and>
     rq_PeriodEndAt inp = Some e \<and> c = remainingNonNegativeBudget (rq_PeriodCreditNanousd inp)
       (billed_in (rq_UserID inp) s e db) (held_credit (rq_UserID inp) s e now db))"
  by (auto simp: request_credit_def available_credit_def dest!: sum_active_is_held split: if_splits option.splits sum.splits)

text \<open>What a successful reservation has checked.\<close>

lemma reserve_body_checked:
  assumes "reserve_body now inp db0 = Inr (r, db')"
  shows "\<exists>account db credit req. getOrCreateBillingAccountForUpdate (rq_UserID inp) db0 = Inr (account, db) \<and>
    countActiveUsageReservations (rq_UserID inp) now db < UsageReservationMaxActivePerUser \<and>
    find_reservation (rq_UserID inp) (rq_RefNo inp) db = None \<and> 0 \<le> ba_BalanceNanousd account \<and>
    request_credit now inp db = Inr credit \<and> 0 < req \<and>
    (rq_RequestedNanousd inp \<le> 0 \<or> req = rq_RequestedNanousd inp) \<and>
    req \<le> addNonNegativeInt64 credit
       (remainingNonNegativeBudget (ba_BalanceNanousd account) (held_balance (rq_UserID inp) now db) 0) \<and>
    (r, db') = insert_reservation (new_reservation inp req (minInt64 req credit) now) db"
proof -
  obtain account db where a: "getOrCreateBillingAccountForUpdate (rq_UserID inp) db0 = Inr (account, db)"
    using assms by (auto simp: reserve_body_def split: sum.splits)
  from assms a obtain bal credit where b: "sumActiveBalanceReservations (rq_UserID inp) 0 now db = Inr bal"
    "request_credit now inp db = Inr credit"
    by (auto simp: reserve_body_def Let_def split: sum.splits if_splits)
  let ?avail = "addNonNegativeInt64 credit (remainingNonNegativeBudget (ba_BalanceNanousd account) bal 0)"
  let ?req = "requested_budget (rq_RequestedNanousd inp) ?avail (countActiveUsageReservations (rq_UserID inp) now db)"
  have "countActiveUsageReservations (rq_UserID inp) now db < UsageReservationMaxActivePerUser \<and>
      find_reservation (rq_UserID inp) (rq_RefNo inp) db = None \<and> 0 \<le> ba_BalanceNanousd account \<and> 0 < ?req \<and> ?req \<le> ?avail \<and>
      (r, db') = insert_reservation (new_reservation inp ?req (minInt64 ?req credit) now) db"
    using assms a b by (simp add: reserve_body_def Let_def split: if_splits)
  moreover have "rq_RequestedNanousd inp \<le> 0 \<or> ?req = rq_RequestedNanousd inp" by (simp add: requested_budget_def)
  ultimately show ?thesis using a b sum_active_is_held(1) [OF b(1)] by blast
qed

text \<open>How a budget is split between credit and balance.\<close>

lemma split_budget:
  assumes "0 \<le> c" "in_int64 c" "0 \<le> b" "in_int64 b" "0 \<le> req" "req \<le> addNonNegativeInt64 c b"
  shows "wrap64 (req - minInt64 req c) = req - minInt64 req c" "0 \<le> minInt64 req c" "minInt64 req c \<le> c"
    "0 \<le> req - minInt64 req c" "req - minInt64 req c \<le> b"
proof -
  have le: "req \<le> c + b" "req \<le> max_int64"
    using assms(6) addNonNegative_exact [OF assms(2,4)] assms(1,3) by simp_all
  then show "0 \<le> minInt64 req c" "minInt64 req c \<le> c" "0 \<le> req - minInt64 req c" "req - minInt64 req c \<le> b"
    using assms(1,3,5) by (auto simp: minInt64_def)
  then show "wrap64 (req - minInt64 req c) = req - minInt64 req c"
    using le(2) assms(5) by (intro wrap64_id) (simp add: int64_defs)
qed

lemma remaining_bounds:
  assumes "in_int64 limit"
  shows "0 \<le> remainingNonNegativeBudget limit u r" "in_int64 (remainingNonNegativeBudget limit u r)"
    "0 < remainingNonNegativeBudget limit u r \<Longrightarrow> remainingNonNegativeBudget limit u r \<le> limit - u - r"
  using assms unfolding remaining_exact [OF assms] by (auto simp: in_int64_def max_def int64_defs split: if_splits)

lemma request_credit_bounds:
  assumes "request_credit now inp db = Inr c" and "in_int64 (rq_PeriodCreditNanousd inp)"
  shows "0 \<le> c" "in_int64 c"
  using request_credit_value [OF assms(1)] remaining_bounds [OF assms(2)]
  by (auto simp: in_int64_def int64_defs)

lemma insert_reservation_effects:
  "insert_reservation r db = (r', db') \<Longrightarrow> r' = r\<lparr>ur_ID := Suc (db_lastID db)\<rparr> \<and>
     db_reservations db' = db_reservations db @ [r'] \<and> db_accounts db' = db_accounts db \<and>
     db_ledgers db' = db_ledgers db \<and> db_transactions db' = db_transactions db \<and> db_orders db' = db_orders db"
  by (auto simp: insert_reservation_def Let_def)

lemma ttl_pos: "now < now + usageReservationTTL"
  by (simp add: usageReservationTTL_def go_time)

text \<open>A split of a budget, checked against the balance and the credit of the period it is taken from.\<close>

definition within_budget :: "nat \<Rightarrow> gotime \<Rightarrow> usage_reservation \<Rightarrow> billing_db \<Rightarrow> bool" where
  "within_budget u now r db \<longleftrightarrow> 0 \<le> ur_BalanceNanousd r \<and> 0 \<le> ur_PeriodCreditNanousd r \<and>
     (0 < ur_BalanceNanousd r \<longrightarrow> held_balance u now db \<le> balance_of db u) \<and>
     (\<forall>s e. 0 < ur_PeriodCreditNanousd r \<longrightarrow> ur_PeriodStartAt r = Some s \<longrightarrow> ur_PeriodEndAt r = Some e \<longrightarrow>
        billed_in u s e db + held_credit u s e now db \<le> ur_PeriodLimitNanousd r)"

lemma reserve_body_within:
  assumes "reserve_body now inp db0 = Inr (r, db')" and "accounts_ok db0" and "in_int64 (rq_PeriodCreditNanousd inp)"
  shows "within_budget (rq_UserID inp) now r db'" and "0 < ur_BalanceNanousd r + ur_PeriodCreditNanousd r"
    and "countActiveUsageReservations (rq_UserID inp) now db' \<le> UsageReservationMaxActivePerUser"
    and "rq_RequestedNanousd inp \<le> 0 \<or> ur_BalanceNanousd r + ur_PeriodCreditNanousd r = rq_RequestedNanousd inp"
proof -
  let ?u = "rq_UserID inp"
  obtain account db c req where g: "getOrCreateBillingAccountForUpdate ?u db0 = Inr (account, db)"
    and n: "countActiveUsageReservations ?u now db < UsageReservationMaxActivePerUser"
    and bal: "0 \<le> ba_BalanceNanousd account" and c: "request_credit now inp db = Inr c" and pos: "0 < req"
    and rq: "rq_RequestedNanousd inp \<le> 0 \<or> req = rq_RequestedNanousd inp"
    and le: "req \<le> addNonNegativeInt64 c (remainingNonNegativeBudget (ba_BalanceNanousd account) (held_balance ?u now db) 0)"
    and ins: "insert_reservation (new_reservation inp req (minInt64 req c) now) db = (r, db')"
    using reserve_body_checked [OF assms(1)] by metis
  note e = getOrCreate_effects [OF g]
  let ?b = "remainingNonNegativeBudget (ba_BalanceNanousd account) (held_balance ?u now db) 0"
  note b = remaining_bounds [OF e(11) [OF assms(2)], of "held_balance ?u now db" 0]
  note cb = request_credit_bounds [OF c assms(3)]
  note split = split_budget [OF cb(1,2) b(1,2) less_imp_le [OF pos] le]
  note i = insert_reservation_effects [OF ins]
  have r: "ur_BalanceNanousd r = req - minInt64 req c" "ur_PeriodCreditNanousd r = minInt64 req c"
    "ur_PeriodLimitNanousd r = rq_PeriodCreditNanousd inp" "ur_PeriodStartAt r = rq_PeriodStartAt inp"
    "ur_PeriodEndAt r = rq_PeriodEndAt inp" "holds_budget ?u now r"
    using i split(1) ttl_pos [of now] by (simp_all add: new_reservation_def holds_budget_def)
  have held: "held_balance ?u now db' = held_balance ?u now db + ur_BalanceNanousd r"
    "held_credit ?u s e now db' = held_credit ?u s e now db +
       (if ur_PeriodStartAt r = Some s \<and> ur_PeriodEndAt r = Some e then ur_PeriodCreditNanousd r else 0)"
    "billed_in ?u s e db' = billed_in ?u s e db" "balance_of db' ?u = ba_BalanceNanousd account" for s e
    using i r(6) e(1) by (simp_all add: held_balance_def held_credit_def billed_in_def balance_of_def)
  have "0 < ur_BalanceNanousd r \<longrightarrow> held_balance ?u now db' \<le> balance_of db' ?u"
    using r(1) split(5) b(3) held(1,4) by (auto)
  moreover have "billed_in ?u s e db' + held_credit ?u s e now db' \<le> ur_PeriodLimitNanousd r"
    if "0 < ur_PeriodCreditNanousd r" "ur_PeriodStartAt r = Some s" "ur_PeriodEndAt r = Some e" for s e
  proof -
    have "0 < c" using that(1) r(2) split(3) by linarith
    then have "c = remainingNonNegativeBudget (rq_PeriodCreditNanousd inp) (billed_in ?u s e db) (held_credit ?u s e now db)"
      using request_credit_value [OF c] that r by auto
    then have "c \<le> rq_PeriodCreditNanousd inp - billed_in ?u s e db - held_credit ?u s e now db"
      using remaining_bounds(3) [OF assms(3)] \<open>0 < c\<close> by simp
    then show ?thesis using held(2,3) that r split(3) by simp
  qed
  ultimately show "within_budget ?u now r db'" using split r by (auto simp: within_budget_def)
  show "0 < ur_BalanceNanousd r + ur_PeriodCreditNanousd r" using r pos by simp
  show "countActiveUsageReservations ?u now db' \<le> UsageReservationMaxActivePerUser"
    using n i r(6) by (simp add: countActiveUsageReservations_def)
  show "rq_RequestedNanousd inp \<le> 0 \<or> ur_BalanceNanousd r + ur_PeriodCreditNanousd r = rq_RequestedNanousd inp"
    using rq r by auto
qed

text \<open>
  C12: money is not promised twice. When a reservation is granted, the budgets that all
  unsettled calls of the user then hold fit into the balance (if this one takes any of it), and what
  was billed in the period plus all credit held fits into the plan's credit (if this one takes any);
  the budget is positive, is the one asked for when one was, and the user has at most five such calls.
\<close>

theorem reserve_within_budget:
  assumes "ReserveUsageBalance fault now inp db = (Inr r, db')" and "accounts_ok db"
    and "in_int64 (rq_PeriodCreditNanousd inp)"
  shows "within_budget (rq_UserID inp) now r db' \<and> 0 < ur_BalanceNanousd r + ur_PeriodCreditNanousd r \<and>
    (rq_RequestedNanousd inp = 0 \<or> ur_BalanceNanousd r + ur_PeriodCreditNanousd r = rq_RequestedNanousd inp) \<and>
    countActiveUsageReservations (rq_UserID inp) now db' \<le> 5"
proof -
  let ?inp = "inp\<lparr>rq_RefNo := trim_space (rq_RefNo inp), rq_Mode := trim_space (rq_Mode inp)\<rparr>"
  have b: "reserve_body now ?inp db = Inr (r, db')" and p: "0 \<le> rq_RequestedNanousd inp"
    using assms(1) by (auto simp: ReserveUsageBalance_def Let_def transaction_commit split: if_splits)
  show ?thesis
    using reserve_body_within [OF b assms(2)] assms(3) p by (auto simp: UsageReservationMaxActivePerUser_def)
qed

text \<open>The rows of the table: new and distinct ids, one row per user and reference, amounts that are not negative.\<close>

definition reservations_ok :: "billing_db \<Rightarrow> bool" where
  "reservations_ok db \<longleftrightarrow> distinct (map ur_ID (db_reservations db)) \<and>
     distinct (map (\<lambda>r. (ur_UserID r, ur_RefNo r)) (db_reservations db)) \<and>
     (\<forall>r \<in> set (db_reservations db). 0 < ur_ID r \<and> ur_ID r \<le> db_lastID db \<and> 0 \<le> ur_BalanceNanousd r \<and>
        0 \<le> ur_PeriodCreditNanousd r \<and> in_int64 (ur_BalanceNanousd r) \<and> in_int64 (ur_PeriodCreditNanousd r) \<and>
        in_int64 (ur_PeriodLimitNanousd r))"

text \<open>A user with a balance of 1000 and a plan whose period gives 500; one call holds 300 of the credit.\<close>

definition sample_request :: reservation_request where
  "sample_request = \<lparr>rq_UserID = 7, rq_RefNo = ''call 2'', rq_Mode = ''period'', rq_RequestedNanousd = 900,
     rq_PeriodStartAt = Some 0, rq_PeriodEndAt = Some 100, rq_PeriodCreditNanousd = 500\<rparr>"

definition sample_db :: billing_db where
  "sample_db = empty_billing_db\<lparr>db_accounts := [7 \<mapsto> \<lparr>ba_ID = 1, ba_UserID = 7, ba_Currency = ''USD'',
       ba_BalanceNanousd = 1000, ba_Status = ''active''\<rparr>],
     db_reservations := [(new_reservation (sample_request\<lparr>rq_RefNo := ''call 1''\<rparr>) 300 300 5)\<lparr>ur_ID := 2\<rparr>],
     db_lastID := 2\<rparr>"

lemma sample_db_ok: "accounts_ok sample_db" "reservations_ok sample_db"
  by (auto simp: sample_db_def accounts_ok_def reservations_ok_def new_reservation_def sample_request_def
      in_int64_def int64_defs wrap64_def split: if_splits)

theorem reserve_within_budget_witness:
  "\<exists>r db'. ReserveUsageBalance None 10 sample_request sample_db = (Inr r, db') \<and> within_budget 7 10 r db' \<and>
     ur_BalanceNanousd r + ur_PeriodCreditNanousd r = 900"
proof -
  have "\<not> isl (fst (ReserveUsageBalance None 10 sample_request sample_db))" by code_simp
  then obtain r db' where r: "ReserveUsageBalance None 10 sample_request sample_db = (Inr r, db')"
    using transaction_succeeds by blast
  have "in_int64 (rq_PeriodCreditNanousd sample_request)" by (simp add: sample_request_def in_int64_def int64_defs)
  from reserve_within_budget [OF r sample_db_ok(1) this] r show ?thesis by (auto simp: sample_request_def)
qed

section \<open>Raising a reservation\<close>

lemma update_none: "\<forall>y \<in> set xs. key y \<noteq> k \<Longrightarrow> map (\<lambda>y. if key y = k then g y else y) xs = xs"
  by (induction xs) auto

lemma sum_update_one:
  fixes f :: "'a \<Rightarrow> int"
  assumes "distinct (map key xs)" and "x \<in> set xs"
  shows "sum_list (map f (filter P (map (\<lambda>y. if key y = key x then g y else y) xs))) =
    sum_list (map f (filter (\<lambda>y. P y \<and> key y \<noteq> key x) xs)) + (if P (g x) then f (g x) else 0)"
  using assms
proof (induction xs)
  case (Cons y ys)
  show ?case
  proof (cases "y = x")
    case True
    then have ne: "\<forall>z \<in> set ys. key z \<noteq> key x" using Cons.prems(1) by (auto simp: image_iff)
    then have "filter (\<lambda>z. P z \<and> key z \<noteq> key x) ys = filter P ys" by (intro filter_cong) auto
    then show ?thesis using True update_none [OF ne, of g] by simp
  next
    case False
    then have "key y \<noteq> key x" using Cons.prems by (metis image_eqI list.set_map list.simps(9) distinct.simps(2) set_ConsD)
    then show ?thesis using Cons False by simp
  qed
qed simp

lemma find_reservation_in:
  "find_reservation u ref db = Some r \<Longrightarrow> r \<in> set (db_reservations db) \<and> ur_UserID r = u \<and> ur_RefNo r = ref"
  by (auto simp: find_reservation_def find_Some_iff)

lemma find_update:
  assumes "distinct (map ur_ID xs)" and "distinct (map (\<lambda>r. (ur_UserID r, ur_RefNo r)) xs)"
    and "r \<in> set xs" and "\<And>x. ur_UserID (g x) = ur_UserID x" and "\<And>x. ur_RefNo (g x) = ur_RefNo x"
  shows "List.find (\<lambda>x. ur_UserID x = ur_UserID r \<and> ur_RefNo x = ur_RefNo r)
    (map (\<lambda>x. if ur_ID x = ur_ID r then g x else x) xs) = Some (g r)"
  using assms(1-3)
proof (induction xs)
  case (Cons y ys)
  then show ?case using assms(4,5) by (cases "y = r") force+
qed simp

lemma reservations_ok_update:
  assumes "reservations_ok db" and "\<And>x. ur_ID (f x) = ur_ID x" "\<And>x. ur_UserID (f x) = ur_UserID x" "\<And>x. ur_RefNo (f x) = ur_RefNo x"
    and "\<And>x. x \<in> set (db_reservations db) \<Longrightarrow> cond x \<Longrightarrow> 0 \<le> ur_BalanceNanousd (f x) \<and> 0 \<le> ur_PeriodCreditNanousd (f x) \<and>
      in_int64 (ur_BalanceNanousd (f x)) \<and> in_int64 (ur_PeriodCreditNanousd (f x)) \<and> in_int64 (ur_PeriodLimitNanousd (f x))"
  shows "reservations_ok (update_reservations cond f db)"
proof -
  let ?g = "\<lambda>r. if cond r then f r else r"
  have c: "ur_ID \<circ> ?g = ur_ID" "(\<lambda>r. (ur_UserID r, ur_RefNo r)) \<circ> ?g = (\<lambda>r. (ur_UserID r, ur_RefNo r))"
    using assms(2-4) by auto
  then have "map ur_ID (map ?g xs) = map ur_ID xs"
    "map (\<lambda>r. (ur_UserID r, ur_RefNo r)) (map ?g xs) = map (\<lambda>r. (ur_UserID r, ur_RefNo r)) xs" for xs
    by (simp_all only: list.map_comp)
  then show ?thesis using assms by (auto simp: reservations_ok_def update_reservations_def simp del: map_map list.map_comp)
qed

lemma reservations_ok_insert:
  assumes "reservations_ok db" and "find_reservation (ur_UserID r) (ur_RefNo r) db = None"
    and "insert_reservation r db = (r', db')" and "0 \<le> ur_BalanceNanousd r" "0 \<le> ur_PeriodCreditNanousd r"
    and "in_int64 (ur_BalanceNanousd r)" "in_int64 (ur_PeriodCreditNanousd r)" "in_int64 (ur_PeriodLimitNanousd r)"
  shows "reservations_ok db'"
  using assms
  by (fastforce simp: reservations_ok_def insert_reservation_def Let_def find_reservation_def find_None_iff)

lemma raise_body_checked:
  assumes "raise_body now u ref required db0 = Inr ((), db')"
  shows "\<exists>account db r. getOrCreateBillingAccountForUpdate u db0 = Inr (account, db) \<and>
    find_reservation u ref db = Some r \<and> ur_Status r = ''active'' \<and> now < ur_ExpiresAt r \<and>
    (required \<le> addNonNegativeInt64 (ur_BalanceNanousd r) (ur_PeriodCreditNanousd r) \<and> db' = db \<or>
     (\<exists>other c. sumActiveBalanceReservations u (ur_ID r) now db = Inr other \<and>
        (c = 0 \<or> (\<exists>s e used held. ur_PeriodStartAt r = Some s \<and> ur_PeriodEndAt r = Some e \<and>
           sumPeriodBilledNanousd u s e db = Inr used \<and> sumActivePeriodCreditReservations u s e (ur_ID r) now db = Inr held \<and>
           c = remainingNonNegativeBudget (ur_PeriodLimitNanousd r) used held)) \<and>
        required \<le> addNonNegativeInt64 c (remainingNonNegativeBudget (ba_BalanceNanousd account) other 0) \<and>
        db' = update_reservations (\<lambda>x. ur_ID x = ur_ID r) (\<lambda>x. x\<lparr>ur_BalanceNanousd := wrap64 (required - minInt64 required c),
          ur_PeriodCreditNanousd := minInt64 required c\<rparr>) db))"
proof -
  obtain account db where a: "getOrCreateBillingAccountForUpdate u db0 = Inr (account, db)"
    using assms by (auto simp: raise_body_def split: sum.splits)
  from assms a obtain r where r: "find_reservation u ref db = Some r" "ur_Status r = ''active''" "now < ur_ExpiresAt r"
    by (auto simp: raise_body_def split: option.splits if_splits)
  show ?thesis
  proof (cases "required \<le> addNonNegativeInt64 (ur_BalanceNanousd r) (ur_PeriodCreditNanousd r)")
    case True
    then show ?thesis using assms a r by (auto simp: raise_body_def)
  next
    case False
    let ?cr = "case (ur_PeriodStartAt r, ur_PeriodEndAt r) of
        (Some s, Some e) \<Rightarrow> if ur_Mode r = ''period''
          then available_credit u s e (ur_PeriodLimitNanousd r) (ur_ID r) now db else Inr 0
      | _ \<Rightarrow> Inr 0"
    obtain other c where oc: "sumActiveBalanceReservations u (ur_ID r) now db = Inr other" "?cr = Inr c"
      "required \<le> addNonNegativeInt64 c (remainingNonNegativeBudget (ba_BalanceNanousd account) other 0)"
      "db' = update_reservations (\<lambda>x. ur_ID x = ur_ID r) (\<lambda>x. x\<lparr>ur_BalanceNanousd := wrap64 (required - minInt64 required c),
          ur_PeriodCreditNanousd := minInt64 required c\<rparr>) db"
    proof -
      have "\<exists>other. sumActiveBalanceReservations u (ur_ID r) now db = Inr other"
        using assms a r False by (auto simp: raise_body_def split: sum.splits)
      then obtain other where o: "sumActiveBalanceReservations u (ur_ID r) now db = Inr other" ..
      have "\<exists>c. ?cr = Inr c" using assms a r False o by (cases ?cr) (simp_all add: raise_body_def)
      then obtain c where c: "?cr = Inr c" ..
      show ?thesis using assms a r False o c
        by (intro that [OF o c]) (simp_all add: raise_body_def Let_def split: if_splits)
    qed
    have "c = 0 \<or> (\<exists>s e used held. ur_PeriodStartAt r = Some s \<and> ur_PeriodEndAt r = Some e \<and>
           sumPeriodBilledNanousd u s e db = Inr used \<and> sumActivePeriodCreditReservations u s e (ur_ID r) now db = Inr held \<and>
           c = remainingNonNegativeBudget (ur_PeriodLimitNanousd r) used held)"
      using oc(2) by (auto simp: available_credit_def split: option.splits if_splits sum.splits)
    then show ?thesis using a r oc by blast
  qed
qed

lemma sum_others_is_held:
  assumes "reservations_ok db" and "r \<in> set (db_reservations db)" and "ur_UserID r = u" and "ur_Status r = ''active''"
    and "now < ur_ExpiresAt r"
    and upd: "\<And>x. ur_UserID (g x) = ur_UserID x \<and> ur_Status (g x) = ur_Status x \<and> ur_ExpiresAt (g x) = ur_ExpiresAt x \<and>
      ur_PeriodStartAt (g x) = ur_PeriodStartAt x \<and> ur_PeriodEndAt (g x) = ur_PeriodEndAt x"
    and db': "db' = update_reservations (\<lambda>x. ur_ID x = ur_ID r) g db"
  shows "sumActiveBalanceReservations u (ur_ID r) now db = Inr n \<Longrightarrow> held_balance u now db' = n + ur_BalanceNanousd (g r)"
    and "sumActivePeriodCreditReservations u s e (ur_ID r) now db = Inr m \<Longrightarrow> ur_PeriodStartAt r = Some s \<Longrightarrow>
      ur_PeriodEndAt r = Some e \<Longrightarrow> held_credit u s e now db' = m + ur_PeriodCreditNanousd (g r)"
proof -
  have d: "distinct (map ur_ID (db_reservations db))" and id: "ur_ID r \<noteq> 0"
    using assms(1,2) by (auto simp: reservations_ok_def)
  note sum = sum_update_one [OF d assms(2), of _ _ g]
  show "sumActiveBalanceReservations u (ur_ID r) now db = Inr n \<Longrightarrow> held_balance u now db' = n + ur_BalanceNanousd (g r)"
    using id assms(3-5) upd
    by (simp add: sumActiveBalanceReservations_def held_balance_def db' update_reservations_def sum holds_budget_def del: map_map list.map_comp)
  show "sumActivePeriodCreditReservations u s e (ur_ID r) now db = Inr m \<Longrightarrow> ur_PeriodStartAt r = Some s \<Longrightarrow>
      ur_PeriodEndAt r = Some e \<Longrightarrow> held_credit u s e now db' = m + ur_PeriodCreditNanousd (g r)"
    using id assms(3-5) upd
    by (simp add: sumActivePeriodCreditReservations_def held_credit_def db' update_reservations_def sum holds_budget_def
        conj_ac del: map_map list.map_comp)
qed

text \<open>
  A raised reservation covers what the call needs and is still within budget. When
  raising succeeds, the reservation holds at least the required amount; it was enough before, or its
  new split fits, with all other budgets held by the user, into the balance and the period's credit.
\<close>

theorem raise_covers_required:
  assumes "RaiseUsageBalanceReservation fault now u ref required db0 = (Inr (), db')"
    and "accounts_ok db0" and "reservations_ok db0" and "in_int64 required"
  shows "\<exists>r'. find_reservation u (trim_space ref) db' = Some r' \<and>
    required \<le> ur_BalanceNanousd r' + ur_PeriodCreditNanousd r' \<and>
    (find_reservation u (trim_space ref) db0 = Some r' \<or> within_budget u now r' db')"
proof -
  let ?ref = "trim_space ref"
  have req: "0 \<le> required" and body: "raise_body now u ?ref required db0 = Inr ((), db')"
    using assms(1) by (auto simp: RaiseUsageBalanceReservation_def Let_def transaction_commit split: if_splits)
  obtain account db r where g: "getOrCreateBillingAccountForUpdate u db0 = Inr (account, db)"
    and r: "find_reservation u ?ref db = Some r" "ur_Status r = ''active''" "now < ur_ExpiresAt r"
    and cs: "required \<le> addNonNegativeInt64 (ur_BalanceNanousd r) (ur_PeriodCreditNanousd r) \<and> db' = db \<or>
     (\<exists>other c. sumActiveBalanceReservations u (ur_ID r) now db = Inr other \<and>
        (c = 0 \<or> (\<exists>s e used held. ur_PeriodStartAt r = Some s \<and> ur_PeriodEndAt r = Some e \<and>
           sumPeriodBilledNanousd u s e db = Inr used \<and> sumActivePeriodCreditReservations u s e (ur_ID r) now db = Inr held \<and>
           c = remainingNonNegativeBudget (ur_PeriodLimitNanousd r) used held)) \<and>
        required \<le> addNonNegativeInt64 c (remainingNonNegativeBudget (ba_BalanceNanousd account) other 0) \<and>
        db' = update_reservations (\<lambda>x. ur_ID x = ur_ID r) (\<lambda>x. x\<lparr>ur_BalanceNanousd := wrap64 (required - minInt64 required c),
          ur_PeriodCreditNanousd := minInt64 required c\<rparr>) db)"
    using raise_body_checked [OF body] by blast
  note e = getOrCreate_effects [OF g]
  have ok: "reservations_ok db" using assms(3) e(4,10) by (auto simp: reservations_ok_def)
  have rr: "r \<in> set (db_reservations db)" "ur_UserID r = u" "ur_RefNo r = ?ref" using find_reservation_in [OF r(1)] by auto
  have old: "find_reservation u ?ref db0 = Some r" using r(1) e(4) by (simp add: find_reservation_def)
  have nn: "0 \<le> ur_BalanceNanousd r" "0 \<le> ur_PeriodCreditNanousd r" "in_int64 (ur_BalanceNanousd r)"
    "in_int64 (ur_PeriodCreditNanousd r)" "in_int64 (ur_PeriodLimitNanousd r)"
    using ok rr(1) by (auto simp: reservations_ok_def)
  from cs show ?thesis
  proof (rule disjE)
    assume "required \<le> addNonNegativeInt64 (ur_BalanceNanousd r) (ur_PeriodCreditNanousd r) \<and> db' = db"
    then show ?thesis using addNonNegative_exact [OF nn(3,4)] nn(1,2) old r(1) by auto
  next
    assume "\<exists>other c. sumActiveBalanceReservations u (ur_ID r) now db = Inr other \<and>
        (c = 0 \<or> (\<exists>s e used held. ur_PeriodStartAt r = Some s \<and> ur_PeriodEndAt r = Some e \<and>
           sumPeriodBilledNanousd u s e db = Inr used \<and> sumActivePeriodCreditReservations u s e (ur_ID r) now db = Inr held \<and>
           c = remainingNonNegativeBudget (ur_PeriodLimitNanousd r) used held)) \<and>
        required \<le> addNonNegativeInt64 c (remainingNonNegativeBudget (ba_BalanceNanousd account) other 0) \<and>
        db' = update_reservations (\<lambda>x. ur_ID x = ur_ID r) (\<lambda>x. x\<lparr>ur_BalanceNanousd := wrap64 (required - minInt64 required c),
          ur_PeriodCreditNanousd := minInt64 required c\<rparr>) db"
    then obtain other c where o: "sumActiveBalanceReservations u (ur_ID r) now db = Inr other"
      and cv: "c = 0 \<or> (\<exists>s e used held. ur_PeriodStartAt r = Some s \<and> ur_PeriodEndAt r = Some e \<and>
           sumPeriodBilledNanousd u s e db = Inr used \<and> sumActivePeriodCreditReservations u s e (ur_ID r) now db = Inr held \<and>
           c = remainingNonNegativeBudget (ur_PeriodLimitNanousd r) used held)"
      and le: "required \<le> addNonNegativeInt64 c (remainingNonNegativeBudget (ba_BalanceNanousd account) other 0)"
      and db': "db' = update_reservations (\<lambda>x. ur_ID x = ur_ID r) (\<lambda>x. x\<lparr>ur_BalanceNanousd :=
          wrap64 (required - minInt64 required c), ur_PeriodCreditNanousd := minInt64 required c\<rparr>) db"
      by blast
    let ?g = "\<lambda>x. x\<lparr>ur_BalanceNanousd := wrap64 (required - minInt64 required c), ur_PeriodCreditNanousd := minInt64 required c\<rparr>"
    have c: "0 \<le> c" "in_int64 c" using cv remaining_bounds(1,2) [OF nn(5)] by (auto simp: in_int64_def int64_defs)
    note b = remaining_bounds [OF e(11) [OF assms(2)], of other 0]
    note split = split_budget [OF c b(1,2) req le]
    have g_vals: "ur_BalanceNanousd (?g r) = required - minInt64 required c" "ur_PeriodCreditNanousd (?g r) = minInt64 required c"
      using split(1) by simp_all
    have upd: "ur_UserID (?g x) = ur_UserID x \<and> ur_Status (?g x) = ur_Status x \<and> ur_ExpiresAt (?g x) = ur_ExpiresAt x \<and>
      ur_PeriodStartAt (?g x) = ur_PeriodStartAt x \<and> ur_PeriodEndAt (?g x) = ur_PeriodEndAt x" for x by simp
    note held = sum_others_is_held [where g = ?g, OF ok rr(1,2) r(2,3) upd db']
    have find: "find_reservation u ?ref db' = Some (?g r)"
      using find_update [of "db_reservations db" r ?g] ok rr
      by (simp add: db' find_reservation_def update_reservations_def reservations_ok_def)
    have bal: "balance_of db' u = ba_BalanceNanousd account" "billed_in u s e' db' = billed_in u s e' db" for s e'
      using e(1) by (simp_all add: db' balance_of_def update_reservations_def billed_in_def)
    have part1: "held_balance u now db' \<le> balance_of db' u" if "0 < ur_BalanceNanousd (?g r)"
      using held(1) [OF o] bal(1) g_vals(1) split(5) b(3) that by simp
    have part2: "billed_in u s e' db' + held_credit u s e' now db' \<le> ur_PeriodLimitNanousd (?g r)"
      if a: "0 < ur_PeriodCreditNanousd (?g r)" "ur_PeriodStartAt (?g r) = Some s" "ur_PeriodEndAt (?g r) = Some e'" for s e'
    proof -
      have cpos: "0 < c" using a(1) g_vals(2) split(3) by linarith
      then obtain used h where u: "sumPeriodBilledNanousd u s e' db = Inr used"
        "sumActivePeriodCreditReservations u s e' (ur_ID r) now db = Inr h"
        "c = remainingNonNegativeBudget (ur_PeriodLimitNanousd r) used h" using cv a by auto
      have 1: "held_credit u s e' now db' = h + minInt64 required c"
        using held(2) [OF u(2)] a g_vals(2) by simp
      have 2: "used = billed_in u s e' db" using sum_active_is_held(3) [OF u(1)] .
      show ?thesis
        using remaining_bounds(3) [OF nn(5), of used h] u(3) cpos split(3) bal(2) 1 2 by simp
    qed
    have "within_budget u now (?g r) db'"
      unfolding within_budget_def using part1 part2 g_vals split by auto
    then show ?thesis using find g_vals by auto
  qed
qed

theorem raise_covers_required_witness:
  "\<exists>db' r'. RaiseUsageBalanceReservation None 10 7 ''call 1'' 1200 sample_db = (Inr (), db') \<and>
     find_reservation 7 ''call 1'' db' = Some r' \<and> 1200 \<le> ur_BalanceNanousd r' + ur_PeriodCreditNanousd r' \<and>
     within_budget 7 10 r' db'"
proof -
  have "\<not> isl (fst (RaiseUsageBalanceReservation None 10 7 ''call 1'' 1200 sample_db))" by code_simp
  then obtain db' where r: "RaiseUsageBalanceReservation None 10 7 ''call 1'' 1200 sample_db = (Inr (), db')"
    using transaction_succeeds by fastforce
  have "in_int64 1200" by (simp add: in_int64_def int64_defs)
  from raise_covers_required [OF r sample_db_ok this] obtain r' where r': "find_reservation 7 (trim_space ''call 1'') db' = Some r'"
    "1200 \<le> ur_BalanceNanousd r' + ur_PeriodCreditNanousd r'"
    "find_reservation 7 (trim_space ''call 1'') sample_db = Some r' \<or> within_budget 7 10 r' db'" by auto
  have t: "trim_space ''call 1'' = ''call 1''" by code_simp
  have "map_option (\<lambda>r. ur_BalanceNanousd r + ur_PeriodCreditNanousd r) (find_reservation 7 ''call 1'' sample_db) = Some 300"
    by code_simp
  then show ?thesis using r r' unfolding t by auto
qed

end
