(* ===== verification/Billing_Settlement.thy ===== *)
theory Billing_Settlement
  imports Billing_Reservations "HOL-Library.Sublist"
begin

text \<open>
  Settlement (\<open>repository.go\<close>, \<open>repository_reservation.go\<close>): the real use of a call is written to the
  ledger, charged to the balance or, under a plan, first to the credit of the period, and the
  reservation of the call is closed. Retries find the ledger row by the reservation or by the reference
  of the call and do not charge again.
\<close>

section \<open>Reservations at settlement\<close>

definition getUsageReservationForSettlement ::
  "nat \<Rightarrow> usage_reservation option \<Rightarrow> billing_db \<Rightarrow> repo_error + usage_reservation option \<times> bool" where
  "getUsageReservationForSettlement userID reservation db =
     (case reservation of None \<Rightarrow> Inr (None, False)
      | Some res \<Rightarrow>
        if userID = 0 \<or> (ur_UserID res \<noteq> 0 \<and> ur_UserID res \<noteq> userID) \<or> trim_space (ur_RefNo res) = [] then Inl ErrConflict
        else (case List.find (\<lambda>r. ur_UserID r = userID \<and> ur_RefNo r = trim_space (ur_RefNo res) \<and>
              (0 < ur_ID res \<longrightarrow> ur_ID r = ur_ID res)) (db_reservations db) of
            None \<Rightarrow> Inl ErrConflict
          | Some item \<Rightarrow>
            if ur_Status item = ''active'' \<or> ur_Status item = ''reconciliation'' then Inr (Some item, False)
            else if ur_Status item = ''settled'' then
              (if ur_UsageLedgerID item = 0 then Inl ErrConflict else Inr (Some item, True))
            else Inl ErrConflict))"

definition settleUsageReservation :: "gotime \<Rightarrow> usage_reservation option \<Rightarrow> nat \<Rightarrow> billing_db \<Rightarrow> billing_db" where
  "settleUsageReservation settledAt reservation usageLedgerID db =
     (case reservation of None \<Rightarrow> db
      | Some res \<Rightarrow> update_reservations (\<lambda>r. ur_ID r = ur_ID res) (\<lambda>r. r\<lparr>ur_Status := ''settled'',
          ur_UsageLedgerID := usageLedgerID, ur_SettledAt := Some settledAt\<rparr>) db)"

definition matchesPeriodReservation :: "usage_reservation \<Rightarrow> gotime \<Rightarrow> gotime \<Rightarrow> int \<Rightarrow> bool" where
  "matchesPeriodReservation r periodStart periodEnd periodCreditNanousd \<longleftrightarrow> ur_Mode r = ''period'' \<and>
     ur_PeriodStartAt r = Some periodStart \<and> ur_PeriodEndAt r = Some periodEnd \<and>
     ur_PeriodLimitNanousd r = periodCreditNanousd"

definition reservationRefNo :: "usage_reservation option \<Rightarrow> string" where
  "reservationRefNo reservation = (case reservation of None \<Rightarrow> [] | Some r \<Rightarrow> trim_space (ur_RefNo r))"

section \<open>The ledger\<close>

definition toModelUsageLedger :: "usage_ledger \<Rightarrow> usage_ledger" where
  "toModelUsageLedger usage = usage\<lparr>ul_ID := 0, ul_RefNo := trim_space (ul_RefNo usage)\<rparr>"

text \<open>An insert obeys the unique index over users and references that are not empty.\<close>

definition insert_ledger :: "usage_ledger \<Rightarrow> nat tx" where
  "insert_ledger l db =
     (if ul_RefNo l \<noteq> [] \<and> list_ex (\<lambda>x. ul_UserID x = ul_UserID l \<and> ul_RefNo x = ul_RefNo l) (db_ledgers db)
      then Inl ErrDuplicate
      else (let n = Suc (db_lastID db)
            in Inr (n, db\<lparr>db_ledgers := db_ledgers db @ [l\<lparr>ul_ID := n\<rparr>], db_lastID := n\<rparr>)))"

definition restoreUsageLedgerByRefNo :: "usage_ledger \<Rightarrow> billing_db \<Rightarrow> usage_ledger option" where
  "restoreUsageLedgerByRefNo usage db =
     (let refNo = trim_space (ul_RefNo usage)
      in if ul_UserID usage = 0 \<or> refNo = [] then None
         else List.find (\<lambda>l. ul_UserID l = ul_UserID usage \<and> ul_RefNo l = refNo) (db_ledgers db))"

definition restoreSettledUsageLedger :: "nat \<Rightarrow> billing_db \<Rightarrow> repo_error + usage_ledger" where
  "restoreSettledUsageLedger usageLedgerID db =
     (if usageLedgerID = 0 then Inl ErrConflict
      else case List.find (\<lambda>l. ul_ID l = usageLedgerID) (db_ledgers db) of None \<Rightarrow> Inl ErrNotFound | Some l \<Rightarrow> Inr l)"

text \<open>Every operation gives the caller's record as it is afterwards; without a record it does nothing.\<close>

definition add_usage_body :: "usage_ledger \<Rightarrow> usage_ledger option tx" where
  "add_usage_body usage db =
     (case restoreUsageLedgerByRefNo usage db of
        Some l \<Rightarrow> Inr (Some l, db)
      | None \<Rightarrow> (case insert_ledger (toModelUsageLedger usage) db of Inl e \<Rightarrow> Inl e | Inr (_, db') \<Rightarrow> Inr (Some usage, db')))"

definition AddUsage ::
  "repo_error option \<Rightarrow> usage_ledger option \<Rightarrow> billing_db \<Rightarrow> (repo_error + usage_ledger option) \<times> billing_db" where
  "AddUsage fault usage db =
     (case usage of None \<Rightarrow> (Inr None, db) | Some u \<Rightarrow> transaction fault (add_usage_body u) db)"

section \<open>Charging the balance\<close>

definition usage_charge :: "usage_ledger \<Rightarrow> int" where
  "usage_charge usage = (if ul_IsFreeModel usage \<or> ul_BilledNanousd usage \<le> 0 then 0 else ul_BilledNanousd usage)"

definition usage_debit_description :: string where
  "usage_debit_description = [CHR 0xE6, CHR 0x8C, CHR 0x89, CHR 0xE9, CHR 0x87, CHR 0x8F, CHR 0xE6, CHR 0xA8, CHR 0xA1, CHR 0xE5, CHR 0x9E, CHR 0x8B,
     CHR 0xE7, CHR 0x94, CHR 0xA8, CHR 0xE9, CHR 0x87, CHR 0x8F, CHR 0xE6, CHR 0x89, CHR 0xA3, CHR 0xE8, CHR 0xB4, CHR 0xB9]"

definition overage_debit_description :: string where
  "overage_debit_description = [CHR 0xE5, CHR 0x91, CHR 0xA8, CHR 0xE6, CHR 0x9C, CHR 0x9F, CHR 0xE5, CHR 0xA5, CHR 0x97, CHR 0xE9, CHR 0xA4, CHR 0x90,
     CHR 0xE8, CHR 0xB6, CHR 0x85, CHR 0xE9, CHR 0xA2, CHR 0x9D, CHR 0xE6, CHR 0x8C, CHR 0x89, CHR 0xE9, CHR 0x87, CHR 0x8F, CHR 0xE6, CHR 0x89, CHR 0xA3, CHR 0xE8, CHR 0xB4, CHR 0xB9]"

text \<open>Both settlements debit the account in the same way: only an amount that is not zero.\<close>

definition debit_usage :: "billing_account \<Rightarrow> nat \<Rightarrow> int \<Rightarrow> int \<Rightarrow> nat \<Rightarrow> string \<Rightarrow> string \<Rightarrow> unit tx" where
  "debit_usage account userID amount nextBalance ledgerID refNo description db =
     (if 0 < amount
      then (case add_to_balance userID (- amount) db of Inl e \<Rightarrow> Inl e
            | Inr (_, db') \<Rightarrow> Inr ((), snd (insert_transaction \<lparr>bt_ID = 0, bt_AccountID = ba_ID account, bt_UserID = userID,
                bt_Type = ''usage_debit'', bt_AmountNanousd = wrap64 (- amount), bt_BalanceAfterNanousd = nextBalance,
                bt_RefType = ''usage_ledger'', bt_RefID = ledgerID, bt_RefNo = refNo, bt_Description = description\<rparr> db')))
      else Inr ((), db))"

text \<open>The end of both settlements: the ledger row, the debit, the reservation.\<close>

definition post_usage ::
  "gotime \<Rightarrow> billing_account \<Rightarrow> usage_ledger \<Rightarrow> int \<Rightarrow> int \<Rightarrow> usage_reservation option \<Rightarrow> usage_reservation option \<Rightarrow> string \<Rightarrow> unit tx" where
  "post_usage settledAt account l amount nextBalance row reservation description db =
     (case insert_ledger (toModelUsageLedger l) db of Inl e \<Rightarrow> Inl e
      | Inr (ledgerID, db1) \<Rightarrow>
        (case debit_usage account (ul_UserID l) amount nextBalance ledgerID (reservationRefNo reservation) description db1 of
           Inl e \<Rightarrow> Inl e
         | Inr (_, db2) \<Rightarrow> Inr ((), settleUsageReservation settledAt row ledgerID db2)))"

text \<open>The row a retry gives back, if there is one: \<open>None\<close> means this is the first settlement.\<close>

definition settled_before ::
  "usage_ledger \<Rightarrow> usage_reservation option \<Rightarrow> bool \<Rightarrow> billing_db \<Rightarrow> repo_error + usage_ledger option" where
  "settled_before usage row alreadySettled db =
     (case row of
        None \<Rightarrow> Inr (restoreUsageLedgerByRefNo usage db)
      | Some r \<Rightarrow> if alreadySettled then map_sum id Some (restoreSettledUsageLedger (ur_UsageLedgerID r) db) else Inr None)"

definition settle_usage_body :: "gotime \<Rightarrow> usage_ledger \<Rightarrow> usage_reservation option \<Rightarrow> usage_ledger option tx" where
  "settle_usage_body settledAt usage reservation db0 =
     (case getOrCreateBillingAccountForUpdate (ul_UserID usage) db0 of Inl e \<Rightarrow> Inl e
      | Inr (account, db) \<Rightarrow>
        (case getUsageReservationForSettlement (ul_UserID usage) reservation db of Inl e \<Rightarrow> Inl e
         | Inr (row, alreadySettled) \<Rightarrow>
           if (case row of None \<Rightarrow> False | Some r \<Rightarrow> ur_Mode r \<noteq> ''usage'') then Inl ErrConflict
           else (case settled_before usage row alreadySettled db of Inl e \<Rightarrow> Inl e
            | Inr (Some l) \<Rightarrow> Inr (Some l, db)
            | Inr None \<Rightarrow>
              (let nextBalance = wrap64 (ba_BalanceNanousd account - usage_charge usage) in
               case post_usage settledAt account (usage\<lparr>ul_BalanceAfterNanousd := Some nextBalance\<rparr>) (usage_charge usage)
                 nextBalance row reservation usage_debit_description db of Inl e \<Rightarrow> Inl e
               | Inr (_, db') \<Rightarrow> Inr (Some usage, db')))))"

definition AddUsageAndSettleBalance ::
  "repo_error option \<Rightarrow> gotime \<Rightarrow> usage_ledger option \<Rightarrow> usage_reservation option \<Rightarrow> billing_db \<Rightarrow>
   (repo_error + usage_ledger option) \<times> billing_db" where
  "AddUsageAndSettleBalance fault settledAt usage reservation db =
     (case usage of None \<Rightarrow> (Inr None, db)
      | Some u \<Rightarrow> transaction fault (settle_usage_body settledAt u reservation) db)"

section \<open>Charging a plan\<close>

text \<open>
  The pricing snapshot of a ledger row is a JSON object. \<open>jc_decode\<close> is what \<open>json.Unmarshal\<close> leaves in
  an empty map, \<open>jc_encode\<close> is \<open>json.Marshal\<close>, which fails for no value the code puts in.
\<close>

record 'j json_codec =
  jc_decode :: "string \<Rightarrow> (string \<rightharpoonup> 'j)"
  jc_encode :: "(string \<rightharpoonup> 'j) \<Rightarrow> string option"
  jc_int :: "int \<Rightarrow> 'j"

definition withPeriodSettlementSnapshot :: "'j json_codec \<Rightarrow> string \<Rightarrow> (string \<times> int) list \<Rightarrow> string" where
  "withPeriodSettlementSnapshot codec raw values =
     (let trimmed = trim_space raw;
          snapshot = (if trimmed = [] then Map.empty else jc_decode codec trimmed)
      in case jc_encode codec (snapshot ++ map_of (map (\<lambda>(k, v). (k, jc_int codec v)) values)) of
           None \<Rightarrow> raw | Some s \<Rightarrow> s)"

definition period_snapshot :: "int \<Rightarrow> int \<Rightarrow> int \<Rightarrow> int \<Rightarrow> int \<Rightarrow> int \<Rightarrow> int \<Rightarrow> (string \<times> int) list" where
  "period_snapshot credit used charge covered overage reservedBalance reservedCredit = [
     (''period_credit_nanousd'', credit),
     (''period_used_before_nanousd'', used),
     (''period_used_after_nanousd'', addNonNegativeInt64 used charge),
     (''period_credit_covered_nanousd'', covered),
     (''period_credit_reserved_nanousd'', reservedCredit),
     (''period_overage_billed_nanousd'', overage),
     (''period_balance_charged_nanousd'', overage),
     (''period_balance_reserved_nanousd'', reservedBalance),
     (''period_balance_settlement_delta_nanousd'', wrap64 (overage - reservedBalance))]"

text \<open>How much of a charge the plan's credit covers, given what was used and what others reserved.\<close>

definition covered_by_credit :: "int \<Rightarrow> int \<Rightarrow> int \<Rightarrow> int \<Rightarrow> int" where
  "covered_by_credit credit used othersReserved charge =
     minInt64 charge (remainingNonNegativeBudget credit used othersReserved)"

definition reservation_id :: "usage_reservation option \<Rightarrow> nat" where
  "reservation_id row = (case row of None \<Rightarrow> 0 | Some r \<Rightarrow> ur_ID r)"

text \<open>The first settlement of a call under a plan, once the account and the reservation are found.\<close>

definition post_period_usage ::
  "'j json_codec \<Rightarrow> gotime \<Rightarrow> gotime \<Rightarrow> usage_ledger \<Rightarrow> gotime \<Rightarrow> gotime \<Rightarrow> int \<Rightarrow> billing_account \<Rightarrow>
   usage_reservation option \<Rightarrow> usage_reservation option \<Rightarrow> usage_ledger option tx" where
  "post_period_usage codec now settledAt usage periodStart periodEnd periodCredit account row reservation db =
     (case sumPeriodBilledNanousd (ul_UserID usage) periodStart periodEnd db of Inl e \<Rightarrow> Inl e
      | Inr usedBefore \<Rightarrow>
        (case sumActivePeriodCreditReservations (ul_UserID usage) periodStart periodEnd (reservation_id row) now db of
           Inl e \<Rightarrow> Inl e
         | Inr otherReservedCredit \<Rightarrow>
           (let charge = usage_charge usage;
                covered = covered_by_credit periodCredit usedBefore otherReservedCredit charge;
                overage = wrap64 (charge - covered);
                reservedBalance = (case row of None \<Rightarrow> 0 | Some r \<Rightarrow> ur_BalanceNanousd r);
                reservedCredit = (case row of None \<Rightarrow> 0 | Some r \<Rightarrow> ur_PeriodCreditNanousd r);
                nextBalance = wrap64 (ba_BalanceNanousd account - overage);
                snapshot = withPeriodSettlementSnapshot codec (ul_PricingSnapshotJSON usage)
                  (period_snapshot periodCredit usedBefore charge covered overage reservedBalance reservedCredit);
                posted = usage\<lparr>ul_BalanceAfterNanousd := Some nextBalance, ul_PricingSnapshotJSON := snapshot\<rparr>
            in case post_usage settledAt account posted overage nextBalance row reservation overage_debit_description db of
                 Inl e \<Rightarrow> Inl e
               | Inr (_, db') \<Rightarrow> Inr (Some (if snapshot = [] then usage
                   else usage\<lparr>ul_PricingSnapshotJSON := snapshot\<rparr>), db'))))"

definition settle_period_body ::
  "'j json_codec \<Rightarrow> gotime \<Rightarrow> gotime \<Rightarrow> usage_ledger \<Rightarrow> gotime \<Rightarrow> gotime \<Rightarrow> int \<Rightarrow> usage_reservation option \<Rightarrow>
   usage_ledger option tx" where
  "settle_period_body codec now settledAt usage periodStart periodEnd periodCredit reservation db0 =
     (case getOrCreateBillingAccountForUpdate (ul_UserID usage) db0 of Inl e \<Rightarrow> Inl e
      | Inr (account, db) \<Rightarrow>
        (case getUsageReservationForSettlement (ul_UserID usage) reservation db of Inl e \<Rightarrow> Inl e
         | Inr (row, alreadySettled) \<Rightarrow>
           if (case row of None \<Rightarrow> False | Some r \<Rightarrow> \<not> matchesPeriodReservation r periodStart periodEnd periodCredit)
           then Inl ErrConflict
           else (case settled_before usage row alreadySettled db of Inl e \<Rightarrow> Inl e
            | Inr (Some l) \<Rightarrow> Inr (Some l, db)
            | Inr None \<Rightarrow>
              post_period_usage codec now settledAt usage periodStart periodEnd periodCredit account row reservation db)))"

definition AddPeriodUsageAndSettleOverage ::
  "'j json_codec \<Rightarrow> repo_error option \<Rightarrow> gotime \<Rightarrow> gotime \<Rightarrow> usage_ledger option \<Rightarrow> gotime \<Rightarrow> gotime \<Rightarrow> int \<Rightarrow>
   usage_reservation option \<Rightarrow> billing_db \<Rightarrow> (repo_error + usage_ledger option) \<times> billing_db" where
  "AddPeriodUsageAndSettleOverage codec fault now settledAt usage periodStart periodEnd periodCredit reservation db =
     (case usage of None \<Rightarrow> (Inr None, db)
      | Some u \<Rightarrow>
        if ul_UserID u = 0 \<or> is_zero periodStart \<or> \<not> periodStart < periodEnd \<or> periodCredit < 0 then (Inl ErrInvalidInput, db)
        else transaction fault (settle_period_body codec now settledAt u periodStart periodEnd periodCredit reservation) db)"

section \<open>Balances set by hand\<close>

definition admin_set_description :: string where
  "admin_set_description = [CHR 0xE7, CHR 0xAE, CHR 0xA1, CHR 0xE7, CHR 0x90, CHR 0x86, CHR 0xE5, CHR 0x91, CHR 0x98, CHR 0xE8, CHR 0xAE, CHR 0xBE,
     CHR 0xE7, CHR 0xBD, CHR 0xAE, CHR 0xE4, CHR 0xBD, CHR 0x99, CHR 0xE9, CHR 0xA2, CHR 0x9D]"

definition set_balance_body :: "nat \<Rightarrow> int \<Rightarrow> string \<Rightarrow> string \<Rightarrow> billing_account tx" where
  "set_balance_body userID balance refNo description db0 =
     (case getOrCreateBillingAccountForUpdate userID db0 of Inl e \<Rightarrow> Inl e
      | Inr (account, db) \<Rightarrow>
        (let amount = wrap64 (balance - ba_BalanceNanousd account);
             db1 = update_balance userID balance db;
             db2 = (if amount \<noteq> 0
               then snd (insert_transaction \<lparr>bt_ID = 0, bt_AccountID = ba_ID account, bt_UserID = userID,
                 bt_Type = ''admin_set'', bt_AmountNanousd = amount, bt_BalanceAfterNanousd = balance,
                 bt_RefType = ''admin'', bt_RefID = 0, bt_RefNo = trim_space refNo,
                 bt_Description = (if trim_space description \<noteq> [] then trim_space description else admin_set_description)\<rparr> db1)
               else db1)
         in case db_accounts db2 userID of None \<Rightarrow> Inl ErrNotFound | Some a \<Rightarrow> Inr (a, db2)))"

definition SetBillingAccountBalance ::
  "repo_error option \<Rightarrow> nat \<Rightarrow> int \<Rightarrow> string \<Rightarrow> string \<Rightarrow> billing_db \<Rightarrow> (repo_error + billing_account) \<times> billing_db" where
  "SetBillingAccountBalance fault userID balance refNo description db =
     (if userID = 0 \<or> balance < 0 then (Inl ErrInvalidInput, db)
      else transaction fault (set_balance_body userID balance refNo description) db)"

definition GetOrCreateBillingAccount ::
  "repo_error option \<Rightarrow> nat \<Rightarrow> billing_db \<Rightarrow> (repo_error + billing_account) \<times> billing_db" where
  "GetOrCreateBillingAccount fault userID db =
     (if userID = 0 then (Inl ErrInvalidInput, db)
      else transaction fault (getOrCreateBillingAccountForUpdate userID) db)"

section \<open>Books\<close>

text \<open>
  The transactions are the audit trail of the balances: the sum of a user's transactions is the balance
  (modulo the width of the column), and every row records the balance it left behind.
\<close>

definition net :: "nat \<Rightarrow> balance_transaction list \<Rightarrow> int" where
  "net u ts = sum_list (map bt_AmountNanousd (filter (\<lambda>t. bt_UserID t = u) ts))"

definition books :: "billing_db \<Rightarrow> bool" where
  "books db \<longleftrightarrow> (\<forall>u. balance_of db u = wrap64 (net u (db_transactions db))) \<and>
     (\<forall>xs t ys. db_transactions db = xs @ t # ys \<longrightarrow> bt_BalanceAfterNanousd t = wrap64 (net (bt_UserID t) (xs @ [t])))"

text \<open>What one operation may do to balances and trail: nothing, or one posting.\<close>

definition posts :: "billing_db \<Rightarrow> billing_db \<Rightarrow> bool" where
  "posts db db' \<longleftrightarrow> (db_transactions db' = db_transactions db \<and> balance_of db' = balance_of db) \<or>
     (\<exists>t. db_transactions db' = db_transactions db @ [t] \<and>
        balance_of db' = (balance_of db)(bt_UserID t := bt_BalanceAfterNanousd t) \<and>
        bt_BalanceAfterNanousd t = wrap64 (balance_of db (bt_UserID t) + bt_AmountNanousd t))"

lemma wrap64_add_left: "wrap64 (wrap64 a + b) = wrap64 (a + b)"
  by (simp add: wrap64_def algebra_simps mod_simps)

lemma net_simps [simp]: "net u [] = 0" "net u (ts @ [t]) = net u ts + (if bt_UserID t = u then bt_AmountNanousd t else 0)"
  by (simp_all add: net_def)

lemma snoc_split: "ts @ [t] = xs @ y # ys \<longleftrightarrow> (\<exists>zs. ys = zs @ [t] \<and> ts = xs @ y # zs) \<or> (ys = [] \<and> xs = ts \<and> y = t)"
  by (cases ys rule: rev_cases) auto

lemma posts_books:
  assumes "posts db db'" and "books db"
  shows "books db'"
proof -
  from assms(1) consider (same) "db_transactions db' = db_transactions db" "balance_of db' = balance_of db"
    | (posted) t where "db_transactions db' = db_transactions db @ [t]"
        "balance_of db' = (balance_of db)(bt_UserID t := bt_BalanceAfterNanousd t)"
        "bt_BalanceAfterNanousd t = wrap64 (balance_of db (bt_UserID t) + bt_AmountNanousd t)"
    unfolding posts_def by blast
  then show ?thesis
  proof cases
    case same
    then show ?thesis using assms(2) by (simp add: books_def)
  next
    case posted
    then have "bt_BalanceAfterNanousd t = wrap64 (net (bt_UserID t) (db_transactions db) + bt_AmountNanousd t)"
      using assms(2) by (simp add: books_def wrap64_add_left)
    then show ?thesis using posted(1,2) assms(2) by (auto simp: books_def snoc_split)
  qed
qed

lemma balance_of_update [simp]:
  "balance_of (update_balance u b db) = (if db_accounts db u = None then balance_of db else (balance_of db)(u := b))"
  by (auto simp: balance_of_def update_balance_def fun_eq_iff split: option.splits)

lemma update_balance_frame [simp]:
  "db_transactions (update_balance u b db) = db_transactions db" "db_reservations (update_balance u b db) = db_reservations db"
  "db_ledgers (update_balance u b db) = db_ledgers db" "db_orders (update_balance u b db) = db_orders db"
  "db_codes (update_balance u b db) = db_codes db" "db_redemptions (update_balance u b db) = db_redemptions db"
  "db_subscriptions (update_balance u b db) = db_subscriptions db" "db_plans (update_balance u b db) = db_plans db"
  "db_prices (update_balance u b db) = db_prices db" "db_lastID (update_balance u b db) = db_lastID db"
  by (simp_all add: update_balance_def)

lemma insert_transaction_frame [simp]:
  "db_transactions (snd (insert_transaction t db)) = db_transactions db @ [t\<lparr>bt_ID := Suc (db_lastID db)\<rparr>]"
  "db_accounts (snd (insert_transaction t db)) = db_accounts db"
  "db_reservations (snd (insert_transaction t db)) = db_reservations db"
  "db_ledgers (snd (insert_transaction t db)) = db_ledgers db" "db_orders (snd (insert_transaction t db)) = db_orders db"
  "db_codes (snd (insert_transaction t db)) = db_codes db" "db_redemptions (snd (insert_transaction t db)) = db_redemptions db"
  "db_subscriptions (snd (insert_transaction t db)) = db_subscriptions db" "db_plans (snd (insert_transaction t db)) = db_plans db"
  "db_prices (snd (insert_transaction t db)) = db_prices db" "db_lastID (snd (insert_transaction t db)) = Suc (db_lastID db)"
  by (simp_all add: insert_transaction_def Let_def)

lemma balance_of_cong: "db_accounts db' = db_accounts db \<Longrightarrow> balance_of db' = balance_of db"
  by (simp add: balance_of_def fun_eq_iff)

lemma accounts_ok_update: "accounts_ok db \<Longrightarrow> in_int64 b \<Longrightarrow> accounts_ok (update_balance u b db)"
  by (auto simp: accounts_ok_def update_balance_def)

lemma dom_update_balance [simp]: "dom (db_accounts (update_balance u b db)) = dom (db_accounts db)"
  by (auto simp: update_balance_def split: if_splits)

lemma accounts_ok_cong: "db_accounts db' = db_accounts db \<Longrightarrow> accounts_ok db' = accounts_ok db"
  by (simp add: accounts_ok_def)

text \<open>Rows that later operations never take away: transactions, ledger rows, accounts and settled reservations.\<close>

definition history :: "billing_db \<Rightarrow> billing_db \<Rightarrow> bool" where
  "history db db' \<longleftrightarrow> prefix (db_transactions db) (db_transactions db') \<and> prefix (db_ledgers db) (db_ledgers db') \<and>
     dom (db_accounts db) \<subseteq> dom (db_accounts db') \<and>
     (\<forall>r \<in> set (db_reservations db). ur_Status r = ''settled'' \<longrightarrow> r \<in> set (db_reservations db'))"

lemma history_refl [simp]: "history db db"
  by (simp add: history_def)

lemma history_trans: "history a b \<Longrightarrow> history b c \<Longrightarrow> history a c"
  unfolding history_def by (intro conjI; blast intro: prefix_order.trans subset_trans)

text \<open>The ledger: new and distinct ids, one row per user and reference, 64-bit amounts.\<close>

definition ledgers_ok :: "billing_db \<Rightarrow> bool" where
  "ledgers_ok db \<longleftrightarrow> distinct (map ul_ID (db_ledgers db)) \<and>
     distinct (map (\<lambda>l. (ul_UserID l, ul_RefNo l)) (filter (\<lambda>l. ul_RefNo l \<noteq> []) (db_ledgers db))) \<and>
     (\<forall>l \<in> set (db_ledgers db). 0 < ul_ID l \<and> ul_ID l \<le> db_lastID db)"

lemma insert_ledger_effects:
  assumes "insert_ledger l db = Inr (n, db')"
  shows "n = Suc (db_lastID db)" "db_ledgers db' = db_ledgers db @ [l\<lparr>ul_ID := n\<rparr>]" "db_lastID db' = n"
    "db_accounts db' = db_accounts db" "db_transactions db' = db_transactions db"
    "db_reservations db' = db_reservations db" "db_orders db' = db_orders db" "db_codes db' = db_codes db"
    "db_redemptions db' = db_redemptions db" "db_subscriptions db' = db_subscriptions db"
    "ul_RefNo l \<noteq> [] \<Longrightarrow> x \<in> set (db_ledgers db) \<Longrightarrow> (ul_UserID x, ul_RefNo x) \<noteq> (ul_UserID l, ul_RefNo l)"
  using assms by (auto simp: insert_ledger_def Let_def list_ex_iff split: if_splits)

lemma insert_ledger_ok:
  assumes "insert_ledger l db = Inr (n, db')" and "ledgers_ok db"
  shows "ledgers_ok db'"
proof -
  note e = insert_ledger_effects [OF assms(1)]
  have "Suc (db_lastID db) \<notin> ul_ID ` set (db_ledgers db)" using assms(2) by (auto simp: ledgers_ok_def)
  moreover have "ul_RefNo l \<noteq> [] \<Longrightarrow> (ul_UserID l, ul_RefNo l) \<notin>
      (\<lambda>l. (ul_UserID l, ul_RefNo l)) ` set (filter (\<lambda>l. ul_RefNo l \<noteq> []) (db_ledgers db))"
    using e(11) by (metis (no_types, lifting) filter_is_subset imageE subsetD)
  ultimately show ?thesis using assms(2) e(1-3) by (auto simp: ledgers_ok_def)
qed

section \<open>Effects\<close>

definition billing_inv :: "billing_db \<Rightarrow> bool" where
  "billing_inv db \<longleftrightarrow> accounts_ok db \<and> reservations_ok db \<and> ledgers_ok db"

text \<open>What every operation does to a sound database.\<close>

definition good_step :: "billing_db \<Rightarrow> billing_db \<Rightarrow> bool" where
  "good_step db db' \<longleftrightarrow> billing_inv db' \<and> posts db db' \<and> history db db'"

lemma posts_refl [simp]: "posts db db"
  by (simp add: posts_def)

lemma good_step_refl: "billing_inv db \<Longrightarrow> good_step db db"
  by (simp add: good_step_def)

lemma transaction_good_step:
  "(\<And>x db'. body db = Inr (x, db') \<Longrightarrow> good_step db db') \<Longrightarrow> billing_inv db \<Longrightarrow> good_step db (snd (transaction fault body db))"
  by (auto simp: transaction_def good_step_refl split: option.splits sum.splits)

lemma getOrCreate_frame:
  assumes "getOrCreateBillingAccountForUpdate u db0 = Inr (a, db)"
  shows "db_codes db = db_codes db0" "db_redemptions db = db_redemptions db0" "db_subscriptions db = db_subscriptions db0"
    "db_plans db = db_plans db0" "db_prices db = db_prices db0"
  using assms by (auto simp: getOrCreateBillingAccountForUpdate_def Let_def split: if_splits option.splits)

lemma getOrCreate_step:
  assumes "getOrCreateBillingAccountForUpdate u db0 = Inr (a, db)" and "billing_inv db0"
  shows "billing_inv db" "history db0 db" "posts db0 db" "posts db db' \<Longrightarrow> posts db0 db'" "history db db' \<Longrightarrow> history db0 db'"
proof -
  note e = getOrCreate_effects [OF assms(1)]
  show "billing_inv db" using assms(2) e(4,5,9,10)
    by (auto simp: billing_inv_def reservations_ok_def ledgers_ok_def intro: le_trans)
  show "posts db0 db" using e(3,6) by (simp add: posts_def)
  show "posts db db' \<Longrightarrow> posts db0 db'" using e(3,6) by (simp add: posts_def)
  show "history db0 db" using e(4-6) assms(1)
    by (auto simp: history_def getOrCreateBillingAccountForUpdate_def Let_def split: if_splits option.splits)
  then show "history db db' \<Longrightarrow> history db0 db'" by (rule history_trans)
qed

lemma add_to_balance_effects:
  assumes "add_to_balance u d db = Inr ((), db')" and "db_accounts db u = Some a"
  shows "db' = update_balance u (ba_BalanceNanousd a + d) db" "in_int64 (ba_BalanceNanousd a + d)"
  using assms by (auto simp: add_to_balance_def split: sum.splits)

lemma debit_usage_effects:
  assumes "debit_usage account u amount nextBalance n ref descr db = Inr ((), db')"
    and "db_accounts db u = Some account" and "nextBalance = wrap64 (ba_BalanceNanousd account - amount)"
    and "0 \<le> amount" "in_int64 amount" and "accounts_ok db"
  shows "posts db db'" "balance_of db' = (balance_of db)(u := balance_of db u - amount)" "db_ledgers db' = db_ledgers db"
    "db_reservations db' = db_reservations db" "accounts_ok db'" "prefix (db_transactions db) (db_transactions db')"
    "db_lastID db \<le> db_lastID db'" "dom (db_accounts db') = dom (db_accounts db)"
proof -
  have b: "balance_of db u = ba_BalanceNanousd account" using assms(2) by (simp add: balance_of_def)
  have "posts db db' \<and> balance_of db' = (balance_of db)(u := balance_of db u - amount) \<and> db_ledgers db' = db_ledgers db \<and>
      db_reservations db' = db_reservations db \<and> accounts_ok db' \<and> prefix (db_transactions db) (db_transactions db') \<and>
      db_lastID db \<le> db_lastID db' \<and> dom (db_accounts db') = dom (db_accounts db)" (is ?all)
  proof (cases "0 < amount")
    case False
    then have "db' = db" using assms(1) by (simp add: debit_usage_def)
    moreover have "amount = 0" using False assms(4) by simp
    ultimately show ?all using assms(6) by simp
  next
    case True
    then obtain db1 t where a: "add_to_balance u (- amount) db = Inr ((), db1)" "db' = snd (insert_transaction t db1)"
      and t: "bt_UserID t = u" "bt_AmountNanousd t = wrap64 (- amount)" "bt_BalanceAfterNanousd t = nextBalance"
      using assms(1) by (auto simp: debit_usage_def split: sum.splits)
    note e = add_to_balance_effects [OF a(1) assms(2)]
    have bal: "balance_of db' = (balance_of db)(u := balance_of db u - amount)"
      using a(2) e(1) assms(2) b balance_of_cong [of db' db1] by simp
    have n: "nextBalance = balance_of db u - amount" using assms(3) e(2) b by simp
    have "wrap64 (- amount) = - amount" using True assms(5) by (intro wrap64_id) (simp add: int64_defs)
    then have "posts db db'"
      using a(2) e(1) t bal n e(2) b unfolding posts_def by (intro disjI2 exI [of _ "t\<lparr>bt_ID := Suc (db_lastID db)\<rparr>"]) simp
    moreover have "accounts_ok db'"
      using a(2) e assms(6) accounts_ok_update [OF assms(6) e(2), of u] by (simp add: accounts_ok_def)
    ultimately show ?all using bal a(2) e(1) by simp
  qed
  then show "posts db db'" "balance_of db' = (balance_of db)(u := balance_of db u - amount)" "db_ledgers db' = db_ledgers db"
    "db_reservations db' = db_reservations db" "accounts_ok db'" "prefix (db_transactions db) (db_transactions db')"
    "db_lastID db \<le> db_lastID db'" "dom (db_accounts db') = dom (db_accounts db)" by simp_all
qed

lemma settlement_reservation:
  assumes "getUsageReservationForSettlement u res db = Inr (row, settled)"
  shows "row = None \<Longrightarrow> res = None \<and> \<not> settled"
    and "row = Some r \<Longrightarrow> r \<in> set (db_reservations db) \<and> ur_UserID r = u \<and> ur_RefNo r = reservationRefNo res"
    and "row = Some r \<Longrightarrow> settled \<Longrightarrow> ur_Status r = ''settled'' \<and> ur_UsageLedgerID r \<noteq> 0"
    and "row = Some r \<Longrightarrow> \<not> settled \<Longrightarrow> ur_Status r = ''active'' \<or> ur_Status r = ''reconciliation''"
  using assms
  by (auto simp: getUsageReservationForSettlement_def reservationRefNo_def find_Some_iff
      split: option.splits if_splits)

lemma settleUsageReservation_frame [simp]:
  "db_accounts (settleUsageReservation t row n db) = db_accounts db"
  "db_transactions (settleUsageReservation t row n db) = db_transactions db"
  "db_ledgers (settleUsageReservation t row n db) = db_ledgers db"
  "db_lastID (settleUsageReservation t row n db) = db_lastID db"
  by (simp_all add: settleUsageReservation_def update_reservations_def split: option.splits)

lemma reservations_ok_row:
  "reservations_ok db \<Longrightarrow> r \<in> set (db_reservations db) \<Longrightarrow> 0 \<le> ur_BalanceNanousd r \<and> 0 \<le> ur_PeriodCreditNanousd r \<and>
     in_int64 (ur_BalanceNanousd r) \<and> in_int64 (ur_PeriodCreditNanousd r) \<and> in_int64 (ur_PeriodLimitNanousd r)"
  by (simp add: reservations_ok_def)

lemma reservations_ok_settle:
  "reservations_ok db \<Longrightarrow> reservations_ok (settleUsageReservation t row n db)"
  by (cases row) (auto simp: settleUsageReservation_def dest: reservations_ok_row intro!: reservations_ok_update)

lemma settle_keeps_settled:
  assumes "reservations_ok db" and "\<forall>r. row = Some r \<longrightarrow> r \<in> set (db_reservations db) \<and> ur_Status r \<noteq> ''settled''"
    and "x \<in> set (db_reservations db)" "ur_Status x = ''settled''"
  shows "x \<in> set (db_reservations (settleUsageReservation t row n db))"
proof (cases row)
  case None
  then show ?thesis using assms(3) by (simp add: settleUsageReservation_def)
next
  case (Some r)
  then have "x \<noteq> r" "r \<in> set (db_reservations db)" using assms by auto
  then have "ur_ID x \<noteq> ur_ID r" using assms(1,3) by (auto simp: reservations_ok_def distinct_map dest: inj_onD)
  then show ?thesis using assms(3) Some by (force simp: settleUsageReservation_def update_reservations_def)
qed

lemma reservations_ok_cong:
  "db_reservations db' = db_reservations db \<Longrightarrow> db_lastID db \<le> db_lastID db' \<Longrightarrow> reservations_ok db \<Longrightarrow> reservations_ok db'"
  by (auto simp: reservations_ok_def intro: le_trans)

lemma ledgers_ok_cong:
  "db_ledgers db' = db_ledgers db \<Longrightarrow> db_lastID db \<le> db_lastID db' \<Longrightarrow> ledgers_ok db \<Longrightarrow> ledgers_ok db'"
  by (auto simp: ledgers_ok_def intro: le_trans)

text \<open>The effect of a first settlement: one ledger row, at most one posting of the amount, the reservation closed.\<close>

lemma post_usage_effects:
  assumes "post_usage t account l amount nextBalance row res descr db = Inr ((), db')"
    and "db_accounts db (ul_UserID l) = Some account" and "nextBalance = wrap64 (ba_BalanceNanousd account - amount)"
    and "0 \<le> amount" "in_int64 amount" and "billing_inv db"
    and row: "\<forall>r. row = Some r \<longrightarrow> r \<in> set (db_reservations db) \<and> ur_Status r \<noteq> ''settled''"
  shows "good_step db db'" "balance_of db' = (balance_of db)(ul_UserID l := balance_of db (ul_UserID l) - amount)"
    "db_ledgers db' = db_ledgers db @ [(toModelUsageLedger l)\<lparr>ul_ID := Suc (db_lastID db)\<rparr>]"
    "db_reservations db' = db_reservations (settleUsageReservation t row (Suc (db_lastID db)) db)"
proof -
  obtain n db1 db2 where a: "insert_ledger (toModelUsageLedger l) db = Inr (n, db1)"
    "debit_usage account (ul_UserID l) amount nextBalance n (reservationRefNo res) descr db1 = Inr ((), db2)"
    "db' = settleUsageReservation t row n db2"
    using assms(1) by (auto simp: post_usage_def split: sum.splits)
  note i = insert_ledger_effects [OF a(1)]
  have inv: "accounts_ok db" "reservations_ok db" "ledgers_ok db" using assms(6) by (simp_all add: billing_inv_def)
  have acc: "accounts_ok db1" "db_accounts db1 (ul_UserID l) = Some account" "balance_of db1 = balance_of db"
    using inv(1) i(4) assms(2) balance_of_cong [OF i(4)] by (simp_all add: accounts_ok_def)
  note d = debit_usage_effects [OF a(2) acc(2) assms(3-5) acc(1)]
  show bal: "balance_of db' = (balance_of db)(ul_UserID l := balance_of db (ul_UserID l) - amount)"
    using d(2) acc(3) a(3) balance_of_cong [of db' db2] by simp
  show led: "db_ledgers db' = db_ledgers db @ [(toModelUsageLedger l)\<lparr>ul_ID := Suc (db_lastID db)\<rparr>]"
    using a(3) d(3) i(1,2) by simp
  show res: "db_reservations db' = db_reservations (settleUsageReservation t row (Suc (db_lastID db)) db)"
    using a(3) d(4) i(1,6) by (simp add: settleUsageReservation_def update_reservations_def split: option.splits)
  have le: "db_lastID db \<le> db_lastID db2" "db_lastID db1 \<le> db_lastID db2" using d(7) i(1,3) by simp_all
  have "ledgers_ok db'" using ledgers_ok_cong [OF _ _ insert_ledger_ok [OF a(1) inv(3)], of db'] a(3) d(3) le by simp
  moreover have "reservations_ok db'"
    using a(3) reservations_ok_settle [OF reservations_ok_cong [OF _ le(1) inv(2)]] d(4) i(6) by simp
  moreover have "accounts_ok db'" using d(5) a(3) by (simp add: accounts_ok_def)
  moreover have "posts db db'"
    using d(1) a(3) i(5) acc(3) bal balance_of_cong [of db' db2] by (simp add: posts_def)
  moreover have "history db db'"
    unfolding history_def
  proof (intro conjI ballI impI)
    show "prefix (db_transactions db) (db_transactions db')" using d(6) a(3) i(5) by simp
    show "prefix (db_ledgers db) (db_ledgers db')" using led by simp
    show "dom (db_accounts db) \<subseteq> dom (db_accounts db')" using d(8) a(3) i(4) by simp
    show "r \<in> set (db_reservations db')" if "r \<in> set (db_reservations db)" "ur_Status r = ''settled''" for r
      using settle_keeps_settled [OF inv(2) row that] res by simp
  qed
  ultimately show "good_step db db'" by (simp add: good_step_def billing_inv_def)
qed

lemma usage_charge_bounds: "in_int64 (ul_BilledNanousd u) \<Longrightarrow> 0 \<le> usage_charge u \<and> in_int64 (usage_charge u)"
  by (auto simp: usage_charge_def int64_defs)

text \<open>The two ways a settlement succeeds: it finds the row of an earlier one, or it posts the use.\<close>

lemma settle_usage_cases:
  assumes "settle_usage_body t usage res db0 = Inr (u', db')"
  obtains (replay) account row settled l where "getOrCreateBillingAccountForUpdate (ul_UserID usage) db0 = Inr (account, db')"
      "getUsageReservationForSettlement (ul_UserID usage) res db' = Inr (row, settled)"
      "\<forall>r. row = Some r \<longrightarrow> ur_Mode r = ''usage''"
      "settled_before usage row settled db' = Inr (Some l)" "u' = Some l"
    | (fresh) account db row where "getOrCreateBillingAccountForUpdate (ul_UserID usage) db0 = Inr (account, db)"
      "getUsageReservationForSettlement (ul_UserID usage) res db = Inr (row, False)" "u' = Some usage"
      "settled_before usage row False db = Inr None" "\<forall>r. row = Some r \<longrightarrow> ur_Mode r = ''usage''"
      "post_usage t account (usage\<lparr>ul_BalanceAfterNanousd := Some (wrap64 (ba_BalanceNanousd account - usage_charge usage))\<rparr>)
         (usage_charge usage) (wrap64 (ba_BalanceNanousd account - usage_charge usage)) row res usage_debit_description db = Inr ((), db')"
proof -
  obtain account db where a: "getOrCreateBillingAccountForUpdate (ul_UserID usage) db0 = Inr (account, db)"
    using assms by (auto simp: settle_usage_body_def split: sum.splits)
  obtain row settled where b: "getUsageReservationForSettlement (ul_UserID usage) res db = Inr (row, settled)"
    using assms a by (auto simp: settle_usage_body_def split: sum.splits)
  have m: "\<forall>r. row = Some r \<longrightarrow> ur_Mode r = ''usage''"
    using assms a b by (auto simp: settle_usage_body_def split: if_splits)
  obtain found where f: "settled_before usage row settled db = Inr found"
    using assms a b by (auto simp: settle_usage_body_def split: sum.splits if_splits)
  show ?thesis
  proof (cases found)
    case (Some l)
    then show ?thesis using assms a b m f
      by (intro replay [of account row settled l]) (auto simp: settle_usage_body_def split: if_splits)
  next
    case None
    then have s: "settled = False"
      using f settlement_reservation(1) [OF b] by (cases row; cases settled)
        (auto simp: settled_before_def restoreSettledUsageLedger_def split: if_splits option.splits)
    then show ?thesis using assms a b m f None
      by (intro fresh [of account db row]) (auto simp: settle_usage_body_def Let_def split: if_splits sum.splits)
  qed
qed

lemma settle_usage_step:
  assumes "settle_usage_body t usage res db0 = Inr (u', db')" and "billing_inv db0" and "in_int64 (ul_BilledNanousd usage)"
  shows "good_step db0 db'"
  using assms(1)
proof (cases rule: settle_usage_cases)
  case (replay account row settled l)
  then show ?thesis using getOrCreate_step [OF replay(1) assms(2)] by (simp add: good_step_def)
next
  case (fresh account db row)
  note g = getOrCreate_step [OF fresh(1) assms(2)] and e = getOrCreate_effects [OF fresh(1)]
  have row: "\<forall>r. row = Some r \<longrightarrow> r \<in> set (db_reservations db) \<and> ur_Status r \<noteq> ''settled''"
    using settlement_reservation(2,4) [OF fresh(2)] by fastforce
  have "good_step db db'"
    using post_usage_effects(1) [OF fresh(6)] e(1) g(1) usage_charge_bounds [OF assms(3)] row by simp
  then show ?thesis using g(4,5) by (auto simp: good_step_def)
qed

text \<open>The split of a charge between the plan and the balance.\<close>

lemma covered_bounds:
  assumes "0 \<le> charge" "in_int64 charge" "in_int64 credit"
  shows "0 \<le> covered_by_credit credit used held charge" "covered_by_credit credit used held charge \<le> charge"
    "wrap64 (charge - covered_by_credit credit used held charge) = charge - covered_by_credit credit used held charge"
    "in_int64 (charge - covered_by_credit credit used held charge)"
proof -
  show 1: "0 \<le> covered_by_credit credit used held charge" "covered_by_credit credit used held charge \<le> charge"
    using assms(1) remaining_bounds(1) [OF assms(3), of used held] by (simp_all add: covered_by_credit_def minInt64_min)
  then show "in_int64 (charge - covered_by_credit credit used held charge)" using assms(2) by (simp add: int64_defs)
  then show "wrap64 (charge - covered_by_credit credit used held charge) = charge - covered_by_credit credit used held charge"
    by simp
qed

lemma settle_period_cases:
  assumes "settle_period_body codec now t usage s e credit res db0 = Inr (u', db')"
  obtains (replay) account row settled l where "getOrCreateBillingAccountForUpdate (ul_UserID usage) db0 = Inr (account, db')"
      "getUsageReservationForSettlement (ul_UserID usage) res db' = Inr (row, settled)"
      "\<forall>r. row = Some r \<longrightarrow> matchesPeriodReservation r s e credit"
      "settled_before usage row settled db' = Inr (Some l)" "u' = Some l"
    | (fresh) account db row used held json where "getOrCreateBillingAccountForUpdate (ul_UserID usage) db0 = Inr (account, db)"
      "getUsageReservationForSettlement (ul_UserID usage) res db = Inr (row, False)"
      "settled_before usage row False db = Inr None" "\<forall>r. row = Some r \<longrightarrow> matchesPeriodReservation r s e credit"
      "sumPeriodBilledNanousd (ul_UserID usage) s e db = Inr used"
      "sumActivePeriodCreditReservations (ul_UserID usage) s e (reservation_id row) now db = Inr held"
      "post_usage t account (usage\<lparr>ul_BalanceAfterNanousd := Some (wrap64 (ba_BalanceNanousd account -
            wrap64 (usage_charge usage - covered_by_credit credit used held (usage_charge usage)))), ul_PricingSnapshotJSON := json\<rparr>)
         (wrap64 (usage_charge usage - covered_by_credit credit used held (usage_charge usage)))
         (wrap64 (ba_BalanceNanousd account - wrap64 (usage_charge usage - covered_by_credit credit used held (usage_charge usage))))
         row res overage_debit_description db = Inr ((), db')"
      "u' = Some usage \<or> u' = Some (usage\<lparr>ul_PricingSnapshotJSON := json\<rparr>)"
proof -
  obtain account db where a: "getOrCreateBillingAccountForUpdate (ul_UserID usage) db0 = Inr (account, db)"
    using assms by (auto simp: settle_period_body_def split: sum.splits)
  obtain row settled where b: "getUsageReservationForSettlement (ul_UserID usage) res db = Inr (row, settled)"
    using assms a by (auto simp: settle_period_body_def split: sum.splits)
  have m: "\<forall>r. row = Some r \<longrightarrow> matchesPeriodReservation r s e credit"
    using assms a b by (auto simp: settle_period_body_def split: if_splits)
  obtain found where f: "settled_before usage row settled db = Inr found"
    using assms a b by (auto simp: settle_period_body_def split: sum.splits if_splits)
  show ?thesis
  proof (cases found)
    case (Some l)
    then show ?thesis using assms a b m f
      by (intro replay [of account row settled l]) (auto simp: settle_period_body_def split: if_splits)
  next
    case None
    then have st: "settled = False"
      using f settlement_reservation(1) [OF b] by (cases row; cases settled)
        (auto simp: settled_before_def restoreSettledUsageLedger_def split: if_splits option.splits)
    have p: "post_period_usage codec now t usage s e credit account row res db = Inr (u', db')"
      using assms a b m f None by (auto simp: settle_period_body_def split: if_splits option.splits)
    then obtain used held where u: "sumPeriodBilledNanousd (ul_UserID usage) s e db = Inr used"
      "sumActivePeriodCreditReservations (ul_UserID usage) s e (reservation_id row) now db = Inr held"
      by (auto simp: post_period_usage_def split: sum.splits)
    let ?covered = "covered_by_credit credit used held (usage_charge usage)"
    let ?json = "withPeriodSettlementSnapshot codec (ul_PricingSnapshotJSON usage) (period_snapshot credit used (usage_charge usage)
       ?covered (wrap64 (usage_charge usage - ?covered)) (case row of None \<Rightarrow> 0 | Some x \<Rightarrow> ur_BalanceNanousd x)
       (case row of None \<Rightarrow> 0 | Some x \<Rightarrow> ur_PeriodCreditNanousd x))"
    show ?thesis using p a b m f None st u
      by (intro fresh [of account db row used held ?json]) (auto simp: post_period_usage_def Let_def split: if_splits sum.splits)
  qed
qed

lemma settle_period_fresh_effects:
  assumes "post_usage t account (usage\<lparr>ul_BalanceAfterNanousd := Some (wrap64 (ba_BalanceNanousd account -
            wrap64 (usage_charge usage - covered_by_credit credit used held (usage_charge usage)))), ul_PricingSnapshotJSON := json\<rparr>)
         (wrap64 (usage_charge usage - covered_by_credit credit used held (usage_charge usage)))
         (wrap64 (ba_BalanceNanousd account - wrap64 (usage_charge usage - covered_by_credit credit used held (usage_charge usage))))
         row res overage_debit_description db = Inr ((), db')"
    and "getUsageReservationForSettlement (ul_UserID usage) res db = Inr (row, False)"
    and "db_accounts db (ul_UserID usage) = Some account" and "billing_inv db"
    and "in_int64 (ul_BilledNanousd usage)" and "in_int64 credit"
  shows "good_step db db'" "balance_of db' = (balance_of db)(ul_UserID usage := balance_of db (ul_UserID usage) -
      (usage_charge usage - covered_by_credit credit used held (usage_charge usage)))"
    "\<exists>l. db_ledgers db' = db_ledgers db @ [l] \<and> ul_BilledNanousd l = ul_BilledNanousd usage \<and> ul_UserID l = ul_UserID usage \<and>
       ul_IsFreeModel l = ul_IsFreeModel usage \<and> ul_BillingAt l = ul_BillingAt usage \<and> ul_RefNo l = trim_space (ul_RefNo usage) \<and>
       ul_ID l = Suc (db_lastID db)"
    "db_reservations db' = db_reservations (settleUsageReservation t row (Suc (db_lastID db)) db)"
proof -
  note c = usage_charge_bounds [OF assms(5)]
  note b = covered_bounds [OF conjunct1 [OF c] conjunct2 [OF c] assms(6), of used held]
  have row: "\<forall>r. row = Some r \<longrightarrow> r \<in> set (db_reservations db) \<and> ur_Status r \<noteq> ''settled''"
    using settlement_reservation(2,4) [OF assms(2)] by fastforce
  note e = post_usage_effects [OF assms(1) _ refl, simplified b(3), simplified, OF assms(3) b(2,4) assms(4) row]
  show "good_step db db'" "balance_of db' = (balance_of db)(ul_UserID usage := balance_of db (ul_UserID usage) -
      (usage_charge usage - covered_by_credit credit used held (usage_charge usage)))"
    "db_reservations db' = db_reservations (settleUsageReservation t row (Suc (db_lastID db)) db)"
    using e(1,2,4) by simp_all
  show "\<exists>l. db_ledgers db' = db_ledgers db @ [l] \<and> ul_BilledNanousd l = ul_BilledNanousd usage \<and> ul_UserID l = ul_UserID usage \<and>
       ul_IsFreeModel l = ul_IsFreeModel usage \<and> ul_BillingAt l = ul_BillingAt usage \<and> ul_RefNo l = trim_space (ul_RefNo usage) \<and>
       ul_ID l = Suc (db_lastID db)"
    by (subst e(3)) (simp add: toModelUsageLedger_def)
qed

lemma settle_period_step:
  assumes "settle_period_body codec now t usage s e credit res db0 = Inr (u', db')" and "billing_inv db0"
    and "in_int64 (ul_BilledNanousd usage)" "in_int64 credit"
  shows "good_step db0 db'"
  using assms(1)
proof (cases rule: settle_period_cases)
  case (replay account row settled l)
  then show ?thesis using getOrCreate_step [OF replay(1) assms(2)] by (simp add: good_step_def)
next
  case (fresh account db row used held json)
  note g = getOrCreate_step [OF fresh(1) assms(2)] and e = getOrCreate_effects [OF fresh(1)]
  have "good_step db db'" using settle_period_fresh_effects(1) [OF fresh(7,2) e(1) g(1) assms(3,4)] .
  then show ?thesis using g(4,5) by (auto simp: good_step_def)
qed

text \<open>Updates of reservations that are not settled.\<close>

lemma update_reservations_frame [simp]:
  "db_accounts (update_reservations c f db) = db_accounts db" "db_transactions (update_reservations c f db) = db_transactions db"
  "db_ledgers (update_reservations c f db) = db_ledgers db" "db_lastID (update_reservations c f db) = db_lastID db"
  by (simp_all add: update_reservations_def)

lemma update_reservations_step:
  assumes "billing_inv db" and "\<And>x. ur_ID (f x) = ur_ID x" "\<And>x. ur_UserID (f x) = ur_UserID x" "\<And>x. ur_RefNo (f x) = ur_RefNo x"
    and "\<And>x. x \<in> set (db_reservations db) \<Longrightarrow> c x \<Longrightarrow> ur_Status x \<noteq> ''settled'' \<and>
      0 \<le> ur_BalanceNanousd (f x) \<and> 0 \<le> ur_PeriodCreditNanousd (f x) \<and>
      in_int64 (ur_BalanceNanousd (f x)) \<and> in_int64 (ur_PeriodCreditNanousd (f x)) \<and> in_int64 (ur_PeriodLimitNanousd (f x))"
  shows "good_step db (update_reservations c f db)"
proof -
  have "history db (update_reservations c f db)"
    using assms(5) by (force simp: history_def update_reservations_def)
  moreover have "reservations_ok (update_reservations c f db)"
    using assms by (intro reservations_ok_update) (auto simp: billing_inv_def)
  ultimately show ?thesis
    using assms(1) by (simp add: good_step_def billing_inv_def posts_def accounts_ok_def ledgers_ok_def
        balance_of_cong [OF update_reservations_frame(1)])
qed

lemma good_step_trans_same:
  assumes "getOrCreateBillingAccountForUpdate u db0 = Inr (a, db)" and "billing_inv db0"
    and "billing_inv db \<Longrightarrow> good_step db db'"
  shows "good_step db0 db'"
  using getOrCreate_step [OF assms(1,2)] assms(3) by (auto simp: good_step_def)

lemma release_step:
  assumes "billing_inv db" shows "good_step db (snd (ReleaseUsageBalanceReservation fault now u ref db))"
proof -
  have "good_step db db'" if "release_body now u r db = Inr (x, db')" for r x db'
  proof (cases "find_reservation u r db")
    case None
    then show ?thesis using that assms by (simp add: release_body_def good_step_refl)
  next
    case (Some row)
    have "good_step db (update_reservations (\<lambda>x. ur_ID x = ur_ID row) (\<lambda>x. x\<lparr>ur_Status := ''released'', ur_ReleasedAt := Some now\<rparr>) db)"
      if "ur_Status row = ''active''"
    proof (rule update_reservations_step [OF assms])
      fix x
      assume x: "x \<in> set (db_reservations db)" "ur_ID x = ur_ID row"
      have "row \<in> set (db_reservations db)" using find_reservation_in [OF Some] by simp
      then have "x = row" using x assms by (auto simp: billing_inv_def reservations_ok_def distinct_map dest: inj_onD)
      then show "ur_Status x \<noteq> ''settled'' \<and> 0 \<le> ur_BalanceNanousd (x\<lparr>ur_Status := ''released'', ur_ReleasedAt := Some now\<rparr>) \<and>
         0 \<le> ur_PeriodCreditNanousd (x\<lparr>ur_Status := ''released'', ur_ReleasedAt := Some now\<rparr>) \<and>
         in_int64 (ur_BalanceNanousd (x\<lparr>ur_Status := ''released'', ur_ReleasedAt := Some now\<rparr>)) \<and>
         in_int64 (ur_PeriodCreditNanousd (x\<lparr>ur_Status := ''released'', ur_ReleasedAt := Some now\<rparr>)) \<and>
         in_int64 (ur_PeriodLimitNanousd (x\<lparr>ur_Status := ''released'', ur_ReleasedAt := Some now\<rparr>))"
        using that reservations_ok_row [of db x] x(1) assms by (simp add: billing_inv_def)
    qed simp_all
    then show ?thesis using that Some assms by (auto simp: release_body_def good_step_refl split: if_splits)
  qed
  then show ?thesis
    using assms by (auto simp: ReleaseUsageBalanceReservation_def Let_def good_step_refl intro!: transaction_good_step)
qed

lemma update_where_step:
  assumes "billing_inv db" and "update_where c f db = Inr (x, db')"
    and "\<And>x. ur_ID (f x) = ur_ID x" "\<And>x. ur_UserID (f x) = ur_UserID x" "\<And>x. ur_RefNo (f x) = ur_RefNo x"
    and "\<And>x. c x \<Longrightarrow> ur_Status x \<noteq> ''settled''" and "\<And>x. ur_BalanceNanousd (f x) = ur_BalanceNanousd x"
    "\<And>x. ur_PeriodCreditNanousd (f x) = ur_PeriodCreditNanousd x" "\<And>x. ur_PeriodLimitNanousd (f x) = ur_PeriodLimitNanousd x"
  shows "good_step db db'"
proof -
  have "good_step db (update_reservations c f db)"
    using assms reservations_ok_row by (intro update_reservations_step) (auto simp: billing_inv_def)
  then show ?thesis using assms(2) by (simp add: update_where_def split: if_splits)
qed

lemma renew_step: "billing_inv db \<Longrightarrow> good_step db (snd (RenewUsageBalanceReservation fault now u ref db))"
  by (auto simp: RenewUsageBalanceReservation_def Let_def good_step_refl
      intro!: transaction_good_step elim!: update_where_step)

lemma mark_step: "billing_inv db \<Longrightarrow> good_step db (snd (MarkUsageReservationReconciliationRequired fault now u ref code db))"
  by (auto simp: MarkUsageReservationReconciliationRequired_def Let_def good_step_refl
      intro!: transaction_good_step elim!: update_where_step)

lemma reserve_step:
  assumes "billing_inv db0" and "in_int64 (rq_PeriodCreditNanousd inp)"
  shows "good_step db0 (snd (ReserveUsageBalance fault now inp db0))"
proof -
  have "good_step db0 db'" if body: "reserve_body now i db0 = Inr (r, db')" and i: "in_int64 (rq_PeriodCreditNanousd i)" for i r db'
  proof -
    let ?u = "rq_UserID i"
    obtain account db c req where g: "getOrCreateBillingAccountForUpdate ?u db0 = Inr (account, db)"
      and f: "find_reservation ?u (rq_RefNo i) db = None" and c: "request_credit now i db = Inr c" and pos: "0 < req"
      and le: "req \<le> addNonNegativeInt64 c (remainingNonNegativeBudget (ba_BalanceNanousd account) (held_balance ?u now db) 0)"
      and ins: "insert_reservation (new_reservation i req (minInt64 req c) now) db = (r, db')"
      using reserve_body_checked [OF body] by metis
    note gs = getOrCreate_step [OF g assms(1)]
    note e = getOrCreate_effects [OF g]
    have ai: "in_int64 (ba_BalanceNanousd account)" using e(11) assms(1) by (simp add: billing_inv_def)
    note b = remaining_bounds [OF ai, of "held_balance ?u now db" 0]
    note cb = request_credit_bounds [OF c i]
    note sp = split_budget [OF cb(1,2) b(1,2) less_imp_le [OF pos] le]
    have "in_int64 (req - minInt64 req c)" "in_int64 (minInt64 req c)" using sp cb(2) b(2) by (auto simp: int64_defs)
    then have "reservations_ok db'"
      using reservations_ok_insert [OF _ _ ins] gs(1) f sp i by (simp add: billing_inv_def new_reservation_def)
    moreover note ie = insert_reservation_effects [OF ins]
    moreover have "db_lastID db \<le> db_lastID db'" using ins by (auto simp: insert_reservation_def Let_def)
    ultimately have "billing_inv db'" using gs(1) ledgers_ok_cong [of db' db] by (simp add: billing_inv_def accounts_ok_def)
    moreover have "posts db db'" using ie balance_of_cong [of db' db] by (simp add: posts_def)
    moreover have "history db db'" using ie by (simp add: history_def)
    ultimately show ?thesis using gs(4,5) by (simp add: good_step_def)
  qed
  then show ?thesis
    using assms by (auto simp: ReserveUsageBalance_def Let_def good_step_refl intro!: transaction_good_step)
qed

lemma raise_step:
  assumes "billing_inv db0" and "in_int64 required"
  shows "good_step db0 (snd (RaiseUsageBalanceReservation fault now u ref required db0))"
proof -
  have "good_step db0 db'" if body: "raise_body now u r required db0 = Inr ((), db')" and req: "0 \<le> required" for r db'
  proof -
    obtain account db row where g: "getOrCreateBillingAccountForUpdate u db0 = Inr (account, db)"
      and row: "find_reservation u r db = Some row" "ur_Status row = ''active''"
      and cs: "db' = db \<or> (\<exists>other c. (c = 0 \<or> (\<exists>s e used held. c = remainingNonNegativeBudget (ur_PeriodLimitNanousd row) used held)) \<and>
        required \<le> addNonNegativeInt64 c (remainingNonNegativeBudget (ba_BalanceNanousd account) other 0) \<and>
        db' = update_reservations (\<lambda>x. ur_ID x = ur_ID row) (\<lambda>x. x\<lparr>ur_BalanceNanousd := wrap64 (required - minInt64 required c),
          ur_PeriodCreditNanousd := minInt64 required c\<rparr>) db)"
      using raise_body_checked [OF body] by blast
    have rw: "row \<in> set (db_reservations db)" using find_reservation_in [OF row(1)] by simp
    have "good_step db db'" if inv: "billing_inv db"
      using cs
    proof (rule disjE)
      show "db' = db \<Longrightarrow> good_step db db'" using inv by (simp add: good_step_refl)
    next
      assume "\<exists>other c. (c = 0 \<or> (\<exists>s e used held. c = remainingNonNegativeBudget (ur_PeriodLimitNanousd row) used held)) \<and>
        required \<le> addNonNegativeInt64 c (remainingNonNegativeBudget (ba_BalanceNanousd account) other 0) \<and>
        db' = update_reservations (\<lambda>x. ur_ID x = ur_ID row) (\<lambda>x. x\<lparr>ur_BalanceNanousd := wrap64 (required - minInt64 required c),
          ur_PeriodCreditNanousd := minInt64 required c\<rparr>) db"
      then obtain other c where c0: "c = 0 \<or> (\<exists>s e used held. c = remainingNonNegativeBudget (ur_PeriodLimitNanousd row) used held)"
        and le: "required \<le> addNonNegativeInt64 c (remainingNonNegativeBudget (ba_BalanceNanousd account) other 0)"
        and db': "db' = update_reservations (\<lambda>x. ur_ID x = ur_ID row) (\<lambda>x. x\<lparr>ur_BalanceNanousd := wrap64 (required - minInt64 required c),
          ur_PeriodCreditNanousd := minInt64 required c\<rparr>) db"
        by blast
      have lim: "in_int64 (ur_PeriodLimitNanousd row)" using reservations_ok_row [of db row] rw inv by (simp add: billing_inv_def)
      have c: "0 \<le> c" "in_int64 c" using c0 remaining_bounds(1,2) [OF lim] by (auto simp: int64_defs)
      have ai: "in_int64 (ba_BalanceNanousd account)" using getOrCreate_effects(11) [OF g] assms(1) by (simp add: billing_inv_def)
      note b = remaining_bounds [OF ai, of other 0]
      note sp = split_budget [OF c b(1,2) req le]
      have i: "in_int64 (required - minInt64 required c)" "in_int64 (minInt64 required c)" using sp c(2) b(2) by (auto simp: int64_defs)
      show "good_step db db'"
        unfolding db'
      proof (rule update_reservations_step [OF inv])
        fix x
        assume x: "x \<in> set (db_reservations db)" "ur_ID x = ur_ID row"
        then have "x = row" using rw inv by (auto simp: billing_inv_def reservations_ok_def distinct_map dest: inj_onD)
        then show "ur_Status x \<noteq> ''settled'' \<and> 0 \<le> ur_BalanceNanousd (x\<lparr>ur_BalanceNanousd := wrap64 (required - minInt64 required c), ur_PeriodCreditNanousd := minInt64 required c\<rparr>) \<and>
           0 \<le> ur_PeriodCreditNanousd (x\<lparr>ur_BalanceNanousd := wrap64 (required - minInt64 required c), ur_PeriodCreditNanousd := minInt64 required c\<rparr>) \<and>
           in_int64 (ur_BalanceNanousd (x\<lparr>ur_BalanceNanousd := wrap64 (required - minInt64 required c), ur_PeriodCreditNanousd := minInt64 required c\<rparr>)) \<and>
           in_int64 (ur_PeriodCreditNanousd (x\<lparr>ur_BalanceNanousd := wrap64 (required - minInt64 required c), ur_PeriodCreditNanousd := minInt64 required c\<rparr>)) \<and>
           in_int64 (ur_PeriodLimitNanousd (x\<lparr>ur_BalanceNanousd := wrap64 (required - minInt64 required c), ur_PeriodCreditNanousd := minInt64 required c\<rparr>))"
          using row(2) sp i lim by simp
      qed simp_all
    qed
    then show ?thesis by (rule good_step_trans_same [OF g assms(1)])
  qed
  then show ?thesis
    using assms by (auto simp: RaiseUsageBalanceReservation_def Let_def good_step_refl intro!: transaction_good_step)
qed

lemma add_usage_step:
  assumes "billing_inv db" shows "good_step db (snd (AddUsage fault usage db))"
proof -
  have "good_step db db'" if body: "add_usage_body u db = Inr (x, db')" for u x db'
  proof (cases "restoreUsageLedgerByRefNo u db")
    case None
    then obtain n where i: "insert_ledger (toModelUsageLedger u) db = Inr (n, db')"
      using body by (auto simp: add_usage_body_def split: sum.splits)
    note e = insert_ledger_effects [OF i]
    have "billing_inv db'"
      using assms insert_ledger_ok [OF i] reservations_ok_cong [of db' db] e(1-6) by (simp add: billing_inv_def accounts_ok_def)
    then show ?thesis using e balance_of_cong [OF e(4)] by (simp add: good_step_def posts_def history_def)
  next
    case (Some l)
    then show ?thesis using that assms by (simp add: add_usage_body_def good_step_refl)
  qed
  then show ?thesis
    using assms by (auto simp: AddUsage_def good_step_refl intro!: transaction_good_step split: option.splits)
qed

lemma get_account_step:
  "billing_inv db \<Longrightarrow> good_step db (snd (GetOrCreateBillingAccount fault u db))"
  by (auto simp: GetOrCreateBillingAccount_def good_step_refl intro!: transaction_good_step)
    (metis getOrCreate_step(1-3) good_step_def)

lemma set_balance_body_step:
  assumes "set_balance_body u b ref descr db0 = Inr (x, db')" and "billing_inv db0" and "in_int64 b"
  shows "good_step db0 db'" "balance_of db' = (balance_of db0)(u := b)"
proof -
  obtain account db where g: "getOrCreateBillingAccountForUpdate u db0 = Inr (account, db)"
    using assms by (auto simp: set_balance_body_def split: sum.splits)
  note gs = getOrCreate_step [OF g assms(2)] and e = getOrCreate_effects [OF g]
  let ?amount = "wrap64 (b - ba_BalanceNanousd account)"
  let ?t = "\<lparr>bt_ID = 0, bt_AccountID = ba_ID account, bt_UserID = u, bt_Type = ''admin_set'', bt_AmountNanousd = ?amount,
     bt_BalanceAfterNanousd = b, bt_RefType = ''admin'', bt_RefID = 0, bt_RefNo = trim_space ref,
     bt_Description = (if trim_space descr \<noteq> [] then trim_space descr else admin_set_description)\<rparr>"
  have db': "db' = (if ?amount \<noteq> 0 then snd (insert_transaction ?t (update_balance u b db)) else update_balance u b db)"
    using assms(1) g by (auto simp: set_balance_body_def Let_def split: option.splits)
  have bal: "balance_of (update_balance u b db) = (balance_of db)(u := b)" using e(1) by simp
  have b': "balance_of db' = (balance_of db)(u := b)"
    using bal db' balance_of_cong [of db' "update_balance u b db"] by simp
  then show "balance_of db' = (balance_of db0)(u := b)" using e(3) by simp
  have old: "balance_of db u = ba_BalanceNanousd account" using e(1) by (simp add: balance_of_def)
  have same: "b = ba_BalanceNanousd account" if "?amount = 0"
  proof -
    have "wrap64 (?amount + ba_BalanceNanousd account) = b" using assms(3) by (simp add: wrap64_add_left)
    then show ?thesis using that e(11) assms(2) by (simp add: billing_inv_def)
  qed
  have "posts db db'"
  proof (cases "?amount = 0")
    case True
    then show ?thesis using db' b' same old by (simp add: posts_def fun_upd_idem)
  next
    case False
    have "b = wrap64 (ba_BalanceNanousd account + ?amount)"
      using assms(3) by (simp add: add.commute [of "ba_BalanceNanousd account"] wrap64_add_left)
    then show ?thesis using False db' b' old
      unfolding posts_def by (intro disjI2 exI [of _ "?t\<lparr>bt_ID := Suc (db_lastID db)\<rparr>"]) simp
  qed
  moreover have "billing_inv db'"
    using gs(1) assms(3) accounts_ok_update [of db b u] reservations_ok_cong [of db' db] ledgers_ok_cong [of db' db] db'
    by (auto simp: billing_inv_def accounts_ok_def split: if_splits)
  moreover have "history db db'" using db' by (simp add: history_def dom_update_balance [simplified])
  ultimately show "good_step db0 db'" using gs(4,5) by (simp add: good_step_def)
qed

lemma set_balance_step:
  "billing_inv db \<Longrightarrow> in_int64 b \<Longrightarrow> good_step db (snd (SetBillingAccountBalance fault u b ref descr db))"
  by (auto simp: SetBillingAccountBalance_def good_step_refl intro!: transaction_good_step elim: set_balance_body_step(1))

section \<open>Retries\<close>

text \<open>
  The state a settlement leaves behind, from which a retry is answered: the reservation is settled
  with the ledger row, or without one the row carries the reference of the call.
\<close>

definition reservation_of_row :: "nat \<Rightarrow> (usage_reservation \<Rightarrow> bool) \<Rightarrow> usage_reservation \<Rightarrow> usage_reservation \<Rightarrow> bool" where
  "reservation_of_row u fits r row \<longleftrightarrow> ur_UserID row = u \<and> ur_RefNo row = trim_space (ur_RefNo r) \<and>
     (0 < ur_ID r \<longrightarrow> ur_ID row = ur_ID r) \<and> fits row"

definition recorded ::
  "nat \<Rightarrow> (usage_reservation \<Rightarrow> bool) \<Rightarrow> usage_reservation option \<Rightarrow> string \<Rightarrow> usage_ledger \<Rightarrow> billing_db \<Rightarrow> bool" where
  "recorded u fits res ref l db \<longleftrightarrow> u \<noteq> 0 \<and> u \<in> dom (db_accounts db) \<and> l \<in> set (db_ledgers db) \<and>
     (case res of
        None \<Rightarrow> trim_space ref \<noteq> [] \<and> ul_UserID l = u \<and> ul_RefNo l = trim_space ref
      | Some r \<Rightarrow> (ur_UserID r = 0 \<or> ur_UserID r = u) \<and> trim_space (ur_RefNo r) \<noteq> [] \<and>
          (\<exists>row \<in> set (db_reservations db). reservation_of_row u fits r row \<and> ur_Status row = ''settled'' \<and>
             ur_UsageLedgerID row = ul_ID l))"

lemma recorded_history: "recorded u fits res ref l db \<Longrightarrow> history db db' \<Longrightarrow> recorded u fits res ref l db'"
proof -
  assume r: "recorded u fits res ref l db" and h: "history db db'"
  have l: "l \<in> set (db_ledgers db')" "u \<in> dom (db_accounts db')"
    using r h by (auto simp: recorded_def history_def dest: set_mono_prefix)
  have "\<forall>row \<in> set (db_reservations db). ur_Status row = ''settled'' \<longrightarrow> row \<in> set (db_reservations db')"
    using h by (simp add: history_def)
  then show ?thesis using r l unfolding recorded_def by (cases res) auto
qed

lemma find_unique:
  assumes "x \<in> set xs" and "P x" and d: "distinct (map key (filter Q xs))"
    and k: "\<And>y. y \<in> set xs \<Longrightarrow> P y \<Longrightarrow> Q y \<and> key y = key x"
  shows "List.find P xs = Some x"
proof (cases "List.find P xs")
  case None
  then show ?thesis using assms(1,2) by (simp add: find_None_iff)
next
  case (Some y)
  then have y: "y \<in> set xs" "P y" by (auto simp: find_Some_iff)
  have "inj_on key (set (filter Q xs))" using d by (simp add: distinct_map)
  moreover have "x \<in> set (filter Q xs)" "y \<in> set (filter Q xs)" "key y = key x"
    using k [OF assms(1,2)] k [OF y] assms(1) y(1) by simp_all
  ultimately have "y = x" by (metis inj_onD)
  then show ?thesis using Some by simp
qed

lemma recorded_answers:
  assumes "recorded u fits res (ul_RefNo usage) l db" and "billing_inv db" and "ul_UserID usage = u"
  obtains row account settled where "getOrCreateBillingAccountForUpdate u db = Inr (account, db)"
    "getUsageReservationForSettlement u res db = Inr (row, settled)" "\<forall>r. row = Some r \<longrightarrow> fits r"
    "settled_before usage row settled db = Inr (Some l)"
proof -
  have "u \<in> dom (db_accounts db)" "u \<noteq> 0" using assms(1) by (simp_all add: recorded_def)
  then obtain account where "db_accounts db u = Some account" by blast
  then have a: "getOrCreateBillingAccountForUpdate u db = Inr (account, db)"
    using \<open>u \<noteq> 0\<close> by (simp add: getOrCreateBillingAccountForUpdate_def)
  have ok: "reservations_ok db" "ledgers_ok db" using assms(2) by (simp_all add: billing_inv_def)
  show ?thesis
  proof (cases res)
    case None
    then have l: "l \<in> set (db_ledgers db)" "ul_UserID l = u" "ul_RefNo l = trim_space (ul_RefNo usage)"
      "trim_space (ul_RefNo usage) \<noteq> []" "u \<noteq> 0" using assms(1) by (auto simp: recorded_def)
    have "List.find (\<lambda>x. ul_UserID x = u \<and> ul_RefNo x = trim_space (ul_RefNo usage)) (db_ledgers db) = Some l"
      using ok(2) l unfolding ledgers_ok_def
      by (intro find_unique [where key = "\<lambda>l. (ul_UserID l, ul_RefNo l)" and Q = "\<lambda>l. ul_RefNo l \<noteq> []"]) auto
    then show ?thesis using a None l assms(3)
      by (intro that [of account None False])
        (simp_all add: getUsageReservationForSettlement_def settled_before_def restoreUsageLedgerByRefNo_def)
  next
    case (Some r)
    then obtain row where row: "row \<in> set (db_reservations db)" "reservation_of_row u fits r row"
      "ur_Status row = ''settled''" "ur_UsageLedgerID row = ul_ID l" and l: "l \<in> set (db_ledgers db)"
      and r: "ur_UserID r = 0 \<or> ur_UserID r = u" "trim_space (ur_RefNo r) \<noteq> []" "u \<noteq> 0"
      using assms(1) by (auto simp: recorded_def)
    have "List.find (\<lambda>x. ur_UserID x = u \<and> ur_RefNo x = trim_space (ur_RefNo r) \<and> (0 < ur_ID r \<longrightarrow> ur_ID x = ur_ID r))
        (db_reservations db) = Some row"
      using ok(1) row unfolding reservations_ok_def reservation_of_row_def
      by (intro find_unique [where key = "\<lambda>r. (ur_UserID r, ur_RefNo r)" and Q = "\<lambda>_. True"]) auto
    moreover have id: "ul_ID l \<noteq> 0" using l ok(2) by (auto simp: ledgers_ok_def)
    moreover have "List.find (\<lambda>x. ul_ID x = ul_ID l) (db_ledgers db) = Some l"
      using l ok(2) unfolding ledgers_ok_def by (intro find_unique [where key = ul_ID and Q = "\<lambda>_. True"]) auto
    ultimately show ?thesis using a Some r row
      by (intro that [of account "Some row" True])
        (auto simp: getUsageReservationForSettlement_def settled_before_def restoreSettledUsageLedger_def reservation_of_row_def)
  qed
qed

lemma recorded_usage_replay:
  "recorded (ul_UserID usage) (\<lambda>r. ur_Mode r = ''usage'') res (ul_RefNo usage) l db \<Longrightarrow> billing_inv db \<Longrightarrow>
     AddUsageAndSettleBalance None t (Some usage) res db = (Inr (Some l), db)"
  by (erule (1) recorded_answers [OF _ _ refl])
    (auto simp: AddUsageAndSettleBalance_def transaction_def settle_usage_body_def split: option.splits)

lemma recorded_period_replay:
  "recorded (ul_UserID usage) (\<lambda>r. matchesPeriodReservation r s e credit) res (ul_RefNo usage) l db \<Longrightarrow> billing_inv db \<Longrightarrow>
     settle_period_body codec now t usage s e credit res db = Inr (Some l, db)"
  by (erule (1) recorded_answers [OF _ _ refl]) (auto simp: settle_period_body_def split: option.splits)

lemma settlement_input:
  assumes "getUsageReservationForSettlement u (Some r) db = Inr (row, settled)"
  shows "u \<noteq> 0" "ur_UserID r = 0 \<or> ur_UserID r = u" "trim_space (ur_RefNo r) \<noteq> []"
    "\<exists>x \<in> set (db_reservations db). row = Some x \<and> ur_UserID x = u \<and> ur_RefNo x = trim_space (ur_RefNo r) \<and>
       (0 < ur_ID r \<longrightarrow> ur_ID x = ur_ID r)"
  using assms
  by (auto simp: getUsageReservationForSettlement_def find_Some_iff split: option.splits if_splits)

lemma replay_recorded:
  assumes "getOrCreateBillingAccountForUpdate u db0 = Inr (account, db)"
    and "getUsageReservationForSettlement u res db = Inr (row, settled)" and "\<forall>r. row = Some r \<longrightarrow> fits r"
    and "settled_before usage row settled db = Inr (Some l)" and "u = ul_UserID usage"
  shows "recorded u fits res (ul_RefNo usage) l db"
proof -
  have u: "u \<noteq> 0" "u \<in> dom (db_accounts db)" using getOrCreate_effects(1,8) [OF assms(1)] by auto
  show ?thesis
  proof (cases res)
    case None
    then have "row = None" using settlement_reservation [OF assms(2)] assms(2) by (auto simp: getUsageReservationForSettlement_def)
    then show ?thesis using u None assms(4,5)
      by (auto simp: recorded_def settled_before_def restoreUsageLedgerByRefNo_def Let_def find_Some_iff split: if_splits)
  next
    case (Some r)
    note i = settlement_input [OF assms(2) [unfolded Some]]
    obtain x where x: "x \<in> set (db_reservations db)" "row = Some x" "ur_UserID x = u" "ur_RefNo x = trim_space (ur_RefNo r)"
      "0 < ur_ID r \<longrightarrow> ur_ID x = ur_ID r" using i(4) by (elim bexE conjE) (rule that)
    have s: "settled" using assms(4) x(2) by (auto simp: settled_before_def split: if_splits)
    then have "restoreSettledUsageLedger (ur_UsageLedgerID x) db = Inr l"
      using assms(4) x(2) by (cases "restoreSettledUsageLedger (ur_UsageLedgerID x) db") (auto simp: settled_before_def)
    then have "l \<in> set (db_ledgers db)" "ur_UsageLedgerID x = ul_ID l"
      by (auto simp: restoreSettledUsageLedger_def find_Some_iff split: if_splits option.splits)
    moreover have "ur_Status x = ''settled''" using settlement_reservation(3) [OF assms(2) x(2) s] by simp
    moreover have "reservation_of_row u fits r x" using x assms(3) by (simp add: reservation_of_row_def)
    ultimately show ?thesis using u i(1-3) x(1) Some by (auto simp: recorded_def)
  qed
qed

lemma fresh_recorded:
  assumes "getOrCreateBillingAccountForUpdate u db0 = Inr (account, db)"
    and "getUsageReservationForSettlement u res db = Inr (row, False)" and "\<forall>r. row = Some r \<longrightarrow> fits r"
    and "db_ledgers db' = db_ledgers db @ [l]" "ul_UserID l = u" "ul_RefNo l = trim_space ref" "ul_ID l = n"
    and "db_reservations db' = db_reservations (settleUsageReservation t row n db)" and "history db db'"
    and "res \<noteq> None \<or> trim_space ref \<noteq> []"
    and fits: "\<And>r. fits r \<Longrightarrow> fits (r\<lparr>ur_Status := ''settled'', ur_UsageLedgerID := n, ur_SettledAt := Some t\<rparr>)"
  shows "recorded u fits res ref l db'"
proof -
  have u: "u \<noteq> 0" "u \<in> dom (db_accounts db')" using getOrCreate_effects(1,8) [OF assms(1)] assms(9) by (auto simp: history_def)
  show ?thesis
  proof (cases res)
    case None
    then show ?thesis using u assms(4-6,10) by (simp add: recorded_def)
  next
    case (Some r)
    note i = settlement_input [OF assms(2) [unfolded Some]]
    obtain x where x: "x \<in> set (db_reservations db)" "row = Some x" "ur_UserID x = u" "ur_RefNo x = trim_space (ur_RefNo r)"
      "0 < ur_ID r \<longrightarrow> ur_ID x = ur_ID r" using i(4) by (elim bexE conjE) (rule that)
    let ?x = "x\<lparr>ur_Status := ''settled'', ur_UsageLedgerID := n, ur_SettledAt := Some t\<rparr>"
    have "?x \<in> set (db_reservations db')"
      using x(1,2) assms(8) by (force simp: settleUsageReservation_def update_reservations_def)
    moreover have "reservation_of_row u fits r ?x" using x(3-5) fits assms(3) x(2) by (simp add: reservation_of_row_def)
    moreover have "ur_Status ?x = ''settled''" "ur_UsageLedgerID ?x = ul_ID l" using assms(7) by simp_all
    ultimately have "\<exists>row \<in> set (db_reservations db'). reservation_of_row u fits r row \<and> ur_Status row = ''settled'' \<and>
      ur_UsageLedgerID row = ul_ID l" by blast
    then show ?thesis using u i(1-3) assms(4) unfolding recorded_def Some by simp
  qed
qed

lemma settle_usage_recorded:
  assumes "settle_usage_body t usage res db0 = Inr (u', db')" and "billing_inv db0" and "in_int64 (ul_BilledNanousd usage)"
    and "res \<noteq> None \<or> trim_space (ul_RefNo usage) \<noteq> []"
  shows "\<exists>l. recorded (ul_UserID usage) (\<lambda>r. ur_Mode r = ''usage'') res (ul_RefNo usage) l db' \<and>
    (\<forall>y. u' = Some y \<longrightarrow> ul_BilledNanousd y = ul_BilledNanousd l)"
  using assms(1)
proof (cases rule: settle_usage_cases)
  case (replay account row settled l)
  then have "recorded (ul_UserID usage) (\<lambda>r. ur_Mode r = ''usage'') res (ul_RefNo usage) l db'"
    using replay_recorded [OF replay(1,2) _ replay(4) refl, of "\<lambda>r. ur_Mode r = ''usage''"] by blast
  then show ?thesis using replay(5) by blast
next
  case (fresh account db row)
  note g = getOrCreate_step [OF fresh(1) assms(2)] and e = getOrCreate_effects [OF fresh(1)]
  have row: "\<forall>r. row = Some r \<longrightarrow> r \<in> set (db_reservations db) \<and> ur_Status r \<noteq> ''settled''"
    using settlement_reservation(2,4) [OF fresh(2)] by fastforce
  have c: "0 \<le> usage_charge usage" "in_int64 (usage_charge usage)" using usage_charge_bounds [OF assms(3)] by simp_all
  note p = post_usage_effects [OF fresh(6) _ _ c g(1) row, simplified, OF e(1)]
  show ?thesis
    by (rule exI, rule conjI, rule fresh_recorded [OF fresh(1,2,5) p(3) _ _ _ p(4)])
      (use p(1) assms(4) fresh(3) in \<open>simp_all add: toModelUsageLedger_def good_step_def\<close>)
qed

lemma settle_period_recorded:
  assumes "settle_period_body codec now t usage s e credit res db0 = Inr (u', db')" and "billing_inv db0"
    and "in_int64 (ul_BilledNanousd usage)" "in_int64 credit" and "res \<noteq> None \<or> trim_space (ul_RefNo usage) \<noteq> []"
  shows "\<exists>l. recorded (ul_UserID usage) (\<lambda>r. matchesPeriodReservation r s e credit) res (ul_RefNo usage) l db' \<and>
    (\<forall>y. u' = Some y \<longrightarrow> ul_BilledNanousd y = ul_BilledNanousd l)"
  using assms(1)
proof (cases rule: settle_period_cases)
  case (replay account row settled l)
  then have "recorded (ul_UserID usage) (\<lambda>r. matchesPeriodReservation r s e credit) res (ul_RefNo usage) l db'"
    using replay_recorded [OF replay(1,2) _ replay(4) refl, of "\<lambda>r. matchesPeriodReservation r s e credit"] by blast
  then show ?thesis using replay(5) by blast
next
  case (fresh account db row used held json)
  note g = getOrCreate_step [OF fresh(1) assms(2)] and e = getOrCreate_effects [OF fresh(1)]
  note p = settle_period_fresh_effects [OF fresh(7,2) e(1) g(1) assms(3,4)]
  obtain l where l: "db_ledgers db' = db_ledgers db @ [l]" "ul_UserID l = ul_UserID usage" "ul_RefNo l = trim_space (ul_RefNo usage)"
    "ul_ID l = Suc (db_lastID db)" "ul_BilledNanousd l = ul_BilledNanousd usage" using p(3) by blast
  have "recorded (ul_UserID usage) (\<lambda>r. matchesPeriodReservation r s e credit) res (ul_RefNo usage) l db'"
    by (rule fresh_recorded [OF fresh(1,2,4) l(1-4) p(4)])
      (use p(1) assms(5) in \<open>simp_all add: good_step_def matchesPeriodReservation_def\<close>)
  then show ?thesis using fresh(8) l(5) by auto
qed

section \<open>What a settlement charges\<close>

text \<open>
  A call that is settled by use costs exactly what it used. Either this is its first
  settlement: the user's balance falls by the charge (nothing for a free model or a bill that is not
  positive), one ledger row is written with the balance it left, and no other balance moves; or the call
  was settled before, and then its ledger row is given back and nothing is charged.
\<close>

theorem usage_settled_exactly:
  assumes "AddUsageAndSettleBalance fault t (Some usage) res db = (Inr u', db')" and "billing_inv db"
    and "in_int64 (ul_BilledNanousd usage)"
  shows "(u' = Some usage \<and> balance_of db' = (balance_of db)(ul_UserID usage := balance_of db (ul_UserID usage) - usage_charge usage) \<and>
      (\<exists>l. db_ledgers db' = db_ledgers db @ [l] \<and> ul_BilledNanousd l = ul_BilledNanousd usage \<and> ul_UserID l = ul_UserID usage \<and>
         ul_BalanceAfterNanousd l = Some (wrap64 (balance_of db' (ul_UserID usage))))) \<or>
    (balance_of db' = balance_of db \<and> db_ledgers db' = db_ledgers db \<and> db_reservations db' = db_reservations db \<and>
      db_transactions db' = db_transactions db \<and>
      (\<exists>l \<in> set (db_ledgers db). u' = Some l))"
proof -
  have body: "settle_usage_body t usage res db = Inr (u', db')"
    using assms(1) by (simp add: AddUsageAndSettleBalance_def transaction_commit)
  then show ?thesis
  proof (cases rule: settle_usage_cases)
    case (replay account row settled l)
    note e = getOrCreate_effects [OF replay(1)]
    have "l \<in> set (db_ledgers db')"
      using replay_recorded [OF replay(1,2) _ replay(4) refl, of "\<lambda>_. True"] by (simp add: recorded_def)
    then show ?thesis using e(3-6) replay(5) by auto
  next
    case (fresh account d row)
    note g = getOrCreate_step [OF fresh(1) assms(2)] and e = getOrCreate_effects [OF fresh(1)]
    have row: "\<forall>r. row = Some r \<longrightarrow> r \<in> set (db_reservations d) \<and> ur_Status r \<noteq> ''settled''"
      using settlement_reservation(2,4) [OF fresh(2)] by fastforce
    have c: "0 \<le> usage_charge usage" "in_int64 (usage_charge usage)" using usage_charge_bounds [OF assms(3)] by simp_all
    note p = post_usage_effects [OF fresh(6) _ _ c g(1) row, simplified, OF e(1)]
    show ?thesis using p(2,3) e(2,3,5) fresh(3) by (simp add: toModelUsageLedger_def)
  qed
qed

text \<open>A call of 300 on a balance of 1000, under the reservation that was made for it.\<close>

definition sample_usage :: usage_ledger where
  "sample_usage = \<lparr>ul_ID = 0, ul_UserID = 7, ul_RefNo = ''call 1'', ul_IsFreeModel = False, ul_BillingAt = 20,
     ul_BilledNanousd = 300, ul_BalanceAfterNanousd = None, ul_PricingSnapshotJSON = [],
     ul_Details = \<lparr>ud_ConversationID = 0, ud_ProviderProtocol = [], ud_UpstreamName = [], ud_PlatformModelName = [],
       ud_RoutedBindingCode = [], ud_UpstreamModelName = [], ud_UsageDate = 20, ud_InputTokens = 0, ud_CacheReadTokens = 0,
       ud_CacheWriteTokens = 0, ud_CacheWrite5mTokens = 0, ud_CacheWrite1hTokens = 0, ud_OutputTokens = 0,
       ud_ReasoningTokens = 0, ud_CallCount = 1, ud_DurationSeconds = 0, ud_LatencyMS = 0, ud_UsageSpeed = [],
       ud_ServiceTier = [], ud_BilledCurrency = ''USD''\<rparr>\<rparr>"

lemma sample_db_inv: "billing_inv sample_db"
  using sample_db_ok by (simp add: billing_inv_def ledgers_ok_def) (simp add: sample_db_def empty_billing_db_def)

theorem usage_settled_exactly_witness:
  "\<exists>u' db'. AddUsageAndSettleBalance None 30 (Some sample_usage) None sample_db = (Inr u', db') \<and>
     balance_of db' 7 = 700 \<and> length (db_ledgers db') = 1"
proof -
  have "\<not> isl (fst (AddUsageAndSettleBalance None 30 (Some sample_usage) None sample_db))" by code_simp
  then obtain u' db' where r: "AddUsageAndSettleBalance None 30 (Some sample_usage) None sample_db = (Inr u', db')"
    using transaction_succeeds by blast
  have "in_int64 (ul_BilledNanousd sample_usage)" by (simp add: sample_usage_def int64_defs)
  note e = usage_settled_exactly [OF r sample_db_inv this]
  have s: "db_ledgers sample_db = []" "balance_of sample_db 7 = 1000" "usage_charge sample_usage = 300" "ul_UserID sample_usage = 7"
    by code_simp+
  have "balance_of db' = (balance_of sample_db)(7 := 700)" "length (db_ledgers db') = 1"
    using e unfolding s by auto
  then show ?thesis using r by simp
qed

section \<open>What a plan covers\<close>

text \<open>One settlement under a plan, by its effect on the balance.\<close>

lemma period_charge:
  assumes "settle_period_body codec now t usage s e credit res db = Inr (u', db')" and "billing_inv db"
    and "in_int64 (ul_BilledNanousd usage)" "in_int64 credit"
  shows "(balance_of db' = balance_of db \<and> db_ledgers db' = db_ledgers db \<and> db_reservations db' = db_reservations db) \<or>
    (\<exists>row held l. sumActivePeriodCreditReservations (ul_UserID usage) s e (reservation_id row) now db = Inr held \<and>
       (row = None \<longleftrightarrow> res = None) \<and>
       balance_of db' = (balance_of db)(ul_UserID usage := balance_of db (ul_UserID usage) -
         (usage_charge usage - covered_by_credit credit (billed_in (ul_UserID usage) s e db) held (usage_charge usage))) \<and>
       db_ledgers db' = db_ledgers db @ [l] \<and> ul_BilledNanousd l = ul_BilledNanousd usage \<and> ul_UserID l = ul_UserID usage \<and>
       ul_IsFreeModel l = ul_IsFreeModel usage \<and> ul_BillingAt l = ul_BillingAt usage \<and>
       (res = None \<longrightarrow> db_reservations db' = db_reservations db))"
  using assms(1)
proof (cases rule: settle_period_cases)
  case (replay account row settled l)
  then show ?thesis using getOrCreate_effects(3-6) [OF replay(1)] by simp
next
  case (fresh account d row used held json)
  note g = getOrCreate_step [OF fresh(1) assms(2)] and e = getOrCreate_effects [OF fresh(1)]
  note p = settle_period_fresh_effects [OF fresh(7,2) e(1) g(1) assms(3,4)]
  have used: "used = billed_in (ul_UserID usage) s e db"
    using sum_active_is_held(3) [OF fresh(5)] e(5) by (simp add: billed_in_def)
  have held: "sumActivePeriodCreditReservations (ul_UserID usage) s e (reservation_id row) now db = Inr held"
    using fresh(6) e(4) by (simp add: sumActivePeriodCreditReservations_def)
  have none: "row = None \<longleftrightarrow> res = None"
    using fresh(2) settlement_reservation(1) [OF fresh(2)] by (auto simp: getUsageReservationForSettlement_def)
  then have "res = None \<longrightarrow> db_reservations db' = db_reservations db"
    using p(4) e(4) by (cases row) (auto simp: settleUsageReservation_def)
  then show ?thesis using p(2,3) held none used e(3,5) by auto
qed

text \<open>A sequence of settlements of one user in one period, with faults and retries.\<close>

type_synonym plan_call = "repo_error option \<times> gotime \<times> gotime \<times> usage_ledger"

definition settle_plan_call :: "'j json_codec \<Rightarrow> gotime \<Rightarrow> gotime \<Rightarrow> int \<Rightarrow> plan_call \<Rightarrow> billing_db \<Rightarrow> billing_db" where
  "settle_plan_call codec s e credit call db =
     (case call of (fault, now, t, usage) \<Rightarrow> snd (AddPeriodUsageAndSettleOverage codec fault now t (Some usage) s e credit None db))"

definition plan_call_ok :: "nat \<Rightarrow> gotime \<Rightarrow> gotime \<Rightarrow> plan_call \<Rightarrow> bool" where
  "plan_call_ok u s e call \<longleftrightarrow> (case call of (fault, now, t, usage) \<Rightarrow> ul_UserID usage = u \<and> \<not> ul_IsFreeModel usage \<and>
     0 \<le> ul_BilledNanousd usage \<and> in_int64 (ul_BilledNanousd usage) \<and> s \<le> ul_BillingAt usage \<and> ul_BillingAt usage < e)"

text \<open>What the user owes beyond the plan.\<close>

definition over_credit :: "nat \<Rightarrow> gotime \<Rightarrow> gotime \<Rightarrow> int \<Rightarrow> billing_db \<Rightarrow> int" where
  "over_credit u s e credit db = max 0 (billed_in u s e db - credit)"

lemma plan_call_charge:
  assumes "plan_call_ok u s e call" and "billing_inv db" and "in_int64 credit" "0 \<le> credit" and "0 \<le> billed_in u s e db"
    and "\<forall>r \<in> set (db_reservations db). ur_UserID r \<noteq> u"
  shows "billing_inv (settle_plan_call codec s e credit call db)" "0 \<le> billed_in u s e (settle_plan_call codec s e credit call db)"
    "db_reservations (settle_plan_call codec s e credit call db) = db_reservations db"
    "balance_of (settle_plan_call codec s e credit call db) u + over_credit u s e credit (settle_plan_call codec s e credit call db) =
     balance_of db u + over_credit u s e credit db"
proof -
  obtain fault now t usage where call: "call = (fault, now, t, usage)" by (cases call) auto
  note ok = assms(1) [unfolded call plan_call_ok_def prod.case]
  let ?db = "settle_plan_call codec s e credit call db"
  have cs: "?db = db \<or> (\<exists>x. settle_period_body codec now t usage s e credit None db = Inr (x, ?db))"
    by (auto simp: call settle_plan_call_def AddPeriodUsageAndSettleOverage_def transaction_def split: option.splits sum.splits)
  have "billing_inv ?db \<and> 0 \<le> billed_in u s e ?db \<and> db_reservations ?db = db_reservations db \<and>
    balance_of ?db u + over_credit u s e credit ?db = balance_of db u + over_credit u s e credit db"
    using cs
  proof (elim disjE exE)
    assume "?db = db"
    then show ?thesis using assms by simp
  next
    fix x
    assume body: "settle_period_body codec now t usage s e credit None db = Inr (x, ?db)"
    have inv: "billing_inv ?db" using settle_period_step [OF body assms(2)] ok assms(3) by (simp add: good_step_def)
    from period_charge [OF body assms(2) _ assms(3)] ok
    consider (same) "balance_of ?db = balance_of db" "db_ledgers ?db = db_ledgers db" "db_reservations ?db = db_reservations db"
      | (new) held l where "sumActivePeriodCreditReservations u s e 0 now db = Inr held"
        "balance_of ?db = (balance_of db)(u := balance_of db u -
           (usage_charge usage - covered_by_credit credit (billed_in u s e db) held (usage_charge usage)))"
        "db_ledgers ?db = db_ledgers db @ [l]" "ul_BilledNanousd l = ul_BilledNanousd usage" "ul_UserID l = u"
        "\<not> ul_IsFreeModel l" "ul_BillingAt l = ul_BillingAt usage" "db_reservations ?db = db_reservations db"
      by (fastforce simp: reservation_id_def)
    then show ?thesis
    proof cases
      case same
      then show ?thesis using inv assms(5) by (simp add: billed_in_def over_credit_def)
    next
      case new
      have "held = held_credit u s e now db" using sum_active_is_held(2) [OF new(1)] .
      also have "\<dots> = 0"
      proof -
        have "filter (\<lambda>r. holds_budget u now r \<and> ur_PeriodStartAt r = Some s \<and> ur_PeriodEndAt r = Some e) (db_reservations db) = []"
          using assms(6) by (auto simp: filter_empty_conv holds_budget_def)
        then show ?thesis by (simp add: held_credit_def)
      qed
      finally have held: "held = 0" .
      have charge: "usage_charge usage = ul_BilledNanousd usage" using ok by (simp add: usage_charge_def)
      have billed: "billed_in u s e ?db = billed_in u s e db + ul_BilledNanousd usage"
        using new ok by (simp add: billed_in_def)
      have "covered_by_credit credit (billed_in u s e db) held (usage_charge usage) =
          min (ul_BilledNanousd usage) (max 0 (credit - billed_in u s e db))"
        using assms(5) by (simp add: covered_by_credit_def minInt64_min remaining_exact [OF assms(3)] held charge)
      then have "balance_of ?db u + over_credit u s e credit ?db = balance_of db u + over_credit u s e credit db"
        using new(2) billed charge ok by (simp add: over_credit_def min_def max_def)
      then show ?thesis using inv billed new(8) ok assms(5) by simp
    qed
  qed
  then show "billing_inv ?db" "0 \<le> billed_in u s e ?db" "db_reservations ?db = db_reservations db"
    "balance_of ?db u + over_credit u s e credit ?db = balance_of db u + over_credit u s e credit db" by simp_all
qed


text \<open>A plan with a credit of 500 and calls of 300 and 400, the second of which is retried: 200 are paid.\<close>

definition sample_codec :: "unit json_codec" where
  "sample_codec = \<lparr>jc_decode = \<lambda>_. Map.empty, jc_encode = \<lambda>_. Some ''{}'', jc_int = \<lambda>_. ()\<rparr>"

definition sample_calls :: "plan_call list" where
  "sample_calls = [(None, 20, 20, sample_usage), (None, 30, 30, sample_usage\<lparr>ul_RefNo := ''call 2'', ul_BilledNanousd := 400\<rparr>),
     (Some (DatabaseError ''down''), 35, 35, sample_usage\<lparr>ul_RefNo := ''call 3''\<rparr>),
     (None, 40, 40, sample_usage\<lparr>ul_RefNo := ''call 2'', ul_BilledNanousd := 400\<rparr>)]"

definition plain_db :: billing_db where
  "plain_db = sample_db\<lparr>db_reservations := []\<rparr>"

lemma plain_db_ok: "billing_inv plain_db" "db_reservations plain_db = []" "billed_in 7 10 100 plain_db = 0" "balance_of plain_db 7 = 1000"
  using sample_db_inv
  by (simp_all add: plain_db_def billing_inv_def accounts_ok_def reservations_ok_def ledgers_ok_def)
    (simp_all add: billed_in_def balance_of_def sample_db_def empty_billing_db_def)


text \<open>
  The proviso on reservations is needed. Here a call has reserved the whole credit of 500 when another
  is settled for 300: all of it is charged to the balance. The first call then uses only 50, so the user
  paid 300 although the plan's use never passed its credit.
\<close>

lemma reserved_credit_overcharges:
  "let db1 = snd (ReserveUsageBalance None 20 (sample_request\<lparr>rq_RefNo := ''big call'', rq_RequestedNanousd := 500,
         rq_PeriodStartAt := Some 10\<rparr>) plain_db);
       db2 = settle_plan_call sample_codec 10 100 500 (None, 30, 30, sample_usage) db1;
       db3 = snd (AddPeriodUsageAndSettleOverage sample_codec None 40 40
         (Some (sample_usage\<lparr>ul_RefNo := ''big call'', ul_BilledNanousd := 50\<rparr>)) 10 100 500
         (Some ((new_reservation sample_request 0 0 0)\<lparr>ur_RefNo := ''big call''\<rparr>)) db2)
   in balance_of db3 7 = 700 \<and> billed_in 7 10 100 db3 = 350 \<and> map ur_Status (db_reservations db3) = [''settled'']"
  by code_simp

end
