(* ===== verification/Subscription_Timeline.thy ===== *)
theory Subscription_Timeline
  imports Keyed_Stores "HOL-Library.Product_Lexorder" "HOL-Library.Multiset"
begin

text \<open>
  The timeline of a user's subscriptions (\<open>postgres/billing/repository.go\<close>): plans have ranks, at each
  moment the plan of the highest rank runs, and what a new grant pushes aside is placed again later. The
  theory holds the pure part, from segments and a grant to the new timeline. Ranks are natural numbers:
  \<open>subscriptionPlanRank\<close> gives 0, a positive sort order or an id.
\<close>

section \<open>Operations\<close>

record segment =
  sg_SubscriptionID :: nat
  sg_PlanID :: nat
  sg_PriceID :: nat
  sg_Rank :: nat
  sg_StartAt :: gotime
  sg_EndAt :: gotime
  sg_CancelAtPeriodEnd :: bool
  sg_AutoRenew :: bool
  sg_NewGrant :: bool

record timeline_grant =
  gr_SubscriptionID :: nat
  gr_PlanID :: nat
  gr_PriceID :: nat
  gr_Rank :: nat
  gr_StartAt :: gotime
  gr_Duration :: duration
  gr_CancelAtPeriodEnd :: bool
  gr_AutoRenew :: bool
  gr_NewGrant :: bool

definition subscriptionTimelineOverlaps :: "segment \<Rightarrow> segment \<Rightarrow> bool" where
  "subscriptionTimelineOverlaps x y \<longleftrightarrow> sg_StartAt x < sg_EndAt y \<and> sg_StartAt y < sg_EndAt x"

definition minTime :: "gotime \<Rightarrow> gotime \<Rightarrow> gotime" where
  "minTime x y = (if x < y then x else y)"

definition maxTime :: "gotime \<Rightarrow> gotime \<Rightarrow> gotime" where
  "maxTime x y = (if y < x then x else y)"

text \<open>\<open>t.Sub(u)\<close> saturates at the ends of the 64-bit range.\<close>

definition time_sub :: "gotime \<Rightarrow> gotime \<Rightarrow> duration" where
  "time_sub t u = clamp_int64 (t - u)"

text \<open>The order of \<open>sort.SliceStable\<close>: by start, higher rank first, by end, by plan.\<close>

definition segment_order :: "segment \<Rightarrow> gotime \<times> int \<times> gotime \<times> nat" where
  "segment_order x = (sg_StartAt x, - int (sg_Rank x), sg_EndAt x, sg_PlanID x)"

definition usable_segment :: "segment \<Rightarrow> bool" where
  "usable_segment x \<longleftrightarrow> sg_PlanID x \<noteq> 0 \<and> sg_PriceID x \<noteq> 0 \<and> sg_StartAt x < sg_EndAt x"

definition same_owner :: "segment \<Rightarrow> segment \<Rightarrow> bool" where
  "same_owner x y \<longleftrightarrow> sg_PlanID x = sg_PlanID y \<and> sg_PriceID x = sg_PriceID y \<and> sg_Rank x = sg_Rank y \<and>
     sg_SubscriptionID x = sg_SubscriptionID y \<and> sg_CancelAtPeriodEnd x = sg_CancelAtPeriodEnd y \<and>
     sg_AutoRenew x = sg_AutoRenew y \<and> sg_NewGrant x = sg_NewGrant y"

definition merge_segment :: "segment \<Rightarrow> segment list \<Rightarrow> segment list" where
  "merge_segment item merged =
     (if merged \<noteq> [] \<and> same_owner (last merged) item \<and> \<not> sg_EndAt (last merged) < sg_StartAt item
      then butlast merged @ [if sg_EndAt (last merged) < sg_EndAt item then (last merged)\<lparr>sg_EndAt := sg_EndAt item\<rparr> else last merged]
      else merged @ [item])"

definition normalizeSubscriptionTimeline :: "segment list \<Rightarrow> segment list" where
  "normalizeSubscriptionTimeline segments =
     fold merge_segment (sort_key segment_order (filter usable_segment segments)) []"

definition nearer_blocker :: "nat \<Rightarrow> gotime \<Rightarrow> segment \<Rightarrow> segment option \<Rightarrow> segment option" where
  "nearer_blocker rank cursor item found =
     (if sg_Rank item < rank \<or> \<not> cursor < sg_EndAt item then found
      else (case found of None \<Rightarrow> Some item
        | Some result \<Rightarrow> if sg_StartAt item < sg_StartAt result \<or>
              (sg_StartAt item = sg_StartAt result \<and> sg_EndAt item < sg_EndAt result) then Some item else found))"

definition nextSubscriptionTimelineBlocker :: "segment list \<Rightarrow> nat \<Rightarrow> gotime \<Rightarrow> segment option" where
  "nextSubscriptionTimelineBlocker segments rank cursor = fold (nearer_blocker rank cursor) segments None"

text \<open>What is left of an item, and what it loses, when a segment of a higher rank is allocated.\<close>

definition split_segment :: "segment \<Rightarrow> segment \<Rightarrow> segment list \<times> timeline_grant list" where
  "split_segment allocated item =
     (if \<not> subscriptionTimelineOverlaps item allocated \<or> sg_Rank allocated \<le> sg_Rank item then ([item], [])
      else (let overlapStart = maxTime (sg_StartAt item) (sg_StartAt allocated);
                overlapEnd = minTime (sg_EndAt item) (sg_EndAt allocated)
            in ((if sg_StartAt item < overlapStart then [item\<lparr>sg_EndAt := overlapStart\<rparr>] else []) @
                (if overlapEnd < sg_EndAt item then [item\<lparr>sg_StartAt := overlapEnd\<rparr>] else []),
                if overlapStart < overlapEnd
                then [\<lparr>gr_SubscriptionID = sg_SubscriptionID item, gr_PlanID = sg_PlanID item, gr_PriceID = sg_PriceID item,
                  gr_Rank = sg_Rank item, gr_StartAt = maxTime (sg_EndAt allocated) (sg_EndAt item),
                  gr_Duration = time_sub overlapEnd overlapStart, gr_CancelAtPeriodEnd = sg_CancelAtPeriodEnd item,
                  gr_AutoRenew = sg_AutoRenew item, gr_NewGrant = sg_NewGrant item\<rparr>]
                else [])))"

definition insertSubscriptionTimelineSegment :: "segment list \<Rightarrow> segment \<Rightarrow> segment list \<times> timeline_grant list" where
  "insertSubscriptionTimelineSegment segments allocated =
     (normalizeSubscriptionTimeline (concat (map (fst \<circ> split_segment allocated) segments) @ [allocated]),
      concat (map (snd \<circ> split_segment allocated) segments))"

definition allocate :: "timeline_grant \<Rightarrow> gotime \<Rightarrow> gotime \<Rightarrow> segment" where
  "allocate grant cursor endAt = \<lparr>sg_SubscriptionID = gr_SubscriptionID grant, sg_PlanID = gr_PlanID grant,
     sg_PriceID = gr_PriceID grant, sg_Rank = gr_Rank grant, sg_StartAt = cursor, sg_EndAt = endAt,
     sg_CancelAtPeriodEnd = gr_CancelAtPeriodEnd grant, sg_AutoRenew = gr_AutoRenew grant, sg_NewGrant = gr_NewGrant grant\<rparr>"

text \<open>The end of the piece that fits at the cursor.\<close>

definition piece_end :: "segment option \<Rightarrow> gotime \<Rightarrow> duration \<Rightarrow> gotime" where
  "piece_end blocker cursor remaining =
     (case blocker of None \<Rightarrow> cursor + remaining
      | Some b \<Rightarrow> if sg_StartAt b < cursor + remaining then sg_StartAt b else cursor + remaining)"

definition ahead :: "segment list \<Rightarrow> nat \<Rightarrow> gotime \<Rightarrow> nat" where
  "ahead segments rank cursor = length (filter (\<lambda>x. rank \<le> sg_Rank x \<and> cursor < sg_EndAt x) segments)"

lemma blocker_found:
  assumes "nextSubscriptionTimelineBlocker segments rank cursor = Some b"
  shows "b \<in> set segments" "rank \<le> sg_Rank b" "cursor < sg_EndAt b"
    "x \<in> set segments \<Longrightarrow> rank \<le> sg_Rank x \<Longrightarrow> cursor < sg_EndAt x \<Longrightarrow> sg_StartAt b \<le> sg_StartAt x"
proof -
  have "fold (nearer_blocker rank cursor) xs found = Some b \<Longrightarrow>
      (found = Some b \<or> (b \<in> set xs \<and> rank \<le> sg_Rank b \<and> cursor < sg_EndAt b)) \<and>
      (\<forall>r. found = Some r \<longrightarrow> sg_StartAt b \<le> sg_StartAt r) \<and>
      (\<forall>x \<in> set xs. rank \<le> sg_Rank x \<longrightarrow> cursor < sg_EndAt x \<longrightarrow> sg_StartAt b \<le> sg_StartAt x)" for xs found
  proof (induction xs arbitrary: found)
    case (Cons a xs)
    from Cons.prems have "fold (nearer_blocker rank cursor) xs (nearer_blocker rank cursor a found) = Some b" by simp
    from Cons.IH [OF this] show ?case by (cases found) (auto simp: nearer_blocker_def split: if_splits)
  qed simp
  from this [of segments None] assms
  show "b \<in> set segments" "rank \<le> sg_Rank b" "cursor < sg_EndAt b"
    "x \<in> set segments \<Longrightarrow> rank \<le> sg_Rank x \<Longrightarrow> cursor < sg_EndAt x \<Longrightarrow> sg_StartAt b \<le> sg_StartAt x"
    by (auto simp: nextSubscriptionTimelineBlocker_def)
qed

lemma no_blocker:
  "nextSubscriptionTimelineBlocker segments rank cursor = None \<longleftrightarrow> (\<forall>x \<in> set segments. rank \<le> sg_Rank x \<longrightarrow> sg_EndAt x \<le> cursor)"
proof -
  have "fold (nearer_blocker rank cursor) xs found = None \<longleftrightarrow>
      found = None \<and> (\<forall>x \<in> set xs. rank \<le> sg_Rank x \<longrightarrow> sg_EndAt x \<le> cursor)" for xs found
    by (induction xs arbitrary: found) (auto simp: nearer_blocker_def split: option.splits if_splits)
  from this [of segments None] show ?thesis by (simp add: nextSubscriptionTimelineBlocker_def)
qed

lemma ahead_skip:
  assumes "b \<in> set segments" "rank \<le> sg_Rank b" "cursor < sg_EndAt b"
  shows "ahead segments rank (sg_EndAt b) < ahead segments rank cursor"
  using assms
proof -
  have mono: "length (filter (\<lambda>x. rank \<le> sg_Rank x \<and> sg_EndAt b < sg_EndAt x) xs) \<le>
      length (filter (\<lambda>x. rank \<le> sg_Rank x \<and> cursor < sg_EndAt x) xs)" for xs
    using assms(3) by (induction xs) auto
  show ?thesis
    using assms unfolding ahead_def
  proof (induction segments)
    case (Cons a xs)
    then show ?case using mono [of xs] by (auto simp: le_imp_less_Suc)
  qed simp
qed

text \<open>
  The loop of \<open>placeSubscriptionTimelineGrant\<close>. It ends: every turn either gives out some of the time
  that remains or moves the cursor past a blocker.
\<close>

function place_loop ::
  "timeline_grant \<Rightarrow> segment list \<Rightarrow> timeline_grant list \<Rightarrow> duration \<Rightarrow> gotime \<Rightarrow> segment list \<times> timeline_grant list" where
  "place_loop grant segments displaced remaining cursor =
     (if \<not> 0 < remaining then (normalizeSubscriptionTimeline segments, displaced)
      else (let blocker = nextSubscriptionTimelineBlocker segments (gr_Rank grant) cursor;
                blockerEnd = (case blocker of None \<Rightarrow> 0 | Some b \<Rightarrow> sg_EndAt b)
        in if (case blocker of None \<Rightarrow> False | Some b \<Rightarrow> \<not> cursor < sg_StartAt b)
           then place_loop grant segments displaced remaining blockerEnd
           else (let endAt = piece_end blocker cursor remaining
             in if \<not> cursor < endAt then place_loop grant segments displaced remaining blockerEnd
                else (let (segments', moved) = insertSubscriptionTimelineSegment segments (allocate grant cursor endAt)
                  in place_loop grant segments' (displaced @ moved) (wrap64 (remaining - time_sub endAt cursor)) endAt))))"
  by pat_completeness auto

lemma piece_end_after:
  assumes "0 < remaining" and "case blocker of None \<Rightarrow> True | Some b \<Rightarrow> cursor < sg_StartAt b"
  shows "cursor < piece_end blocker cursor remaining" "piece_end blocker cursor remaining \<le> cursor + remaining"
  using assms by (auto simp: piece_end_def split: option.splits)

lemma wrap64_le: "wrap64 x \<le> max_int64"
  using wrap64_range [of x] by (simp add: int64_defs)

lemma remaining_decreases:
  assumes "0 < remaining" "cursor < endAt" "endAt \<le> cursor + remaining"
  shows "nat (wrap64 (remaining - time_sub endAt cursor)) < nat remaining"
    and "in_int64 remaining \<Longrightarrow> wrap64 (remaining - time_sub endAt cursor) = remaining - (endAt - cursor)"
    and "in_int64 remaining \<Longrightarrow> time_sub endAt cursor = endAt - cursor"
proof -
  show exact: "in_int64 remaining \<Longrightarrow> time_sub endAt cursor = endAt - cursor"
    using assms by (simp add: time_sub_def clamp_int64_def int64_defs)
  then show "in_int64 remaining \<Longrightarrow> wrap64 (remaining - time_sub endAt cursor) = remaining - (endAt - cursor)"
    using assms by (simp add: int64_defs)
  then show "nat (wrap64 (remaining - time_sub endAt cursor)) < nat remaining"
    using assms wrap64_le [of "remaining - time_sub endAt cursor"]
    by (cases "in_int64 remaining") (auto simp: int64_defs)
qed

termination place_loop
proof (relation "measures [\<lambda>(grant, segments, displaced, remaining, cursor). nat remaining,
    \<lambda>(grant, segments, displaced, remaining, cursor). ahead segments (gr_Rank grant) cursor]", goal_cases)
  case 1
  then show ?case by simp
next
  case (2 grant segments displaced remaining cursor blocker blockerEnd)
  then show ?case
    using ahead_skip [OF blocker_found(1-3) [of segments "gr_Rank grant" cursor]] by (auto split: option.splits)
next
  case (3 grant segments displaced remaining cursor blocker blockerEnd endAt)
  then show ?case using piece_end_after(1) [of remaining cursor blocker] by (auto split: option.splits)
next
  case (4 grant segments displaced remaining cursor blocker blockerEnd endAt p segments' moved)
  then show ?case
    using remaining_decreases(1) [of remaining cursor endAt] piece_end_after [of remaining cursor blocker]
    by (auto split: option.splits)
qed

definition placeSubscriptionTimelineGrant ::
  "segment list \<Rightarrow> timeline_grant \<Rightarrow> repo_error + segment list \<times> timeline_grant list" where
  "placeSubscriptionTimelineGrant existing grant =
     (if gr_Duration grant \<le> 0 then Inl ErrInvalidInput
      else Inr (place_loop grant (normalizeSubscriptionTimeline existing) [] (gr_Duration grant) (gr_StartAt grant)))"

lemma moved_ranks: "g \<in> set (snd (insertSubscriptionTimelineSegment xs x)) \<Longrightarrow> gr_Rank g < sg_Rank x"
  by (auto simp: insertSubscriptionTimelineSegment_def split_segment_def Let_def split: if_splits)

declare place_loop.simps [simp del]

text \<open>The three kinds of turns of the loop, and induction over them.\<close>

definition free_at :: "segment list \<Rightarrow> nat \<Rightarrow> gotime \<Rightarrow> bool" where
  "free_at segments rank cursor \<longleftrightarrow>
     (case nextSubscriptionTimelineBlocker segments rank cursor of None \<Rightarrow> True | Some b \<Rightarrow> cursor < sg_StartAt b)"

lemma place_loop_turns:
  "\<not> 0 < remaining \<Longrightarrow> place_loop grant segments displaced remaining cursor = (normalizeSubscriptionTimeline segments, displaced)"
  "0 < remaining \<Longrightarrow> nextSubscriptionTimelineBlocker segments (gr_Rank grant) cursor = Some b \<Longrightarrow> sg_StartAt b \<le> cursor \<Longrightarrow>
     place_loop grant segments displaced remaining cursor = place_loop grant segments displaced remaining (sg_EndAt b)"
  "0 < remaining \<Longrightarrow> free_at segments (gr_Rank grant) cursor \<Longrightarrow>
     endAt = piece_end (nextSubscriptionTimelineBlocker segments (gr_Rank grant) cursor) cursor remaining \<Longrightarrow>
     insertSubscriptionTimelineSegment segments (allocate grant cursor endAt) = (segments', moved) \<Longrightarrow>
     place_loop grant segments displaced remaining cursor =
     place_loop grant segments' (displaced @ moved) (wrap64 (remaining - time_sub endAt cursor)) endAt"
proof -
  show "\<not> 0 < remaining \<Longrightarrow> place_loop grant segments displaced remaining cursor = (normalizeSubscriptionTimeline segments, displaced)"
    by (subst place_loop.simps) simp
  show "0 < remaining \<Longrightarrow> nextSubscriptionTimelineBlocker segments (gr_Rank grant) cursor = Some b \<Longrightarrow> sg_StartAt b \<le> cursor \<Longrightarrow>
     place_loop grant segments displaced remaining cursor = place_loop grant segments displaced remaining (sg_EndAt b)"
    by (subst place_loop.simps) simp
  show "0 < remaining \<Longrightarrow> free_at segments (gr_Rank grant) cursor \<Longrightarrow>
     endAt = piece_end (nextSubscriptionTimelineBlocker segments (gr_Rank grant) cursor) cursor remaining \<Longrightarrow>
     insertSubscriptionTimelineSegment segments (allocate grant cursor endAt) = (segments', moved) \<Longrightarrow>
     place_loop grant segments displaced remaining cursor =
     place_loop grant segments' (displaced @ moved) (wrap64 (remaining - time_sub endAt cursor)) endAt"
    using piece_end_after(1) [of remaining cursor "nextSubscriptionTimelineBlocker segments (gr_Rank grant) cursor"]
    by (subst place_loop.simps) (auto simp: free_at_def Let_def split: option.splits)
qed

lemma place_loop_induct [case_names finish skip piece]:
  assumes finish: "\<And>segments displaced remaining cursor. \<not> 0 < remaining \<Longrightarrow> P segments displaced remaining cursor"
    and skip: "\<And>segments displaced remaining cursor b. 0 < remaining \<Longrightarrow>
      nextSubscriptionTimelineBlocker segments (gr_Rank grant) cursor = Some b \<Longrightarrow> sg_StartAt b \<le> cursor \<Longrightarrow>
      P segments displaced remaining (sg_EndAt b) \<Longrightarrow> P segments displaced remaining cursor"
    and piece: "\<And>segments displaced remaining cursor endAt segments' moved. 0 < remaining \<Longrightarrow>
      free_at segments (gr_Rank grant) cursor \<Longrightarrow>
      endAt = piece_end (nextSubscriptionTimelineBlocker segments (gr_Rank grant) cursor) cursor remaining \<Longrightarrow>
      insertSubscriptionTimelineSegment segments (allocate grant cursor endAt) = (segments', moved) \<Longrightarrow>
      P segments' (displaced @ moved) (wrap64 (remaining - time_sub endAt cursor)) endAt \<Longrightarrow>
      P segments displaced remaining cursor"
  shows "P segments displaced remaining cursor"
proof -
  have "g = grant \<longrightarrow> P segments displaced remaining cursor" for g
  proof (induction g segments displaced remaining cursor rule: place_loop.induct)
    case (1 g segments displaced remaining cursor)
    show ?case
    proof
      assume g: "g = grant"
      let ?b = "nextSubscriptionTimelineBlocker segments (gr_Rank grant) cursor"
      show "P segments displaced remaining cursor"
      proof (cases "0 < remaining")
        case False
        then show ?thesis by (rule finish)
      next
        case pos: True
        show ?thesis
        proof (cases "free_at segments (gr_Rank grant) cursor")
          case True
          obtain segments' moved where ins: "insertSubscriptionTimelineSegment segments
            (allocate grant cursor (piece_end ?b cursor remaining)) = (segments', moved)" by fastforce
          have "cursor < piece_end ?b cursor remaining"
            using True pos piece_end_after(1) [of remaining cursor ?b] by (simp add: free_at_def)
          then have "P segments' (displaced @ moved) (wrap64 (remaining - time_sub (piece_end ?b cursor remaining) cursor))
              (piece_end ?b cursor remaining)"
            using "1.IH"(3) [OF _ refl refl _ refl _ refl ins [symmetric, folded g]] True pos g
            by (auto simp: free_at_def split: option.splits)
          then show ?thesis by (rule piece [OF pos True refl ins])
        next
          case False
          then obtain b where b: "?b = Some b" "sg_StartAt b \<le> cursor" by (auto simp: free_at_def split: option.splits)
          then have "P segments displaced remaining (sg_EndAt b)"
            using "1.IH"(1) [OF _ refl refl] pos g by (auto split: option.splits)
          then show ?thesis by (rule skip [OF pos b])
        qed
      qed
    qed
  qed
  then show ?thesis by simp
qed

lemma place_loop_ranks:
  "g \<in> set (snd (place_loop grant segments displaced remaining cursor)) \<Longrightarrow> g \<in> set displaced \<or> gr_Rank g < gr_Rank grant"
proof (induction segments displaced remaining cursor rule: place_loop_induct [where grant = grant])
  case (piece segments displaced remaining cursor endAt segments' moved)
  then show ?case
    using moved_ranks [of g segments "allocate grant cursor endAt"] by (auto simp: place_loop_turns(3) allocate_def)
qed (simp_all add: place_loop_turns)

text \<open>
  The queue of \<open>buildSubscriptionTimeline\<close>. It ends although placing a grant can displace others: those
  have lower ranks, so the multiset of the ranks that wait shrinks.
\<close>

function build_loop :: "segment list \<Rightarrow> timeline_grant list \<Rightarrow> repo_error + segment list" where
  "build_loop segments [] = Inr (normalizeSubscriptionTimeline segments)"
| "build_loop segments (current # queue) =
     (case placeSubscriptionTimelineGrant segments current of
        Inl e \<Rightarrow> Inl e
      | Inr (segments', displaced) \<Rightarrow> build_loop segments' (displaced @ queue))"
  by pat_completeness auto

termination build_loop
proof (relation "inv_image (mult less_than) (\<lambda>(segments, queue). mset (map gr_Rank queue))", goal_cases)
  case 1
  show ?case by (intro wf_inv_image wf_mult wf_less_than)
next
  case (2 segments current queue p segments' displaced)
  then have "place_loop current (normalizeSubscriptionTimeline segments) [] (gr_Duration current) (gr_StartAt current) = (segments', displaced)"
    by (simp add: placeSubscriptionTimelineGrant_def split: if_splits)
  then have "\<forall>g \<in> set displaced. gr_Rank g < gr_Rank current"
    using place_loop_ranks [of _ current "normalizeSubscriptionTimeline segments" "[]" "gr_Duration current" "gr_StartAt current"] by auto
  then have "(mset (map gr_Rank queue) + mset (map gr_Rank displaced), mset (map gr_Rank queue) + {#gr_Rank current#}) \<in> mult less_than"
    by (intro one_step_implies_mult) auto
  then show ?case by (simp add: add.commute)
qed

definition buildSubscriptionTimeline :: "segment list \<Rightarrow> timeline_grant \<Rightarrow> repo_error + segment list" where
  "buildSubscriptionTimeline existing grant =
     (if gr_Duration grant \<le> 0 then Inl ErrInvalidInput
      else build_loop (normalizeSubscriptionTimeline existing) [grant])"

section \<open>Who runs when\<close>

text \<open>
  A segment belongs to a subscription, plan and price with its flags: what a merge keeps and a
  displaced grant inherits. \<open>running\<close> counts the segments that run at a moment, \<open>paid\<close> adds their times.
\<close>

type_synonym owner = "nat \<times> nat \<times> nat \<times> nat \<times> bool \<times> bool \<times> bool"

definition seg_owner :: "segment \<Rightarrow> owner" where
  "seg_owner x = (sg_Rank x, sg_SubscriptionID x, sg_PlanID x, sg_PriceID x, sg_CancelAtPeriodEnd x, sg_AutoRenew x, sg_NewGrant x)"

definition gr_owner :: "timeline_grant \<Rightarrow> owner" where
  "gr_owner g = (gr_Rank g, gr_SubscriptionID g, gr_PlanID g, gr_PriceID g, gr_CancelAtPeriodEnd g, gr_AutoRenew g, gr_NewGrant g)"

definition covers :: "gotime \<Rightarrow> segment \<Rightarrow> bool" where
  "covers t x \<longleftrightarrow> sg_StartAt x \<le> t \<and> t < sg_EndAt x"

definition running :: "(owner \<Rightarrow> bool) \<Rightarrow> gotime \<Rightarrow> segment list \<Rightarrow> nat" where
  "running P t xs = length (filter (\<lambda>x. P (seg_owner x) \<and> covers t x) xs)"

definition paid :: "(owner \<Rightarrow> bool) \<Rightarrow> segment list \<Rightarrow> int" where
  "paid P xs = sum_list (map (\<lambda>x. sg_EndAt x - sg_StartAt x) (filter (P \<circ> seg_owner) xs))"

definition owed :: "(owner \<Rightarrow> bool) \<Rightarrow> timeline_grant list \<Rightarrow> int" where
  "owed P gs = sum_list (map gr_Duration (filter (P \<circ> gr_owner) gs))"

definition alone :: "segment list \<Rightarrow> bool" where
  "alone xs \<longleftrightarrow> (\<forall>t. running (\<lambda>_. True) t xs \<le> 1)"

lemma count_simps [simp]:
  "running P t [] = 0" "running P t (x # xs) = (if P (seg_owner x) \<and> covers t x then 1 else 0) + running P t xs"
  "running P t (xs @ ys) = running P t xs + running P t ys"
  "paid P [] = 0" "paid P (x # xs) = (if P (seg_owner x) then sg_EndAt x - sg_StartAt x else 0) + paid P xs"
  "paid P (xs @ ys) = paid P xs + paid P ys"
  "owed P [] = 0" "owed P (g # gs) = (if P (gr_owner g) then gr_Duration g else 0) + owed P gs"
  "owed P (gs @ hs) = owed P gs + owed P hs"
  by (simp_all add: running_def paid_def owed_def)

lemma running_le: "running P t xs \<le> running (\<lambda>_. True) t xs"
  by (induction xs) auto

lemma running_pos: "0 < running P t xs \<longleftrightarrow> (\<exists>x \<in> set xs. P (seg_owner x) \<and> covers t x)"
  by (auto simp: running_def filter_empty_conv)

lemma count_perm:
  assumes "mset xs = mset ys"
  shows "running P t xs = running P t ys" "paid P xs = paid P ys"
proof -
  show "running P t xs = running P t ys"
    unfolding running_def using assms by (metis mset_filter size_mset)
  have "mset (map (\<lambda>x. sg_EndAt x - sg_StartAt x) (filter (P \<circ> seg_owner) xs)) =
      mset (map (\<lambda>x. sg_EndAt x - sg_StartAt x) (filter (P \<circ> seg_owner) ys))" using assms by simp
  then show "paid P xs = paid P ys" unfolding paid_def by (metis sum_mset_sum_list)
qed

lemma same_owner_iff: "same_owner x y \<longleftrightarrow> seg_owner x = seg_owner y"
  by (auto simp: same_owner_def seg_owner_def)

lemma usable_cover: "usable_segment x \<Longrightarrow> covers (sg_StartAt x) x"
  by (simp add: usable_segment_def covers_def)

text \<open>Segments in the order of their starts, of which at most one runs at a time, follow one another.\<close>

definition timeline :: "segment list \<Rightarrow> bool" where
  "timeline xs \<longleftrightarrow> (\<forall>x \<in> set xs. usable_segment x) \<and> sorted_wrt (\<lambda>x y. sg_EndAt x \<le> sg_StartAt y) xs"

lemma alone_follow:
  assumes "alone xs" "sorted_wrt (\<lambda>x y. sg_StartAt x \<le> sg_StartAt y) xs" "\<forall>x \<in> set xs. usable_segment x"
  shows "timeline xs"
proof -
  have "sorted_wrt (\<lambda>x y. sg_EndAt x \<le> sg_StartAt y) xs"
    using assms
  proof (induction xs)
    case (Cons x xs)
    have a: "running (\<lambda>_. True) t (x # xs) \<le> 1" for t using Cons.prems(1) by (simp only: alone_def)
    then have "alone xs" unfolding alone_def by (metis add_leD2 count_simps(2))
    moreover have "sg_EndAt x \<le> sg_StartAt y" if y: "y \<in> set xs" for y
    proof (rule ccontr)
      assume "\<not> ?thesis"
      then have "covers (sg_StartAt y) x" using Cons.prems(2) y by (simp add: covers_def)
      moreover have "0 < running (\<lambda>_. True) (sg_StartAt y) xs"
        using y Cons.prems(3) usable_cover by (auto simp: running_pos)
      ultimately show False using a [of "sg_StartAt y"] by simp
    qed
    ultimately show ?case using Cons by simp
  qed simp
  then show ?thesis using assms(3) by (simp add: timeline_def)
qed

lemma timeline_alone: "timeline xs \<Longrightarrow> alone xs"
proof (induction xs)
  case (Cons x xs)
  have "running (\<lambda>_. True) t xs = 0" if "covers t x" for t
  proof -
    have "\<not> covers t y" if "y \<in> set xs" for y using that Cons.prems \<open>covers t x\<close> by (auto simp: timeline_def covers_def)
    then show ?thesis by (metis running_pos gr0I)
  qed
  moreover have "alone xs" using Cons by (simp add: timeline_def)
  ultimately show ?case by (auto simp: alone_def)
qed (simp add: alone_def)

section \<open>Normal form\<close>

lemma merge_two:
  assumes "same_owner l x" "sg_EndAt l = sg_StartAt x" "usable_segment l" "usable_segment x"
  shows "usable_segment (l\<lparr>sg_EndAt := sg_EndAt x\<rparr>)" "seg_owner (l\<lparr>sg_EndAt := sg_EndAt x\<rparr>) = seg_owner l"
    "running P t [l\<lparr>sg_EndAt := sg_EndAt x\<rparr>] = running P t [l, x]"
    "paid P [l\<lparr>sg_EndAt := sg_EndAt x\<rparr>] = paid P [l, x]"
  using assms by (auto simp: usable_segment_def same_owner_iff seg_owner_def covers_def)

text \<open>Merging keeps who runs when, the paid times, and the order.\<close>

lemma merge_fold:
  assumes "\<forall>x \<in> set (merged @ rest). usable_segment x" and "alone (merged @ rest)"
    and "sorted_wrt (\<lambda>x y. sg_StartAt x \<le> sg_StartAt y) (merged @ rest)"
  shows "(\<forall>x \<in> set (fold merge_segment rest merged). usable_segment x \<and>
        (\<exists>y \<in> set (merged @ rest). sg_StartAt y = sg_StartAt x \<and> seg_owner y = seg_owner x)) \<and>
     running P t (fold merge_segment rest merged) = running P t (merged @ rest) \<and>
     paid P (fold merge_segment rest merged) = paid P (merged @ rest) \<and>
     sorted_wrt (\<lambda>x y. sg_StartAt x \<le> sg_StartAt y) (fold merge_segment rest merged)"
  using assms
proof (induction rest arbitrary: merged)
  case (Cons x rest)
  show ?case
  proof (cases "merged \<noteq> [] \<and> same_owner (last merged) x \<and> \<not> sg_EndAt (last merged) < sg_StartAt x")
    case False
    then have m: "merge_segment x merged = merged @ [x]" by (auto simp: merge_segment_def)
    show ?thesis using Cons.IH [of "merged @ [x]"] Cons.prems by (simp add: m)
  next
    case True
    then obtain ms l where l: "merged = ms @ [l]" by (metis append_butlast_last_id)
    have "timeline (merged @ x # rest)" using Cons.prems by (intro alone_follow)
    then have "sg_EndAt l \<le> sg_StartAt x" by (simp add: timeline_def l sorted_wrt_append)
    then have eq: "sg_EndAt l = sg_StartAt x" using True by (simp add: l)
    have us: "usable_segment l" "usable_segment x" using Cons.prems(1) by (simp_all add: l)
    have own: "same_owner l x" using True by (simp add: l)
    let ?l = "l\<lparr>sg_EndAt := sg_EndAt x\<rparr>"
    note two = merge_two [OF own eq us]
    have m: "merge_segment x merged = ms @ [?l]"
      using True eq us(2) by (simp add: merge_segment_def l usable_segment_def)
    have cnt: "running P t (ms @ ?l # rest) = running P t (merged @ x # rest)" for P t
      using two(3) [of P t] by (simp add: l)
    have pd: "paid P (ms @ ?l # rest) = paid P (merged @ x # rest)" for P
      using two(4) [of P] by (simp add: l)
    have "(\<forall>z \<in> set (fold merge_segment rest (ms @ [?l])). usable_segment z \<and>
        (\<exists>y \<in> set (ms @ ?l # rest). sg_StartAt y = sg_StartAt z \<and> seg_owner y = seg_owner z)) \<and>
     running P t (fold merge_segment rest (ms @ [?l])) = running P t (ms @ ?l # rest) \<and>
     paid P (fold merge_segment rest (ms @ [?l])) = paid P (ms @ ?l # rest) \<and>
     sorted_wrt (\<lambda>x y. sg_StartAt x \<le> sg_StartAt y) (fold merge_segment rest (ms @ [?l]))"
    proof -
      have 1: "\<forall>y \<in> set ((ms @ [?l]) @ rest). usable_segment y" using Cons.prems(1) two(1) by (auto simp: l)
      have 2: "alone ((ms @ [?l]) @ rest)" 
        using Cons.prems(2) unfolding alone_def append_assoc append_Cons append_Nil cnt .
      have 3: "sorted_wrt (\<lambda>x y. sg_StartAt x \<le> sg_StartAt y) ((ms @ [?l]) @ rest)"
        using Cons.prems(3) by (simp add: l sorted_wrt_append)
      from Cons.IH [OF 1 2 3] show ?thesis by simp
    qed
    moreover have "\<exists>y \<in> set (merged @ x # rest). sg_StartAt y = sg_StartAt z \<and> seg_owner y = seg_owner z"
      if "\<exists>y \<in> set (ms @ ?l # rest). sg_StartAt y = sg_StartAt z \<and> seg_owner y = seg_owner z" for z
      using that two(2) by (auto simp: l)
    ultimately show ?thesis using cnt pd by (simp add: m)
  qed
qed auto

lemma normalize_effects:
  assumes "alone (filter usable_segment xs)"
  shows "timeline (normalizeSubscriptionTimeline xs)"
    "running P t (normalizeSubscriptionTimeline xs) = running P t (filter usable_segment xs)"
    "paid P (normalizeSubscriptionTimeline xs) = paid P (filter usable_segment xs)"
    "x \<in> set (normalizeSubscriptionTimeline xs) \<Longrightarrow>
       \<exists>y \<in> set (filter usable_segment xs). sg_StartAt y = sg_StartAt x \<and> seg_owner y = seg_owner x"
proof -
  let ?us = "filter usable_segment xs"
  let ?s = "sort_key segment_order ?us"
  have ms: "mset ?s = mset ?us" by simp
  note c = count_perm [OF ms]
  have a: "alone ?s" using assms c(1) by (simp add: alone_def)
  have "sorted_wrt (\<lambda>x y. segment_order x \<le> segment_order y) ?s"
    using sorted_sort_key [of segment_order ?us] by (simp add: sorted_map)
  then have o: "sorted_wrt (\<lambda>x y. sg_StartAt x \<le> sg_StartAt y) ?s"
    by (rule sorted_wrt_mono_rel [rotated]) (auto simp: segment_order_def less_eq_prod_def)
  have "\<forall>x \<in> set ?s. usable_segment x" by simp
  note m = merge_fold [of "[]" ?s, unfolded append_Nil, OF this a o, folded normalizeSubscriptionTimeline_def]
  show run: "running P t (normalizeSubscriptionTimeline xs) = running P t ?us" for P t
    using m [of P t] c(1) by simp
  show "paid P (normalizeSubscriptionTimeline xs) = paid P ?us" using m c(2) by simp
  show "x \<in> set (normalizeSubscriptionTimeline xs) \<Longrightarrow> \<exists>y \<in> set ?us. sg_StartAt y = sg_StartAt x \<and> seg_owner y = seg_owner x"
    using m by (auto simp: Bex_def)
  have "alone (normalizeSubscriptionTimeline xs)" using assms run by (simp add: alone_def)
  then show "timeline (normalizeSubscriptionTimeline xs)" using m by (intro alone_follow) auto
qed

section \<open>Allocating a piece\<close>

text \<open>A waiting grant that came out of a segment.\<close>

definition good_grant :: "nat \<Rightarrow> timeline_grant \<Rightarrow> bool" where
  "good_grant rank g \<longleftrightarrow> gr_Rank g < rank \<and> 0 < gr_Duration g \<and> in_int64 (gr_Duration g) \<and> gr_PlanID g \<noteq> 0 \<and> gr_PriceID g \<noteq> 0"

text \<open>At the moment \<open>t\<close> a plan of at least this rank runs.\<close>

definition served :: "segment list \<Rightarrow> gotime \<Rightarrow> nat \<Rightarrow> bool" where
  "served xs t r \<longleftrightarrow> (\<exists>y \<in> set xs. covers t y \<and> r \<le> sg_Rank y)"

lemma served_running: "served xs t r \<longleftrightarrow> 0 < running (\<lambda>k. r \<le> fst k) t xs"
  by (auto simp: served_def running_pos seg_owner_def)

lemma split_segment_effects:
  assumes "usable_segment x" "usable_segment a" "in_int64 (sg_EndAt a - sg_StartAt a)"
    and "\<forall>t. covers t a \<longrightarrow> covers t x \<longrightarrow> sg_Rank x < sg_Rank a"
  shows "running P t (fst (split_segment a x)) = (if covers t a then 0 else running P t [x])"
    "paid P (fst (split_segment a x)) + owed P (snd (split_segment a x)) = paid P [x]"
    "y \<in> set (fst (split_segment a x)) \<Longrightarrow> usable_segment y \<and> seg_owner y = seg_owner x \<and>
       (sg_StartAt y = sg_StartAt x \<or>
        (sg_StartAt y = sg_EndAt a \<and> sg_StartAt a < sg_EndAt x \<and> sg_Rank x < sg_Rank a))"
    "g \<in> set (snd (split_segment a x)) \<Longrightarrow> good_grant (sg_Rank a) g \<and> gr_Rank g = sg_Rank x \<and>
       gr_StartAt g = max (sg_EndAt a) (sg_EndAt x) \<and> sg_StartAt a < sg_EndAt x"
proof -
  have c: "time_sub (minTime (sg_EndAt x) (sg_EndAt a)) (maxTime (sg_StartAt x) (sg_StartAt a)) =
      minTime (sg_EndAt x) (sg_EndAt a) - maxTime (sg_StartAt x) (sg_StartAt a)"
    if "subscriptionTimelineOverlaps x a"
    using that assms(3) by (auto simp: time_sub_def clamp_int64_def minTime_def maxTime_def subscriptionTimelineOverlaps_def int64_defs)
  show "running P t (fst (split_segment a x)) = (if covers t a then 0 else running P t [x])"
    using assms(1,2) spec [OF assms(4), of t] by (auto simp: split_segment_def Let_def seg_owner_def covers_def usable_segment_def
      subscriptionTimelineOverlaps_def minTime_def maxTime_def)
  show "paid P (fst (split_segment a x)) + owed P (snd (split_segment a x)) = paid P [x]"
    using assms(1,2) c by (auto simp: split_segment_def Let_def seg_owner_def gr_owner_def usable_segment_def
      subscriptionTimelineOverlaps_def minTime_def maxTime_def)
  show "y \<in> set (fst (split_segment a x)) \<Longrightarrow> usable_segment y \<and> seg_owner y = seg_owner x \<and>
       (sg_StartAt y = sg_StartAt x \<or>
        (sg_StartAt y = sg_EndAt a \<and> sg_StartAt a < sg_EndAt x \<and> sg_Rank x < sg_Rank a))"
  proof -
    assume y: "y \<in> set (fst (split_segment a x))"
    have "list_all (\<lambda>y. seg_owner y = seg_owner x \<and> sg_PlanID y = sg_PlanID x \<and> sg_PriceID y = sg_PriceID x \<and>
        ((sg_StartAt y = sg_StartAt x \<and> (sg_EndAt y = sg_EndAt x \<or> sg_EndAt y = maxTime (sg_StartAt x) (sg_StartAt a) \<and>
          sg_StartAt x < maxTime (sg_StartAt x) (sg_StartAt a))) \<or>
        (subscriptionTimelineOverlaps x a \<and> minTime (sg_EndAt x) (sg_EndAt a) < sg_EndAt x \<and> sg_Rank x < sg_Rank a \<and>
         sg_StartAt y = minTime (sg_EndAt x) (sg_EndAt a) \<and> sg_EndAt y = sg_EndAt x))) (fst (split_segment a x))"
      by (simp add: split_segment_def Let_def seg_owner_def)
    then have own: "seg_owner y = seg_owner x" "sg_PlanID y = sg_PlanID x" "sg_PriceID y = sg_PriceID x"
      and b: "(sg_StartAt y = sg_StartAt x \<and> (sg_EndAt y = sg_EndAt x \<or> sg_EndAt y = maxTime (sg_StartAt x) (sg_StartAt a) \<and>
          sg_StartAt x < maxTime (sg_StartAt x) (sg_StartAt a))) \<or>
        (subscriptionTimelineOverlaps x a \<and> minTime (sg_EndAt x) (sg_EndAt a) < sg_EndAt x \<and> sg_Rank x < sg_Rank a \<and>
         sg_StartAt y = minTime (sg_EndAt x) (sg_EndAt a) \<and> sg_EndAt y = sg_EndAt x)"
      using y by (simp_all add: list_all_iff)
    have min: "minTime (sg_EndAt x) (sg_EndAt a) < sg_EndAt x \<Longrightarrow> minTime (sg_EndAt x) (sg_EndAt a) = sg_EndAt a"
      by (simp add: minTime_def split: if_splits)
    show ?thesis
      using b own(1-3) assms(1) min by (elim disjE conjE) (simp_all add: usable_segment_def subscriptionTimelineOverlaps_def)
  qed
  show "g \<in> set (snd (split_segment a x)) \<Longrightarrow> good_grant (sg_Rank a) g \<and> gr_Rank g = sg_Rank x \<and>
       gr_StartAt g = max (sg_EndAt a) (sg_EndAt x) \<and> sg_StartAt a < sg_EndAt x"
  proof -
    assume g: "g \<in> set (snd (split_segment a x))"
    then have o: "subscriptionTimelineOverlaps x a" "sg_Rank x < sg_Rank a"
      by (auto simp: split_segment_def split: if_splits)
    have d: "gr_Duration g = minTime (sg_EndAt x) (sg_EndAt a) - maxTime (sg_StartAt x) (sg_StartAt a)"
      "gr_Rank g = sg_Rank x" "gr_PlanID g = sg_PlanID x" "gr_PriceID g = sg_PriceID x"
      "gr_StartAt g = maxTime (sg_EndAt a) (sg_EndAt x)"
      using g o c by (auto simp: split_segment_def Let_def split: if_splits)
    have "0 < gr_Duration g" "gr_Duration g \<le> sg_EndAt a - sg_StartAt a"
      using o(1) assms(1,2) unfolding d(1) by (auto simp: subscriptionTimelineOverlaps_def usable_segment_def minTime_def maxTime_def)
    then show ?thesis using d o assms(1-3)
      by (simp add: good_grant_def usable_segment_def int64_defs maxTime_def max_def subscriptionTimelineOverlaps_def)
  qed
qed

lemma concat_split_effects:
  assumes "\<forall>x \<in> set xs. usable_segment x" "usable_segment a" "in_int64 (sg_EndAt a - sg_StartAt a)"
    and "\<forall>x \<in> set xs. \<forall>t. covers t a \<longrightarrow> covers t x \<longrightarrow> sg_Rank x < sg_Rank a"
  shows "running P t (concat (map (fst \<circ> split_segment a) xs)) = (if covers t a then 0 else running P t xs) \<and>
    paid P (concat (map (fst \<circ> split_segment a) xs)) + owed P (concat (map (snd \<circ> split_segment a) xs)) = paid P xs"
  using assms(1,4)
proof (induction xs)
  case (Cons x xs)
  have low: "\<forall>t. covers t a \<longrightarrow> covers t x \<longrightarrow> sg_Rank x < sg_Rank a" using Cons.prems(2) by simp
  have us: "usable_segment x" using Cons.prems(1) by simp
  note e = split_segment_effects(1,2) [OF us assms(2,3) low, where P = P]
  have "running P t (concat (map (fst \<circ> split_segment a) xs)) = (if covers t a then 0 else running P t xs) \<and>
    paid P (concat (map (fst \<circ> split_segment a) xs)) + owed P (concat (map (snd \<circ> split_segment a) xs)) = paid P xs"
    using Cons.prems by (intro Cons.IH) auto
  then show ?case using e(1) [where t = t] e(2) by (simp add: comp_def)
qed simp

lemma insert_effects:
  assumes tl: "timeline xs" and a: "usable_segment a" "in_int64 (sg_EndAt a - sg_StartAt a)"
    and free: "\<forall>x \<in> set xs. sg_Rank a \<le> sg_Rank x \<longrightarrow> \<not> subscriptionTimelineOverlaps x a"
    and ins: "insertSubscriptionTimelineSegment xs a = (xs', moved)"
  shows "timeline xs'"
    "paid P xs' + owed P moved = paid P xs + (if P (seg_owner a) then sg_EndAt a - sg_StartAt a else 0)"
    "served xs t r \<Longrightarrow> served xs' t r" "covers t a \<Longrightarrow> served xs' t (sg_Rank a)"
    "\<forall>g \<in> set moved. good_grant (sg_Rank a) g"
    "z \<in> set xs' \<Longrightarrow> (sg_StartAt z = sg_StartAt a \<and> sg_Rank z = sg_Rank a) \<or>
       (\<exists>x \<in> set xs. sg_Rank z = sg_Rank x \<and> (sg_StartAt z = sg_StartAt x \<or>
         (sg_StartAt z = sg_EndAt a \<and> sg_StartAt a < sg_EndAt x \<and> sg_Rank x < sg_Rank a)))"
    "g \<in> set moved \<Longrightarrow> \<exists>x \<in> set xs. gr_Rank g = sg_Rank x \<and> sg_Rank x < sg_Rank a \<and>
       gr_StartAt g = max (sg_EndAt a) (sg_EndAt x) \<and> sg_StartAt a < sg_EndAt x"
proof -
  let ?N = "concat (map (fst \<circ> split_segment a) xs) @ [a]"
  have us: "\<forall>x \<in> set xs. usable_segment x" using tl by (simp add: timeline_def)
  have low: "\<forall>x \<in> set xs. \<forall>t. covers t a \<longrightarrow> covers t x \<longrightarrow> sg_Rank x < sg_Rank a"
  proof (intro ballI allI impI)
    fix x t
    assume x: "x \<in> set xs" and t: "covers t a" "covers t x"
    from t have "subscriptionTimelineOverlaps x a" by (simp add: subscriptionTimelineOverlaps_def covers_def)
    then show "sg_Rank x < sg_Rank a" using free x by (metis not_le)
  qed
  have c: "running P t (concat (map (fst \<circ> split_segment a) xs)) = (if covers t a then 0 else running P t xs)"
    "paid P (concat (map (fst \<circ> split_segment a) xs)) + owed P (concat (map (snd \<circ> split_segment a) xs)) = paid P xs" for P t
    using concat_split_effects [OF us a low] by simp_all
  have sp: "y \<in> set (fst (split_segment a x)) \<Longrightarrow> usable_segment y \<and> seg_owner y = seg_owner x \<and>
       (sg_StartAt y = sg_StartAt x \<or> (sg_StartAt y = sg_EndAt a \<and> sg_StartAt a < sg_EndAt x \<and> sg_Rank x < sg_Rank a))"
    "g \<in> set (snd (split_segment a x)) \<Longrightarrow> good_grant (sg_Rank a) g \<and> gr_Rank g = sg_Rank x \<and>
       gr_StartAt g = max (sg_EndAt a) (sg_EndAt x) \<and> sg_StartAt a < sg_EndAt x" if "x \<in> set xs" for x y g
    using split_segment_effects(3,4) [OF _ a, of x] us low that by simp_all
  have usN: "\<forall>z \<in> set ?N. usable_segment z" using sp(1) a(1) by auto
  then have fil: "filter usable_segment ?N = ?N" by (simp only: filter_id_conv)
  have run: "running P t ?N = (if covers t a then (if P (seg_owner a) then 1 else 0) else running P t xs)" for P t
    using c(1) [where P = P and t = t] by simp
  have "alone ?N" using timeline_alone [OF tl] unfolding alone_def run by simp
  then have al: "alone (filter usable_segment ?N)" unfolding fil .
  have xs': "xs' = normalizeSubscriptionTimeline ?N" "moved = concat (map (snd \<circ> split_segment a) xs)"
    using ins by (simp_all add: insertSubscriptionTimelineSegment_def)
  note n = normalize_effects [OF al, folded xs'(1), unfolded fil]
  show "timeline xs'" by (rule n(1))
  show "paid P xs' + owed P moved = paid P xs + (if P (seg_owner a) then sg_EndAt a - sg_StartAt a else 0)"
    using n(3) [where P = P] c(2) [where P = P] xs'(2) by simp
  show cov: "covers t a \<Longrightarrow> served xs' t (sg_Rank a)" for t
    using n(2) run by (simp add: served_running seg_owner_def)
  show "served xs t r \<Longrightarrow> served xs' t r"
  proof (cases "covers t a")
    case True
    assume "served xs t r"
    then obtain y where "y \<in> set xs" "covers t y" "r \<le> sg_Rank y" by (auto simp: served_def)
    then show ?thesis using cov [OF True] low True by (fastforce simp: served_def)
  next
    case False
    assume "served xs t r"
    then show ?thesis using n(2) run False by (simp add: served_running)
  qed
  show "\<forall>g \<in> set moved. good_grant (sg_Rank a) g" using sp(2) by (auto simp: xs'(2))
  show "z \<in> set xs' \<Longrightarrow> (sg_StartAt z = sg_StartAt a \<and> sg_Rank z = sg_Rank a) \<or>
       (\<exists>x \<in> set xs. sg_Rank z = sg_Rank x \<and> (sg_StartAt z = sg_StartAt x \<or>
         (sg_StartAt z = sg_EndAt a \<and> sg_StartAt a < sg_EndAt x \<and> sg_Rank x < sg_Rank a)))"
  proof -
    assume "z \<in> set xs'"
    from n(4) [OF this] obtain y where y: "y \<in> set ?N" "sg_StartAt y = sg_StartAt z" "seg_owner y = seg_owner z" by blast
    show ?thesis
    proof (cases "y = a")
      case True
      then show ?thesis using y by (simp add: seg_owner_def)
    next
      case False
      then obtain x where x: "x \<in> set xs" "y \<in> set (fst (split_segment a x))" using y(1) by auto
      then show ?thesis using sp(1) [of x y] y(2,3) by (intro disjI2 bexI [of _ x]) (auto simp: seg_owner_def)
    qed
  qed
  show "g \<in> set moved \<Longrightarrow> \<exists>x \<in> set xs. gr_Rank g = sg_Rank x \<and> sg_Rank x < sg_Rank a \<and>
       gr_StartAt g = max (sg_EndAt a) (sg_EndAt x) \<and> sg_StartAt a < sg_EndAt x"
  proof -
    assume "g \<in> set moved"
    then obtain x where x: "x \<in> set xs" "g \<in> set (snd (split_segment a x))" by (auto simp: xs'(2))
    then show ?thesis using sp(2) [of x g] by (intro bexI [of _ x]) (auto simp: good_grant_def)
  qed
qed

section \<open>Placing a grant\<close>

text \<open>
  From the moment \<open>n\<close> on no one is kept waiting by a lower rank: before a segment starts, and before a
  waiting grant may start, a plan of at least its rank runs.
\<close>

definition packed :: "gotime \<Rightarrow> segment list \<Rightarrow> bool" where
  "packed n xs \<longleftrightarrow> (\<forall>x \<in> set xs. \<forall>t. n \<le> t \<longrightarrow> t < sg_StartAt x \<longrightarrow> served xs t (sg_Rank x))"

definition waits :: "gotime \<Rightarrow> segment list \<Rightarrow> timeline_grant list \<Rightarrow> bool" where
  "waits n xs gs \<longleftrightarrow> (\<forall>g \<in> set gs. \<forall>t. n \<le> t \<longrightarrow> t < gr_StartAt g \<longrightarrow> served xs t (gr_Rank g))"

lemma insert_packed:
  assumes tl: "timeline xs" and a: "usable_segment a" "in_int64 (sg_EndAt a - sg_StartAt a)"
    and free: "\<forall>x \<in> set xs. sg_Rank a \<le> sg_Rank x \<longrightarrow> \<not> subscriptionTimelineOverlaps x a"
    and ins: "insertSubscriptionTimelineSegment xs a = (xs', moved)"
    and "packed n xs" "waits n xs gs" "\<forall>t. n \<le> t \<longrightarrow> t < sg_StartAt a \<longrightarrow> served xs t (sg_Rank a)"
  shows "packed n xs'" "waits n xs' (gs @ moved)"
proof -
  note e = insert_effects [OF tl a free ins]
  have le: "served xs' t r" if "served xs' t r'" "r \<le> r'" for t r r' using that by (auto simp: served_def intro: le_trans)
  have item: "served xs' t (sg_Rank x)" if x: "x \<in> set xs" "sg_Rank x < sg_Rank a" "sg_StartAt a < sg_EndAt x"
    and t: "n \<le> t" "t < max (sg_EndAt a) (sg_EndAt x)" for x t
  proof (cases "t < sg_EndAt x")
    case True
    have "served xs t (sg_Rank x)"
    proof (cases "t < sg_StartAt x")
      case True
      then show ?thesis using assms(6) x(1) t(1) by (simp add: packed_def)
    next
      case False
      then have "covers t x" using True by (simp add: covers_def)
      then show ?thesis using x(1) by (auto simp: served_def)
    qed
    then show ?thesis by (rule e(3))
  next
    case False
    then have "covers t a" using t(2) x(3) by (auto simp: covers_def max_def split: if_splits)
    then show ?thesis using e(4) le x(2) by (meson less_imp_le)
  qed
  show "packed n xs'"
    unfolding packed_def
  proof (intro ballI allI impI)
    fix z t
    assume z: "z \<in> set xs'" and t: "n \<le> t" "t < sg_StartAt z"
    from e(6) [OF z] consider (new) "sg_StartAt z = sg_StartAt a" "sg_Rank z = sg_Rank a"
      | (old) x where "x \<in> set xs" "sg_Rank z = sg_Rank x" "sg_StartAt z = sg_StartAt x"
      | (cut) x where "x \<in> set xs" "sg_Rank z = sg_Rank x" "sg_StartAt z = sg_EndAt a" "sg_StartAt a < sg_EndAt x"
          "sg_Rank x < sg_Rank a" by blast
    then show "served xs' t (sg_Rank z)"
    proof cases
      case new
      then show ?thesis using assms(8) t e(3) by simp
    next
      case old
      then show ?thesis using assms(6) t e(3) by (simp add: packed_def)
    next
      case cut
      then show ?thesis using item [of x t] t by simp
    qed
  qed
  show "waits n xs' (gs @ moved)"
    unfolding waits_def
  proof (intro ballI allI impI)
    fix g t
    assume g: "g \<in> set (gs @ moved)" and t: "n \<le> t" "t < gr_StartAt g"
    show "served xs' t (gr_Rank g)"
    proof (cases "g \<in> set gs")
      case True
      then show ?thesis using assms(7) t e(3) by (simp add: waits_def)
    next
      case False
      then obtain x where "x \<in> set xs" "gr_Rank g = sg_Rank x" "sg_Rank x < sg_Rank a"
        "gr_StartAt g = max (sg_EndAt a) (sg_EndAt x)" "sg_StartAt a < sg_EndAt x"
        using g e(7) by auto
      then show ?thesis using item [of x t] t by simp
    qed
  qed
qed

text \<open>Where the loop allocates, no plan of the grant's rank or above runs.\<close>

lemma piece_is_free:
  assumes "free_at xs rank cursor" "timeline xs" "x \<in> set xs" "rank \<le> sg_Rank x"
    and "sg_StartAt a = cursor" "sg_EndAt a = piece_end (nextSubscriptionTimelineBlocker xs rank cursor) cursor remaining"
  shows "\<not> subscriptionTimelineOverlaps x a"
proof
  assume o: "subscriptionTimelineOverlaps x a"
  then have x: "cursor < sg_EndAt x" "sg_StartAt x < sg_EndAt a" using assms(5) by (simp_all add: subscriptionTimelineOverlaps_def)
  then obtain b where b: "nextSubscriptionTimelineBlocker xs rank cursor = Some b"
    using no_blocker [of xs rank cursor] assms(3,4) by (cases "nextSubscriptionTimelineBlocker xs rank cursor") force+
  have "sg_StartAt b \<le> sg_StartAt x" using blocker_found(4) [OF b assms(3,4) x(1)] .
  moreover have "sg_EndAt a \<le> sg_StartAt b" using assms(6) b by (simp add: piece_end_def)
  ultimately show False using x(2) by simp
qed

lemma timeline_normalize:
  assumes "timeline xs"
  shows "timeline (normalizeSubscriptionTimeline xs)" "paid P (normalizeSubscriptionTimeline xs) = paid P xs"
    "served (normalizeSubscriptionTimeline xs) t r \<longleftrightarrow> served xs t r" "packed n xs \<Longrightarrow> packed n (normalizeSubscriptionTimeline xs)"
    "waits n xs gs \<Longrightarrow> waits n (normalizeSubscriptionTimeline xs) gs"
proof -
  have f: "filter usable_segment xs = xs" using assms by (simp add: timeline_def filter_id_conv)
  have "alone (filter usable_segment xs)" using timeline_alone [OF assms] by (simp only: f)
  note n = normalize_effects [OF this, unfolded f]
  show "timeline (normalizeSubscriptionTimeline xs)" "paid P (normalizeSubscriptionTimeline xs) = paid P xs" by (rule n)+
  show served: "served (normalizeSubscriptionTimeline xs) t r \<longleftrightarrow> served xs t r" for t r by (simp add: served_running n(2))
  show "packed n xs \<Longrightarrow> packed n (normalizeSubscriptionTimeline xs)"
    unfolding packed_def served using n(4) by (metis Pair_inject seg_owner_def)
  show "waits n xs gs \<Longrightarrow> waits n (normalizeSubscriptionTimeline xs) gs" by (simp add: waits_def served)
qed

lemma timeline_normalize_running:
  assumes "timeline xs"
  shows "running P t (normalizeSubscriptionTimeline xs) = running P t xs"
    "x \<in> set (normalizeSubscriptionTimeline xs) \<Longrightarrow> \<exists>y \<in> set xs. seg_owner y = seg_owner x"
proof -
  have f: "filter usable_segment xs = xs" using assms by (simp add: timeline_def filter_id_conv)
  have "alone (filter usable_segment xs)" using timeline_alone [OF assms] by (simp only: f)
  note n = normalize_effects [OF this, unfolded f]
  show "running P t (normalizeSubscriptionTimeline xs) = running P t xs" by (rule n(2))
  show "x \<in> set (normalizeSubscriptionTimeline xs) \<Longrightarrow> \<exists>y \<in> set xs. seg_owner y = seg_owner x" using n(4) by blast
qed

lemma place_loop_effects:
  assumes "timeline segments" "in_int64 remaining" "0 \<le> remaining" "gr_PlanID grant \<noteq> 0" "gr_PriceID grant \<noteq> 0"
    and "place_loop grant segments displaced remaining cursor = (segments', displaced')"
  shows "timeline segments' \<and>
    paid P segments' + owed P displaced' = paid P segments + owed P displaced + (if P (gr_owner grant) then remaining else 0) \<and>
    (\<forall>t r. served segments t r \<longrightarrow> served segments' t r) \<and>
    (\<forall>g \<in> set displaced'. g \<in> set displaced \<or> good_grant (gr_Rank grant) g) \<and>
    (packed n segments \<longrightarrow> waits n segments displaced \<longrightarrow> (\<forall>t. n \<le> t \<longrightarrow> t < cursor \<longrightarrow> served segments t (gr_Rank grant)) \<longrightarrow>
       packed n segments' \<and> waits n segments' displaced')"
  using assms(1-3,6)
proof (induction segments displaced remaining cursor rule: place_loop_induct [where grant = grant])
  case (finish segments displaced remaining cursor)
  then have "segments' = normalizeSubscriptionTimeline segments" "displaced' = displaced" "remaining = 0"
    by (simp_all add: place_loop_turns(1))
  then show ?case using timeline_normalize [OF finish(2)] by simp
next
  case (skip segments displaced remaining cursor b)
  note b = blocker_found [OF skip(2)]
  have p: "place_loop grant segments displaced remaining (sg_EndAt b) = (segments', displaced')"
    using skip.prems(4) place_loop_turns(2) [OF skip(1-3)] by simp
  have "served segments t (gr_Rank grant)" if "\<forall>t. n \<le> t \<longrightarrow> t < cursor \<longrightarrow> served segments t (gr_Rank grant)" "n \<le> t" "t < sg_EndAt b" for t
  proof (cases "t < cursor")
    case False
    then have "covers t b" using that(3) skip(3) by (simp add: covers_def)
    then show ?thesis using b(1,2) by (auto simp: served_def)
  qed (use that in simp)
  then show ?case using skip.IH [OF skip.prems(1-3) p] by blast
next
  case (piece segments displaced remaining cursor endAt segments1 moved)
  let ?a = "allocate grant cursor endAt"
  have len: "cursor < endAt" "endAt \<le> cursor + remaining"
    using piece_end_after [of remaining cursor "nextSubscriptionTimelineBlocker segments (gr_Rank grant) cursor"] piece(1-3)
    by (simp_all add: free_at_def)
  note rem = remaining_decreases(2) [OF piece(1) len piece.prems(2)]
  have a: "usable_segment ?a" "in_int64 (sg_EndAt ?a - sg_StartAt ?a)" "sg_Rank ?a = gr_Rank grant" "seg_owner ?a = gr_owner grant"
    "sg_StartAt ?a = cursor" "sg_EndAt ?a = endAt"
    using len piece.prems(2) assms(4,5) by (simp_all add: allocate_def usable_segment_def int64_defs seg_owner_def gr_owner_def)
  have free: "\<forall>x \<in> set segments. sg_Rank ?a \<le> sg_Rank x \<longrightarrow> \<not> subscriptionTimelineOverlaps x ?a"
    using piece_is_free [OF piece(2) piece.prems(1)] a piece(3) by simp
  note e = insert_effects [OF piece.prems(1) a(1,2) free piece(4)]
  have p: "place_loop grant segments1 (displaced @ moved) (wrap64 (remaining - time_sub endAt cursor)) endAt = (segments', displaced')"
    using piece.prems(4) place_loop_turns(3) [OF piece(1-4)] by simp
  have i: "in_int64 (wrap64 (remaining - time_sub endAt cursor))" "0 \<le> wrap64 (remaining - time_sub endAt cursor)"
    by (rule wrap64_range) (use rem len in simp)
  note IH = piece.IH [OF e(1) i p]
  have "packed n segments' \<and> waits n segments' displaced'" if pk: "packed n segments" "waits n segments displaced"
    "\<forall>t. n \<le> t \<longrightarrow> t < cursor \<longrightarrow> served segments t (gr_Rank grant)"
  proof -
    have "\<forall>t. n \<le> t \<longrightarrow> t < sg_StartAt ?a \<longrightarrow> served segments t (sg_Rank ?a)" using pk(3) a by simp
    note ip = insert_packed [OF piece.prems(1) a(1,2) free piece(4) pk(1,2) this]
    have "served segments1 t (gr_Rank grant)" if "n \<le> t" "t < endAt" for t
      using that pk(3) e(3,4) a by (cases "t < cursor") (auto simp: covers_def)
    then show ?thesis using IH ip by blast
  qed
  moreover have "paid P segments' + owed P displaced' = paid P segments + owed P displaced + (if P (gr_owner grant) then remaining else 0)"
    using IH e(2) [where P = P] a(4-6) rem by (auto split: if_splits)
  moreover have "\<forall>g \<in> set displaced'. g \<in> set displaced \<or> good_grant (gr_Rank grant) g"
    using IH e(5) a(3) by auto
  ultimately show ?case using IH e(3) by blast
qed

section \<open>The whole timeline\<close>

lemma place_effects:
  assumes "timeline segments" "0 < gr_Duration g" "in_int64 (gr_Duration g)" "gr_PlanID g \<noteq> 0" "gr_PriceID g \<noteq> 0"
  obtains segments' displaced where "placeSubscriptionTimelineGrant segments g = Inr (segments', displaced)" "timeline segments'"
    "\<And>P. paid P segments' + owed P displaced = paid P segments + owed P [g]"
    "\<And>t r. served segments t r \<Longrightarrow> served segments' t r" "\<forall>h \<in> set displaced. good_grant (gr_Rank g) h"
    "packed n segments \<Longrightarrow> \<forall>t. n \<le> t \<longrightarrow> t < gr_StartAt g \<longrightarrow> served segments t (gr_Rank g) \<Longrightarrow>
       packed n segments' \<and> waits n segments' displaced"
proof -
  obtain segments' displaced where l: "place_loop g (normalizeSubscriptionTimeline segments) [] (gr_Duration g) (gr_StartAt g) =
    (segments', displaced)" by fastforce
  note n = timeline_normalize [OF assms(1)]
  note e = place_loop_effects [OF n(1) assms(3) less_imp_le [OF assms(2)] assms(4,5) l]
  show ?thesis
  proof
    show "placeSubscriptionTimelineGrant segments g = Inr (segments', displaced)"
      using l assms(2) by (simp add: placeSubscriptionTimelineGrant_def)
    show "timeline segments'" using e by blast
    show "paid P segments' + owed P displaced = paid P segments + owed P [g]" for P
      using e [where P = P] n(2) by simp
    show "served segments t r \<Longrightarrow> served segments' t r" for t r using e n(3) by blast
    show "\<forall>h \<in> set displaced. good_grant (gr_Rank g) h" using e by simp
    show "packed n segments \<Longrightarrow> \<forall>t. n \<le> t \<longrightarrow> t < gr_StartAt g \<longrightarrow> served segments t (gr_Rank g) \<Longrightarrow>
       packed n segments' \<and> waits n segments' displaced"
      using e [where n = n] n(3,4) by (simp add: waits_def)
  qed
qed

lemma build_loop_effects:
  assumes "timeline segments" "\<forall>g \<in> set queue. 0 < gr_Duration g \<and> in_int64 (gr_Duration g) \<and> gr_PlanID g \<noteq> 0 \<and> gr_PriceID g \<noteq> 0"
  shows "\<exists>segments'. build_loop segments queue = Inr segments' \<and> timeline segments' \<and>
    (\<forall>P. paid P segments' = paid P segments + owed P queue) \<and> (\<forall>t r. served segments t r \<longrightarrow> served segments' t r) \<and>
    (packed n segments \<longrightarrow> waits n segments queue \<longrightarrow> packed n segments')"
  using assms
proof (induction segments queue rule: build_loop.induct)
  case (1 segments)
  then show ?case using timeline_normalize [OF 1(1)] by simp
next
  case (2 segments g queue)
  have g: "0 < gr_Duration g" "in_int64 (gr_Duration g)" "gr_PlanID g \<noteq> 0" "gr_PriceID g \<noteq> 0" using "2.prems"(2) by simp_all
  obtain segments1 displaced where p: "placeSubscriptionTimelineGrant segments g = Inr (segments1, displaced)" "timeline segments1"
    "\<And>P. paid P segments1 + owed P displaced = paid P segments + owed P [g]"
    "\<And>t r. served segments t r \<Longrightarrow> served segments1 t r" "\<forall>h \<in> set displaced. good_grant (gr_Rank g) h"
    "packed n segments \<Longrightarrow> \<forall>t. n \<le> t \<longrightarrow> t < gr_StartAt g \<longrightarrow> served segments t (gr_Rank g) \<Longrightarrow>
       packed n segments1 \<and> waits n segments1 displaced"
    using place_effects [OF "2.prems"(1) g, of n] by metis
  have q: "\<forall>h \<in> set (displaced @ queue). 0 < gr_Duration h \<and> in_int64 (gr_Duration h) \<and> gr_PlanID h \<noteq> 0 \<and> gr_PriceID h \<noteq> 0"
    using p(5) "2.prems"(2) by (auto simp: good_grant_def)
  obtain segments' where i: "build_loop segments1 (displaced @ queue) = Inr segments'" "timeline segments'"
    "\<forall>P. paid P segments' = paid P segments1 + owed P (displaced @ queue)" "\<forall>t r. served segments1 t r \<longrightarrow> served segments' t r"
    "packed n segments1 \<longrightarrow> waits n segments1 (displaced @ queue) \<longrightarrow> packed n segments'"
    using "2.IH" [OF p(1) refl p(2) q] by blast
  have "paid P segments' = paid P segments + owed P (g # queue)" for P
    using i(3) p(3) [of P] by simp
  moreover have "packed n segments'" if "packed n segments" "waits n segments (g # queue)"
  proof -
    have "packed n segments1 \<and> waits n segments1 displaced" using p(6) that by (simp add: waits_def)
    moreover have "waits n segments1 queue" using that(2) p(4) by (simp add: waits_def)
    ultimately show ?thesis using i(5) by (auto simp: waits_def)
  qed
  ultimately show ?case using i p(1,4) by auto
qed

text \<open>A grant the callers make: positive 64-bit time, for a plan and price that exist.\<close>

definition grant_ok :: "timeline_grant \<Rightarrow> bool" where
  "grant_ok g \<longleftrightarrow> 0 < gr_Duration g \<and> in_int64 (gr_Duration g) \<and> gr_PlanID g \<noteq> 0 \<and> gr_PriceID g \<noteq> 0"

lemma grant_queue:
  "grant_ok g \<Longrightarrow> \<forall>h \<in> set [g]. 0 < gr_Duration h \<and> in_int64 (gr_Duration h) \<and> gr_PlanID h \<noteq> 0 \<and> gr_PriceID h \<noteq> 0"
  by (simp add: grant_ok_def)

lemma paid_time_conserved_segments:
  assumes "alone (filter usable_segment existing)" and "grant_ok grant"
  shows "\<exists>segments. buildSubscriptionTimeline existing grant = Inr segments \<and> timeline segments \<and>
    (\<forall>P. paid P segments = paid P (filter usable_segment existing) + (if P (gr_owner grant) then gr_Duration grant else 0)) \<and>
    (\<forall>t r. served (filter usable_segment existing) t r \<longrightarrow> served segments t r)"
proof -
  note n = normalize_effects [OF assms(1)]
  obtain segments where "build_loop (normalizeSubscriptionTimeline existing) [grant] = Inr segments" "timeline segments"
    "\<forall>P. paid P segments = paid P (normalizeSubscriptionTimeline existing) + owed P [grant]"
    "\<forall>t r. served (normalizeSubscriptionTimeline existing) t r \<longrightarrow> served segments t r"
    using build_loop_effects [OF n(1) grant_queue [OF assms(2)]] by blast
  then show ?thesis
    using n(2,3) assms(2) by (simp add: buildSubscriptionTimeline_def grant_ok_def served_running)
qed

text \<open>
  C3: no paid time is lost or doubled by a new subscription. When of the existing segments
  at most one runs at a time, the new timeline exists, its segments follow one another, and every
  subscription, plan and price keeps exactly the time it had, plus the new grant's duration for its own;
  whenever some plan of a rank ran before, a plan of at least that rank runs now.
\<close>

theorem paid_time_conserved:
  assumes "alone (filter usable_segment existing)" and "grant_ok grant"
  shows "\<exists>segments. buildSubscriptionTimeline existing grant = Inr segments \<and> timeline segments \<and>
    (\<forall>P. paid P segments = paid P (filter usable_segment existing) + (if P (gr_owner grant) then gr_Duration grant else 0)) \<and>
    (\<forall>t r. served (filter usable_segment existing) t r \<longrightarrow> served segments t r)"
  using assms by (rule paid_time_conserved_segments)

text \<open>
  The best plan runs first and no time is left idle. If before the grant no segment
  waited, from the grant's start on, for anything but plans of its rank or above, then the same holds for
  the new timeline: from the start of the grant until any segment begins, at every moment a plan of at
  least its rank runs. In particular the new plan starts at once unless a plan of its rank or above runs.
\<close>

theorem higher_plan_first:
  assumes "alone (filter usable_segment existing)" and "grant_ok grant"
    and "packed (gr_StartAt grant) (filter usable_segment existing)"
    and "buildSubscriptionTimeline existing grant = Inr segments" and "x \<in> set segments"
    and "gr_StartAt grant \<le> t" "t < sg_StartAt x"
  shows "\<exists>y \<in> set segments. sg_StartAt y \<le> t \<and> t < sg_EndAt y \<and> sg_Rank x \<le> sg_Rank y"
proof -
  note n = normalize_effects [OF assms(1)]
  have sv: "served (normalizeSubscriptionTimeline existing) t r \<longleftrightarrow> served (filter usable_segment existing) t r" for t r
    by (simp add: served_running n(2))
  have "packed (gr_StartAt grant) (normalizeSubscriptionTimeline existing)"
    using assms(3) n(4) unfolding packed_def sv by (metis Pair_inject seg_owner_def)
  moreover have "waits (gr_StartAt grant) (normalizeSubscriptionTimeline existing) [grant]" by (simp add: waits_def)
  moreover have "build_loop (normalizeSubscriptionTimeline existing) [grant] = Inr segments"
    using assms(2,4) by (simp add: buildSubscriptionTimeline_def grant_ok_def)
  ultimately have "packed (gr_StartAt grant) segments"
    using build_loop_effects [OF n(1) grant_queue [OF assms(2)], of "gr_StartAt grant"] by fastforce
  then show ?thesis using assms(5-7) by (auto simp: packed_def served_def covers_def)
qed

text \<open>A basic plan (rank 1) that runs until 30, and 10 units of a better one (rank 2) granted at 5.\<close>

definition sample_segment :: segment where
  "sample_segment = \<lparr>sg_SubscriptionID = 4, sg_PlanID = 1, sg_PriceID = 1, sg_Rank = 1, sg_StartAt = 5, sg_EndAt = 30,
     sg_CancelAtPeriodEnd = False, sg_AutoRenew = True, sg_NewGrant = False\<rparr>"

definition sample_grant :: timeline_grant where
  "sample_grant = \<lparr>gr_SubscriptionID = 0, gr_PlanID = 2, gr_PriceID = 3, gr_Rank = 2, gr_StartAt = 5, gr_Duration = 10,
     gr_CancelAtPeriodEnd = False, gr_AutoRenew = True, gr_NewGrant = True\<rparr>"

lemma sample_timeline_ok:
  "alone (filter usable_segment [sample_segment])" "grant_ok sample_grant" "packed 5 (filter usable_segment [sample_segment])"
  by (auto simp: alone_def grant_ok_def packed_def sample_segment_def sample_grant_def usable_segment_def int64_defs)

lemma sample_timeline:
  "buildSubscriptionTimeline [sample_segment] sample_grant = Inr [allocate sample_grant 5 15, sample_segment\<lparr>sg_StartAt := 15, sg_EndAt := 40\<rparr>]"
  by code_simp

theorem paid_time_conserved_witness:
  "\<exists>segments. buildSubscriptionTimeline [sample_segment] sample_grant = Inr segments \<and> timeline segments \<and>
     paid (\<lambda>k. fst k = 1) segments = 25 \<and> paid (\<lambda>k. fst k = 2) segments = 10"
proof -
  have "paid (\<lambda>k. fst k = 1) (filter usable_segment [sample_segment]) = 25" "paid (\<lambda>k. fst k = 2) (filter usable_segment [sample_segment]) = 0"
    "fst (gr_owner sample_grant) = 2" "gr_Duration sample_grant = 10"
    by (simp_all add: sample_segment_def sample_grant_def usable_segment_def seg_owner_def gr_owner_def)
  then show ?thesis using paid_time_conserved [OF sample_timeline_ok(1,2)] by auto
qed

theorem higher_plan_first_witness:
  "\<exists>y \<in> set [allocate sample_grant 5 15, sample_segment\<lparr>sg_StartAt := 15, sg_EndAt := 40\<rparr>]. sg_StartAt y \<le> 12 \<and> 12 < sg_EndAt y \<and> 1 \<le> sg_Rank y"
proof -
  have "packed (gr_StartAt sample_grant) (filter usable_segment [sample_segment])"
    using sample_timeline_ok(3) by (simp add: sample_grant_def)
  from higher_plan_first [OF sample_timeline_ok(1,2) this sample_timeline, of "sample_segment\<lparr>sg_StartAt := 15, sg_EndAt := 40\<rparr>" 12]
  show ?thesis by (simp add: sample_segment_def sample_grant_def)
qed

end
