(* ===== verification/Subscription_Grants.thy ===== *)
theory Subscription_Grants
  imports Billing_Settlement Subscription_Timeline
begin

text \<open>
  Subscriptions in the database (\<open>repository.go\<close>): a grant reads the user's running subscriptions, places
  itself on their timeline and writes the new timeline back: rows are moved, split into new rows or
  expired. The lemmas show that the rows written are the timeline that was built.
\<close>

section \<open>Plans and prices\<close>

definition find_plan :: "nat \<Rightarrow> billing_db \<Rightarrow> billing_plan option" where
  "find_plan planID db = List.find (\<lambda>p. bp_ID p = planID) (db_plans db)"

definition subscriptionPlanRank :: "billing_plan \<Rightarrow> nat" where
  "subscriptionPlanRank plan =
     (if trim_space (bp_Code plan) = ''free'' then 0
      else if 0 < bp_SortOrder plan then nat (bp_SortOrder plan) else bp_ID plan)"

definition appendSubscriptionPlanID :: "subscription list \<Rightarrow> nat \<Rightarrow> nat list" where
  "appendSubscriptionPlanID items planID =
     fold (\<lambda>item ids. if sb_PlanID item = 0 \<or> sb_PlanID item \<in> set ids then ids else ids @ [sb_PlanID item])
       items (if 0 < planID then [planID] else [])"

definition billingPlansForTimeline :: "nat list \<Rightarrow> billing_db \<Rightarrow> repo_error + (nat \<rightharpoonup> billing_plan)" where
  "billingPlansForTimeline planIDs db =
     (if \<exists>i \<in> set planIDs. find_plan i db = None then Inl ErrInvalidInput
      else Inr (\<lambda>i. if i \<in> set planIDs then find_plan i db else None))"

definition price_order :: "billing_price \<Rightarrow> int \<times> nat" where
  "price_order p = (pr_AmountCents p, pr_ID p)"

text \<open>The first row of an ordered query; without an order it is the one of the lowest id.\<close>

definition first_row :: "('a \<Rightarrow> 'k::linorder) \<Rightarrow> 'a list \<Rightarrow> repo_error + 'a" where
  "first_row key rows = (case sort_key key rows of [] \<Rightarrow> Inl ErrNotFound | x # _ \<Rightarrow> Inr x)"

definition activeDefaultPriceForPlan :: "nat \<Rightarrow> billing_db \<Rightarrow> repo_error + billing_price" where
  "activeDefaultPriceForPlan planID db =
     (case first_row pr_ID (filter (\<lambda>p. pr_PlanID p = planID \<and> pr_IsActive p \<and> pr_IsDefault p) (db_prices db)) of
        Inr p \<Rightarrow> Inr p
      | Inl _ \<Rightarrow> first_row price_order (filter (\<lambda>p. pr_PlanID p = planID \<and> pr_IsActive p) (db_prices db)))"

section \<open>Rows of the timeline\<close>

definition update_subscription :: "nat \<Rightarrow> (subscription \<Rightarrow> subscription) \<Rightarrow> billing_db \<Rightarrow> billing_db" where
  "update_subscription i f db = db\<lparr>db_subscriptions := map (\<lambda>x. if sb_ID x = i then f x else x) (db_subscriptions db)\<rparr>"

definition expired_end :: "subscription \<Rightarrow> gotime \<Rightarrow> gotime" where
  "expired_end item now =
     (let endAt = (if now < sb_CurrentPeriodStartAt item then sb_CurrentPeriodStartAt item else now)
      in case sb_CurrentPeriodEndAt item of None \<Rightarrow> endAt | Some e \<Rightarrow> if e < endAt then e else endAt)"

definition expireSubscriptionForTimeline :: "subscription \<Rightarrow> gotime \<Rightarrow> billing_db \<Rightarrow> billing_db" where
  "expireSubscriptionForTimeline item now =
     update_subscription (sb_ID item) (\<lambda>x. x\<lparr>sb_Status := ''expired'', sb_AutoRenew := False, sb_CancelAtPeriodEnd := False,
       sb_CurrentPeriodEndAt := Some (expired_end item now)\<rparr>)"

definition updateSubscriptionSegment :: "subscription \<Rightarrow> segment \<Rightarrow> gotime \<Rightarrow> subscription tx" where
  "updateSubscriptionSegment item seg now db =
     (let startAt = (if sb_CurrentPeriodStartAt item < now \<and> \<not> now < sg_StartAt seg then sb_CurrentPeriodStartAt item
            else sg_StartAt seg);
          recordStartAt = (if sb_StartAt item < startAt \<and> \<not> now < sg_StartAt seg then sb_StartAt item else startAt);
          db' = update_subscription (sb_ID item) (\<lambda>x. x\<lparr>sb_PlanID := sg_PlanID seg, sb_PriceID := sg_PriceID seg,
            sb_Status := ''active'', sb_StartAt := recordStartAt, sb_CurrentPeriodStartAt := startAt,
            sb_CurrentPeriodEndAt := Some (sg_EndAt seg), sb_CancelAtPeriodEnd := sg_CancelAtPeriodEnd seg,
            sb_CanceledAt := None, sb_AutoRenew := sg_AutoRenew seg\<rparr>) db
      in case List.find (\<lambda>x. sb_ID x = sb_ID item) (db_subscriptions db') of
           None \<Rightarrow> Inl ErrNotFound | Some updated \<Rightarrow> Inr (updated, db'))"

definition insert_subscription :: "subscription \<Rightarrow> billing_db \<Rightarrow> subscription \<times> billing_db" where
  "insert_subscription s db =
     (let n = Suc (db_lastID db); s' = s\<lparr>sb_ID := n\<rparr>
      in (s', db\<lparr>db_subscriptions := db_subscriptions db @ [s'], db_lastID := n\<rparr>))"

definition subscription_of_segment :: "nat \<Rightarrow> segment \<Rightarrow> subscription" where
  "subscription_of_segment userID seg = \<lparr>sb_ID = 0, sb_UserID = userID, sb_PlanID = sg_PlanID seg, sb_PriceID = sg_PriceID seg,
     sb_Status = ''active'', sb_StartAt = sg_StartAt seg, sb_CurrentPeriodStartAt = sg_StartAt seg,
     sb_CurrentPeriodEndAt = Some (sg_EndAt seg), sb_CancelAtPeriodEnd = sg_CancelAtPeriodEnd seg, sb_CanceledAt = None,
     sb_AutoRenew = sg_AutoRenew seg\<rparr>"

definition createSubscriptionSegment :: "nat \<Rightarrow> segment \<Rightarrow> subscription tx" where
  "createSubscriptionSegment userID seg db =
     (if userID = 0 \<or> sg_PlanID seg = 0 \<or> sg_PriceID seg = 0 \<or> \<not> sg_StartAt seg < sg_EndAt seg then Inl ErrInvalidInput
      else Inr (insert_subscription (subscription_of_segment userID seg) db))"

fun reusable_from :: "subscription \<Rightarrow> gotime \<Rightarrow> nat \<Rightarrow> segment list \<Rightarrow> nat option" where
  "reusable_from item now index [] = None"
| "reusable_from item now index (target # targets) =
     (if \<not> sg_StartAt target < sg_EndAt target then reusable_from item now (Suc index) targets
      else if sb_CurrentPeriodStartAt item < now \<and> now < sg_StartAt target then reusable_from item now (Suc index) targets
      else Some index)"

definition reusableSubscriptionSegmentIndex :: "subscription \<Rightarrow> segment list \<Rightarrow> gotime \<Rightarrow> nat option" where
  "reusableSubscriptionSegmentIndex item targets now = reusable_from item now 0 targets"

text \<open>
  The two inner loops of \<open>applySubscriptionTimeline\<close>: the segments of one row, of which the one at the
  reusable index stays in the row, and the segments that have no row. \<open>granted\<close> is the first row of the
  new grant.
\<close>

definition note_granted :: "nat \<Rightarrow> segment \<Rightarrow> subscription \<Rightarrow> subscription option \<Rightarrow> subscription option" where
  "note_granted grantPlanID target rec granted =
     (if granted = None \<and> sg_NewGrant target \<and> sg_PlanID target = grantPlanID then Some rec else granted)"

fun apply_targets ::
  "nat \<Rightarrow> nat \<Rightarrow> gotime \<Rightarrow> subscription option \<Rightarrow> nat option \<Rightarrow> nat \<Rightarrow> segment list \<Rightarrow> subscription option \<Rightarrow> subscription option tx" where
  "apply_targets userID grantPlanID now item reusable index [] granted db = Inr (granted, db)"
| "apply_targets userID grantPlanID now item reusable index (target # targets) granted db =
     (case (case (item, reusable) of
              (Some row, Some k) \<Rightarrow> if index = k then updateSubscriptionSegment row target now db
                 else createSubscriptionSegment userID target db
            | _ \<Rightarrow> createSubscriptionSegment userID target db) of
        Inl e \<Rightarrow> Inl e
      | Inr (rec, db') \<Rightarrow>
        apply_targets userID grantPlanID now item reusable (Suc index) targets (note_granted grantPlanID target rec granted) db')"

fun apply_rows ::
  "nat \<Rightarrow> nat \<Rightarrow> gotime \<Rightarrow> segment list \<Rightarrow> subscription list \<Rightarrow> subscription option \<Rightarrow> subscription option tx" where
  "apply_rows userID grantPlanID now segments [] granted db = Inr (granted, db)"
| "apply_rows userID grantPlanID now segments (item # items) granted db =
     (let targets = filter (\<lambda>x. 0 < sg_SubscriptionID x \<and> sg_SubscriptionID x = sb_ID item) segments in
      if targets = [] then apply_rows userID grantPlanID now segments items granted (expireSubscriptionForTimeline item now db)
      else (let reusable = reusableSubscriptionSegmentIndex item targets now;
                db1 = (if reusable = None then expireSubscriptionForTimeline item now db else db)
        in case apply_targets userID grantPlanID now (Some item) reusable 0 targets granted db1 of
             Inl e \<Rightarrow> Inl e
           | Inr (granted', db2) \<Rightarrow> apply_rows userID grantPlanID now segments items granted' db2))"

definition applySubscriptionTimeline ::
  "nat \<Rightarrow> subscription list \<Rightarrow> segment list \<Rightarrow> gotime \<Rightarrow> nat \<Rightarrow> subscription tx" where
  "applySubscriptionTimeline userID existing segments0 now grantPlanID db =
     (let segments = normalizeSubscriptionTimeline segments0 in
      case apply_rows userID grantPlanID now segments existing None db of
        Inl e \<Rightarrow> Inl e
      | Inr (granted, db1) \<Rightarrow>
        (case apply_targets userID grantPlanID now None None 0 (filter (\<lambda>x. sg_SubscriptionID x = 0) segments) granted db1 of
           Inl e \<Rightarrow> Inl e
         | Inr (None, _) \<Rightarrow> Inl ErrInvalidInput
         | Inr (Some rec, db2) \<Rightarrow> Inr (rec, db2)))"

section \<open>Granting\<close>

record grant_request =
  gq_UserID :: nat
  gq_Plan :: billing_plan
  gq_Price :: billing_price
  gq_StartAt :: gotime
  gq_Duration :: duration
  gq_CancelAtPeriodEnd :: bool
  gq_AutoRenew :: bool
  gq_NewGrant :: bool

text \<open>The running subscriptions in the order of the query.\<close>

definition subscription_order :: "subscription \<Rightarrow> gotime \<times> gotime \<times> nat" where
  "subscription_order s = (sb_CurrentPeriodStartAt s, (case sb_CurrentPeriodEndAt s of None \<Rightarrow> 0 | Some e \<Rightarrow> e), sb_ID s)"

definition runs_after :: "nat \<Rightarrow> gotime \<Rightarrow> subscription \<Rightarrow> bool" where
  "runs_after userID now s \<longleftrightarrow> sb_UserID s = userID \<and> sb_Status s = ''active'' \<and>
     (case sb_CurrentPeriodEndAt s of None \<Rightarrow> False | Some e \<Rightarrow> now < e)"

definition existing_subscriptions :: "nat \<Rightarrow> gotime \<Rightarrow> billing_db \<Rightarrow> subscription list" where
  "existing_subscriptions userID now db = sort_key subscription_order (filter (runs_after userID now) (db_subscriptions db))"

definition segment_of :: "billing_plan \<Rightarrow> gotime \<Rightarrow> subscription \<Rightarrow> gotime \<Rightarrow> segment" where
  "segment_of plan startAt item endAt = \<lparr>sg_SubscriptionID = sb_ID item, sg_PlanID = sb_PlanID item, sg_PriceID = sb_PriceID item,
     sg_Rank = subscriptionPlanRank plan, sg_StartAt = startAt, sg_EndAt = endAt,
     sg_CancelAtPeriodEnd = sb_CancelAtPeriodEnd item, sg_AutoRenew = sb_AutoRenew item, sg_NewGrant = False\<rparr>"

fun existing_segments :: "(nat \<rightharpoonup> billing_plan) \<Rightarrow> gotime \<Rightarrow> subscription list \<Rightarrow> repo_error + segment list" where
  "existing_segments plans now [] = Inr []"
| "existing_segments plans now (item # items) =
     (case sb_CurrentPeriodEndAt item of
        None \<Rightarrow> existing_segments plans now items
      | Some endAt \<Rightarrow>
        (let startAt = (if sb_CurrentPeriodStartAt item < now then now else sb_CurrentPeriodStartAt item) in
         if \<not> now < endAt \<or> \<not> startAt < endAt then existing_segments plans now items
         else (case plans (sb_PlanID item) of
             None \<Rightarrow> Inl ErrInvalidInput
           | Some plan \<Rightarrow> map_sum id (Cons (segment_of plan startAt item endAt)) (existing_segments plans now items))))"

definition request_timeline_grant :: "gotime \<Rightarrow> grant_request \<Rightarrow> timeline_grant" where
  "request_timeline_grant now inp = \<lparr>gr_SubscriptionID = 0, gr_PlanID = bp_ID (gq_Plan inp),
     gr_PriceID = pr_ID (gq_Price inp), gr_Rank = subscriptionPlanRank (gq_Plan inp), gr_StartAt = now,
     gr_Duration = gq_Duration inp, gr_CancelAtPeriodEnd = gq_CancelAtPeriodEnd inp,
     gr_AutoRenew = gq_AutoRenew inp, gr_NewGrant = gq_NewGrant inp\<rparr>"

definition grantSubscriptionOnTimeline :: "gotime \<Rightarrow> grant_request \<Rightarrow> subscription tx" where
  "grantSubscriptionOnTimeline clock inp db =
     (if gq_UserID inp = 0 \<or> bp_ID (gq_Plan inp) = 0 \<or> pr_ID (gq_Price inp) = 0 \<or> gq_Duration inp \<le> 0 then Inl ErrInvalidInput
      else (let now = (if is_zero (gq_StartAt inp) then clock else gq_StartAt inp);
                existing = existing_subscriptions (gq_UserID inp) now db
        in case billingPlansForTimeline (appendSubscriptionPlanID existing (bp_ID (gq_Plan inp))) db of Inl e \<Rightarrow> Inl e
         | Inr plans \<Rightarrow>
           (case existing_segments plans now existing of Inl e \<Rightarrow> Inl e
            | Inr segments \<Rightarrow>
              (case buildSubscriptionTimeline segments (request_timeline_grant now inp) of Inl e \<Rightarrow> Inl e
               | Inr segments' \<Rightarrow>
                 applySubscriptionTimeline (gq_UserID inp) existing segments' now (bp_ID (gq_Plan inp)) db))))"

text \<open>Subscriptions that do not go through the timeline.\<close>

definition CreateSubscription :: "repo_error option \<Rightarrow> subscription \<Rightarrow> billing_db \<Rightarrow> (repo_error + subscription) \<times> billing_db" where
  "CreateSubscription fault s = transaction fault (\<lambda>db. Inr (insert_subscription s db))"

definition ReplaceSubscription ::
  "repo_error option \<Rightarrow> gotime \<Rightarrow> subscription option \<Rightarrow> billing_db \<Rightarrow> (repo_error + unit) \<times> billing_db" where
  "ReplaceSubscription fault now item db =
     (case item of None \<Rightarrow> (Inr (), db)
      | Some s \<Rightarrow> transaction fault (\<lambda>db. Inr ((), snd (insert_subscription s
          (db\<lparr>db_subscriptions := map (\<lambda>x. if sb_UserID x = sb_UserID s \<and> sb_Status x = ''active''
            then x\<lparr>sb_Status := ''expired'', sb_AutoRenew := False, sb_CancelAtPeriodEnd := False,
              sb_CurrentPeriodEndAt := Some now\<rparr> else x) (db_subscriptions db)\<rparr>)))) db)"

section \<open>Which plan runs, in the rows and on the timeline\<close>

type_synonym plan_terms = "nat \<times> nat \<times> bool \<times> bool"

definition row_terms :: "subscription \<Rightarrow> plan_terms" where
  "row_terms s = (sb_PlanID s, sb_PriceID s, sb_CancelAtPeriodEnd s, sb_AutoRenew s)"

fun owner_terms :: "owner \<Rightarrow> plan_terms" where
  "owner_terms (rank, sub, plan, price, cancel, auto, new) = (plan, price, cancel, auto)"

definition row_runs :: "nat \<Rightarrow> gotime \<Rightarrow> subscription \<Rightarrow> bool" where
  "row_runs u t s \<longleftrightarrow> sb_UserID s = u \<and> sb_Status s = ''active'' \<and> sb_CurrentPeriodStartAt s \<le> t \<and>
     (case sb_CurrentPeriodEndAt s of None \<Rightarrow> False | Some e \<Rightarrow> t < e)"

definition row_count :: "(plan_terms \<Rightarrow> bool) \<Rightarrow> nat \<Rightarrow> gotime \<Rightarrow> subscription list \<Rightarrow> nat" where
  "row_count Q u t ss = length (filter (\<lambda>s. Q (row_terms s) \<and> row_runs u t s) ss)"

definition seg_count :: "(plan_terms \<Rightarrow> bool) \<Rightarrow> gotime \<Rightarrow> segment list \<Rightarrow> nat" where
  "seg_count Q t xs = running (\<lambda>k. Q (owner_terms k)) t xs"

definition subscriptions_ok :: "billing_db \<Rightarrow> bool" where
  "subscriptions_ok db \<longleftrightarrow> distinct (map sb_ID (db_subscriptions db)) \<and>
     (\<forall>s \<in> set (db_subscriptions db). 0 < sb_ID s \<and> sb_ID s \<le> db_lastID db)"

lemma row_count_simps [simp]:
  "row_count Q u t [] = 0" "row_count Q u t (s # ss) = (if Q (row_terms s) \<and> row_runs u t s then 1 else 0) + row_count Q u t ss"
  "row_count Q u t (xs @ ys) = row_count Q u t xs + row_count Q u t ys"
  by (simp_all add: row_count_def)

lemma seg_count_simps [simp]:
  "seg_count Q t [] = 0" "seg_count Q t (x # xs) = (if Q (owner_terms (seg_owner x)) \<and> covers t x then 1 else 0) + seg_count Q t xs"
  "seg_count Q t (xs @ ys) = seg_count Q t xs + seg_count Q t ys"
  by (simp_all add: seg_count_def)

lemma update_absent: "\<forall>x \<in> set ss. sb_ID x \<noteq> i \<Longrightarrow> map (\<lambda>x. if sb_ID x = i then f x else x) ss = ss"
  by (induction ss) auto

lemma row_count_update:
  assumes "distinct (map sb_ID ss)" and "s \<in> set ss"
  shows "row_count Q u t (map (\<lambda>x. if sb_ID x = sb_ID s then f x else x) ss) + row_count Q u t [s] =
    row_count Q u t ss + row_count Q u t [f s]"
  using assms
proof (induction ss)
  case (Cons a ss)
  show ?case
  proof (cases "a = s")
    case True
    then have "\<forall>x \<in> set ss. sb_ID x \<noteq> sb_ID s" using Cons.prems(1) by (auto simp: image_iff)
    then show ?thesis using True update_absent [of ss "sb_ID s" f] by simp
  next
    case False
    then have "s \<in> set ss" using Cons.prems(2) by simp
    moreover from this have "sb_ID a \<noteq> sb_ID s" using Cons.prems(1) by (auto simp: image_iff)
    ultimately show ?thesis using Cons by simp
  qed
qed simp

lemma update_subscription_frame:
  assumes "subscriptions_ok db" and "\<And>x. sb_ID (f x) = sb_ID x"
  shows "subscriptions_ok (update_subscription i f db)" "db_lastID (update_subscription i f db) = db_lastID db"
    "x \<in> set (db_subscriptions db) \<Longrightarrow> sb_ID x \<noteq> i \<Longrightarrow> x \<in> set (db_subscriptions (update_subscription i f db))"
    "x \<in> set (db_subscriptions db) \<Longrightarrow> sb_ID x = i \<Longrightarrow> f x \<in> set (db_subscriptions (update_subscription i f db))"
proof -
  have "sb_ID \<circ> (\<lambda>x. if sb_ID x = i then f x else x) = sb_ID" using assms(2) by auto
  then have "map sb_ID (map (\<lambda>x. if sb_ID x = i then f x else x) ss) = map sb_ID ss" for ss by (simp only: list.map_comp)
  then show "subscriptions_ok (update_subscription i f db)"
    using assms by (auto simp: subscriptions_ok_def update_subscription_def simp del: map_map list.map_comp)
qed (force simp: update_subscription_def)+

lemma insert_subscription_effects:
  assumes "subscriptions_ok db" and "insert_subscription s db = (s', db')"
  shows "subscriptions_ok db'" "db_subscriptions db' = db_subscriptions db @ [s']" "s' = s\<lparr>sb_ID := db_lastID db'\<rparr>"
    "db_lastID db' = Suc (db_lastID db)"
proof -
  have le: "\<forall>x \<in> set (db_subscriptions db). 0 < sb_ID x \<and> sb_ID x < Suc (db_lastID db) \<and> sb_ID x \<le> Suc (db_lastID db)"
    using assms(1) by (auto simp: subscriptions_ok_def less_Suc_eq_le le_Suc_eq)
  then have "Suc (db_lastID db) \<notin> sb_ID ` set (db_subscriptions db)" by auto
  then show "subscriptions_ok db'" "db_subscriptions db' = db_subscriptions db @ [s']" "s' = s\<lparr>sb_ID := db_lastID db'\<rparr>"
    "db_lastID db' = Suc (db_lastID db)"
    using assms le by (simp_all add: insert_subscription_def Let_def subscriptions_ok_def) auto
qed

text \<open>What a row that is updated for a segment, and a row that is created for one, contribute from \<open>now\<close> on.\<close>

lemma create_segment_effects:
  assumes "u \<noteq> 0" "usable_segment x" "subscriptions_ok db"
  obtains rec db' where "createSubscriptionSegment u x db = Inr (rec, db')" "subscriptions_ok db'"
    "\<And>Q t. row_count Q u t (db_subscriptions db') = row_count Q u t (db_subscriptions db) + seg_count Q t [x]"
    "set (db_subscriptions db) \<subseteq> set (db_subscriptions db')" "db_lastID db \<le> db_lastID db'"
proof -
  obtain rec db' where i: "insert_subscription (subscription_of_segment u x) db = (rec, db')" by fastforce
  note e = insert_subscription_effects [OF assms(3) i]
  have "row_count Q u t [rec] = seg_count Q t [x]" for Q t
    using assms(1) e(3) by (simp add: subscription_of_segment_def row_terms_def row_runs_def covers_def seg_owner_def)
  then have "row_count Q u t (db_subscriptions db') = row_count Q u t (db_subscriptions db) + seg_count Q t [x]" for Q t
    using e(2) by simp
  moreover have "createSubscriptionSegment u x db = Inr (rec, db')"
    using i assms(1,2) by (simp add: createSubscriptionSegment_def usable_segment_def)
  moreover have "set (db_subscriptions db) \<subseteq> set (db_subscriptions db')" using e(2) by auto
  moreover have "db_lastID db \<le> db_lastID db'" using e(4) by simp
  ultimately show ?thesis using that e(1) by blast
qed

lemma update_segment_effects:
  assumes "item \<in> set (db_subscriptions db)" "sb_UserID item = u" "subscriptions_ok db"
  obtains rec db' where "updateSubscriptionSegment item x now db = Inr (rec, db')" "subscriptions_ok db'"
    "\<And>Q t. now \<le> t \<Longrightarrow> row_count Q u t (db_subscriptions db') + row_count Q u t [item] =
       row_count Q u t (db_subscriptions db) + seg_count Q t [x]"
    "\<And>y. y \<in> set (db_subscriptions db) \<Longrightarrow> sb_ID y \<noteq> sb_ID item \<Longrightarrow> y \<in> set (db_subscriptions db')" "db_lastID db \<le> db_lastID db'"
proof -
  define startAt where "startAt = (if sb_CurrentPeriodStartAt item < now \<and> \<not> now < sg_StartAt x then sb_CurrentPeriodStartAt item else sg_StartAt x)"
  define f :: "subscription \<Rightarrow> subscription" where "f = (\<lambda>y. y\<lparr>sb_PlanID := sg_PlanID x, sb_PriceID := sg_PriceID x, sb_Status := ''active'',
     sb_StartAt := (if sb_StartAt item < startAt \<and> \<not> now < sg_StartAt x then sb_StartAt item else startAt),
     sb_CurrentPeriodStartAt := startAt, sb_CurrentPeriodEndAt := Some (sg_EndAt x),
     sb_CancelAtPeriodEnd := sg_CancelAtPeriodEnd x, sb_CanceledAt := None, sb_AutoRenew := sg_AutoRenew x\<rparr>)"
  let ?db = "update_subscription (sb_ID item) f db"
  have id: "sb_ID (f y) = sb_ID y" for y by (simp add: f_def)
  note fr = update_subscription_frame [OF assms(3) id, where i = "sb_ID item"]
  have "\<exists>r. List.find (\<lambda>y. sb_ID y = sb_ID item) (db_subscriptions ?db) = Some r"
  proof (rule ccontr)
    assume "\<not> ?thesis"
    then have "\<forall>y \<in> set (db_subscriptions ?db). sb_ID y \<noteq> sb_ID item" by (auto simp: find_None_iff)
    then show False using fr(4) [OF assms(1) refl] id by auto
  qed
  then obtain rec where r: "List.find (\<lambda>y. sb_ID y = sb_ID item) (db_subscriptions ?db) = Some rec" by blast
  have "row_count Q u t [f item] = seg_count Q t [x]" if "now \<le> t" for Q t
    using that assms(2) by (auto simp: f_def startAt_def row_terms_def row_runs_def covers_def seg_owner_def)
  then have "row_count Q u t (db_subscriptions ?db) + row_count Q u t [item] =
      row_count Q u t (db_subscriptions db) + seg_count Q t [x]" if "now \<le> t" for Q t
    using row_count_update [of "db_subscriptions db" item Q u t f] assms(1,3) that
    by (simp add: update_subscription_def subscriptions_ok_def)
  moreover have "updateSubscriptionSegment item x now db = Inr (rec, ?db)"
    using r unfolding updateSubscriptionSegment_def Let_def f_def startAt_def by simp
  ultimately show ?thesis using that fr(1-3) by (metis order_refl)
qed

lemma expire_effects:
  assumes "item \<in> set (db_subscriptions db)" "subscriptions_ok db"
  shows "subscriptions_ok (expireSubscriptionForTimeline item now db)"
    "row_count Q u t (db_subscriptions (expireSubscriptionForTimeline item now db)) + row_count Q u t [item] =
       row_count Q u t (db_subscriptions db)"
    "y \<in> set (db_subscriptions db) \<Longrightarrow> sb_ID y \<noteq> sb_ID item \<Longrightarrow> y \<in> set (db_subscriptions (expireSubscriptionForTimeline item now db))"
    "db_lastID (expireSubscriptionForTimeline item now db) = db_lastID db"
proof -
  define f :: "subscription \<Rightarrow> subscription" where "f = (\<lambda>x. x\<lparr>sb_Status := ''expired'', sb_AutoRenew := False, sb_CancelAtPeriodEnd := False,
       sb_CurrentPeriodEndAt := Some (expired_end item now)\<rparr>)"
  have e: "expireSubscriptionForTimeline item now db = update_subscription (sb_ID item) f db"
    by (simp add: expireSubscriptionForTimeline_def f_def)
  have id: "sb_ID (f y) = sb_ID y" for y by (simp add: f_def)
  note fr = update_subscription_frame [OF assms(2) id, where i = "sb_ID item", folded e]
  show "subscriptions_ok (expireSubscriptionForTimeline item now db)"
    "y \<in> set (db_subscriptions db) \<Longrightarrow> sb_ID y \<noteq> sb_ID item \<Longrightarrow> y \<in> set (db_subscriptions (expireSubscriptionForTimeline item now db))"
    "db_lastID (expireSubscriptionForTimeline item now db) = db_lastID db" using fr by simp_all
  have "row_count Q u t [f item] = 0" by (simp add: f_def row_runs_def)
  then show "row_count Q u t (db_subscriptions (expireSubscriptionForTimeline item now db)) + row_count Q u t [item] =
       row_count Q u t (db_subscriptions db)"
    using row_count_update [of "db_subscriptions db" item Q u t f] assms by (simp add: e update_subscription_def subscriptions_ok_def)
qed

section \<open>Writing the timeline back\<close>

lemma reusable_range: "reusable_from item now i targets = Some k \<Longrightarrow> i \<le> k \<and> k < i + length targets"
  by (induction item now i targets rule: reusable_from.induct) (force split: if_splits)+

definition in_row :: "subscription option \<Rightarrow> nat option \<Rightarrow> nat \<Rightarrow> segment list \<Rightarrow> bool" where
  "in_row item reusable index targets \<longleftrightarrow>
     (case (item, reusable) of (Some row, Some k) \<Rightarrow> index \<le> k \<and> k < index + length targets | _ \<Rightarrow> False)"

definition grants_plan :: "nat \<Rightarrow> segment list \<Rightarrow> bool" where
  "grants_plan planID xs \<longleftrightarrow> (\<exists>x \<in> set xs. sg_NewGrant x \<and> sg_PlanID x = planID)"

lemma apply_targets_effects:
  assumes "\<forall>x \<in> set targets. usable_segment x" "u \<noteq> 0" "subscriptions_ok db"
    and "\<forall>row. item = Some row \<longrightarrow> sb_UserID row = u \<and> (in_row item reusable index targets \<longrightarrow> row \<in> set (db_subscriptions db))"
  shows "\<exists>granted' db'. apply_targets u planID now item reusable index targets granted db = Inr (granted', db') \<and>
    subscriptions_ok db' \<and> db_lastID db \<le> db_lastID db' \<and>
    (\<forall>Q t. now \<le> t \<longrightarrow> row_count Q u t (db_subscriptions db') +
        (if in_row item reusable index targets then row_count Q u t [the item] else 0) =
       row_count Q u t (db_subscriptions db) + seg_count Q t targets) \<and>
    (\<forall>y \<in> set (db_subscriptions db). (\<forall>row. item = Some row \<longrightarrow> sb_ID y \<noteq> sb_ID row) \<longrightarrow> y \<in> set (db_subscriptions db')) \<and>
    (granted' = None \<longleftrightarrow> granted = None \<and> \<not> grants_plan planID targets)"
  using assms
proof (induction targets arbitrary: index granted db)
  case Nil
  then show ?case by (auto simp: in_row_def grants_plan_def split: option.splits)
next
  case (Cons x xs)
  show ?case
  proof (cases "\<exists>row k. item = Some row \<and> reusable = Some k \<and> index = k")
    case True
    then obtain row where row: "item = Some row" "reusable = Some index" by blast
    have r: "row \<in> set (db_subscriptions db)" "sb_UserID row = u" using Cons.prems(4) row by (simp_all add: in_row_def)
    obtain rec db1 where up: "updateSubscriptionSegment row x now db = Inr (rec, db1)" "subscriptions_ok db1"
      "\<And>Q t. now \<le> t \<Longrightarrow> row_count Q u t (db_subscriptions db1) + row_count Q u t [row] =
         row_count Q u t (db_subscriptions db) + seg_count Q t [x]"
      "\<And>y. y \<in> set (db_subscriptions db) \<Longrightarrow> sb_ID y \<noteq> sb_ID row \<Longrightarrow> y \<in> set (db_subscriptions db1)" "db_lastID db \<le> db_lastID db1"
      using update_segment_effects [OF r Cons.prems(3), of x now] by metis
    have no: "\<not> in_row item reusable (Suc index) xs" "in_row item reusable index (x # xs)" using row by (simp_all add: in_row_def)
    have xs: "\<forall>y \<in> set xs. usable_segment y" using Cons.prems(1) by simp
    have pre: "\<forall>row. item = Some row \<longrightarrow> sb_UserID row = u \<and> (in_row item reusable (Suc index) xs \<longrightarrow> row \<in> set (db_subscriptions db1))"
      using Cons.prems(4) no(1) by blast
    obtain granted' db' where IH: "apply_targets u planID now item reusable (Suc index) xs (note_granted planID x rec granted) db1 =
        Inr (granted', db')" "subscriptions_ok db'" "db_lastID db1 \<le> db_lastID db'"
      "\<forall>Q t. now \<le> t \<longrightarrow> row_count Q u t (db_subscriptions db') + (if in_row item reusable (Suc index) xs then row_count Q u t [the item] else 0) =
         row_count Q u t (db_subscriptions db1) + seg_count Q t xs"
      "\<forall>y \<in> set (db_subscriptions db1). (\<forall>row. item = Some row \<longrightarrow> sb_ID y \<noteq> sb_ID row) \<longrightarrow> y \<in> set (db_subscriptions db')"
      "granted' = None \<longleftrightarrow> note_granted planID x rec granted = None \<and> \<not> grants_plan planID xs"
      using Cons.IH [OF xs Cons.prems(2) up(2) pre, of "note_granted planID x rec granted"] by (elim exE conjE) (rule that)
    have "row_count Q u t (db_subscriptions db') + row_count Q u t [row] = row_count Q u t (db_subscriptions db) + seg_count Q t (x # xs)"
      if "now \<le> t" for Q t using IH(4) that no(1) up(3) [OF that, of Q] by simp
    moreover have "granted' = None \<longleftrightarrow> granted = None \<and> \<not> grants_plan planID (x # xs)"
      using IH(6) by (auto simp: note_granted_def grants_plan_def)
    moreover have "db_lastID db \<le> db_lastID db'" using IH(3) up(5) by simp
    ultimately show ?thesis using IH(1,2,5) up(1,4) row no(2) by auto
  next
    case False
    have us: "usable_segment x" using Cons.prems(1) by simp
    obtain rec db1 where cr: "createSubscriptionSegment u x db = Inr (rec, db1)" "subscriptions_ok db1"
      "\<And>Q t. row_count Q u t (db_subscriptions db1) = row_count Q u t (db_subscriptions db) + seg_count Q t [x]"
      "set (db_subscriptions db) \<subseteq> set (db_subscriptions db1)" "db_lastID db \<le> db_lastID db1"
      using create_segment_effects [OF Cons.prems(2) us Cons.prems(3)] by metis
    have same: "in_row item reusable (Suc index) xs \<longleftrightarrow> in_row item reusable index (x # xs)"
      using False by (auto simp: in_row_def split: option.splits)
    have step: "(case (item, reusable) of (Some row, Some k) \<Rightarrow> if index = k then updateSubscriptionSegment row x now db
                 else createSubscriptionSegment u x db | _ \<Rightarrow> createSubscriptionSegment u x db) = Inr (rec, db1)"
      using False cr(1) by (auto split: option.splits)
    have xs: "\<forall>y \<in> set xs. usable_segment y" using Cons.prems(1) by simp
    have pre: "\<forall>row. item = Some row \<longrightarrow> sb_UserID row = u \<and> (in_row item reusable (Suc index) xs \<longrightarrow> row \<in> set (db_subscriptions db1))"
      using Cons.prems(4) same cr(4) by blast
    obtain granted' db' where IH: "apply_targets u planID now item reusable (Suc index) xs (note_granted planID x rec granted) db1 =
        Inr (granted', db')" "subscriptions_ok db'" "db_lastID db1 \<le> db_lastID db'"
      "\<forall>Q t. now \<le> t \<longrightarrow> row_count Q u t (db_subscriptions db') + (if in_row item reusable (Suc index) xs then row_count Q u t [the item] else 0) =
         row_count Q u t (db_subscriptions db1) + seg_count Q t xs"
      "\<forall>y \<in> set (db_subscriptions db1). (\<forall>row. item = Some row \<longrightarrow> sb_ID y \<noteq> sb_ID row) \<longrightarrow> y \<in> set (db_subscriptions db')"
      "granted' = None \<longleftrightarrow> note_granted planID x rec granted = None \<and> \<not> grants_plan planID xs"
      using Cons.IH [OF xs Cons.prems(2) cr(2) pre, of "note_granted planID x rec granted"] by (elim exE conjE) (rule that)
    have "row_count Q u t (db_subscriptions db') + (if in_row item reusable index (x # xs) then row_count Q u t [the item] else 0) =
        row_count Q u t (db_subscriptions db) + seg_count Q t (x # xs)"
      if "now \<le> t" for Q t using IH(4) that cr(3) [of Q t] same by simp
    moreover have "granted' = None \<longleftrightarrow> granted = None \<and> \<not> grants_plan planID (x # xs)"
      using IH(6) by (auto simp: note_granted_def grants_plan_def)
    moreover have "db_lastID db \<le> db_lastID db'" using IH(3) cr(5) by simp
    moreover have "y \<in> set (db_subscriptions db')" if "y \<in> set (db_subscriptions db)" "\<forall>row. item = Some row \<longrightarrow> sb_ID y \<noteq> sb_ID row" for y
      using IH(5) that cr(4) by auto
    moreover have "apply_targets u planID now item reusable index (x # xs) granted db = Inr (granted', db')"
      using step IH(1) by simp
    ultimately show ?thesis using IH(2) by blast
  qed
qed

lemma seg_count_split:
  "(\<And>x. x \<in> set xs \<Longrightarrow> P1 x \<Longrightarrow> \<not> P2 x) \<Longrightarrow>
     seg_count Q t (filter (\<lambda>x. P1 x \<or> P2 x) xs) = seg_count Q t (filter P1 xs) + seg_count Q t (filter P2 xs)"
  by (induction xs) auto

lemma seg_count_cong: "(\<And>x. x \<in> set xs \<Longrightarrow> P1 x = P2 x) \<Longrightarrow> seg_count Q t (filter P1 xs) = seg_count Q t (filter P2 xs)"
  by (metis filter_cong)

definition of_rows :: "nat set \<Rightarrow> segment \<Rightarrow> bool" where
  "of_rows ids x \<longleftrightarrow> 0 < sg_SubscriptionID x \<and> sg_SubscriptionID x \<in> ids"

lemma apply_rows_effects:
  assumes "\<forall>x \<in> set segments. usable_segment x" "u \<noteq> 0" "subscriptions_ok db"
    and "distinct (map sb_ID items)" "\<forall>item \<in> set items. item \<in> set (db_subscriptions db) \<and> sb_UserID item = u"
  shows "\<exists>granted' db'. apply_rows u planID now segments items granted db = Inr (granted', db') \<and>
    subscriptions_ok db' \<and> db_lastID db \<le> db_lastID db' \<and>
    (\<forall>Q t. now \<le> t \<longrightarrow> row_count Q u t (db_subscriptions db') + row_count Q u t items =
       row_count Q u t (db_subscriptions db) + seg_count Q t (filter (of_rows (sb_ID ` set items)) segments)) \<and>
    (granted' = None \<longleftrightarrow> granted = None \<and> \<not> grants_plan planID (filter (of_rows (sb_ID ` set items)) segments))"
  using assms(3-5)
proof (induction items arbitrary: granted db)
  case Nil
  then show ?case by (simp add: of_rows_def grants_plan_def)
next
  case (Cons item items)
  let ?targets = "filter (\<lambda>x. 0 < sg_SubscriptionID x \<and> sg_SubscriptionID x = sb_ID item) segments"
  let ?reusable = "reusableSubscriptionSegmentIndex item ?targets now"
  have item: "item \<in> set (db_subscriptions db)" "sb_UserID item = u" using Cons.prems(3) by simp_all
  have ne: "sb_ID y \<noteq> sb_ID item" if "y \<in> set items" for y using Cons.prems(2) that by (auto simp: image_iff)
  have us: "\<forall>x \<in> set ?targets. usable_segment x" using assms(1) by simp
  have split: "seg_count Q t (filter (of_rows (sb_ID ` set (item # items))) segments) =
      seg_count Q t ?targets + seg_count Q t (filter (of_rows (sb_ID ` set items)) segments)" for Q t
  proof -
    have "seg_count Q t (filter (of_rows (sb_ID ` set (item # items))) segments) =
        seg_count Q t (filter (\<lambda>x. (0 < sg_SubscriptionID x \<and> sg_SubscriptionID x = sb_ID item) \<or> of_rows (sb_ID ` set items) x) segments)"
      by (rule seg_count_cong) (auto simp: of_rows_def)
    also have "\<dots> = seg_count Q t ?targets + seg_count Q t (filter (of_rows (sb_ID ` set items)) segments)"
      using ne by (intro seg_count_split) (fastforce simp: of_rows_def)
    finally show ?thesis .
  qed
  have gp: "grants_plan planID (filter (of_rows (sb_ID ` set (item # items))) segments) \<longleftrightarrow>
      grants_plan planID ?targets \<or> grants_plan planID (filter (of_rows (sb_ID ` set items)) segments)"
    by (auto simp: grants_plan_def of_rows_def)
  note ex = expire_effects [OF item(1) Cons.prems(1)]
  have "\<exists>granted1 db1. apply_rows u planID now segments (item # items) granted db = apply_rows u planID now segments items granted1 db1 \<and>
    subscriptions_ok db1 \<and> db_lastID db \<le> db_lastID db1 \<and>
    (\<forall>Q t. now \<le> t \<longrightarrow> row_count Q u t (db_subscriptions db1) + row_count Q u t [item] =
       row_count Q u t (db_subscriptions db) + seg_count Q t ?targets) \<and>
    (\<forall>y \<in> set (db_subscriptions db). sb_ID y \<noteq> sb_ID item \<longrightarrow> y \<in> set (db_subscriptions db1)) \<and>
    (granted1 = None \<longleftrightarrow> granted = None \<and> \<not> grants_plan planID ?targets)"
  proof (cases "?targets = []")
    case True
    then have a: "apply_rows u planID now segments (item # items) granted db =
        apply_rows u planID now segments items granted (expireSubscriptionForTimeline item now db)"
      by (simp only: apply_rows.simps Let_def if_True refl)
    have "subscriptions_ok (expireSubscriptionForTimeline item now db) \<and> db_lastID db \<le> db_lastID (expireSubscriptionForTimeline item now db) \<and>
      (\<forall>Q t. now \<le> t \<longrightarrow> row_count Q u t (db_subscriptions (expireSubscriptionForTimeline item now db)) + row_count Q u t [item] =
         row_count Q u t (db_subscriptions db) + seg_count Q t ?targets) \<and>
      (\<forall>y \<in> set (db_subscriptions db). sb_ID y \<noteq> sb_ID item \<longrightarrow> y \<in> set (db_subscriptions (expireSubscriptionForTimeline item now db))) \<and>
      (granted = None \<longleftrightarrow> granted = None \<and> \<not> grants_plan planID ?targets)"
      using ex(1,4) ex(2) [where u = u and now = now] ex(3) [where now = now] unfolding True by (simp add: grants_plan_def)
    then show ?thesis using a by blast
  next
    case False
    define db0 where "db0 = (if ?reusable = None then expireSubscriptionForTimeline item now db else db)"
    have row: "in_row (Some item) ?reusable 0 ?targets \<longleftrightarrow> ?reusable \<noteq> None"
      using reusable_range [of item now 0 ?targets] by (auto simp: in_row_def reusableSubscriptionSegmentIndex_def split: option.splits)
    have ok0: "subscriptions_ok db0" "db_lastID db0 = db_lastID db" using ex(1,4) Cons.prems(1) by (auto simp: db0_def)
    have pre: "\<forall>r. Some item = Some r \<longrightarrow> sb_UserID r = u \<and> (in_row (Some item) ?reusable 0 ?targets \<longrightarrow> r \<in> set (db_subscriptions db0))"
      using item row by (simp add: db0_def)
    obtain granted1 db1 where t: "apply_targets u planID now (Some item) ?reusable 0 ?targets granted db0 = Inr (granted1, db1)"
      "subscriptions_ok db1" "db_lastID db0 \<le> db_lastID db1"
      "\<forall>Q t. now \<le> t \<longrightarrow> row_count Q u t (db_subscriptions db1) +
          (if in_row (Some item) ?reusable 0 ?targets then row_count Q u t [the (Some item)] else 0) =
         row_count Q u t (db_subscriptions db0) + seg_count Q t ?targets"
      "\<forall>y \<in> set (db_subscriptions db0). (\<forall>row. Some item = Some row \<longrightarrow> sb_ID y \<noteq> sb_ID row) \<longrightarrow> y \<in> set (db_subscriptions db1)"
      "granted1 = None \<longleftrightarrow> granted = None \<and> \<not> grants_plan planID ?targets"
      using apply_targets_effects [OF us assms(2) ok0(1) pre, of planID now granted] by blast
    have "apply_rows u planID now segments (item # items) granted db = apply_rows u planID now segments items granted1 db1"
      using False t(1) by (simp add: Let_def db0_def)
    moreover have "row_count Q u t (db_subscriptions db1) + row_count Q u t [item] =
       row_count Q u t (db_subscriptions db) + seg_count Q t ?targets" if "now \<le> t" for Q t
      using t(4) that row ex(2) [where Q = Q and u = u and t = t and now = now] by (auto simp: db0_def split: if_splits)
    moreover have "\<forall>y \<in> set (db_subscriptions db). sb_ID y \<noteq> sb_ID item \<longrightarrow> y \<in> set (db_subscriptions db1)"
      using t(5) ex(3) by (auto simp: db0_def split: if_splits)
    moreover have "db_lastID db \<le> db_lastID db1" using t(3) ok0(2) by simp
    ultimately show ?thesis using t(2,6) by blast
  qed
  then obtain granted1 db1 where s: "apply_rows u planID now segments (item # items) granted db = apply_rows u planID now segments items granted1 db1"
    "subscriptions_ok db1" "db_lastID db \<le> db_lastID db1"
    "\<And>Q t. now \<le> t \<Longrightarrow> row_count Q u t (db_subscriptions db1) + row_count Q u t [item] =
       row_count Q u t (db_subscriptions db) + seg_count Q t ?targets"
    "\<forall>y \<in> set (db_subscriptions db). sb_ID y \<noteq> sb_ID item \<longrightarrow> y \<in> set (db_subscriptions db1)"
    "granted1 = None \<longleftrightarrow> granted = None \<and> \<not> grants_plan planID ?targets" by blast
  have rest: "distinct (map sb_ID items)" "\<forall>y \<in> set items. y \<in> set (db_subscriptions db1) \<and> sb_UserID y = u"
    using Cons.prems(2,3) ne s(5) by auto
  obtain granted' db' where IH: "apply_rows u planID now segments items granted1 db1 = Inr (granted', db')"
    "subscriptions_ok db'" "db_lastID db1 \<le> db_lastID db'"
    "\<And>Q t. now \<le> t \<Longrightarrow> row_count Q u t (db_subscriptions db') + row_count Q u t items =
       row_count Q u t (db_subscriptions db1) + seg_count Q t (filter (of_rows (sb_ID ` set items)) segments)"
    "granted' = None \<longleftrightarrow> granted1 = None \<and> \<not> grants_plan planID (filter (of_rows (sb_ID ` set items)) segments)"
    using Cons.IH [OF s(2) rest, of granted1] by blast
  have "row_count Q u t (db_subscriptions db') + row_count Q u t (item # items) =
      row_count Q u t (db_subscriptions db) + seg_count Q t (filter (of_rows (sb_ID ` set (item # items))) segments)" if "now \<le> t" for Q t
    using IH(4) [OF that, of Q] s(4) [OF that, of Q] split [of Q t] by simp
  moreover have "granted' = None \<longleftrightarrow> granted = None \<and> \<not> grants_plan planID (filter (of_rows (sb_ID ` set (item # items))) segments)"
    using IH(5) s(6) gp by blast
  ultimately show ?case using s(1,3) IH(1-3) by auto
qed

lemma apply_effects:
  assumes "timeline segments" "u \<noteq> 0" "subscriptions_ok db" "distinct (map sb_ID items)"
    and "\<forall>item \<in> set items. item \<in> set (db_subscriptions db) \<and> sb_UserID item = u"
    and "\<forall>x \<in> set segments. sg_SubscriptionID x = 0 \<or> sg_SubscriptionID x \<in> sb_ID ` set items" and "grants_plan planID segments"
  shows "\<exists>rec db'. applySubscriptionTimeline u items segments now planID db = Inr (rec, db') \<and> subscriptions_ok db' \<and>
    (\<forall>Q t. now \<le> t \<longrightarrow> row_count Q u t (db_subscriptions db') + row_count Q u t items =
       row_count Q u t (db_subscriptions db) + seg_count Q t segments)"
proof -
  let ?n = "normalizeSubscriptionTimeline segments"
  let ?new = "filter (\<lambda>x. sg_SubscriptionID x = 0) ?n"
  have us: "\<forall>x \<in> set ?n. usable_segment x" using timeline_normalize(1) [OF assms(1)] by (simp add: timeline_def)
  have cnt: "seg_count Q t ?n = seg_count Q t segments" for Q t by (simp add: seg_count_def timeline_normalize_running(1) [OF assms(1)])
  have own: "\<exists>y \<in> set segments. seg_owner y = seg_owner x" if "x \<in> set ?n" for x
    using timeline_normalize_running(2) [OF assms(1) that] .
  have ids: "sg_SubscriptionID x = 0 \<or> sg_SubscriptionID x \<in> sb_ID ` set items" if x: "x \<in> set ?n" for x
  proof -
    obtain y where "y \<in> set segments" "seg_owner y = seg_owner x" using own [OF x] by blast
    moreover from this have "sg_SubscriptionID y = sg_SubscriptionID x" by (simp add: seg_owner_def)
    ultimately show ?thesis using assms(6) by metis
  qed
  have gp: "grants_plan planID ?n"
  proof -
    obtain y where y: "y \<in> set segments" "sg_NewGrant y" "sg_PlanID y = planID" using assms(7) by (auto simp: grants_plan_def)
    have "usable_segment y" using y(1) assms(1) by (simp add: timeline_def)
    then have "0 < running (\<lambda>k. k = seg_owner y) (sg_StartAt y) segments" using y(1) usable_cover by (auto simp: running_pos)
    then have "0 < running (\<lambda>k. k = seg_owner y) (sg_StartAt y) ?n" by (simp add: timeline_normalize_running(1) [OF assms(1)])
    then obtain x where "x \<in> set ?n" "seg_owner x = seg_owner y" by (auto simp: running_pos)
    then show ?thesis using y(2,3) by (auto simp: grants_plan_def seg_owner_def)
  qed
  obtain granted db1 where r: "apply_rows u planID now ?n items None db = Inr (granted, db1)" "subscriptions_ok db1"
    "\<forall>Q t. now \<le> t \<longrightarrow> row_count Q u t (db_subscriptions db1) + row_count Q u t items =
       row_count Q u t (db_subscriptions db) + seg_count Q t (filter (of_rows (sb_ID ` set items)) ?n)"
    "granted = None \<longleftrightarrow> None = (None :: subscription option) \<and> \<not> grants_plan planID (filter (of_rows (sb_ID ` set items)) ?n)"
    using apply_rows_effects [OF us assms(2-5), of planID now None] by (elim exE conjE) (rule that)
  have new: "\<forall>x \<in> set ?new. usable_segment x" using us by simp
  have none: "\<forall>row. None = Some row \<longrightarrow> sb_UserID row = u \<and> (in_row None None 0 ?new \<longrightarrow> row \<in> set (db_subscriptions db1))" by simp
  obtain granted' db' where c: "apply_targets u planID now None None 0 ?new granted db1 = Inr (granted', db')" "subscriptions_ok db'"
    "\<forall>Q t. now \<le> t \<longrightarrow> row_count Q u t (db_subscriptions db') + (if in_row None None 0 ?new then row_count Q u t [the None] else 0) =
       row_count Q u t (db_subscriptions db1) + seg_count Q t ?new"
    "granted' = None \<longleftrightarrow> granted = None \<and> \<not> grants_plan planID ?new"
    using apply_targets_effects [OF new assms(2) r(2) none, of planID now granted] by (elim exE conjE) (rule that)
  have part: "seg_count Q t (filter (of_rows (sb_ID ` set items)) ?n) + seg_count Q t ?new = seg_count Q t segments" for Q t
  proof -
    have "seg_count Q t ?n = seg_count Q t (filter (\<lambda>x. of_rows (sb_ID ` set items) x \<or> sg_SubscriptionID x = 0) ?n)"
      using ids by (subst filter_True) (metis of_rows_def gr0I, rule refl)
    also have "\<dots> = seg_count Q t (filter (of_rows (sb_ID ` set items)) ?n) + seg_count Q t ?new"
      by (rule seg_count_split) (simp add: of_rows_def)
    finally show ?thesis using cnt by simp
  qed
  have "granted' \<noteq> None"
  proof -
    have "grants_plan planID (filter (of_rows (sb_ID ` set items)) ?n) \<or> grants_plan planID ?new"
      using gp ids by (fastforce simp: grants_plan_def of_rows_def)
    then show ?thesis using r(4) c(4) by blast
  qed
  then obtain rec where "granted' = Some rec" by blast
  then have "applySubscriptionTimeline u items segments now planID db = Inr (rec, db')"
    using r(1) c(1) by (simp add: applySubscriptionTimeline_def)
  moreover have "row_count Q u t (db_subscriptions db') + row_count Q u t items =
       row_count Q u t (db_subscriptions db) + seg_count Q t segments" if "now \<le> t" for Q t
  proof -
    have "row_count Q u t (db_subscriptions db') = row_count Q u t (db_subscriptions db1) + seg_count Q t ?new"
      using c(3) that by (simp add: in_row_def)
    moreover have "row_count Q u t (db_subscriptions db1) + row_count Q u t items =
       row_count Q u t (db_subscriptions db) + seg_count Q t (filter (of_rows (sb_ID ` set items)) ?n)" using r(3) that by blast
    ultimately show ?thesis using part [of Q t] by simp
  qed
  ultimately show ?thesis using c(2) by blast
qed

section \<open>A grant from the rows to the rows\<close>

text \<open>The rows a grant reads, as segments.\<close>

lemma existing_segments_effects:
  assumes "\<forall>s \<in> set items. runs_after u now s \<and> sb_PlanID s \<noteq> 0 \<and> sb_PriceID s \<noteq> 0 \<and> plans (sb_PlanID s) \<noteq> None"
  shows "\<exists>segments. existing_segments plans now items = Inr segments \<and>
    (\<forall>x \<in> set segments. usable_segment x \<and> sg_SubscriptionID x \<in> sb_ID ` set items \<and> now \<le> sg_StartAt x \<and> \<not> sg_NewGrant x) \<and>
    (\<forall>Q t. now \<le> t \<longrightarrow> seg_count Q t segments = row_count Q u t items)"
  using assms
proof (induction items)
  case (Cons s items)
  obtain segments where IH: "existing_segments plans now items = Inr segments"
    "\<forall>x \<in> set segments. usable_segment x \<and> sg_SubscriptionID x \<in> sb_ID ` set items \<and> now \<le> sg_StartAt x \<and> \<not> sg_NewGrant x"
    "\<forall>Q t. now \<le> t \<longrightarrow> seg_count Q t segments = row_count Q u t items"
    using Cons.IH Cons.prems by auto
  obtain e where e: "sb_CurrentPeriodEndAt s = Some e" "now < e" "sb_UserID s = u" "sb_Status s = ''active''"
    using Cons.prems by (auto simp: runs_after_def split: option.splits)
  obtain plan where plan: "plans (sb_PlanID s) = Some plan" using Cons.prems by auto
  let ?start = "if sb_CurrentPeriodStartAt s < now then now else sb_CurrentPeriodStartAt s"
  show ?case
  proof (cases "?start < e")
    case True
    let ?x = "segment_of plan ?start s e"
    have "existing_segments plans now (s # items) = Inr (?x # segments)"
      using True e(1,2) plan IH(1) by (simp add: Let_def)
    moreover have "usable_segment ?x \<and> sg_SubscriptionID ?x = sb_ID s \<and> now \<le> sg_StartAt ?x \<and> \<not> sg_NewGrant ?x"
      using True Cons.prems by (simp add: segment_of_def usable_segment_def)
    moreover have "seg_count Q t [?x] = row_count Q u t [s]" if "now \<le> t" for Q t
      using that e True by (auto simp: segment_of_def seg_owner_def row_terms_def row_runs_def covers_def)
    ultimately show ?thesis using IH(2,3) by auto
  next
    case False
    have "existing_segments plans now (s # items) = Inr segments"
      using False e(1,2) IH(1) by (simp add: Let_def)
    moreover have "row_count Q u t [s] = 0" if "now \<le> t" for Q t
      using that e False by (auto simp: row_runs_def split: if_splits)
    ultimately show ?thesis using IH(2,3) by auto
  qed
qed simp

lemma appendSubscriptionPlanID_set:
  "0 < planID \<Longrightarrow> set (appendSubscriptionPlanID items planID) = insert planID {p. p \<noteq> 0 \<and> (\<exists>s \<in> set items. sb_PlanID s = p)}"
proof -
  have "set (fold (\<lambda>item ids. if sb_PlanID item = 0 \<or> sb_PlanID item \<in> set ids then ids else ids @ [sb_PlanID item]) items ids) =
      set ids \<union> {p. p \<noteq> 0 \<and> (\<exists>s \<in> set items. sb_PlanID s = p)}" for ids
    by (induction items arbitrary: ids) auto
  then show "0 < planID \<Longrightarrow> ?thesis" by (auto simp: appendSubscriptionPlanID_def)
qed

lemma row_count_perm: "mset xs = mset ys \<Longrightarrow> row_count Q u t xs = row_count Q u t ys"
  unfolding row_count_def by (metis mset_filter size_mset)

lemma existing_rows:
  assumes "now \<le> t"
  shows "row_count Q u t (existing_subscriptions u now db) = row_count Q u t (db_subscriptions db)"
proof -
  have "row_count Q u t (existing_subscriptions u now db) = row_count Q u t (filter (runs_after u now) (db_subscriptions db))"
    by (rule row_count_perm) (simp add: existing_subscriptions_def)
  also have "\<dots> = row_count Q u t (db_subscriptions db)"
  proof -
    have "row_runs u t s \<Longrightarrow> runs_after u now s" for s
      using assms by (auto simp: row_runs_def runs_after_def split: option.splits)
    then show ?thesis by (auto simp: row_count_def intro!: arg_cong [where f = length] filter_cong)
  qed
  finally show ?thesis .
qed

lemma paid_nonneg: "\<forall>x \<in> set xs. usable_segment x \<Longrightarrow> 0 \<le> paid P xs \<and> (0 < paid P xs \<longleftrightarrow> (\<exists>x \<in> set xs. P (seg_owner x)))"
  by (induction xs) (auto simp: usable_segment_def)

text \<open>The state a grant starts from: at most one plan runs at a time, and the rows name plans that exist.\<close>

definition one_plan :: "nat \<Rightarrow> gotime \<Rightarrow> billing_db \<Rightarrow> bool" where
  "one_plan u now db \<longleftrightarrow> (\<forall>t. now \<le> t \<longrightarrow> row_count (\<lambda>_. True) u t (db_subscriptions db) \<le> 1)"

definition plans_known :: "nat \<Rightarrow> gotime \<Rightarrow> billing_db \<Rightarrow> bool" where
  "plans_known u now db \<longleftrightarrow> (\<forall>s \<in> set (db_subscriptions db). runs_after u now s \<longrightarrow>
     sb_PlanID s \<noteq> 0 \<and> sb_PriceID s \<noteq> 0 \<and> find_plan (sb_PlanID s) db \<noteq> None)"

definition request_ok :: "grant_request \<Rightarrow> billing_db \<Rightarrow> bool" where
  "request_ok inp db \<longleftrightarrow> gq_UserID inp \<noteq> 0 \<and> bp_ID (gq_Plan inp) \<noteq> 0 \<and> pr_ID (gq_Price inp) \<noteq> 0 \<and> 0 < gq_Duration inp \<and>
     in_int64 (gq_Duration inp) \<and> \<not> is_zero (gq_StartAt inp) \<and> gq_NewGrant inp \<and> find_plan (bp_ID (gq_Plan inp)) db \<noteq> None"

text \<open>
  C14: granting a subscription never fails half-way, and the database then holds exactly
  the new timeline. From rows of which at most one runs at a time, the grant succeeds; from its start on,
  at every moment and for every plan, price and flags, the rows of the user that run are the segments of
  the timeline that was built from the old rows and the grant, so that again at most one plan runs.
\<close>

theorem grant_writes_timeline:
  assumes "subscriptions_ok db" and "request_ok inp db" and "one_plan (gq_UserID inp) (gq_StartAt inp) db"
    and "plans_known (gq_UserID inp) (gq_StartAt inp) db"
  shows "\<exists>rec db' plans old segments. grantSubscriptionOnTimeline clock inp db = Inr (rec, db') \<and> subscriptions_ok db' \<and>
    existing_segments plans (gq_StartAt inp) (existing_subscriptions (gq_UserID inp) (gq_StartAt inp) db) = Inr old \<and>
    buildSubscriptionTimeline old (request_timeline_grant (gq_StartAt inp) inp) = Inr segments \<and> timeline segments \<and>
    (\<forall>Q t. gq_StartAt inp \<le> t \<longrightarrow> row_count Q (gq_UserID inp) t (db_subscriptions db') = seg_count Q t segments) \<and>
    one_plan (gq_UserID inp) (gq_StartAt inp) db'"
proof -
  let ?u = "gq_UserID inp" and ?now = "gq_StartAt inp" and ?g = "request_timeline_grant (gq_StartAt inp) inp"
  let ?items = "existing_subscriptions ?u ?now db"
  let ?ids = "appendSubscriptionPlanID ?items (bp_ID (gq_Plan inp))"
  have items: "set ?items = {s \<in> set (db_subscriptions db). runs_after ?u ?now s}"
    by (auto simp: existing_subscriptions_def)
  have pos: "0 < bp_ID (gq_Plan inp)" using assms(2) by (simp add: request_ok_def)
  have known: "find_plan i db \<noteq> None" if "i \<in> set ?ids" for i
    using that assms(2,4) items unfolding appendSubscriptionPlanID_set [OF pos]
    by (auto simp: request_ok_def plans_known_def)
  define plans where "plans = (\<lambda>i. if i \<in> set ?ids then find_plan i db else None)"
  have b: "billingPlansForTimeline ?ids db = Inr plans"
    using known by (auto simp: billingPlansForTimeline_def plans_def)
  have rows: "\<forall>s \<in> set ?items. runs_after ?u ?now s \<and> sb_PlanID s \<noteq> 0 \<and> sb_PriceID s \<noteq> 0 \<and> plans (sb_PlanID s) \<noteq> None"
  proof
    fix s
    assume s: "s \<in> set ?items"
    then have "sb_PlanID s \<noteq> 0" "sb_PriceID s \<noteq> 0" "runs_after ?u ?now s" using assms(4) items by (auto simp: plans_known_def)
    moreover from this s have "sb_PlanID s \<in> set ?ids" unfolding appendSubscriptionPlanID_set [OF pos] by blast
    ultimately show "runs_after ?u ?now s \<and> sb_PlanID s \<noteq> 0 \<and> sb_PriceID s \<noteq> 0 \<and> plans (sb_PlanID s) \<noteq> None"
      using known by (simp add: plans_def)
  qed
  obtain old where old: "existing_segments plans ?now ?items = Inr old"
    "\<forall>x \<in> set old. usable_segment x \<and> sg_SubscriptionID x \<in> sb_ID ` set ?items \<and> ?now \<le> sg_StartAt x \<and> \<not> sg_NewGrant x"
    "\<forall>Q t. ?now \<le> t \<longrightarrow> seg_count Q t old = row_count Q ?u t ?items"
    using existing_segments_effects [OF rows] by (elim exE conjE) (rule that)
  have us: "filter usable_segment old = old" using old(2) by (simp add: filter_id_conv)
  have "running (\<lambda>_. True) t old \<le> 1" for t
  proof (cases "?now \<le> t")
    case True
    have "running (\<lambda>_. True) t old = seg_count (\<lambda>_. True) t old" by (simp add: seg_count_def)
    also have "\<dots> = row_count (\<lambda>_. True) ?u t (db_subscriptions db)" using old(3) existing_rows [OF True] True by simp
    finally show ?thesis using assms(3) True by (simp add: one_plan_def)
  next
    case False
    then have "\<forall>x \<in> set old. \<not> covers t x" using old(2) by (auto simp: covers_def)
    then have "running (\<lambda>_. True) t old = 0" by (metis running_pos gr0I)
    then show ?thesis by simp
  qed
  then have alone: "alone (filter usable_segment old)" by (simp add: us alone_def)
  have g: "grant_ok ?g" using assms(2) by (simp add: grant_ok_def request_ok_def request_timeline_grant_def)
  obtain segments where seg: "buildSubscriptionTimeline old ?g = Inr segments" "timeline segments"
    "\<forall>P. paid P segments = paid P old + (if P (gr_owner ?g) then gr_Duration ?g else 0)"
    using paid_time_conserved_segments [OF alone g] unfolding us by (elim exE conjE) (rule that)
  have use: "\<forall>x \<in> set segments. usable_segment x" using seg(2) by (simp add: timeline_def)
  have sub: "sg_SubscriptionID x = 0 \<or> sg_SubscriptionID x \<in> sb_ID ` set ?items" if x: "x \<in> set segments" for x
  proof (rule ccontr)
    assume no: "\<not> ?thesis"
    define P :: "owner \<Rightarrow> bool" where "P = (\<lambda>k. fst (snd k) \<noteq> 0 \<and> fst (snd k) \<notin> sb_ID ` set ?items)"
    have "0 < paid P segments" using paid_nonneg [OF use, of P] x no by (auto simp: P_def seg_owner_def)
    moreover have "\<not> 0 < paid P old" using paid_nonneg [of old P] old(2) by (auto simp: P_def seg_owner_def)
    moreover have "\<not> P (gr_owner ?g)" by (simp add: P_def gr_owner_def request_timeline_grant_def)
    ultimately show False using seg(3) by auto
  qed
  have gp: "grants_plan (bp_ID (gq_Plan inp)) segments"
  proof -
    define P :: "owner \<Rightarrow> bool" where "P = (\<lambda>k. k = gr_owner ?g)"
    have "0 \<le> paid P old" using paid_nonneg [of old P] old(2) by simp
    then have "0 < paid P segments" using seg(3) g by (auto simp: P_def grant_ok_def)
    then obtain x where "x \<in> set segments" "seg_owner x = gr_owner ?g" using paid_nonneg [OF use, of P] by (auto simp: P_def)
    then show ?thesis using assms(2)
      by (auto simp: grants_plan_def seg_owner_def gr_owner_def request_timeline_grant_def request_ok_def)
  qed
  have di: "distinct (map sb_ID ?items)"
  proof -
    have "distinct (map sb_ID (filter (runs_after ?u ?now) (db_subscriptions db)))"
      using assms(1) by (simp add: subscriptions_ok_def distinct_map_filter)
    moreover have "mset (map sb_ID ?items) = mset (map sb_ID (filter (runs_after ?u ?now) (db_subscriptions db)))"
      by (simp add: existing_subscriptions_def)
    ultimately show ?thesis by (metis mset_eq_imp_distinct_iff)
  qed
  have inr: "\<forall>s \<in> set ?items. s \<in> set (db_subscriptions db) \<and> sb_UserID s = ?u" using items by (auto simp: runs_after_def)
  have u0: "?u \<noteq> 0" using assms(2) by (simp add: request_ok_def)
  obtain rec db' where ap: "applySubscriptionTimeline ?u ?items segments ?now (bp_ID (gq_Plan inp)) db = Inr (rec, db')"
    "subscriptions_ok db'"
    "\<forall>Q t. ?now \<le> t \<longrightarrow> row_count Q ?u t (db_subscriptions db') + row_count Q ?u t ?items =
       row_count Q ?u t (db_subscriptions db) + seg_count Q t segments"
    using apply_effects [OF seg(2) u0 assms(1) di inr _ gp, of ?now] sub by blast
  have rows': "row_count Q ?u t (db_subscriptions db') = seg_count Q t segments" if "?now \<le> t" for Q t
    using ap(3) [rule_format, OF that, of Q] existing_rows [OF that, of Q ?u db] by linarith
  have "one_plan ?u ?now db'"
    using rows' timeline_alone [OF seg(2)] by (simp add: one_plan_def seg_count_def alone_def)
  moreover have "grantSubscriptionOnTimeline clock inp db = Inr (rec, db')"
    using assms(2) b old(1) seg(1) ap(1) by (simp add: grantSubscriptionOnTimeline_def request_ok_def Let_def)
  ultimately show ?thesis using ap(2) old(1) seg(1,2) rows' by blast
qed

text \<open>A user on a basic plan (rank 1) until 300 buys 100 of a plan with rank 2 at 50.\<close>

definition sample_plans_db :: billing_db where
  "sample_plans_db = empty_billing_db\<lparr>
     db_plans := [\<lparr>bp_ID = 1, bp_Code = ''basic'', bp_Name = [], bp_Description = [], bp_FeatureJSON = [],
         bp_PeriodCreditNanousd = 0, bp_SortOrder = 1, bp_IsActive = True, bp_PermissionGroupID = None\<rparr>,
       \<lparr>bp_ID = 2, bp_Code = ''pro'', bp_Name = [], bp_Description = [], bp_FeatureJSON = [],
         bp_PeriodCreditNanousd = 0, bp_SortOrder = 2, bp_IsActive = True, bp_PermissionGroupID = None\<rparr>],
     db_subscriptions := [\<lparr>sb_ID = 3, sb_UserID = 7, sb_PlanID = 1, sb_PriceID = 1, sb_Status = ''active'', sb_StartAt = 10,
         sb_CurrentPeriodStartAt = 10, sb_CurrentPeriodEndAt = Some 300, sb_CancelAtPeriodEnd = False, sb_CanceledAt = None,
         sb_AutoRenew = True\<rparr>],
     db_lastID := 3\<rparr>"

definition sample_request_pro :: grant_request where
  "sample_request_pro = \<lparr>gq_UserID = 7, gq_Plan = db_plans sample_plans_db ! 1,
     gq_Price = \<lparr>pr_ID = 5, pr_PlanID = 2, pr_Code = [], pr_BillingInterval = ''month'', pr_Currency = ''USD'', pr_AmountCents = 0,
       pr_IsActive = True, pr_IsDefault = True, pr_ExternalPriceRef = []\<rparr>,
     gq_StartAt = 50, gq_Duration = 100, gq_CancelAtPeriodEnd = False, gq_AutoRenew = True, gq_NewGrant = True\<rparr>"

lemma sample_plans_ok:
  "subscriptions_ok sample_plans_db" "request_ok sample_request_pro sample_plans_db" "one_plan 7 50 sample_plans_db"
  "plans_known 7 50 sample_plans_db"
proof -
  show "subscriptions_ok sample_plans_db" by (simp add: subscriptions_ok_def sample_plans_db_def)
  show "one_plan 7 50 sample_plans_db" by (simp add: one_plan_def sample_plans_db_def)
  show "plans_known 7 50 sample_plans_db" by (simp add: plans_known_def sample_plans_db_def find_plan_def)
  show "request_ok sample_request_pro sample_plans_db"
    by code_simp
qed

theorem grant_writes_timeline_witness:
  "\<exists>rec db'. grantSubscriptionOnTimeline 50 sample_request_pro sample_plans_db = Inr (rec, db') \<and> one_plan 7 50 db' \<and>
     map sb_CurrentPeriodEndAt (db_subscriptions db') = [Some 50, Some 400, Some 150]"
proof -
  have r: "gq_UserID sample_request_pro = 7" "gq_StartAt sample_request_pro = 50" by (simp_all add: sample_request_pro_def)
  obtain rec db' where g: "grantSubscriptionOnTimeline 50 sample_request_pro sample_plans_db = Inr (rec, db')" "one_plan 7 50 db'"
    using grant_writes_timeline [OF sample_plans_ok(1,2), of 50] sample_plans_ok(3,4) unfolding r by blast
  have "map_sum id (\<lambda>(rec, db'). map sb_CurrentPeriodEndAt (db_subscriptions db'))
      (grantSubscriptionOnTimeline 50 sample_request_pro sample_plans_db) = Inr [Some 50, Some 400, Some 150]"
    by code_simp
  then show ?thesis using g by simp
qed

end
