(* ===== verification/Billing_Payments.thy ===== *)
theory Billing_Payments
  imports Subscription_Grants
begin

text \<open>
  Money that comes in (\<open>repository.go\<close>): payment orders that are marked paid and credited or turned into a
  subscription, and redemption codes. Each of these operations is one transaction, so that a repeated
  callback of the payment provider or a code used twice is decided by what the rows say.
\<close>

section \<open>Payment orders\<close>

definition paid_time :: "gotime \<Rightarrow> gotime \<Rightarrow> gotime" where
  "paid_time clock paidAt = (if is_zero paidAt then clock else paidAt)"

definition mark_paid :: "payment_order \<Rightarrow> string \<Rightarrow> gotime \<Rightarrow> payment_order" where
  "mark_paid order externalPaymentID paidAt = order\<lparr>po_Status := ''paid'',
     po_ExternalPaymentID := trim_space externalPaymentID, po_PaidAt := Some paidAt\<rparr>"

definition order_expired :: "payment_order \<Rightarrow> gotime \<Rightarrow> bool" where
  "order_expired order paidAt \<longleftrightarrow> (case po_ExpiredAt order of None \<Rightarrow> False | Some e \<Rightarrow> e < paidAt)"

definition topup_description :: string where
  "topup_description = [CHR 0xE6, CHR 0x8C, CHR 0x89, CHR 0xE9, CHR 0x87, CHR 0x8F, CHR 0xE4, CHR 0xBD, CHR 0x99, CHR 0xE9, CHR 0xA2, CHR 0x9D, CHR 0xE5, CHR 0x85, CHR 0x85,
     CHR 0xE5, CHR 0x80, CHR 0xBC]"

text \<open>
  An order that expired before it was paid is refused; the code first updates its status to \<open>expired\<close> in
  the same transaction, which the error then rolls back. The result tells whether this call credited.
\<close>

definition credit_order_body :: "string \<Rightarrow> string \<Rightarrow> gotime \<Rightarrow> (payment_order \<times> bool) tx" where
  "credit_order_body orderNo externalPaymentID paidAt db0 =
     (case db_orders db0 orderNo of None \<Rightarrow> Inl ErrNotFound
      | Some order \<Rightarrow>
        if po_Status order = ''paid'' then Inr ((order, False), db0)
        else if po_Status order \<noteq> ''pending'' \<or> po_OrderType order \<noteq> ''topup'' \<or> po_CreditNanousd order \<le> 0 then Inl ErrInvalidInput
        else if order_expired order paidAt then Inl ErrInvalidInput
        else (case getOrCreateBillingAccountForUpdate (po_UserID order) db0 of Inl e \<Rightarrow> Inl e
          | Inr (account, db) \<Rightarrow>
            (let nextBalance = wrap64 (ba_BalanceNanousd account + po_CreditNanousd order);
                 db1 = update_balance (po_UserID order) nextBalance db;
                 db2 = snd (insert_transaction \<lparr>bt_ID = 0, bt_AccountID = ba_ID account, bt_UserID = po_UserID order,
                   bt_Type = ''topup'', bt_AmountNanousd = po_CreditNanousd order, bt_BalanceAfterNanousd = nextBalance,
                   bt_RefType = ''payment_order'', bt_RefID = po_ID order, bt_RefNo = po_OrderNo order,
                   bt_Description = topup_description\<rparr> db1);
                 order' = mark_paid order externalPaymentID paidAt
             in Inr ((order', True), db2\<lparr>db_orders := (db_orders db2)(orderNo \<mapsto> order')\<rparr>))))"

definition MarkPaymentOrderPaidAndCreditBalance ::
  "repo_error option \<Rightarrow> gotime \<Rightarrow> string \<Rightarrow> string \<Rightarrow> gotime \<Rightarrow> billing_db \<Rightarrow> (repo_error + payment_order \<times> bool) \<times> billing_db" where
  "MarkPaymentOrderPaidAndCreditBalance fault clock orderNo0 externalPaymentID paidAt db =
     (let orderNo = trim_space orderNo0 in
      if orderNo = [] then (Inl ErrInvalidInput, db)
      else transaction fault (credit_order_body orderNo externalPaymentID (paid_time clock paidAt)) db)"

definition grant_order_body ::
  "gotime \<Rightarrow> string \<Rightarrow> string \<Rightarrow> gotime \<Rightarrow> subscription \<Rightarrow> (payment_order \<times> bool) tx" where
  "grant_order_body clock orderNo externalPaymentID paidAt sub db =
     (case db_orders db orderNo of None \<Rightarrow> Inl ErrNotFound
      | Some order \<Rightarrow>
        if po_Status order = ''paid'' then Inr ((order, False), db)
        else if po_Status order \<noteq> ''pending'' then Inl ErrInvalidInput
        else if po_OrderType order \<noteq> [] \<and> po_OrderType order \<noteq> ''subscription'' then Inl ErrInvalidInput
        else if order_expired order paidAt then Inl ErrInvalidInput
        else (case List.find (\<lambda>p. bp_ID p = sb_PlanID sub \<and> bp_IsActive p) (db_plans db) of None \<Rightarrow> Inl ErrNotFound
          | Some plan \<Rightarrow>
            (case List.find (\<lambda>p. pr_ID p = sb_PriceID sub \<and> pr_PlanID p = sb_PlanID sub \<and> pr_IsActive p) (db_prices db) of
               None \<Rightarrow> Inl ErrNotFound
             | Some price \<Rightarrow>
               (case sb_CurrentPeriodEndAt sub of None \<Rightarrow> Inl ErrInvalidInput
                | Some endAt \<Rightarrow>
                  (let dur = time_sub endAt paidAt in
                   if dur \<le> 0 then Inl ErrInvalidInput
                   else (case grantSubscriptionOnTimeline clock \<lparr>gq_UserID = sb_UserID sub, gq_Plan = plan, gq_Price = price,
                       gq_StartAt = paidAt, gq_Duration = dur, gq_CancelAtPeriodEnd = sb_CancelAtPeriodEnd sub,
                       gq_AutoRenew = sb_AutoRenew sub, gq_NewGrant = True\<rparr> db of Inl e \<Rightarrow> Inl e
                     | Inr (_, db1) \<Rightarrow>
                       (let order' = mark_paid order externalPaymentID paidAt
                        in Inr ((order', True), db1\<lparr>db_orders := (db_orders db1)(orderNo \<mapsto> order')\<rparr>))))))))"

definition MarkPaymentOrderPaidAndGrantSubscription ::
  "repo_error option \<Rightarrow> gotime \<Rightarrow> string \<Rightarrow> string \<Rightarrow> gotime \<Rightarrow> subscription option \<Rightarrow> billing_db \<Rightarrow>
   (repo_error + payment_order \<times> bool) \<times> billing_db" where
  "MarkPaymentOrderPaidAndGrantSubscription fault clock orderNo0 externalPaymentID paidAt sub db =
     (let orderNo = trim_space orderNo0 in
      case sub of None \<Rightarrow> (Inl ErrInvalidInput, db)
      | Some s \<Rightarrow>
        if orderNo = [] then (Inl ErrInvalidInput, db)
        else transaction fault (grant_order_body clock orderNo externalPaymentID (paid_time clock paidAt) s) db)"

text \<open>Creating an order and storing the address of its checkout.\<close>

definition normalizeOrderType :: "string \<Rightarrow> string" where
  "normalizeOrderType value = (if trim_space value = ''topup'' then ''topup'' else ''subscription'')"

definition NormalizeInterval :: "string \<Rightarrow> string" where
  "NormalizeInterval value =
     (if trim_space value = ''year'' then ''year'' else if trim_space value = ''lifetime'' then ''lifetime'' else ''month'')"

definition ascii_upper :: "char \<Rightarrow> char" where
  "ascii_upper c = (if 97 \<le> (of_char c :: nat) \<and> (of_char c :: nat) \<le> 122 then char_of ((of_char c :: nat) - 32) else c)"

text \<open>\<open>strings.ToUpper\<close> on ASCII; on other texts it is an argument, as are Unicode's tables.\<close>

definition normalizeCurrency :: "(string \<Rightarrow> string) \<Rightarrow> string \<Rightarrow> string" where
  "normalizeCurrency unicode_upper value =
     (let t = trim_space value;
          normalized = (if list_all (\<lambda>c. (of_char c :: nat) < 128) t then map ascii_upper t else unicode_upper t)
      in if normalized = [] then ''USD'' else normalized)"

definition new_order :: "(string \<Rightarrow> string) \<Rightarrow> payment_order \<Rightarrow> payment_order" where
  "new_order upper item = \<lparr>po_ID = 0, po_OrderNo = trim_space (po_OrderNo item), po_OrderType = normalizeOrderType (po_OrderType item),
     po_UserID = po_UserID item, po_PlanID = po_PlanID item, po_PriceID = po_PriceID item, po_Provider = trim_space (po_Provider item),
     po_Status = (if trim_space (po_Status item) \<noteq> [] then trim_space (po_Status item) else ''pending''),
     po_BaseCurrency = normalizeCurrency upper (po_BaseCurrency item), po_BaseAmountCents = clampNonNegative (po_BaseAmountCents item),
     po_PayCurrency = normalizeCurrency upper (po_PayCurrency item), po_PayAmountCents = clampNonNegative (po_PayAmountCents item),
     po_FXRate = trim_space (po_FXRate item), po_CreditNanousd = clampNonNegative (po_CreditNanousd item),
     po_BillingInterval = NormalizeInterval (po_BillingInterval item), po_Cycles = (if po_Cycles item \<le> 0 then 1 else po_Cycles item),
     po_ExternalPaymentID = [], po_ExternalCheckoutID = [], po_CheckoutURL = [], po_PaidAt = None,
     po_ExpiredAt = po_ExpiredAt item, po_SnapshotJSON = trim_space (po_SnapshotJSON item)\<rparr>"

definition CreatePaymentOrder ::
  "(string \<Rightarrow> string) \<Rightarrow> repo_error option \<Rightarrow> payment_order option \<Rightarrow> billing_db \<Rightarrow> (repo_error + payment_order) \<times> billing_db" where
  "CreatePaymentOrder upper fault item db =
     (case item of None \<Rightarrow> (Inl ErrInvalidInput, db)
      | Some o1 \<Rightarrow>
        if trim_space (po_OrderNo o1) = [] then (Inl ErrInvalidInput, db)
        else transaction fault (\<lambda>db. if db_orders db (trim_space (po_OrderNo o1)) \<noteq> None then Inl ErrDuplicate
          else (let n = Suc (db_lastID db); rec = (new_order upper o1)\<lparr>po_ID := n\<rparr>
                in Inr (rec, db\<lparr>db_orders := (db_orders db)(po_OrderNo rec \<mapsto> rec), db_lastID := n\<rparr>))) db)"

definition UpdatePaymentOrderCheckout ::
  "repo_error option \<Rightarrow> string \<Rightarrow> string \<Rightarrow> string \<Rightarrow> billing_db \<Rightarrow> (repo_error + unit) \<times> billing_db" where
  "UpdatePaymentOrderCheckout fault orderNo0 externalCheckoutID checkoutURL db =
     (let orderNo = trim_space orderNo0 in
      if orderNo = [] then (Inl ErrInvalidInput, db)
      else transaction fault (\<lambda>db. Inr ((), db\<lparr>db_orders := (db_orders db)(orderNo := map_option
        (\<lambda>o1. o1\<lparr>po_ExternalCheckoutID := trim_space externalCheckoutID, po_CheckoutURL := trim_space checkoutURL\<rparr>)
        (db_orders db orderNo))\<rparr>)) db)"

definition GetPaymentOrderByOrderNo :: "repo_error option \<Rightarrow> string \<Rightarrow> billing_db \<Rightarrow> repo_error + payment_order" where
  "GetPaymentOrderByOrderNo fault orderNo db =
     (case fault of Some e \<Rightarrow> Inl e
      | None \<Rightarrow> (case db_orders db (trim_space orderNo) of None \<Rightarrow> Inl ErrNotFound | Some o1 \<Rightarrow> Inr o1))"

section \<open>Redemption codes\<close>

definition RedemptionCodeModeAvailableInBillingMode :: "string \<Rightarrow> string \<Rightarrow> bool" where
  "RedemptionCodeModeAvailableInBillingMode codeMode billingMode \<longleftrightarrow>
     (if trim_space billingMode = ''usage'' then trim_space codeMode = ''usage''
      else if trim_space billingMode = ''period'' then trim_space codeMode = ''usage'' \<or> trim_space codeMode = ''period''
      else False)"

definition RedemptionCodeModesAvailableInBillingMode :: "string \<Rightarrow> string list" where
  "RedemptionCodeModesAvailableInBillingMode billingMode =
     (if trim_space billingMode = ''usage'' then [''usage'']
      else if trim_space billingMode = ''period'' then [''usage'', ''period''] else [])"

definition user_redemptions :: "nat \<Rightarrow> nat \<Rightarrow> billing_db \<Rightarrow> int" where
  "user_redemptions codeID userID db = int (length (filter (\<lambda>r. rd_CodeID r = codeID \<and> rd_UserID r = userID) (db_redemptions db)))"

definition per_user_limit :: "redemption_code \<Rightarrow> int" where
  "per_user_limit code = (if rc_PerUserLimit code \<le> 0 then 1 else rc_PerUserLimit code)"

definition validateRedeemableCode :: "redemption_code \<Rightarrow> nat \<Rightarrow> string \<Rightarrow> gotime \<Rightarrow> billing_db \<Rightarrow> repo_error option" where
  "validateRedeemableCode code userID currentMode now db =
     (if rc_Status code \<noteq> ''active'' \<or> \<not> RedemptionCodeModeAvailableInBillingMode (rc_Mode code) currentMode \<or>
         (case rc_ExpiresAt code of None \<Rightarrow> False | Some e \<Rightarrow> \<not> now < e) then Some ErrRedemptionUnavailable
      else if (case rc_MaxRedemptions code of None \<Rightarrow> False | Some m \<Rightarrow> m \<le> rc_RedeemedCount code) then Some ErrRedemptionExhausted
      else if per_user_limit code \<le> user_redemptions (rc_ID code) userID db then Some ErrRedemptionUserLimitExceeded
      else if rc_Mode code = ''usage'' then
        (if rc_RewardType code \<noteq> ''balance'' \<or> rc_CreditNanousd code \<le> 0 then Some ErrInvalidInput else None)
      else if rc_Mode code = ''period'' then
        (if rc_RewardType code \<noteq> ''subscription'' \<or> rc_PlanID code = 0 then Some ErrInvalidInput else None)
      else Some ErrRedemptionUnavailable)"

definition redemption_description :: string where
  "redemption_description = [CHR 0xE5, CHR 0x85, CHR 0x91, CHR 0xE6, CHR 0x8D, CHR 0xA2, CHR 0xE7, CHR 0xA0, CHR 0x81, CHR 0xE5, CHR 0x85, CHR 0xA5, CHR 0xE8, CHR 0xB4, CHR 0xA6]"

definition applyRedemptionBalance :: "nat \<Rightarrow> redemption_code \<Rightarrow> string \<Rightarrow> (billing_account \<times> nat) tx" where
  "applyRedemptionBalance userID code refNo db0 =
     (case getOrCreateBillingAccountForUpdate userID db0 of Inl e \<Rightarrow> Inl e
      | Inr (_, db) \<Rightarrow>
        (case add_to_balance userID (rc_CreditNanousd code) db of Inl e \<Rightarrow> Inl e
         | Inr (_, db1) \<Rightarrow>
           (case db_accounts db1 userID of None \<Rightarrow> Inl ErrNotFound
            | Some account \<Rightarrow>
              (let (txID, db2) = insert_transaction \<lparr>bt_ID = 0, bt_AccountID = ba_ID account, bt_UserID = userID,
                   bt_Type = ''redemption'', bt_AmountNanousd = rc_CreditNanousd code,
                   bt_BalanceAfterNanousd = ba_BalanceNanousd account, bt_RefType = ''redemption_code'', bt_RefID = rc_ID code,
                   bt_RefNo = trim_space refNo,
                   bt_Description = (if trim_space (rc_Description code) \<noteq> [] then trim_space (rc_Description code)
                     else redemption_description)\<rparr> db1
               in Inr ((account, txID), db2)))))"

text \<open>\<open>time.Duration(days) * 24 * time.Hour\<close>, each product in 64 bits.\<close>

definition days_duration :: "int \<Rightarrow> duration" where
  "days_duration n = wrap64 (wrap64 (n * 24) * hour)"

definition applyRedemptionSubscription :: "gotime \<Rightarrow> nat \<Rightarrow> redemption_code \<Rightarrow> gotime \<Rightarrow> subscription tx" where
  "applyRedemptionSubscription clock userID code now db =
     (case List.find (\<lambda>p. bp_ID p = rc_PlanID code \<and> bp_IsActive p) (db_plans db) of None \<Rightarrow> Inl ErrNotFound
      | Some plan \<Rightarrow>
        (case activeDefaultPriceForPlan (bp_ID plan) db of Inl e \<Rightarrow> Inl e
         | Inr price \<Rightarrow>
           if rc_DurationDays code \<le> 0 then Inl ErrInvalidInput
           else grantSubscriptionOnTimeline clock \<lparr>gq_UserID = userID, gq_Plan = plan, gq_Price = price, gq_StartAt = now,
             gq_Duration = days_duration (rc_DurationDays code), gq_CancelAtPeriodEnd = False, gq_AutoRenew = False,
             gq_NewGrant = True\<rparr> db))"

datatype json_scalar = JInt int | JStr string

text \<open>The snapshot kept with a redemption; \<open>encode\<close> is \<open>json.Marshal\<close> of these members.\<close>

definition redemptionSnapshotJSON :: "((string \<times> json_scalar) list \<Rightarrow> string option) \<Rightarrow> redemption_code \<Rightarrow> string" where
  "redemptionSnapshotJSON encode code =
     (case encode [(''code_id'', JInt (int (rc_ID code))), (''mode'', JStr (rc_Mode code)), (''reward_type'', JStr (rc_RewardType code)),
        (''credit_nanousd'', JInt (rc_CreditNanousd code)), (''plan_id'', JInt (int (rc_PlanID code))),
        (''duration_days'', JInt (rc_DurationDays code)), (''description'', JStr (trim_space (rc_Description code)))] of
        None \<Rightarrow> ''{}'' | Some s \<Rightarrow> s)"

record redemption_input =
  ri_CodeHash :: string
  ri_User :: nat
  ri_CurrentMode :: string
  ri_RefNo :: string
  ri_SubscriptionAt :: gotime

record redemption_result =
  rr_Code :: redemption_code
  rr_Redemption :: redemption
  rr_Account :: "billing_account option"
  rr_Subscription :: "subscription option"

text \<open>The reward: the account and its transaction, or the subscription.\<close>

definition apply_reward ::
  "gotime \<Rightarrow> redemption_input \<Rightarrow> gotime \<Rightarrow> redemption_code \<Rightarrow> ((billing_account \<times> nat) option \<times> subscription option) tx" where
  "apply_reward clock inp now code db =
     (if rc_RewardType code = ''balance'' then
        (case applyRedemptionBalance (ri_User inp) code (trim_space (ri_RefNo inp)) db of Inl e \<Rightarrow> Inl e
         | Inr (x, db') \<Rightarrow> Inr ((Some x, None), db'))
      else if rc_RewardType code = ''subscription'' then
        (case applyRedemptionSubscription clock (ri_User inp) code now db of Inl e \<Rightarrow> Inl e
         | Inr (s, db') \<Rightarrow> Inr ((None, Some s), db'))
      else Inl ErrInvalidInput)"

definition redeem_body ::
  "((string \<times> json_scalar) list \<Rightarrow> string option) \<Rightarrow> gotime \<Rightarrow> redemption_input \<Rightarrow> gotime \<Rightarrow> redemption_result tx" where
  "redeem_body encode clock inp now db =
     (case List.find (\<lambda>c. rc_CodeHash c = trim_space (ri_CodeHash inp)) (db_codes db) of None \<Rightarrow> Inl ErrRedemptionUnavailable
      | Some code \<Rightarrow>
        (case validateRedeemableCode code (ri_User inp) (trim_space (ri_CurrentMode inp)) now db of Some e \<Rightarrow> Inl e
         | None \<Rightarrow>
           (case apply_reward clock inp now code db of Inl e \<Rightarrow> Inl e
            | Inr ((account, sub), db1) \<Rightarrow>
              (case db_int (rc_RedeemedCount code + 1) of Inl e \<Rightarrow> Inl e
               | Inr redeemed \<Rightarrow>
                 (let n = Suc (db_lastID db1);
                      red = \<lparr>rd_ID = n, rd_CodeID = rc_ID code, rd_UserID = ri_User inp, rd_Mode = rc_Mode code,
                        rd_RewardType = rc_RewardType code, rd_CreditNanousd = rc_CreditNanousd code, rd_PlanID = rc_PlanID code,
                        rd_SubscriptionID = (case sub of None \<Rightarrow> 0 | Some s \<Rightarrow> sb_ID s),
                        rd_BalanceTransactionID = (case account of None \<Rightarrow> 0 | Some (_, t) \<Rightarrow> t),
                        rd_RefNo = trim_space (ri_RefNo inp), rd_SnapshotJSON = redemptionSnapshotJSON encode code\<rparr>;
                      code' = code\<lparr>rc_RedeemedCount := redeemed\<rparr>;
                      db2 = db1\<lparr>db_redemptions := db_redemptions db1 @ [red], db_lastID := n,
                        db_codes := map (\<lambda>c. if rc_ID c = rc_ID code then c\<lparr>rc_RedeemedCount := redeemed\<rparr> else c) (db_codes db1)\<rparr>
                  in Inr (\<lparr>rr_Code = code', rr_Redemption = red, rr_Account = map_option fst account, rr_Subscription = sub\<rparr>, db2))))))"

definition RedeemCode ::
  "((string \<times> json_scalar) list \<Rightarrow> string option) \<Rightarrow> repo_error option \<Rightarrow> gotime \<Rightarrow> redemption_input \<Rightarrow> billing_db \<Rightarrow>
   (repo_error + redemption_result) \<times> billing_db" where
  "RedeemCode encode fault clock inp db =
     (if trim_space (ri_CodeHash inp) = [] \<or> ri_User inp = 0 then (Inl ErrInvalidInput, db)
      else transaction fault (redeem_body encode clock inp
        (if is_zero (ri_SubscriptionAt inp) then clock else ri_SubscriptionAt inp)) db)"

text \<open>Managing the codes.\<close>

definition normalizeRedemptionMode :: "string \<Rightarrow> string" where
  "normalizeRedemptionMode value = (if trim_space value = ''period'' then ''period'' else ''usage'')"

definition normalizeRedemptionRewardType :: "string \<Rightarrow> string" where
  "normalizeRedemptionRewardType value = (if trim_space value = ''subscription'' then ''subscription'' else ''balance'')"

definition normalizeRedemptionStatus :: "string \<Rightarrow> string" where
  "normalizeRedemptionStatus value =
     (if trim_space value = ''inactive'' then ''inactive'' else if trim_space value = ''deleted'' then ''deleted'' else ''active'')"

definition new_code :: "redemption_code \<Rightarrow> redemption_code" where
  "new_code item = \<lparr>rc_ID = 0, rc_CodeHash = trim_space (rc_CodeHash item), rc_CodeEncrypted = trim_space (rc_CodeEncrypted item),
     rc_CodeHint = trim_space (rc_CodeHint item), rc_Mode = normalizeRedemptionMode (rc_Mode item),
     rc_RewardType = normalizeRedemptionRewardType (rc_RewardType item), rc_CreditNanousd = clampNonNegative (rc_CreditNanousd item),
     rc_PlanID = rc_PlanID item, rc_DurationDays = rc_DurationDays item, rc_MaxRedemptions = rc_MaxRedemptions item,
     rc_PerUserLimit = (if rc_PerUserLimit item \<le> 0 then 1 else rc_PerUserLimit item), rc_RedeemedCount = 0,
     rc_Status = normalizeRedemptionStatus (rc_Status item), rc_ExpiresAt = rc_ExpiresAt item,
     rc_Description = trim_space (rc_Description item), rc_CreatedByUserID = rc_CreatedByUserID item\<rparr>"

definition CreateRedemptionCode ::
  "repo_error option \<Rightarrow> redemption_code option \<Rightarrow> billing_db \<Rightarrow> (repo_error + redemption_code) \<times> billing_db" where
  "CreateRedemptionCode fault item db =
     (case item of None \<Rightarrow> (Inl ErrInvalidInput, db)
      | Some c \<Rightarrow>
        if trim_space (rc_CodeHash c) = [] then (Inl ErrInvalidInput, db)
        else transaction fault (\<lambda>db. if list_ex (\<lambda>x. rc_CodeHash x = trim_space (rc_CodeHash c)) (db_codes db) then Inl ErrDuplicate
          else (let n = Suc (db_lastID db); rec = (new_code c)\<lparr>rc_ID := n\<rparr>
                in Inr (rec, db\<lparr>db_codes := db_codes db @ [rec], db_lastID := n\<rparr>))) db)"

record redemption_patch =
  rp_Status :: "string option"
  rp_MaxRedemptionsSet :: bool
  rp_MaxRedemptions :: "int option"
  rp_PerUserLimit :: "int option"
  rp_ExpiresAtSet :: bool
  rp_ExpiresAt :: "gotime option"
  rp_Description :: "string option"

definition update_code :: "nat \<Rightarrow> (redemption_code \<Rightarrow> redemption_code) \<Rightarrow> billing_db \<Rightarrow> billing_db" where
  "update_code i f db = db\<lparr>db_codes := map (\<lambda>c. if rc_ID c = i then f c else c) (db_codes db)\<rparr>"

definition find_code :: "nat \<Rightarrow> billing_db \<Rightarrow> redemption_code option" where
  "find_code i db = List.find (\<lambda>c. rc_ID c = i \<and> rc_Status c \<noteq> ''deleted'') (db_codes db)"

definition patch_code :: "redemption_patch \<Rightarrow> redemption_code \<Rightarrow> redemption_code" where
  "patch_code patch c = c\<lparr>
     rc_Status := (case rp_Status patch of None \<Rightarrow> rc_Status c | Some v \<Rightarrow> normalizeRedemptionStatus v),
     rc_MaxRedemptions := (if rp_MaxRedemptionsSet patch then rp_MaxRedemptions patch else rc_MaxRedemptions c),
     rc_PerUserLimit := (case rp_PerUserLimit patch of None \<Rightarrow> rc_PerUserLimit c | Some v \<Rightarrow> v),
     rc_ExpiresAt := (if rp_ExpiresAtSet patch then rp_ExpiresAt patch else rc_ExpiresAt c),
     rc_Description := (case rp_Description patch of None \<Rightarrow> rc_Description c | Some v \<Rightarrow> trim_space v)\<rparr>"

definition PatchRedemptionCode ::
  "repo_error option \<Rightarrow> nat \<Rightarrow> redemption_patch \<Rightarrow> billing_db \<Rightarrow> (repo_error + redemption_code) \<times> billing_db" where
  "PatchRedemptionCode fault i patch db =
     (if i = 0 then (Inl ErrInvalidInput, db)
      else transaction fault (\<lambda>db.
        case find_code i db of None \<Rightarrow> Inl ErrNotFound
        | Some rec \<Rightarrow>
          if rp_MaxRedemptionsSet patch \<and> (case rp_MaxRedemptions patch of None \<Rightarrow> False
               | Some m \<Rightarrow> m \<le> 0 \<or> m < rc_RedeemedCount rec) then Inl ErrInvalidInput
          else if (case rp_PerUserLimit patch of None \<Rightarrow> False | Some l \<Rightarrow> l \<le> 0) then Inl ErrInvalidInput
          else if (case rc_MaxRedemptions (patch_code patch rec) of None \<Rightarrow> False
               | Some m \<Rightarrow> m < rc_PerUserLimit (patch_code patch rec)) then Inl ErrInvalidInput
          else Inr (patch_code patch rec, update_code i (patch_code patch) db)) db)"

definition DeleteRedemptionCode :: "repo_error option \<Rightarrow> nat \<Rightarrow> billing_db \<Rightarrow> (repo_error + unit) \<times> billing_db" where
  "DeleteRedemptionCode fault i db =
     (if i = 0 then (Inl ErrInvalidInput, db)
      else transaction fault (\<lambda>db. case find_code i db of None \<Rightarrow> Inl ErrNotFound
        | Some _ \<Rightarrow> Inr ((), update_code i (\<lambda>c. c\<lparr>rc_Status := ''deleted''\<rparr>) db)) db)"

definition GetRedemptionCodeByID :: "repo_error option \<Rightarrow> nat \<Rightarrow> billing_db \<Rightarrow> repo_error + redemption_code" where
  "GetRedemptionCodeByID fault i db =
     (if i = 0 then Inl ErrInvalidInput
      else case fault of Some e \<Rightarrow> Inl e
        | None \<Rightarrow> (case find_code i db of None \<Rightarrow> Inl ErrNotFound | Some c \<Rightarrow> Inr c))"

section \<open>Effects\<close>

text \<open>A grant touches no table but the subscriptions.\<close>

definition subscriptions_only :: "billing_db \<Rightarrow> billing_db \<Rightarrow> bool" where
  "subscriptions_only db db' \<longleftrightarrow> (\<exists>ss n. db' = db\<lparr>db_subscriptions := ss, db_lastID := n\<rparr> \<and> db_lastID db \<le> n)"

lemma subscriptions_only_refl: "subscriptions_only db db"
  unfolding subscriptions_only_def by (intro exI [of _ "db_subscriptions db"] exI [of _ "db_lastID db"]) simp

lemma subscriptions_only_trans: "subscriptions_only a b \<Longrightarrow> subscriptions_only b c \<Longrightarrow> subscriptions_only a c"
  unfolding subscriptions_only_def by force

lemma update_subscription_only: "subscriptions_only db (update_subscription i f db)"
  unfolding subscriptions_only_def update_subscription_def by (intro exI conjI) auto

lemma insert_subscription_only: "insert_subscription s db = (s', db') \<Longrightarrow> subscriptions_only db db'"
  unfolding subscriptions_only_def insert_subscription_def Let_def
  by (intro exI [of _ "db_subscriptions db @ [s\<lparr>sb_ID := Suc (db_lastID db)\<rparr>]"] exI [of _ "Suc (db_lastID db)"]) auto

lemma segment_steps_only:
  "updateSubscriptionSegment item x now db = Inr (rec, db') \<Longrightarrow> subscriptions_only db db'"
  "createSubscriptionSegment u x db = Inr (rec, db') \<Longrightarrow> subscriptions_only db db'"
  "subscriptions_only db (expireSubscriptionForTimeline item now db)"
  by (auto simp: updateSubscriptionSegment_def createSubscriptionSegment_def expireSubscriptionForTimeline_def Let_def
      update_subscription_only insert_subscription_only split: option.splits if_splits)

lemma apply_targets_only:
  "apply_targets u planID now item reusable index targets granted db = Inr (granted', db') \<Longrightarrow> subscriptions_only db db'"
proof (induction targets arbitrary: index granted db)
  case Nil
  then show ?case by (simp add: subscriptions_only_refl)
next
  case (Cons x xs)
  then obtain rec db1 g1 where "subscriptions_only db db1"
    "apply_targets u planID now item reusable (Suc index) xs g1 db1 = Inr (granted', db')"
    by (auto split: option.splits if_splits sum.splits dest: segment_steps_only(1,2))
  then show ?case using Cons.IH subscriptions_only_trans by blast
qed

lemma apply_rows_only:
  "apply_rows u planID now segments items granted db = Inr (granted', db') \<Longrightarrow> subscriptions_only db db'"
proof (induction items arbitrary: granted db)
  case Nil
  then show ?case by (simp add: subscriptions_only_refl)
next
  case (Cons item items)
  let ?db0 = "expireSubscriptionForTimeline item now db"
  have e: "subscriptions_only db ?db0" by (rule segment_steps_only(3))
  have "\<exists>g1 db1. subscriptions_only db db1 \<and> apply_rows u planID now segments items g1 db1 = Inr (granted', db')"
  proof (cases "filter (\<lambda>x. 0 < sg_SubscriptionID x \<and> sg_SubscriptionID x = sb_ID item) segments = []")
    case True
    have "apply_rows u planID now segments (item # items) granted db = apply_rows u planID now segments items granted ?db0"
      by (simp only: apply_rows.simps Let_def True if_True refl)
    then show ?thesis using Cons.prems e by auto
  next
    case False
    then show ?thesis using Cons.prems e
      by (auto simp: Let_def subscriptions_only_refl split: sum.splits if_splits
          dest!: apply_targets_only intro: subscriptions_only_trans)
  qed
  then show ?case using Cons.IH subscriptions_only_trans by blast
qed

lemma grant_only:
  assumes "grantSubscriptionOnTimeline clock inp db = Inr (rec, db')"
  shows "subscriptions_only db db'"
proof -
  have "subscriptions_only db db'" if a: "applySubscriptionTimeline u items segments now planID db = Inr (r, db')" for u items segments now planID r
  proof -
    obtain granted db1 granted' where "apply_rows u planID now (normalizeSubscriptionTimeline segments) items None db = Inr (granted, db1)"
      "apply_targets u planID now None None 0 (filter (\<lambda>x. sg_SubscriptionID x = 0) (normalizeSubscriptionTimeline segments)) granted db1 =
        Inr (granted', db')"
      using a by (auto simp: applySubscriptionTimeline_def Let_def split: sum.splits option.splits)
    then show ?thesis by (blast dest: apply_rows_only apply_targets_only intro: subscriptions_only_trans)
  qed
  then show ?thesis using assms
    by (auto simp: grantSubscriptionOnTimeline_def Let_def split: if_splits sum.splits)
qed

text \<open>What leaves accounts, audit trail, reservations and ledger alone keeps the books.\<close>

definition same_books :: "billing_db \<Rightarrow> billing_db \<Rightarrow> bool" where
  "same_books db db' \<longleftrightarrow> db_accounts db' = db_accounts db \<and> db_transactions db' = db_transactions db \<and>
     db_reservations db' = db_reservations db \<and> db_ledgers db' = db_ledgers db \<and> db_lastID db \<le> db_lastID db'"

lemma same_books_good_step:
  assumes "billing_inv db" and "same_books db db'"
  shows "good_step db db'"
proof -
  have "db_accounts db' = db_accounts db" using assms(2) by (simp add: same_books_def)
  then have "balance_of db' = balance_of db" by (rule balance_of_cong)
  then show ?thesis using assms
    by (auto simp: same_books_def good_step_def billing_inv_def posts_def history_def accounts_ok_def reservations_ok_def
        ledgers_ok_def intro: le_trans)
qed

lemma good_step_then_same:
  assumes "good_step db db1" and "same_books db1 db2"
  shows "good_step db db2"
proof -
  have "db_accounts db2 = db_accounts db1" using assms(2) by (simp add: same_books_def)
  then have "balance_of db2 = balance_of db1" by (rule balance_of_cong)
  moreover have "billing_inv db2" using same_books_good_step [OF _ assms(2)] assms(1) by (simp add: good_step_def)
  ultimately show ?thesis using assms by (simp add: same_books_def good_step_def posts_def history_def)
qed

lemma subscriptions_only_same_books: "subscriptions_only db db' \<Longrightarrow> same_books db db'"
  by (auto simp: subscriptions_only_def same_books_def)

text \<open>One posting: the new balance and its row of the audit trail.\<close>

lemma posting_good_step:
  assumes "billing_inv db" and "db_accounts db (bt_UserID t) = Some a"
    and "bt_BalanceAfterNanousd t = wrap64 (ba_BalanceNanousd a + bt_AmountNanousd t)"
  defines "db' \<equiv> snd (insert_transaction t (update_balance (bt_UserID t) (bt_BalanceAfterNanousd t) db))"
  shows "good_step db db'" "balance_of db' = (balance_of db)(bt_UserID t := bt_BalanceAfterNanousd t)"
    "db_transactions db' = db_transactions db @ [t\<lparr>bt_ID := Suc (db_lastID db)\<rparr>]"
proof -
  have acc: "db_accounts db' = db_accounts (update_balance (bt_UserID t) (bt_BalanceAfterNanousd t) db)"
    by (simp add: db'_def)
  show b: "balance_of db' = (balance_of db)(bt_UserID t := bt_BalanceAfterNanousd t)"
    using balance_of_cong [OF acc] assms(2) by simp
  show t: "db_transactions db' = db_transactions db @ [t\<lparr>bt_ID := Suc (db_lastID db)\<rparr>]" by (simp add: db'_def)
  have old: "balance_of db (bt_UserID t) = ba_BalanceNanousd a" using assms(2) by (simp add: balance_of_def)
  have "in_int64 (bt_BalanceAfterNanousd t)" using assms(3) wrap64_range by simp
  then have "accounts_ok db'"
    using accounts_ok_update [of db] assms(1) accounts_ok_cong [OF acc] by (simp add: billing_inv_def)
  then have "billing_inv db'"
    using assms(1) reservations_ok_cong [of db' db] ledgers_ok_cong [of db' db] by (simp add: billing_inv_def db'_def)
  moreover have "posts db db'"
    unfolding posts_def using b t old assms(3) by (intro disjI2 exI [of _ "t\<lparr>bt_ID := Suc (db_lastID db)\<rparr>"]) simp
  moreover have "history db db'" using acc by (simp add: history_def t) (simp add: db'_def)
  ultimately show "good_step db db'" by (simp add: good_step_def)
qed

text \<open>A paid order is answered from its row; the first payment credits it.\<close>

lemma credit_order_cases:
  assumes "credit_order_body orderNo ext paidAt db0 = Inr ((order', credited), db')"
  obtains (replay) "db_orders db0 orderNo = Some order'" "po_Status order' = ''paid''" "\<not> credited" "db' = db0"
    | (credit) order account db where "db_orders db0 orderNo = Some order" "po_Status order = ''pending''"
        "po_OrderType order = ''topup''" "0 < po_CreditNanousd order" "\<not> order_expired order paidAt" "credited"
        "getOrCreateBillingAccountForUpdate (po_UserID order) db0 = Inr (account, db)"
        "order' = mark_paid order ext paidAt"
        "\<exists>t. bt_UserID t = po_UserID order \<and> bt_AmountNanousd t = po_CreditNanousd order \<and> bt_RefNo t = po_OrderNo order \<and>
           bt_BalanceAfterNanousd t = wrap64 (ba_BalanceNanousd account + po_CreditNanousd order) \<and>
           db' = (snd (insert_transaction t (update_balance (bt_UserID t) (bt_BalanceAfterNanousd t) db)))\<lparr>db_orders :=
             (db_orders db0)(orderNo \<mapsto> order')\<rparr>"
proof (cases "db_orders db0 orderNo")
  case None
  then show ?thesis using assms by (simp add: credit_order_body_def)
next
  case (Some order)
  show ?thesis
  proof (cases "po_Status order = ''paid''")
    case True
    then show ?thesis using assms Some by (intro replay) (auto simp: credit_order_body_def)
  next
    case False
    have c: "po_Status order = ''pending''" "po_OrderType order = ''topup''" "0 < po_CreditNanousd order" "\<not> order_expired order paidAt"
      using assms Some False by (auto simp: credit_order_body_def split: if_splits)
    obtain account db where g: "getOrCreateBillingAccountForUpdate (po_UserID order) db0 = Inr (account, db)"
      using assms Some c by (auto simp: credit_order_body_def split: sum.splits)
    have o: "db_orders db = db_orders db0" using getOrCreate_effects [OF g] by simp
    let ?b = "wrap64 (ba_BalanceNanousd account + po_CreditNanousd order)"
    let ?t = "\<lparr>bt_ID = 0, bt_AccountID = ba_ID account, bt_UserID = po_UserID order, bt_Type = ''topup'',
      bt_AmountNanousd = po_CreditNanousd order, bt_BalanceAfterNanousd = ?b, bt_RefType = ''payment_order'',
      bt_RefID = po_ID order, bt_RefNo = po_OrderNo order, bt_Description = topup_description\<rparr>"
    have r: "order' = mark_paid order ext paidAt" "credited"
      "db' = (snd (insert_transaction ?t (update_balance (po_UserID order) ?b db)))\<lparr>db_orders := (db_orders db0)(orderNo \<mapsto> order')\<rparr>"
      using assms Some c g o by (auto simp: credit_order_body_def Let_def)
    show ?thesis by (rule credit [OF Some c r(2) g r(1)], rule exI [of _ ?t]) (simp add: r(3))
  qed
qed

lemma credit_order_step:
  assumes "credit_order_body orderNo ext paidAt db0 = Inr ((order', credited), db')" and "billing_inv db0"
  shows "good_step db0 db' \<and> (credited \<longrightarrow> balance_of db' = (balance_of db0)(po_UserID order' :=
       wrap64 (balance_of db0 (po_UserID order') + po_CreditNanousd order')) \<and>
     db_orders db' = (db_orders db0)(orderNo \<mapsto> order') \<and>
     (\<exists>t. db_transactions db' = db_transactions db0 @ [t] \<and> bt_UserID t = po_UserID order' \<and>
       bt_AmountNanousd t = po_CreditNanousd order' \<and> bt_RefNo t = po_OrderNo order'))"
  using assms(1)
proof (cases rule: credit_order_cases)
  case replay
  then show ?thesis using assms(2) by (simp add: good_step_refl)
next
  case (credit order account db)
  obtain t where t: "bt_UserID t = po_UserID order" "bt_AmountNanousd t = po_CreditNanousd order" "bt_RefNo t = po_OrderNo order"
    "bt_BalanceAfterNanousd t = wrap64 (ba_BalanceNanousd account + po_CreditNanousd order)" and
    db': "db' = (snd (insert_transaction t (update_balance (bt_UserID t) (bt_BalanceAfterNanousd t) db)))\<lparr>db_orders :=
      (db_orders db0)(orderNo \<mapsto> order')\<rparr>"
    using credit(9) by blast
  note g = getOrCreate_step [OF credit(7) assms(2)] and e = getOrCreate_effects [OF credit(7)]
  have acc: "db_accounts db (bt_UserID t) = Some account" using e(1) t(1) by simp
  note p = posting_good_step [OF g(1) acc, unfolded t(2), OF t(4)]
  have same: "same_books (snd (insert_transaction t (update_balance (bt_UserID t) (bt_BalanceAfterNanousd t) db))) db'"
    by (simp add: same_books_def db')
  have "good_step db db'" by (rule good_step_then_same [OF p(1) same])
  then have step: "good_step db0 db'" using g(4,5) by (simp add: good_step_def)
  have old: "balance_of db = balance_of db0" "balance_of db (po_UserID order) = ba_BalanceNanousd account"
    using e(2,3) by simp_all
  have "balance_of db' = balance_of (snd (insert_transaction t (update_balance (bt_UserID t) (bt_BalanceAfterNanousd t) db)))"
    by (rule balance_of_cong) (simp add: db')
  then have bal: "balance_of db' = (balance_of db0)(po_UserID order' :=
       wrap64 (balance_of db0 (po_UserID order') + po_CreditNanousd order'))"
    using p(2) old t credit(8) by (simp add: mark_paid_def)
  have "\<exists>t. db_transactions db' = db_transactions db0 @ [t] \<and> bt_UserID t = po_UserID order' \<and>
       bt_AmountNanousd t = po_CreditNanousd order' \<and> bt_RefNo t = po_OrderNo order'"
    using p(3) e t credit(8) by (intro exI [of _ "t\<lparr>bt_ID := Suc (db_lastID db)\<rparr>"]) (simp add: db' mark_paid_def)
  then show ?thesis using step bal by (simp add: db')
qed

text \<open>An order that pays for a subscription: the grant and the order's row.\<close>

lemma grant_order_cases:
  assumes "grant_order_body clock orderNo ext paidAt sub db = Inr ((order', granted), db')"
  obtains (replay) "db_orders db orderNo = Some order'" "po_Status order' = ''paid''" "\<not> granted" "db' = db"
    | (grant) order plan price endAt rec db1 where "db_orders db orderNo = Some order" "po_Status order = ''pending''"
        "po_OrderType order = [] \<or> po_OrderType order = ''subscription''" "\<not> order_expired order paidAt" "granted"
        "sb_CurrentPeriodEndAt sub = Some endAt" "0 < time_sub endAt paidAt"
        "grantSubscriptionOnTimeline clock \<lparr>gq_UserID = sb_UserID sub, gq_Plan = plan, gq_Price = price,
           gq_StartAt = paidAt, gq_Duration = time_sub endAt paidAt, gq_CancelAtPeriodEnd = sb_CancelAtPeriodEnd sub,
           gq_AutoRenew = sb_AutoRenew sub, gq_NewGrant = True\<rparr> db = Inr (rec, db1)"
        "List.find (\<lambda>p. bp_ID p = sb_PlanID sub \<and> bp_IsActive p) (db_plans db) = Some plan"
        "order' = mark_paid order ext paidAt" "db' = db1\<lparr>db_orders := (db_orders db)(orderNo \<mapsto> order')\<rparr>"
        "subscriptions_only db db1"
proof (cases "db_orders db orderNo")
  case None
  then show ?thesis using assms by (simp add: grant_order_body_def)
next
  case (Some order)
  show ?thesis
  proof (cases "po_Status order = ''paid''")
    case True
    then show ?thesis using assms Some by (intro replay) (auto simp: grant_order_body_def)
  next
    case False
    then have c: "po_Status order = ''pending''" "po_OrderType order = [] \<or> po_OrderType order = ''subscription''"
      "\<not> order_expired order paidAt"
      using assms Some by (auto simp: grant_order_body_def split: if_splits)
    obtain plan price endAt where p: "List.find (\<lambda>p. bp_ID p = sb_PlanID sub \<and> bp_IsActive p) (db_plans db) = Some plan"
      "List.find (\<lambda>p. pr_ID p = sb_PriceID sub \<and> pr_PlanID p = sb_PlanID sub \<and> pr_IsActive p) (db_prices db) = Some price"
      "sb_CurrentPeriodEndAt sub = Some endAt" "0 < time_sub endAt paidAt"
      using assms Some c by (auto simp: grant_order_body_def Let_def split: option.splits if_splits)
    obtain rec db1 where g: "grantSubscriptionOnTimeline clock \<lparr>gq_UserID = sb_UserID sub, gq_Plan = plan, gq_Price = price,
           gq_StartAt = paidAt, gq_Duration = time_sub endAt paidAt, gq_CancelAtPeriodEnd = sb_CancelAtPeriodEnd sub,
           gq_AutoRenew = sb_AutoRenew sub, gq_NewGrant = True\<rparr> db = Inr (rec, db1)"
      and r: "order' = mark_paid order ext paidAt" "granted" "db' = db1\<lparr>db_orders := (db_orders db1)(orderNo \<mapsto> order')\<rparr>"
      using assms Some c p by (auto simp: grant_order_body_def Let_def split: sum.splits)
    have so: "subscriptions_only db db1" by (rule grant_only [OF g])
    then have "db_orders db1 = db_orders db" by (auto simp: subscriptions_only_def)
    then show ?thesis using grant [OF Some c r(2) p(3,4) g p(1) r(1) _ so] r(3) by simp
  qed
qed

lemma grant_order_step:
  assumes "grant_order_body clock orderNo ext paidAt sub db = Inr ((order', granted), db')" and "billing_inv db"
  shows "good_step db db' \<and> balance_of db' = balance_of db \<and> (granted \<longrightarrow> db_orders db' = (db_orders db)(orderNo \<mapsto> order'))"
  using assms(1)
proof (cases rule: grant_order_cases)
  case replay
  then show ?thesis using assms(2) by (simp add: good_step_refl)
next
  case (grant order plan price endAt rec db1)
  have "same_books db db'" using subscriptions_only_same_books [OF grant(12)] by (simp add: same_books_def grant(11))
  moreover from this have "balance_of db' = balance_of db" by (intro balance_of_cong) (simp add: same_books_def)
  ultimately show ?thesis using same_books_good_step [OF assms(2)] grant(11) by simp
qed

text \<open>A redemption: the reward, then the row and the counter of the code.\<close>

lemma apply_reward_effects:
  assumes "apply_reward clock inp now code db = Inr ((account, sub), db')" and "billing_inv db"
  shows "good_step db db' \<and> db_codes db' = db_codes db \<and> db_redemptions db' = db_redemptions db \<and> db_orders db' = db_orders db \<and>
    (rc_RewardType code = ''balance'' \<longrightarrow> balance_of db' = (balance_of db)(ri_User inp := balance_of db (ri_User inp) + rc_CreditNanousd code)) \<and>
    (rc_RewardType code \<noteq> ''balance'' \<longrightarrow> balance_of db' = balance_of db)"
proof (cases "rc_RewardType code = ''balance''")
  case True
  let ?u = "ri_User inp"
  obtain x where b: "applyRedemptionBalance ?u code (trim_space (ri_RefNo inp)) db = Inr (x, db')"
    using assms(1) True by (auto simp: apply_reward_def split: sum.splits)
  obtain a db0 where g: "getOrCreateBillingAccountForUpdate ?u db = Inr (a, db0)"
    using b by (auto simp: applyRedemptionBalance_def split: sum.splits)
  note gs = getOrCreate_step [OF g assms(2)] and e = getOrCreate_effects [OF g] and f = getOrCreate_frame [OF g]
  obtain db1 where ad: "add_to_balance ?u (rc_CreditNanousd code) db0 = Inr ((), db1)"
    using b g by (auto simp: applyRedemptionBalance_def split: sum.splits)
  let ?n = "ba_BalanceNanousd a + rc_CreditNanousd code"
  note ae = add_to_balance_effects [OF ad e(1)]
  have acc: "db_accounts db1 ?u = Some (a\<lparr>ba_BalanceNanousd := ?n, ba_Currency := ''USD'', ba_Status := ''active''\<rparr>)"
    using ae(1) e(1) by (simp add: update_balance_def)
  define t where "t = \<lparr>bt_ID = 0, bt_AccountID = ba_ID a, bt_UserID = ?u, bt_Type = ''redemption'',
    bt_AmountNanousd = rc_CreditNanousd code, bt_BalanceAfterNanousd = ?n, bt_RefType = ''redemption_code'',
    bt_RefID = rc_ID code, bt_RefNo = trim_space (trim_space (ri_RefNo inp)),
    bt_Description = (if trim_space (rc_Description code) \<noteq> [] then trim_space (rc_Description code) else redemption_description)\<rparr>"
  have t: "bt_UserID t = ?u" "bt_AmountNanousd t = rc_CreditNanousd code" "bt_BalanceAfterNanousd t = ?n" by (simp_all add: t_def)
  have db': "db' = snd (insert_transaction t db1)"
    using b g ad acc by (auto simp: applyRedemptionBalance_def Let_def t_def split: prod.splits)
  have w: "bt_BalanceAfterNanousd t = wrap64 (ba_BalanceNanousd a + bt_AmountNanousd t)" using t ae(2) by simp
  have d: "db' = snd (insert_transaction t (update_balance (bt_UserID t) (bt_BalanceAfterNanousd t) db0))"
    using db' ae(1) t by simp
  have at: "db_accounts db0 (bt_UserID t) = Some a" using e(1) t(1) by simp
  note p = posting_good_step [OF gs(1) at w, folded d]
  have "good_step db db'" using p(1) gs(4,5) by (simp add: good_step_def)
  moreover have "balance_of db' = (balance_of db)(?u := balance_of db ?u + rc_CreditNanousd code)"
    using p(2) t e(2,3) by simp
  ultimately show ?thesis using True d f e(7) by simp
next
  case False
  then obtain s where s: "applyRedemptionSubscription clock (ri_User inp) code now db = Inr (s, db')"
    using assms(1) by (auto simp: apply_reward_def split: sum.splits if_splits)
  have so: "subscriptions_only db db'"
    using s by (auto simp: applyRedemptionSubscription_def split: option.splits sum.splits if_splits dest: grant_only)
  have "balance_of db' = balance_of db" by (rule balance_of_cong) (use so in \<open>auto simp: subscriptions_only_def\<close>)
  then show ?thesis
    using False so same_books_good_step [OF assms(2) subscriptions_only_same_books [OF so]] by (auto simp: subscriptions_only_def)
qed

lemma redeem_cases:
  assumes "redeem_body encode clock inp now db = Inr (res, db')"
  obtains code account sub db1 where
    "List.find (\<lambda>c. rc_CodeHash c = trim_space (ri_CodeHash inp)) (db_codes db) = Some code"
    "validateRedeemableCode code (ri_User inp) (trim_space (ri_CurrentMode inp)) now db = None"
    "apply_reward clock inp now code db = Inr ((account, sub), db1)" "in_int64 (rc_RedeemedCount code + 1)"
    "rr_Code res = code\<lparr>rc_RedeemedCount := rc_RedeemedCount code + 1\<rparr>"
    "rd_CodeID (rr_Redemption res) = rc_ID code" "rd_UserID (rr_Redemption res) = ri_User inp"
    "db' = db1\<lparr>db_redemptions := db_redemptions db1 @ [rr_Redemption res], db_lastID := Suc (db_lastID db1),
       db_codes := map (\<lambda>c. if rc_ID c = rc_ID code then c\<lparr>rc_RedeemedCount := rc_RedeemedCount code + 1\<rparr> else c) (db_codes db1)\<rparr>"
proof -
  obtain code where c: "List.find (\<lambda>c. rc_CodeHash c = trim_space (ri_CodeHash inp)) (db_codes db) = Some code"
    "validateRedeemableCode code (ri_User inp) (trim_space (ri_CurrentMode inp)) now db = None"
    using assms by (auto simp: redeem_body_def split: option.splits)
  obtain account sub db1 where r: "apply_reward clock inp now code db = Inr ((account, sub), db1)"
    using assms c by (auto simp: redeem_body_def split: sum.splits)
  have i: "in_int64 (rc_RedeemedCount code + 1)"
    using assms c r by (auto simp: redeem_body_def db_int_def split: if_splits)
  show ?thesis
    by (rule that [OF c r i]) (use assms c r i in \<open>auto simp: redeem_body_def Let_def db_int_def\<close>)
qed

lemma redeem_step:
  assumes "redeem_body encode clock inp now db = Inr (res, db')" and "billing_inv db"
  shows "good_step db db' \<and> db_orders db' = db_orders db"
  using assms(1)
proof (cases rule: redeem_cases)
  case (1 code account sub db1)
  note e = apply_reward_effects [OF 1(3) assms(2)]
  have "same_books db1 db'" by (simp add: same_books_def 1(8))
  then show ?thesis using e good_step_then_same by (simp add: 1(8)) blast
qed

text \<open>The other operations on orders, codes and subscriptions.\<close>

lemma transaction_same_books:
  assumes "\<And>x db'. body db = Inr (x, db') \<Longrightarrow> same_books db db'" and "billing_inv db"
  shows "good_step db (snd (transaction fault body db))"
  by (rule transaction_good_step) (use assms same_books_good_step in blast)+

lemma insert_subscription_books: "same_books db (snd (insert_subscription s db))"
  by (simp add: same_books_def insert_subscription_def Let_def)

lemma create_order_step: "billing_inv db \<Longrightarrow> good_step db (snd (CreatePaymentOrder upper fault item db))"
  by (auto simp: CreatePaymentOrder_def good_step_refl same_books_def Let_def intro!: transaction_same_books split: option.splits if_splits)

lemma update_checkout_step: "billing_inv db \<Longrightarrow> good_step db (snd (UpdatePaymentOrderCheckout fault no cid url db))"
  by (auto simp: UpdatePaymentOrderCheckout_def good_step_refl same_books_def Let_def intro!: transaction_same_books)

lemma code_steps:
  assumes "billing_inv db"
  shows "good_step db (snd (CreateRedemptionCode fault c db))" "good_step db (snd (PatchRedemptionCode fault i patch db))"
    "good_step db (snd (DeleteRedemptionCode fault i db))"
  using assms
  by (auto simp: CreateRedemptionCode_def PatchRedemptionCode_def DeleteRedemptionCode_def update_code_def good_step_refl
      same_books_def Let_def intro!: transaction_same_books split: option.splits if_splits)

lemma subscription_steps:
  assumes "billing_inv db"
  shows "good_step db (snd (CreateSubscription fault s db))" "good_step db (snd (ReplaceSubscription fault now item db))"
  using assms
  by (auto simp: CreateSubscription_def ReplaceSubscription_def insert_subscription_def good_step_refl
      same_books_def Let_def intro!: transaction_same_books split: option.splits)

lemma mark_credit_step: "billing_inv db \<Longrightarrow> good_step db (snd (MarkPaymentOrderPaidAndCreditBalance fault clock no ext paidAt db))"
  unfolding MarkPaymentOrderPaidAndCreditBalance_def Let_def
  by (auto simp: good_step_refl intro!: transaction_good_step dest: credit_order_step)

lemma mark_grant_step: "billing_inv db \<Longrightarrow> good_step db (snd (MarkPaymentOrderPaidAndGrantSubscription fault clock no ext paidAt sub db))"
  unfolding MarkPaymentOrderPaidAndGrantSubscription_def Let_def
  by (auto simp: good_step_refl intro!: transaction_good_step split: option.splits dest: grant_order_step)

lemma redeem_code_step: "billing_inv db \<Longrightarrow> good_step db (snd (RedeemCode encode fault clock inp db))"
  unfolding RedeemCode_def
  by (auto simp: good_step_refl intro!: transaction_good_step dest: redeem_step)

end
