(* ===== verification/Billing_Plans.thy ===== *)
theory Billing_Plans
  imports Billing_Payments
begin

text \<open>
  Plans, prices, entitlements, usage sums, billing settings and the price list of the models: the
  queries and updates of \<open>repository.go\<close> that the billing service reads its decisions from.
\<close>

section \<open>Queries\<close>

definition query :: "repo_error option \<Rightarrow> 'a \<Rightarrow> repo_error + 'a" where
  "query fault x = (case fault of Some e \<Rightarrow> Inl e | None \<Rightarrow> Inr x)"

definition query_row :: "repo_error option \<Rightarrow> 'a option \<Rightarrow> repo_error + 'a" where
  "query_row fault row = (case fault of Some e \<Rightarrow> Inl e | None \<Rightarrow> (case row of None \<Rightarrow> Inl ErrNotFound | Some x \<Rightarrow> Inr x))"

lemma query_Inr [simp]: "query fault x = Inr y \<longleftrightarrow> fault = None \<and> y = x"
  by (auto simp: query_def split: option.splits)

lemma query_row_Inr [simp]: "query_row fault row = Inr y \<longleftrightarrow> fault = None \<and> row = Some y"
  by (auto simp: query_row_def split: option.splits)

definition ListActivePlans :: "repo_error option \<Rightarrow> billing_db \<Rightarrow> repo_error + billing_plan list" where
  "ListActivePlans fault db =
     query fault (sort_key (\<lambda>p. (bp_SortOrder p, bp_ID p)) (filter bp_IsActive (db_plans db)))"

definition ListActivePricesByPlanIDs ::
  "repo_error option \<Rightarrow> nat list \<Rightarrow> billing_db \<Rightarrow> repo_error + billing_price list" where
  "ListActivePricesByPlanIDs fault planIDs db =
     (if planIDs = [] then Inr []
      else query fault (sort_key (\<lambda>p. (pr_PlanID p, pr_AmountCents p, pr_ID p))
        (filter (\<lambda>p. pr_PlanID p \<in> set planIDs \<and> pr_IsActive p) (db_prices db))))"

definition GetPriceByID :: "repo_error option \<Rightarrow> nat \<Rightarrow> billing_db \<Rightarrow> repo_error + billing_price" where
  "GetPriceByID fault priceID db = query_row fault (List.find (\<lambda>p. pr_ID p = priceID) (db_prices db))"

definition GetPlanByID :: "repo_error option \<Rightarrow> nat \<Rightarrow> billing_db \<Rightarrow> repo_error + billing_plan" where
  "GetPlanByID fault planID db = query_row fault (find_plan planID db)"

definition ListPlansByIDs :: "repo_error option \<Rightarrow> nat list \<Rightarrow> billing_db \<Rightarrow> repo_error + billing_plan list" where
  "ListPlansByIDs fault planIDs db =
     (if planIDs = [] then Inr [] else query fault (filter (\<lambda>p. bp_ID p \<in> set planIDs) (db_plans db)))"

definition GetActivePlanByCode :: "repo_error option \<Rightarrow> string \<Rightarrow> billing_db \<Rightarrow> repo_error + billing_plan" where
  "GetActivePlanByCode fault code db =
     query_row fault (List.find (\<lambda>p. bp_Code p = trim_space code \<and> bp_IsActive p) (db_plans db))"

definition CountPlansWithPermissionGroup :: "repo_error option \<Rightarrow> nat \<Rightarrow> billing_db \<Rightarrow> repo_error + int" where
  "CountPlansWithPermissionGroup fault groupID db =
     query fault (int (length (filter (\<lambda>p. bp_PermissionGroupID p = Some groupID) (db_plans db))))"

text \<open>\<open>ORDER BY \<dots> NULLS LAST\<close>: a subscription without an end comes after those with one.\<close>

definition nulls_last :: "gotime option \<Rightarrow> nat \<times> gotime" where
  "nulls_last t = (case t of None \<Rightarrow> (1, 0) | Some e \<Rightarrow> (0, e))"

definition entitled :: "gotime \<Rightarrow> subscription \<Rightarrow> bool" where
  "entitled now s \<longleftrightarrow> sb_Status s = ''active'' \<and> (case sb_CurrentPeriodEndAt s of None \<Rightarrow> True | Some e \<Rightarrow> now < e)"

definition ListSubscriptionEntitlementsByUserIDs ::
  "repo_error option \<Rightarrow> nat list \<Rightarrow> gotime \<Rightarrow> billing_db \<Rightarrow> repo_error + subscription list" where
  "ListSubscriptionEntitlementsByUserIDs fault userIDs now db =
     (if userIDs = [] then Inr []
      else query fault (sort_key (\<lambda>s. (sb_UserID s, sb_CurrentPeriodStartAt s, nulls_last (sb_CurrentPeriodEndAt s), sb_ID s))
        (filter (\<lambda>s. sb_UserID s \<in> set userIDs \<and> entitled now s) (db_subscriptions db))))"

text \<open>The sums of a user's ledger, scanned into a Go \<open>int64\<close>.\<close>

definition SumBillableNanousd :: "repo_error option \<Rightarrow> nat \<Rightarrow> gotime \<Rightarrow> gotime \<Rightarrow> billing_db \<Rightarrow> repo_error + int" where
  "SumBillableNanousd fault userID startAt endAt db =
     (case fault of Some e \<Rightarrow> Inl e | None \<Rightarrow> db_int (billed_in userID startAt endAt db))"

definition SumTotalBilledNanousd :: "repo_error option \<Rightarrow> nat \<Rightarrow> billing_db \<Rightarrow> repo_error + int" where
  "SumTotalBilledNanousd fault userID db =
     (case fault of Some e \<Rightarrow> Inl e
      | None \<Rightarrow> db_int (sum_list (map ul_BilledNanousd (filter (\<lambda>l. ul_UserID l = userID \<and> \<not> ul_IsFreeModel l) (db_ledgers db)))))"

section \<open>Changing a plan\<close>

definition plan_updates :: "billing_plan \<Rightarrow> billing_plan \<Rightarrow> billing_plan" where
  "plan_updates plan p = p\<lparr>bp_Name := trim_space (bp_Name plan), bp_Description := trim_space (bp_Description plan),
     bp_PeriodCreditNanousd := clampNonNegative (bp_PeriodCreditNanousd plan), bp_IsActive := True,
     bp_PermissionGroupID := bp_PermissionGroupID plan\<rparr>"

definition price_updates :: "(string \<Rightarrow> string) \<Rightarrow> nat \<Rightarrow> billing_price \<Rightarrow> billing_price \<Rightarrow> billing_price" where
  "price_updates upper planID price p = p\<lparr>pr_PlanID := planID, pr_Code := trim_space (pr_Code price),
     pr_BillingInterval := NormalizeInterval (pr_BillingInterval price), pr_Currency := normalizeCurrency upper (pr_Currency price),
     pr_AmountCents := clampNonNegative (pr_AmountCents price), pr_IsActive := True, pr_IsDefault := True,
     pr_ExternalPriceRef := trim_space (pr_ExternalPriceRef price)\<rparr>"

text \<open>The row that \<open>Create\<close> inserts, with the column defaults; the update then writes all of its fields.\<close>

definition fresh_price :: "nat \<Rightarrow> string \<Rightarrow> nat \<Rightarrow> billing_price" where
  "fresh_price planID code n = \<lparr>pr_ID = n, pr_PlanID = planID, pr_Code = code, pr_BillingInterval = ''month'',
     pr_Currency = ''USD'', pr_AmountCents = 0, pr_IsActive = False, pr_IsDefault = False, pr_ExternalPriceRef = []\<rparr>"

definition drop_default :: "nat \<Rightarrow> billing_price \<Rightarrow> billing_price" where
  "drop_default planID p = (if pr_PlanID p = planID \<and> pr_IsDefault p then p\<lparr>pr_IsDefault := False\<rparr> else p)"

definition update_plan_body :: "(string \<Rightarrow> string) \<Rightarrow> billing_plan \<Rightarrow> billing_price \<Rightarrow> unit tx" where
  "update_plan_body upper plan price db =
     (let planID = bp_ID plan; code = trim_space (pr_Code price);
          plans = map (\<lambda>p. if bp_ID p = planID then plan_updates plan p else p) (db_plans db);
          prices = map (drop_default planID) (db_prices db);
          write = (\<lambda>i. map (\<lambda>p. if pr_ID p = i then price_updates upper planID price p else p))
      in case List.find (\<lambda>p. pr_PlanID p = planID \<and> pr_Code p = code) prices of
           Some record \<Rightarrow> Inr ((), db\<lparr>db_plans := plans, db_prices := write (pr_ID record) prices\<rparr>)
         | None \<Rightarrow>
           if list_ex (\<lambda>p. pr_Code p = code) prices then Inl ErrDuplicate
           else (let n = Suc (db_lastID db)
                 in Inr ((), db\<lparr>db_plans := plans, db_prices := write n (prices @ [fresh_price planID code n]), db_lastID := n\<rparr>)))"

definition UpdatePlanWithDefaultPrice ::
  "(string \<Rightarrow> string) \<Rightarrow> repo_error option \<Rightarrow> billing_plan option \<Rightarrow> billing_price option \<Rightarrow> billing_db \<Rightarrow> (repo_error + unit) \<times> billing_db" where
  "UpdatePlanWithDefaultPrice upper fault plan price db =
     (case (plan, price) of
        (Some pl, Some pr) \<Rightarrow> if bp_ID pl = 0 then (Inl ErrInvalidInput, db)
          else transaction fault (update_plan_body upper pl pr) db
      | _ \<Rightarrow> (Inl ErrInvalidInput, db))"

definition prices_ok :: "billing_db \<Rightarrow> bool" where
  "prices_ok db \<longleftrightarrow> distinct (map pr_ID (db_prices db)) \<and> distinct (map pr_Code (db_prices db)) \<and>
     (\<forall>p \<in> set (db_prices db). pr_ID p \<le> db_lastID db)"

lemma filter_unique:
  assumes "x \<in> set xs" and "P x" and "distinct xs" and "\<forall>y \<in> set xs. P y \<longrightarrow> y = x"
  shows "filter P xs = [x]"
proof -
  obtain ys zs where xs: "xs = ys @ x # zs" using assms(1) by (metis split_list)
  have "y = x \<Longrightarrow> y \<notin> set (ys @ zs)" for y using assms(3) by (simp add: xs)
  then have "\<forall>y \<in> set (ys @ zs). \<not> P y" using assms(4) unfolding xs by fastforce
  then show ?thesis using assms(2) by (simp add: xs filter_empty_conv)
qed

lemma find_SomeD: "List.find P xs = Some x \<Longrightarrow> x \<in> set xs \<and> P x"
  by (metis find_Some_iff nth_mem)

lemma filter_map_fixed:
  assumes "\<forall>x \<in> set xs. P (f x) = P x \<and> (P x \<longrightarrow> f x = x)"
  shows "filter P (map f xs) = filter P xs"
  using assms by (induction xs) auto

text \<open>The price rows before the last write: no default of the plan is left, and the row to write has the code.\<close>

definition rows_ready :: "nat \<Rightarrow> string \<Rightarrow> nat \<Rightarrow> nat \<Rightarrow> billing_price list \<Rightarrow> bool" where
  "rows_ready planID code i n prices \<longleftrightarrow> (\<exists>r \<in> set prices. pr_ID r = i) \<and> distinct (map pr_ID prices) \<and>
     distinct (map pr_Code prices) \<and>
     (\<forall>p \<in> set prices. pr_ID p \<le> n \<and> (pr_Code p = code \<longleftrightarrow> pr_ID p = i) \<and> (pr_ID p = i \<longrightarrow> pr_PlanID p = planID) \<and>
        (pr_PlanID p = planID \<longrightarrow> \<not> pr_IsDefault p))"

lemma drop_default_keeps [simp]:
  "pr_ID (drop_default planID p) = pr_ID p" "pr_Code (drop_default planID p) = pr_Code p"
  "pr_PlanID (drop_default planID p) = pr_PlanID p" "pr_PlanID p = planID \<Longrightarrow> \<not> pr_IsDefault (drop_default planID p)"
  by (simp_all add: drop_default_def)

lemma update_plan_cases:
  assumes "update_plan_body upper plan price db = Inr (x, db')" and "prices_ok db"
  obtains i prices where "db_prices db' = map (\<lambda>p. if pr_ID p = i then price_updates upper (bp_ID plan) price p else p) prices"
    "rows_ready (bp_ID plan) (trim_space (pr_Code price)) i (db_lastID db') prices"
    "filter (\<lambda>p. pr_PlanID p \<noteq> bp_ID plan) prices = filter (\<lambda>p. pr_PlanID p \<noteq> bp_ID plan) (db_prices db)"
proof -
  let ?id = "bp_ID plan" and ?code = "trim_space (pr_Code price)"
  obtain ps where ps: "ps = map (drop_default ?id) (db_prices db)" by simp
  have "map pr_ID ps = map pr_ID (db_prices db)" "map pr_Code ps = map pr_Code (db_prices db)" by (simp_all add: ps)
  then have d: "distinct (map pr_ID ps)" "distinct (map pr_Code ps)"
    using assms(2) by (simp_all add: prices_ok_def)
  have le: "\<forall>p \<in> set ps. pr_ID p \<le> db_lastID db" using assms(2) by (auto simp: prices_ok_def ps)
  have nd: "\<forall>p \<in> set ps. pr_PlanID p = ?id \<longrightarrow> \<not> pr_IsDefault p" by (auto simp: ps)
  have others: "filter (\<lambda>p. pr_PlanID p \<noteq> ?id) ps = filter (\<lambda>p. pr_PlanID p \<noteq> ?id) (db_prices db)"
    unfolding ps by (rule filter_map_fixed) (simp add: drop_default_def)
  note b = assms(1) [unfolded update_plan_body_def Let_def, folded ps]
  show ?thesis
  proof (cases "List.find (\<lambda>p. pr_PlanID p = ?id \<and> pr_Code p = ?code) ps")
    case (Some r)
    then have r: "r \<in> set ps" "pr_PlanID r = ?id" "pr_Code r = ?code" by (blast dest: find_SomeD)+
    have db': "db_prices db' = map (\<lambda>p. if pr_ID p = pr_ID r then price_updates upper ?id price p else p) ps" "db_lastID db' = db_lastID db"
      using b Some by auto
    have same: "p = r" if "p \<in> set ps" "pr_Code p = pr_Code r \<or> pr_ID p = pr_ID r" for p
      using d(1,2) r(1) that by (metis distinct_map inj_onD)
    have "rows_ready ?id ?code (pr_ID r) (db_lastID db') ps"
      unfolding rows_ready_def using d le nd r same db'(2) by metis
    then show ?thesis by (rule that [OF db'(1) _ others])
  next
    case None
    let ?n = "Suc (db_lastID db)" and ?new = "fresh_price ?id ?code (Suc (db_lastID db))"
    have fresh: "\<forall>p \<in> set ps. pr_Code p \<noteq> ?code"
      using b None by (auto simp: list_ex_iff split: if_splits)
    have db': "db_prices db' = map (\<lambda>p. if pr_ID p = ?n then price_updates upper ?id price p else p) (ps @ [?new])" "db_lastID db' = ?n"
      using b None fresh by (auto simp: list_ex_iff split: if_splits)
    have lt: "\<forall>p \<in> set ps. pr_ID p < ?n" using le by fastforce
    have new: "pr_ID ?new = ?n" "pr_Code ?new = ?code" "pr_PlanID ?new = ?id" "\<not> pr_IsDefault ?new" by (simp_all add: fresh_price_def)
    have "?n \<notin> pr_ID ` set ps" "?code \<notin> pr_Code ` set ps" using lt fresh by fastforce+
    then have dd: "distinct (map pr_ID (ps @ [?new]))" "distinct (map pr_Code (ps @ [?new]))"
      using d(1,2) new by (simp_all only: map_append list.map distinct_append distinct.simps list.set) simp_all
    have "\<forall>p \<in> set (ps @ [?new]). pr_ID p \<le> ?n \<and> (pr_Code p = ?code \<longleftrightarrow> pr_ID p = ?n) \<and> (pr_ID p = ?n \<longrightarrow> pr_PlanID p = ?id) \<and>
        (pr_PlanID p = ?id \<longrightarrow> \<not> pr_IsDefault p)"
    proof
      fix p
      assume "p \<in> set (ps @ [?new])"
      then have "p \<in> set ps \<or> p = ?new" by auto
      then show "pr_ID p \<le> ?n \<and> (pr_Code p = ?code \<longleftrightarrow> pr_ID p = ?n) \<and> (pr_ID p = ?n \<longrightarrow> pr_PlanID p = ?id) \<and>
        (pr_PlanID p = ?id \<longrightarrow> \<not> pr_IsDefault p)"
        using lt fresh nd new by (metis less_imp_le less_irrefl order_refl)
    qed
    moreover have "?new \<in> set (ps @ [?new])" by simp
    ultimately have "rows_ready ?id ?code ?n ?n (ps @ [?new])"
      unfolding rows_ready_def using dd new(1) by blast
    moreover have "filter (\<lambda>p. pr_PlanID p \<noteq> ?id) (ps @ [?new]) = filter (\<lambda>p. pr_PlanID p \<noteq> ?id) (db_prices db)"
      using others new(3) by simp
    ultimately show ?thesis using that [OF db'(1)] db'(2) by simp
  qed
qed

text \<open>
  After a plan was saved with its price, the plan has exactly one default price: the saved one,
  active and with its amount clamped at zero. It is the price that a subscription by plan uses. The
  prices of the other plans are as before.
\<close>

theorem plan_update_default:
  assumes "UpdatePlanWithDefaultPrice upper fault (Some plan) (Some price) db = (Inr (), db')" and "prices_ok db"
  shows "prices_ok db' \<and>
    (\<exists>p. filter (\<lambda>p. pr_PlanID p = bp_ID plan \<and> pr_IsDefault p) (db_prices db') = [p] \<and> pr_IsActive p \<and>
       pr_Code p = trim_space (pr_Code price) \<and> pr_AmountCents p = max 0 (pr_AmountCents price) \<and>
       activeDefaultPriceForPlan (bp_ID plan) db' = Inr p) \<and>
    filter (\<lambda>p. pr_PlanID p \<noteq> bp_ID plan) (db_prices db') = filter (\<lambda>p. pr_PlanID p \<noteq> bp_ID plan) (db_prices db)"
proof -
  have body: "update_plan_body upper plan price db = Inr ((), db')"
    using assms(1) by (auto simp: UpdatePlanWithDefaultPrice_def transaction_commit split: if_splits)
  obtain i prices where c:
    "db_prices db' = map (\<lambda>p. if pr_ID p = i then price_updates upper (bp_ID plan) price p else p) prices"
    "rows_ready (bp_ID plan) (trim_space (pr_Code price)) i (db_lastID db') prices"
    "filter (\<lambda>p. pr_PlanID p \<noteq> bp_ID plan) prices = filter (\<lambda>p. pr_PlanID p \<noteq> bp_ID plan) (db_prices db)"
    by (rule update_plan_cases [OF body assms(2)])
  let ?w = "\<lambda>p. if pr_ID p = i then price_updates upper (bp_ID plan) price p else p"
  have each: "\<forall>p \<in> set prices. pr_ID p \<le> db_lastID db' \<and> (pr_Code p = trim_space (pr_Code price) \<longleftrightarrow> pr_ID p = i) \<and>
      (pr_ID p = i \<longrightarrow> pr_PlanID p = bp_ID plan) \<and> (pr_PlanID p = bp_ID plan \<longrightarrow> \<not> pr_IsDefault p)"
    and d: "distinct (map pr_ID prices)" "distinct (map pr_Code prices)"
    using c(2) by (simp_all add: rows_ready_def)
  obtain r where r: "r \<in> set prices" "pr_ID r = i" using c(2) by (auto simp: rows_ready_def)
  have only: "q = r" if "q \<in> set prices" "pr_ID q = i" for q using d(1) r that by (metis distinct_map inj_onD)
  have w: "pr_ID (?w p) = pr_ID p" for p by (simp add: price_updates_def)
  have wc: "pr_Code (?w p) = pr_Code p" "pr_PlanID (?w p) = pr_PlanID p" if "p \<in> set prices" for p
    using each that by (auto simp: price_updates_def)
  have ids: "map pr_ID (db_prices db') = map pr_ID prices" "map pr_Code (db_prices db') = map pr_Code prices"
    unfolding c(1) map_map o_def using w wc by (auto intro!: map_cong)
  have "set (map pr_ID (db_prices db')) \<subseteq> {..db_lastID db'}" unfolding ids(1) using each by auto
  then have "\<forall>p \<in> set (db_prices db'). pr_ID p \<le> db_lastID db'" by auto
  then have ok: "prices_ok db'" using d ids unfolding prices_ok_def by simp
  then have dist: "distinct (db_prices db')" by (simp add: prices_ok_def distinct_map)
  have wr: "?w r \<in> set (db_prices db')" using r(1) unfolding c(1) by auto
  have sound: "pr_PlanID (?w r) = bp_ID plan \<and> pr_IsActive (?w r) \<and> pr_IsDefault (?w r)" using r(2) by (simp add: price_updates_def)
  have uniq: "y = ?w r" if "y \<in> set (db_prices db')" "pr_PlanID y = bp_ID plan" "pr_IsDefault y" for y
  proof -
    have "y \<in> ?w ` set prices" using that(1) unfolding c(1) set_map .
    then obtain p where p: "y = ?w p" "p \<in> set prices" by (rule imageE)
    then have "pr_ID p = i" using that(2,3) each wc(2) [OF p(2)] p by (cases "pr_ID p = i") auto
    then show ?thesis using only p by blast
  qed
  have "filter (\<lambda>p. pr_PlanID p = bp_ID plan \<and> pr_IsDefault p) (db_prices db') = [?w r]"
    by (rule filter_unique [OF wr _ dist]) (use sound uniq in blast)+
  moreover have "filter (\<lambda>p. pr_PlanID p = bp_ID plan \<and> pr_IsActive p \<and> pr_IsDefault p) (db_prices db') = [?w r]"
    by (rule filter_unique [OF wr _ dist]) (use sound uniq in blast)+
  then have "activeDefaultPriceForPlan (bp_ID plan) db' = Inr (?w r)"
    by (simp add: activeDefaultPriceForPlan_def first_row_def)
  moreover have "pr_Code (?w r) = trim_space (pr_Code price)" "pr_AmountCents (?w r) = max 0 (pr_AmountCents price)"
    using r(2) by (simp_all add: price_updates_def clampNonNegative_max)
  moreover have "filter (\<lambda>p. pr_PlanID p \<noteq> bp_ID plan) (db_prices db') = filter (\<lambda>p. pr_PlanID p \<noteq> bp_ID plan) prices"
    unfolding c(1) by (rule filter_map_fixed) (use each wc(2) in auto)
  ultimately show ?thesis using ok sound unfolding c(3) by blast
qed

definition sample_prices_db :: billing_db where
  "sample_prices_db = empty_billing_db\<lparr>db_plans := [\<lparr>bp_ID = 1, bp_Code = ''pro'', bp_Name = ''Pro'', bp_Description = [],
       bp_FeatureJSON = [], bp_PeriodCreditNanousd = 100, bp_SortOrder = 2, bp_IsActive = True, bp_PermissionGroupID = None\<rparr>],
     db_prices := [(fresh_price 1 ''pro_month'' 2)\<lparr>pr_IsActive := True, pr_IsDefault := True, pr_AmountCents := 900\<rparr>,
       (fresh_price 9 ''team_month'' 3)\<lparr>pr_IsActive := True, pr_IsDefault := True\<rparr>], db_lastID := 3\<rparr>"

definition sample_saved :: "(repo_error + unit) \<times> billing_db" where
  "sample_saved = UpdatePlanWithDefaultPrice id None (Some (hd (db_plans sample_prices_db)))
     (Some ((fresh_price 1 ''pro_year'' 0)\<lparr>pr_BillingInterval := ''year'', pr_AmountCents := 9000\<rparr>)) sample_prices_db"

theorem plan_update_default_witness:
  "prices_ok (snd sample_saved) \<and> map pr_IsDefault (db_prices (snd sample_saved)) = [False, True, True]"
proof -
  have "\<not> isl (fst sample_saved)" by code_simp
  then have "\<exists>x db'. sample_saved = (Inr x, db')" by (rule transaction_succeeds)
  then have "sample_saved = (Inr (), snd sample_saved)" by (metis snd_conv old.unit.exhaust)
  note ok = this [unfolded sample_saved_def]
  have "prices_ok sample_prices_db" by (simp add: prices_ok_def sample_prices_db_def fresh_price_def)
  then have "prices_ok (snd sample_saved)" using plan_update_default [OF ok] unfolding sample_saved_def by blast
  moreover have "map pr_IsDefault (db_prices (snd sample_saved)) = [False, True, True]" by code_simp
  ultimately show ?thesis ..
qed

section \<open>Billing settings\<close>

type_synonym system_settings = "string \<times> string \<rightharpoonup> string"  \<comment> \<open>by namespace and key\<close>

definition GetBillingMode :: "repo_error option \<Rightarrow> system_settings \<Rightarrow> repo_error + string" where
  "GetBillingMode fault rows =
     query fault (case rows (''billing'', ''mode'') of None \<Rightarrow> ''self''
       | Some v \<Rightarrow> if trim_space v \<in> {''self'', ''usage'', ''period''} then trim_space v else ''self'')"

text \<open>\<open>strconv.ParseBool\<close>.\<close>

definition ParseBool :: "string \<Rightarrow> bool option" where
  "ParseBool s =
     (if s \<in> {''1'', ''t'', ''T'', ''TRUE'', ''true'', ''True''} then Some True
      else if s \<in> {''0'', ''f'', ''F'', ''FALSE'', ''false'', ''False''} then Some False else None)"

definition GetNativeToolBillingEnabled :: "repo_error option \<Rightarrow> system_settings \<Rightarrow> repo_error + bool" where
  "GetNativeToolBillingEnabled fault rows =
     (case fault of Some e \<Rightarrow> Inl e
      | None \<Rightarrow> (case rows (''billing'', ''native_tool_billing_enabled'') of None \<Rightarrow> Inr True
        | Some v \<Rightarrow> (case ParseBool (trim_space v) of None \<Rightarrow> Inl ErrInvalidInput | Some b \<Rightarrow> Inr b)))"

definition GetNativeToolPricingJSON :: "repo_error option \<Rightarrow> system_settings \<Rightarrow> repo_error + string" where
  "GetNativeToolPricingJSON fault rows =
     query fault (case rows (''billing'', ''native_tool_pricing_json'') of None \<Rightarrow> [] | Some v \<Rightarrow> trim_space v)"

section \<open>The price list of the models\<close>

record model_pricing =
  mp_ID :: nat
  mp_PlatformModelName :: string
  mp_Currency :: string
  mp_IsFree :: bool
  mp_PricingMode :: string
  mp_InputNanousdPerMTokens :: int
  mp_CacheReadNanousdPerMTokens :: int
  mp_CacheWriteNanousdPerMTokens :: int
  mp_CacheWritePriceBasis :: string
  mp_OutputNanousdPerMTokens :: int
  mp_CallNanousdPerCall :: int
  mp_DurationNanousdPerSecond :: int
  mp_TieredPricingJSON :: string
  mp_SchedulePricingJSON :: string

record pricing_db =
  pd_rows :: "model_pricing list"
  pd_lastID :: nat

definition NormalizePricingMode :: "string \<Rightarrow> string" where
  "NormalizePricingMode value =
     (let v = trim_space value in if v = ''call'' \<or> v = ''duration'' \<or> v = ''tiered'' then v else ''token'')"

lemma NormalizePricingMode_idem [simp]: "NormalizePricingMode (NormalizePricingMode v) = NormalizePricingMode v"
proof -
  have "NormalizePricingMode ''call'' = ''call''" "NormalizePricingMode ''duration'' = ''duration''"
    "NormalizePricingMode ''tiered'' = ''tiered''" "NormalizePricingMode ''token'' = ''token''" by code_simp+
  then show ?thesis unfolding NormalizePricingMode_def [of v] Let_def by (simp only: split: if_split) auto
qed

definition emptyJSONObject :: "string \<Rightarrow> string" where
  "emptyJSONObject raw = (if trim_space raw = [] then ''{}'' else trim_space raw)"

definition toDomainModelPricing :: "model_pricing \<Rightarrow> model_pricing" where
  "toDomainModelPricing item = item\<lparr>mp_PricingMode := NormalizePricingMode (mp_PricingMode item)\<rparr>"

definition named_price :: "string \<Rightarrow> model_pricing \<Rightarrow> bool" where
  "named_price name p \<longleftrightarrow> mp_PlatformModelName p = name"

definition GetModelPricing :: "repo_error option \<Rightarrow> string \<Rightarrow> pricing_db \<Rightarrow> repo_error + model_pricing" where
  "GetModelPricing fault name db =
     query_row fault (map_option toDomainModelPricing (List.find (named_price (trim_space name)) (pd_rows db)))"

definition pricing_updates :: "(string \<Rightarrow> string) \<Rightarrow> model_pricing \<Rightarrow> model_pricing \<Rightarrow> model_pricing" where
  "pricing_updates upper item p = p\<lparr>mp_PlatformModelName := trim_space (mp_PlatformModelName item),
     mp_Currency := normalizeCurrency upper (mp_Currency item), mp_IsFree := mp_IsFree item,
     mp_PricingMode := NormalizePricingMode (mp_PricingMode item),
     mp_InputNanousdPerMTokens := clampNonNegative (mp_InputNanousdPerMTokens item),
     mp_CacheReadNanousdPerMTokens := clampNonNegative (mp_CacheReadNanousdPerMTokens item),
     mp_CacheWriteNanousdPerMTokens := clampNonNegative (mp_CacheWriteNanousdPerMTokens item),
     mp_CacheWritePriceBasis := mp_CacheWritePriceBasis item,
     mp_OutputNanousdPerMTokens := clampNonNegative (mp_OutputNanousdPerMTokens item),
     mp_CallNanousdPerCall := clampNonNegative (mp_CallNanousdPerCall item),
     mp_DurationNanousdPerSecond := clampNonNegative (mp_DurationNanousdPerSecond item),
     mp_TieredPricingJSON := trim_space (mp_TieredPricingJSON item),
     mp_SchedulePricingJSON := emptyJSONObject (mp_SchedulePricingJSON item)\<rparr>"

definition fresh_pricing :: "string \<Rightarrow> nat \<Rightarrow> model_pricing" where
  "fresh_pricing name n = \<lparr>mp_ID = n, mp_PlatformModelName = name, mp_Currency = ''USD'', mp_IsFree = False,
     mp_PricingMode = ''token'', mp_InputNanousdPerMTokens = 0, mp_CacheReadNanousdPerMTokens = 0,
     mp_CacheWriteNanousdPerMTokens = 0, mp_CacheWritePriceBasis = [], mp_OutputNanousdPerMTokens = 0,
     mp_CallNanousdPerCall = 0, mp_DurationNanousdPerSecond = 0, mp_TieredPricingJSON = ''{}'', mp_SchedulePricingJSON = ''{}''\<rparr>"

text \<open>
  The four statements of an upsert are not in one transaction: each can fail on its own, and what the
  earlier ones wrote stays.
\<close>

record upsert_faults =
  uf_find :: "repo_error option"
  uf_create :: "repo_error option"
  uf_update :: "repo_error option"
  uf_reload :: "repo_error option"

definition no_upsert_faults :: upsert_faults where
  "no_upsert_faults = \<lparr>uf_find = None, uf_create = None, uf_update = None, uf_reload = None\<rparr>"

definition ensure_pricing :: "repo_error option \<Rightarrow> string \<Rightarrow> pricing_db \<Rightarrow> repo_error + nat \<times> pricing_db" where
  "ensure_pricing fault name db =
     (case List.find (named_price name) (pd_rows db) of Some r \<Rightarrow> Inr (mp_ID r, db)
      | None \<Rightarrow> (case fault of Some e \<Rightarrow> Inl e
         | None \<Rightarrow> (let n = Suc (pd_lastID db) in Inr (n, \<lparr>pd_rows = pd_rows db @ [fresh_pricing name n], pd_lastID = n\<rparr>))))"

definition UpsertModelPricing ::
  "(string \<Rightarrow> string) \<Rightarrow> upsert_faults \<Rightarrow> model_pricing option \<Rightarrow> pricing_db \<Rightarrow> (repo_error + model_pricing) \<times> pricing_db" where
  "UpsertModelPricing upper faults item db =
     (case item of None \<Rightarrow> (Inl ErrInvalidInput, db)
      | Some it \<Rightarrow>
        (let name = trim_space (mp_PlatformModelName it) in
         if name = [] then (Inl ErrInvalidInput, db)
         else case uf_find faults of Some e \<Rightarrow> (Inl e, db)
           | None \<Rightarrow> (case ensure_pricing (uf_create faults) name db of Inl e \<Rightarrow> (Inl e, db)
             | Inr (i, db1) \<Rightarrow> (case uf_update faults of Some e \<Rightarrow> (Inl e, db1)
               | None \<Rightarrow>
                 (let db2 = db1\<lparr>pd_rows := map (\<lambda>p. if mp_ID p = i then pricing_updates upper it p else p) (pd_rows db1)\<rparr>
                  in (query_row (uf_reload faults) (map_option toDomainModelPricing (List.find (named_price name) (pd_rows db2))), db2))))))"

definition pricing_ok :: "pricing_db \<Rightarrow> bool" where
  "pricing_ok db \<longleftrightarrow> distinct (map mp_ID (pd_rows db)) \<and> distinct (map mp_PlatformModelName (pd_rows db)) \<and>
     (\<forall>p \<in> set (pd_rows db). mp_ID p \<le> pd_lastID db)"

lemma find_append: "List.find P (xs @ ys) = (case List.find P xs of None \<Rightarrow> List.find P ys | Some x \<Rightarrow> Some x)"
  by (induction xs) auto

lemma ensure_pricing_effects:
  assumes "ensure_pricing fault name db = Inr (i, db1)" and "pricing_ok db"
  shows "pricing_ok db1" "\<exists>p. List.find (named_price name) (pd_rows db1) = Some p \<and> mp_ID p = i"
    "other \<noteq> name \<Longrightarrow> List.find (named_price other) (pd_rows db1) = List.find (named_price other) (pd_rows db)"
proof -
  have new: "pricing_ok \<lparr>pd_rows = pd_rows db @ [fresh_pricing name (Suc (pd_lastID db))], pd_lastID = Suc (pd_lastID db)\<rparr>"
    if "List.find (named_price name) (pd_rows db) = None"
    using that assms(2) by (fastforce simp: pricing_ok_def fresh_pricing_def find_None_iff named_price_def)
  show "pricing_ok db1" using assms new by (auto simp: ensure_pricing_def Let_def split: option.splits)
  show "\<exists>p. List.find (named_price name) (pd_rows db1) = Some p \<and> mp_ID p = i"
    using assms(1) by (auto simp: ensure_pricing_def Let_def find_append named_price_def fresh_pricing_def split: option.splits)
  show "other \<noteq> name \<Longrightarrow> List.find (named_price other) (pd_rows db1) = List.find (named_price other) (pd_rows db)"
    using assms(1) by (auto simp: ensure_pricing_def Let_def find_append named_price_def fresh_pricing_def split: option.splits)
qed

lemma find_map_at:
  assumes "distinct (map mp_ID xs)" and "\<forall>p \<in> set xs. mp_ID p = i \<longrightarrow> P (f p) = P p"
  shows "List.find P (map (\<lambda>p. if mp_ID p = i then f p else p) xs) =
    map_option (\<lambda>p. if mp_ID p = i then f p else p) (List.find P xs)"
  using assms by (induction xs) auto

text \<open>
  C25: a price that was saved is the one that is read: the lookup by the name answers the result of the
  save, with the mode normalised and no negative rate, and the prices of all other models are unchanged.
\<close>

theorem pricing_upsert_roundtrip:
  assumes "UpsertModelPricing upper faults (Some item) db = (Inr r, db')" and "pricing_ok db"
  shows "pricing_ok db' \<and> GetModelPricing None (mp_PlatformModelName item) db' = Inr r \<and>
    r = pricing_updates upper item (fresh_pricing (trim_space (mp_PlatformModelName item)) (mp_ID r)) \<and>
    (\<forall>other. trim_space other \<noteq> trim_space (mp_PlatformModelName item) \<longrightarrow> GetModelPricing None other db' = GetModelPricing None other db)"
proof -
  let ?name = "trim_space (mp_PlatformModelName item)"
  obtain i db1 where e: "ensure_pricing (uf_create faults) ?name db = Inr (i, db1)"
    and db': "db' = db1\<lparr>pd_rows := map (\<lambda>p. if mp_ID p = i then pricing_updates upper item p else p) (pd_rows db1)\<rparr>"
    and r: "map_option toDomainModelPricing (List.find (named_price ?name) (pd_rows db')) = Some r"
    using assms(1) by (auto simp: UpsertModelPricing_def Let_def split: if_splits option.splits sum.splits)
  note f = ensure_pricing_effects [OF e assms(2)]
  obtain p where p: "List.find (named_price ?name) (pd_rows db1) = Some p" "mp_ID p = i" using f(2) by blast
  then have pn: "p \<in> set (pd_rows db1)" "mp_PlatformModelName p = ?name" by (auto dest: find_SomeD simp: named_price_def)
  have d: "distinct (map mp_ID (pd_rows db1))" using f(1) by (simp add: pricing_ok_def)
  have only: "q = p" if "q \<in> set (pd_rows db1)" "mp_ID q = i" for q using d pn(1) p(2) that by (metis distinct_map inj_onD)
  have find: "List.find (named_price n) (pd_rows db') =
      map_option (\<lambda>q. if mp_ID q = i then pricing_updates upper item q else q) (List.find (named_price n) (pd_rows db1))" for n
    unfolding db' using only pn(2) by (simp, intro find_map_at [OF d]) (auto simp: named_price_def pricing_updates_def)
  have "toDomainModelPricing (pricing_updates upper item p) = r" using r p by (simp add: find)
  then have rv: "r = pricing_updates upper item p"
    by (cases p) (simp add: toDomainModelPricing_def pricing_updates_def)
  moreover have "pricing_updates upper item p = pricing_updates upper item (fresh_pricing ?name (mp_ID r))"
    unfolding rv by (simp add: pricing_updates_def fresh_pricing_def)
  moreover have "GetModelPricing None (mp_PlatformModelName item) db' = Inr r"
    using r by (simp add: GetModelPricing_def)
  moreover have "GetModelPricing None other db' = GetModelPricing None other db" if o: "trim_space other \<noteq> ?name" for other
  proof -
    have "map_option (\<lambda>q. if mp_ID q = i then pricing_updates upper item q else q) (List.find (named_price (trim_space other)) (pd_rows db1)) =
        List.find (named_price (trim_space other)) (pd_rows db1)"
      using only pn(2) o by (cases "List.find (named_price (trim_space other)) (pd_rows db1)") (auto dest!: find_SomeD simp: named_price_def)
    then show ?thesis using f(3) [OF o] by (simp add: GetModelPricing_def find)
  qed
  moreover have "pricing_ok db'"
  proof -
    have "map mp_ID (pd_rows db') = map mp_ID (pd_rows db1)" by (simp add: db' pricing_updates_def)
    moreover have "map mp_PlatformModelName (pd_rows db') = map mp_PlatformModelName (pd_rows db1)"
      using only pn(2) by (auto simp: db' pricing_updates_def)
    moreover have "\<forall>p \<in> set (pd_rows db'). mp_ID p \<le> pd_lastID db'"
      using f(1) by (auto simp: pricing_ok_def db' pricing_updates_def)
    ultimately show ?thesis using f(1) by (simp add: pricing_ok_def)
  qed
  ultimately show ?thesis by auto
qed

definition sample_pricing :: model_pricing where
  "sample_pricing = (fresh_pricing '' model-a '' 0)\<lparr>mp_InputNanousdPerMTokens := 5, mp_OutputNanousdPerMTokens := -3\<rparr>"

theorem pricing_upsert_roundtrip_witness:
  "map_sum id mp_OutputNanousdPerMTokens (GetModelPricing None ''model-a''
     (snd (UpsertModelPricing id no_upsert_faults (Some sample_pricing) \<lparr>pd_rows = [], pd_lastID = 0\<rparr>))) = Inr 0"
proof -
  let ?p = "UpsertModelPricing id no_upsert_faults (Some sample_pricing) \<lparr>pd_rows = [], pd_lastID = 0\<rparr>"
  have "\<not> isl (fst ?p)" by code_simp
  then obtain r db' where ok: "?p = (Inr r, db')" using transaction_succeeds by (metis prod.collapse sum.collapse(2))
  have "pricing_ok \<lparr>pd_rows = [], pd_lastID = 0\<rparr>" by (simp add: pricing_ok_def)
  note t = pricing_upsert_roundtrip [OF ok this]
  have "trim_space ''model-a'' = trim_space (mp_PlatformModelName sample_pricing)" by code_simp
  then have "GetModelPricing None ''model-a'' db' = Inr r" using t by (simp add: GetModelPricing_def)
  moreover have "r = pricing_updates id sample_pricing (fresh_pricing (trim_space (mp_PlatformModelName sample_pricing)) (mp_ID r))"
    using t by blast
  then have "mp_OutputNanousdPerMTokens r = clampNonNegative (-3)"
    by (elim ssubst) (simp add: pricing_updates_def sample_pricing_def)
  then have "mp_OutputNanousdPerMTokens r = 0" by (simp add: clampNonNegative_def)
  ultimately show ?thesis using ok by simp
qed

text \<open>
  An upsert whose second statement fails leaves the new row behind: the save reports an error, and the
  model is from then on priced at zero in every mode.
\<close>

lemma partial_upsert_is_free:
  assumes "name = trim_space (mp_PlatformModelName item)" "name \<noteq> []" "List.find (named_price name) (pd_rows db) = None"
    and "res = UpsertModelPricing upper (no_upsert_faults\<lparr>uf_update := Some e\<rparr>) (Some item) db"
  shows "fst res = Inl e \<and> GetModelPricing None name (snd res) = Inr (fresh_pricing name (Suc (pd_lastID db)))"
proof -
  let ?db = "\<lparr>pd_rows = pd_rows db @ [fresh_pricing name (Suc (pd_lastID db))], pd_lastID = Suc (pd_lastID db)\<rparr>"
  have r: "res = (Inl e, ?db)"
    using assms by (simp add: UpsertModelPricing_def Let_def no_upsert_faults_def ensure_pricing_def)
  have "ensure_pricing None name db = Inr (Suc (pd_lastID db), ?db)" using assms(3) by (simp add: ensure_pricing_def)
  then have "List.find (named_price name) (pd_rows ?db) = Some (fresh_pricing name (Suc (pd_lastID db)))"
    using assms(3) by (simp add: find_append named_price_def fresh_pricing_def)
  moreover have token: "NormalizePricingMode ''token'' = ''token''" by code_simp
  then have "toDomainModelPricing (fresh_pricing name n) = fresh_pricing name n" for n
    using token by (simp add: toDomainModelPricing_def fresh_pricing_def)
  moreover have "trim_space name = name" using assms(1) by simp
  ultimately show ?thesis by (simp add: r GetModelPricing_def)
qed

end
