(* ===== verification/Billing_Rates.thy ===== *)
theory Billing_Rates
  imports Billing_Plans
begin

text \<open>
  What a call costs (\<open>application/billing/service.go\<close>): nano US dollars per million tokens, per call or
  per second, rounded to the nearest nano dollar; the multipliers of speed, service tier, permission
  group and time of day, which are fractions; the surcharge on cache writes; and the price tiers.
  Every product and sum is taken in Go's 64-bit \<open>int64\<close>, and division truncates.
\<close>

named_theorems rate_range \<open>a rate or amount is not negative\<close>

section \<open>Rates and multipliers\<close>

definition mul64 :: "int \<Rightarrow> int \<Rightarrow> int" where "mul64 a b = wrap64 (a * b)"
definition add64 :: "int \<Rightarrow> int \<Rightarrow> int" where "add64 a b = wrap64 (a + b)"

definition calcNanousdByToken :: "int \<Rightarrow> int \<Rightarrow> int" where
  "calcNanousdByToken tokens rate =
     (if tokens \<le> 0 \<or> rate \<le> 0 then 0 else go_div (add64 (mul64 tokens rate) 500000) 1000000)"

record billingRateMultiplier =
  Numerator :: int
  Denominator :: int

definition normalizeBillingRateMultiplier :: "billingRateMultiplier \<Rightarrow> billingRateMultiplier" where
  "normalizeBillingRateMultiplier m =
     (if Numerator m \<le> 0 \<or> Denominator m \<le> 0 then \<lparr>Numerator = 1, Denominator = 1\<rparr> else m)"

text \<open>
  \<open>billingRateMultiplierValue\<close> is the quotient as a \<open>float64\<close>, which only snapshots show. The model
  keeps the fraction itself.
\<close>

definition billingRateMultiplierValue :: "billingRateMultiplier \<Rightarrow> int \<times> int" where
  "billingRateMultiplierValue m0 = (let m = normalizeBillingRateMultiplier m0 in (Numerator m, Denominator m))"

definition composeRatePercent :: "billingRateMultiplier \<Rightarrow> int \<Rightarrow> billingRateMultiplier" where
  "composeRatePercent base percent =
     (if percent \<le> 0 \<or> percent = 100 then base
      else (let b = normalizeBillingRateMultiplier base
            in \<lparr>Numerator = mul64 (Numerator b) percent, Denominator = mul64 (Denominator b) 100\<rparr>))"

definition applyRateMultiplier :: "int \<Rightarrow> billingRateMultiplier \<Rightarrow> int" where
  "applyRateMultiplier rate m0 =
     (if rate \<le> 0 then 0
      else (let m = normalizeBillingRateMultiplier m0
            in if Numerator m = Denominator m then rate
               else go_div (add64 (mul64 rate (Numerator m)) (go_div (Denominator m) 2)) (Denominator m)))"

definition resolveSnapshotRateFromBilled :: "int \<Rightarrow> int \<Rightarrow> int \<Rightarrow> int" where
  "resolveSnapshotRateFromBilled tokens billed fallback =
     (if tokens \<le> 0 \<or> billed \<le> 0 then fallback
      else go_div (add64 (mul64 billed 1000000) (go_div tokens 2)) tokens)"

section \<open>Protocols, speeds and service tiers\<close>

definition isOpenAIProviderProtocol :: "string \<Rightarrow> bool" where
  "isOpenAIProviderProtocol p \<longleftrightarrow> trim_space p = ''openai_chat_completions'' \<or> trim_space p = ''openai_responses''"

definition is_anthropic :: "string \<Rightarrow> bool" where
  "is_anthropic p \<longleftrightarrow> trim_space p = ''anthropic_messages''"

definition isGPT55Series :: "string \<Rightarrow> bool" where
  "isGPT55Series name \<longleftrightarrow> has_prefix ''gpt-5.5'' (to_lower (trim_space name))"

definition normalizeUsageSpeed :: "string \<Rightarrow> string" where
  "normalizeUsageSpeed v = trim_space (to_lower v)"

definition resolveBillingSpeed :: "string \<Rightarrow> string \<Rightarrow> string \<Rightarrow> string" where
  "resolveBillingSpeed protocol usageSpeed requestSpeed =
     (if \<not> is_anthropic protocol then []
      else if usageSpeed \<noteq> [] then normalizeUsageSpeed usageSpeed else normalizeUsageSpeed requestSpeed)"

definition normalizeOpenAIServiceTier :: "string \<Rightarrow> string" where
  "normalizeOpenAIServiceTier v =
     (let t = trim_space (to_lower v) in if t = ''default'' \<or> t = ''flex'' \<or> t = ''priority'' then t else [])"

definition resolveBillingServiceTier :: "string \<Rightarrow> string \<Rightarrow> string" where
  "resolveBillingServiceTier protocol usageTier =
     (if \<not> isOpenAIProviderProtocol protocol then []
      else if usageTier \<noteq> [] then normalizeOpenAIServiceTier usageTier else ''default'')"

definition isAnthropicFastMode :: "string \<Rightarrow> string \<Rightarrow> string \<Rightarrow> bool" where
  "isAnthropicFastMode protocol usageSpeed requestSpeed \<longleftrightarrow>
     is_anthropic protocol \<and>
     (if normalizeUsageSpeed usageSpeed \<noteq> [] then normalizeUsageSpeed usageSpeed = ''fast''
      else normalizeUsageSpeed requestSpeed = ''fast'')"

definition resolveUsageRateMultiplier :: "string \<Rightarrow> string \<Rightarrow> string \<Rightarrow> bool \<Rightarrow> string \<Rightarrow> billingRateMultiplier" where
  "resolveUsageRateMultiplier protocol platformModel upstreamModel fastMode tier =
     (if fastMode then \<lparr>Numerator = 6, Denominator = 1\<rparr>
      else if \<not> isOpenAIProviderProtocol protocol then \<lparr>Numerator = 1, Denominator = 1\<rparr>
      else if normalizeOpenAIServiceTier tier = ''flex'' then \<lparr>Numerator = 1, Denominator = 2\<rparr>
      else if normalizeOpenAIServiceTier tier = ''priority''
        then (if isGPT55Series platformModel \<or> isGPT55Series upstreamModel then \<lparr>Numerator = 5, Denominator = 2\<rparr>
              else \<lparr>Numerator = 2, Denominator = 1\<rparr>)
      else \<lparr>Numerator = 1, Denominator = 1\<rparr>)"

section \<open>Cache writes\<close>

definition normalizeAnthropicCacheTimeout :: "string \<Rightarrow> string" where
  "normalizeAnthropicCacheTimeout v = (if trim_space (to_lower v) = ''1h'' then ''1h'' else ''5m'')"

definition billingCacheTimeoutSnapshot :: "string \<Rightarrow> string \<Rightarrow> string" where
  "billingCacheTimeoutSnapshot protocol timeout =
     (if \<not> is_anthropic protocol then [] else normalizeAnthropicCacheTimeout timeout)"

definition resolveCacheWriteNanousdPerMTokens :: "int \<Rightarrow> string \<Rightarrow> string \<Rightarrow> string \<Rightarrow> int" where
  "resolveCacheWriteNanousdPerMTokens configured basis protocol timeout =
     (if basis = ''direct'' \<or> \<not> is_anthropic protocol then configured
      else if configured \<le> 0 then 0
      else if basis = ''anthropic_5m''
        then (if normalizeAnthropicCacheTimeout timeout = ''1h'' then go_div (mul64 configured 8) 5 else configured)
      else if normalizeAnthropicCacheTimeout timeout = ''1h'' then mul64 configured 2
      else go_div (mul64 configured 5) 4)"

definition normalizeCacheWriteTokenBreakdown :: "int \<Rightarrow> int \<Rightarrow> int \<Rightarrow> string \<Rightarrow> string \<Rightarrow> int \<times> int \<times> int" where
  "normalizeCacheWriteTokenBreakdown total0 five0 hour0 protocol timeout =
     (let total1 = clampNonNegative total0; fiveTokens = clampNonNegative five0; hourTokens = clampNonNegative hour0
      in if \<not> is_anthropic protocol then (total1, 0, 0)
         else (let split = add64 fiveTokens hourTokens;
                   tokens = (if total1 < split then split else total1);
                   remainder = wrap64 (tokens - split)
               in if remainder \<le> 0 then (tokens, fiveTokens, hourTokens)
                  else if normalizeAnthropicCacheTimeout timeout = ''1h'' then (tokens, fiveTokens, add64 hourTokens remainder)
                  else (tokens, add64 fiveTokens remainder, hourTokens)))"

definition calcCacheWriteBilledNanousd :: "int \<Rightarrow> int \<Rightarrow> int \<Rightarrow> int \<Rightarrow> int \<Rightarrow> int \<Rightarrow> int" where
  "calcCacheWriteBilledNanousd tokens fiveTokens hourTokens aggregateRate fiveRate hourRate =
     (if tokens \<le> 0 then 0
      else if fiveTokens \<le> 0 \<and> hourTokens \<le> 0 then calcNanousdByToken tokens aggregateRate
      else add64 (calcNanousdByToken fiveTokens fiveRate) (calcNanousdByToken hourTokens hourRate))"

section \<open>Price tiers\<close>

text \<open>
  The prices of a tier are \<open>float64\<close> dollars in the JSON, converted once by \<open>usdToNanousd\<close> when the
  configuration is parsed. Floats are a type parameter \<open>'f\<close> here, and the conversion is an argument.
\<close>

record 'f tieredPricingTier =
  UpToTokens :: int
  InputUSDPerMTokens :: 'f
  CacheReadUSDPerMTokens :: 'f
  CacheWriteUSDPerMTokens :: 'f
  OutputUSDPerMTokens :: 'f
  inputNanousdPerMTokens :: int
  cacheReadNanousdPerMTokens :: int
  cacheWriteNanousdPerMTokens :: int
  outputNanousdPerMTokens :: int

record 'f resolvedTieredPricingTier =
  rt_tier :: "'f tieredPricingTier"
  rt_fromTokens :: int
  rt_upToTokens :: "int option"

definition tierUpperLimit :: "int \<Rightarrow> int option" where
  "tierUpperLimit limit = (if limit \<le> 0 then None else Some limit)"

text \<open>The loop of \<open>resolveTieredPricingTier\<close>: \<open>fromTokens\<close> of the last tier seen and the last limit are its variables.\<close>

fun resolve_tier_loop :: "int \<Rightarrow> int \<Rightarrow> int \<Rightarrow> 'f tieredPricingTier \<Rightarrow> 'f tieredPricingTier list \<Rightarrow> 'f resolvedTieredPricingTier" where
  "resolve_tier_loop inputTokens previousLimit lastFromTokens lastTier [] =
     \<lparr>rt_tier = lastTier, rt_fromTokens = lastFromTokens, rt_upToTokens = None\<rparr>"
| "resolve_tier_loop inputTokens previousLimit lastFromTokens lastTier (tier # tiers) =
     (if UpToTokens tier \<le> 0 \<or> inputTokens \<le> UpToTokens tier
      then \<lparr>rt_tier = tier, rt_fromTokens = previousLimit, rt_upToTokens = tierUpperLimit (UpToTokens tier)\<rparr>
      else resolve_tier_loop inputTokens (UpToTokens tier) previousLimit tier tiers)"

text \<open>With no tier the code returns the zero struct, given here as an argument.\<close>

definition resolveTieredPricingTier ::
  "'f tieredPricingTier \<Rightarrow> int \<Rightarrow> 'f tieredPricingTier list \<Rightarrow> 'f resolvedTieredPricingTier" where
  "resolveTieredPricingTier zeroTier inputTokens tiers =
     (if tiers = [] then \<lparr>rt_tier = zeroTier, rt_fromTokens = 0, rt_upToTokens = None\<rparr>
      else resolve_tier_loop inputTokens 0 0 (last tiers) tiers)"

definition tieredPricingInputTokens :: "int \<Rightarrow> int \<Rightarrow> int \<Rightarrow> int" where
  "tieredPricingInputTokens input cacheRead cacheWrite =
     add64 (add64 (clampNonNegative input) (clampNonNegative cacheRead)) (clampNonNegative cacheWrite)"

text \<open>The checks of \<open>parseTieredPricingTiers\<close> on the decoded list, with the conversion of each tier's prices.\<close>

fun check_tiers :: "('f \<Rightarrow> int) \<Rightarrow> int \<Rightarrow> 'f tieredPricingTier list \<Rightarrow> repo_error + 'f tieredPricingTier list" where
  "check_tiers usd previousLimit [] = Inr []"
| "check_tiers usd previousLimit (t # ts) =
     (if 0 < UpToTokens t \<and> UpToTokens t \<le> previousLimit then Inl ErrInvalidInput
      else (let t' = t\<lparr>inputNanousdPerMTokens := usd (InputUSDPerMTokens t),
                       cacheReadNanousdPerMTokens := usd (CacheReadUSDPerMTokens t),
                       cacheWriteNanousdPerMTokens := usd (CacheWriteUSDPerMTokens t),
                       outputNanousdPerMTokens := usd (OutputUSDPerMTokens t)\<rparr>
            in case check_tiers usd (if 0 < UpToTokens t then UpToTokens t else previousLimit) ts of
                 Inl e \<Rightarrow> Inl e | Inr r \<Rightarrow> Inr (t' # r)))"

text \<open>
  The argument \<open>decode\<close> is \<open>json.Unmarshal\<close> into the configuration: \<open>Inl\<close> for its error, else the list.
\<close>

definition parseTieredPricingTiers ::
  "('f \<Rightarrow> int) \<Rightarrow> (string \<Rightarrow> repo_error + 'f tieredPricingTier list) \<Rightarrow> string \<Rightarrow> repo_error + 'f tieredPricingTier list" where
  "parseTieredPricingTiers usd decode raw0 =
     (let raw = (if trim_space raw0 = [] then ''{}'' else trim_space raw0)
      in case decode raw of Inl e \<Rightarrow> Inl e
         | Inr tiers \<Rightarrow> if tiers = [] \<or> 100 < length tiers then Inl ErrInvalidInput else check_tiers usd 0 tiers)"

section \<open>Rounding\<close>

lemma round_half: "\<bar>1000000 * ((x + 500000) div 1000000) - x\<bar> \<le> (500000::int)"
proof -
  have "x + 500000 = 1000000 * ((x + 500000) div 1000000) + (x + 500000) mod 1000000" by simp
  moreover have "0 \<le> (x + 500000) mod 1000000" "(x + 500000) mod 1000000 < 1000000" by simp_all
  ultimately show ?thesis by linarith
qed

lemma mul64_exact: "in_int64 (a * b) \<Longrightarrow> mul64 a b = a * b"
  by (simp add: mul64_def)

lemma add64_exact: "in_int64 (a + b) \<Longrightarrow> add64 a b = a + b"
  by (simp add: add64_def)

lemma add64_commute: "add64 a b = add64 b a"
  by (simp add: add64_def add.commute)

lemma in_int64_between: "0 \<le> a \<Longrightarrow> a \<le> max_int64 \<Longrightarrow> in_int64 a"
  by (simp add: int64_defs)

lemma in_int64_upto: "0 \<le> a \<Longrightarrow> a \<le> b \<Longrightarrow> in_int64 b \<Longrightarrow> in_int64 a"
  by (simp add: int64_defs)

lemma calc_exact:
  assumes "0 \<le> t" and "0 \<le> r" and "t * r + 500000 \<le> max_int64"
  shows "calcNanousdByToken t r = (t * r + 500000) div 1000000"
proof (cases "t = 0 \<or> r = 0")
  case True then show ?thesis using assms by (auto simp: calcNanousdByToken_def)
next
  case False
  then have p: "0 < t" "0 < r" using assms by simp_all
  have "0 \<le> t * r" using assms by simp
  then have "mul64 t r = t * r" "add64 (t * r) 500000 = t * r + 500000"
    using assms(3) by (simp_all add: mul64_exact add64_exact in_int64_between)
  then show ?thesis using p \<open>0 \<le> t * r\<close> by (simp add: calcNanousdByToken_def go_div_nonneg)
qed

text \<open>@C:Billing_Rates.token_price_rounds@
  Below the overflow bound, what some tokens cost is the exact price rounded to the nearest nano
  dollar: it is off by at most half a nano dollar, never negative, and more tokens or a higher rate
  never cost less. Above the bound nothing is promised: a rate of ten dollars per million and a
  thousand million tokens give a negative amount.
\<close>

lemma token_price_rounds:
  assumes "0 \<le> t" and "0 \<le> r" and "t \<le> t'" and "r \<le> r'" and "t' * r' + 500000 \<le> max_int64"
  shows "\<bar>1000000 * calcNanousdByToken t r - t * r\<bar> \<le> 500000 \<and> 0 \<le> calcNanousdByToken t r \<and>
    calcNanousdByToken t r \<le> calcNanousdByToken t' r' \<and> calcNanousdByToken 1000000000 10000000000 < 0"
proof -
  have m: "t * r \<le> t' * r'" using assms by (intro mult_mono) auto
  have e: "calcNanousdByToken t r = (t * r + 500000) div 1000000"
    using assms m by (intro calc_exact) auto
  have e': "calcNanousdByToken t' r' = (t' * r' + 500000) div 1000000"
    using assms by (intro calc_exact) auto
  have z: "0 \<le> t * r" using assms by simp
  have "calcNanousdByToken 1000000000 10000000000 < 0" by code_simp
  moreover have "(t * r + 500000) div 1000000 \<le> (t' * r' + 500000) div 1000000"
    using m by (intro zdiv_mono1) auto
  ultimately show ?thesis using z round_half [of "t * r"] unfolding e e' by (simp add: pos_imp_zdiv_nonneg_iff)
qed

theorem token_price_rounds_witness:
  "\<bar>1000000 * calcNanousdByToken 1234 15000000001 - 1234 * 15000000001\<bar> \<le> 500000 \<and>
   calcNanousdByToken 1234 15000000001 = 18510000"
proof -
  have "\<bar>1000000 * calcNanousdByToken 1234 15000000001 - 1234 * 15000000001\<bar> \<le> 500000"
    using token_price_rounds [of 1234 15000000001 1234 15000000001] by (simp add: int64_defs)
  moreover have "calcNanousdByToken 1234 15000000001 = 18510000" by code_simp
  ultimately show ?thesis ..
qed

lemma calc_nonneg: "t * r + 500000 \<le> max_int64 \<Longrightarrow> 0 \<le> calcNanousdByToken t r"
proof (cases "t \<le> 0 \<or> r \<le> 0")
  case False
  moreover assume "t * r + 500000 \<le> max_int64"
  ultimately show ?thesis by (simp add: calc_exact pos_imp_zdiv_nonneg_iff)
qed (auto simp: calcNanousdByToken_def)

lemma calc_clamp [simp]: "calcNanousdByToken (clampNonNegative t) r = calcNanousdByToken t r"
  by (auto simp: calcNanousdByToken_def clampNonNegative_def)

lemma clamp_idem [simp]: "clampNonNegative (clampNonNegative t) = clampNonNegative t"
  by (simp add: clampNonNegative_def)

lemma clamp_nonneg [simp]: "0 \<le> clampNonNegative t"
  by (simp add: clampNonNegative_def)

section \<open>Cache writes are counted and priced once\<close>

text \<open>@C:Billing_Rates.cache_writes_conserved@
  Whatever an upstream reports about cache writes, the tokens that are billed at the five-minute and
  the one-hour rate add up to the billed total, the total is the larger of what was reported as the
  total and as the two parts, neither part loses tokens, and the tokens no part accounts for go to
  the part of the request's own cache timeout. Other protocols have no parts.
\<close>

lemma cache_writes_conserved:
  assumes "normalizeCacheWriteTokenBreakdown total0 five0 hour0 protocol timeout = (T, f, h)"
    and "in_int64 total0" and "in_int64 five0" and "in_int64 hour0" and "max 0 five0 + max 0 hour0 \<le> max_int64"
  shows "(is_anthropic protocol \<longrightarrow> T = f + h \<and> T = max (max 0 total0) (max 0 five0 + max 0 hour0) \<and>
           max 0 five0 \<le> f \<and> max 0 hour0 \<le> h \<and>
           (if normalizeAnthropicCacheTimeout timeout = ''1h'' then f = max 0 five0 else h = max 0 hour0)) \<and>
         (\<not> is_anthropic protocol \<longrightarrow> T = max 0 total0 \<and> f = 0 \<and> h = 0)"
proof (cases "is_anthropic protocol")
  case False
  then show ?thesis using assms(1) by (simp add: normalizeCacheWriteTokenBreakdown_def clampNonNegative_max)
next
  case True
  define a b c where v: "a = max 0 total0" "b = max 0 five0" "c = max 0 hour0"
  have z: "0 \<le> a" "0 \<le> b" "0 \<le> c" by (simp_all add: v)
  have i: "in_int64 a" "b + c \<le> max_int64" using assms by (auto simp: v int64_defs)
  then have split: "add64 b c = b + c" using z by (simp add: add64_exact in_int64_between)
  define t where t: "t = max a (b + c)"
  have tb: "b + c \<le> t" "0 \<le> t" "t \<le> max_int64" using i z by (auto simp: t int64_defs)
  have rem: "wrap64 (t - (b + c)) = t - (b + c)" using tb z by (intro wrap64_id in_int64_between) auto
  have adds: "add64 c (t - (b + c)) = t - b" "add64 b (t - (b + c)) = t - c"
    using tb z by (subst add64_exact; auto intro!: in_int64_between)+
  have pick: "(if a < b + c then b + c else a) = t" by (simp add: t max_def)
  have "(T, f, h) = (if t - (b + c) \<le> 0 then (t, b, c)
      else if normalizeAnthropicCacheTimeout timeout = ''1h'' then (t, b, t - b) else (t, t - c, c))"
    using assms(1) True unfolding normalizeCacheWriteTokenBreakdown_def Let_def clampNonNegative_max v [symmetric] split pick rem adds
    by simp
  then show ?thesis using True tb z unfolding v [symmetric] t [symmetric] by (auto split: if_splits)
qed

theorem cache_writes_conserved_witness:
  "normalizeCacheWriteTokenBreakdown 100 30 20 ''anthropic_messages'' ''1h'' = (100, 30, 70) \<and> (100::int) = 30 + 70"
proof -
  have e: "normalizeCacheWriteTokenBreakdown 100 30 20 ''anthropic_messages'' ''1h'' = (100, 30, 70)" by code_simp
  have "is_anthropic ''anthropic_messages''" by code_simp
  then show ?thesis using cache_writes_conserved [OF e] e by (simp add: int64_defs)
qed

lemma breakdown_anthropic_whole:
  assumes "is_anthropic protocol" and "in_int64 total0"
  shows "normalizeCacheWriteTokenBreakdown total0 0 0 protocol timeout =
    (clampNonNegative total0, if normalizeAnthropicCacheTimeout timeout = ''1h''
       then (0, clampNonNegative total0) else (clampNonNegative total0, 0))"
proof -
  have "wrap64 (clampNonNegative total0) = clampNonNegative total0"
    using assms(2) by (intro wrap64_id) (auto simp: clampNonNegative_def int64_defs)
  moreover have "wrap64 0 = 0" by (intro wrap64_id) (simp add: int64_defs)
  moreover have "clampNonNegative 0 = 0" by (simp add: clampNonNegative_def)
  moreover have "\<not> clampNonNegative total0 < 0" by (simp add: clampNonNegative_def)
  moreover have "clampNonNegative total0 = 0" if "clampNonNegative total0 \<le> 0"
    using that clamp_nonneg [of total0] by linarith
  ultimately show ?thesis using assms(1)
    by (auto simp: normalizeCacheWriteTokenBreakdown_def add64_def Let_def not_less)
qed

lemma cache_timeouts: "normalizeAnthropicCacheTimeout ''5m'' = ''5m''" "normalizeAnthropicCacheTimeout ''1h'' = ''1h''"
  by code_simp+

lemma cache_timeout_cases: "normalizeAnthropicCacheTimeout t = ''1h'' \<or> normalizeAnthropicCacheTimeout t = ''5m''"
  by (simp add: normalizeAnthropicCacheTimeout_def)

lemma cache_rate_by_timeout:
  "resolveCacheWriteNanousdPerMTokens rate basis protocol timeout =
   resolveCacheWriteNanousdPerMTokens rate basis protocol (normalizeAnthropicCacheTimeout timeout)"
  using cache_timeout_cases [of timeout] by (auto simp: resolveCacheWriteNanousdPerMTokens_def cache_timeouts)

text \<open>A write that is reported without its parts is billed at the rate of the request's own timeout.\<close>

lemma cache_write_whole:
  assumes "in_int64 total0" and "normalizeCacheWriteTokenBreakdown total0 0 0 protocol timeout = (T, f, h)"
    and "in_int64 (calcNanousdByToken T (rate timeout))"
    and "is_anthropic protocol \<longrightarrow> rate timeout = rate (normalizeAnthropicCacheTimeout timeout)"
  shows "calcCacheWriteBilledNanousd T f h (rate timeout) (rate ''5m'') (rate ''1h'') =
    calcNanousdByToken (clampNonNegative total0) (rate timeout)"
proof (cases "is_anthropic protocol")
  case False
  then have "T = clampNonNegative total0" "f = 0" "h = 0"
    using assms(2) by (simp_all add: normalizeCacheWriteTokenBreakdown_def Let_def)
  then show ?thesis by (auto simp: calcCacheWriteBilledNanousd_def calcNanousdByToken_def clampNonNegative_def)
next
  case True
  have z: "calcNanousdByToken 0 r = 0" for r by (simp add: calcNanousdByToken_def)
  show ?thesis using assms True cache_timeout_cases [of timeout]
    by (auto simp: breakdown_anthropic_whole calcCacheWriteBilledNanousd_def z add64_def calcNanousdByToken_def clampNonNegative_def
      split: if_splits)
qed

section \<open>Tiers\<close>

lemma resolve_tier_loop_brackets:
  "p < n \<Longrightarrow> q < n \<Longrightarrow> rt_fromTokens (resolve_tier_loop n p q l ts) < n \<and>
     (\<forall>u. rt_upToTokens (resolve_tier_loop n p q l ts) = Some u \<longrightarrow> n \<le> u)"
proof (induction ts arbitrary: p q l)
  case Nil then show ?case by simp
next
  case (Cons t ts)
  show ?case
  proof (cases "UpToTokens t \<le> 0 \<or> n \<le> UpToTokens t")
    case True then show ?thesis using Cons.prems by (auto simp: tierUpperLimit_def)
  next
    case False
    then show ?thesis using Cons.IH [of "UpToTokens t" p t] Cons.prems by simp
  qed
qed

lemma resolve_tier_loop_find:
  "rt_tier (resolve_tier_loop n p q l ts) =
     (case List.find (\<lambda>t. UpToTokens t \<le> 0 \<or> n \<le> UpToTokens t) ts of Some t \<Rightarrow> t | None \<Rightarrow> last (l # ts))"
  by (induction ts arbitrary: p q l) (auto split: option.split)

lemma check_tiers_limits: "check_tiers usd p ts = Inr r \<Longrightarrow> map UpToTokens r = map UpToTokens ts \<and>
    (\<forall>i<length ts. p < UpToTokens (ts ! i) \<or> UpToTokens (ts ! i) \<le> 0) \<and>
    (\<forall>i j. i < j \<longrightarrow> j < length ts \<longrightarrow> 0 < UpToTokens (ts ! i) \<longrightarrow> 0 < UpToTokens (ts ! j) \<longrightarrow> UpToTokens (ts ! i) < UpToTokens (ts ! j))"
proof (induction ts arbitrary: p r)
  case Nil then show ?case by simp
next
  case (Cons t ts)
  obtain r' where r': "check_tiers usd (if 0 < UpToTokens t then UpToTokens t else p) ts = Inr r'"
    "\<not> (0 < UpToTokens t \<and> UpToTokens t \<le> p)" "map UpToTokens r = UpToTokens t # map UpToTokens r'"
    using Cons.prems by (auto simp: Let_def split: if_splits sum.splits)
  note ih = Cons.IH [OF r'(1)]
  have lower: "p < UpToTokens (ts ! i) \<or> UpToTokens (ts ! i) \<le> 0" if "i < length ts" for i
    using ih that r'(2) by (cases "0 < UpToTokens t") (auto dest!: spec [of _ i])
  have a: "\<forall>i<length (t # ts). p < UpToTokens ((t # ts) ! i) \<or> UpToTokens ((t # ts) ! i) \<le> 0"
    using lower r'(2) by (auto simp: nth_Cons split: nat.split)
  have b: "UpToTokens ((t # ts) ! i) < UpToTokens ((t # ts) ! j)"
    if "i < j" "j < length (t # ts)" "0 < UpToTokens ((t # ts) ! i)" "0 < UpToTokens ((t # ts) ! j)" for i j
  proof (cases j)
    case 0 then show ?thesis using that by simp
  next
    case (Suc k)
    then show ?thesis using ih that by (cases i) (auto dest!: spec [of _ k])
  qed
  show ?case using ih r'(3) a b by simp
qed

text \<open>@C:Billing_Rates.tier_brackets@
  For a configuration that parses, the tier that prices a call is the first whose limit the input
  tokens do not exceed (a limit of zero is no limit), and the last tier when they exceed every
  limit. The recorded range contains the input tokens, and the bounded limits of a parsed
  configuration grow strictly, so no tier of it is hidden by an earlier bounded one.
\<close>

lemma tier_brackets:
  assumes "parseTieredPricingTiers usd decode raw = Inr tiers" and "0 < n"
  shows "rt_tier (resolveTieredPricingTier z n tiers) =
      (case List.find (\<lambda>t. UpToTokens t \<le> 0 \<or> n \<le> UpToTokens t) tiers of Some t \<Rightarrow> t | None \<Rightarrow> last tiers) \<and>
    rt_fromTokens (resolveTieredPricingTier z n tiers) < n \<and>
    (\<forall>u. rt_upToTokens (resolveTieredPricingTier z n tiers) = Some u \<longrightarrow> n \<le> u) \<and>
    sorted_wrt (<) (filter (\<lambda>u. 0 < u) (map UpToTokens tiers))"
proof -
  obtain ts where ts: "check_tiers usd 0 ts = Inr tiers" "ts \<noteq> []"
    using assms(1) by (auto simp: parseTieredPricingTiers_def Let_def split: sum.splits if_splits)
  note l = check_tiers_limits [OF ts(1)]
  have ne: "tiers \<noteq> []" using l ts(2) by auto
  have "sorted_wrt (\<lambda>a b. 0 < a \<longrightarrow> 0 < b \<longrightarrow> a < b) (map UpToTokens ts)"
    using l by (auto simp: sorted_wrt_iff_nth_less)
  then have "sorted_wrt (\<lambda>a b. 0 < a \<longrightarrow> 0 < b \<longrightarrow> a < b) (filter (\<lambda>u. 0 < u) (map UpToTokens tiers))"
    using l by (simp add: sorted_wrt_filter)
  then have "sorted_wrt (<) (filter (\<lambda>u. 0 < u) (map UpToTokens tiers))"
    by (rule sorted_wrt_mono_rel [rotated]) auto
  then show ?thesis using ne assms(2) resolve_tier_loop_brackets [of 0 n 0 "last tiers" tiers]
    by (simp add: resolveTieredPricingTier_def resolve_tier_loop_find split: option.split)
qed

definition sample_tier :: "int \<Rightarrow> int \<Rightarrow> int tieredPricingTier" where
  "sample_tier limit price = \<lparr>UpToTokens = limit, InputUSDPerMTokens = price, CacheReadUSDPerMTokens = 0,
     CacheWriteUSDPerMTokens = 0, OutputUSDPerMTokens = 2 * price, inputNanousdPerMTokens = 0,
     cacheReadNanousdPerMTokens = 0, cacheWriteNanousdPerMTokens = 0, outputNanousdPerMTokens = 0\<rparr>"

definition sample_decode :: "string \<Rightarrow> repo_error + int tieredPricingTier list" where
  "sample_decode raw = Inr [sample_tier 200000 3, sample_tier 0 6]"

definition whole_dollars :: "int \<Rightarrow> int" where "whole_dollars d = 1000000000 * d"

theorem tier_brackets_witness:
  "(case parseTieredPricingTiers whole_dollars sample_decode ''x'' of Inl e \<Rightarrow> False
    | Inr tiers \<Rightarrow> (let t = resolveTieredPricingTier (sample_tier 0 0) 250000 tiers
        in rt_fromTokens t < 250000 \<and> inputNanousdPerMTokens (rt_tier t) = 6000000000))"
proof -
  define tiers where t: "tiers = [(sample_tier 200000 3)\<lparr>inputNanousdPerMTokens := 3000000000, outputNanousdPerMTokens := 6000000000\<rparr>,
    (sample_tier 0 6)\<lparr>inputNanousdPerMTokens := 6000000000, outputNanousdPerMTokens := 12000000000\<rparr>]"
  have p: "parseTieredPricingTiers whole_dollars sample_decode ''x'' = Inr tiers"
    by (simp add: t parseTieredPricingTiers_def sample_decode_def sample_tier_def whole_dollars_def)
  have "inputNanousdPerMTokens (rt_tier (resolveTieredPricingTier (sample_tier 0 0) 250000 tiers)) = 6000000000"
    using tier_brackets [OF p, of 250000 "sample_tier 0 0"] by (simp add: t sample_tier_def)
  then show ?thesis using tier_brackets [OF p, of 250000 "sample_tier 0 0"] by (simp add: p)
qed

end
