(* ===== verification/Billing_Schedule.thy ===== *)
theory Billing_Schedule
  imports Go_Calendar Billing_Rates
begin

text \<open>
  Time-of-day pricing (\<open>application/billing/schedule_pricing.go\<close>): periods of the week with a rate in
  percent. A configuration is accepted only if no two of its periods share a minute of the week, so at
  most one applies at any time. Times are those of the server's location.
\<close>

section \<open>Reading a configuration\<close>

record schedulePeriod =
  sp_Name :: string
  sp_Weekdays :: "int list"
  sp_Start :: string
  sp_End :: string
  sp_RatePercent :: int
  sp_startMinute :: int
  sp_endMinute :: int

record ResolvedSchedulePeriod =
  rs_Name :: string
  rs_RatePercent :: int

text \<open>
  \<open>time.Parse("15:04", s)\<close>: an hour of one or two digits below 24, a colon, a minute of two digits below
  60, and nothing more.
\<close>

definition two_digits :: "char \<Rightarrow> char \<Rightarrow> int" where
  "two_digits a b = int (10 * digit_val a + digit_val b)"

definition parse_minute :: "int \<Rightarrow> string \<Rightarrow> int option" where
  "parse_minute h s =
     (case s of [colon, c, d] \<Rightarrow>
        if colon = CHR '':'' \<and> is_digit c \<and> is_digit d \<and> h < 24 \<and> two_digits c d < 60 then Some (h * 60 + two_digits c d) else None
      | _ \<Rightarrow> None)"

definition parse_clock :: "string \<Rightarrow> int option" where
  "parse_clock s =
     (case s of
        a # b # rest \<Rightarrow>
          if \<not> is_digit a then None
          else if is_digit b then parse_minute (two_digits a b) rest else parse_minute (int (digit_val a)) (b # rest)
      | _ \<Rightarrow> None)"

definition parseClockMinute :: "string \<Rightarrow> repo_error + int" where
  "parseClockMinute s = (case parse_clock (trim_space s) of None \<Rightarrow> Inl ErrInvalidInput | Some m \<Rightarrow> Inr m)"

definition show_two :: "int \<Rightarrow> string" where
  "show_two n = [digit_char (nat n div 10), digit_char (nat n mod 10)]"

text \<open>\<open>fmt.Sprintf("%02d:%02d", m/60, m%60)\<close>.\<close>

definition show_clock :: "int \<Rightarrow> string" where
  "show_clock m = show_two (m div 60) @ '':'' @ show_two (m mod 60)"

text \<open>The checks of one period, in the order of the loop in \<open>parseSchedulePeriods\<close>.\<close>

definition check_period :: "schedulePeriod \<Rightarrow> repo_error + schedulePeriod" where
  "check_period p0 =
     (let p = p0\<lparr>sp_Name := trim_space (sp_Name p0)\<rparr> in
      if sp_Name p = [] \<or> 32 < length (utf8_runes (sp_Name p)) then Inl ErrInvalidInput
      else if sp_RatePercent p < 1 \<or> 10000 < sp_RatePercent p then Inl ErrInvalidInput
      else if sp_Weekdays p = [] then Inl ErrInvalidInput
      else if \<not> (\<forall>w \<in> set (sp_Weekdays p). 0 \<le> w \<and> w \<le> 6) \<or> \<not> distinct (sp_Weekdays p) then Inl ErrInvalidInput
      else case parseClockMinute (sp_Start p) of Inl e \<Rightarrow> Inl e
        | Inr start \<Rightarrow> (case parseClockMinute (sp_End p) of Inl e \<Rightarrow> Inl e
          | Inr stop \<Rightarrow>
            if start = stop then Inl ErrInvalidInput
            else Inr (p\<lparr>sp_Weekdays := sort (sp_Weekdays p), sp_Start := show_clock start, sp_End := show_clock stop,
                        sp_startMinute := start, sp_endMinute := stop\<rparr>)))"

fun check_periods :: "schedulePeriod list \<Rightarrow> repo_error + schedulePeriod list" where
  "check_periods [] = Inr []"
| "check_periods (p # ps) =
     (case check_period p of Inl e \<Rightarrow> Inl e
      | Inr q \<Rightarrow> (case check_periods ps of Inl e \<Rightarrow> Inl e | Inr qs \<Rightarrow> Inr (q # qs)))"

text \<open>A period as minutes of the week, from Sunday midnight: cut in two where it passes midnight.\<close>

definition weekMinuteSpans :: "schedulePeriod \<Rightarrow> (int \<times> int) list" where
  "weekMinuteSpans p =
     concat (map (\<lambda>w. if sp_startMinute p < sp_endMinute p
                      then [(w * 1440 + sp_startMinute p, w * 1440 + sp_endMinute p)]
                      else [(w * 1440 + sp_startMinute p, w * 1440 + 1440),
                            ((w + 1) mod 7 * 1440, (w + 1) mod 7 * 1440 + sp_endMinute p)]) (sp_Weekdays p))"

fun neighbours_overlap :: "(int \<times> int) list \<Rightarrow> bool" where
  "neighbours_overlap (a # b # rest) \<longleftrightarrow> fst b < snd a \<or> neighbours_overlap (b # rest)"
| "neighbours_overlap _ \<longleftrightarrow> False"

definition schedulePeriodsOverlap :: "schedulePeriod list \<Rightarrow> bool" where
  "schedulePeriodsOverlap periods \<longleftrightarrow>
     neighbours_overlap (sort_key fst (filter (\<lambda>s. fst s < snd s) (concat (map weekMinuteSpans periods))))"

definition parseSchedulePeriods ::
  "(string \<Rightarrow> schedulePeriod list option) \<Rightarrow> string \<Rightarrow> repo_error + schedulePeriod list" where
  "parseSchedulePeriods decode raw0 =
     (let raw = trim_space raw0 in
      if raw = [] \<or> raw = ''{}'' then Inr []
      else case decode raw of None \<Rightarrow> Inl ErrInvalidInput
        | Some periods \<Rightarrow>
          if periods = [] then Inr []
          else if 32 < length periods then Inl ErrInvalidInput
          else case check_periods periods of Inl e \<Rightarrow> Inl e
            | Inr ps \<Rightarrow> if schedulePeriodsOverlap ps then Inl ErrInvalidInput else Inr ps)"

text \<open>The argument \<open>encode\<close> is \<open>json.Marshal\<close> of the configuration.\<close>

definition normalizeSchedulePricingJSON ::
  "(string \<Rightarrow> schedulePeriod list option) \<Rightarrow> (schedulePeriod list \<Rightarrow> repo_error + string) \<Rightarrow> string \<Rightarrow> repo_error + string" where
  "normalizeSchedulePricingJSON decode encode raw =
     (case parseSchedulePeriods decode raw of Inl e \<Rightarrow> Inl e
      | Inr ps \<Rightarrow> if ps = [] then Inr ''{}'' else encode ps)"

section \<open>The period that applies\<close>

definition week_minute :: "location \<Rightarrow> gotime \<Rightarrow> int" where
  "week_minute loc t = Weekday loc t * 1440 + clock_hour loc t * 60 + clock_minute loc t"

definition span_hit :: "int \<Rightarrow> schedulePeriod \<Rightarrow> bool" where
  "span_hit m p \<longleftrightarrow> (\<exists>s \<in> set (weekMinuteSpans p). fst s \<le> m \<and> m < snd s)"

definition resolveSchedulePeriod :: "location \<Rightarrow> schedulePeriod list \<Rightarrow> gotime \<Rightarrow> ResolvedSchedulePeriod option" where
  "resolveSchedulePeriod loc periods t =
     map_option (\<lambda>p. \<lparr>rs_Name = sp_Name p, rs_RatePercent = sp_RatePercent p\<rparr>) (List.find (span_hit (week_minute loc t)) periods)"

definition resolveSchedulePeriodJSON ::
  "location \<Rightarrow> (string \<Rightarrow> schedulePeriod list option) \<Rightarrow> string \<Rightarrow> gotime \<Rightarrow> ResolvedSchedulePeriod option" where
  "resolveSchedulePeriodJSON loc decode raw t =
     (case parseSchedulePeriods decode raw of Inl e \<Rightarrow> None | Inr ps \<Rightarrow> resolveSchedulePeriod loc ps t)"

section \<open>The overlap check\<close>

definition shares_minute :: "int \<times> int \<Rightarrow> int \<times> int \<Rightarrow> bool" where
  "shares_minute a b \<longleftrightarrow> (\<exists>m. fst a \<le> m \<and> m < snd a \<and> fst b \<le> m \<and> m < snd b)"

lemma shares_minute_sym: "shares_minute a b \<longleftrightarrow> shares_minute b a"
  by (auto simp: shares_minute_def)

lemma shares_minute_iff: "fst a < snd a \<Longrightarrow> fst b < snd b \<Longrightarrow> shares_minute a b \<longleftrightarrow> fst a < snd b \<and> fst b < snd a"
  by (auto simp: shares_minute_def intro!: exI [of _ "max (fst a) (fst b)"])

lemma shares_nonempty: "shares_minute a b \<Longrightarrow> fst a < snd a \<and> fst b < snd b"
  by (auto simp: shares_minute_def)

lemma insort_pairs: "sorted_wrt (\<lambda>a b. \<not> shares_minute a b) (insort_key f x xs) \<longleftrightarrow>
    (\<forall>y \<in> set xs. \<not> shares_minute x y) \<and> sorted_wrt (\<lambda>a b. \<not> shares_minute a b) xs"
  by (induction xs) (auto simp: set_insort_key shares_minute_sym)

lemma sort_pairs: "sorted_wrt (\<lambda>a b. \<not> shares_minute a b) (sort_key f xs) \<longleftrightarrow> sorted_wrt (\<lambda>a b. \<not> shares_minute a b) xs"
  by (induction xs) (auto simp: insort_pairs)

lemma filter_pairs: "sorted_wrt (\<lambda>a b. \<not> shares_minute a b) (filter (\<lambda>s. fst s < snd s) xs) \<longleftrightarrow>
    sorted_wrt (\<lambda>a b. \<not> shares_minute a b) xs"
proof (induction xs)
  case (Cons x xs)
  have "(\<forall>y \<in> set (filter (\<lambda>s. fst s < snd s) xs). \<not> shares_minute x y) \<longleftrightarrow> (\<forall>y \<in> set xs. \<not> shares_minute x y)"
    using shares_nonempty [of x] by (simp only: set_filter mem_Collect_eq) blast
  then show ?case using Cons.IH shares_nonempty [of x] by (cases "fst x < snd x") (simp_all, blast?)
qed simp

lemma neighbours_pairs:
  assumes "sorted (map fst xs)" and "\<forall>s \<in> set xs. fst s < snd s"
  shows "neighbours_overlap xs \<longleftrightarrow> \<not> sorted_wrt (\<lambda>a b. \<not> shares_minute a b) xs"
  using assms
proof (induction xs rule: neighbours_overlap.induct)
  case (1 a b rest)
  have ne: "fst a < snd a" "fst b < snd b" using 1 by auto
  have ab: "fst b < snd a \<longleftrightarrow> shares_minute a b"
    using 1 ne by (auto simp: shares_minute_iff)
  show ?case
  proof (cases "fst b < snd a")
    case True then show ?thesis using ab by auto
  next
    case False
    have "\<not> shares_minute a c" if "c \<in> set rest" for c
    proof -
      have "fst b \<le> fst c" "fst c < snd c" using 1 that by auto
      then show ?thesis using False ne by (auto simp: shares_minute_iff)
    qed
    then show ?thesis using False ab 1 by auto
  qed
qed auto

text \<open>@C:Billing_Schedule.overlap_check_exact@
  Sorting the spans by their start and comparing neighbours finds an overlap exactly when two spans of
  the configuration share a minute of the week, whichever order a sort leaves equal starts in.
\<close>

lemma overlap_check_exact:
  "schedulePeriodsOverlap periods \<longleftrightarrow>
     (\<exists>i j m. i < j \<and> j < length (concat (map weekMinuteSpans periods)) \<and>
       fst (concat (map weekMinuteSpans periods) ! i) \<le> m \<and> m < snd (concat (map weekMinuteSpans periods) ! i) \<and>
       fst (concat (map weekMinuteSpans periods) ! j) \<le> m \<and> m < snd (concat (map weekMinuteSpans periods) ! j))"
proof -
  let ?all = "concat (map weekMinuteSpans periods)"
  have "schedulePeriodsOverlap periods \<longleftrightarrow> \<not> sorted_wrt (\<lambda>a b. \<not> shares_minute a b) ?all"
    unfolding schedulePeriodsOverlap_def by (subst neighbours_pairs) (auto simp: sort_pairs filter_pairs)
  also have "\<dots> \<longleftrightarrow> (\<exists>i j m. i < j \<and> j < length ?all \<and> fst (?all ! i) \<le> m \<and> m < snd (?all ! i) \<and> fst (?all ! j) \<le> m \<and> m < snd (?all ! j))"
    unfolding sorted_wrt_iff_nth_less shares_minute_def by blast
  finally show ?thesis .
qed

lemma overlap_pairs: "schedulePeriodsOverlap periods \<longleftrightarrow> \<not> sorted_wrt (\<lambda>a b. \<not> shares_minute a b) (concat (map weekMinuteSpans periods))"
  unfolding schedulePeriodsOverlap_def by (subst neighbours_pairs) (auto simp: sort_pairs filter_pairs)

section \<open>One period at a time\<close>

text \<open>When a period applies, said without the week's minutes: on a day of the week, at a minute of that day.\<close>

definition applies :: "int \<Rightarrow> int \<Rightarrow> schedulePeriod \<Rightarrow> bool" where
  "applies weekday clock p \<longleftrightarrow>
     (if sp_startMinute p < sp_endMinute p
      then weekday \<in> set (sp_Weekdays p) \<and> sp_startMinute p \<le> clock \<and> clock < sp_endMinute p
      else weekday \<in> set (sp_Weekdays p) \<and> sp_startMinute p \<le> clock \<or>
           (weekday - 1) mod 7 \<in> set (sp_Weekdays p) \<and> clock < sp_endMinute p)"

definition period_ok :: "schedulePeriod \<Rightarrow> bool" where
  "period_ok p \<longleftrightarrow> (\<forall>w \<in> set (sp_Weekdays p). 0 \<le> w \<and> w \<le> 6) \<and>
     0 \<le> sp_startMinute p \<and> sp_startMinute p < 1440 \<and> 0 \<le> sp_endMinute p \<and> sp_endMinute p < 1440 \<and>
     1 \<le> sp_RatePercent p \<and> sp_RatePercent p \<le> 10000"

lemma digit_val_less: "is_digit c \<Longrightarrow> digit_val c < 10"
  by (auto simp: is_digit_def digit_val_def)

lemma parse_minute_range: "0 \<le> h \<Longrightarrow> parse_minute h s = Some m \<Longrightarrow> 0 \<le> m \<and> m < 1440"
  by (auto simp: parse_minute_def two_digits_def split: list.splits if_splits)

lemma parse_clock_range: "parse_clock s = Some m \<Longrightarrow> 0 \<le> m \<and> m < 1440"
  by (auto simp: parse_clock_def two_digits_def split: list.splits if_splits dest!: parse_minute_range [rotated])

lemma parse_clock_minute_range: "parseClockMinute s = Inr m \<Longrightarrow> 0 \<le> m \<and> m < 1440"
  by (auto simp: parseClockMinute_def split: option.splits dest: parse_clock_range)

lemma check_period_ok: "check_period p = Inr q \<Longrightarrow> period_ok q"
  by (auto simp: check_period_def period_ok_def Let_def split: if_splits sum.splits dest: parse_clock_minute_range)

lemma check_periods_ok: "check_periods ps = Inr qs \<Longrightarrow> q \<in> set qs \<Longrightarrow> period_ok q"
  by (induction ps arbitrary: qs) (auto split: sum.splits dest: check_period_ok)

lemma parse_periods_ok:
  assumes "parseSchedulePeriods decode raw = Inr ps"
  shows "\<forall>p \<in> set ps. period_ok p" and "\<not> schedulePeriodsOverlap ps"
  using assms by (auto simp: parseSchedulePeriods_def Let_def schedulePeriodsOverlap_def split: if_splits option.splits sum.splits
    dest: check_periods_ok)

lemma same_day: "0 \<le> c \<Longrightarrow> c < 1440 \<Longrightarrow> 0 \<le> a \<Longrightarrow> a \<le> 1440 \<Longrightarrow> 0 \<le> b \<Longrightarrow> b \<le> 1440 \<Longrightarrow>
    (v * 1440 + a \<le> w * 1440 + c \<and> w * 1440 + c < v * 1440 + b) = (v = w \<and> a \<le> c \<and> c < (b::int))"
proof -
  assume r: "0 \<le> c" "c < 1440" "0 \<le> a" "a \<le> 1440" "0 \<le> b" "b \<le> 1440"
  consider "v + 1 \<le> w" | "w + 1 \<le> v" | "v = w" by linarith
  then show ?thesis using r by cases auto
qed

lemma day_before: "0 \<le> v \<Longrightarrow> v \<le> 6 \<Longrightarrow> 0 \<le> w \<Longrightarrow> w \<le> 6 \<Longrightarrow> ((v + 1) mod 7 = w) = (v = (w - 1) mod (7::int))"
proof -
  assume r: "0 \<le> v" "v \<le> 6" "0 \<le> w" "w \<le> 6"
  have "(v + 1) mod 7 = (if v = 6 then 0 else v + 1)" using r by (simp add: mod_pos_pos_trivial)
  moreover have "(w - 1) mod 7 = (if w = 0 then 6 else w - 1)"
    using r by (cases "w = 0") (simp_all add: mod_pos_pos_trivial)
  ultimately show ?thesis using r by auto
qed

lemma span_hit_applies:
  assumes "period_ok p" and "0 \<le> w" and "w \<le> 6" and "0 \<le> c" and "c < 1440"
  shows "span_hit (w * 1440 + c) p \<longleftrightarrow> applies w c p"
proof (cases "sp_startMinute p < sp_endMinute p")
  case True
  have "(\<exists>s \<in> set (weekMinuteSpans p). fst s \<le> w * 1440 + c \<and> w * 1440 + c < snd s) \<longleftrightarrow>
      (\<exists>v \<in> set (sp_Weekdays p). v * 1440 + sp_startMinute p \<le> w * 1440 + c \<and> w * 1440 + c < v * 1440 + sp_endMinute p)"
    using True by (auto simp: weekMinuteSpans_def)
  also have "\<dots> \<longleftrightarrow> applies w c p" using assms True same_day [of c "sp_startMinute p" "sp_endMinute p" _ w]
    by (auto simp: applies_def period_ok_def)
  finally show ?thesis by (simp add: span_hit_def)
next
  case False
  have "(\<exists>s \<in> set (weekMinuteSpans p). fst s \<le> w * 1440 + c \<and> w * 1440 + c < snd s) \<longleftrightarrow>
      (\<exists>v \<in> set (sp_Weekdays p). (v * 1440 + sp_startMinute p \<le> w * 1440 + c \<and> w * 1440 + c < v * 1440 + 1440) \<or>
        ((v + 1) mod 7 * 1440 + 0 \<le> w * 1440 + c \<and> w * 1440 + c < (v + 1) mod 7 * 1440 + sp_endMinute p))"
    using False by (auto simp: weekMinuteSpans_def)
  also have "\<dots> \<longleftrightarrow> (\<exists>v \<in> set (sp_Weekdays p). v = w \<and> sp_startMinute p \<le> c \<or> v = (w - 1) mod 7 \<and> c < sp_endMinute p)"
  proof (rule bex_cong [OF refl])
    fix v assume "v \<in> set (sp_Weekdays p)"
    then have v: "0 \<le> v" "v \<le> 6" using assms(1) by (auto simp: period_ok_def)
    show "(v * 1440 + sp_startMinute p \<le> w * 1440 + c \<and> w * 1440 + c < v * 1440 + 1440 \<or>
        (v + 1) mod 7 * 1440 + 0 \<le> w * 1440 + c \<and> w * 1440 + c < (v + 1) mod 7 * 1440 + sp_endMinute p) =
      (v = w \<and> sp_startMinute p \<le> c \<or> v = (w - 1) mod 7 \<and> c < sp_endMinute p)"
      using assms same_day [of c "sp_startMinute p" 1440 v w] same_day [of c 0 "sp_endMinute p" "(v + 1) mod 7" w]
        day_before [OF v assms(2,3)] unfolding period_ok_def by simp
  qed
  also have "\<dots> \<longleftrightarrow> applies w c p" using False by (auto simp: applies_def)
  finally show ?thesis by (simp add: span_hit_def)
qed

lemma span_hit_unique:
  assumes "\<not> schedulePeriodsOverlap ps" and "i < length ps" and "j < length ps"
    and "span_hit m (ps ! i)" and "span_hit m (ps ! j)"
  shows "i = j"
proof (rule ccontr)
  have w: False if ij: "i < j" "j < length ps" "span_hit m (ps ! i)" "span_hit m (ps ! j)" for i j
  proof -
    define xs ys where xy: "xs = take j ps" "ys = drop j ps"
    have s: "sorted_wrt (\<lambda>a b. \<not> shares_minute a b) (concat (map weekMinuteSpans xs) @ concat (map weekMinuteSpans ys))"
      using assms(1) unfolding overlap_pairs xy by (simp flip: concat_append map_append)
    have m: "ps ! i \<in> set xs" "ps ! j \<in> set ys"
      using ij nth_mem [of i "take j ps"] by (simp_all add: xy Cons_nth_drop_Suc [symmetric])
    obtain a b where "a \<in> set (weekMinuteSpans (ps ! i))" "b \<in> set (weekMinuteSpans (ps ! j))" "shares_minute a b"
      using ij unfolding span_hit_def shares_minute_def by blast
    then show False using s m by (auto simp: sorted_wrt_append)
  qed
  assume "i \<noteq> j"
  then consider "i < j" | "j < i" by linarith
  then show False using w [of i j] w [of j i] assms by cases auto
qed

text \<open>@C:Billing_Schedule.schedule_unambiguous@
  A configuration that parses gives every instant at most one period: the one that holds the instant's
  weekday and minute of the day in the server's location, where a period that ends before it starts runs
  past midnight into the following day. That period is the one the price uses, its rate lies between one
  and ten thousand percent, and when none applies no rate does.
\<close>

lemma schedule_unambiguous:
  assumes "parseSchedulePeriods decode raw = Inr ps"
    and "weekday = Weekday loc t" and "clock = clock_hour loc t * 60 + clock_minute loc t"
  shows "(\<forall>i<length ps. \<forall>j<length ps. applies weekday clock (ps ! i) \<and> applies weekday clock (ps ! j) \<longrightarrow> i = j) \<and>
    (case resolveSchedulePeriodJSON loc decode raw t of
       None \<Rightarrow> \<forall>p \<in> set ps. \<not> applies weekday clock p
     | Some r \<Rightarrow> \<exists>p \<in> set ps. applies weekday clock p \<and> r = \<lparr>rs_Name = sp_Name p, rs_RatePercent = sp_RatePercent p\<rparr> \<and>
         1 \<le> rs_RatePercent r \<and> rs_RatePercent r \<le> 10000)"
proof -
  have w: "0 \<le> weekday" "weekday \<le> 6"
    using pos_mod_sign [of 7 "local_day loc t + 1"] pos_mod_bound [of 7 "local_day loc t + 1"] by (simp_all add: assms(2) Weekday_def)
  have cl: "0 \<le> local_clock loc t" "local_clock loc t < day_ns"
    unfolding local_clock_def by (simp_all add: day_ns_def go_time)
  have c: "0 \<le> clock" "clock < 1440"
  proof -
    have h: "0 \<le> clock_hour loc t" "clock_hour loc t < 24"
      using cl div_bounds [of hour "local_clock loc t"] by (simp_all add: clock_hour_def day_ns_def go_time pos_imp_zdiv_nonneg_iff)
    have "0 \<le> clock_minute loc t" "clock_minute loc t < 60" by (simp_all add: clock_minute_def)
    then show "0 \<le> clock" "clock < 1440" using h by (simp_all add: assms(3))
  qed
  have m: "week_minute loc t = weekday * 1440 + clock" by (simp add: week_minute_def assms(2,3))
  note ok = parse_periods_ok [OF assms(1)]
  have hit: "span_hit (week_minute loc t) p \<longleftrightarrow> applies weekday clock p" if "p \<in> set ps" for p
    unfolding m using ok that w c by (intro span_hit_applies) auto
  have "\<forall>i<length ps. \<forall>j<length ps. applies weekday clock (ps ! i) \<and> applies weekday clock (ps ! j) \<longrightarrow> i = j"
    using span_hit_unique [OF ok(2), of _ _ "week_minute loc t"] hit nth_mem by metis
  moreover have "case resolveSchedulePeriodJSON loc decode raw t of
       None \<Rightarrow> \<forall>p \<in> set ps. \<not> applies weekday clock p
     | Some r \<Rightarrow> \<exists>p \<in> set ps. applies weekday clock p \<and> r = \<lparr>rs_Name = sp_Name p, rs_RatePercent = sp_RatePercent p\<rparr> \<and>
         1 \<le> rs_RatePercent r \<and> rs_RatePercent r \<le> 10000"
    using ok(1) hit by (auto simp: resolveSchedulePeriodJSON_def resolveSchedulePeriod_def assms(1) find_None_iff period_ok_def
      split: option.split dest!: find_SomeD intro!: bexI)
  ultimately show ?thesis ..
qed

definition sample_periods :: "schedulePeriod list" where
  "sample_periods = [
     \<lparr>sp_Name = ''night'', sp_Weekdays = [6, 0], sp_Start = ''22:30'', sp_End = ''6:00'', sp_RatePercent = 50, sp_startMinute = 0, sp_endMinute = 0\<rparr>,
     \<lparr>sp_Name = '' peak '', sp_Weekdays = [1], sp_Start = ''06:00'', sp_End = ''18:00'', sp_RatePercent = 150, sp_startMinute = 0, sp_endMinute = 0\<rparr>]"

definition sample_parsed :: "schedulePeriod list" where
  "sample_parsed = [
     \<lparr>sp_Name = ''night'', sp_Weekdays = [0, 6], sp_Start = ''22:30'', sp_End = ''06:00'', sp_RatePercent = 50, sp_startMinute = 1350, sp_endMinute = 360\<rparr>,
     \<lparr>sp_Name = ''peak'', sp_Weekdays = [1], sp_Start = ''06:00'', sp_End = ''18:00'', sp_RatePercent = 150, sp_startMinute = 360, sp_endMinute = 1080\<rparr>]"

text \<open>Monday at three in the morning belongs to Sunday's night.\<close>

theorem schedule_unambiguous_witness:
  "resolveSchedulePeriodJSON utc (\<lambda>_. Some sample_periods) ''x'' (go_date utc 2025 3 3 (3 * hour)) =
     Some \<lparr>rs_Name = ''night'', rs_RatePercent = 50\<rparr>"
proof -
  have p: "parseSchedulePeriods (\<lambda>_. Some sample_periods) ''x'' = Inr sample_parsed" by code_simp
  let ?t = "go_date utc 2025 3 3 (3 * hour)"
  have t: "Weekday utc ?t = 1" "clock_hour utc ?t * 60 + clock_minute utc ?t = 180" by code_simp+
  have a: "applies 1 180 (sample_parsed ! 0)" "\<not> applies 1 180 (sample_parsed ! 1)" by code_simp+
  have s: "set sample_parsed = {sample_parsed ! 0, sample_parsed ! 1}" by (simp add: sample_parsed_def)
  have "case resolveSchedulePeriodJSON utc (\<lambda>_. Some sample_periods) ''x'' ?t of
       None \<Rightarrow> \<forall>p \<in> set sample_parsed. \<not> applies 1 180 p
     | Some r \<Rightarrow> \<exists>p \<in> set sample_parsed. applies 1 180 p \<and> r = \<lparr>rs_Name = sp_Name p, rs_RatePercent = sp_RatePercent p\<rparr> \<and>
         1 \<le> rs_RatePercent r \<and> rs_RatePercent r \<le> 10000"
    using schedule_unambiguous [OF p t(1) [symmetric] t(2) [symmetric]] by blast
  then show ?thesis using a by (auto simp: s sample_parsed_def split: option.splits)
qed

end
