(* ===== verification/Billing_Calendar.thy ===== *)
theory Billing_Calendar
  imports Go_Calendar Billing_Plans
begin

text \<open>
  The calendar side of the billing service (\<open>application/billing/service.go\<close>): the month and the anchored
  billing cycle an instant lies in, the end of a purchased period, and the daily and monthly usage charts,
  which give every day or month of a range a row. The location is that of the clock reading. Loops whose
  end depends on the location's table are partial: \<open>None\<close> is a loop that does not end.
\<close>

section \<open>Months and periods\<close>

definition monthBounds :: "location \<Rightarrow> gotime \<Rightarrow> gotime \<Rightarrow> gotime \<times> gotime" where
  "monthBounds loc clock now0 =
     (let now = (if is_zero now0 then clock else now0); c = Date loc now;
          start = go_date loc (cv_year c) (cv_month c) 1 0
      in (start, AddDate loc start 0 1 0))"

definition resolvePeriodEnd :: "location \<Rightarrow> gotime \<Rightarrow> string \<Rightarrow> int \<Rightarrow> gotime option" where
  "resolvePeriodEnd loc now interval cycles0 =
     (let cycles = (if cycles0 \<le> 0 then 1 else cycles0)
      in if interval = ''year'' then Some (AddDate loc now cycles 0 0)
         else if interval = ''lifetime'' then None
         else Some (AddDate loc now 0 cycles 0))"

text \<open>Go's \<open>/\<close> truncates; the months stay far inside the 64 bits that the years of a \<open>time.Time\<close> need.\<close>

definition floorDiv :: "int \<Rightarrow> int \<Rightarrow> int" where
  "floorDiv value divisor =
     (let result = go_div value divisor
      in if value - result * divisor \<noteq> 0 \<and> value < 0 then result - 1 else result)"

definition mod_floor :: "int \<Rightarrow> int \<Rightarrow> int" where
  "mod_floor value divisor =
     (let result = value - go_div value divisor * divisor
      in if result < 0 then result + divisor else result)"

definition lastDayOfMonth :: "location \<Rightarrow> int \<Rightarrow> int \<Rightarrow> int" where
  "lastDayOfMonth loc year month = cv_day (Date loc (go_date loc year (month + 1) 0 0))"

definition addAnchoredMonths :: "location \<Rightarrow> gotime \<Rightarrow> int \<Rightarrow> gotime" where
  "addAnchoredMonths loc anchor monthOffset =
     (let c = Date loc anchor; monthIndex = cv_month c - 1 + monthOffset;
          year = cv_year c + floorDiv monthIndex 12; month = mod_floor monthIndex 12 + 1;
          lastDay = lastDayOfMonth loc year month
      in go_date loc year month (if lastDay < cv_day c then lastDay else cv_day c) 0)"

definition day_start :: "location \<Rightarrow> gotime \<Rightarrow> gotime" where
  "day_start loc t = (let c = Date loc t in go_date loc (cv_year c) (cv_month c) (cv_day c) 0)"

partial_function (option) cycle_loop :: "location \<Rightarrow> gotime \<Rightarrow> gotime \<Rightarrow> int \<Rightarrow> gotime \<Rightarrow> gotime \<Rightarrow> (gotime \<times> gotime) option" where
  "cycle_loop loc anchorDay today monthOffset start stop =
     (if today < stop then Some (start, stop)
      else cycle_loop loc anchorDay today (monthOffset + 1) stop (addAnchoredMonths loc anchorDay (monthOffset + 2)))"

definition resolveAnchoredMonthlyCycle :: "location \<Rightarrow> gotime \<Rightarrow> gotime \<Rightarrow> gotime \<Rightarrow> (gotime \<times> gotime) option" where
  "resolveAnchoredMonthlyCycle loc clock anchor0 now0 =
     (let now = (if is_zero now0 then clock else now0);
          anchor = (if is_zero anchor0 then now else anchor0);
          anchorDay = day_start loc anchor; today = day_start loc now;
          offset0 = (cv_year (Date loc today) - cv_year (Date loc anchorDay)) * 12 +
            cv_month (Date loc today) - cv_month (Date loc anchorDay);
          start0 = addAnchoredMonths loc anchorDay offset0;
          offset = (if today < start0 then offset0 - 1 else offset0);
          start = (if today < start0 then addAnchoredMonths loc anchorDay offset else start0)
      in cycle_loop loc anchorDay today offset start (addAnchoredMonths loc anchorDay (offset + 1)))"

section \<open>Usage charts\<close>

record UsageDailyModelSummary =
  dm_PlatformModelName :: string
  dm_RecordCount :: int
  dm_InputTokens :: int
  dm_CacheReadTokens :: int
  dm_CacheWriteTokens :: int
  dm_OutputTokens :: int
  dm_ReasoningTokens :: int
  dm_CallCount :: int
  dm_DurationSeconds :: int
  dm_AvgLatencyMS :: int
  dm_BilledNanousd :: int

record UsageDailySummary =
  ds_UsageDate :: gotime
  ds_RecordCount :: int
  ds_InputTokens :: int
  ds_CacheReadTokens :: int
  ds_CacheWriteTokens :: int
  ds_OutputTokens :: int
  ds_ReasoningTokens :: int
  ds_CallCount :: int
  ds_DurationSeconds :: int
  ds_AvgLatencyMS :: int
  ds_BilledNanousd :: int
  ds_Models :: "UsageDailyModelSummary list"

record UsageMonthlySummary =
  ms_MonthStartAt :: gotime
  ms_RecordCount :: int
  ms_InputTokens :: int
  ms_CacheReadTokens :: int
  ms_CacheWriteTokens :: int
  ms_OutputTokens :: int
  ms_ReasoningTokens :: int
  ms_CallCount :: int
  ms_DurationSeconds :: int
  ms_AvgLatencyMS :: int
  ms_BilledNanousd :: int

record UsageStatisticsMetrics =
  sm_RecordCount :: int
  sm_InputTokens :: int
  sm_CacheReadTokens :: int
  sm_CacheWriteTokens :: int
  sm_OutputTokens :: int
  sm_ReasoningTokens :: int
  sm_CallCount :: int
  sm_AvgLatencyMS :: int
  sm_BilledNanousd :: int

record UsageStatisticsTrendPoint =
  tp_PeriodStart :: gotime
  tp_Metrics :: UsageStatisticsMetrics

definition empty_day :: "gotime \<Rightarrow> UsageDailySummary" where
  "empty_day t = \<lparr>ds_UsageDate = t, ds_RecordCount = 0, ds_InputTokens = 0, ds_CacheReadTokens = 0, ds_CacheWriteTokens = 0,
     ds_OutputTokens = 0, ds_ReasoningTokens = 0, ds_CallCount = 0, ds_DurationSeconds = 0, ds_AvgLatencyMS = 0,
     ds_BilledNanousd = 0, ds_Models = []\<rparr>"

definition empty_month :: "gotime \<Rightarrow> UsageMonthlySummary" where
  "empty_month t = \<lparr>ms_MonthStartAt = t, ms_RecordCount = 0, ms_InputTokens = 0, ms_CacheReadTokens = 0, ms_CacheWriteTokens = 0,
     ms_OutputTokens = 0, ms_ReasoningTokens = 0, ms_CallCount = 0, ms_DurationSeconds = 0, ms_AvgLatencyMS = 0,
     ms_BilledNanousd = 0\<rparr>"

definition empty_point :: "gotime \<Rightarrow> UsageStatisticsTrendPoint" where
  "empty_point t = \<lparr>tp_PeriodStart = t, tp_Metrics = \<lparr>sm_RecordCount = 0, sm_InputTokens = 0, sm_CacheReadTokens = 0,
     sm_CacheWriteTokens = 0, sm_OutputTokens = 0, sm_ReasoningTokens = 0, sm_CallCount = 0, sm_AvgLatencyMS = 0, sm_BilledNanousd = 0\<rparr>\<rparr>"

text \<open>
  \<open>byDate[key] = item\<close> for each item in turn: the last item of a key stays. The keys are the printed
  dates, here the dates themselves. The rows of the repository carry dates that \<open>time.Parse\<close> read in UTC.
\<close>

definition index_by :: "('a \<Rightarrow> 'k) \<Rightarrow> 'a list \<Rightarrow> ('k \<rightharpoonup> 'a)" where
  "index_by key items = fold (\<lambda>item m. m(key item \<mapsto> item)) items Map.empty"

definition row_or :: "('k \<rightharpoonup> 'a) \<Rightarrow> (gotime \<Rightarrow> 'k) \<Rightarrow> (gotime \<Rightarrow> 'a) \<Rightarrow> gotime \<Rightarrow> 'a" where
  "row_or rows key blank t = (case rows (key t) of Some item \<Rightarrow> item | None \<Rightarrow> blank t)"

definition listDailyUsageBetween ::
  "location \<Rightarrow> (gotime \<Rightarrow> gotime \<Rightarrow> repo_error + UsageDailySummary list) \<Rightarrow> gotime \<Rightarrow> gotime \<Rightarrow>
    (repo_error + UsageDailySummary list) option" where
  "listDailyUsageBetween loc repo start stop =
     (case repo start stop of Inl e \<Rightarrow> Some (Inl e)
      | Inr items \<Rightarrow>
        (let byDate = index_by (\<lambda>i. Date utc (ds_UsageDate i)) items
         in map_option (\<lambda>days. Inr (map (row_or byDate (Date loc) empty_day) days))
              (collect (\<lambda>t. t < stop) (\<lambda>t. AddDate loc t 0 0 1) start)))"

definition ListDailyUsage ::
  "location \<Rightarrow> (gotime \<Rightarrow> gotime \<Rightarrow> repo_error + UsageDailySummary list) \<Rightarrow> int \<Rightarrow> gotime \<Rightarrow> (repo_error + UsageDailySummary list) option" where
  "ListDailyUsage loc repo days0 now =
     (let days1 = (if days0 \<le> 0 then 30 else days0); days = (if 90 < days1 then 90 else days1);
          today = day_start loc now
      in listDailyUsageBetween loc repo (AddDate loc today 0 0 (- (days - 1))) (AddDate loc today 0 0 1))"

definition ListDailyUsageRange ::
  "location \<Rightarrow> (gotime \<Rightarrow> gotime \<Rightarrow> repo_error + UsageDailySummary list) \<Rightarrow> gotime \<Rightarrow> gotime \<Rightarrow> (repo_error + UsageDailySummary list) option" where
  "ListDailyUsageRange loc repo startDate endDate =
     (let start = day_start loc startDate; stop0 = day_start loc endDate;
          stop1 = (if \<not> start < stop0 then AddDate loc start 0 0 1 else stop0);
          stop = (if AddDate loc start 0 0 90 < stop1 then AddDate loc start 0 0 90 else stop1)
      in listDailyUsageBetween loc repo start stop)"

definition ListCurrentCycleDailyUsage ::
  "location \<Rightarrow> gotime \<Rightarrow> repo_error + gotime \<Rightarrow> (gotime \<Rightarrow> gotime \<Rightarrow> repo_error + UsageDailySummary list) \<Rightarrow> gotime \<Rightarrow>
    (repo_error + UsageDailySummary list) option" where
  "ListCurrentCycleDailyUsage loc clock createdAt repo now =
     (case createdAt of Inl e \<Rightarrow> Some (Inl e)
      | Inr created \<Rightarrow> Option.bind (resolveAnchoredMonthlyCycle loc clock created now)
          (\<lambda>(start, stop). listDailyUsageBetween loc repo start stop))"

definition clamp_months :: "int \<Rightarrow> int" where
  "clamp_months months0 = (let months = (if months0 \<le> 0 then 12 else months0) in if 24 < months then 24 else months)"

definition month_start :: "location \<Rightarrow> gotime \<Rightarrow> gotime" where
  "month_start loc t = (let c = Date loc t in go_date loc (cv_year c) (cv_month c) 1 0)"

definition month_key :: "location \<Rightarrow> gotime \<Rightarrow> int \<times> int" where
  "month_key loc t = (cv_year (Date loc t), cv_month (Date loc t))"

definition fillMonthlyUsageSummaries ::
  "location \<Rightarrow> gotime \<Rightarrow> UsageMonthlySummary list \<Rightarrow> int \<Rightarrow> gotime \<Rightarrow> UsageMonthlySummary list option" where
  "fillMonthlyUsageSummaries loc clock items months0 now0 =
     (let months = clamp_months months0; now = (if is_zero now0 then clock else now0);
          currentMonth = month_start loc now; startMonth = AddDate loc currentMonth 0 (- (months - 1)) 0;
          byMonth = index_by (\<lambda>i. month_key loc (ms_MonthStartAt i))
            (map (\<lambda>i. i\<lparr>ms_MonthStartAt := month_start loc (ms_MonthStartAt i)\<rparr>) items)
      in map_option (map (row_or byMonth (month_key loc) empty_month))
           (collect (\<lambda>t. \<not> currentMonth < t) (\<lambda>t. AddDate loc t 0 1 0) startMonth))"

definition ListMonthlyUsage ::
  "location \<Rightarrow> gotime \<Rightarrow> (int \<Rightarrow> repo_error + UsageMonthlySummary list) \<Rightarrow> int \<Rightarrow> (repo_error + UsageMonthlySummary list) option" where
  "ListMonthlyUsage loc now repo months0 =
     (case repo (clamp_months months0) of Inl e \<Rightarrow> Some (Inl e)
      | Inr items \<Rightarrow> map_option Inr (fillMonthlyUsageSummaries loc now items (clamp_months months0) now))"

definition usageStatisticsGranularity :: "int \<Rightarrow> string" where
  "usageStatisticsGranularity days = (if 180 \<le> days then ''month'' else if 30 < days then ''week'' else ''day'')"

definition fillUsageStatisticsTrend ::
  "location \<Rightarrow> UsageStatisticsTrendPoint list \<Rightarrow> gotime \<Rightarrow> gotime \<Rightarrow> string \<Rightarrow> UsageStatisticsTrendPoint list option" where
  "fillUsageStatisticsTrend loc items startDate endDate granularity =
     (let byPeriod = index_by (\<lambda>i. Date utc (tp_PeriodStart i)) items;
          current = (if granularity = ''week'' then AddDate loc startDate 0 0 (- ((Weekday loc startDate + 6) mod 7))
                     else if granularity = ''month'' then month_start loc startDate else startDate);
          step = (\<lambda>t. if granularity = ''week'' then AddDate loc t 0 0 7
                      else if granularity = ''month'' then AddDate loc t 0 1 0 else AddDate loc t 0 0 1)
      in map_option (map (row_or byPeriod (Date loc) empty_point)) (collect (\<lambda>t. \<not> endDate < t) step current))"

section \<open>The anchored cycle\<close>

lemma floor_div_mod: "floorDiv n 12 = n div 12" "mod_floor n 12 = n mod 12"
proof -
  obtain q r where qr: "n = 12 * q + r" "0 \<le> r" "r < 12"
    using div_mult_mod_eq [of n 12] pos_mod_sign [of 12 n] pos_mod_bound [of 12 n]
    by (metis mult.commute zero_less_numeral)
  have d: "n div 12 = q" "n mod 12 = r"
    using qr int_div_pos_eq [of n 12 q r] int_mod_pos_eq [of n 12 q r] by simp_all
  have g: "go_div n 12 = (if 0 \<le> n \<or> r = 0 then q else q + 1)"
  proof (cases "0 \<le> n")
    case True then show ?thesis using d by (simp add: go_div_nonneg)
  next
    case False
    then have "- n = 12 * (- q - 1) + (12 - r)" using qr by simp
    then have "- n div 12 = (if r = 0 then - q else - q - 1)"
      using qr int_div_pos_eq [of "- n" 12 "- q" 0] int_div_pos_eq [of "- n" 12 "- q - 1" "12 - r"] by simp
    then show ?thesis using False by (simp add: go_div_def)
  qed
  show "floorDiv n 12 = n div 12" using qr unfolding floorDiv_def Let_def g d by simp
  show "mod_floor n 12 = n mod 12" using qr unfolding mod_floor_def Let_def g d by simp
qed

lemma day_start_midnight: "midnights_ok loc \<Longrightarrow> day_start loc t = midnight loc (local_day loc t)"
  using civil_days_of [of "local_day loc t"]
  by (simp add: day_start_def Date_def go_date_midnight civil_days_def Let_def)

lemma month_start_midnight:
  "midnights_ok loc \<Longrightarrow> month_start loc t = midnight loc (month_first (month_index (Date loc t)))"
  by (simp add: month_start_def go_date_midnight date_days_index month_index_def Let_def)

lemma cycle_loop_stop: "today < stop \<Longrightarrow> cycle_loop loc anchorDay today j start stop = Some (start, stop)"
  by (subst cycle_loop.simps) simp

lemma cycle_unfold:
  assumes "now \<noteq> 0" and "anchor \<noteq> 0" and "day_start loc anchor = A" and "day_start loc now = T"
    and "(cv_year (Date loc T) - cv_year (Date loc A)) * 12 + cv_month (Date loc T) - cv_month (Date loc A) = j"
  shows "resolveAnchoredMonthlyCycle loc clock anchor now =
    (if T < addAnchoredMonths loc A j
     then cycle_loop loc A T (j - 1) (addAnchoredMonths loc A (j - 1)) (addAnchoredMonths loc A (j - 1 + 1))
     else cycle_loop loc A T j (addAnchoredMonths loc A j) (addAnchoredMonths loc A (j + 1)))"
  unfolding resolveAnchoredMonthlyCycle_def Let_def is_zero_def if_not_P [OF assms(1)] if_not_P [OF assms(2)] assms(3-5)
  by (simp only: if_True if_False split: if_split) blast

text \<open>The day of the anchor in a month: the anchor's day of the month, or the last day of a shorter month.\<close>

definition anchor_day :: "int \<Rightarrow> int \<Rightarrow> int" where
  "anchor_day d k = month_first k + (min d (mlen k) - 1)"

lemma last_day: "midnights_ok loc \<Longrightarrow> lastDayOfMonth loc (k div 12) (k mod 12 + 1) = mlen k"
proof -
  assume ok: "midnights_ok loc"
  have i: "12 * (k div 12) + (k mod 12 + 1 + 1) - 1 = k + 1" using div_mult_mod_eq [of k 12] by linarith
  have "date_days (k div 12) (k mod 12 + 1 + 1) 0 = month_first k + (mlen k - 1)"
    unfolding date_days_index i month_first_step by simp
  then show ?thesis using ok civil_of_in_month [of "mlen k" k] mlen_range [of k]
    by (simp add: lastDayOfMonth_def go_date_midnight add.assoc)
qed

lemma anchored_midnight:
  assumes "midnights_ok loc"
  shows "addAnchoredMonths loc (midnight loc n) j =
    midnight loc (anchor_day (cv_day (civil_of n)) (month_index (civil_of n) + j))"
proof -
  let ?c = "civil_of n" and ?k = "month_index (civil_of n) + j"
  have m: "cv_month ?c - 1 + j = (?k - 12 * cv_year ?c)" by (simp add: month_index_def)
  have y: "cv_year ?c + (cv_month ?c - 1 + j) div 12 = ?k div 12" and mm: "(cv_month ?c - 1 + j) mod 12 = ?k mod 12"
    unfolding m using div_mult_self2 [of 12 ?k "- cv_year ?c"] mod_mult_self2 [of ?k 12 "- cv_year ?c"] by simp_all
  have i: "12 * (?k div 12) + (?k mod 12 + 1) - 1 = ?k" using div_mult_mod_eq [of ?k 12] by linarith
  show ?thesis
    unfolding addAnchoredMonths_def Let_def floor_div_mod Date_midnight [OF assms] y mm last_day [OF assms]
      go_date_midnight date_days_index i anchor_day_def by (simp add: min_def)
qed

lemma anchor_day_bounds: "1 \<le> d \<Longrightarrow> month_first k \<le> anchor_day d k" "anchor_day d k < month_first (k + 1)"
  using mlen_range [of k] by (simp_all add: anchor_day_def month_first_step)

text \<open>@C:Billing_Calendar.anchored_cycle_brackets@
  In a location whose days have midnights, the loop that looks for a user's billing cycle ends, and the
  cycle it returns contains the present: it starts at or before now, ends after it, and both ends are
  midnights of the anchor's day of the month, moved to the last day of a month that is too short, in one
  month and the next.
\<close>

lemma anchored_cycle_brackets:
  assumes "midnights_ok loc" and "now \<noteq> 0" and "anchor \<noteq> 0"
  shows "\<exists>start stop k. resolveAnchoredMonthlyCycle loc clock anchor now = Some (start, stop) \<and>
    start \<le> now \<and> now < stop \<and>
    start = midnight loc (anchor_day (cv_day (Date loc anchor)) k) \<and>
    stop = midnight loc (anchor_day (cv_day (Date loc anchor)) (k + 1))"
proof -
  define a t where days: "a = local_day loc anchor" "t = local_day loc now"
  define d where d: "d = cv_day (civil_of a)"
  define k0 where k0: "k0 = month_index (civil_of t)"
  have d1: "1 \<le> d" using day_in_month(2) [of a] by (simp add: d)
  have t: "month_first k0 \<le> t" "t < month_first (k0 + 1)" using month_first_bounds [of t] by (simp_all add: k0)
  have am: "addAnchoredMonths loc (midnight loc a) j = midnight loc (anchor_day d (month_index (civil_of a) + j))" for j
    using anchored_midnight [OF assms(1), of a j] by (simp add: d)
  have off: "(cv_year (civil_of t) - cv_year (civil_of a)) * 12 + cv_month (civil_of t) - cv_month (civil_of a) =
      k0 - month_index (civil_of a)" by (simp add: month_index_def k0)
  define k where k: "k = (if t < anchor_day d k0 then k0 - 1 else k0)"
  have b: "anchor_day d k \<le> t" "t < anchor_day d (k + 1)"
    using t anchor_day_bounds(1) [OF d1, of k0] anchor_day_bounds(2) [of d k0] anchor_day_bounds(2) [of d "k0 - 1"]
      anchor_day_bounds(1) [OF d1, of "k0 + 1"] by (auto simp: k)
  have idx: "i + (k0 - i) = k0" "i + (k0 - i - 1) = k0 - 1" "i + (k0 - i - 1 + 1) = k0" "i + (k0 - i + 1) = k0 + 1" for i
    by simp_all
  have resolve: "resolveAnchoredMonthlyCycle loc clock anchor now =
      (if midnight loc t < midnight loc (anchor_day d k0)
       then cycle_loop loc (midnight loc a) (midnight loc t) (k0 - month_index (civil_of a) - 1)
         (midnight loc (anchor_day d (k0 - 1))) (midnight loc (anchor_day d k0))
       else cycle_loop loc (midnight loc a) (midnight loc t) (k0 - month_index (civil_of a))
         (midnight loc (anchor_day d k0)) (midnight loc (anchor_day d (k0 + 1))))"
    by (subst cycle_unfold [OF assms(2,3) day_start_midnight [OF assms(1)] day_start_midnight [OF assms(1)],
          unfolded days [symmetric] Date_midnight [OF assms(1)], OF off])
       (simp only: am idx)
  have "resolveAnchoredMonthlyCycle loc clock anchor now =
      Some (midnight loc (anchor_day d k), midnight loc (anchor_day d (k + 1)))"
  proof (cases "t < anchor_day d k0")
    case True
    then have "k = k0 - 1" by (simp add: k)
    then have e: "k0 - 1 = k" "k0 = k + 1" by simp_all
    show ?thesis unfolding resolve if_P [OF midnight_less [OF assms(1) True]] e(1) using assms(1) b(2)
      by (simp only: e(2) cycle_loop_stop midnight_less_iff)
  next
    case False
    then have e: "k0 = k" by (simp add: k)
    have n: "\<not> midnight loc t < midnight loc (anchor_day d k)" using False assms(1) unfolding e by simp
    show ?thesis unfolding resolve if_not_P [OF n] e using assms(1) b(2)
      by (simp only: cycle_loop_stop midnight_less_iff)
  qed
  moreover have "midnight loc (anchor_day d k) \<le> now"
  proof -
    have "midnight loc (anchor_day d k) \<le> midnight loc t" using assms(1) b(1) by simp
    also have "\<dots> \<le> now" unfolding days by (rule midnight_bounds(1) [OF assms(1)])
    finally show ?thesis .
  qed
  moreover have "now < midnight loc (anchor_day d (k + 1))"
  proof -
    have "now < midnight loc (t + 1)" unfolding days by (rule midnight_bounds(2) [OF assms(1)])
    also have "\<dots> \<le> midnight loc (anchor_day d (k + 1))" using assms(1) b(2) by simp
    finally show ?thesis .
  qed
  ultimately show ?thesis by (auto simp: Date_def days d intro!: exI [of _ k])
qed

theorem anchored_cycle_brackets_witness:
  "\<exists>start stop. resolveAnchoredMonthlyCycle utc 0 (go_date utc 2024 1 31 0) (go_date utc 2025 2 10 (12 * hour)) = Some (start, stop) \<and>
     Date utc start = Civil 2025 1 31 \<and> Date utc stop = Civil 2025 2 28"
proof -
  have nz: "go_date utc 2025 2 10 (12 * hour) \<noteq> 0" "go_date utc 2024 1 31 0 \<noteq> 0" by code_simp+
  obtain start stop k where e: "resolveAnchoredMonthlyCycle utc 0 (go_date utc 2024 1 31 0) (go_date utc 2025 2 10 (12 * hour)) = Some (start, stop)"
    and b: "start \<le> go_date utc 2025 2 10 (12 * hour)" "go_date utc 2025 2 10 (12 * hour) < stop"
    and se: "start = midnight utc (anchor_day (cv_day (Date utc (go_date utc 2024 1 31 0))) k)"
      "stop = midnight utc (anchor_day (cv_day (Date utc (go_date utc 2024 1 31 0))) (k + 1))"
    using anchored_cycle_brackets [OF utc_ok nz, of 0] by blast
  have d: "cv_day (Date utc (go_date utc 2024 1 31 0)) = 31" by code_simp
  have n: "midnight utc (anchor_day 31 24300) \<le> go_date utc 2025 2 10 (12 * hour)"
    "go_date utc 2025 2 10 (12 * hour) < midnight utc (anchor_day 31 24301)" by code_simp+
  have mono: "anchor_day 31 i < anchor_day 31 j" if "i < j" for i j
  proof -
    have "anchor_day 31 i < month_first (i + 1)" by (rule anchor_day_bounds(2))
    also have "\<dots> \<le> month_first j" using that by simp
    also have "\<dots> \<le> anchor_day 31 j" by (rule anchor_day_bounds(1)) simp
    finally show ?thesis .
  qed
  have "k = 24300"
  proof (rule ccontr)
    assume "k \<noteq> 24300"
    then consider "k + 1 \<le> 24300" | "24301 \<le> k" by linarith
    then show False
    proof cases
      case 1
      then have "anchor_day 31 (k + 1) \<le> anchor_day 31 24300" using mono [of "k + 1" 24300] by (cases "k + 1 = 24300") auto
      then have "stop \<le> midnight utc (anchor_day 31 24300)" using utc_ok by (simp add: se d)
      then show False using b n by simp
    next
      case 2
      then have "anchor_day 31 24301 \<le> anchor_day 31 k" using mono [of 24301 k] by (cases "k = 24301") auto
      then have "midnight utc (anchor_day 31 24301) \<le> start" using utc_ok by (simp add: se d)
      then show False using b n by simp
    qed
  qed
  moreover have "civil_of (anchor_day 31 24300) = Civil 2025 1 31" "civil_of (anchor_day 31 24301) = Civil 2025 2 28" by code_simp+
  ultimately show ?thesis using e by (simp add: se d utc_ok)
qed

section \<open>The charts have a row for every day and month\<close>

lemma index_by_fold: "fold (\<lambda>item m. m(key item \<mapsto> item)) items m k =
    (case List.find (\<lambda>i. key i = k) (rev items) of Some i \<Rightarrow> Some i | None \<Rightarrow> m k)"
  by (induction items arbitrary: m) (auto simp: find_append split: option.splits)

text \<open>The row of a key is the last item with it.\<close>

lemma index_by_last: "index_by key items k = List.find (\<lambda>i. key i = k) (rev items)"
  by (simp add: index_by_fold index_by_def split: option.split)

definition day_row :: "location \<Rightarrow> UsageDailySummary list \<Rightarrow> int \<Rightarrow> UsageDailySummary" where
  "day_row loc items n =
     (case List.find (\<lambda>i. Date utc (ds_UsageDate i) = civil_of n) (rev items) of Some i \<Rightarrow> i | None \<Rightarrow> empty_day (midnight loc n))"

lemma daily_rows:
  assumes "midnights_ok loc" and "a \<le> b" and "repo (midnight loc a) (midnight loc b) = Inr items"
  shows "listDailyUsageBetween loc repo (midnight loc a) (midnight loc b) =
    Some (Inr (map (\<lambda>i. day_row loc items (a + int i)) [0..<nat (b - a)]))"
proof -
  have "collect (\<lambda>t. t < midnight loc b) (\<lambda>t. AddDate loc t 0 0 1) ((\<lambda>i. midnight loc (a + int i)) 0) =
      Some (map (\<lambda>i. midnight loc (a + int i)) [0..<nat (b - a)])"
    using assms(1,2) by (intro collect_steps) (auto simp: AddDate_days algebra_simps)
  moreover have "row_or (index_by (\<lambda>i. Date utc (ds_UsageDate i)) items) (Date loc) empty_day (midnight loc n) = day_row loc items n" for n
    using assms(1) by (simp add: row_or_def day_row_def index_by_last)
  ultimately show ?thesis using assms(1,3) by (simp add: listDailyUsageBetween_def comp_def)
qed

text \<open>@C:Billing_Calendar.daily_range_covers@
  In a location whose days have midnights, the loop of the daily chart ends, and when the database
  answers, the chart of a date range has one row for each day from the first to the day before the last,
  in order, at least one and at most ninety. A day's row is the database's row of that date, and an empty
  row at that day's midnight when there is none.
\<close>

lemma daily_range_covers:
  assumes "midnights_ok loc" and "\<And>s t. repo s t = Inr (items s t)"
  shows "\<exists>n items'. 1 \<le> n \<and> n \<le> 90 \<and>
    (local_day loc startDate < local_day loc endDate \<longrightarrow> n = min 90 (nat (local_day loc endDate - local_day loc startDate))) \<and>
    ListDailyUsageRange loc repo startDate endDate =
      Some (Inr (map (\<lambda>i. day_row loc items' (local_day loc startDate + int i)) [0..<n]))"
proof -
  define a e where days: "a = local_day loc startDate" "e = local_day loc endDate"
  define b where b: "b = (if a < e then min (a + 90) e else a + 1)"
  have ab: "a \<le> b" by (auto simp: b)
  have "ListDailyUsageRange loc repo startDate endDate = listDailyUsageBetween loc repo (midnight loc a) (midnight loc b)"
    using assms(1) by (auto simp: ListDailyUsageRange_def Let_def day_start_midnight days [symmetric] AddDate_days b)
  moreover have "1 \<le> nat (b - a)" "nat (b - a) \<le> 90" "a < e \<longrightarrow> nat (b - a) = min 90 (nat (e - a))"
    by (auto simp: b)
  ultimately show ?thesis using daily_rows [OF assms(1) ab assms(2)] unfolding days [symmetric]
    by (intro exI [of _ "nat (b - a)"] exI [of _ "items (midnight loc a) (midnight loc b)"]) simp
qed

definition no_usage :: "gotime \<Rightarrow> gotime \<Rightarrow> repo_error + UsageDailySummary list" where
  "no_usage s t = Inr []"

theorem daily_range_covers_witness:
  "\<exists>items. ListDailyUsageRange utc no_usage (go_date utc 2025 2 27 0) (go_date utc 2025 3 2 0) =
     Some (Inr (map (\<lambda>i. day_row utc items (date_days 2025 2 27 + int i)) [0..<3]))"
proof -
  have l: "local_day utc (go_date utc 2025 2 27 0) = date_days 2025 2 27" "local_day utc (go_date utc 2025 3 2 0) = date_days 2025 3 2"
    by (simp_all add: go_date_midnight utc_ok)
  have "date_days 2025 3 2 = date_days 2025 2 27 + 3" by code_simp
  then show ?thesis using daily_range_covers [OF utc_ok no_usage_def, of "go_date utc 2025 2 27 0" "go_date utc 2025 3 2 0"]
    by (auto simp: l)
qed

definition month_row :: "location \<Rightarrow> UsageMonthlySummary list \<Rightarrow> int \<Rightarrow> UsageMonthlySummary" where
  "month_row loc items k =
     (case List.find (\<lambda>i. month_index (Date loc (ms_MonthStartAt i)) = k) (rev items) of
        Some i \<Rightarrow> i\<lparr>ms_MonthStartAt := midnight loc (month_first k)\<rparr> | None \<Rightarrow> empty_month (midnight loc (month_first k)))"

lemma find_map: "List.find P (map f xs) = map_option f (List.find (\<lambda>x. P (f x)) xs)"
  by (induction xs) auto

lemma month_key_index: "month_key loc t = (i div 12, i mod 12 + 1) \<longleftrightarrow> month_index (Date loc t) = i"
proof -
  obtain n where n: "Date loc t = civil_of n" by (simp add: Date_def)
  have "j = i" if "j div 12 = i div 12" "j mod 12 + 1 = i mod 12 + 1" for j :: int
    using that by (metis add_right_cancel div_mult_mod_eq)
  then show ?thesis unfolding month_key_def n month_index_of [symmetric] by auto
qed

text \<open>@C:Billing_Calendar.monthly_rows@
  In a location whose days have midnights, the loop of the monthly chart ends, and the chart has one row
  for each of the last months, the present one included, in order: as many as were asked for, twelve when
  none were, and never more than twenty-four. A month's row is the last row whose start lies, in that
  location, in the month, and an empty row when there is none.
\<close>

lemma monthly_rows:
  assumes "midnights_ok loc" and "now \<noteq> 0"
  shows "fillMonthlyUsageSummaries loc clock items months now =
    Some (map (\<lambda>i. month_row loc items (month_index (Date loc now) - (clamp_months months - 1) + int i))
      [0..<nat (clamp_months months)]) \<and> 1 \<le> clamp_months months \<and> clamp_months months \<le> 24"
proof -
  define k where k: "k = month_index (Date loc now)"
  define m where m: "m = clamp_months months"
  have m24: "1 \<le> m" "m \<le> 24" by (auto simp: m clamp_months_def)
  have "collect (\<lambda>t. \<not> midnight loc (month_first k) < t) (\<lambda>t. AddDate loc t 0 1 0)
      ((\<lambda>i. midnight loc (month_first (k - (m - 1) + int i))) 0) =
      Some (map (\<lambda>i. midnight loc (month_first (k - (m - 1) + int i))) [0..<nat m])"
    using assms(1) m24 by (intro collect_steps) (auto simp: AddDate_months algebra_simps)
  moreover have "row_or (index_by (\<lambda>i. month_key loc (ms_MonthStartAt i))
        (map (\<lambda>i. i\<lparr>ms_MonthStartAt := month_start loc (ms_MonthStartAt i)\<rparr>) items)) (month_key loc) empty_month
        (midnight loc (month_first j)) = month_row loc items j" for j
  proof -
    have "month_key loc (midnight loc (month_first j)) = (j div 12, j mod 12 + 1)"
      using assms(1) by (simp add: month_key_index)
    moreover have "(month_key loc (month_start loc t) = (j div 12, j mod 12 + 1)) = (month_index (Date loc t) = j)" for t
      using assms(1) by (simp add: month_key_index month_start_midnight)
    ultimately show ?thesis using assms(1)
      by (auto simp: row_or_def month_row_def index_by_last rev_map find_map month_start_midnight split: option.split dest: find_SomeD)
  qed
  moreover have "AddDate loc (month_start loc now) 0 (- (m - 1)) 0 = midnight loc (month_first (k - (m - 1)))"
    using assms(1) by (simp add: month_start_midnight k AddDate_months algebra_simps)
  ultimately show ?thesis using assms m24
    by (simp add: fillMonthlyUsageSummaries_def Let_def is_zero_def month_start_midnight m [symmetric] k [symmetric] comp_def)
qed

theorem monthly_rows_witness:
  "fillMonthlyUsageSummaries utc 0 [empty_month (go_date utc 2025 1 1 0)] 2 (go_date utc 2025 2 10 0) =
     Some [month_row utc [empty_month (go_date utc 2025 1 1 0)] 24300, month_row utc [empty_month (go_date utc 2025 1 1 0)] 24301]"
proof -
  have nz: "go_date utc 2025 2 10 0 \<noteq> 0" by code_simp
  have "month_index (Date utc (go_date utc 2025 2 10 0)) = 24301" by code_simp
  moreover have "clamp_months 2 = 2" by code_simp
  ultimately show ?thesis
    using monthly_rows [OF utc_ok nz, of 0 "[empty_month (go_date utc 2025 1 1 0)]" 2]
    by (simp add: upt_conv_Cons eval_nat_numeral)
qed

text \<open>
  The repository's months start at midnight UTC. West of Greenwich that instant is the evening before, in
  the previous month, so the month's usage is shown as the previous month's.
\<close>

lemma month_shifts_west:
  "map ms_BilledNanousd (the (fillMonthlyUsageSummaries (fixed_zone (- 18000)) 0
      [(empty_month (go_date utc 2025 3 1 0))\<lparr>ms_BilledNanousd := 7\<rparr>] 2 (go_date utc 2025 3 10 0))) = [7, 0]"
proof -
  have nz: "go_date utc 2025 3 10 0 \<noteq> 0" by code_simp
  have "month_index (Date (fixed_zone (- 18000)) (go_date utc 2025 3 10 0)) = 24302" by code_simp
  moreover have "clamp_months 2 = 2" by code_simp
  moreover have "ms_BilledNanousd (month_row (fixed_zone (- 18000)) [(empty_month (go_date utc 2025 3 1 0))\<lparr>ms_BilledNanousd := 7\<rparr>] 24301) = 7"
    "ms_BilledNanousd (month_row (fixed_zone (- 18000)) [(empty_month (go_date utc 2025 3 1 0))\<lparr>ms_BilledNanousd := 7\<rparr>] 24302) = 0"
    by code_simp+
  ultimately show ?thesis
    using monthly_rows [OF fixed_zone_ok nz, of "- 18000" 0 "[(empty_month (go_date utc 2025 3 1 0))\<lparr>ms_BilledNanousd := 7\<rparr>]" 2]
    by (simp add: upt_conv_Cons eval_nat_numeral)
qed

end
