(* ===== verification/Text_Util.thy ===== *)
theory Text_Util
  imports Go_Prelude
begin

text \<open>The string helpers of \<open>pkg/textutil\<close> that several components use.\<close>

definition FirstNonEmpty :: "string list \<Rightarrow> string" where
  "FirstNonEmpty values = (case List.find (\<lambda>v. trim_space v \<noteq> []) values of None \<Rightarrow> [] | Some v \<Rightarrow> trim_space v)"

definition FirstNonBlank :: "string list \<Rightarrow> string" where
  "FirstNonBlank values = (case List.find (\<lambda>v. trim_space v \<noteq> []) values of None \<Rightarrow> [] | Some v \<Rightarrow> v)"

end
