(* ===== verification/Billing_Entitlements.thy ===== *)
theory Billing_Entitlements
  imports Billing_Calendar Text_Util
begin

text \<open>
  Which subscription a user has now (\<open>application/billing/service.go\<close>): the entitlements with their plans,
  the one of the highest rank, when it really ends, the view that joins adjoining segments, and the plan
  and month that period billing charges. The queries can fail; the faults are arguments.
\<close>

record query_faults =
  qf_subscriptions :: "repo_error option"
  qf_plans :: "repo_error option"
  qf_free_plan :: "repo_error option"

definition no_query_faults :: query_faults where
  "no_query_faults = \<lparr>qf_subscriptions = None, qf_plans = None, qf_free_plan = None\<rparr>"

type_synonym plan_map = "nat \<rightharpoonup> billing_plan"

section \<open>The current subscription\<close>

definition isFreePlanCode :: "string \<Rightarrow> bool" where
  "isFreePlanCode code \<longleftrightarrow> trim_space code = ''free''"

text \<open>\<open>plans[id]\<close> of a plan that is missing is the zero plan, whose rank is zero.\<close>

definition plan_rank :: "plan_map \<Rightarrow> nat \<Rightarrow> int" where
  "plan_rank plans i =
     (case plans i of None \<Rightarrow> 0
      | Some p \<Rightarrow> if isFreePlanCode (bp_Code p) then 0 else if 0 < bp_SortOrder p then bp_SortOrder p else int (bp_ID p))"

definition end_of_time :: gotime where
  "end_of_time = go_date utc 9999 12 31 (23 * hour + 59 * minute + 59 * second)"

definition subscriptionEndSortTime :: "subscription \<Rightarrow> gotime" where
  "subscriptionEndSortTime s = (case sb_CurrentPeriodEndAt s of None \<Rightarrow> end_of_time | Some e \<Rightarrow> e)"

definition isHigherPrioritySubscription :: "subscription \<Rightarrow> subscription \<Rightarrow> plan_map \<Rightarrow> bool" where
  "isHigherPrioritySubscription candidate current plans \<longleftrightarrow>
     (let candidateRank = plan_rank plans (sb_PlanID candidate); currentRank = plan_rank plans (sb_PlanID current) in
      if candidateRank \<noteq> currentRank then currentRank < candidateRank
      else (let candidateEnd = subscriptionEndSortTime candidate; currentEnd = subscriptionEndSortTime current in
        if candidateEnd \<noteq> currentEnd then currentEnd < candidateEnd else sb_ID current < sb_ID candidate))"

definition eligible :: "plan_map \<Rightarrow> gotime \<Rightarrow> subscription \<Rightarrow> bool" where
  "eligible plans now s \<longleftrightarrow>
     sb_Status s = ''active'' \<and> \<not> now < sb_CurrentPeriodStartAt s \<and>
     (case sb_CurrentPeriodEndAt s of None \<Rightarrow> True | Some e \<Rightarrow> now < e) \<and>
     (case plans (sb_PlanID s) of None \<Rightarrow> False | Some p \<Rightarrow> bp_IsActive p)"

definition selectCurrentSubscription :: "subscription list \<Rightarrow> plan_map \<Rightarrow> gotime \<Rightarrow> subscription option" where
  "selectCurrentSubscription subscriptions plans now =
     fold (\<lambda>item result.
         if \<not> eligible plans now item then result
         else (case result of None \<Rightarrow> Some item
           | Some current \<Rightarrow> if isHigherPrioritySubscription item current plans then Some item else result))
       subscriptions None"

section \<open>The entitlements of a user\<close>

definition plan_ids :: "subscription list \<Rightarrow> nat list" where
  "plan_ids subscriptions =
     fold (\<lambda>item ids. if sb_PlanID item = 0 \<or> sb_PlanID item \<in> set ids then ids else ids @ [sb_PlanID item]) subscriptions []"

definition plan_map_of :: "billing_plan list \<Rightarrow> plan_map" where
  "plan_map_of plans = index_by bp_ID plans"

definition listSubscriptionEntitlements ::
  "query_faults \<Rightarrow> nat list \<Rightarrow> gotime \<Rightarrow> billing_db \<Rightarrow> repo_error + subscription list \<times> plan_map" where
  "listSubscriptionEntitlements faults userIDs now db =
     (case ListSubscriptionEntitlementsByUserIDs (qf_subscriptions faults) userIDs now db of Inl e \<Rightarrow> Inl e
      | Inr subscriptions \<Rightarrow>
        (case ListPlansByIDs (qf_plans faults) (plan_ids subscriptions) db of Inl e \<Rightarrow> Inl e
         | Inr plans \<Rightarrow> Inr (subscriptions, plan_map_of plans)))"

text \<open>
  \<open>contiguousSubscriptionEnd\<close>: one pass over the list moves the end over each segment of the plan that
  starts at or before it and ends later; the passes stop when one moves nothing.
\<close>

definition extends :: "subscription \<Rightarrow> gotime \<Rightarrow> subscription \<Rightarrow> bool" where
  "extends current endAt item \<longleftrightarrow>
     \<not> (sb_ID item = sb_ID current \<or> sb_PlanID item \<noteq> sb_PlanID current \<or> sb_CurrentPeriodEndAt item = None) \<and>
     \<not> (endAt < sb_CurrentPeriodStartAt item \<or> \<not> endAt < the (sb_CurrentPeriodEndAt item))"

definition extend_pass :: "subscription \<Rightarrow> subscription list \<Rightarrow> gotime \<Rightarrow> gotime \<times> bool" where
  "extend_pass current subscriptions endAt =
     fold (\<lambda>item (e, extended). if extends current e item then (the (sb_CurrentPeriodEndAt item), True) else (e, extended))
       subscriptions (endAt, False)"

definition segment_ends :: "subscription list \<Rightarrow> gotime set" where
  "segment_ends subscriptions = (\<lambda>s. the (sb_CurrentPeriodEndAt s)) ` set subscriptions"

lemma extend_pass_grows:
  "fold (\<lambda>item (e, x). if extends current e item then (the (sb_CurrentPeriodEndAt item), True) else (e, x)) subs (endAt, x0) = (e', x) \<Longrightarrow>
   endAt \<le> e' \<and> (e' = endAt \<or> e' \<in> segment_ends subs) \<and> (x \<longrightarrow> x0 \<or> endAt < e') \<and> (x0 \<longrightarrow> x) \<and> (endAt < e' \<longrightarrow> x)"
proof (induction subs arbitrary: endAt x0)
  case Nil then show ?case by simp
next
  case (Cons s subs)
  show ?case
  proof (cases "extends current endAt s")
    case True
    then have "endAt < the (sb_CurrentPeriodEndAt s)" by (simp add: extends_def)
    then show ?thesis using Cons.IH [of "the (sb_CurrentPeriodEndAt s)" True] Cons.prems True
      by (auto simp: segment_ends_def)
  next
    case False
    then show ?thesis using Cons.IH [of endAt x0] Cons.prems by (auto simp: segment_ends_def)
  qed
qed

function contiguous_loop :: "subscription \<Rightarrow> subscription list \<Rightarrow> gotime \<Rightarrow> gotime" where
  "contiguous_loop current subscriptions endAt =
     (if snd (extend_pass current subscriptions endAt)
      then contiguous_loop current subscriptions (fst (extend_pass current subscriptions endAt))
      else fst (extend_pass current subscriptions endAt))"
  by pat_completeness auto
termination
proof (relation "measure (\<lambda>(c, subs, e). card {t \<in> segment_ends subs. e < t})")
  fix current subs endAt
  assume x: "snd (extend_pass current subs endAt)"
  obtain e' b where p: "extend_pass current subs endAt = (e', b)" by fastforce
  then have "endAt < e'" "e' \<in> segment_ends subs"
    using extend_pass_grows [of current subs endAt False e' b] x by (auto simp: extend_pass_def)
  moreover have "finite (segment_ends subs)" by (simp add: segment_ends_def)
  ultimately have "card {t \<in> segment_ends subs. e' < t} < card {t \<in> segment_ends subs. endAt < t}"
    by (intro psubset_card_mono) auto
  then show "((current, subs, fst (extend_pass current subs endAt)), current, subs, endAt)
      \<in> measure (\<lambda>(c, subs, e). card {t \<in> segment_ends subs. e < t})" by (simp add: p)
qed simp

declare contiguous_loop.simps [simp del]

definition contiguousSubscriptionEnd :: "subscription \<Rightarrow> subscription list \<Rightarrow> gotime option" where
  "contiguousSubscriptionEnd current subscriptions = map_option (contiguous_loop current subscriptions) (sb_CurrentPeriodEndAt current)"

section \<open>Snapshots\<close>

record UserSubscriptionSnapshot =
  us_UserID :: nat
  us_PlanID :: "nat option"
  us_PlanName :: string
  us_Tier :: string
  us_Status :: string
  us_ExpiresAt :: "gotime option"
  us_PermissionGroupID :: "nat option"

definition snapshot_of :: "(string \<Rightarrow> string) \<Rightarrow> plan_map \<Rightarrow> nat \<Rightarrow> subscription \<Rightarrow> subscription list \<Rightarrow> UserSubscriptionSnapshot" where
  "snapshot_of upper plans userID subscription items =
     (let planCode = (case plans (sb_PlanID subscription) of None \<Rightarrow> [] | Some p \<Rightarrow> trim_space (bp_Code p));
          planName = (case plans (sb_PlanID subscription) of None \<Rightarrow> [] | Some p \<Rightarrow> trim_space (bp_Name p));
          status = (if planCode = ''free'' then ''free'' else trim_space (sb_Status subscription));
          expiresAt = (if planCode = ''free'' then None else contiguousSubscriptionEnd subscription items)
      in \<lparr>us_UserID = userID, us_PlanID = Some (sb_PlanID subscription),
          us_PlanName = FirstNonEmpty [planName, upper planCode], us_Tier = FirstNonEmpty [planCode, ''free''],
          us_Status = FirstNonEmpty [status, ''free''], us_ExpiresAt = expiresAt,
          us_PermissionGroupID = (case plans (sb_PlanID subscription) of None \<Rightarrow> None | Some p \<Rightarrow> bp_PermissionGroupID p)\<rparr>)"

definition ListCurrentSubscriptionSnapshots ::
  "(string \<Rightarrow> string) \<Rightarrow> query_faults \<Rightarrow> nat list \<Rightarrow> gotime \<Rightarrow> billing_db \<Rightarrow> repo_error + (nat \<rightharpoonup> UserSubscriptionSnapshot)" where
  "ListCurrentSubscriptionSnapshots upper faults userIDs now db =
     (if userIDs = [] then Inr Map.empty
      else case listSubscriptionEntitlements faults userIDs now db of Inl e \<Rightarrow> Inl e
        | Inr (subscriptions, plans) \<Rightarrow>
          Inr (\<lambda>userID. let items = filter (\<lambda>s. sb_UserID s = userID) subscriptions in
            if items = [] then None
            else map_option (\<lambda>s. snapshot_of upper plans userID s items) (selectCurrentSubscription items plans now)))"

definition GetCurrentSubscriptionSnapshot ::
  "(string \<Rightarrow> string) \<Rightarrow> query_faults \<Rightarrow> nat \<Rightarrow> gotime \<Rightarrow> billing_db \<Rightarrow> repo_error + UserSubscriptionSnapshot option" where
  "GetCurrentSubscriptionSnapshot upper faults userID now db =
     (case ListCurrentSubscriptionSnapshots upper faults [userID] now db of Inl e \<Rightarrow> Inl e | Inr results \<Rightarrow> Inr (results userID))"

text \<open>The plan whose credit a period charge uses, and the month it is counted in.\<close>

definition currentPeriodPlan ::
  "location \<Rightarrow> gotime \<Rightarrow> query_faults \<Rightarrow> nat \<Rightarrow> gotime \<Rightarrow> billing_db \<Rightarrow> repo_error + billing_plan \<times> gotime \<times> gotime" where
  "currentPeriodPlan loc clock faults userID now db =
     (case monthBounds loc clock now of (monthStart, monthEnd) \<Rightarrow>
       (case listSubscriptionEntitlements faults [userID] now db of Inl e \<Rightarrow> Inl e
        | Inr (subscriptions, plans) \<Rightarrow>
          (case selectCurrentSubscription subscriptions plans now of
             None \<Rightarrow> (case GetActivePlanByCode (qf_free_plan faults) ''free'' db of Inl e \<Rightarrow> Inl e
               | Inr plan \<Rightarrow> Inr (plan, monthStart, monthEnd))
           | Some s \<Rightarrow> (case plans (sb_PlanID s) of None \<Rightarrow> Inl ErrNotFound | Some plan \<Rightarrow> Inr (plan, monthStart, monthEnd)))))"

section \<open>Views of the entitlements\<close>

record SubscriptionEntitlementView =
  ev_Subscription :: subscription
  ev_Plan :: billing_plan
  ev_IsCurrent :: bool

definition toBillingPlanView :: "billing_plan \<Rightarrow> billing_plan" where
  "toBillingPlanView p = p\<lparr>bp_PermissionGroupID := None\<rparr>"

definition canMergeSubscriptionEntitlement :: "subscription \<Rightarrow> subscription \<Rightarrow> bool" where
  "canMergeSubscriptionEntitlement left right \<longleftrightarrow>
     \<not> (sb_PlanID left \<noteq> sb_PlanID right \<or> sb_PriceID left \<noteq> sb_PriceID right \<or> sb_CurrentPeriodEndAt left = None) \<and>
     \<not> the (sb_CurrentPeriodEndAt left) < sb_CurrentPeriodStartAt right"

definition subscriptionEndsAfter :: "subscription \<Rightarrow> subscription \<Rightarrow> bool" where
  "subscriptionEndsAfter left right \<longleftrightarrow>
     (case sb_CurrentPeriodEndAt left of None \<Rightarrow> True
      | Some l \<Rightarrow> (case sb_CurrentPeriodEndAt right of None \<Rightarrow> False | Some r \<Rightarrow> r < l))"

definition listed :: "plan_map \<Rightarrow> gotime \<Rightarrow> subscription \<Rightarrow> bool" where
  "listed plans now s \<longleftrightarrow>
     \<not> (case plans (sb_PlanID s) of None \<Rightarrow> True | Some p \<Rightarrow> trim_space (bp_Code p) = ''free'' \<or> sb_Status s \<noteq> ''active'') \<and>
     \<not> (case sb_CurrentPeriodEndAt s of None \<Rightarrow> False | Some e \<Rightarrow> \<not> now < e)"

definition view_of :: "plan_map \<Rightarrow> subscription option \<Rightarrow> subscription \<Rightarrow> SubscriptionEntitlementView" where
  "view_of plans current s = \<lparr>ev_Subscription = s, ev_Plan = toBillingPlanView (the (plans (sb_PlanID s))),
     ev_IsCurrent = (case current of None \<Rightarrow> False | Some c \<Rightarrow> sb_ID s = sb_ID c)\<rparr>"

text \<open>A view joins the last of the list, or is appended.\<close>

definition add_view :: "SubscriptionEntitlementView \<Rightarrow> SubscriptionEntitlementView list \<Rightarrow> SubscriptionEntitlementView list" where
  "add_view v results =
     (if results \<noteq> [] \<and> canMergeSubscriptionEntitlement (ev_Subscription (last results)) (ev_Subscription v)
      then (let l = last results;
                sub = (if subscriptionEndsAfter (ev_Subscription v) (ev_Subscription l)
                       then (ev_Subscription l)\<lparr>sb_CurrentPeriodEndAt := sb_CurrentPeriodEndAt (ev_Subscription v)\<rparr>
                       else ev_Subscription l)
            in butlast results @ [l\<lparr>ev_Subscription := sub, ev_IsCurrent := ev_IsCurrent l \<or> ev_IsCurrent v\<rparr>])
      else results @ [v])"

definition buildSubscriptionEntitlementViews ::
  "subscription list \<Rightarrow> plan_map \<Rightarrow> gotime \<Rightarrow> SubscriptionEntitlementView list" where
  "buildSubscriptionEntitlementViews subscriptions plans now =
     (let current = selectCurrentSubscription subscriptions plans now;
          items = sort_key (\<lambda>s. (sb_CurrentPeriodStartAt s, - plan_rank plans (sb_PlanID s), sb_ID s))
            (filter (listed plans now) subscriptions)
      in fold (\<lambda>s. add_view (view_of plans current s)) items [])"

section \<open>The current subscription is the best one\<close>

definition priority :: "plan_map \<Rightarrow> subscription \<Rightarrow> int \<times> gotime \<times> nat" where
  "priority plans s = (plan_rank plans (sb_PlanID s), subscriptionEndSortTime s, sb_ID s)"

lemma higher_priority: "isHigherPrioritySubscription a b plans \<longleftrightarrow> priority plans b < priority plans a"
  by (auto simp: isHigherPrioritySubscription_def priority_def Let_def)

lemma select_fold:
  fixes plans now
  defines "step \<equiv> (\<lambda>item result. if \<not> eligible plans now item then result
         else (case result of None \<Rightarrow> Some item
           | Some current \<Rightarrow> if isHigherPrioritySubscription item current plans then Some item else result))"
  assumes "case r0 of None \<Rightarrow> True | Some c \<Rightarrow> eligible plans now c"
  shows "(case fold step subs r0 of
      None \<Rightarrow> r0 = None \<and> (\<forall>s \<in> set subs. \<not> eligible plans now s)
    | Some c \<Rightarrow> eligible plans now c \<and> (c \<in> set subs \<or> r0 = Some c) \<and>
        (\<forall>s \<in> set subs. eligible plans now s \<longrightarrow> priority plans s \<le> priority plans c) \<and>
        (\<forall>s. r0 = Some s \<longrightarrow> priority plans s \<le> priority plans c))"
  using assms(2)
proof (induction subs arbitrary: r0)
  case Nil then show ?case by (auto split: option.splits)
next
  case (Cons x xs)
  have "case step x r0 of None \<Rightarrow> True | Some c \<Rightarrow> eligible plans now c"
    using Cons.prems by (auto simp: step_def split: option.splits)
  note ih = Cons.IH [OF this]
  have r0: "priority plans s \<le> priority plans c" if "r0 = Some s" "step x r0 = Some c" for s c
    using that by (auto simp: step_def higher_priority split: if_splits)
  have x: "priority plans x \<le> priority plans c" if "eligible plans now x" "step x r0 = Some c" for c
    using that by (auto simp: step_def higher_priority split: if_splits option.splits)
  have src: "c = x \<or> r0 = Some c" if "step x r0 = Some c" for c
    using that by (auto simp: step_def split: if_splits option.splits)
  have none: "r0 = None \<and> \<not> eligible plans now x" if "step x r0 = None"
    using that by (auto simp: step_def split: if_splits option.splits)
  show ?case
  proof (cases "fold step xs (step x r0)")
    case None then show ?thesis using ih none by auto
  next
    case (Some c)
    have some: "\<exists>d. step x r0 = Some d" if "r0 = Some s \<or> eligible plans now x" for s
      using that none by (cases "step x r0") auto
    have le: "priority plans s \<le> priority plans c" if "s = x \<and> eligible plans now x \<or> r0 = Some s" for s
    proof -
      have "\<exists>d. step x r0 = Some d" using some that by blast
      then obtain d where d: "step x r0 = Some d" ..
      then have "priority plans s \<le> priority plans d" using r0 x that by blast
      also have "\<dots> \<le> priority plans c" using ih Some d by simp
      finally show ?thesis .
    qed
    show ?thesis using ih Some le src by (auto split: option.splits)
  qed
qed

text \<open>@C:Billing_Entitlements.current_subscription_best@
  The current subscription of a user is one of theirs that is active, has started, has not ended and is
  of an active plan; no other such subscription has a higher plan rank, or the same rank and a later end,
  or both the same and a later number. There is none only if no subscription qualifies.
\<close>

lemma current_subscription_best:
  "case selectCurrentSubscription subs plans now of
     None \<Rightarrow> \<forall>s \<in> set subs. \<not> eligible plans now s
   | Some c \<Rightarrow> c \<in> set subs \<and> eligible plans now c \<and>
       (\<forall>s \<in> set subs. eligible plans now s \<longrightarrow>
         plan_rank plans (sb_PlanID s) < plan_rank plans (sb_PlanID c) \<or>
         plan_rank plans (sb_PlanID s) = plan_rank plans (sb_PlanID c) \<and>
           (subscriptionEndSortTime s < subscriptionEndSortTime c \<or>
            subscriptionEndSortTime s = subscriptionEndSortTime c \<and> sb_ID s \<le> sb_ID c))"
  using select_fold [where ?r0.0 = None and subs = subs and plans = plans and now = now]
  by (auto simp: selectCurrentSubscription_def priority_def split: option.splits)

definition sample_plans :: plan_map where
  "sample_plans = [1 \<mapsto> \<lparr>bp_ID = 1, bp_Code = ''free'', bp_Name = [], bp_Description = [], bp_FeatureJSON = [],
       bp_PeriodCreditNanousd = 0, bp_SortOrder = 9, bp_IsActive = True, bp_PermissionGroupID = None\<rparr>,
     2 \<mapsto> \<lparr>bp_ID = 2, bp_Code = ''pro'', bp_Name = [], bp_Description = [], bp_FeatureJSON = [],
       bp_PeriodCreditNanousd = 5, bp_SortOrder = 0, bp_IsActive = True, bp_PermissionGroupID = Some 4\<rparr>]"

definition segment_row :: "nat \<Rightarrow> nat \<Rightarrow> gotime \<Rightarrow> gotime option \<Rightarrow> subscription" where
  "segment_row i plan start stop = \<lparr>sb_ID = i, sb_UserID = 7, sb_PlanID = plan, sb_PriceID = plan, sb_Status = ''active'',
     sb_StartAt = start, sb_CurrentPeriodStartAt = start, sb_CurrentPeriodEndAt = stop, sb_CancelAtPeriodEnd = False,
     sb_CanceledAt = None, sb_AutoRenew = False\<rparr>"

section \<open>When it really ends\<close>

lemma extend_pass_runs:
  "fold (\<lambda>item (e, x). if extends current e item then (the (sb_CurrentPeriodEndAt item), True) else (e, x)) subs (endAt, x0) = (e', x) \<Longrightarrow>
   endAt \<le> t \<Longrightarrow> t < e' \<Longrightarrow> \<exists>s \<in> set subs. sb_PlanID s = sb_PlanID current \<and> sb_CurrentPeriodStartAt s \<le> t \<and>
     (\<exists>e. sb_CurrentPeriodEndAt s = Some e \<and> t < e)"
proof (induction subs arbitrary: endAt x0)
  case Nil then show ?case by simp
next
  case (Cons s subs)
  show ?case
  proof (cases "extends current endAt s")
    case True
    then obtain e where e: "sb_CurrentPeriodEndAt s = Some e" "sb_CurrentPeriodStartAt s \<le> endAt" "sb_PlanID s = sb_PlanID current"
      by (auto simp: extends_def)
    show ?thesis
    proof (cases "t < e")
      case True then show ?thesis using e Cons.prems(2) by auto
    next
      case False
      then show ?thesis using Cons.IH [of e True] Cons.prems True e by auto
    qed
  next
    case False
    then show ?thesis using Cons.IH [of endAt x0] Cons.prems by auto
  qed
qed

lemma extend_pass_still:
  "fold (\<lambda>item (e, x). if extends current e item then (the (sb_CurrentPeriodEndAt item), True) else (e, x)) subs (endAt, False) = (e', False) \<Longrightarrow>
   e' = endAt \<and> (\<forall>s \<in> set subs. \<not> extends current endAt s)"
proof (induction subs)
  case Nil then show ?case by simp
next
  case (Cons s subs)
  show ?case
  proof (cases "extends current endAt s")
    case True
    then have "fold (\<lambda>item (e, x). if extends current e item then (the (sb_CurrentPeriodEndAt item), True) else (e, x)) subs
        (the (sb_CurrentPeriodEndAt s), True) = (e', False)" using Cons.prems by simp
    then show ?thesis using extend_pass_grows [of current subs "the (sb_CurrentPeriodEndAt s)" True e' False] by simp
  next
    case False then show ?thesis using Cons by simp
  qed
qed



theorem current_subscription_best_witness:
  "selectCurrentSubscription [segment_row 1 1 0 None, segment_row 3 2 5 (Some 90), segment_row 2 2 0 (Some 90)] sample_plans 10 =
     Some (segment_row 3 2 5 (Some 90))"
proof -
  define a b d where rows: "a = segment_row 1 1 0 None" "b = segment_row 3 2 5 (Some 90)" "d = segment_row 2 2 0 (Some 90)"
  have el: "eligible sample_plans 10 a" "eligible sample_plans 10 b" "eligible sample_plans 10 d"
    by (simp_all add: rows eligible_def segment_row_def sample_plans_def)
  have rank: "plan_rank sample_plans (sb_PlanID a) = 0" "plan_rank sample_plans (sb_PlanID b) = 2" "plan_rank sample_plans (sb_PlanID d) = 2"
    unfolding rows by code_simp+
  have key: "subscriptionEndSortTime b = subscriptionEndSortTime d" "sb_ID b = 3" "sb_ID d = 2"
    by (simp_all add: rows segment_row_def subscriptionEndSortTime_def)
  note best = current_subscription_best [of "[a, b, d]" sample_plans 10]
  obtain c where c: "selectCurrentSubscription [a, b, d] sample_plans 10 = Some c"
    using best el(1) by (cases "selectCurrentSubscription [a, b, d] sample_plans 10") auto
  note best [unfolded c option.case]
  then have "c \<in> {a, b, d}" and "c \<noteq> a" and "c \<noteq> d" using el(2) rank key by auto
  then show ?thesis using c unfolding rows by simp
qed

section \<open>Joined views cover what the segments cover\<close>

definition runs_at :: "gotime \<Rightarrow> subscription \<Rightarrow> bool" where
  "runs_at t s \<longleftrightarrow> sb_CurrentPeriodStartAt s \<le> t \<and> (case sb_CurrentPeriodEndAt s of None \<Rightarrow> True | Some e \<Rightarrow> t < e)"

definition sold :: "nat \<times> nat \<Rightarrow> subscription \<Rightarrow> bool" where
  "sold pp s \<longleftrightarrow> sb_PlanID s = fst pp \<and> sb_PriceID s = snd pp"

definition view_covers :: "nat \<times> nat \<Rightarrow> gotime \<Rightarrow> SubscriptionEntitlementView list \<Rightarrow> bool" where
  "view_covers pp t vs \<longleftrightarrow> (\<exists>v \<in> set vs. sold pp (ev_Subscription v) \<and> runs_at t (ev_Subscription v))"

lemma joined_covers:
  assumes "canMergeSubscriptionEntitlement l r" and "sb_CurrentPeriodStartAt l \<le> sb_CurrentPeriodStartAt r"
  shows "sold pp (if subscriptionEndsAfter r l then l\<lparr>sb_CurrentPeriodEndAt := sb_CurrentPeriodEndAt r\<rparr> else l) \<and>
      runs_at t (if subscriptionEndsAfter r l then l\<lparr>sb_CurrentPeriodEndAt := sb_CurrentPeriodEndAt r\<rparr> else l) \<longleftrightarrow>
    sold pp l \<and> runs_at t l \<or> sold pp r \<and> runs_at t r"
proof -
  obtain e where e: "sb_CurrentPeriodEndAt l = Some e" "sb_CurrentPeriodStartAt r \<le> e" and same: "sold pp l \<longleftrightarrow> sold pp r"
    using assms(1) by (auto simp: canMergeSubscriptionEntitlement_def sold_def)
  show ?thesis
  proof (cases "sb_CurrentPeriodEndAt r")
    case None then show ?thesis using e same assms(2) by (auto simp: subscriptionEndsAfter_def runs_at_def sold_def)
  next
    case (Some f) then show ?thesis using e same assms(2) by (auto simp: subscriptionEndsAfter_def runs_at_def sold_def)
  qed
qed

lemma add_view_covers:
  assumes "results \<noteq> [] \<Longrightarrow> sb_CurrentPeriodStartAt (ev_Subscription (last results)) \<le> sb_CurrentPeriodStartAt (ev_Subscription v)"
  shows "view_covers pp t (add_view v results) \<longleftrightarrow>
      view_covers pp t results \<or> sold pp (ev_Subscription v) \<and> runs_at t (ev_Subscription v)"
proof (cases "results \<noteq> [] \<and> canMergeSubscriptionEntitlement (ev_Subscription (last results)) (ev_Subscription v)")
  case True
  then have r: "view_covers pp t results \<longleftrightarrow> view_covers pp t (butlast results) \<or>
      sold pp (ev_Subscription (last results)) \<and> runs_at t (ev_Subscription (last results))"
    by (cases results rule: rev_cases) (auto simp: view_covers_def)
  show ?thesis unfolding r using True joined_covers [of "ev_Subscription (last results)" "ev_Subscription v" pp t] assms
    by (auto simp: add_view_def Let_def view_covers_def)
next
  case False then show ?thesis by (auto simp: add_view_def view_covers_def)
qed

lemma add_view_last: "add_view v results \<noteq> []"
  "sb_CurrentPeriodStartAt (ev_Subscription (last (add_view v results))) =
    sb_CurrentPeriodStartAt (ev_Subscription (if results \<noteq> [] \<and>
      canMergeSubscriptionEntitlement (ev_Subscription (last results)) (ev_Subscription v) then last results else v))"
  by (auto simp: add_view_def Let_def)

lemma fold_views_cover:
  assumes "sorted (map sb_CurrentPeriodStartAt items)"
    and "results \<noteq> [] \<Longrightarrow> \<forall>s \<in> set items. sb_CurrentPeriodStartAt (ev_Subscription (last results)) \<le> sb_CurrentPeriodStartAt s"
  shows "view_covers pp t (fold (\<lambda>s. add_view (view_of plans current s)) items results) \<longleftrightarrow>
    view_covers pp t results \<or> (\<exists>s \<in> set items. sold pp s \<and> runs_at t s)"
  using assms
proof (induction items arbitrary: results)
  case Nil then show ?case by simp
next
  case (Cons s items)
  let ?r = "add_view (view_of plans current s) results"
  have v: "ev_Subscription (view_of plans current s) = s" by (simp add: view_of_def)
  have "\<forall>x \<in> set items. sb_CurrentPeriodStartAt (ev_Subscription (last ?r)) \<le> sb_CurrentPeriodStartAt x"
    using Cons.prems add_view_last(2) [of "view_of plans current s" results] by (auto simp: v)
  moreover have "view_covers pp t ?r \<longleftrightarrow> view_covers pp t results \<or> sold pp s \<and> runs_at t s"
    using add_view_covers [of results "view_of plans current s" pp t] Cons.prems(2) by (auto simp: v)
  ultimately show ?case using Cons.IH [of ?r] Cons.prems(1) by auto
qed

text \<open>@C:Billing_Entitlements.views_cover_segments@
  Joining adjoining segments of the same plan and price changes nothing of what a user has: at every
  instant, the views show a plan at a price as running exactly when one of the user's listed segments of
  that plan and price runs then.
\<close>

lemma views_cover_segments:
  "view_covers pp t (buildSubscriptionEntitlementViews subs plans now) \<longleftrightarrow>
    (\<exists>s \<in> set subs. listed plans now s \<and> sold pp s \<and> runs_at t s)"
proof -
  let ?key = "\<lambda>s. (sb_CurrentPeriodStartAt s, - plan_rank plans (sb_PlanID s), sb_ID s)"
  let ?items = "sort_key ?key (filter (listed plans now) subs)"
  have "sorted_wrt (\<lambda>a b. ?key a \<le> ?key b) ?items" using sorted_sort_key [of ?key] by (simp only: sorted_map)
  then have "sorted_wrt (\<lambda>a b. sb_CurrentPeriodStartAt a \<le> sb_CurrentPeriodStartAt b) ?items"
    by (rule sorted_wrt_mono_rel [rotated]) auto
  then have "sorted (map sb_CurrentPeriodStartAt ?items)" by (simp only: sorted_map)
  from fold_views_cover [OF this, of "[]" pp t plans "selectCurrentSubscription subs plans now"]
  show ?thesis by (auto simp: buildSubscriptionEntitlementViews_def Let_def view_covers_def)
qed

end
