(* ===== verification/Go_Json.thy ===== *)
theory Go_Json
  imports Go_Prelude "HOL-Library.AList"
begin

text \<open>
  JSON values as \<open>encoding/json\<close> leaves them in an \<open>any\<close>, and Go's \<open>map[string]any\<close>: association lists
  with the keys in the order of iteration, which the code does not rely on. The deep copies of the code
  (\<open>cloneMap\<close>, \<open>cloneValue\<close>, \<open>cloneModelOptionMap\<close>) are the identity on values. A \<open>float64\<close> is its
  mantissa and exponent, which is exact: every number of a document is finite.
\<close>

datatype gojson =
    JNull
  | JBool bool
  | JInt int
  | JFloat int int  \<comment> \<open>mantissa times two to the exponent\<close>
  | JStr string
  | JArr "gojson list"
  | JObj "(string \<times> gojson) list"

type_synonym goobj = "(string \<times> gojson) list"

definition jget :: "goobj \<Rightarrow> string \<Rightarrow> gojson option" where "jget m k = map_of m k"
definition jset :: "string \<Rightarrow> gojson \<Rightarrow> goobj \<Rightarrow> goobj" where "jset k v m = AList.update k v m"
definition jdel :: "string \<Rightarrow> goobj \<Rightarrow> goobj" where "jdel k m = AList.delete k m"

lemma jget_set: "jget (jset k v m) i = (if i = k then Some v else jget m i)"
  by (simp add: jget_def jset_def update_conv')

lemma jget_del: "jget (jdel k m) i = (if i = k then None else jget m i)"
  by (simp add: jget_def jdel_def delete_conv')

lemma jget_Nil [simp]: "jget [] k = None"
  by (simp add: jget_def)

lemma jget_Cons: "jget ((k, v) # m) i = (if i = k then Some v else jget m i)"
  by (simp add: jget_def)

lemma jset_same: "jget m k = Some v \<Longrightarrow> jset k v m = m"
  unfolding jget_def jset_def by (induction m) (auto split: if_splits)

lemma jset_nonempty [simp]: "jset k v m \<noteq> []"
  unfolding jset_def by (induction m) auto

text \<open>\<open>value.(string)\<close>, with the empty string where it is something else.\<close>

definition stringValue :: "gojson option \<Rightarrow> string" where
  "stringValue v = (case v of Some (JStr s) \<Rightarrow> s | _ \<Rightarrow> [])"

text \<open>
  \<open>mergePayload\<close> and \<open>mergeModelOptionMap\<close>: the entries of the source one by one, objects merged into
  objects, everything else replaced.
\<close>

lemma size_obj_entry: "size v < size (JObj ((k, v) # m))"
  by simp

function mergePayload :: "goobj \<Rightarrow> goobj \<Rightarrow> goobj" where
  "mergePayload dst [] = dst"
| "mergePayload dst ((k, v) # src) =
     mergePayload
       (jset k (case v of
                  JObj s \<Rightarrow> (case jget dst k of Some (JObj d) \<Rightarrow> JObj (mergePayload d s) | _ \<Rightarrow> v)
                | _ \<Rightarrow> v) dst) src"
  by pat_completeness auto
termination
  by (relation "measure (\<lambda>(dst, src). size (JObj src))") auto

text \<open>What a merge leaves: the source's entry where it has one and it is no object, else the destination's.\<close>

lemma merge_other: "k \<notin> fst ` set src \<Longrightarrow> jget (mergePayload dst src) k = jget dst k"
proof (induction src arbitrary: dst)
  case (Cons e src)
  then show ?case by (cases e) (simp add: jget_set)
qed simp

lemma merge_source:
  "distinct (map fst src) \<Longrightarrow> (k, v) \<in> set src \<Longrightarrow>
   jget (mergePayload dst src) k =
     Some (case v of JObj s \<Rightarrow> (case jget dst k of Some (JObj d) \<Rightarrow> JObj (mergePayload d s) | _ \<Rightarrow> v) | _ \<Rightarrow> v)"
proof (induction src arbitrary: dst)
  case (Cons e src)
  obtain i w where e: "e = (i, w)" by fastforce
  show ?case
  proof (cases "i = k")
    case True
    then have "w = v" "k \<notin> fst ` set src" using Cons.prems e by force+
    then show ?thesis using True e by (simp add: merge_other jget_set)
  next
    case False
    then obtain dst' where d: "mergePayload dst (e # src) = mergePayload dst' src" "jget dst k = jget dst' k"
      by (simp add: e jget_set)
    have "(k, v) \<in> set src" "distinct (map fst src)" using False Cons.prems e by auto
    then show ?thesis using Cons.IH [of dst'] unfolding d by blast
  qed
qed simp

lemma merge_scalar:
  "distinct (map fst src) \<Longrightarrow> (k, v) \<in> set src \<Longrightarrow> (\<forall>s. v \<noteq> JObj s) \<Longrightarrow> jget (mergePayload dst src) k = Some v"
  by (subst merge_source) (auto split: gojson.splits)

end
