(* ===== verification/Native_Tools.thy ===== *)
theory Native_Tools
  imports Go_Json
begin

text \<open>
  The provider tools the back end knows (\<open>shared/nativetool/catalog.go\<close>): the built-in catalogue, the tools
  an administrator declares in a model's capabilities, the payload that is sent for a tool the user asked
  for, and what a call of a tool costs, with the administrator's overrides. The catalogue and the price
  table are the program's own data, entry by entry.
\<close>

section \<open>Catalogue\<close>

record nativetool_definition =
  nd_Protocol :: string
  nd_Provider :: string
  nd_Type :: string
  nd_Key :: string
  nd_Label :: string
  nd_Description :: string
  nd_Payload :: "goobj option"  \<comment> \<open>\<open>None\<close> is the nil map\<close>
  nd_DefaultEnabled :: bool
  nd_Billable :: bool
  nd_BillingUnit :: string
  nd_PriceNanousd :: int
  nd_PriceLabel :: string
  nd_RiskLevel :: string
  nd_UsageAliases :: "string list"
  nd_rawTypeFieldKeys :: "string list"

record PricingDefinition =
  pd_Provider :: string
  pd_ToolKey :: string
  pd_Label :: string
  pd_Description :: string
  pd_Type :: string
  pd_PriceNanousd :: int
  pd_Unit :: string
  pd_PriceLabel :: string
  pd_Billable :: bool

record PricingOverride =
  pv_PriceNanousd :: int
  pv_Unit :: string
  pv_PriceLabel :: string
  pv_Billable :: bool

record UsagePrice =
  up_Provider :: string
  up_ServiceName :: string
  up_NanousdPerCall :: int

definition openai_definitions :: "nativetool_definition list" where
  "openai_definitions = [
    \<lparr>nd_Protocol = ''openai_chat_completions'', nd_Provider = ''OpenAI'', nd_Type = ''web_search'', nd_Key = ''openai.web_search'',
      nd_Label = ''Web Search'', nd_Description = ''OpenAI hosted web search.'',
      nd_Payload = Some [(''type'', JStr ''web_search'')],
      nd_DefaultEnabled = True, nd_Billable = True, nd_BillingUnit = ''call'', nd_PriceNanousd = 25000000, nd_PriceLabel = [], nd_RiskLevel = [],
      nd_UsageAliases = [''web_search''], nd_rawTypeFieldKeys = []\<rparr>,
    \<lparr>nd_Protocol = ''openai_chat_completions'', nd_Provider = ''OpenAI'', nd_Type = ''web_search_preview'', nd_Key = ''openai.web_search_preview'',
      nd_Label = ''Web Search Preview'', nd_Description = ''OpenAI hosted web search preview tool.'',
      nd_Payload = Some [(''type'', JStr ''web_search_preview'')],
      nd_DefaultEnabled = True, nd_Billable = True, nd_BillingUnit = ''call'', nd_PriceNanousd = 25000000, nd_PriceLabel = [], nd_RiskLevel = [],
      nd_UsageAliases = [''web_search_preview''], nd_rawTypeFieldKeys = []\<rparr>,
    \<lparr>nd_Protocol = ''openai_responses'', nd_Provider = ''OpenAI'', nd_Type = ''web_search'', nd_Key = ''openai.web_search'',
      nd_Label = ''Web Search'', nd_Description = ''OpenAI hosted web search.'',
      nd_Payload = Some [(''type'', JStr ''web_search'')],
      nd_DefaultEnabled = True, nd_Billable = True, nd_BillingUnit = ''call'', nd_PriceNanousd = 25000000, nd_PriceLabel = [], nd_RiskLevel = [],
      nd_UsageAliases = [''web_search''], nd_rawTypeFieldKeys = []\<rparr>,
    \<lparr>nd_Protocol = ''openai_responses'', nd_Provider = ''OpenAI'', nd_Type = ''web_search_preview'', nd_Key = ''openai.web_search_preview'',
      nd_Label = ''Web Search Preview'', nd_Description = ''OpenAI hosted web search preview tool.'',
      nd_Payload = Some [(''type'', JStr ''web_search_preview'')],
      nd_DefaultEnabled = True, nd_Billable = True, nd_BillingUnit = ''call'', nd_PriceNanousd = 25000000, nd_PriceLabel = [], nd_RiskLevel = [],
      nd_UsageAliases = [''web_search_preview''], nd_rawTypeFieldKeys = []\<rparr>,
    \<lparr>nd_Protocol = ''openai_responses'', nd_Provider = ''OpenAI'', nd_Type = ''shell'', nd_Key = ''openai.shell'',
      nd_Label = ''Shell'', nd_Description = ''OpenAI hosted shell tool with an automatic container.'',
      nd_Payload = Some [(''type'', JStr ''shell''), (''environment'', JObj [(''type'', JStr ''container_auto'')])],
      nd_DefaultEnabled = True, nd_Billable = False, nd_BillingUnit = [], nd_PriceNanousd = 0, nd_PriceLabel = ''notMetered'', nd_RiskLevel = ''high'',
      nd_UsageAliases = [''shell''], nd_rawTypeFieldKeys = []\<rparr>,
    \<lparr>nd_Protocol = ''openai_responses'', nd_Provider = ''OpenAI'', nd_Type = ''image_generation'', nd_Key = ''openai.image_generation'',
      nd_Label = ''Image Generation'', nd_Description = ''OpenAI hosted image generation tool.'',
      nd_Payload = Some [(''type'', JStr ''image_generation'')],
      nd_DefaultEnabled = True, nd_Billable = False, nd_BillingUnit = [], nd_PriceNanousd = 0, nd_PriceLabel = ''notMetered'', nd_RiskLevel = [],
      nd_UsageAliases = [''image_generation''], nd_rawTypeFieldKeys = []\<rparr>,
    \<lparr>nd_Protocol = ''openai_responses'', nd_Provider = ''OpenAI'', nd_Type = ''code_interpreter'', nd_Key = ''openai.code_interpreter'',
      nd_Label = ''Code Interpreter'', nd_Description = ''OpenAI hosted code interpreter with an automatic container.'',
      nd_Payload = Some [(''type'', JStr ''code_interpreter''), (''container'', JObj [(''type'', JStr ''auto'')])],
      nd_DefaultEnabled = True, nd_Billable = False, nd_BillingUnit = [], nd_PriceNanousd = 0, nd_PriceLabel = ''notMetered'', nd_RiskLevel = ''high'',
      nd_UsageAliases = [''code_interpreter''], nd_rawTypeFieldKeys = []\<rparr>]"

definition anthropic_definitions :: "nativetool_definition list" where
  "anthropic_definitions = [
    \<lparr>nd_Protocol = ''anthropic_messages'', nd_Provider = ''Anthropic'', nd_Type = ''web_search_20250305'', nd_Key = ''anthropic.web_search_20250305'',
      nd_Label = ''Web Search'', nd_Description = ''Anthropic hosted web search tool.'',
      nd_Payload = Some [(''type'', JStr ''web_search_20250305''), (''name'', JStr ''web_search'')],
      nd_DefaultEnabled = True, nd_Billable = True, nd_BillingUnit = ''search'', nd_PriceNanousd = 10000000, nd_PriceLabel = [], nd_RiskLevel = [],
      nd_UsageAliases = [''web_search''], nd_rawTypeFieldKeys = []\<rparr>,
    \<lparr>nd_Protocol = ''anthropic_messages'', nd_Provider = ''Anthropic'', nd_Type = ''web_search_20260209'', nd_Key = ''anthropic.web_search_20260209'',
      nd_Label = ''Web Search'', nd_Description = ''Anthropic hosted web search tool.'',
      nd_Payload = Some [(''type'', JStr ''web_search_20260209''), (''name'', JStr ''web_search''), (''allowed_callers'', JArr [JStr ''direct''])],
      nd_DefaultEnabled = True, nd_Billable = True, nd_BillingUnit = ''search'', nd_PriceNanousd = 10000000, nd_PriceLabel = [], nd_RiskLevel = [],
      nd_UsageAliases = [''web_search''], nd_rawTypeFieldKeys = []\<rparr>,
    \<lparr>nd_Protocol = ''anthropic_messages'', nd_Provider = ''Anthropic'', nd_Type = ''web_fetch_20250910'', nd_Key = ''anthropic.web_fetch_20250910'',
      nd_Label = ''Web Fetch'', nd_Description = ''Anthropic hosted web fetch tool.'',
      nd_Payload = Some [(''type'', JStr ''web_fetch_20250910''), (''name'', JStr ''web_fetch'')],
      nd_DefaultEnabled = True, nd_Billable = False, nd_BillingUnit = [], nd_PriceNanousd = 0, nd_PriceLabel = ''included'', nd_RiskLevel = [],
      nd_UsageAliases = [''web_fetch''], nd_rawTypeFieldKeys = []\<rparr>,
    \<lparr>nd_Protocol = ''anthropic_messages'', nd_Provider = ''Anthropic'', nd_Type = ''web_fetch_20260209'', nd_Key = ''anthropic.web_fetch_20260209'',
      nd_Label = ''Web Fetch'', nd_Description = ''Anthropic hosted web fetch tool.'',
      nd_Payload = Some [(''type'', JStr ''web_fetch_20260209''), (''name'', JStr ''web_fetch''), (''allowed_callers'', JArr [JStr ''direct''])],
      nd_DefaultEnabled = True, nd_Billable = False, nd_BillingUnit = [], nd_PriceNanousd = 0, nd_PriceLabel = ''included'', nd_RiskLevel = [],
      nd_UsageAliases = [''web_fetch''], nd_rawTypeFieldKeys = []\<rparr>,
    \<lparr>nd_Protocol = ''anthropic_messages'', nd_Provider = ''Anthropic'', nd_Type = ''code_execution_20250825'', nd_Key = ''anthropic.code_execution_20250825'',
      nd_Label = ''Code Execution'', nd_Description = ''Anthropic hosted code execution tool.'',
      nd_Payload = Some [(''type'', JStr ''code_execution_20250825''), (''name'', JStr ''code_execution'')],
      nd_DefaultEnabled = True, nd_Billable = False, nd_BillingUnit = [], nd_PriceNanousd = 0, nd_PriceLabel = ''notMetered'', nd_RiskLevel = ''high'',
      nd_UsageAliases = [''code_execution''], nd_rawTypeFieldKeys = []\<rparr>,
    \<lparr>nd_Protocol = ''anthropic_messages'', nd_Provider = ''Anthropic'', nd_Type = ''code_execution_20260120'', nd_Key = ''anthropic.code_execution_20260120'',
      nd_Label = ''Code Execution'', nd_Description = ''Anthropic hosted code execution tool.'',
      nd_Payload = Some [(''type'', JStr ''code_execution_20260120''), (''name'', JStr ''code_execution'')],
      nd_DefaultEnabled = True, nd_Billable = False, nd_BillingUnit = [], nd_PriceNanousd = 0, nd_PriceLabel = ''notMetered'', nd_RiskLevel = ''high'',
      nd_UsageAliases = [''code_execution''], nd_rawTypeFieldKeys = []\<rparr>,
    \<lparr>nd_Protocol = ''anthropic_messages'', nd_Provider = ''Anthropic'', nd_Type = ''advisor_20260301'', nd_Key = ''anthropic.advisor_20260301'',
      nd_Label = ''Advisor'', nd_Description = ''Anthropic hosted advisor tool.'',
      nd_Payload = Some [(''type'', JStr ''advisor_20260301''), (''name'', JStr ''advisor'')],
      nd_DefaultEnabled = True, nd_Billable = False, nd_BillingUnit = [], nd_PriceNanousd = 0, nd_PriceLabel = ''notMetered'', nd_RiskLevel = [],
      nd_UsageAliases = [''advisor''], nd_rawTypeFieldKeys = []\<rparr>,
    \<lparr>nd_Protocol = ''anthropic_messages'', nd_Provider = ''Anthropic'', nd_Type = ''tool_search_tool_regex_20251119'', nd_Key = ''anthropic.tool_search_tool_regex_20251119'',
      nd_Label = ''Tool Search Regex'', nd_Description = ''Anthropic hosted regex tool search.'',
      nd_Payload = Some [(''type'', JStr ''tool_search_tool_regex_20251119''), (''name'', JStr ''tool_search_tool_regex'')],
      nd_DefaultEnabled = True, nd_Billable = False, nd_BillingUnit = [], nd_PriceNanousd = 0, nd_PriceLabel = ''included'', nd_RiskLevel = [],
      nd_UsageAliases = [''tool_search_tool_regex''], nd_rawTypeFieldKeys = []\<rparr>,
    \<lparr>nd_Protocol = ''anthropic_messages'', nd_Provider = ''Anthropic'', nd_Type = ''tool_search_tool_bm25_20251119'', nd_Key = ''anthropic.tool_search_tool_bm25_20251119'',
      nd_Label = ''Tool Search BM25'', nd_Description = ''Anthropic hosted BM25 tool search.'',
      nd_Payload = Some [(''type'', JStr ''tool_search_tool_bm25_20251119''), (''name'', JStr ''tool_search_tool_bm25'')],
      nd_DefaultEnabled = True, nd_Billable = False, nd_BillingUnit = [], nd_PriceNanousd = 0, nd_PriceLabel = ''included'', nd_RiskLevel = [],
      nd_UsageAliases = [''tool_search_tool_bm25''], nd_rawTypeFieldKeys = []\<rparr>]"

definition xai_definitions :: "nativetool_definition list" where
  "xai_definitions = [
    \<lparr>nd_Protocol = ''xai_responses'', nd_Provider = ''xAI'', nd_Type = ''web_search'', nd_Key = ''xai.web_search'',
      nd_Label = ''Web Search'', nd_Description = ''xAI hosted web search.'',
      nd_Payload = Some [(''type'', JStr ''web_search'')],
      nd_DefaultEnabled = True, nd_Billable = True, nd_BillingUnit = ''call'', nd_PriceNanousd = 5000000, nd_PriceLabel = [], nd_RiskLevel = [],
      nd_UsageAliases = [''web_search''], nd_rawTypeFieldKeys = []\<rparr>,
    \<lparr>nd_Protocol = ''xai_responses'', nd_Provider = ''xAI'', nd_Type = ''x_search'', nd_Key = ''xai.x_search'',
      nd_Label = ''X Search'', nd_Description = ''xAI hosted X search.'',
      nd_Payload = Some [(''type'', JStr ''x_search'')],
      nd_DefaultEnabled = True, nd_Billable = True, nd_BillingUnit = ''call'', nd_PriceNanousd = 5000000, nd_PriceLabel = [], nd_RiskLevel = [],
      nd_UsageAliases = [''x_search''], nd_rawTypeFieldKeys = []\<rparr>,
    \<lparr>nd_Protocol = ''xai_responses'', nd_Provider = ''xAI'', nd_Type = ''code_interpreter'', nd_Key = ''xai.code_interpreter'',
      nd_Label = ''Code Interpreter'', nd_Description = ''xAI hosted code interpreter.'',
      nd_Payload = Some [(''type'', JStr ''code_interpreter'')],
      nd_DefaultEnabled = True, nd_Billable = True, nd_BillingUnit = ''call'', nd_PriceNanousd = 5000000, nd_PriceLabel = [], nd_RiskLevel = ''high'',
      nd_UsageAliases = [''code_interpreter'', ''code_execution''], nd_rawTypeFieldKeys = []\<rparr>]"

definition google_definitions :: "nativetool_definition list" where
  "google_definitions = [
    \<lparr>nd_Protocol = ''gemini_generate_content'', nd_Provider = ''Google'', nd_Type = ''google_search'', nd_Key = ''google.google_search'',
      nd_Label = ''Google Search'', nd_Description = ''Google hosted search grounding tool.'',
      nd_Payload = Some [(''google_search'', JObj [])],
      nd_DefaultEnabled = True, nd_Billable = False, nd_BillingUnit = [], nd_PriceNanousd = 0, nd_PriceLabel = ''notMetered'', nd_RiskLevel = [],
      nd_UsageAliases = [''google_search''], nd_rawTypeFieldKeys = [''google_search'', ''googleSearch'']\<rparr>,
    \<lparr>nd_Protocol = ''google_image_generation'', nd_Provider = ''Google'', nd_Type = ''google_search'', nd_Key = ''google.google_search'',
      nd_Label = ''Google Search'', nd_Description = ''Google hosted search grounding tool.'',
      nd_Payload = Some [(''google_search'', JObj [])],
      nd_DefaultEnabled = True, nd_Billable = False, nd_BillingUnit = [], nd_PriceNanousd = 0, nd_PriceLabel = ''notMetered'', nd_RiskLevel = [],
      nd_UsageAliases = [''google_search''], nd_rawTypeFieldKeys = [''google_search'', ''googleSearch'']\<rparr>,
    \<lparr>nd_Protocol = ''gemini_generate_content'', nd_Provider = ''Google'', nd_Type = ''code_execution'', nd_Key = ''google.code_execution'',
      nd_Label = ''Code Execution'', nd_Description = ''Google hosted code execution tool.'',
      nd_Payload = Some [(''code_execution'', JObj [])],
      nd_DefaultEnabled = True, nd_Billable = False, nd_BillingUnit = [], nd_PriceNanousd = 0, nd_PriceLabel = ''notMetered'', nd_RiskLevel = ''high'',
      nd_UsageAliases = [''code_execution''], nd_rawTypeFieldKeys = [''code_execution'', ''codeExecution'']\<rparr>,
    \<lparr>nd_Protocol = ''gemini_generate_content'', nd_Provider = ''Google'', nd_Type = ''url_context'', nd_Key = ''google.url_context'',
      nd_Label = ''URL Context'', nd_Description = ''Google hosted URL context tool.'',
      nd_Payload = Some [(''url_context'', JObj [])],
      nd_DefaultEnabled = True, nd_Billable = False, nd_BillingUnit = [], nd_PriceNanousd = 0, nd_PriceLabel = ''notMetered'', nd_RiskLevel = [],
      nd_UsageAliases = [''url_context''], nd_rawTypeFieldKeys = [''url_context'', ''urlContext'']\<rparr>,
    \<lparr>nd_Protocol = ''gemini_interactions'', nd_Provider = ''Google'', nd_Type = ''google_search'', nd_Key = ''google.google_search'',
      nd_Label = ''Google Search'', nd_Description = ''Google hosted search grounding tool.'',
      nd_Payload = Some [(''type'', JStr ''google_search'')],
      nd_DefaultEnabled = True, nd_Billable = False, nd_BillingUnit = [], nd_PriceNanousd = 0, nd_PriceLabel = ''notMetered'', nd_RiskLevel = [],
      nd_UsageAliases = [''google_search''], nd_rawTypeFieldKeys = []\<rparr>,
    \<lparr>nd_Protocol = ''gemini_interactions'', nd_Provider = ''Google'', nd_Type = ''code_execution'', nd_Key = ''google.code_execution'',
      nd_Label = ''Code Execution'', nd_Description = ''Google hosted code execution tool.'',
      nd_Payload = Some [(''type'', JStr ''code_execution'')],
      nd_DefaultEnabled = True, nd_Billable = False, nd_BillingUnit = [], nd_PriceNanousd = 0, nd_PriceLabel = ''notMetered'', nd_RiskLevel = ''high'',
      nd_UsageAliases = [''code_execution''], nd_rawTypeFieldKeys = []\<rparr>,
    \<lparr>nd_Protocol = ''gemini_interactions'', nd_Provider = ''Google'', nd_Type = ''url_context'', nd_Key = ''google.url_context'',
      nd_Label = ''URL Context'', nd_Description = ''Google hosted URL context tool.'',
      nd_Payload = Some [(''type'', JStr ''url_context'')],
      nd_DefaultEnabled = True, nd_Billable = False, nd_BillingUnit = [], nd_PriceNanousd = 0, nd_PriceLabel = ''notMetered'', nd_RiskLevel = [],
      nd_UsageAliases = [''url_context''], nd_rawTypeFieldKeys = []\<rparr>]"

definition definitions :: "nativetool_definition list" where
  "definitions = openai_definitions @ anthropic_definitions @ xai_definitions @ google_definitions"

definition usagePricesByKey :: "(string \<times> UsagePrice) list" where
  "usagePricesByKey = [
    (''openai.web_search'', \<lparr>up_Provider = ''openai'', up_ServiceName = ''OpenAI Web search'', up_NanousdPerCall = 25000000\<rparr>),
    (''openai.web_search_preview'', \<lparr>up_Provider = ''openai'', up_ServiceName = ''OpenAI Web search preview'', up_NanousdPerCall = 25000000\<rparr>),
    (''openai.shell'', \<lparr>up_Provider = ''openai'', up_ServiceName = ''OpenAI Shell'', up_NanousdPerCall = 0\<rparr>),
    (''openai.image_generation'', \<lparr>up_Provider = ''openai'', up_ServiceName = ''OpenAI Image Generation'', up_NanousdPerCall = 0\<rparr>),
    (''openai.code_interpreter'', \<lparr>up_Provider = ''openai'', up_ServiceName = ''OpenAI Code Interpreter'', up_NanousdPerCall = 0\<rparr>),
    (''anthropic.web_search_20250305'', \<lparr>up_Provider = ''anthropic'', up_ServiceName = ''Anthropic Web search'', up_NanousdPerCall = 10000000\<rparr>),
    (''anthropic.web_search_20260209'', \<lparr>up_Provider = ''anthropic'', up_ServiceName = ''Anthropic Web search'', up_NanousdPerCall = 10000000\<rparr>),
    (''anthropic.web_fetch_20250910'', \<lparr>up_Provider = ''anthropic'', up_ServiceName = ''Anthropic Web Fetch'', up_NanousdPerCall = 0\<rparr>),
    (''anthropic.web_fetch_20260209'', \<lparr>up_Provider = ''anthropic'', up_ServiceName = ''Anthropic Web Fetch'', up_NanousdPerCall = 0\<rparr>),
    (''anthropic.code_execution_20250825'', \<lparr>up_Provider = ''anthropic'', up_ServiceName = ''Anthropic Code Execution'', up_NanousdPerCall = 0\<rparr>),
    (''anthropic.code_execution_20260120'', \<lparr>up_Provider = ''anthropic'', up_ServiceName = ''Anthropic Code Execution'', up_NanousdPerCall = 0\<rparr>),
    (''anthropic.advisor_20260301'', \<lparr>up_Provider = ''anthropic'', up_ServiceName = ''Anthropic Advisor'', up_NanousdPerCall = 0\<rparr>),
    (''anthropic.tool_search_tool_regex_20251119'', \<lparr>up_Provider = ''anthropic'', up_ServiceName = ''Anthropic Tool Search'', up_NanousdPerCall = 0\<rparr>),
    (''anthropic.tool_search_tool_bm25_20251119'', \<lparr>up_Provider = ''anthropic'', up_ServiceName = ''Anthropic Tool Search'', up_NanousdPerCall = 0\<rparr>),
    (''xai.web_search'', \<lparr>up_Provider = ''xai'', up_ServiceName = ''xAI Web Search'', up_NanousdPerCall = 5000000\<rparr>),
    (''xai.x_search'', \<lparr>up_Provider = ''xai'', up_ServiceName = ''xAI X Search'', up_NanousdPerCall = 5000000\<rparr>),
    (''xai.code_interpreter'', \<lparr>up_Provider = ''xai'', up_ServiceName = ''xAI Code Execution'', up_NanousdPerCall = 5000000\<rparr>),
    (''xai.attachment_search'', \<lparr>up_Provider = ''xai'', up_ServiceName = ''xAI File Attachments Search'', up_NanousdPerCall = 10000000\<rparr>),
    (''xai.collections_search'', \<lparr>up_Provider = ''xai'', up_ServiceName = ''xAI Collections Search / RAG'', up_NanousdPerCall = 2500000\<rparr>),
    (''google.google_search'', \<lparr>up_Provider = ''google'', up_ServiceName = ''Google Search grounding'', up_NanousdPerCall = 0\<rparr>),
    (''google.code_execution'', \<lparr>up_Provider = ''google'', up_ServiceName = ''Google Code Execution'', up_NanousdPerCall = 0\<rparr>),
    (''google.url_context'', \<lparr>up_Provider = ''google'', up_ServiceName = ''Google URL Context'', up_NanousdPerCall = 0\<rparr>)]"

section \<open>Payloads\<close>

definition Find :: "string \<Rightarrow> string \<Rightarrow> nativetool_definition option" where
  "Find protocol toolType =
     List.find (\<lambda>d. nd_Protocol d = trim_space protocol \<and> nd_Type d = trim_space toolType) definitions"

definition nativeToolDeniedPayloadKeys :: "string list" where
  "nativeToolDeniedPayloadKeys = [''model'', ''messages'', ''input'', ''instructions'', ''prompt'', ''system'', ''systemInstruction'',
     ''headers'', ''api_key'', ''apiKey'', ''base_url'', ''baseURL'', ''stream'', ''previous_response_id'']"

definition payload_get :: "nativetool_definition \<Rightarrow> string \<Rightarrow> gojson option" where
  "payload_get d k = (case nd_Payload d of None \<Rightarrow> None | Some p \<Rightarrow> jget p k)"

text \<open>
  \<open>buildPayload\<close> on the user's map. A nil map can be read and deleted from, but merging anything into it
  is a run-time panic: \<open>None\<close>.
\<close>

definition buildPayload :: "nativetool_definition \<Rightarrow> goobj option \<Rightarrow> goobj option" where
  "buildPayload d raw =
     (case raw of
        None \<Rightarrow> (case nd_Payload d of None \<Rightarrow> Some [] | Some [] \<Rightarrow> Some [] | Some _ \<Rightarrow> None)
      | Some m0 \<Rightarrow>
        (let m1 = fold jdel nativeToolDeniedPayloadKeys m0;
             m2 = (if payload_get d ''type'' = None then jdel ''type'' m1 else m1);
             m3 = fold (\<lambda>k m. if payload_get d k = None then jdel k m else m) (nd_rawTypeFieldKeys d) m2
         in Some (mergePayload m3 (case nd_Payload d of None \<Rightarrow> [] | Some p \<Rightarrow> p))))"

definition CanonicalPayload :: "nativetool_definition \<Rightarrow> goobj option \<Rightarrow> goobj option" where
  "CanonicalPayload d raw = buildPayload d raw"

definition inferToolTypeFromRawKeys :: "string \<Rightarrow> goobj \<Rightarrow> string" where
  "inferToolTypeFromRawKeys protocol raw =
     (case List.find (\<lambda>d. nd_Protocol d = protocol \<and> list_ex (\<lambda>k. jget raw k \<noteq> None) (nd_rawTypeFieldKeys d)) definitions of
        None \<Rightarrow> [] | Some d \<Rightarrow> nd_Type d)"

definition PayloadFromOption :: "string \<Rightarrow> goobj \<Rightarrow> (nativetool_definition \<times> goobj option) option" where
  "PayloadFromOption protocol raw =
     (let given = trim_space (stringValue (jget raw ''type''));
          toolType = (if given = [] then inferToolTypeFromRawKeys protocol raw else given)
      in if toolType = [] then None
         else map_option (\<lambda>d. (d, buildPayload d (Some raw))) (Find protocol toolType))"

section \<open>Declared tools\<close>

definition first_occurrences :: "string list \<Rightarrow> string list" where
  "first_occurrences values =
     fold (\<lambda>v r. if trim_space v = [] \<or> trim_space v \<in> set r then r else r @ [trim_space v]) values []"

definition normalizeStringList :: "string list \<Rightarrow> string list" where
  "normalizeStringList values = first_occurrences values"

definition nativeToolProtocols :: "string list \<Rightarrow> string \<Rightarrow> string list" where
  "nativeToolProtocols values single = first_occurrences (values @ [single])"

definition or_text :: "string \<Rightarrow> string \<Rightarrow> string" where
  "or_text a b = (if a = [] then b else a)"

definition normalizeDefinition :: "nativetool_definition \<Rightarrow> nativetool_definition option" where
  "normalizeDefinition d0 =
     (let d1 = d0\<lparr>nd_Protocol := trim_space (nd_Protocol d0), nd_Provider := trim_space (nd_Provider d0), nd_Type := trim_space (nd_Type d0),
            nd_Key := trim_space (nd_Key d0), nd_Label := trim_space (nd_Label d0), nd_Description := trim_space (nd_Description d0),
            nd_BillingUnit := trim_space (nd_BillingUnit d0), nd_PriceLabel := trim_space (nd_PriceLabel d0),
            nd_RiskLevel := trim_space (nd_RiskLevel d0)\<rparr>;
          d = d1\<lparr>nd_Type := or_text (nd_Type d1) (trim_space (stringValue (payload_get d1 ''type'')))\<rparr>
      in if nd_Key d = [] \<or> nd_Protocol d = [] \<or> nd_Type d = [] then None
         else Some (d\<lparr>nd_Provider := or_text (nd_Provider d) ''Custom'', nd_Label := or_text (nd_Label d) (nd_Type d),
           nd_Description := or_text (nd_Description d) (nd_Type d),
           nd_Payload := (case nd_Payload d of None \<Rightarrow> Some [(''type'', JStr (nd_Type d))] | Some p \<Rightarrow> Some p),
           nd_BillingUnit := or_text (nd_BillingUnit d) ''call'', nd_UsageAliases := normalizeStringList (nd_UsageAliases d)\<rparr>))"

definition definitionIdentity :: "nativetool_definition \<Rightarrow> string" where
  "definitionIdentity d = trim_space (nd_Protocol d) @ [CHR 0x00] @ trim_space (nd_Key d) @ [CHR 0x00] @ trim_space (nd_Type d)"

definition MergeDefinitions :: "nativetool_definition list \<Rightarrow> nativetool_definition list" where
  "MergeDefinitions extra =
     fold (\<lambda>d r. case normalizeDefinition d of None \<Rightarrow> r
         | Some n \<Rightarrow> if definitionIdentity n \<in> definitionIdentity ` set r then r else r @ [n]) extra definitions"

record capability_item =
  ci_Key :: string
  ci_ToolKey :: string
  ci_Protocol :: string
  ci_Protocols :: "string list"
  ci_Provider :: string
  ci_Type :: string
  ci_Label :: string
  ci_Description :: string
  ci_Payload :: "goobj option"
  ci_DefaultEnabled :: bool
  ci_Billable :: bool
  ci_BillingUnit :: string
  ci_PriceNanousd :: int
  ci_PriceLabel :: string
  ci_RiskLevel :: string
  ci_UsageAliases :: "string list"
  ci_Enabled :: "bool option"

text \<open>The argument \<open>decode\<close> is \<open>json.Unmarshal\<close> of the capabilities, \<open>None\<close> for its error.\<close>

definition DefinitionsFromCapabilitiesJSON :: "(string \<Rightarrow> capability_item list option) \<Rightarrow> string \<Rightarrow> nativetool_definition list" where
  "DefinitionsFromCapabilitiesJSON decode raw =
     (if trim_space raw = [] then []
      else case decode (trim_space raw) of None \<Rightarrow> []
        | Some items \<Rightarrow>
          concat (map (\<lambda>i. if ci_Enabled i = Some False then []
            else (let key = or_text (trim_space (ci_Key i)) (trim_space (ci_ToolKey i))
              in List.map_filter (\<lambda>p. normalizeDefinition \<lparr>nd_Protocol = p, nd_Provider = ci_Provider i, nd_Type = ci_Type i, nd_Key = key,
                   nd_Label = ci_Label i, nd_Description = ci_Description i, nd_Payload = ci_Payload i,
                   nd_DefaultEnabled = ci_DefaultEnabled i, nd_Billable = ci_Billable i, nd_BillingUnit = ci_BillingUnit i,
                   nd_PriceNanousd = ci_PriceNanousd i, nd_PriceLabel = ci_PriceLabel i, nd_RiskLevel = ci_RiskLevel i,
                   nd_UsageAliases = ci_UsageAliases i, nd_rawTypeFieldKeys = []\<rparr>)
                 (nativeToolProtocols (ci_Protocols i) (ci_Protocol i)))) items))"

section \<open>Prices\<close>

definition UsagePricingKey :: "string \<Rightarrow> string \<Rightarrow> string option" where
  "UsagePricingKey protocol0 toolName =
     (let protocol = trim_space protocol0; tool = trim_space toolName in
      if protocol = ''anthropic_messages'' then
        map_of [(''web_search'', ''anthropic.web_search_20260209''), (''web_fetch'', ''anthropic.web_fetch_20260209''),
          (''code_execution'', ''anthropic.code_execution_20260120''), (''advisor'', ''anthropic.advisor_20260301''),
          (''tool_search_tool_regex'', ''anthropic.tool_search_tool_regex_20251119''),
          (''tool_search_tool_bm25'', ''anthropic.tool_search_tool_bm25_20251119'')] tool
      else if protocol = ''openai_responses'' \<or> protocol = ''openai_chat_completions'' then
        map_of [(''web_search'', ''openai.web_search''), (''web_search_preview'', ''openai.web_search_preview''), (''shell'', ''openai.shell''),
          (''image_generation'', ''openai.image_generation''), (''code_interpreter'', ''openai.code_interpreter'')] tool
      else if protocol = ''xai_responses'' then
        map_of [(''web_search'', ''xai.web_search''), (''x_search'', ''xai.x_search''), (''code_interpreter'', ''xai.code_interpreter''),
          (''code_execution'', ''xai.code_interpreter''), (''attachment_search'', ''xai.attachment_search''),
          (''file_attachment_search'', ''xai.attachment_search''), (''file_search'', ''xai.collections_search''),
          (''collection_search'', ''xai.collections_search''), (''collections_search'', ''xai.collections_search'')] tool
      else if protocol = ''gemini_generate_content'' \<or> protocol = ''gemini_interactions'' \<or> protocol = ''google_image_generation'' then
        map_of [(''google_search'', ''google.google_search''), (''code_execution'', ''google.code_execution''),
          (''url_context'', ''google.url_context'')] tool
      else None)"

definition UsagePriceByKeyWithOverrides :: "string \<Rightarrow> (string \<rightharpoonup> PricingOverride) \<Rightarrow> UsagePrice option" where
  "UsagePriceByKeyWithOverrides key overrides =
     (case map_of usagePricesByKey (trim_space key) of None \<Rightarrow> None
      | Some price \<Rightarrow> (case overrides (trim_space key) of None \<Rightarrow> Some price
        | Some o1 \<Rightarrow> if pv_PriceNanousd o1 \<le> 0 then None else Some (price\<lparr>up_NanousdPerCall := pv_PriceNanousd o1\<rparr>)))"

definition nativeToolUsageNameMatches :: "nativetool_definition \<Rightarrow> string \<Rightarrow> bool" where
  "nativeToolUsageNameMatches d toolName \<longleftrightarrow>
     trim_space (nd_Type d) = toolName \<or> trim_space (stringValue (payload_get d ''type'')) = toolName \<or>
     list_ex (\<lambda>a. trim_space a = toolName) (nd_UsageAliases d)"

definition FindUsageDefinition :: "string \<Rightarrow> string \<Rightarrow> nativetool_definition list \<Rightarrow> nativetool_definition option" where
  "FindUsageDefinition protocol0 toolName0 items =
     (let protocol = trim_space protocol0; toolName = trim_space toolName0 in
      if protocol = [] \<or> toolName = [] then None
      else (case List.find (\<lambda>d. trim_space (nd_Protocol d) = protocol \<and> nativeToolUsageNameMatches d toolName \<and> normalizeDefinition d \<noteq> None) items of
          None \<Rightarrow> None | Some d \<Rightarrow> normalizeDefinition d))"

definition nativeToolServiceName :: "nativetool_definition \<Rightarrow> string" where
  "nativeToolServiceName d =
     (let provider = trim_space (nd_Provider d); label = or_text (trim_space (nd_Label d)) (trim_space (nd_Type d)) in
      if provider = [] then label else if label = [] then provider else provider @ '' '' @ label)"

definition usagePriceFromDefinitionWithOverrides :: "nativetool_definition \<Rightarrow> (string \<rightharpoonup> PricingOverride) \<Rightarrow> UsagePrice option" where
  "usagePriceFromDefinitionWithOverrides d overrides =
     (let key = trim_space (nd_Key d) in
      if key = [] then None
      else (let p = \<lparr>up_Provider = or_text (to_lower (trim_space (nd_Provider d))) ''custom'', up_ServiceName = nativeToolServiceName d,
                     up_NanousdPerCall = nd_PriceNanousd d\<rparr>
            in case overrides key of
                 Some o1 \<Rightarrow> if pv_PriceNanousd o1 \<le> 0 then None else Some (p\<lparr>up_NanousdPerCall := pv_PriceNanousd o1\<rparr>)
               | None \<Rightarrow> if up_NanousdPerCall p \<le> 0 then None else Some p))"

definition UsagePriceForToolWithOverrides ::
  "string \<Rightarrow> string \<Rightarrow> nativetool_definition list \<Rightarrow> (string \<rightharpoonup> PricingOverride) \<Rightarrow> UsagePrice option" where
  "UsagePriceForToolWithOverrides protocol toolName items overrides =
     (case UsagePricingKey protocol toolName of
        Some key \<Rightarrow> UsagePriceByKeyWithOverrides key overrides
      | None \<Rightarrow> (case FindUsageDefinition protocol toolName items of None \<Rightarrow> None
          | Some d \<Rightarrow> usagePriceFromDefinitionWithOverrides d overrides))"

section \<open>Overrides\<close>

text \<open>The first definition of a key gives its display entry.\<close>

definition PricingDefinitionsFromDefinitions :: "nativetool_definition list \<Rightarrow> PricingDefinition list" where
  "PricingDefinitionsFromDefinitions items =
     fold (\<lambda>d r. if trim_space (nd_Key d) = [] \<or> trim_space (nd_Key d) \<in> pd_ToolKey ` set r then r
       else r @ [\<lparr>pd_Provider = trim_space (nd_Provider d), pd_ToolKey = trim_space (nd_Key d), pd_Label = trim_space (nd_Label d),
         pd_Description = trim_space (nd_Description d), pd_Type = trim_space (nd_Type d), pd_PriceNanousd = nd_PriceNanousd d,
         pd_Unit = or_text (trim_space (nd_BillingUnit d)) ''call'', pd_PriceLabel = trim_space (nd_PriceLabel d),
         pd_Billable = (nd_Billable d \<or> 0 < nd_PriceNanousd d)\<rparr>]) items []"

definition PricingOverridesFromDefinitions :: "PricingDefinition list \<Rightarrow> (string \<rightharpoonup> PricingOverride)" where
  "PricingOverridesFromDefinitions items =
     fold (\<lambda>i m. if trim_space (pd_ToolKey i) = [] then m
       else m(trim_space (pd_ToolKey i) \<mapsto> \<lparr>pv_PriceNanousd = pd_PriceNanousd i, pv_Unit = trim_space (pd_Unit i), pv_PriceLabel = [],
         pv_Billable = (0 < pd_PriceNanousd i)\<rparr>)) items Map.empty"

text \<open>The overrides of the document come as a map, in some order; an error is \<open>None\<close>.\<close>

fun normalize_overrides :: "(string \<rightharpoonup> PricingOverride) \<Rightarrow> (string \<times> PricingOverride) list \<Rightarrow> (string \<rightharpoonup> PricingOverride) \<Rightarrow> (string \<rightharpoonup> PricingOverride) option" where
  "normalize_overrides defaults [] result = Some result"
| "normalize_overrides defaults ((key0, o0) # rest) result =
     (case defaults (trim_space key0) of None \<Rightarrow> None
      | Some d \<Rightarrow>
        if pv_PriceNanousd o0 < 0 then None
        else (let o1 = \<lparr>pv_PriceNanousd = pv_PriceNanousd o0, pv_Unit = or_text (trim_space (pv_Unit d)) ''call'', pv_PriceLabel = [],
                        pv_Billable = (0 < pv_PriceNanousd o0)\<rparr>
          in if 32 < length (utf8_runes (pv_Unit o1)) \<or> 64 < length (utf8_runes (pv_PriceLabel o1)) then None
             else normalize_overrides defaults rest (result(trim_space key0 \<mapsto> o1))))"

definition normalizePricingOverrides ::
  "(string \<times> PricingOverride) list \<Rightarrow> nativetool_definition list \<Rightarrow> (string \<rightharpoonup> PricingOverride) option" where
  "normalizePricingOverrides overrides items =
     normalize_overrides (PricingOverridesFromDefinitions (PricingDefinitionsFromDefinitions items)) overrides Map.empty"

definition ParsePricingOverridesJSONForDefinitions ::
  "(string \<Rightarrow> (string \<times> PricingOverride) list option) \<Rightarrow> string \<Rightarrow> nativetool_definition list \<Rightarrow> (string \<rightharpoonup> PricingOverride) option" where
  "ParsePricingOverridesJSONForDefinitions decode raw items =
     (if trim_space raw = [] then Some Map.empty
      else case decode (trim_space raw) of None \<Rightarrow> None | Some parsed \<Rightarrow> normalizePricingOverrides parsed items)"

definition pricingOverrideEqual :: "PricingOverride \<Rightarrow> PricingOverride \<Rightarrow> bool" where
  "pricingOverrideEqual l r \<longleftrightarrow> pv_PriceNanousd l = pv_PriceNanousd r \<and> trim_space (pv_Unit l) = trim_space (pv_Unit r) \<and>
     trim_space (pv_PriceLabel l) = trim_space (pv_PriceLabel r) \<and> pv_Billable l = pv_Billable r"

text \<open>The loop over the overrides looks at the keys the document has, trimmed.\<close>

definition PricingOverridesUseDefaultsForDefinitions ::
  "(string \<Rightarrow> (string \<times> PricingOverride) list option) \<Rightarrow> string \<Rightarrow> nativetool_definition list \<Rightarrow> bool" where
  "PricingOverridesUseDefaultsForDefinitions decode raw items =
     (if trim_space raw = [] then True
      else case decode (trim_space raw) of None \<Rightarrow> True
        | Some parsed \<Rightarrow> (case normalizePricingOverrides parsed items of None \<Rightarrow> True
          | Some overrides \<Rightarrow>
            (let defaults = PricingOverridesFromDefinitions (PricingDefinitionsFromDefinitions items)
             in list_all (\<lambda>(key, _). case overrides (trim_space key) of None \<Rightarrow> True
                  | Some o1 \<Rightarrow> (case defaults (trim_space key) of None \<Rightarrow> False | Some d \<Rightarrow> pricingOverrideEqual o1 d)) parsed)))"

definition PricingDefinitionsWithOverridesFromDefinitions ::
  "(string \<Rightarrow> (string \<times> PricingOverride) list option) \<Rightarrow> string \<Rightarrow> nativetool_definition list \<Rightarrow> PricingDefinition list" where
  "PricingDefinitionsWithOverridesFromDefinitions decode raw items =
     (case ParsePricingOverridesJSONForDefinitions decode raw items of None \<Rightarrow> PricingDefinitionsFromDefinitions items
      | Some overrides \<Rightarrow>
        map (\<lambda>i. case overrides (pd_ToolKey i) of None \<Rightarrow> i
          | Some o1 \<Rightarrow> i\<lparr>pd_PriceNanousd := pv_PriceNanousd o1, pd_Unit := pv_Unit o1, pd_PriceLabel := pv_PriceLabel o1, pd_Billable := pv_Billable o1\<rparr>)
          (PricingDefinitionsFromDefinitions items))"

section \<open>The payload keeps its identity\<close>

lemma get_fold_del: "jget (fold jdel ks m) i = (if i \<in> set ks then None else jget m i)"
  by (induction ks arbitrary: m) (auto simp: jget_del)

lemma get_fold_del_if: "jget (fold (\<lambda>k m. if c k then jdel k m else m) ks m) i = (if i \<in> set ks \<and> c i then None else jget m i)"
  by (induction ks arbitrary: m) (auto simp: jget_del)

definition catalogue_ok :: "nativetool_definition \<Rightarrow> bool" where
  "catalogue_ok d \<longleftrightarrow> (case nd_Payload d of None \<Rightarrow> False
     | Some p \<Rightarrow> p \<noteq> [] \<and> distinct (map fst p) \<and> list_all (\<lambda>k. k \<notin> set (map fst p)) nativeToolDeniedPayloadKeys)"

lemma catalogue: "list_all catalogue_ok definitions"
proof -
  have "list_all catalogue_ok openai_definitions" "list_all catalogue_ok anthropic_definitions"
    "list_all catalogue_ok xai_definitions" "list_all catalogue_ok google_definitions" by code_simp+
  then show ?thesis by (simp add: definitions_def)
qed

lemma built_payload:
  assumes "d \<in> set definitions"
  obtains p q where "nd_Payload d = Some p" and "buildPayload d (Some raw) = Some q"
    and "\<And>k. k \<in> set nativeToolDeniedPayloadKeys \<Longrightarrow> jget q k = None"
    and "\<And>k v. (k, v) \<in> set p \<Longrightarrow> (\<forall>s. v \<noteq> JObj s) \<Longrightarrow> jget q k = Some v"
    and "\<And>k. k \<notin> fst ` set p \<Longrightarrow> (k = ''type'' \<or> k \<in> set (nd_rawTypeFieldKeys d)) \<Longrightarrow> jget q k = None"
proof -
  obtain p where p: "nd_Payload d = Some p" "distinct (map fst p)" "\<forall>k \<in> set nativeToolDeniedPayloadKeys. k \<notin> fst ` set p"
    using catalogue assms by (auto simp: list_all_iff catalogue_ok_def split: option.splits)
  define m2 where m2: "m2 = (if payload_get d ''type'' = None then jdel ''type'' (fold jdel nativeToolDeniedPayloadKeys raw)
      else fold jdel nativeToolDeniedPayloadKeys raw)"
  define m3 where m3: "m3 = fold (\<lambda>k m. if payload_get d k = None then jdel k m else m) (nd_rawTypeFieldKeys d) m2"
  have q: "buildPayload d (Some raw) = Some (mergePayload m3 p)"
    by (simp add: buildPayload_def Let_def m2 m3 p)
  have none: "payload_get d k = None \<longleftrightarrow> k \<notin> fst ` set p" for k
    by (simp add: payload_get_def p jget_def map_of_eq_None_iff)
  have get3: "jget m3 k = (if k \<in> set (nd_rawTypeFieldKeys d) \<and> payload_get d k = None \<or> k = ''type'' \<and> payload_get d ''type'' = None
      \<or> k \<in> set nativeToolDeniedPayloadKeys then None else jget raw k)" for k
    by (auto simp: m3 m2 get_fold_del_if get_fold_del jget_del)
  show thesis
  proof (rule that [OF p(1) q])
    fix k assume "k \<in> set nativeToolDeniedPayloadKeys"
    then show "jget (mergePayload m3 p) k = None" using p(3) by (simp add: merge_other get3)
  next
    fix k v assume "(k, v) \<in> set p" "\<forall>s. v \<noteq> JObj s"
    then show "jget (mergePayload m3 p) k = Some v" using p(2) by (intro merge_scalar) auto
  next
    fix k assume "k \<notin> fst ` set p" "k = ''type'' \<or> k \<in> set (nd_rawTypeFieldKeys d)"
    then show "jget (mergePayload m3 p) k = None" using none [of k] by (auto simp: merge_other get3)
  qed
qed



text \<open>A nil map cannot take the catalogue's fields: an entry without a payload is a run-time panic.\<close>

lemma nil_payload_panics: "d \<in> set definitions \<Longrightarrow> CanonicalPayload d None = None"
  using catalogue by (auto simp: list_all_iff catalogue_ok_def CanonicalPayload_def buildPayload_def split: option.splits list.splits)

section \<open>Prices agree\<close>

definition priced_like :: "nativetool_definition \<Rightarrow> string \<Rightarrow> bool" where
  "priced_like d key \<longleftrightarrow> (case map_of usagePricesByKey key of None \<Rightarrow> False | Some p \<Rightarrow> up_NanousdPerCall p = nd_PriceNanousd d)"

definition price_agrees :: "nativetool_definition \<Rightarrow> bool" where
  "price_agrees d \<longleftrightarrow> priced_like d (nd_Key d) \<and>
     list_all (\<lambda>a. case UsagePricingKey (nd_Protocol d) a of None \<Rightarrow> False | Some k \<Rightarrow> priced_like d k) (nd_UsageAliases d)"

lemma usage_keys: "UsagePricingKey protocol tool = Some key \<Longrightarrow> key \<in> set (map fst usagePricesByKey)"
  by (auto simp: UsagePricingKey_def Let_def usagePricesByKey_def split: if_splits)

text \<open>@C:Native_Tools.usage_prices_known@
  No metered call goes unpriced by accident: every pricing key that a protocol's usage report can map to
  is in the price table, and for every tool of the catalogue, the price shown to the administrator is the
  price that its own key and every name it is reported under are billed at.
\<close>

lemma usage_prices_known:
  "(\<forall>protocol tool key. UsagePricingKey protocol tool = Some key \<longrightarrow> map_of usagePricesByKey key \<noteq> None) \<and>
   list_all price_agrees definitions"
proof -
  have "list_all price_agrees openai_definitions" "list_all price_agrees anthropic_definitions"
    "list_all price_agrees xai_definitions" "list_all price_agrees google_definitions" by code_simp+
  then show ?thesis using usage_keys by (auto simp: definitions_def map_of_eq_None_iff)
qed

theorem usage_prices_known_witness:
  "map_of usagePricesByKey ''xai.collections_search'' \<noteq> None"
proof -
  have "UsagePricingKey ''xai_responses'' ''file_search'' = Some ''xai.collections_search''" by code_simp
  then show ?thesis using usage_prices_known by blast
qed

end
