(* ===== verification/Billing_Ledger.thy ===== *)
theory Billing_Ledger
  imports Billing_Schedule Billing_Entitlements Native_Tools
begin

text \<open>
  The bill of a call (\<open>application/billing/service.go\<close>): what a call is estimated to cost before it is made
  (\<open>EstimateUsageNanousd\<close>), and the ledger entry that its usage gives (\<open>BuildUsageLedger\<close>), with its items for
  auxiliary models, provider tools and MCP tools and the snapshot of everything that went into the price.
\<close>

text \<open>Errors of the billing service; those of the repository are passed on as they are.\<close>

datatype billing_error =
    FromRepo repo_error
  | ErrModelPricingRequired | ErrPeriodCreditExceeded | ErrPaymentRequired | ErrUsageBalanceInsufficient
  | ErrUsageReservationConflict | ErrUsageConcurrencyLimitExceeded | ErrInvalidSubscriptionTier
  | ErrSubscriptionExpiryRequired | ErrInvalidSubscriptionExpiry | ErrInvalidBillingPlan | ErrBillingPlanNotFound
  | ErrInvalidPermissionGroup | ErrPermissionGroupReferenceCounterUnavailable | ErrSubscriptionEntitlementActive
  | ErrInvalidPaymentOrder | ErrPaymentOrderNotFound | ErrPaymentOrderStateInvalid | ErrInvalidBillingAccountBalance
  | ErrInvalidModelPricing | ErrSubscribeFailed | ErrPaymentProviderUnavailable

definition and_then :: "'e + 'a \<Rightarrow> ('a \<Rightarrow> 'e + 'b) \<Rightarrow> 'e + 'b" where
  "and_then r f = (case r of Inl e \<Rightarrow> Inl e | Inr x \<Rightarrow> f x)"

lemma and_then_simps [simp]: "and_then (Inl e) f = Inl e" "and_then (Inr x) f = f x"
  by (simp_all add: and_then_def)

lemma and_then_Inr: "and_then r f = Inr y \<longleftrightarrow> (\<exists>x. r = Inr x \<and> f x = Inr y)"
  by (cases r) simp_all

definition from_repo :: "repo_error + 'a \<Rightarrow> billing_error + 'a" where
  "from_repo r = map_sum FromRepo id r"

lemma from_repo_simps [simp]: "from_repo (Inl e) = Inl (FromRepo e)" "from_repo (Inr x) = Inr x"
  by (simp_all add: from_repo_def)

lemma from_repo_Inr: "from_repo r = Inr x \<longleftrightarrow> r = Inr x"
  by (cases r) simp_all

text \<open>\<open>err != nil && !errors.Is(err, ErrNotFound)\<close> stops; a row that is not found goes on as nil.\<close>

definition found_or_nil :: "repo_error + 'a \<Rightarrow> billing_error + 'a option" where
  "found_or_nil r = (case r of Inl e \<Rightarrow> if e = ErrNotFound then Inr None else Inl (FromRepo e) | Inr x \<Rightarrow> Inr (Some x))"

section \<open>What the service asks others\<close>

record PlatformModelIdentity =
  pi_PlatformModelID :: nat
  pi_PlatformModelName :: string
  pi_ModelVendor :: string
  pi_ModelIcon :: string

datatype resolver_error = ResolverModelNotFound | ResolverError repo_error

text \<open>
  The service's collaborators, the rows it reads with the faults of reading them, the codecs, and the clock.
  \<open>'f\<close> are the floats of the tier configuration, \<open>le_usd\<close> is \<open>usdToNanousd\<close> and \<open>le_float\<close> the quotient of two
  integers as a \<open>float64\<close> in JSON.
\<close>

record 'f ledger_env =
  le_now :: gotime
  le_loc :: location
  le_upper :: "string \<Rightarrow> string"
  le_settings :: system_settings
  le_prices :: pricing_db
  le_db :: billing_db
  le_mode_fault :: "repo_error option"
  le_price_fault :: "string \<Rightarrow> repo_error option"
  le_enabled_fault :: "repo_error option"
  le_json_fault :: "repo_error option"
  le_query_faults :: query_faults
  le_identity :: "(string \<Rightarrow> resolver_error + PlatformModelIdentity) option"
  le_group_rate :: "(nat \<Rightarrow> nat \<Rightarrow> nat list \<Rightarrow> repo_error + int) option"
  le_catalog :: "(repo_error + nativetool_definition list) option"
  le_usd :: "'f \<Rightarrow> int"
  le_zero :: 'f
  le_tiers :: "string \<Rightarrow> repo_error + 'f tieredPricingTier list"
  le_periods :: "string \<Rightarrow> schedulePeriod list option"
  le_overrides :: "string \<Rightarrow> (string \<times> PricingOverride) list option"
  le_usage_json :: "string \<Rightarrow> gojson option"
  le_marshal :: "goobj \<Rightarrow> string option"
  le_float :: "int \<times> int \<Rightarrow> gojson"

definition resolveGroupRatePercent :: "'f ledger_env \<Rightarrow> nat \<Rightarrow> nat \<Rightarrow> nat option \<Rightarrow> repo_error + int" where
  "resolveGroupRatePercent env userID platformModelID subscriptionGroupID =
     (case le_group_rate env of None \<Rightarrow> Inr 100
      | Some rate \<Rightarrow> if userID = 0 then Inr 100
          else rate userID platformModelID (case subscriptionGroupID of None \<Rightarrow> [] | Some g \<Rightarrow> [g]))"

definition no_identity :: PlatformModelIdentity where
  "no_identity = \<lparr>pi_PlatformModelID = 0, pi_PlatformModelName = [], pi_ModelVendor = [], pi_ModelIcon = []\<rparr>"

definition resolvePlatformModelIdentity :: "'f ledger_env \<Rightarrow> string \<Rightarrow> repo_error + PlatformModelIdentity" where
  "resolvePlatformModelIdentity env platformModelName =
     (let name = trim_space platformModelName in
      if name = [] then Inl ErrNotFound
      else case le_identity env of
          None \<Rightarrow> Inr (no_identity\<lparr>pi_PlatformModelName := name\<rparr>)
        | Some resolve \<Rightarrow>
          (case resolve name of
             Inl ResolverModelNotFound \<Rightarrow> Inl ErrNotFound
           | Inl (ResolverError e) \<Rightarrow> Inl e
           | Inr i \<Rightarrow> Inr (i\<lparr>pi_PlatformModelName := or_text (trim_space (pi_PlatformModelName i)) name\<rparr>)))"

definition getResolvedModelPricing :: "'f ledger_env \<Rightarrow> string \<Rightarrow> repo_error + model_pricing" where
  "getResolvedModelPricing env platformModelName =
     and_then (resolvePlatformModelIdentity env platformModelName)
       (\<lambda>i. let name = trim_space (pi_PlatformModelName i) in
          if name = [] then Inl ErrNotFound else GetModelPricing (le_price_fault env name) name (le_prices env))"

text \<open>The group of the user's current plan, which can carry a rate of its own.\<close>

definition subscription_group :: "'f ledger_env \<Rightarrow> nat \<Rightarrow> repo_error + nat option" where
  "subscription_group env userID =
     and_then (GetCurrentSubscriptionSnapshot (le_upper env) (le_query_faults env) userID (le_now env) (le_db env))
       (\<lambda>snap. Inr (case snap of None \<Rightarrow> None | Some s \<Rightarrow> us_PermissionGroupID s))"

section \<open>Rates of a call\<close>

text \<open>The six token rates of a call; the two that fix the cache timeout price the parts of a cache write.\<close>

record token_rates =
  tr_input :: int
  tr_cacheRead :: int
  tr_cacheWrite :: int
  tr_cacheWrite5m :: int
  tr_cacheWrite1h :: int
  tr_output :: int

definition no_rates :: token_rates where
  "no_rates = \<lparr>tr_input = 0, tr_cacheRead = 0, tr_cacheWrite = 0, tr_cacheWrite5m = 0, tr_cacheWrite1h = 0, tr_output = 0\<rparr>"

definition configured_rates :: "int \<Rightarrow> int \<Rightarrow> int \<Rightarrow> int \<Rightarrow> string \<Rightarrow> string \<Rightarrow> string \<Rightarrow> token_rates" where
  "configured_rates inputRate readRate writeRate outputRate basis protocol timeout =
     \<lparr>tr_input = inputRate, tr_cacheRead = readRate,
      tr_cacheWrite = resolveCacheWriteNanousdPerMTokens writeRate basis protocol timeout,
      tr_cacheWrite5m = resolveCacheWriteNanousdPerMTokens writeRate basis protocol ''5m'',
      tr_cacheWrite1h = resolveCacheWriteNanousdPerMTokens writeRate basis protocol ''1h'', tr_output = outputRate\<rparr>"

definition model_rates :: "model_pricing \<Rightarrow> string \<Rightarrow> string \<Rightarrow> token_rates" where
  "model_rates p protocol timeout =
     configured_rates (mp_InputNanousdPerMTokens p) (mp_CacheReadNanousdPerMTokens p) (mp_CacheWriteNanousdPerMTokens p)
       (mp_OutputNanousdPerMTokens p) (mp_CacheWritePriceBasis p) protocol timeout"

definition tierCacheReadRate :: "'f tieredPricingTier \<Rightarrow> int" where
  "tierCacheReadRate t = cacheReadNanousdPerMTokens t"

definition tierCacheWriteRate :: "'f tieredPricingTier \<Rightarrow> int" where
  "tierCacheWriteRate t = cacheWriteNanousdPerMTokens t"

definition tier_rates :: "'f tieredPricingTier \<Rightarrow> string \<Rightarrow> string \<Rightarrow> string \<Rightarrow> token_rates" where
  "tier_rates t basis protocol timeout =
     configured_rates (inputNanousdPerMTokens t) (tierCacheReadRate t) (tierCacheWriteRate t) (outputNanousdPerMTokens t)
       basis protocol timeout"

definition multiplied :: "billingRateMultiplier \<Rightarrow> token_rates \<Rightarrow> token_rates" where
  "multiplied m r = \<lparr>tr_input = applyRateMultiplier (tr_input r) m, tr_cacheRead = applyRateMultiplier (tr_cacheRead r) m,
     tr_cacheWrite = applyRateMultiplier (tr_cacheWrite r) m, tr_cacheWrite5m = applyRateMultiplier (tr_cacheWrite5m r) m,
     tr_cacheWrite1h = applyRateMultiplier (tr_cacheWrite1h r) m, tr_output = applyRateMultiplier (tr_output r) m\<rparr>"

definition zero_tier :: "'f \<Rightarrow> 'f tieredPricingTier" where
  "zero_tier z = \<lparr>UpToTokens = 0, InputUSDPerMTokens = z, CacheReadUSDPerMTokens = z, CacheWriteUSDPerMTokens = z,
     OutputUSDPerMTokens = z, inputNanousdPerMTokens = 0, cacheReadNanousdPerMTokens = 0, cacheWriteNanousdPerMTokens = 0,
     outputNanousdPerMTokens = 0\<rparr>"

text \<open>The four amounts of the tokens of a call.\<close>

record token_bill =
  tb_input :: int
  tb_cacheRead :: int
  tb_cacheWrite :: int
  tb_output :: int

definition no_bill :: token_bill where
  "no_bill = \<lparr>tb_input = 0, tb_cacheRead = 0, tb_cacheWrite = 0, tb_output = 0\<rparr>"

definition bill_tokens :: "int \<Rightarrow> int \<Rightarrow> int \<times> int \<times> int \<Rightarrow> int \<Rightarrow> token_rates \<Rightarrow> token_bill" where
  "bill_tokens inputTokens readTokens writes outputTokens r =
     (case writes of (writeTokens, fiveTokens, hourTokens) \<Rightarrow>
        \<lparr>tb_input = calcNanousdByToken inputTokens (tr_input r), tb_cacheRead = calcNanousdByToken readTokens (tr_cacheRead r),
         tb_cacheWrite = calcCacheWriteBilledNanousd writeTokens fiveTokens hourTokens (tr_cacheWrite r) (tr_cacheWrite5m r) (tr_cacheWrite1h r),
         tb_output = calcNanousdByToken outputTokens (tr_output r)\<rparr>)"

definition at_least_one :: "int \<Rightarrow> int" where "at_least_one n = (if n \<le> 0 then 1 else n)"

section \<open>The estimate\<close>

record UsageEstimateInput =
  ue_PlatformModelName :: string
  ue_ProviderProtocol :: string
  ue_UpstreamModelName :: string
  ue_CacheTimeout :: string
  ue_RequestSpeed :: string
  ue_RequestServiceTier :: string
  ue_InputTokens :: int
  ue_CacheReadTokens :: int
  ue_CacheWriteTokens :: int
  ue_OutputTokens :: int
  ue_CallCount :: int
  ue_DurationSeconds :: int

definition calcEstimatedTokenNanousd :: "UsageEstimateInput \<Rightarrow> token_rates \<Rightarrow> billingRateMultiplier \<Rightarrow> int" where
  "calcEstimatedTokenNanousd inp rates m =
     add64 (add64 (add64 (calcNanousdByToken (clampNonNegative (ue_InputTokens inp)) (applyRateMultiplier (tr_input rates) m))
       (calcNanousdByToken (clampNonNegative (ue_CacheReadTokens inp)) (applyRateMultiplier (tr_cacheRead rates) m)))
       (calcNanousdByToken (clampNonNegative (ue_CacheWriteTokens inp)) (applyRateMultiplier (tr_cacheWrite rates) m)))
       (calcNanousdByToken (clampNonNegative (ue_OutputTokens inp)) (applyRateMultiplier (tr_output rates) m))"

text \<open>The multiplier of a call: speed and service tier, then the user's group, then the time of day.\<close>

definition scheduled_multiplier :: "'f ledger_env \<Rightarrow> model_pricing \<Rightarrow> gotime \<Rightarrow> billingRateMultiplier \<Rightarrow> billingRateMultiplier" where
  "scheduled_multiplier env p t m =
     (case resolveSchedulePeriodJSON (le_loc env) (le_periods env) (mp_SchedulePricingJSON p) t of
        None \<Rightarrow> m | Some s \<Rightarrow> composeRatePercent m (rs_RatePercent s))"

definition estimate_of :: "'f ledger_env \<Rightarrow> UsageEstimateInput \<Rightarrow> model_pricing \<Rightarrow> billingRateMultiplier \<Rightarrow> billing_error + int" where
  "estimate_of env inp p m =
     (let protocol = trim_space (ue_ProviderProtocol inp); mode = NormalizePricingMode (mp_PricingMode p) in
      if mode = ''call'' then
        Inr (mul64 (at_least_one (ue_CallCount inp)) (applyRateMultiplier (mp_CallNanousdPerCall p) m))
      else if mode = ''duration'' then
        Inr (mul64 (clampNonNegative (ue_DurationSeconds inp)) (applyRateMultiplier (mp_DurationNanousdPerSecond p) m))
      else if mode = ''tiered'' then
        and_then (from_repo (parseTieredPricingTiers (le_usd env) (le_tiers env) (mp_TieredPricingJSON p)))
          (\<lambda>tiers. let n = tieredPricingInputTokens (ue_InputTokens inp) (ue_CacheReadTokens inp) (ue_CacheWriteTokens inp);
               tier = rt_tier (resolveTieredPricingTier (zero_tier (le_zero env)) n tiers)
            in Inr (calcEstimatedTokenNanousd inp (tier_rates tier (mp_CacheWritePriceBasis p) protocol (ue_CacheTimeout inp)) m))
      else Inr (calcEstimatedTokenNanousd inp (model_rates p protocol (ue_CacheTimeout inp)) m))"

definition EstimateUsageNanousd :: "'f ledger_env \<Rightarrow> nat \<Rightarrow> UsageEstimateInput \<Rightarrow> billing_error + int" where
  "EstimateUsageNanousd env userID inp =
     (let name = trim_space (ue_PlatformModelName inp); protocol = trim_space (ue_ProviderProtocol inp) in
      and_then (found_or_nil (resolvePlatformModelIdentity env name)) (\<lambda>identity.
      and_then (found_or_nil (getResolvedModelPricing env name)) (\<lambda>pricing.
        case pricing of None \<Rightarrow> Inr 0
        | Some p \<Rightarrow>
          if mp_IsFree p then Inr 0
          else (let m0 = resolveUsageRateMultiplier protocol name (ue_UpstreamModelName inp)
                      (isAnthropicFastMode protocol [] (normalizeUsageSpeed (ue_RequestSpeed inp)))
                      (resolveBillingServiceTier protocol (normalizeOpenAIServiceTier (ue_RequestServiceTier inp)))
            in and_then (from_repo (subscription_group env userID)) (\<lambda>planGroup.
               and_then (from_repo (resolveGroupRatePercent env userID
                   (case identity of None \<Rightarrow> 0 | Some i \<Rightarrow> pi_PlatformModelID i) planGroup)) (\<lambda>percent.
                 estimate_of env inp p (scheduled_multiplier env p (le_now env) (composeRatePercent m0 percent))))))))"

section \<open>Inputs of a ledger entry\<close>

record usage_authorization =
  ua_Mode :: string
  ua_RefNo :: string
  ua_Reservation :: "usage_reservation option"

record MCPToolUsageInput =
  mi_ServerID :: nat
  mi_ServerName :: string
  mi_ToolName :: string
  mi_CallCount :: int
  mi_PriceNanousd :: int

record ServiceUsageInput =
  si_ServiceCode :: string
  si_ServiceName :: string
  si_PlatformModelName :: string
  si_UpstreamModelName :: string
  si_ProviderProtocol :: string
  si_CacheTimeout :: string
  si_RequestSpeed :: string
  si_UsageSpeed :: string
  si_RequestServiceTier :: string
  si_UsageServiceTier :: string
  si_InputTokens :: int
  si_CacheReadTokens :: int
  si_CacheWriteTokens :: int
  si_CacheWrite5mTokens :: int
  si_CacheWrite1hTokens :: int
  si_OutputTokens :: int
  si_ReasoningTokens :: int
  si_CallCount :: int

record UsagePricingInput =
  ui_Authorization :: "usage_authorization option"
  ui_UserID :: nat
  ui_ConversationID :: nat
  ui_PlatformModelName :: string
  ui_RoutedBindingCode :: string
  ui_ProviderProtocol :: string
  ui_UpstreamName :: string
  ui_UpstreamModelName :: string
  ui_CacheTimeout :: string
  ui_RequestSpeed :: string
  ui_UsageSpeed :: string
  ui_RequestServiceTier :: string
  ui_UsageServiceTier :: string
  ui_UsageSource :: string
  ui_BilledReason :: string
  ui_ServiceOnly :: bool
  ui_InputTokens :: int
  ui_CacheReadTokens :: int
  ui_CacheWriteTokens :: int
  ui_CacheWrite5mTokens :: int
  ui_CacheWrite1hTokens :: int
  ui_OutputTokens :: int
  ui_ReasoningTokens :: int
  ui_CallCount :: int
  ui_DurationBillable :: bool
  ui_DurationSeconds :: int
  ui_MediaType :: string
  ui_InputImageCount :: int
  ui_LatencyMS :: int
  ui_ServerSideToolUsage :: "(string \<times> int) list"  \<comment> \<open>a map, its entries in the order of iteration\<close>
  ui_MCPToolUsage :: "MCPToolUsageInput list"
  ui_ServiceItems :: "ServiceUsageInput list"
  ui_RawUsageJSON :: string
  ui_BillingAt :: gotime

record UsageServiceItem =
  it_ServiceCode :: string
  it_ServiceName :: string
  it_PlatformModelName :: string
  it_ProviderProtocol :: string
  it_CacheTimeout :: string
  it_RequestSpeed :: string
  it_UsageSpeed :: string
  it_BillingSpeed :: string
  it_RequestServiceTier :: string
  it_UsageServiceTier :: string
  it_BillingServiceTier :: string
  it_FastMode :: bool
  it_RateMultiplier :: "int \<times> int"
  it_SchedulePeriodName :: string
  it_ScheduleRatePercent :: int
  it_PricingMode :: string
  it_InputTokens :: int
  it_CacheReadTokens :: int
  it_CacheWrites :: "int \<times> int \<times> int"  \<comment> \<open>total, five-minute and one-hour tokens\<close>
  it_OutputTokens :: int
  it_ReasoningTokens :: int
  it_CallCount :: int
  it_DurationSeconds :: int
  it_Rates :: token_rates
  it_CallNanousdPerCall :: int
  it_DurationNanousdPerSecond :: int
  it_TieredFromTokens :: int
  it_TieredUpToTokens :: "int option"
  it_Bill :: token_bill
  it_CacheWrite5mBilledNanousd :: int
  it_CacheWrite1hBilledNanousd :: int
  it_CallBilledNanousd :: int
  it_DurationBilledNanousd :: int
  it_BilledNanousd :: int

definition zero_item :: UsageServiceItem where
  "zero_item = \<lparr>it_ServiceCode = [], it_ServiceName = [], it_PlatformModelName = [], it_ProviderProtocol = [], it_CacheTimeout = [],
     it_RequestSpeed = [], it_UsageSpeed = [], it_BillingSpeed = [], it_RequestServiceTier = [], it_UsageServiceTier = [],
     it_BillingServiceTier = [], it_FastMode = False, it_RateMultiplier = (0, 1), it_SchedulePeriodName = [], it_ScheduleRatePercent = 0,
     it_PricingMode = [], it_InputTokens = 0, it_CacheReadTokens = 0, it_CacheWrites = (0, 0, 0), it_OutputTokens = 0,
     it_ReasoningTokens = 0, it_CallCount = 0, it_DurationSeconds = 0, it_Rates = no_rates, it_CallNanousdPerCall = 0,
     it_DurationNanousdPerSecond = 0, it_TieredFromTokens = 0, it_TieredUpToTokens = None, it_Bill = no_bill,
     it_CacheWrite5mBilledNanousd = 0, it_CacheWrite1hBilledNanousd = 0, it_CallBilledNanousd = 0, it_DurationBilledNanousd = 0,
     it_BilledNanousd = 0\<rparr>"

section \<open>Items of auxiliary models\<close>

definition token_total :: "token_bill \<Rightarrow> int" where
  "token_total b = add64 (add64 (add64 (tb_input b) (tb_cacheRead b)) (tb_cacheWrite b)) (tb_output b)"

text \<open>The amounts of the tokens of an item, with the recorded write rate derived from what was billed.\<close>

definition price_item_tokens :: "token_rates \<Rightarrow> UsageServiceItem \<Rightarrow> UsageServiceItem" where
  "price_item_tokens r item =
     (case it_CacheWrites item of (writes, fiveTokens, hourTokens) \<Rightarrow>
       (let b = bill_tokens (it_InputTokens item) (it_CacheReadTokens item) (it_CacheWrites item)
              (add64 (it_OutputTokens item) (it_ReasoningTokens item)) r
        in item\<lparr>it_Rates := r\<lparr>tr_cacheWrite := resolveSnapshotRateFromBilled writes (tb_cacheWrite b) (tr_cacheWrite r)\<rparr>,
             it_Bill := b, it_CacheWrite5mBilledNanousd := calcNanousdByToken fiveTokens (tr_cacheWrite5m r),
             it_CacheWrite1hBilledNanousd := calcNanousdByToken hourTokens (tr_cacheWrite1h r)\<rparr>))"

definition item_total :: "UsageServiceItem \<Rightarrow> UsageServiceItem" where
  "item_total item = item\<lparr>it_BilledNanousd :=
     add64 (add64 (token_total (it_Bill item)) (it_CallBilledNanousd item)) (it_DurationBilledNanousd item)\<rparr>"

definition price_item :: "'f ledger_env \<Rightarrow> ServiceUsageInput \<Rightarrow> model_pricing \<Rightarrow> billingRateMultiplier \<Rightarrow> UsageServiceItem \<Rightarrow> billing_error + UsageServiceItem" where
  "price_item env inp p m item0 =
     (let mode = NormalizePricingMode (mp_PricingMode p); item = item0\<lparr>it_PricingMode := mode\<rparr>;
          protocol = si_ProviderProtocol inp; timeout = si_CacheTimeout inp in
      if mode = ''call'' then
        (let rate = applyRateMultiplier (mp_CallNanousdPerCall p) m
         in Inr (item_total (item\<lparr>it_CallNanousdPerCall := rate, it_CallBilledNanousd := mul64 (it_CallCount item) rate\<rparr>)))
      else if mode = ''duration'' then
        (let rate = applyRateMultiplier (mp_DurationNanousdPerSecond p) m
         in Inr (item_total (item\<lparr>it_DurationNanousdPerSecond := rate, it_DurationBilledNanousd := mul64 (it_DurationSeconds item) rate\<rparr>)))
      else if mode = ''tiered'' then
        and_then (from_repo (parseTieredPricingTiers (le_usd env) (le_tiers env) (mp_TieredPricingJSON p)))
          (\<lambda>tiers. let n = tieredPricingInputTokens (it_InputTokens item) (it_CacheReadTokens item) (fst (it_CacheWrites item));
               resolved = resolveTieredPricingTier (zero_tier (le_zero env)) n tiers
            in Inr (item_total (price_item_tokens
                 (multiplied m (tier_rates (rt_tier resolved) (mp_CacheWritePriceBasis p) protocol timeout))
                 (item\<lparr>it_TieredFromTokens := rt_fromTokens resolved, it_TieredUpToTokens := rt_upToTokens resolved\<rparr>))))
      else Inr (item_total (price_item_tokens (multiplied m (model_rates p protocol timeout)) item)))"

definition blank_item :: "ServiceUsageInput \<Rightarrow> billingRateMultiplier \<Rightarrow> UsageServiceItem" where
  "blank_item inp m =
     (let usageSpeed = normalizeUsageSpeed (si_UsageSpeed inp); requestSpeed = normalizeUsageSpeed (si_RequestSpeed inp);
          requestTier = normalizeOpenAIServiceTier (si_RequestServiceTier inp); usageTier = normalizeOpenAIServiceTier (si_UsageServiceTier inp);
          protocol = si_ProviderProtocol inp
      in zero_item\<lparr>it_ServiceCode := trim_space (si_ServiceCode inp),
           it_ServiceName := or_text (trim_space (si_ServiceName inp)) (trim_space (si_ServiceCode inp)),
           it_PlatformModelName := trim_space (si_PlatformModelName inp), it_ProviderProtocol := trim_space protocol,
           it_CacheTimeout := billingCacheTimeoutSnapshot protocol (si_CacheTimeout inp), it_RequestSpeed := requestSpeed,
           it_UsageSpeed := usageSpeed, it_BillingSpeed := resolveBillingSpeed protocol usageSpeed requestSpeed,
           it_RequestServiceTier := requestTier, it_UsageServiceTier := usageTier,
           it_BillingServiceTier := resolveBillingServiceTier protocol usageTier,
           it_FastMode := isAnthropicFastMode protocol usageSpeed requestSpeed, it_RateMultiplier := billingRateMultiplierValue m,
           it_PricingMode := ''token'', it_InputTokens := clampNonNegative (si_InputTokens inp),
           it_CacheReadTokens := clampNonNegative (si_CacheReadTokens inp),
           it_CacheWrites := normalizeCacheWriteTokenBreakdown (si_CacheWriteTokens inp) (si_CacheWrite5mTokens inp)
             (si_CacheWrite1hTokens inp) protocol (si_CacheTimeout inp),
           it_OutputTokens := clampNonNegative (si_OutputTokens inp), it_ReasoningTokens := clampNonNegative (si_ReasoningTokens inp),
           it_CallCount := at_least_one (si_CallCount inp)\<rparr>)"

definition item_multiplier :: "ServiceUsageInput \<Rightarrow> billingRateMultiplier" where
  "item_multiplier inp =
     (let usageSpeed = normalizeUsageSpeed (si_UsageSpeed inp); requestSpeed = normalizeUsageSpeed (si_RequestSpeed inp);
          tier = resolveBillingServiceTier (si_ProviderProtocol inp) (normalizeOpenAIServiceTier (si_UsageServiceTier inp))
      in resolveUsageRateMultiplier (si_ProviderProtocol inp) (si_PlatformModelName inp) (si_UpstreamModelName inp)
           (isAnthropicFastMode (si_ProviderProtocol inp) usageSpeed requestSpeed) tier)"

definition buildUsageServiceItem ::
  "'f ledger_env \<Rightarrow> ServiceUsageInput \<Rightarrow> string \<Rightarrow> nat \<Rightarrow> nat option \<Rightarrow> billing_error + UsageServiceItem" where
  "buildUsageServiceItem env inp billingMode userID planGroup =
     (let m0 = item_multiplier inp; item0 = blank_item inp m0; name0 = it_PlatformModelName item0 in
      and_then (found_or_nil (resolvePlatformModelIdentity env name0)) (\<lambda>identity.
      and_then (if billingMode = ''self'' then Inr (m0, item0)
                else and_then (from_repo (resolveGroupRatePercent env userID
                       (case identity of None \<Rightarrow> 0 | Some i \<Rightarrow> pi_PlatformModelID i) planGroup))
                     (\<lambda>percent. let m = composeRatePercent m0 percent
                        in Inr (m, item0\<lparr>it_RateMultiplier := billingRateMultiplierValue m\<rparr>)))
        (\<lambda>(m1, item1).
          (let name = or_text (case identity of None \<Rightarrow> [] | Some i \<Rightarrow> trim_space (pi_PlatformModelName i)) name0 in
           and_then (if name = [] then Inr None else found_or_nil (GetModelPricing (le_price_fault env name) name (le_prices env)))
             (\<lambda>pricing.
               if billingMode = ''self'' then Inr item1
               else (case pricing of None \<Rightarrow> Inl ErrModelPricingRequired
                 | Some p \<Rightarrow>
                   if mp_IsFree p then Inr item1
                   else (case resolveSchedulePeriodJSON (le_loc env) (le_periods env) (mp_SchedulePricingJSON p) (le_now env) of
                       None \<Rightarrow> price_item env inp p m1 item1
                     | Some s \<Rightarrow> (let m2 = composeRatePercent m1 (rs_RatePercent s)
                         in price_item env inp p m2 (item1\<lparr>it_RateMultiplier := billingRateMultiplierValue m2,
                              it_SchedulePeriodName := rs_Name s, it_ScheduleRatePercent := rs_RatePercent s\<rparr>)))))))))"

fun buildUsageServiceItems ::
  "'f ledger_env \<Rightarrow> ServiceUsageInput list \<Rightarrow> string \<Rightarrow> nat \<Rightarrow> nat option \<Rightarrow> billing_error + UsageServiceItem list" where
  "buildUsageServiceItems env [] billingMode userID planGroup = Inr []"
| "buildUsageServiceItems env (inp # inps) billingMode userID planGroup =
     and_then (buildUsageServiceItem env inp billingMode userID planGroup) (\<lambda>item.
     and_then (buildUsageServiceItems env inps billingMode userID planGroup) (\<lambda>items. Inr (item # items)))"

text \<open>\<open>total += item.BilledNanousd\<close> over a list of items.\<close>

definition items_total :: "UsageServiceItem list \<Rightarrow> int" where
  "items_total items = fold (\<lambda>i t. add64 t (it_BilledNanousd i)) items 0"

section \<open>Items of tools\<close>

definition normalizeUsageCountMap :: "(string \<times> int) list \<Rightarrow> (string \<times> int) list" where
  "normalizeUsageCountMap items =
     fold (\<lambda>(k, v) m. if trim_space k = [] \<or> v \<le> 0 then m
       else AList.update (trim_space k) (add64 (case map_of m (trim_space k) of None \<Rightarrow> 0 | Some x \<Rightarrow> x) v) m) items []"

definition nativeToolServiceCode :: "string \<Rightarrow> string \<Rightarrow> string" where
  "nativeToolServiceCode provider tool =
     ''native_tool.'' @ or_text (trim_space provider) ''unknown'' @ ''.'' @ or_text (trim_space tool) ''unknown''"

definition tool_item :: "UsagePricingInput \<Rightarrow> string \<Rightarrow> string \<Rightarrow> int \<Rightarrow> int \<Rightarrow> UsageServiceItem" where
  "tool_item inp code name calls rate =
     zero_item\<lparr>it_ServiceCode := code, it_ServiceName := name, it_PlatformModelName := trim_space (ui_PlatformModelName inp),
       it_ProviderProtocol := trim_space (ui_ProviderProtocol inp), it_RateMultiplier := (1, 1), it_PricingMode := ''call'',
       it_CallCount := calls, it_CallNanousdPerCall := rate, it_CallBilledNanousd := mul64 calls rate, it_BilledNanousd := mul64 calls rate\<rparr>"

definition nativeToolDefaultCallPrice ::
  "UsagePricingInput \<Rightarrow> string \<Rightarrow> (string \<rightharpoonup> PricingOverride) \<Rightarrow> nativetool_definition list \<Rightarrow> UsagePrice option" where
  "nativeToolDefaultCallPrice inp toolName overrides defs =
     UsagePriceForToolWithOverrides (ui_ProviderProtocol inp) toolName defs overrides"

definition buildNativeToolServiceItems ::
  "UsagePricingInput \<Rightarrow> string \<Rightarrow> bool \<Rightarrow> bool \<Rightarrow> (string \<rightharpoonup> PricingOverride) \<Rightarrow> nativetool_definition list \<Rightarrow> UsageServiceItem list" where
  "buildNativeToolServiceItems inp billingMode freeModel billingEnabled overrides defs =
     (if billingMode = ''self'' \<or> freeModel \<or> \<not> billingEnabled \<or> ui_ServerSideToolUsage inp = [] then []
      else List.map_filter (\<lambda>(toolName, calls).
          case nativeToolDefaultCallPrice inp toolName overrides defs of None \<Rightarrow> None
          | Some price \<Rightarrow> if up_NanousdPerCall price \<le> 0 \<or> calls \<le> 0 then None
              else Some (tool_item inp (nativeToolServiceCode (up_Provider price) toolName) (up_ServiceName price) calls (up_NanousdPerCall price)))
        (normalizeUsageCountMap (ui_ServerSideToolUsage inp)))"

definition mcpToolServiceCode :: "string \<Rightarrow> string \<Rightarrow> string" where
  "mcpToolServiceCode server tool =
     ''mcp_tool.'' @ or_text (trim_space server) ''unknown'' @ ''.'' @ or_text (trim_space tool) ''unknown''"

definition mcpToolServiceName :: "string \<Rightarrow> string \<Rightarrow> string" where
  "mcpToolServiceName server0 tool0 =
     (let server = trim_space server0; tool = trim_space tool0
      in if server = [] then tool else if tool = [] then server else server @ '' / '' @ tool)"

definition buildMCPToolServiceItems :: "UsagePricingInput \<Rightarrow> string \<Rightarrow> UsageServiceItem list" where
  "buildMCPToolServiceItems inp billingMode =
     (if billingMode = ''self'' then []
      else map (\<lambda>u. tool_item inp (mcpToolServiceCode (mi_ServerName u) (mi_ToolName u)) (mcpToolServiceName (mi_ServerName u) (mi_ToolName u))
             (mi_CallCount u) (mi_PriceNanousd u))
        (filter (\<lambda>u. \<not> (mi_CallCount u \<le> 0 \<or> mi_PriceNanousd u \<le> 0)) (ui_MCPToolUsage inp)))"

section \<open>The ledger entry\<close>

text \<open>Everything known about a call before its rates: multipliers, identity, mode, group, price row and schedule.\<close>

record usage_context =
  uc_multiplier :: billingRateMultiplier
  uc_identity :: PlatformModelIdentity
  uc_writes :: "int \<times> int \<times> int"
  uc_mode :: string
  uc_refNo :: string
  uc_group :: "nat option"
  uc_pricing :: "model_pricing option"
  uc_ledgerAt :: gotime
  uc_schedule :: "ResolvedSchedulePeriod option"

definition usage_multiplier :: "UsagePricingInput \<Rightarrow> billingRateMultiplier" where
  "usage_multiplier inp =
     (let protocol = trim_space (ui_ProviderProtocol inp); usageSpeed = normalizeUsageSpeed (ui_UsageSpeed inp);
          requestSpeed = normalizeUsageSpeed (ui_RequestSpeed inp);
          tier = resolveBillingServiceTier protocol (normalizeOpenAIServiceTier (ui_UsageServiceTier inp))
      in resolveUsageRateMultiplier protocol (trim_space (ui_PlatformModelName inp)) (ui_UpstreamModelName inp)
           (isAnthropicFastMode protocol usageSpeed requestSpeed) tier)"

text \<open>A call that is paid for needs a price, and a duration price needs a duration.\<close>

definition check_pricing :: "UsagePricingInput \<Rightarrow> string \<Rightarrow> model_pricing option \<Rightarrow> billing_error + unit" where
  "check_pricing inp mode pricing =
     (if mode = ''self'' \<or> ui_ServiceOnly inp then Inr ()
      else (case pricing of None \<Rightarrow> Inl ErrModelPricingRequired
        | Some p \<Rightarrow> if \<not> mp_IsFree p \<and> NormalizePricingMode (mp_PricingMode p) = ''duration'' \<and>
              (\<not> ui_DurationBillable inp \<or> ui_DurationSeconds inp \<le> 0)
            then Inl ErrModelPricingRequired else Inr ()))"

definition usage_context_of :: "'f ledger_env \<Rightarrow> UsagePricingInput \<Rightarrow> billing_error + usage_context" where
  "usage_context_of env inp =
     (let name = trim_space (ui_PlatformModelName inp); protocol = trim_space (ui_ProviderProtocol inp);
          m0 = usage_multiplier inp;
          writes = normalizeCacheWriteTokenBreakdown (ui_CacheWriteTokens inp) (ui_CacheWrite5mTokens inp) (ui_CacheWrite1hTokens inp)
            protocol (ui_CacheTimeout inp);
          mode0 = (case ui_Authorization inp of None \<Rightarrow> [] | Some a \<Rightarrow> trim_space (ua_Mode a));
          refNo = (case ui_Authorization inp of None \<Rightarrow> [] | Some a \<Rightarrow> trim_space (ua_RefNo a)) in
      and_then (found_or_nil (resolvePlatformModelIdentity env name)) (\<lambda>identity0.
      let identity = (case identity0 of None \<Rightarrow> no_identity | Some i \<Rightarrow> i) in
      and_then (if mode0 = [] then from_repo (GetBillingMode (le_mode_fault env) (le_settings env)) else Inr mode0) (\<lambda>mode.
      and_then (if mode = ''self'' then Inr (m0, None)
                else and_then (from_repo (subscription_group env (ui_UserID inp))) (\<lambda>planGroup.
                     and_then (from_repo (resolveGroupRatePercent env (ui_UserID inp) (pi_PlatformModelID identity) planGroup))
                       (\<lambda>percent. Inr (composeRatePercent m0 percent, planGroup)))) (\<lambda>(m1, planGroup).
      and_then (found_or_nil (GetModelPricing (le_price_fault env name) name (le_prices env))) (\<lambda>pricing.
      let ledgerAt = (if is_zero (ui_BillingAt inp) then le_now env else ui_BillingAt inp);
          schedule = (case pricing of None \<Rightarrow> None
            | Some p \<Rightarrow> if mode \<noteq> ''self'' \<and> \<not> mp_IsFree p
                then resolveSchedulePeriodJSON (le_loc env) (le_periods env) (mp_SchedulePricingJSON p) ledgerAt else None);
          m2 = (case schedule of None \<Rightarrow> m1 | Some s \<Rightarrow> composeRatePercent m1 (rs_RatePercent s))
      in and_then (check_pricing inp mode pricing) (\<lambda>_.
        Inr \<lparr>uc_multiplier = m2, uc_identity = identity, uc_writes = writes, uc_mode = mode, uc_refNo = refNo, uc_group = planGroup,
             uc_pricing = pricing, uc_ledgerAt = ledgerAt, uc_schedule = schedule\<rparr>))))))"

text \<open>The rates of the call; they stay zero when the call itself is not billed.\<close>

record 'f ledger_rates =
  lr_base :: token_rates
  lr_rates :: token_rates
  lr_baseCall :: int
  lr_call :: int
  lr_baseDuration :: int
  lr_duration :: int
  lr_tiers :: "'f tieredPricingTier list"

definition no_ledger_rates :: "'f ledger_rates" where
  "no_ledger_rates = \<lparr>lr_base = no_rates, lr_rates = no_rates, lr_baseCall = 0, lr_call = 0, lr_baseDuration = 0, lr_duration = 0,
     lr_tiers = []\<rparr>"

definition pricing_mode_of :: "usage_context \<Rightarrow> string" where
  "pricing_mode_of c = (case uc_pricing c of None \<Rightarrow> ''token'' | Some p \<Rightarrow> NormalizePricingMode (mp_PricingMode p))"

definition ledger_rates_of :: "'f ledger_env \<Rightarrow> UsagePricingInput \<Rightarrow> usage_context \<Rightarrow> billing_error + 'f ledger_rates" where
  "ledger_rates_of env inp c =
     (case uc_pricing c of None \<Rightarrow> Inr no_ledger_rates
      | Some p \<Rightarrow>
        if ui_ServiceOnly inp \<or> uc_mode c = ''self'' \<or> mp_IsFree p then Inr no_ledger_rates
        else (let mode = pricing_mode_of c; m = uc_multiplier c in
          if mode = ''call'' then
            Inr (no_ledger_rates\<lparr>lr_baseCall := mp_CallNanousdPerCall p, lr_call := applyRateMultiplier (mp_CallNanousdPerCall p) m\<rparr>)
          else if mode = ''duration'' then
            Inr (no_ledger_rates\<lparr>lr_baseDuration := mp_DurationNanousdPerSecond p,
              lr_duration := applyRateMultiplier (mp_DurationNanousdPerSecond p) m\<rparr>)
          else if mode = ''tiered'' then
            and_then (from_repo (parseTieredPricingTiers (le_usd env) (le_tiers env) (trim_space (mp_TieredPricingJSON p))))
              (\<lambda>tiers. Inr (no_ledger_rates\<lparr>lr_tiers := tiers\<rparr>))
          else (let base = model_rates p (trim_space (ui_ProviderProtocol inp)) (ui_CacheTimeout inp)
            in Inr (no_ledger_rates\<lparr>lr_base := base, lr_rates := multiplied m base\<rparr>))))"

record ledger_bill =
  lb_base :: token_rates
  lb_rates :: token_rates
  lb_tokens :: token_bill
  lb_call :: int
  lb_duration :: int
  lb_fromTokens :: int
  lb_upToTokens :: "int option"

definition duration_seconds :: "UsagePricingInput \<Rightarrow> int" where
  "duration_seconds inp = (if ui_DurationBillable inp then clampNonNegative (ui_DurationSeconds inp) else 0)"

definition ledger_bill_of :: "'f ledger_env \<Rightarrow> UsagePricingInput \<Rightarrow> usage_context \<Rightarrow> 'f ledger_rates \<Rightarrow> ledger_bill" where
  "ledger_bill_of env inp c r =
     (let mode = pricing_mode_of c;
          nothing = \<lparr>lb_base = lr_base r, lb_rates = lr_rates r, lb_tokens = no_bill, lb_call = 0, lb_duration = 0,
             lb_fromTokens = 0, lb_upToTokens = None\<rparr>;
          outputTokens = add64 (ui_OutputTokens inp) (ui_ReasoningTokens inp) in
      if ui_ServiceOnly inp then nothing
      else if mode = ''call'' then nothing\<lparr>lb_call := mul64 (at_least_one (ui_CallCount inp)) (lr_call r)\<rparr>
      else if mode = ''duration'' then nothing\<lparr>lb_duration := mul64 (duration_seconds inp) (lr_duration r)\<rparr>
      else if mode = ''tiered'' then
        (let n = tieredPricingInputTokens (ui_InputTokens inp) (ui_CacheReadTokens inp) (fst (uc_writes c));
             resolved = resolveTieredPricingTier (zero_tier (le_zero env)) n (lr_tiers r);
             base = tier_rates (rt_tier resolved) (case uc_pricing c of None \<Rightarrow> [] | Some p \<Rightarrow> mp_CacheWritePriceBasis p)
               (trim_space (ui_ProviderProtocol inp)) (ui_CacheTimeout inp);
             rates = multiplied (uc_multiplier c) base
         in nothing\<lparr>lb_base := base, lb_rates := rates,
              lb_tokens := bill_tokens (ui_InputTokens inp) (ui_CacheReadTokens inp) (uc_writes c) outputTokens rates,
              lb_fromTokens := rt_fromTokens resolved, lb_upToTokens := rt_upToTokens resolved\<rparr>)
      else nothing\<lparr>lb_tokens := bill_tokens (ui_InputTokens inp) (ui_CacheReadTokens inp) (uc_writes c) outputTokens (lr_rates r)\<rparr>)"

text \<open>The items beside the call itself: auxiliary models, provider tools, MCP tools.\<close>

record ledger_services =
  ls_items :: "UsageServiceItem list"
  ls_billed :: int
  ls_nativeEnabled :: bool
  ls_nativeSource :: string
  ls_nativeBilled :: int
  ls_mcpBilled :: int

definition nativeToolDefinitions :: "'f ledger_env \<Rightarrow> repo_error + nativetool_definition list" where
  "nativeToolDefinitions env = (case le_catalog env of None \<Rightarrow> Inr definitions | Some r \<Rightarrow> r)"

definition nativeToolPricingSourceForSnapshot :: "'f ledger_env \<Rightarrow> string \<Rightarrow> nativetool_definition list \<Rightarrow> string" where
  "nativeToolPricingSourceForSnapshot env raw defs =
     (if PricingOverridesUseDefaultsForDefinitions (le_overrides env) raw defs then ''provider_official_defaults'' else ''admin_configured'')"

definition ledger_services_of :: "'f ledger_env \<Rightarrow> UsagePricingInput \<Rightarrow> usage_context \<Rightarrow> billing_error + ledger_services" where
  "ledger_services_of env inp c =
     and_then (buildUsageServiceItems env (ui_ServiceItems inp) (uc_mode c) (ui_UserID inp) (uc_group c)) (\<lambda>models.
     and_then (from_repo (GetNativeToolBillingEnabled (le_enabled_fault env) (le_settings env))) (\<lambda>enabled.
     and_then (from_repo (GetNativeToolPricingJSON (le_json_fault env) (le_settings env))) (\<lambda>raw.
     and_then (from_repo (nativeToolDefinitions env)) (\<lambda>defs.
       let overrides = (case ParsePricingOverridesJSONForDefinitions (le_overrides env) raw defs of None \<Rightarrow> Map.empty | Some m \<Rightarrow> m);
           free = (case uc_pricing c of None \<Rightarrow> False | Some p \<Rightarrow> mp_IsFree p);
           natives = buildNativeToolServiceItems inp (uc_mode c) free enabled overrides defs;
           mcps = buildMCPToolServiceItems inp (uc_mode c)
       in Inr \<lparr>ls_items = models @ natives @ mcps,
               ls_billed = add64 (add64 (items_total models) (items_total natives)) (items_total mcps),
               ls_nativeEnabled = enabled, ls_nativeSource = nativeToolPricingSourceForSnapshot env raw defs,
               ls_nativeBilled = items_total natives, ls_mcpBilled = items_total mcps\<rparr>))))"

definition billed_total :: "ledger_bill \<Rightarrow> ledger_services \<Rightarrow> int" where
  "billed_total b s = add64 (add64 (add64 (token_total (lb_tokens b)) (lb_call b)) (lb_duration b)) (ls_billed s)"

definition ledger_is_free :: "usage_context \<Rightarrow> int \<Rightarrow> bool" where
  "ledger_is_free c billed \<longleftrightarrow> (case uc_pricing c of None \<Rightarrow> False | Some p \<Rightarrow> mp_IsFree p) \<and> billed \<le> 0"

section \<open>The snapshot\<close>

definition jopt :: "int option \<Rightarrow> gojson" where
  "jopt v = (case v of None \<Rightarrow> JNull | Some i \<Rightarrow> JInt i)"

definition usageServiceItemSnapshot :: "'f ledger_env \<Rightarrow> UsageServiceItem \<Rightarrow> goobj" where
  "usageServiceItemSnapshot env i =
     [(''service_code'', JStr (it_ServiceCode i)), (''service_name'', JStr (it_ServiceName i)),
      (''platform_model_name'', JStr (it_PlatformModelName i)), (''provider_protocol'', JStr (it_ProviderProtocol i)),
      (''cache_timeout'', JStr (it_CacheTimeout i)), (''request_speed'', JStr (it_RequestSpeed i)), (''usage_speed'', JStr (it_UsageSpeed i)),
      (''billing_speed'', JStr (it_BillingSpeed i)), (''request_service_tier'', JStr (it_RequestServiceTier i)),
      (''usage_service_tier'', JStr (it_UsageServiceTier i)), (''billing_service_tier'', JStr (it_BillingServiceTier i)),
      (''fast_mode'', JBool (it_FastMode i)), (''rate_multiplier'', le_float env (it_RateMultiplier i)),
      (''schedule_period_name'', JStr (it_SchedulePeriodName i)), (''schedule_rate_percent'', JInt (it_ScheduleRatePercent i)),
      (''pricing_mode'', JStr (it_PricingMode i)), (''input_tokens'', JInt (it_InputTokens i)), (''cache_read_tokens'', JInt (it_CacheReadTokens i)),
      (''cache_write_tokens'', JInt (fst (it_CacheWrites i))), (''cache_write_5m_tokens'', JInt (fst (snd (it_CacheWrites i)))),
      (''cache_write_1h_tokens'', JInt (snd (snd (it_CacheWrites i)))), (''output_tokens'', JInt (it_OutputTokens i)),
      (''reasoning_tokens'', JInt (it_ReasoningTokens i)), (''call_count'', JInt (it_CallCount i)), (''duration_seconds'', JInt (it_DurationSeconds i)),
      (''input_nanousd_per_m_tokens'', JInt (tr_input (it_Rates i))), (''cache_read_nanousd_per_m_tokens'', JInt (tr_cacheRead (it_Rates i))),
      (''cache_write_nanousd_per_m_tokens'', JInt (tr_cacheWrite (it_Rates i))),
      (''cache_write_5m_nanousd_per_m_tokens'', JInt (tr_cacheWrite5m (it_Rates i))),
      (''cache_write_1h_nanousd_per_m_tokens'', JInt (tr_cacheWrite1h (it_Rates i))),
      (''output_nanousd_per_m_tokens'', JInt (tr_output (it_Rates i))), (''call_nanousd_per_call'', JInt (it_CallNanousdPerCall i)),
      (''duration_nanousd_per_second'', JInt (it_DurationNanousdPerSecond i)), (''tiered_from_tokens'', JInt (it_TieredFromTokens i)),
      (''tiered_up_to_tokens'', jopt (it_TieredUpToTokens i)), (''input_billed_nanousd'', JInt (tb_input (it_Bill i))),
      (''cache_read_billed_nanousd'', JInt (tb_cacheRead (it_Bill i))), (''cache_write_billed_nanousd'', JInt (tb_cacheWrite (it_Bill i))),
      (''cache_write_5m_billed_nanousd'', JInt (it_CacheWrite5mBilledNanousd i)),
      (''cache_write_1h_billed_nanousd'', JInt (it_CacheWrite1hBilledNanousd i)), (''output_billed_nanousd'', JInt (tb_output (it_Bill i))),
      (''call_billed_nanousd'', JInt (it_CallBilledNanousd i)), (''duration_billed_nanousd'', JInt (it_DurationBilledNanousd i)),
      (''billed_nanousd'', JInt (it_BilledNanousd i))]"

definition usageServiceItemSnapshots :: "'f ledger_env \<Rightarrow> UsageServiceItem list \<Rightarrow> gojson" where
  "usageServiceItemSnapshots env items = JArr (map (\<lambda>i. JObj (usageServiceItemSnapshot env i)) items)"

definition mcpToolUsageSnapshots :: "MCPToolUsageInput list \<Rightarrow> gojson" where
  "mcpToolUsageSnapshots items =
     JArr (map (\<lambda>i. JObj [(''server_id'', JInt (int (mi_ServerID i))), (''server_name'', JStr (trim_space (mi_ServerName i))),
         (''tool_name'', JStr (trim_space (mi_ToolName i))), (''call_count'', JInt (mi_CallCount i)), (''price_nanousd'', JInt (mi_PriceNanousd i))])
       (filter (\<lambda>i. \<not> mi_CallCount i \<le> 0) items))"

definition upstreamUsageSnapshot :: "'f ledger_env \<Rightarrow> UsagePricingInput \<Rightarrow> gojson" where
  "upstreamUsageSnapshot env inp =
     (if trim_space (ui_RawUsageJSON inp) = [] then JObj []
      else case le_usage_json env (trim_space (ui_RawUsageJSON inp)) of
          Some (JObj m) \<Rightarrow> JObj m | Some (JArr xs) \<Rightarrow> JArr xs | _ \<Rightarrow> JObj [])"

text \<open>The multiplier of a cache write, as what a rate of one dollar becomes.\<close>

definition cacheWritePriceMultiplier :: "string \<Rightarrow> string \<Rightarrow> string \<Rightarrow> int \<times> int" where
  "cacheWritePriceMultiplier basis protocol timeout =
     (resolveCacheWriteNanousdPerMTokens 1000000000 basis protocol timeout, 1000000000)"

definition rate_entries :: "string \<Rightarrow> token_rates \<Rightarrow> goobj" where
  "rate_entries pre r = [(pre @ ''input_nanousd_per_m_tokens'', JInt (tr_input r)), (pre @ ''cache_read_nanousd_per_m_tokens'', JInt (tr_cacheRead r)),
     (pre @ ''cache_write_nanousd_per_m_tokens'', JInt (tr_cacheWrite r)), (pre @ ''cache_write_5m_nanousd_per_m_tokens'', JInt (tr_cacheWrite5m r)),
     (pre @ ''cache_write_1h_nanousd_per_m_tokens'', JInt (tr_cacheWrite1h r)), (pre @ ''output_nanousd_per_m_tokens'', JInt (tr_output r))]"

definition ledger_snapshot ::
  "'f ledger_env \<Rightarrow> UsagePricingInput \<Rightarrow> usage_context \<Rightarrow> 'f ledger_rates \<Rightarrow> ledger_bill \<Rightarrow> ledger_services \<Rightarrow> goobj" where
  "ledger_snapshot env inp c r b s =
     (let protocol = trim_space (ui_ProviderProtocol inp); usageSpeed = normalizeUsageSpeed (ui_UsageSpeed inp);
          requestSpeed = normalizeUsageSpeed (ui_RequestSpeed inp); usageTier = normalizeOpenAIServiceTier (ui_UsageServiceTier inp);
          basis = (case uc_pricing c of None \<Rightarrow> [] | Some p \<Rightarrow> mp_CacheWritePriceBasis p);
          rates = (lb_rates b)\<lparr>tr_cacheWrite := resolveSnapshotRateFromBilled (fst (uc_writes c)) (tb_cacheWrite (lb_tokens b)) (tr_cacheWrite (lb_rates b))\<rparr>
      in [(''platform_model_name'', JStr (trim_space (ui_PlatformModelName inp))), (''routed_binding_code'', JStr (trim_space (ui_RoutedBindingCode inp))),
          (''model_vendor'', JStr (trim_space (pi_ModelVendor (uc_identity c)))), (''model_icon'', JStr (trim_space (pi_ModelIcon (uc_identity c)))),
          (''provider_protocol'', JStr protocol), (''upstream_name'', JStr (trim_space (ui_UpstreamName inp))),
          (''upstream_model_name'', JStr (trim_space (ui_UpstreamModelName inp))),
          (''cache_timeout'', JStr (billingCacheTimeoutSnapshot protocol (ui_CacheTimeout inp))),
          (''cache_write_5m_multiplier'', le_float env (cacheWritePriceMultiplier basis protocol ''5m'')),
          (''cache_write_1h_multiplier'', le_float env (cacheWritePriceMultiplier basis protocol ''1h'')),
          (''request_speed'', JStr requestSpeed), (''usage_speed'', JStr usageSpeed),
          (''billing_speed'', JStr (resolveBillingSpeed protocol usageSpeed requestSpeed)),
          (''request_service_tier'', JStr (normalizeOpenAIServiceTier (ui_RequestServiceTier inp))), (''usage_service_tier'', JStr usageTier),
          (''billing_service_tier'', JStr (resolveBillingServiceTier protocol usageTier)),
          (''fast_mode'', JBool (isAnthropicFastMode protocol usageSpeed requestSpeed)),
          (''rate_multiplier'', le_float env (billingRateMultiplierValue (uc_multiplier c))), (''billing_mode'', JStr (uc_mode c)),
          (''pricing_mode'', JStr (pricing_mode_of c)), (''duration_billable'', JBool (ui_DurationBillable inp)),
          (''service_only'', JBool (ui_ServiceOnly inp)), (''is_free_model'', JBool (ledger_is_free c (billed_total b s))),
          (''currency'', JStr (case uc_pricing c of None \<Rightarrow> ''USD'' | Some p \<Rightarrow> mp_Currency p))] @
         rate_entries [] rates @ rate_entries ''base_'' (lb_base b) @
         [(''call_nanousd_per_call'', JInt (lr_call r)), (''duration_nanousd_per_second'', JInt (lr_duration r)),
          (''base_call_nanousd_per_call'', JInt (lr_baseCall r)), (''base_duration_nanousd_per_second'', JInt (lr_baseDuration r)),
          (''cache_write_5m_tokens'', JInt (fst (snd (uc_writes c)))), (''cache_write_1h_tokens'', JInt (snd (snd (uc_writes c)))),
          (''tiered_pricing_json'', JStr (case uc_pricing c of None \<Rightarrow> [] | Some p \<Rightarrow> trim_space (mp_TieredPricingJSON p))),
          (''tiered_from_tokens'', JInt (lb_fromTokens b)), (''tiered_up_to_tokens'', jopt (lb_upToTokens b)),
          (''schedule_pricing_json'', JStr (case uc_pricing c of None \<Rightarrow> [] | Some p \<Rightarrow> trim_space (mp_SchedulePricingJSON p))),
          (''schedule_period_name'', JStr (case uc_schedule c of None \<Rightarrow> [] | Some q \<Rightarrow> rs_Name q)),
          (''schedule_rate_percent'', JInt (case uc_schedule c of None \<Rightarrow> 0 | Some q \<Rightarrow> rs_RatePercent q)),
          (''input_billed_nanousd'', JInt (tb_input (lb_tokens b))), (''cache_read_billed_nanousd'', JInt (tb_cacheRead (lb_tokens b))),
          (''cache_write_billed_nanousd'', JInt (tb_cacheWrite (lb_tokens b))),
          (''cache_write_5m_billed_nanousd'', JInt (calcNanousdByToken (fst (snd (uc_writes c))) (tr_cacheWrite5m (lb_rates b)))),
          (''cache_write_1h_billed_nanousd'', JInt (calcNanousdByToken (snd (snd (uc_writes c))) (tr_cacheWrite1h (lb_rates b)))),
          (''output_billed_nanousd'', JInt (tb_output (lb_tokens b))), (''call_billed_nanousd'', JInt (lb_call b)),
          (''duration_billed_nanousd'', JInt (lb_duration b)), (''upstream_usage'', upstreamUsageSnapshot env inp),
          (''server_side_tool_usage'', JObj (map (\<lambda>(k, v). (k, JInt v)) (normalizeUsageCountMap (ui_ServerSideToolUsage inp)))),
          (''native_tool_billing_enabled'', JBool (ls_nativeEnabled s)), (''native_tool_pricing_source'', JStr (ls_nativeSource s)),
          (''native_tool_billed_nanousd'', JInt (ls_nativeBilled s)), (''mcp_tool_usage'', mcpToolUsageSnapshots (ui_MCPToolUsage inp)),
          (''mcp_tool_billed_nanousd'', JInt (ls_mcpBilled s)), (''base_service_billed_nanousd'', JInt (ls_billed s)),
          (''service_items'', usageServiceItemSnapshots env (ls_items s))] @
         (if map ascii_lower (trim_space (ui_MediaType inp)) = ''video''
          then [(''media_type'', JStr ''video''), (''input_image_count'', JInt (clampNonNegative (ui_InputImageCount inp)))] else []) @
         (if trim_space (ui_UsageSource inp) \<noteq> [] then [(''usage_source'', JStr (trim_space (ui_UsageSource inp)))] else []) @
         (if trim_space (ui_BilledReason inp) \<noteq> [] then [(''billed_reason'', JStr (trim_space (ui_BilledReason inp)))] else []))"

definition ledger_entry ::
  "'f ledger_env \<Rightarrow> UsagePricingInput \<Rightarrow> usage_context \<Rightarrow> 'f ledger_rates \<Rightarrow> ledger_bill \<Rightarrow> ledger_services \<Rightarrow> usage_ledger" where
  "ledger_entry env inp c r b s =
     (let protocol = trim_space (ui_ProviderProtocol inp); usageSpeed = normalizeUsageSpeed (ui_UsageSpeed inp);
          requestSpeed = normalizeUsageSpeed (ui_RequestSpeed inp)
      in \<lparr>ul_ID = 0, ul_UserID = ui_UserID inp, ul_RefNo = uc_refNo c, ul_IsFreeModel = ledger_is_free c (billed_total b s),
          ul_BillingAt = uc_ledgerAt c, ul_BilledNanousd = billed_total b s, ul_BalanceAfterNanousd = None,
          ul_PricingSnapshotJSON = (case le_marshal env (ledger_snapshot env inp c r b s) of None \<Rightarrow> ''{}'' | Some j \<Rightarrow> j),
          ul_Details = \<lparr>ud_ConversationID = ui_ConversationID inp, ud_ProviderProtocol = protocol,
            ud_UpstreamName = trim_space (ui_UpstreamName inp), ud_PlatformModelName = trim_space (ui_PlatformModelName inp),
            ud_RoutedBindingCode = trim_space (ui_RoutedBindingCode inp), ud_UpstreamModelName = trim_space (ui_UpstreamModelName inp),
            ud_UsageDate = day_start (le_loc env) (uc_ledgerAt c), ud_InputTokens = ui_InputTokens inp, ud_CacheReadTokens = ui_CacheReadTokens inp,
            ud_CacheWriteTokens = fst (uc_writes c), ud_CacheWrite5mTokens = fst (snd (uc_writes c)), ud_CacheWrite1hTokens = snd (snd (uc_writes c)),
            ud_OutputTokens = ui_OutputTokens inp, ud_ReasoningTokens = ui_ReasoningTokens inp, ud_CallCount = at_least_one (ui_CallCount inp),
            ud_DurationSeconds = duration_seconds inp, ud_LatencyMS = ui_LatencyMS inp,
            ud_UsageSpeed = resolveBillingSpeed protocol usageSpeed requestSpeed,
            ud_ServiceTier = resolveBillingServiceTier protocol (normalizeOpenAIServiceTier (ui_UsageServiceTier inp)),
            ud_BilledCurrency = (case uc_pricing c of None \<Rightarrow> ''USD'' | Some p \<Rightarrow> mp_Currency p)\<rparr>\<rparr>)"

definition BuildUsageLedger :: "'f ledger_env \<Rightarrow> UsagePricingInput \<Rightarrow> billing_error + usage_ledger" where
  "BuildUsageLedger env inp =
     and_then (usage_context_of env inp) (\<lambda>c.
     and_then (ledger_rates_of env inp c) (\<lambda>r.
     and_then (ledger_services_of env inp c) (\<lambda>s.
       Inr (ledger_entry env inp c r (ledger_bill_of env inp c r) s))))"

section \<open>What a call that is not billed costs\<close>

lemma go_div_in_range: "in_int64 x \<Longrightarrow> in_int64 (go_div x 1000000)"
proof -
  assume "in_int64 x"
  then have "\<bar>x\<bar> \<le> 2 ^ 63" by (auto simp: int64_defs)
  then have "\<bar>x\<bar> div 1000000 \<le> 2 ^ 63 div 1000000" by (rule zdiv_mono1) simp
  moreover have "0 \<le> \<bar>x\<bar> div 1000000" by (simp add: pos_imp_zdiv_nonneg_iff)
  ultimately show ?thesis by (auto simp: go_div_def int64_defs sgn_if)
qed

lemma calc_in_range: "in_int64 (calcNanousdByToken t r)"
proof (cases "t \<le> 0 \<or> r \<le> 0")
  case False
  have "in_int64 (add64 (mul64 t r) 500000)" by (simp add: add64_def wrap64_range)
  then show ?thesis using False by (simp add: calcNanousdByToken_def go_div_in_range)
qed (auto simp: calcNanousdByToken_def int64_defs)

lemma in_int64_zero [simp]: "in_int64 0"
  by (simp add: int64_defs)

lemma add64_zero [simp]: "add64 x 0 = wrap64 x" "add64 0 x = wrap64 x"
  by (simp_all add: add64_def)

lemma wrap64_idem [simp]: "wrap64 (wrap64 x) = wrap64 x"
  by (rule wrap64_id) (rule wrap64_range)

lemma wrap64_ops [simp]: "wrap64 (add64 a b) = add64 a b" "wrap64 (mul64 a b) = mul64 a b"
  by (simp_all add: add64_def mul64_def)

lemma wrap64_calc [simp]: "wrap64 (calcNanousdByToken t r) = calcNanousdByToken t r"
  by (rule wrap64_id) (rule calc_in_range)

lemma calc_zero [simp]: "calcNanousdByToken t 0 = 0" "calcNanousdByToken 0 r = 0"
  by (simp_all add: calcNanousdByToken_def)

lemma mul64_zero [simp]: "mul64 n 0 = 0"
  by (simp add: mul64_def)

lemma no_rates_simps [simp]: "tr_input no_rates = 0" "tr_cacheRead no_rates = 0" "tr_cacheWrite no_rates = 0"
  "tr_cacheWrite5m no_rates = 0" "tr_cacheWrite1h no_rates = 0" "tr_output no_rates = 0"
  by (simp_all add: no_rates_def)

lemma bill_no_rates [simp]: "bill_tokens a b w c no_rates = no_bill"
  by (cases w) (simp add: bill_tokens_def no_bill_def calcCacheWriteBilledNanousd_def)

lemma token_total_no_bill [simp]: "token_total no_bill = 0"
  by (simp add: token_total_def no_bill_def)

lemma apply_zero [simp]: "applyRateMultiplier 0 m = 0"
  by (simp add: applyRateMultiplier_def)

lemma write_rate_zero [simp]: "resolveCacheWriteNanousdPerMTokens 0 basis protocol timeout = 0"
  by (simp add: resolveCacheWriteNanousdPerMTokens_def)

lemma zero_tier_rates [simp]: "multiplied m (tier_rates (zero_tier z) basis protocol timeout) = no_rates"
  by (simp add: multiplied_def tier_rates_def configured_rates_def zero_tier_def tierCacheReadRate_def tierCacheWriteRate_def no_rates_def)

lemma no_tier [simp]: "rt_tier (resolveTieredPricingTier z n []) = z"
  by (simp add: resolveTieredPricingTier_def)

definition call_total :: "ledger_bill \<Rightarrow> int" where
  "call_total b = add64 (add64 (token_total (lb_tokens b)) (lb_call b)) (lb_duration b)"

lemma billed_split: "billed_total b s = add64 (call_total b) (ls_billed s)"
  by (simp add: billed_total_def call_total_def)

lemma unbilled_call: "call_total (ledger_bill_of env inp c no_ledger_rates) = 0"
  by (simp add: ledger_bill_of_def Let_def call_total_def no_ledger_rates_def)

lemma rates_of_unbilled:
  "uc_mode c = ''self'' \<or> ui_ServiceOnly inp \<or> (case uc_pricing c of None \<Rightarrow> True | Some p \<Rightarrow> mp_IsFree p) \<Longrightarrow>
    ledger_rates_of env inp c = Inr no_ledger_rates"
  by (auto simp: ledger_rates_of_def split: option.splits)

lemma context_mode:
  "usage_context_of env inp = Inr c \<Longrightarrow>
    (ui_Authorization inp \<noteq> None \<and> trim_space (ua_Mode (the (ui_Authorization inp))) \<noteq> [] \<longrightarrow>
      uc_mode c = trim_space (ua_Mode (the (ui_Authorization inp))))"
  by (auto simp: usage_context_of_def and_then_Inr Let_def split: if_splits)

section \<open>Self-hosted calls\<close>

lemma blank_item_unbilled [simp]: "it_BilledNanousd (blank_item inp m) = 0"
  by (simp add: blank_item_def zero_item_def Let_def)

lemma self_item: "buildUsageServiceItem env inp ''self'' u g = Inr i \<Longrightarrow> it_BilledNanousd i = 0"
  by (auto simp: buildUsageServiceItem_def and_then_Inr Let_def)

lemma self_items: "buildUsageServiceItems env inps ''self'' u g = Inr is \<Longrightarrow> \<forall>i \<in> set is. it_BilledNanousd i = 0"
proof (induction inps arbitrary: "is")
  case (Cons inp inps)
  then show ?case using self_item by (auto simp: and_then_Inr)
qed simp

lemma items_total_zero: "\<forall>i \<in> set is. it_BilledNanousd i = 0 \<Longrightarrow> items_total is = 0"
proof -
  assume "\<forall>i \<in> set is. it_BilledNanousd i = 0"
  then have "fold (\<lambda>i t. add64 t (it_BilledNanousd i)) is 0 = 0" by (induction "is") simp_all
  then show ?thesis by (simp add: items_total_def)
qed

lemma items_total_Nil [simp]: "items_total [] = 0"
  by (simp add: items_total_def)

lemma self_services: "ledger_services_of env inp c = Inr s \<Longrightarrow> uc_mode c = ''self'' \<Longrightarrow> ls_billed s = 0"
  by (auto simp: ledger_services_of_def and_then_Inr Let_def buildNativeToolServiceItems_def buildMCPToolServiceItems_def
      dest!: self_items items_total_zero)

lemma ledger_cases:
  assumes "BuildUsageLedger env inp = Inr l"
  obtains c r s where "usage_context_of env inp = Inr c" and "ledger_rates_of env inp c = Inr r" and "ledger_services_of env inp c = Inr s"
    and "l = ledger_entry env inp c r (ledger_bill_of env inp c r) s"
    and "ul_BilledNanousd l = add64 (call_total (ledger_bill_of env inp c r)) (ls_billed s)"
    and "ul_IsFreeModel l = ledger_is_free c (ul_BilledNanousd l)" and "ul_RefNo l = uc_refNo c"
  using assms by (auto simp: BuildUsageLedger_def and_then_Inr ledger_entry_def Let_def billed_split)

text \<open>@C:Billing_Ledger.self_mode_bills_nothing@
  In self-hosted mode nothing is charged: whatever the call used, with auxiliary models, provider tools
  and MCP tools included, a ledger entry that is built bills zero, and the settlement charges zero.
\<close>

lemma self_mode_bills_nothing:
  assumes "BuildUsageLedger env inp = Inr l" and "ui_Authorization inp = Some a" and "trim_space (ua_Mode a) = ''self''"
  shows "ul_BilledNanousd l = 0 \<and> usage_charge l = 0"
proof -
  obtain c r s where c: "usage_context_of env inp = Inr c" and r: "ledger_rates_of env inp c = Inr r"
    and s: "ledger_services_of env inp c = Inr s" and b: "ul_BilledNanousd l = add64 (call_total (ledger_bill_of env inp c r)) (ls_billed s)"
    by (rule ledger_cases [OF assms(1)])
  have m: "uc_mode c = ''self''" using context_mode [OF c] assms(2,3) by simp
  then have "r = no_ledger_rates" using r rates_of_unbilled [of c inp env] by simp
  then show ?thesis using b self_services [OF s m] by (simp add: unbilled_call usage_charge_def)
qed

section \<open>The free flag\<close>

text \<open>@C:Billing_Ledger.free_flag_keeps_charges@
  The settlement drops the whole amount of an entry that is marked free. The mark is set only when that
  loses nothing: an entry of a free model that still bills something, say for an MCP tool, is not marked,
  and what the settlement charges is always the billed amount, or zero if that is negative.
\<close>

lemma free_flag_keeps_charges:
  assumes "BuildUsageLedger env inp = Inr l"
  shows "usage_charge l = max 0 (ul_BilledNanousd l) \<and> (ul_IsFreeModel l \<longrightarrow> ul_BilledNanousd l \<le> 0)"
proof -
  obtain c where "ul_IsFreeModel l = ledger_is_free c (ul_BilledNanousd l)" by (rule ledger_cases [OF assms])
  then show ?thesis by (auto simp: usage_charge_def ledger_is_free_def)
qed

section \<open>Calls that are refused\<close>

lemma context_pricing:
  assumes "usage_context_of env inp = Inr c"
  shows "found_or_nil (GetModelPricing (le_price_fault env (trim_space (ui_PlatformModelName inp)))
      (trim_space (ui_PlatformModelName inp)) (le_prices env)) = Inr (uc_pricing c)"
    and "check_pricing inp (uc_mode c) (uc_pricing c) = Inr ()"
    and "uc_writes c = normalizeCacheWriteTokenBreakdown (ui_CacheWriteTokens inp) (ui_CacheWrite5mTokens inp)
      (ui_CacheWrite1hTokens inp) (trim_space (ui_ProviderProtocol inp)) (ui_CacheTimeout inp)"
  using assms by (auto simp: usage_context_of_def and_then_Inr Let_def)

lemma service_item_priced:
  assumes "buildUsageServiceItem env x mode u planGroup = Inr i" and "mode \<noteq> ''self''"
  shows "\<exists>name p. GetModelPricing (le_price_fault env name) name (le_prices env) = Inr p"
proof -
  obtain pricing name where "(if name = [] then Inr None else found_or_nil (GetModelPricing (le_price_fault env name) name (le_prices env))) = Inr pricing"
    "pricing \<noteq> None"
    using assms by (auto simp: buildUsageServiceItem_def and_then_Inr Let_def split: option.splits)
  then show ?thesis by (auto simp: found_or_nil_def split: if_splits sum.splits)
qed

lemma service_items_priced:
  "buildUsageServiceItems env xs mode u planGroup = Inr is \<Longrightarrow> mode \<noteq> ''self'' \<Longrightarrow> x \<in> set xs \<Longrightarrow>
     \<exists>i. buildUsageServiceItem env x mode u planGroup = Inr i"
  by (induction xs arbitrary: "is") (auto simp: and_then_Inr)

text \<open>@C:Billing_Ledger.unpriced_call_refused@
  A call of a paying user is never recorded as free for want of a price. When the entry is built and the call
  itself is to be billed, the model has a price row; a row that is not free and prices by duration comes with
  a billable, positive duration; and every auxiliary model has a price row as well.
\<close>

lemma unpriced_call_refused:
  assumes "BuildUsageLedger env inp = Inr l" and "ui_Authorization inp = Some a" and "trim_space (ua_Mode a) \<notin> {[], ''self''}"
  shows "(\<not> ui_ServiceOnly inp \<longrightarrow>
      (\<exists>p. GetModelPricing (le_price_fault env (trim_space (ui_PlatformModelName inp))) (trim_space (ui_PlatformModelName inp)) (le_prices env) = Inr p \<and>
        (\<not> mp_IsFree p \<and> NormalizePricingMode (mp_PricingMode p) = ''duration'' \<longrightarrow> ui_DurationBillable inp \<and> 0 < ui_DurationSeconds inp))) \<and>
    (\<forall>x \<in> set (ui_ServiceItems inp). \<exists>name p. GetModelPricing (le_price_fault env name) name (le_prices env) = Inr p)"
proof -
  obtain c s where c: "usage_context_of env inp = Inr c" and s: "ledger_services_of env inp c = Inr s"
    by (rule ledger_cases [OF assms(1)])
  have m: "uc_mode c \<noteq> ''self''" using context_mode [OF c] assms(2,3) by simp
  let ?name = "trim_space (ui_PlatformModelName inp)"
  have "found_or_nil (GetModelPricing (le_price_fault env ?name) ?name (le_prices env)) = Inr (uc_pricing c)"
    "check_pricing inp (uc_mode c) (uc_pricing c) = Inr ()" using context_pricing [OF c] by simp_all
  then have "\<not> ui_ServiceOnly inp \<longrightarrow> (\<exists>p. GetModelPricing (le_price_fault env ?name) ?name (le_prices env) = Inr p \<and>
        (\<not> mp_IsFree p \<and> NormalizePricingMode (mp_PricingMode p) = ''duration'' \<longrightarrow> ui_DurationBillable inp \<and> 0 < ui_DurationSeconds inp))"
    using m by (auto simp: found_or_nil_def check_pricing_def split: sum.splits if_splits option.splits)
  moreover have "\<forall>x \<in> set (ui_ServiceItems inp). \<exists>name p. GetModelPricing (le_price_fault env name) name (le_prices env) = Inr p"
    using s m service_items_priced service_item_priced by (auto simp: ledger_services_of_def and_then_Inr) blast
  ultimately show ?thesis by blast
qed

text \<open>An auxiliary model that is priced by duration is never charged: its item has no duration.\<close>

lemma duration_items_free:
  assumes "mp_PricingMode p = ''duration''" and "it_DurationSeconds item = 0" and "it_Bill item = no_bill" and "it_CallBilledNanousd item = 0"
    and "price_item env inp p m item = Inr i"
  shows "it_BilledNanousd i = 0"
proof -
  have "NormalizePricingMode ''duration'' = ''duration''" by code_simp
  then show ?thesis using assms by (auto simp: price_item_def item_total_def Let_def mul64_def)
qed

section \<open>The estimate is the bill\<close>

text \<open>The usage of a call that used exactly what was estimated, at the speed and tier that were asked for.\<close>

definition as_estimated :: "usage_authorization option \<Rightarrow> nat \<Rightarrow> gotime \<Rightarrow> UsageEstimateInput \<Rightarrow> UsagePricingInput" where
  "as_estimated authorization userID t e =
     \<lparr>ui_Authorization = authorization, ui_UserID = userID, ui_ConversationID = 0, ui_PlatformModelName = ue_PlatformModelName e,
      ui_RoutedBindingCode = [], ui_ProviderProtocol = ue_ProviderProtocol e, ui_UpstreamName = [], ui_UpstreamModelName = ue_UpstreamModelName e,
      ui_CacheTimeout = ue_CacheTimeout e, ui_RequestSpeed = ue_RequestSpeed e, ui_UsageSpeed = ue_RequestSpeed e,
      ui_RequestServiceTier = ue_RequestServiceTier e, ui_UsageServiceTier = ue_RequestServiceTier e, ui_UsageSource = [], ui_BilledReason = [],
      ui_ServiceOnly = False, ui_InputTokens = ue_InputTokens e, ui_CacheReadTokens = ue_CacheReadTokens e,
      ui_CacheWriteTokens = ue_CacheWriteTokens e, ui_CacheWrite5mTokens = 0, ui_CacheWrite1hTokens = 0, ui_OutputTokens = ue_OutputTokens e,
      ui_ReasoningTokens = 0, ui_CallCount = ue_CallCount e, ui_DurationBillable = True, ui_DurationSeconds = ue_DurationSeconds e,
      ui_MediaType = [], ui_InputImageCount = 0, ui_LatencyMS = 0, ui_ServerSideToolUsage = [], ui_MCPToolUsage = [], ui_ServiceItems = [],
      ui_RawUsageJSON = [], ui_BillingAt = t\<rparr>"

lemma fast_as_asked: "isAnthropicFastMode protocol u u = isAnthropicFastMode protocol [] u"
proof -
  have "normalizeUsageSpeed [] = []" by code_simp
  then show ?thesis by (simp add: isAnthropicFastMode_def)
qed

lemma multiplier_as_estimated:
  "usage_multiplier (as_estimated a u t e) =
     resolveUsageRateMultiplier (trim_space (ue_ProviderProtocol e)) (trim_space (ue_PlatformModelName e)) (ue_UpstreamModelName e)
       (isAnthropicFastMode (trim_space (ue_ProviderProtocol e)) [] (normalizeUsageSpeed (ue_RequestSpeed e)))
       (resolveBillingServiceTier (trim_space (ue_ProviderProtocol e)) (normalizeOpenAIServiceTier (ue_RequestServiceTier e)))"
  by (simp add: usage_multiplier_def as_estimated_def fast_as_asked Let_def)

text \<open>With the same rates, the tokens cost the same: the cache writes go as a whole to the rate of the request's timeout.\<close>

lemma configured_write: "tr_cacheWrite (configured_rates i r w out basis protocol timeout) = resolveCacheWriteNanousdPerMTokens w basis protocol timeout"
  "tr_cacheWrite5m (configured_rates i r w out basis protocol timeout) = resolveCacheWriteNanousdPerMTokens w basis protocol ''5m''"
  "tr_cacheWrite1h (configured_rates i r w out basis protocol timeout) = resolveCacheWriteNanousdPerMTokens w basis protocol ''1h''"
  by (simp_all add: configured_rates_def)

lemma tokens_as_estimated:
  assumes "in_int64 (ue_CacheWriteTokens e)" and "in_int64 (ue_OutputTokens e)"
    and w: "writes = normalizeCacheWriteTokenBreakdown (ue_CacheWriteTokens e) 0 0 protocol (ue_CacheTimeout e)"
    and rates: "rates = configured_rates i r w out basis protocol (ue_CacheTimeout e)"
  shows "token_total (bill_tokens (ue_InputTokens e) (ue_CacheReadTokens e) writes (add64 (ue_OutputTokens e) 0) (multiplied m rates)) =
    calcEstimatedTokenNanousd e rates m"
proof -
  obtain T f h where t: "writes = (T, f, h)" by (cases writes) auto
  let ?rate = "\<lambda>timeout. applyRateMultiplier (resolveCacheWriteNanousdPerMTokens w basis protocol timeout) m"
  have "calcCacheWriteBilledNanousd T f h (?rate (ue_CacheTimeout e)) (?rate ''5m'') (?rate ''1h'') =
      calcNanousdByToken (clampNonNegative (ue_CacheWriteTokens e)) (?rate (ue_CacheTimeout e))"
    using assms(1) w t calc_in_range cache_rate_by_timeout [of w basis protocol "ue_CacheTimeout e"]
    by (intro cache_write_whole) simp_all
  then show ?thesis using assms(2)
    by (simp add: token_total_def bill_tokens_def t multiplied_def configured_write rates calcEstimatedTokenNanousd_def)
qed

lemma no_services:
  "ledger_services_of env (as_estimated a u t e) c = Inr s \<Longrightarrow> ls_billed s = 0"
  by (auto simp: ledger_services_of_def and_then_Inr Let_def as_estimated_def buildNativeToolServiceItems_def buildMCPToolServiceItems_def)

lemma context_multiplier:
  assumes "usage_context_of env inp = Inr c" and "uc_mode c \<noteq> ''self''" and "uc_pricing c = Some p" and "\<not> mp_IsFree p"
    and "found_or_nil (resolvePlatformModelIdentity env (trim_space (ui_PlatformModelName inp))) = Inr (Some i)"
    and "subscription_group env (ui_UserID inp) = Inr g"
    and "resolveGroupRatePercent env (ui_UserID inp) (pi_PlatformModelID i) g = Inr percent"
    and "ui_BillingAt inp = le_now env"
  shows "uc_multiplier c = scheduled_multiplier env p (le_now env) (composeRatePercent (usage_multiplier inp) percent)"
proof -
  let ?rate = "\<lambda>g. and_then (from_repo (resolveGroupRatePercent env (ui_UserID inp) (pi_PlatformModelID i) g))"
  obtain mode m1 pg where "mode \<noteq> ''self''"
    and m1: "(if mode = ''self'' then Inr (usage_multiplier inp, None)
        else and_then (from_repo (subscription_group env (ui_UserID inp)))
          (\<lambda>g. ?rate g (\<lambda>percent. Inr (composeRatePercent (usage_multiplier inp) percent, g)))) = Inr (m1, pg)"
    and c: "uc_multiplier c = (case resolveSchedulePeriodJSON (le_loc env) (le_periods env) (mp_SchedulePricingJSON p) (le_now env) of
        None \<Rightarrow> m1 | Some s \<Rightarrow> composeRatePercent m1 (rs_RatePercent s))"
    using assms(1)
    apply (simp only: usage_context_of_def and_then_Inr Let_def assms(5))
    apply (elim exE conjE)
    using assms(2,3,4,8)
    by (clarsimp simp: and_then_Inr)
  then have "m1 = composeRatePercent (usage_multiplier inp) percent" by (simp add: assms(6,7))
  then show ?thesis using c by (auto simp: scheduled_multiplier_def split: option.splits)
qed

lemma estimated_call:
  assumes "estimate_of env e p m = Inr cost" and "ledger_rates_of env (as_estimated a u t e) c = Inr r"
    and "uc_pricing c = Some p" and "\<not> mp_IsFree p" and "uc_mode c \<noteq> ''self''" and "uc_multiplier c = m"
    and "uc_writes c = normalizeCacheWriteTokenBreakdown (ue_CacheWriteTokens e) 0 0 (trim_space (ue_ProviderProtocol e)) (ue_CacheTimeout e)"
    and i: "in_int64 (ue_CacheWriteTokens e)" "in_int64 (ue_OutputTokens e)"
  shows "call_total (ledger_bill_of env (as_estimated a u t e) c r) = cost"
proof -
  define mode where "mode = NormalizePricingMode (mp_PricingMode p)"
  have pm: "pricing_mode_of c = mode" by (simp add: pricing_mode_of_def assms(3) mode_def)
  have modes: "mode = ''call'' \<or> mode = ''duration'' \<or> mode = ''tiered'' \<or> mode = ''token''"
    by (simp add: mode_def NormalizePricingMode_def Let_def)
  have w: "fst (uc_writes c) = clampNonNegative (ue_CacheWriteTokens e)" if "in_int64 (ue_CacheWriteTokens e)"
    using breakdown_anthropic_whole that unfolding assms(7)
    by (cases "is_anthropic (trim_space (ue_ProviderProtocol e))") (simp_all add: normalizeCacheWriteTokenBreakdown_def Let_def)
  show ?thesis
    using modes
  proof (elim disjE)
    assume "mode = ''call''"
    then show ?thesis using assms(1-6) pm
      by (auto simp: estimate_of_def ledger_rates_of_def ledger_bill_of_def Let_def mode_def [symmetric] call_total_def as_estimated_def)
  next
    assume "mode = ''duration''"
    then show ?thesis using assms(1-6) pm
      by (auto simp: estimate_of_def ledger_rates_of_def ledger_bill_of_def Let_def mode_def [symmetric] call_total_def as_estimated_def duration_seconds_def)
  next
    assume md: "mode = ''tiered''"
    obtain tiers where ti: "parseTieredPricingTiers (le_usd env) (le_tiers env) (mp_TieredPricingJSON p) = Inr tiers"
      using assms(1) md by (auto simp: estimate_of_def Let_def mode_def [symmetric] and_then_Inr from_repo_Inr)
    have ti': "parseTieredPricingTiers (le_usd env) (le_tiers env) (trim_space (mp_TieredPricingJSON p)) = Inr tiers"
      using ti by (cases "trim_space (mp_TieredPricingJSON p) = []") (simp_all add: parseTieredPricingTiers_def Let_def)
    define tier where "tier = rt_tier (resolveTieredPricingTier (zero_tier (le_zero env))
      (tieredPricingInputTokens (ue_InputTokens e) (ue_CacheReadTokens e) (ue_CacheWriteTokens e)) tiers)"
    have n: "tieredPricingInputTokens x y (clampNonNegative z) = tieredPricingInputTokens x y z" for x y z
      by (simp add: tieredPricingInputTokens_def)
    let ?base = "tier_rates tier (mp_CacheWritePriceBasis p) (trim_space (ue_ProviderProtocol e)) (ue_CacheTimeout e)"
    have r: "lr_tiers r = tiers" using assms(2-5) md pm ti'
      by (auto simp: ledger_rates_of_def Let_def as_estimated_def)
    have "call_total (ledger_bill_of env (as_estimated a u t e) c r) =
        token_total (bill_tokens (ue_InputTokens e) (ue_CacheReadTokens e) (uc_writes c) (add64 (ue_OutputTokens e) 0) (multiplied m ?base))"
      using md pm assms(3,6) w [OF i(1)]
      by (simp add: ledger_bill_of_def Let_def as_estimated_def call_total_def r tier_def n token_total_def)
    also have "\<dots> = calcEstimatedTokenNanousd e ?base m"
      by (rule tokens_as_estimated [OF i assms(7) tier_rates_def])
    also have "\<dots> = cost" using assms(1) md ti
      by (simp add: estimate_of_def Let_def mode_def [symmetric] tier_def)
    finally show ?thesis .
  next
    assume md: "mode = ''token''"
    let ?base = "model_rates p (trim_space (ue_ProviderProtocol e)) (ue_CacheTimeout e)"
    have r: "lr_rates r = multiplied m ?base" using assms(2-6) md pm
      by (auto simp: ledger_rates_of_def Let_def as_estimated_def)
    have "call_total (ledger_bill_of env (as_estimated a u t e) c r) =
        token_total (bill_tokens (ue_InputTokens e) (ue_CacheReadTokens e) (uc_writes c) (add64 (ue_OutputTokens e) 0) (multiplied m ?base))"
      using md pm by (simp add: ledger_bill_of_def Let_def as_estimated_def call_total_def r token_total_def)
    also have "\<dots> = calcEstimatedTokenNanousd e ?base m"
      by (rule tokens_as_estimated [OF i assms(7) model_rates_def])
    also have "\<dots> = cost" using assms(1) md by (simp add: estimate_of_def Let_def mode_def [symmetric])
    finally show ?thesis .
  qed
qed

text \<open>@C:Billing_Ledger.estimate_is_bill@
  The estimate that decides whether a user can afford a call and the bill that is settled afterwards agree: if
  the call uses exactly what was estimated, at the same instant and for a listed model, the ledger entry bills
  the estimated amount to the nano dollar, in every pricing mode, with the same tier, cache-write rates,
  speed and service tier, group rate and time of day.
\<close>

lemma estimate_is_bill:
  assumes "EstimateUsageNanousd env userID e = Inr cost"
    and "BuildUsageLedger env (as_estimated (Some a) userID (le_now env) e) = Inr l" and "trim_space (ua_Mode a) \<notin> {[], ''self''}"
    and "resolvePlatformModelIdentity env (trim_space (ue_PlatformModelName e)) = Inr i"
    and "pi_PlatformModelName i = trim_space (ue_PlatformModelName e)"
    and "in_int64 (ue_CacheWriteTokens e)" and "in_int64 (ue_OutputTokens e)"
  shows "ul_BilledNanousd l = cost"
proof -
  let ?name = "trim_space (ue_PlatformModelName e)" and ?inp = "as_estimated (Some a) userID (le_now env) e"
  obtain c r s where c: "usage_context_of env ?inp = Inr c" and r: "ledger_rates_of env ?inp c = Inr r"
    and s: "ledger_services_of env ?inp c = Inr s"
    and b: "ul_BilledNanousd l = add64 (call_total (ledger_bill_of env ?inp c r)) (ls_billed s)"
    by (rule ledger_cases [OF assms(2)])
  have mode: "uc_mode c \<noteq> ''self''" using context_mode [OF c] assms(3) by (simp add: as_estimated_def)
  have named: "?name \<noteq> []" using assms(4) by (auto simp: resolvePlatformModelIdentity_def)
  have price: "getResolvedModelPricing env ?name = GetModelPricing (le_price_fault env ?name) ?name (le_prices env)"
    using assms(4,5) named by (simp add: getResolvedModelPricing_def Let_def)
  have id: "found_or_nil (resolvePlatformModelIdentity env ?name) = Inr (Some i)" by (simp add: assms(4) found_or_nil_def)
  have found: "found_or_nil (GetModelPricing (le_price_fault env ?name) ?name (le_prices env)) = Inr (uc_pricing c)"
    "check_pricing ?inp (uc_mode c) (uc_pricing c) = Inr ()"
    using context_pricing [OF c] by (simp_all add: as_estimated_def)
  obtain p where "uc_pricing c = Some p"
    using found(2) mode by (cases "uc_pricing c") (simp_all add: check_pricing_def as_estimated_def)
  then have p: "uc_pricing c = Some p" "found_or_nil (GetModelPricing (le_price_fault env ?name) ?name (le_prices env)) = Inr (Some p)"
    using found(1) by simp_all
  show ?thesis
  proof (cases "mp_IsFree p")
    case True
    then have "r = no_ledger_rates" using r rates_of_unbilled [of c ?inp env] p(1) by simp
    moreover have "cost = 0" using assms(1) p(2) True id price by (simp add: EstimateUsageNanousd_def Let_def)
    ultimately show ?thesis using b no_services [OF s] by (simp add: unbilled_call)
  next
    case False
    define m0 where "m0 = usage_multiplier ?inp"
    obtain g percent where g: "subscription_group env userID = Inr g"
      "resolveGroupRatePercent env userID (pi_PlatformModelID i) g = Inr percent"
      "estimate_of env e p (scheduled_multiplier env p (le_now env) (composeRatePercent m0 percent)) = Inr cost"
      using assms(1) p(2) False id price
      by (auto simp: EstimateUsageNanousd_def Let_def and_then_Inr from_repo_Inr m0_def multiplier_as_estimated)
    have m: "uc_multiplier c = scheduled_multiplier env p (le_now env) (composeRatePercent m0 percent)"
      unfolding m0_def by (rule context_multiplier [OF c mode p(1) False]) (use id g in \<open>simp_all add: as_estimated_def\<close>)
    have w: "uc_writes c = normalizeCacheWriteTokenBreakdown (ue_CacheWriteTokens e) 0 0 (trim_space (ue_ProviderProtocol e)) (ue_CacheTimeout e)"
      using context_pricing(3) [OF c] by (simp add: as_estimated_def)
    have "call_total (ledger_bill_of env ?inp c r) = cost"
      by (rule estimated_call [OF g(3) r p(1) False mode m w assms(6,7)])
    then show ?thesis using b no_services [OF s] by (auto simp: call_total_def)
  qed
qed

section \<open>A sample call\<close>

definition sample_price :: model_pricing where
  "sample_price = \<lparr>mp_ID = 1, mp_PlatformModelName = ''m'', mp_Currency = ''USD'', mp_IsFree = False, mp_PricingMode = ''token'',
     mp_InputNanousdPerMTokens = 3000000000, mp_CacheReadNanousdPerMTokens = 300000000, mp_CacheWriteNanousdPerMTokens = 3750000000,
     mp_CacheWritePriceBasis = [], mp_OutputNanousdPerMTokens = 15000000000, mp_CallNanousdPerCall = 0,
     mp_DurationNanousdPerSecond = 0, mp_TieredPricingJSON = [], mp_SchedulePricingJSON = []\<rparr>"

definition sample_env :: "int ledger_env" where
  "sample_env = \<lparr>le_now = 1000, le_loc = utc, le_upper = id, le_settings = Map.empty, le_prices = \<lparr>pd_rows = [sample_price], pd_lastID = 1\<rparr>,
     le_db = empty_billing_db, le_mode_fault = None, le_price_fault = (\<lambda>_. None), le_enabled_fault = None, le_json_fault = None,
     le_query_faults = no_query_faults, le_identity = None, le_group_rate = Some (\<lambda>_ _ _. Inr 50), le_catalog = None, le_usd = id, le_zero = 0,
     le_tiers = (\<lambda>_. Inr []), le_periods = (\<lambda>_. None), le_overrides = (\<lambda>_. None), le_usage_json = (\<lambda>_. None), le_marshal = (\<lambda>_. None),
     le_float = (\<lambda>(a, b). JInt a)\<rparr>"

definition sample_estimate :: UsageEstimateInput where
  "sample_estimate = \<lparr>ue_PlatformModelName = '' m'', ue_ProviderProtocol = ''anthropic'', ue_UpstreamModelName = [], ue_CacheTimeout = [],
     ue_RequestSpeed = [], ue_RequestServiceTier = [], ue_InputTokens = 1000, ue_CacheReadTokens = 100, ue_CacheWriteTokens = 200,
     ue_OutputTokens = 300, ue_CallCount = 1, ue_DurationSeconds = 0\<rparr>"

definition sample_grant :: "string \<Rightarrow> usage_authorization" where
  "sample_grant mode = \<lparr>ua_Mode = mode, ua_RefNo = ''r'', ua_Reservation = None\<rparr>"

definition sample_usage :: "string \<Rightarrow> UsagePricingInput" where
  "sample_usage mode = as_estimated (Some (sample_grant mode)) 1 1000 sample_estimate"

definition sample_tools :: "string \<Rightarrow> UsagePricingInput" where
  "sample_tools mode = (sample_usage mode)\<lparr>ui_MCPToolUsage := [\<lparr>mi_ServerID = 1, mi_ServerName = ''s'', mi_ToolName = ''t'', mi_CallCount = 2,
     mi_PriceNanousd = 500\<rparr>]\<rparr>"

definition sample_entry :: "UsagePricingInput \<Rightarrow> usage_ledger" where
  "sample_entry inp = projr (BuildUsageLedger sample_env inp)"

definition builds :: "UsagePricingInput \<Rightarrow> bool" where
  "builds inp \<longleftrightarrow> \<not> isl (BuildUsageLedger sample_env inp)"

lemma sample_built: "builds inp \<Longrightarrow> BuildUsageLedger sample_env inp = Inr (sample_entry inp)"
  by (cases "BuildUsageLedger sample_env inp") (simp_all add: builds_def sample_entry_def)

lemma sample_builds: "builds (sample_usage ''usage'')" "builds (sample_tools ''usage'')" "builds (sample_tools ''self'')"
  by code_simp+

lemma sample_modes: "trim_space ''self'' = ''self''" "trim_space ''usage'' = ''usage''"
  by code_simp+

theorem self_mode_bills_nothing_witness:
  "ul_BilledNanousd (sample_entry (sample_tools ''self'')) = 0 \<and> ul_BilledNanousd (sample_entry (sample_tools ''usage'')) \<noteq> 0"
  using self_mode_bills_nothing [OF sample_built [OF sample_builds(3)], of "sample_grant ''self''"]
  by (simp add: sample_tools_def [of "''self''"] sample_usage_def [of "''self''"] as_estimated_def sample_grant_def sample_modes) code_simp

theorem free_flag_keeps_charges_witness:
  "usage_charge (sample_entry (sample_tools ''usage'')) = ul_BilledNanousd (sample_entry (sample_tools ''usage''))"
proof -
  have "0 \<le> ul_BilledNanousd (sample_entry (sample_tools ''usage''))" by code_simp
  then show ?thesis using free_flag_keeps_charges [OF sample_built [OF sample_builds(2)]] by simp
qed

theorem unpriced_call_refused_witness:
  "\<exists>p. GetModelPricing None ''m'' (le_prices sample_env) = Inr p"
proof -
  have n: "trim_space (ui_PlatformModelName (sample_usage ''usage'')) = ''m''" "\<not> ui_ServiceOnly (sample_usage ''usage'')"
    "le_price_fault sample_env ''m'' = None" "ui_Authorization (sample_usage ''usage'') = Some (sample_grant ''usage'')"
    "trim_space (ua_Mode (sample_grant ''usage'')) \<notin> {[], ''self''}"
    by code_simp+
  show ?thesis using unpriced_call_refused [OF sample_built [OF sample_builds(1)] n(4,5)] n(1-3) by auto
qed

theorem estimate_is_bill_witness:
  "\<exists>cost. EstimateUsageNanousd sample_env 1 sample_estimate = Inr cost \<and> cost \<noteq> 0 \<and> ul_BilledNanousd (sample_entry (sample_usage ''usage'')) = cost"
proof -
  obtain cost where c: "EstimateUsageNanousd sample_env 1 sample_estimate = Inr cost" "cost \<noteq> 0"
  proof (cases "EstimateUsageNanousd sample_env 1 sample_estimate")
    case (Inl e)
    moreover have "\<not> isl (EstimateUsageNanousd sample_env 1 sample_estimate)" by code_simp
    ultimately show ?thesis by simp
  next
    case (Inr b)
    moreover have "projr (EstimateUsageNanousd sample_env 1 sample_estimate) \<noteq> 0" by code_simp
    ultimately show ?thesis using that by simp
  qed
  have b: "BuildUsageLedger sample_env (as_estimated (Some (sample_grant ''usage'')) 1 (le_now sample_env) sample_estimate) =
      Inr (sample_entry (sample_usage ''usage''))"
    using sample_built [OF sample_builds(1)] by (simp add: sample_usage_def sample_env_def)
  have i: "trim_space (ua_Mode (sample_grant ''usage'')) \<notin> {[], ''self''}"
    "in_int64 (ue_CacheWriteTokens sample_estimate)" "in_int64 (ue_OutputTokens sample_estimate)"
    "resolvePlatformModelIdentity sample_env (trim_space (ue_PlatformModelName sample_estimate)) = Inr (no_identity\<lparr>pi_PlatformModelName := ''m''\<rparr>)"
    "pi_PlatformModelName (no_identity\<lparr>pi_PlatformModelName := ''m''\<rparr>) = trim_space (ue_PlatformModelName sample_estimate)"
    by code_simp+
  show ?thesis using c estimate_is_bill [OF c(1) b i(1,4,5,2,3)] by blast
qed

end
