(* ===== verification/Billing_Audit.thy ===== *)
theory Billing_Audit
  imports Billing_Plans
begin

text \<open>
  The billing database under any sequence of its operations: each constructor of the step relation is
  one exported method of the repository that writes, with any arguments that fit Go's types, any clock
  and any fault of the database. What holds of every step holds of every history of the service.
\<close>

section \<open>Tables an operation leaves alone\<close>

definition side :: "billing_db \<Rightarrow> billing_db \<Rightarrow> bool" where
  "side db db' \<longleftrightarrow> db_orders db' = db_orders db \<and> db_codes db' = db_codes db \<and> db_redemptions db' = db_redemptions db \<and>
     db_plans db' = db_plans db \<and> db_prices db' = db_prices db \<and> db_subscriptions db' = db_subscriptions db \<and>
     db_lastID db \<le> db_lastID db'"

lemma side_refl [simp]: "side db db"
  by (simp add: side_def)

lemma side_trans: "side a b \<Longrightarrow> side b c \<Longrightarrow> side a c"
  by (simp add: side_def)

lemma side_primitives:
  "getOrCreateBillingAccountForUpdate u db = Inr (a, db1) \<Longrightarrow> side db db1"
  "insert_ledger l db = Inr (n, db1) \<Longrightarrow> side db db1"
  "add_to_balance u d db = Inr (x, db1) \<Longrightarrow> side db db1"
  "side db (update_balance u b db)" "side db (snd (insert_transaction t db))" "side db (update_reservations c f db)"
  "side db (settleUsageReservation at row m db)" "insert_reservation r db = (r', db1) \<Longrightarrow> side db db1"
  "update_where c f db = Inr (y, db1) \<Longrightarrow> side db db1"
  by (auto simp: side_def getOrCreateBillingAccountForUpdate_def insert_ledger_def add_to_balance_def insert_transaction_def
      update_reservations_def settleUsageReservation_def insert_reservation_def update_where_def Let_def
      split: if_splits option.splits sum.splits)

lemmas side_frames = side_primitives(4-7) [unfolded side_def]

lemma side_debit: "debit_usage a u amount b n r d db = Inr (x, db1) \<Longrightarrow> side db db1"
  by (auto simp: debit_usage_def side_frames split: if_splits sum.splits dest!: side_primitives(3) simp: side_def intro: le_trans)

lemma side_post: "post_usage t a l amount b row r d db = Inr (x, db1) \<Longrightarrow> side db db1"
  by (auto simp: post_usage_def side_frames split: sum.splits dest!: side_primitives(2) side_debit simp: side_def
      intro: le_trans [OF le_trans])

lemma side_reserve: "reserve_body now i db = Inr (r, db1) \<Longrightarrow> side db db1"
  by (auto simp: reserve_body_def Let_def side_def split: if_splits sum.splits option.splits
      dest!: side_primitives(1,8))

lemma side_raise: "raise_body now u ref required db = Inr (x, db1) \<Longrightarrow> side db db1"
  by (auto simp: raise_body_def Let_def side_frames split: if_splits sum.splits option.splits dest!: side_primitives(1)
      simp: side_def)

lemma side_release: "release_body now u ref db = Inr (x, db1) \<Longrightarrow> side db db1"
  by (auto simp: release_body_def split: if_splits option.splits intro: side_primitives(6))

lemma side_add_usage: "add_usage_body usage db = Inr (y, db1) \<Longrightarrow> side db db1"
  by (auto simp: add_usage_body_def split: sum.splits option.splits dest: side_primitives(2))

lemma side_settle_usage: "settle_usage_body t usage res db = Inr (y, db1) \<Longrightarrow> side db db1"
  by (auto simp: settle_usage_body_def Let_def split: if_splits sum.splits option.splits dest!: side_primitives(1) side_post
      simp: side_def)

lemma side_post_period: "post_period_usage codec now t usage s e credit a row res db = Inr (y, db1) \<Longrightarrow> side db db1"
  by (simp add: post_period_usage_def Let_def split: sum.splits prod.splits) (erule side_post)

lemma side_settle_period: "settle_period_body codec now t usage s e credit res db = Inr (y, db1) \<Longrightarrow> side db db1"
  by (auto simp: settle_period_body_def split: if_splits sum.splits option.splits
      dest!: side_primitives(1) side_post_period simp: side_def)

lemma side_set_balance: "set_balance_body u b ref descr db = Inr (a, db1) \<Longrightarrow> side db db1"
  by (auto simp: set_balance_body_def Let_def side_def split: if_splits sum.splits option.splits dest!: side_primitives(1))

lemmas side_bodies = side_reserve side_raise side_release side_add_usage side_settle_usage side_settle_period side_set_balance

lemma transaction_side: "(\<And>x db1. body db = Inr (x, db1) \<Longrightarrow> side db db1) \<Longrightarrow> side db (snd (transaction fault body db))"
  by (auto simp: transaction_def split: option.splits sum.splits)

section \<open>The operations as steps\<close>

text \<open>
  The arguments of type \<open>int64\<close> are in its range; nothing else is assumed of a call. The codec of the
  pricing snapshots, the encoder of redemption snapshots and Unicode's upper case are fixed.
\<close>

inductive billing_step ::
  "'j json_codec \<Rightarrow> ((string \<times> json_scalar) list \<Rightarrow> string option) \<Rightarrow> (string \<Rightarrow> string) \<Rightarrow> billing_db \<Rightarrow> billing_db \<Rightarrow> bool"
  for codec encode upper where
  reserve: "in_int64 (rq_PeriodCreditNanousd inp) \<Longrightarrow>
    billing_step codec encode upper db (snd (ReserveUsageBalance fault now inp db))"
| raise: "in_int64 required \<Longrightarrow>
    billing_step codec encode upper db (snd (RaiseUsageBalanceReservation fault now u ref required db))"
| release: "billing_step codec encode upper db (snd (ReleaseUsageBalanceReservation fault now u ref db))"
| renew: "billing_step codec encode upper db (snd (RenewUsageBalanceReservation fault now u ref db))"
| mark: "billing_step codec encode upper db (snd (MarkUsageReservationReconciliationRequired fault now u ref failure db))"
| add_usage: "billing_step codec encode upper db (snd (AddUsage fault usage db))"
| settle_usage: "(\<And>u. usage = Some u \<Longrightarrow> in_int64 (ul_BilledNanousd u)) \<Longrightarrow>
    billing_step codec encode upper db (snd (AddUsageAndSettleBalance fault t usage res db))"
| settle_period: "(\<And>u. usage = Some u \<Longrightarrow> in_int64 (ul_BilledNanousd u)) \<Longrightarrow> in_int64 credit \<Longrightarrow>
    billing_step codec encode upper db (snd (AddPeriodUsageAndSettleOverage codec fault now t usage s e credit res db))"
| get_account: "billing_step codec encode upper db (snd (GetOrCreateBillingAccount fault u db))"
| set_balance: "in_int64 b \<Longrightarrow> billing_step codec encode upper db (snd (SetBillingAccountBalance fault u b ref descr db))"
| create_order: "billing_step codec encode upper db (snd (CreatePaymentOrder upper fault item db))"
| update_checkout: "billing_step codec encode upper db (snd (UpdatePaymentOrderCheckout fault no cid url db))"
| pay_credit: "billing_step codec encode upper db (snd (MarkPaymentOrderPaidAndCreditBalance fault now no ext paidAt db))"
| pay_grant: "billing_step codec encode upper db (snd (MarkPaymentOrderPaidAndGrantSubscription fault now no ext paidAt sub db))"
| redeem: "billing_step codec encode upper db (snd (RedeemCode encode fault now rinp db))"
| create_code: "billing_step codec encode upper db (snd (CreateRedemptionCode fault code db))"
| patch_code: "billing_step codec encode upper db (snd (PatchRedemptionCode fault i patch db))"
| delete_code: "billing_step codec encode upper db (snd (DeleteRedemptionCode fault i db))"
| create_subscription: "billing_step codec encode upper db (snd (CreateSubscription fault sub0 db))"
| replace_subscription: "billing_step codec encode upper db (snd (ReplaceSubscription fault now sub db))"
| update_plan: "billing_step codec encode upper db (snd (UpdatePlanWithDefaultPrice upper fault plan price db))"

text \<open>The steps that only account for use touch accounts, audit trail, reservations and ledger.\<close>

lemma usage_steps_side:
  "side db (snd (ReserveUsageBalance fault now inp db))"
  "side db (snd (RaiseUsageBalanceReservation fault now u ref required db))"
  "side db (snd (ReleaseUsageBalanceReservation fault now u ref db))"
  "side db (snd (RenewUsageBalanceReservation fault now u ref db))"
  "side db (snd (MarkUsageReservationReconciliationRequired fault now u ref failure db))"
  "side db (snd (AddUsage fault usage db))"
  "side db (snd (AddUsageAndSettleBalance fault t usage res db))"
  "side db (snd (AddPeriodUsageAndSettleOverage codec fault now t usage s e credit res db))"
  "side db (snd (GetOrCreateBillingAccount fault u db))"
  "side db (snd (SetBillingAccountBalance fault u b ref descr db))"
  by (auto simp: ReserveUsageBalance_def RaiseUsageBalanceReservation_def ReleaseUsageBalanceReservation_def
      RenewUsageBalanceReservation_def MarkUsageReservationReconciliationRequired_def AddUsage_def
      AddUsageAndSettleBalance_def AddPeriodUsageAndSettleOverage_def GetOrCreateBillingAccount_def
      SetBillingAccountBalance_def Let_def split: option.splits
      intro!: transaction_side dest: side_bodies side_primitives(1,9))

lemma update_plan_same_books: "same_books db (snd (UpdatePlanWithDefaultPrice upper fault plan price db))"
  by (auto simp: UpdatePlanWithDefaultPrice_def update_plan_body_def transaction_def same_books_def Let_def
      split: option.splits sum.splits if_splits)

lemma billing_step_good: "billing_step codec encode upper db db' \<Longrightarrow> billing_inv db \<Longrightarrow> good_step db db'"
proof (induction rule: billing_step.induct)
  case (settle_usage usage db fault t res)
  then show ?case
    by (auto simp: AddUsageAndSettleBalance_def good_step_refl intro!: transaction_good_step split: option.splits
        elim: settle_usage_step)
next
  case (settle_period usage credit db fault now t s e res)
  then show ?case
    by (auto simp: AddPeriodUsageAndSettleOverage_def good_step_refl intro!: transaction_good_step split: option.splits
        elim: settle_period_step)
next
  case (update_plan db fault plan price)
  then show ?case using same_books_good_step update_plan_same_books by blast
qed (auto intro: reserve_step raise_step release_step renew_step mark_step add_usage_step get_account_step set_balance_step
    create_order_step update_checkout_step mark_credit_step mark_grant_step redeem_code_step code_steps subscription_steps)

type_synonym 'j billing_env = "'j json_codec \<times> ((string \<times> json_scalar) list \<Rightarrow> string option) \<times> (string \<Rightarrow> string)"

definition billing_run :: "'j billing_env \<Rightarrow> billing_db \<Rightarrow> billing_db \<Rightarrow> bool" where
  "billing_run env = (case env of (codec, encode, upper) \<Rightarrow> (billing_step codec encode upper)\<^sup>*\<^sup>*)"

lemma billing_run_induct [consumes 1, case_names start step]:
  assumes "billing_run env db db'" and "P db"
    and "\<And>x y codec encode upper. env = (codec, encode, upper) \<Longrightarrow> billing_run env db x \<Longrightarrow> billing_step codec encode upper x y \<Longrightarrow> P x \<Longrightarrow> P y"
  shows "P db'"
proof -
  obtain codec encode upper where env: "env = (codec, encode, upper)" by (cases env)
  have "(billing_step codec encode upper)\<^sup>*\<^sup>* db db'" using assms(1) by (simp add: billing_run_def env)
  then show ?thesis using assms(2,3) by (induction rule: rtranclp_induct) (auto simp: billing_run_def env)
qed

text \<open>
  What a client of the database may rely on over a history: an invariant \<open>I\<close> that every step keeps, and a
  relation \<open>R\<close> between the states before and after that every step respects and that composes.
\<close>

locale run_invariant =
  fixes env :: "'j billing_env" and I :: "billing_db \<Rightarrow> bool" and R :: "billing_db \<Rightarrow> billing_db \<Rightarrow> bool"
  assumes same: "I x \<Longrightarrow> R x x"
    and compose: "R x y \<Longrightarrow> R y z \<Longrightarrow> R x z"
    and step: "env = (codec, encode, upper) \<Longrightarrow> billing_step codec encode upper x y \<Longrightarrow> I x \<Longrightarrow> I y \<and> R x y"
begin

lemma run:
  assumes "billing_run env x y" and "I x"
  shows "I y \<and> R x y"
  using assms(1)
proof (induction rule: billing_run_induct)
  case start
  then show ?case using same assms(2) by blast
next
  case (step u v codec encode upper)
  have "I v \<and> R u v" by (rule run_invariant.step [OF run_invariant_axioms step(1,3)]) (use step(4) in blast)
  then show ?case using compose step(4) by blast
qed

end

lemma posts_keeps_books: "billing_step codec encode upper x y \<Longrightarrow> billing_inv x \<Longrightarrow>
    billing_inv y \<and> history x y \<and> (books x \<longrightarrow> books y)"
  using billing_step_good posts_books by (fastforce simp: good_step_def)

interpretation rows: run_invariant env billing_inv "\<lambda>x y. history x y \<and> (books x \<longrightarrow> books y)" for env
  by unfold_locales (auto intro: history_trans dest: posts_keeps_books)

section \<open>Books and retries\<close>

text \<open>
  C2: the books balance: after any sequence of operations, each with any arguments and any fault of
  the database, the balance of every user is the sum of the user's balance transactions (in the 64 bits
  of the column), and every transaction records the balance it left behind.
\<close>

theorem books_balanced:
  assumes "billing_run env db db'" and "billing_inv db" and "books db"
  shows "balance_of db' u = wrap64 (net u (db_transactions db')) \<and>
    (\<forall>xs t ys. db_transactions db' = xs @ t # ys \<longrightarrow> bt_BalanceAfterNanousd t = wrap64 (net (bt_UserID t) (xs @ [t])))"
  using rows.run [OF assms(1,2)] assms(3) unfolding books_def by blast

text \<open>
  C7: a call is charged once. When a settlement succeeded and the caller did not get the answer, it
  may repeat it after any number of other operations, at any time and with any other figures: it is
  answered with the ledger row of the first settlement, and nothing changes.
\<close>

theorem settlement_idempotent:
  assumes "AddUsageAndSettleBalance fault t (Some usage) res db = (Inr r, db1)" and "billing_inv db"
    and "in_int64 (ul_BilledNanousd usage)" and "res \<noteq> None \<or> trim_space (ul_RefNo usage) \<noteq> []"
    and "billing_run env db1 db2"
  shows "\<exists>l \<in> set (db_ledgers db1). \<forall>t' again. ul_UserID again = ul_UserID usage \<longrightarrow> ul_RefNo again = ul_RefNo usage \<longrightarrow>
    AddUsageAndSettleBalance None t' (Some again) res db2 = (Inr (Some l), db2)"
proof -
  have body: "settle_usage_body t usage res db = Inr (r, db1)"
    using assms(1) by (simp add: AddUsageAndSettleBalance_def transaction_commit)
  have inv: "billing_inv db1" using settle_usage_step [OF body assms(2,3)] by (simp add: good_step_def)
  obtain l where l: "recorded (ul_UserID usage) (\<lambda>r. ur_Mode r = ''usage'') res (ul_RefNo usage) l db1"
    using settle_usage_recorded [OF body assms(2-4)] by blast
  note run = rows.run [OF assms(5) inv]
  have "recorded (ul_UserID usage) (\<lambda>r. ur_Mode r = ''usage'') res (ul_RefNo usage) l db2"
    by (rule recorded_history [OF l]) (use run in simp)
  then have "AddUsageAndSettleBalance None t' (Some again) res db2 = (Inr (Some l), db2)"
    if "ul_UserID again = ul_UserID usage" "ul_RefNo again = ul_RefNo usage" for t' again
    using recorded_usage_replay [of again res l db2 t'] that run by simp
  moreover have "l \<in> set (db_ledgers db1)" using l by (simp add: recorded_def)
  ultimately show ?thesis by blast
qed

text \<open>
  C21: the same holds for a call under a plan, as long as the period and the credit of the plan are the
  same in the repeated call.
\<close>

theorem period_settlement_idempotent:
  assumes "AddPeriodUsageAndSettleOverage codec fault now t (Some usage) s e credit res db = (Inr r, db1)" and "billing_inv db"
    and "in_int64 (ul_BilledNanousd usage)" and "in_int64 credit" and "res \<noteq> None \<or> trim_space (ul_RefNo usage) \<noteq> []"
    and "billing_run env db1 db2"
  shows "\<exists>l \<in> set (db_ledgers db1). \<forall>now' t' again. ul_UserID again = ul_UserID usage \<longrightarrow> ul_RefNo again = ul_RefNo usage \<longrightarrow>
    AddPeriodUsageAndSettleOverage codec None now' t' (Some again) s e credit res db2 = (Inr (Some l), db2)"
proof -
  have body: "settle_period_body codec now t usage s e credit res db = Inr (r, db1)"
    and args: "ul_UserID usage \<noteq> 0" "\<not> is_zero s" "s < e" "\<not> credit < 0"
    using assms(1) by (auto simp: AddPeriodUsageAndSettleOverage_def transaction_commit split: if_splits)
  have inv: "billing_inv db1" using settle_period_step [OF body assms(2-4)] by (simp add: good_step_def)
  obtain l where l: "recorded (ul_UserID usage) (\<lambda>r. matchesPeriodReservation r s e credit) res (ul_RefNo usage) l db1"
    using settle_period_recorded [OF body assms(2-5)] by blast
  note run = rows.run [OF assms(6) inv]
  have "recorded (ul_UserID usage) (\<lambda>r. matchesPeriodReservation r s e credit) res (ul_RefNo usage) l db2"
    by (rule recorded_history [OF l]) (use run in simp)
  then have "AddPeriodUsageAndSettleOverage codec None now' t' (Some again) s e credit res db2 = (Inr (Some l), db2)"
    if "ul_UserID again = ul_UserID usage" "ul_RefNo again = ul_RefNo usage" for now' t' again
    using recorded_period_replay [of again s e credit res l db2 codec now' t'] that run args
    by (simp add: AddPeriodUsageAndSettleOverage_def transaction_def)
  moreover have "l \<in> set (db_ledgers db1)" using l by (simp add: recorded_def)
  ultimately show ?thesis by blast
qed

section \<open>Paid orders\<close>

definition paid_in :: "string \<Rightarrow> billing_db \<Rightarrow> bool" where
  "paid_in no db \<longleftrightarrow> (\<exists>order. db_orders db no = Some order \<and> po_Status order = ''paid'')"

definition orders_kept :: "billing_db \<Rightarrow> billing_db \<Rightarrow> bool" where
  "orders_kept db db' \<longleftrightarrow> (\<forall>no. paid_in no db \<longrightarrow> paid_in no db')"

lemma orders_kept_same: "db_orders db' = db_orders db \<Longrightarrow> orders_kept db db'"
  by (simp add: orders_kept_def paid_in_def)

lemma side_orders: "side db db' \<Longrightarrow> orders_kept db db'"
  by (rule orders_kept_same) (simp add: side_def)

lemma orders_kept_trans: "orders_kept a b \<Longrightarrow> orders_kept b c \<Longrightarrow> orders_kept a c"
  by (simp add: orders_kept_def)

lemma orders_kept_write: "db_orders db' = (db_orders db)(no \<mapsto> order) \<Longrightarrow> po_Status order = ''paid'' \<Longrightarrow> orders_kept db db'"
  by (auto simp: orders_kept_def paid_in_def)

lemma transaction_orders_kept:
  "(\<And>x db1. body db = Inr (x, db1) \<Longrightarrow> orders_kept db db1) \<Longrightarrow> orders_kept db (snd (transaction fault body db))"
  by (auto simp: transaction_def orders_kept_same split: option.splits sum.splits)

lemma pay_orders_kept:
  assumes "billing_inv db"
  shows "orders_kept db (snd (MarkPaymentOrderPaidAndCreditBalance fault now no ext paidAt db))"
    "orders_kept db (snd (MarkPaymentOrderPaidAndGrantSubscription fault now no ext paidAt sub db))"
proof -
  have "orders_kept db db1" if "credit_order_body no ext paidAt db = Inr (x, db1)" for no paidAt x db1
  proof -
    obtain order credited where x: "x = (order, credited)" by (cases x)
    from that [unfolded x] show ?thesis
      by (cases rule: credit_order_cases) (auto simp: mark_paid_def intro: orders_kept_same orders_kept_write)
  qed
  then show "orders_kept db (snd (MarkPaymentOrderPaidAndCreditBalance fault now no ext paidAt db))"
    by (auto simp: MarkPaymentOrderPaidAndCreditBalance_def Let_def orders_kept_same intro!: transaction_orders_kept)
  have "orders_kept db db1" if "grant_order_body now no ext paidAt sub db = Inr (x, db1)" for no paidAt sub x db1
  proof -
    obtain order granted where x: "x = (order, granted)" by (cases x)
    from that [unfolded x] show ?thesis
      by (cases rule: grant_order_cases) (auto simp: mark_paid_def intro: orders_kept_same orders_kept_write)
  qed
  then show "orders_kept db (snd (MarkPaymentOrderPaidAndGrantSubscription fault now no ext paidAt sub db))"
    by (auto simp: MarkPaymentOrderPaidAndGrantSubscription_def Let_def orders_kept_same intro!: transaction_orders_kept
        split: option.splits)
qed

lemma order_rows_kept:
  "orders_kept db (snd (CreatePaymentOrder upper fault item db))"
  "orders_kept db (snd (UpdatePaymentOrderCheckout fault no cid url db))"
  by (auto simp: CreatePaymentOrder_def UpdatePaymentOrderCheckout_def Let_def orders_kept_same orders_kept_def paid_in_def
      transaction_def new_order_def split: option.splits if_splits sum.splits)

lemma reward_orders:
  assumes "billing_inv db" shows "db_orders (snd (RedeemCode encode fault now inp db)) = db_orders db"
  using assms by (auto simp: RedeemCode_def transaction_def split: option.splits sum.splits dest: redeem_step)

lemma other_orders:
  "db_orders (snd (CreateRedemptionCode fault c db)) = db_orders db" "db_orders (snd (PatchRedemptionCode fault i patch db)) = db_orders db"
  "db_orders (snd (DeleteRedemptionCode fault i db)) = db_orders db" "db_orders (snd (CreateSubscription fault s db)) = db_orders db"
  "db_orders (snd (ReplaceSubscription fault now item db)) = db_orders db"
  "db_orders (snd (UpdatePlanWithDefaultPrice upper fault plan price db)) = db_orders db"
  by (auto simp: CreateRedemptionCode_def PatchRedemptionCode_def DeleteRedemptionCode_def CreateSubscription_def
      ReplaceSubscription_def UpdatePlanWithDefaultPrice_def update_plan_body_def update_code_def insert_subscription_def
      transaction_def Let_def split: option.splits sum.splits if_splits)

lemma billing_step_orders: "billing_step codec encode upper db db' \<Longrightarrow> billing_inv db \<Longrightarrow> orders_kept db db'"
  by (induction rule: billing_step.induct)
    (auto intro: usage_steps_side [THEN side_orders] pay_orders_kept order_rows_kept reward_orders [THEN orders_kept_same]
      other_orders [THEN orders_kept_same])

interpretation orders: run_invariant env billing_inv orders_kept for env
  by unfold_locales (auto dest: posts_keeps_books intro: billing_step_orders orders_kept_same orders_kept_trans)

lemma paid_is_final:
  assumes "paid_in (trim_space no) db" and "trim_space no \<noteq> []"
  shows "\<exists>order. MarkPaymentOrderPaidAndCreditBalance None now no ext paidAt db = (Inr (order, False), db) \<and>
    MarkPaymentOrderPaidAndGrantSubscription None now no ext paidAt (Some sub) db = (Inr (order, False), db)"
  using assms by (auto simp: paid_in_def MarkPaymentOrderPaidAndCreditBalance_def MarkPaymentOrderPaidAndGrantSubscription_def
      credit_order_body_def grant_order_body_def transaction_def)

text \<open>
  A top-up is credited once. The call that reports it credited adds exactly the order's credit to
  the balance of its user, with one transaction that names the order. From then on, whatever else happens,
  every call that reports the same order paid, as a top-up or as a subscription, changes nothing.
\<close>

theorem topup_credited_once:
  assumes "MarkPaymentOrderPaidAndCreditBalance fault now no ext paidAt db = (Inr (order, True), db1)" and "billing_inv db"
    and "billing_run env db1 db2"
  shows "balance_of db1 = (balance_of db)(po_UserID order := wrap64 (balance_of db (po_UserID order) + po_CreditNanousd order)) \<and>
    (\<exists>t. db_transactions db1 = db_transactions db @ [t] \<and> bt_UserID t = po_UserID order \<and>
       bt_AmountNanousd t = po_CreditNanousd order \<and> bt_RefNo t = po_OrderNo order) \<and>
    (\<forall>now' ext' paidAt' sub. \<exists>order'.
       MarkPaymentOrderPaidAndCreditBalance None now' no ext' paidAt' db2 = (Inr (order', False), db2) \<and>
       MarkPaymentOrderPaidAndGrantSubscription None now' no ext' paidAt' (Some sub) db2 = (Inr (order', False), db2))"
proof -
  have ne: "trim_space no \<noteq> []" and body: "credit_order_body (trim_space no) ext (paid_time now paidAt) db = Inr ((order, True), db1)"
    using assms(1) by (auto simp: MarkPaymentOrderPaidAndCreditBalance_def Let_def transaction_commit split: if_splits)
  note step = credit_order_step [OF body assms(2)]
  have "po_Status order = ''paid''" using body by (cases rule: credit_order_cases) (auto simp: mark_paid_def)
  then have "paid_in (trim_space no) db1" using step by (simp add: paid_in_def)
  moreover have "billing_inv db1" using step by (simp add: good_step_def)
  ultimately have "paid_in (trim_space no) db2" using orders.run [OF assms(3)] by (auto simp: orders_kept_def)
  note final = paid_is_final [OF this ne]
  show ?thesis by (intro conjI allI final) (use step in simp_all)
qed

section \<open>Redemption codes over time\<close>

definition redeemed_of :: "nat \<Rightarrow> billing_db \<Rightarrow> int" where
  "redeemed_of i db = int (length (filter (\<lambda>r. rd_CodeID r = i) (db_redemptions db)))"

definition within_max :: "redemption_code \<Rightarrow> bool" where
  "within_max c \<longleftrightarrow> (case rc_MaxRedemptions c of None \<Rightarrow> True | Some m \<Rightarrow> rc_RedeemedCount c \<le> max 0 m)"

lemma within_max_status [simp]: "within_max (c\<lparr>rc_Status := v\<rparr>) = within_max c"
  by (auto simp: within_max_def split: option.splits)

definition codes_ok :: "billing_db \<Rightarrow> bool" where
  "codes_ok db \<longleftrightarrow> distinct (map rc_ID (db_codes db)) \<and> (\<forall>r \<in> set (db_redemptions db). rd_CodeID r \<le> db_lastID db) \<and>
     (\<forall>c \<in> set (db_codes db). rc_ID c \<le> db_lastID db \<and> rc_RedeemedCount c = redeemed_of (rc_ID c) db \<and> within_max c)"

definition same_codes :: "billing_db \<Rightarrow> billing_db \<Rightarrow> bool" where
  "same_codes db db' \<longleftrightarrow> db_codes db' = db_codes db \<and> db_redemptions db' = db_redemptions db \<and> db_lastID db \<le> db_lastID db'"

lemma same_codes_ok: "same_codes db db' \<Longrightarrow> codes_ok db \<Longrightarrow> codes_ok db'"
  by (auto simp: same_codes_def codes_ok_def redeemed_of_def intro: le_trans)

lemma side_same_codes: "side db db' \<Longrightarrow> same_codes db db'"
  by (simp add: side_def same_codes_def)

lemma subscriptions_only_same_codes: "subscriptions_only db db' \<Longrightarrow> same_codes db db'"
  by (auto simp: subscriptions_only_def same_codes_def)

lemma update_code_ok:
  assumes "codes_ok db" and "\<And>c. rc_ID (f c) = rc_ID c" "\<And>c. rc_RedeemedCount (f c) = rc_RedeemedCount c"
    and "\<And>c. c \<in> set (db_codes db) \<Longrightarrow> rc_ID c = i \<Longrightarrow> within_max (f c)"
  shows "codes_ok (update_code i f db)"
proof -
  have "map rc_ID (db_codes (update_code i f db)) = map rc_ID (db_codes db)" using assms(2) by (simp add: update_code_def)
  then have "distinct (map rc_ID (db_codes (update_code i f db)))" using assms(1) by (simp add: codes_ok_def)
  moreover have "\<forall>c \<in> set (db_codes (update_code i f db)). rc_ID c \<le> db_lastID db \<and> rc_RedeemedCount c = redeemed_of (rc_ID c) db \<and> within_max c"
    using assms by (auto simp: update_code_def codes_ok_def)
  ultimately show ?thesis using assms(1) by (simp add: codes_ok_def redeemed_of_def) (simp add: update_code_def)
qed

lemma reward_lastID:
  assumes "apply_reward clock inp now code db = Inr (x, db1)" shows "db_lastID db \<le> db_lastID db1"
proof (cases "rc_RewardType code = ''balance''")
  case True
  then show ?thesis using assms
    by (auto simp: apply_reward_def applyRedemptionBalance_def insert_transaction_def Let_def side_def
        split: sum.splits option.splits prod.splits dest!: side_primitives(1,3))
next
  case False
  then have "\<exists>s. applyRedemptionSubscription clock (ri_User inp) code now db = Inr (s, db1)"
    using assms by (auto simp: apply_reward_def split: sum.splits if_splits)
  then have "subscriptions_only db db1"
    by (auto simp: applyRedemptionSubscription_def split: option.splits sum.splits if_splits dest: grant_only)
  then show ?thesis by (auto simp: subscriptions_only_def)
qed

lemma redeem_codes_ok:
  assumes "redeem_body encode clock inp now db = Inr (res, db')" and "billing_inv db" and "codes_ok db"
  shows "codes_ok db'"
  using assms(1)
proof (cases rule: redeem_cases)
  case (1 code account sub db1)
  note e = apply_reward_effects [OF 1(3) assms(2)] and n = reward_lastID [OF 1(3)]
  have code: "code \<in> set (db_codes db)" using find_SomeD [OF 1(1)] by simp
  have ok1: "codes_ok db1" using same_codes_ok [OF _ assms(3)] e n by (simp add: same_codes_def)
  have max: "case rc_MaxRedemptions code of None \<Rightarrow> True | Some m \<Rightarrow> rc_RedeemedCount code < m"
    using 1(2) by (auto simp: validateRedeemableCode_def split: option.splits if_splits)
  have only: "c = code" if "c \<in> set (db_codes db1)" "rc_ID c = rc_ID code" for c
    using that code e assms(3) by (auto simp: codes_ok_def distinct_map dest: inj_onD)
  let ?f = "\<lambda>c. if rc_ID c = rc_ID code then c\<lparr>rc_RedeemedCount := rc_RedeemedCount code + 1\<rparr> else c"
  have redeemed: "redeemed_of i db' = redeemed_of i db1 + (if i = rc_ID code then 1 else 0)" for i
    by (simp add: redeemed_of_def 1(6,8))
  have last: "db_lastID db' = Suc (db_lastID db1)" by (simp add: 1(8))
  have "map rc_ID (db_codes db') = map rc_ID (db_codes db1)" by (simp add: 1(8))
  then have "distinct (map rc_ID (db_codes db'))" using ok1 by (simp add: codes_ok_def)
  moreover have "\<forall>c \<in> set (db_codes db'). rc_ID c \<le> db_lastID db' \<and> rc_RedeemedCount c = redeemed_of (rc_ID c) db' \<and> within_max c"
  proof
    fix c
    assume "c \<in> set (db_codes db')"
    then have "c \<in> ?f ` set (db_codes db1)" by (simp add: 1(8))
    then obtain c0 where c0: "c = ?f c0" "c0 \<in> set (db_codes db1)" by (rule imageE)
    have old: "rc_ID c0 \<le> db_lastID db1" "rc_RedeemedCount c0 = redeemed_of (rc_ID c0) db1" "within_max c0"
      using ok1 c0(2) by (simp_all add: codes_ok_def)
    show "rc_ID c \<le> db_lastID db' \<and> rc_RedeemedCount c = redeemed_of (rc_ID c) db' \<and> within_max c"
    proof (cases "rc_ID c0 = rc_ID code")
      case True
      then have "c0 = code" by (rule only [OF c0(2)])
      then show ?thesis using old max by (auto simp: c0(1) redeemed within_max_def last split: option.splits)
    next
      case False
      then show ?thesis using old by (simp add: c0(1) redeemed last)
    qed
  qed
  moreover have "rc_ID code \<le> db_lastID db1" using code e ok1 by (simp add: codes_ok_def)
  then have "\<forall>r \<in> set (db_redemptions db'). rd_CodeID r \<le> db_lastID db'"
    using ok1 1(6) by (auto simp: codes_ok_def 1(8))
  ultimately show ?thesis by (simp add: codes_ok_def)
qed

lemma transaction_codes_ok:
  "(\<And>x db1. body db = Inr (x, db1) \<Longrightarrow> codes_ok db1) \<Longrightarrow> codes_ok db \<Longrightarrow> codes_ok (snd (transaction fault body db))"
  by (auto simp: transaction_def split: option.splits sum.splits)

lemma create_code_ok:
  assumes "codes_ok db" shows "codes_ok (snd (CreateRedemptionCode fault item db))"
proof -
  have "codes_ok (db\<lparr>db_codes := db_codes db @ [(new_code c)\<lparr>rc_ID := Suc (db_lastID db)\<rparr>], db_lastID := Suc (db_lastID db)\<rparr>)" for c
  proof -
    have "filter (\<lambda>r. rd_CodeID r = Suc (db_lastID db)) (db_redemptions db) = []"
      using assms by (fastforce simp: codes_ok_def filter_empty_conv)
    then show ?thesis using assms
      by (fastforce simp: codes_ok_def redeemed_of_def within_max_def new_code_def split: option.splits)
  qed
  then show ?thesis using assms
    by (auto simp: CreateRedemptionCode_def Let_def intro!: transaction_codes_ok split: option.splits if_splits)
qed

lemma patch_code_ok:
  assumes "codes_ok db" shows "codes_ok (snd (PatchRedemptionCode fault i patch db))"
proof -
  have "codes_ok (update_code i (patch_code patch) db)"
    if f: "find_code i db = Some rec" and m: "\<not> (rp_MaxRedemptionsSet patch \<and> (case rp_MaxRedemptions patch of None \<Rightarrow> False
               | Some m \<Rightarrow> m \<le> 0 \<or> m < rc_RedeemedCount rec))" for rec
  proof (rule update_code_ok [OF assms])
    fix c
    assume c: "c \<in> set (db_codes db)" "rc_ID c = i"
    have "rec \<in> set (db_codes db)" "rc_ID rec = i" using f find_SomeD unfolding find_code_def by fastforce+
    then have "c = rec" using c assms by (auto simp: codes_ok_def distinct_map dest: inj_onD)
    then show "within_max (patch_code patch c)"
      using c(1) m assms by (auto simp: within_max_def patch_code_def codes_ok_def split: option.splits)
  qed (simp_all add: patch_code_def)
  then show ?thesis using assms
    by (auto simp: PatchRedemptionCode_def intro!: transaction_codes_ok split: option.splits if_splits)
qed

lemma delete_code_ok:
  assumes "codes_ok db" shows "codes_ok (snd (DeleteRedemptionCode fault i db))"
proof -
  have "codes_ok (update_code i (\<lambda>c. c\<lparr>rc_Status := ''deleted''\<rparr>) db)"
    by (rule update_code_ok [OF assms]) (use assms in \<open>auto simp: codes_ok_def\<close>)
  then show ?thesis using assms
    by (auto simp: DeleteRedemptionCode_def intro!: transaction_codes_ok split: option.splits)
qed

lemma pay_same_codes:
  assumes "billing_inv db"
  shows "same_codes db (snd (MarkPaymentOrderPaidAndCreditBalance fault now no ext paidAt db))"
    "same_codes db (snd (MarkPaymentOrderPaidAndGrantSubscription fault now no ext paidAt sub db))"
proof -
  have refl: "same_codes db db" for db by (simp add: same_codes_def)
  have "same_codes db db1" if "credit_order_body no ext paidAt db = Inr (x, db1)" for no paidAt x db1
  proof -
    obtain order credited where x: "x = (order, credited)" by (cases x)
    from that [unfolded x] show ?thesis
    proof (cases rule: credit_order_cases)
      case (credit order account db0)
      show ?thesis using credit(9) side_primitives(1) [OF credit(7)] by (auto simp: same_codes_def side_def)
    qed (simp add: refl)
  qed
  then show "same_codes db (snd (MarkPaymentOrderPaidAndCreditBalance fault now no ext paidAt db))"
    by (auto simp: MarkPaymentOrderPaidAndCreditBalance_def Let_def transaction_def refl split: option.splits sum.splits)
  have "same_codes db db1" if "grant_order_body now no ext paidAt sub db = Inr (x, db1)" for no paidAt sub x db1
  proof -
    obtain order granted where x: "x = (order, granted)" by (cases x)
    from that [unfolded x] show ?thesis
      by (cases rule: grant_order_cases) (auto simp: refl subscriptions_only_def same_codes_def)
  qed
  then show "same_codes db (snd (MarkPaymentOrderPaidAndGrantSubscription fault now no ext paidAt sub db))"
    by (auto simp: MarkPaymentOrderPaidAndGrantSubscription_def Let_def transaction_def refl split: option.splits sum.splits)
qed

lemma other_same_codes:
  "same_codes db (snd (CreatePaymentOrder upper fault item db))" "same_codes db (snd (UpdatePaymentOrderCheckout fault no cid url db))"
  "same_codes db (snd (CreateSubscription fault s db))" "same_codes db (snd (ReplaceSubscription fault now sub db))"
  "same_codes db (snd (UpdatePlanWithDefaultPrice upper fault plan price db))"
  by (auto simp: CreatePaymentOrder_def UpdatePaymentOrderCheckout_def CreateSubscription_def ReplaceSubscription_def
      UpdatePlanWithDefaultPrice_def update_plan_body_def insert_subscription_def same_codes_def transaction_def Let_def
      split: option.splits sum.splits if_splits)

lemma redeem_code_ok: "billing_inv db \<Longrightarrow> codes_ok db \<Longrightarrow> codes_ok (snd (RedeemCode encode fault now inp db))"
  by (auto simp: RedeemCode_def intro!: transaction_codes_ok elim: redeem_codes_ok)

lemma billing_step_codes: "billing_step codec encode upper db db' \<Longrightarrow> billing_inv db \<Longrightarrow> codes_ok db \<Longrightarrow> codes_ok db'"
  by (induction rule: billing_step.induct)
    (auto intro: usage_steps_side [THEN side_same_codes, THEN same_codes_ok] pay_same_codes [THEN same_codes_ok]
      other_same_codes [THEN same_codes_ok] create_code_ok patch_code_ok delete_code_ok redeem_code_ok)

interpretation codes: run_invariant env "\<lambda>db. billing_inv db \<and> codes_ok db" "\<lambda>_ _. True" for env
  by unfold_locales (auto dest: posts_keeps_books intro: billing_step_codes)

text \<open>
  C22: a code is never redeemed more often than its maximum allows, whatever happens to it: after any
  sequence of operations, the counter of each code is the number of its redemptions, and it is at most
  the maximum, also after the maximum was changed.
\<close>

theorem redemptions_counted:
  assumes "billing_run env db db'" and "billing_inv db" and "codes_ok db" and "c \<in> set (db_codes db')"
  shows "rc_RedeemedCount c = int (length (filter (\<lambda>r. rd_CodeID r = rc_ID c) (db_redemptions db'))) \<and>
    (\<forall>m. rc_MaxRedemptions c = Some m \<longrightarrow> 0 \<le> m \<longrightarrow> int (length (filter (\<lambda>r. rd_CodeID r = rc_ID c) (db_redemptions db'))) \<le> m)"
proof -
  have "billing_inv db' \<and> codes_ok db'" using codes.run [OF assms(1)] assms(2,3) by blast
  then show ?thesis using assms(4) by (auto simp: codes_ok_def within_max_def redeemed_of_def max_def split: option.splits if_splits)
qed

text \<open>
  A redemption that succeeds met every condition: the code was active, unexpired, usable in the
  billing mode and below its maximum, and the user was below the limit per user. It adds one redemption
  of that code by that user, and a balance code adds exactly its credit to the user's balance and to no other.
\<close>

theorem redemption_checked:
  assumes "RedeemCode encode fault now inp db = (Inr res, db')" and "billing_inv db"
  shows "\<exists>code. List.find (\<lambda>c. rc_CodeHash c = trim_space (ri_CodeHash inp)) (db_codes db) = Some code \<and> rc_Status code = ''active'' \<and>
    RedemptionCodeModeAvailableInBillingMode (rc_Mode code) (trim_space (ri_CurrentMode inp)) \<and>
    (\<forall>e. rc_ExpiresAt code = Some e \<longrightarrow> (if is_zero (ri_SubscriptionAt inp) then now else ri_SubscriptionAt inp) < e) \<and>
    (\<forall>m. rc_MaxRedemptions code = Some m \<longrightarrow> rc_RedeemedCount code < m) \<and>
    user_redemptions (rc_ID code) (ri_User inp) db < per_user_limit code \<and>
    user_redemptions (rc_ID code) (ri_User inp) db' = user_redemptions (rc_ID code) (ri_User inp) db + 1 \<and>
    balance_of db' = (if rc_RewardType code = ''balance''
      then (balance_of db)(ri_User inp := balance_of db (ri_User inp) + rc_CreditNanousd code) else balance_of db)"
proof -
  let ?t = "if is_zero (ri_SubscriptionAt inp) then now else ri_SubscriptionAt inp"
  have body: "redeem_body encode now inp ?t db = Inr (res, db')"
    using assms(1) by (auto simp: RedeemCode_def transaction_commit split: if_splits)
  from body show ?thesis
  proof (cases rule: redeem_cases)
    case (1 code account sub db1)
    note e = apply_reward_effects [OF 1(3) assms(2)]
    have v: "rc_Status code = ''active''" "RedemptionCodeModeAvailableInBillingMode (rc_Mode code) (trim_space (ri_CurrentMode inp))"
      "\<forall>e. rc_ExpiresAt code = Some e \<longrightarrow> ?t < e" "\<forall>m. rc_MaxRedemptions code = Some m \<longrightarrow> rc_RedeemedCount code < m"
      "user_redemptions (rc_ID code) (ri_User inp) db < per_user_limit code"
      using 1(2) unfolding validateRedeemableCode_def by (auto split: option.splits if_splits)
    have "user_redemptions (rc_ID code) (ri_User inp) db' = user_redemptions (rc_ID code) (ri_User inp) db + 1"
      using e by (simp add: user_redemptions_def 1(6,7,8))
    moreover have "balance_of db' = balance_of db1" by (rule balance_of_cong) (simp add: 1(8))
    ultimately show ?thesis using 1(1) v e by (intro exI [of _ code]) simp
  qed
qed

section \<open>One day of one user\<close>

text \<open>
  A concrete history: the user's balance is set to 1000, a call of 300 is settled, the user tops up 400
  and redeems a code worth 50; each database is the one before after one operation.
\<close>

definition sample_env :: "unit billing_env" where
  "sample_env = (sample_codec, \<lambda>_. None, id)"

definition sample_order :: payment_order where
  "sample_order = \<lparr>po_ID = 0, po_OrderNo = ''A1'', po_OrderType = ''topup'', po_UserID = 7, po_PlanID = 0, po_PriceID = 0,
     po_Provider = ''epay'', po_Status = [], po_BaseCurrency = [], po_BaseAmountCents = 4, po_PayCurrency = [], po_PayAmountCents = 4,
     po_FXRate = [], po_CreditNanousd = 400, po_BillingInterval = [], po_Cycles = 1, po_ExternalPaymentID = [], po_ExternalCheckoutID = [],
     po_CheckoutURL = [], po_PaidAt = None, po_ExpiredAt = None, po_SnapshotJSON = []\<rparr>"

definition sample_code :: redemption_code where
  "sample_code = \<lparr>rc_ID = 0, rc_CodeHash = ''h'', rc_CodeEncrypted = [], rc_CodeHint = [], rc_Mode = ''usage'', rc_RewardType = ''balance'',
     rc_CreditNanousd = 50, rc_PlanID = 0, rc_DurationDays = 0, rc_MaxRedemptions = Some 2, rc_PerUserLimit = 1, rc_RedeemedCount = 0,
     rc_Status = ''active'', rc_ExpiresAt = None, rc_Description = [], rc_CreatedByUserID = 1\<rparr>"

definition sample_redemption :: redemption_input where
  "sample_redemption = \<lparr>ri_CodeHash = ''h'', ri_User = 7, ri_CurrentMode = ''usage'', ri_RefNo = ''r'', ri_SubscriptionAt = 0\<rparr>"

definition day0 :: billing_db where
  "day0 = snd (SetBillingAccountBalance None 7 1000 [] [] empty_billing_db)"

definition day1 :: billing_db where
  "day1 = snd (AddUsageAndSettleBalance None 30 (Some sample_usage) None day0)"

definition day2 :: billing_db where
  "day2 = snd (CreatePaymentOrder id None (Some sample_order) day1)"

definition day3 :: billing_db where
  "day3 = snd (MarkPaymentOrderPaidAndCreditBalance None 40 ''A1'' ''x'' 39 day2)"

definition day4 :: billing_db where
  "day4 = snd (CreateRedemptionCode None (Some sample_code) day3)"

definition day5 :: billing_db where
  "day5 = snd (RedeemCode (\<lambda>_. None) None 50 sample_redemption day4)"

lemma billing_run_refl [simp]: "billing_run env db db"
  by (cases env) (simp add: billing_run_def)

lemma billing_run_step:
  "billing_run (codec, encode, upper) db x \<Longrightarrow> billing_step codec encode upper x y \<Longrightarrow> billing_run (codec, encode, upper) db y"
  by (simp add: billing_run_def)

lemma billing_run_trans: "billing_run env x y \<Longrightarrow> billing_run env y z \<Longrightarrow> billing_run env x z"
  by (cases env) (simp add: billing_run_def)

lemma sample_billed: "in_int64 (ul_BilledNanousd sample_usage)"
  by (simp add: sample_usage_def int64_defs)

lemma day_steps:
  "billing_run sample_env empty_billing_db day0" "billing_run sample_env day0 day1" "billing_run sample_env day1 day2"
  "billing_run sample_env day2 day3" "billing_run sample_env day3 day4" "billing_run sample_env day4 day5"
proof -
  note one = billing_run_step [OF billing_run_refl]
  show "billing_run sample_env empty_billing_db day0"
    unfolding sample_env_def day0_def by (rule one, rule billing_step.set_balance) (simp add: int64_defs)
  show "billing_run sample_env day0 day1"
    unfolding sample_env_def day1_def by (rule one, rule billing_step.settle_usage) (use sample_billed in simp)
  show "billing_run sample_env day1 day2" "billing_run sample_env day2 day3" "billing_run sample_env day3 day4"
    "billing_run sample_env day4 day5"
    unfolding sample_env_def day2_def day3_def day4_def day5_def
    by (rule one, rule billing_step.create_order billing_step.pay_credit billing_step.create_code billing_step.redeem)+
qed

lemma empty_ok: "billing_inv empty_billing_db" "books empty_billing_db" "codes_ok empty_billing_db"
  by (simp_all add: empty_billing_db_def billing_inv_def accounts_ok_def reservations_ok_def ledgers_ok_def books_def
      balance_of_def codes_ok_def wrap64_def in_int64_def int64_defs)

lemma day_run: "billing_run sample_env empty_billing_db day2" "billing_run sample_env empty_billing_db day5"
  using day_steps billing_run_trans by blast+

lemma day_inv: "billing_inv day0" "billing_inv day2" "billing_inv day4"
  using rows.run [OF _ empty_ok(1)] day_steps billing_run_trans by blast+

theorem books_balanced_witness: "balance_of day5 7 = 1150 \<and> wrap64 (net 7 (db_transactions day5)) = 1150"
proof -
  have "balance_of day5 7 = wrap64 (net 7 (db_transactions day5))"
    using books_balanced [OF day_run(2) empty_ok(1,2), of 7] by blast
  moreover have "balance_of day5 7 = 1150" by code_simp
  ultimately show ?thesis by simp
qed

theorem settlement_idempotent_witness:
  "\<exists>l. AddUsageAndSettleBalance None 99 (Some (sample_usage\<lparr>ul_BilledNanousd := 5\<rparr>)) None day5 = (Inr (Some l), day5)"
proof -
  let ?r = "AddUsageAndSettleBalance None 30 (Some sample_usage) None day0"
  have "\<not> isl (fst ?r)" by code_simp
  then obtain r where r: "?r = (Inr r, day1)" using transaction_succeeds unfolding day1_def by (metis snd_conv)
  have "trim_space (ul_RefNo sample_usage) \<noteq> []" by code_simp
  then have ref: "None \<noteq> None \<or> trim_space (ul_RefNo sample_usage) \<noteq> []" ..
  have run: "billing_run sample_env day1 day5" using day_steps billing_run_trans by blast
  show ?thesis using settlement_idempotent [OF r day_inv(1) sample_billed ref run] by fastforce
qed

theorem period_settlement_idempotent_witness:
  "\<exists>l. AddPeriodUsageAndSettleOverage sample_codec None 70 71 (Some sample_usage) 10 100 200 None
     (snd (AddPeriodUsageAndSettleOverage sample_codec None 60 61 (Some sample_usage) 10 100 200 None day0)) =
     (Inr (Some l), snd (AddPeriodUsageAndSettleOverage sample_codec None 60 61 (Some sample_usage) 10 100 200 None day0)) \<and>
     balance_of (snd (AddPeriodUsageAndSettleOverage sample_codec None 60 61 (Some sample_usage) 10 100 200 None day0)) 7 = 900"
proof -
  let ?r = "AddPeriodUsageAndSettleOverage sample_codec None 60 61 (Some sample_usage) 10 100 200 None day0"
  have "\<not> isl (fst ?r)" by code_simp
  then obtain r where r: "?r = (Inr r, snd ?r)" using transaction_succeeds by (metis snd_conv)
  have "trim_space (ul_RefNo sample_usage) \<noteq> []" by code_simp
  then have ref: "None \<noteq> None \<or> trim_space (ul_RefNo sample_usage) \<noteq> []" ..
  have c: "in_int64 200" by (simp add: int64_defs)
  have "balance_of (snd ?r) 7 = 900" by code_simp
  then show ?thesis
    using period_settlement_idempotent [OF r day_inv(1) sample_billed c ref billing_run_refl [of sample_env]] by fastforce
qed

theorem topup_credited_once_witness:
  "balance_of day3 7 = 1100 \<and> (\<exists>order. MarkPaymentOrderPaidAndCreditBalance None 90 ''A1'' ''y'' 90 day5 = (Inr (order, False), day5))"
proof -
  let ?r = "MarkPaymentOrderPaidAndCreditBalance None 40 ''A1'' ''x'' 39 day2"
  have "map_sum id snd (fst ?r) = Inr True" by code_simp
  then obtain order where r: "?r = (Inr (order, True), day3)" unfolding day3_def
    by (cases ?r; cases "fst ?r") auto
  have "billing_run sample_env day3 day5" using day_steps billing_run_trans by blast
  note t = topup_credited_once [OF r day_inv(2) this]
  have "balance_of day3 7 = 1100" by code_simp
  then show ?thesis using t by blast
qed

theorem redemptions_counted_witness: "\<exists>c \<in> set (db_codes day5). rc_RedeemedCount c = 1 \<and> length (db_redemptions day5) = 1"
proof -
  have "map rc_RedeemedCount (db_codes day5) = [1]" by code_simp
  then obtain c where c: "c \<in> set (db_codes day5)" "rc_RedeemedCount c = 1" by (cases "db_codes day5") auto
  have "int (length (filter (\<lambda>r. rd_CodeID r = rc_ID c) (db_redemptions day5))) = 1"
    using redemptions_counted [OF day_run(2) empty_ok(1,3) c(1)] c(2) by simp
  moreover have "length (db_redemptions day5) = 1" by code_simp
  ultimately show ?thesis using c by blast
qed

theorem redemption_checked_witness: "balance_of day4 7 = 1100 \<and> balance_of day5 7 = 1150"
proof -
  let ?r = "RedeemCode (\<lambda>_. None) None 50 sample_redemption day4"
  have "\<not> isl (fst ?r)" by code_simp
  then obtain res where r: "?r = (Inr res, day5)" using transaction_succeeds unfolding day5_def by (metis snd_conv)
  have b: "balance_of day4 7 = 1100" by code_simp
  have "map rc_CreditNanousd (db_codes day4) = [50]" "map rc_RewardType (db_codes day4) = [''balance'']" by code_simp+
  moreover have "ri_User sample_redemption = 7" by (simp add: sample_redemption_def)
  ultimately have "balance_of day5 7 = 1150" using redemption_checked [OF r day_inv(3)] b find_SomeD
    by (cases "db_codes day4") (auto split: if_splits)
  then show ?thesis using b by simp
qed

end
