(* ===== verification/Billing_Service.thy ===== *)
theory Billing_Service
  imports Billing_Ledger Billing_Audit
begin

text \<open>
  The billing service (\<open>application/billing/service.go\<close>): how a call is authorized, its budget raised, renewed and
  released, and its use recorded, over the repository of the theories before. Every operation is shown to be a run
  of the repository's steps, so what holds of those runs holds of the service.
\<close>

section \<open>The service and its collaborators\<close>

text \<open>
  \<open>bs_env\<close> holds the collaborators and settings of the price calculation, with the faults of its queries; where
  the price depends on the tables, \<open>le_db\<close> is set to the current ones. \<open>bs_prepaid\<close> is the answer of \<open>GetBillingPrepaidAmountNanousd\<close>, a
  float of the settings in nano dollars. \<open>bs_write_fault\<close> strikes the writing transaction of an operation.
\<close>

record ('f, 'j) billing_service =
  bs_env :: "'f ledger_env"
  bs_prepaid :: "repo_error + int"
  bs_video :: "(string \<Rightarrow> repo_error + bool) option"
  bs_write_fault :: "repo_error option"
  bs_codec :: "'j json_codec"

definition svc_now :: "('f, 'j) billing_service \<Rightarrow> gotime" where
  "svc_now s = le_now (bs_env s)"

definition svc_mode :: "('f, 'j) billing_service \<Rightarrow> repo_error + string" where
  "svc_mode s = GetBillingMode (le_mode_fault (bs_env s)) (le_settings (bs_env s))"

definition period_plan :: "'f ledger_env \<Rightarrow> nat \<Rightarrow> gotime \<Rightarrow> billing_db \<Rightarrow> repo_error + billing_plan \<times> gotime \<times> gotime" where
  "period_plan env = currentPeriodPlan (le_loc env) (le_now env) (le_query_faults env)"

section \<open>Authorization\<close>

lemma and_then_found: "and_then r (case_option (Inl e) f) = Inr y \<longleftrightarrow> (\<exists>x. r = Inr (Some x) \<and> f x = Inr y)"
  by (cases r) (auto split: option.splits)

text \<open>What the repository's errors mean to the caller of a reservation.\<close>

definition reserve_error :: "repo_error \<Rightarrow> billing_error" where
  "reserve_error e =
     (if e = ErrUsageReservationLimitExceeded then ErrUsageConcurrencyLimitExceeded
      else if e = ErrInsufficientBalance then ErrUsageBalanceInsufficient
      else if e = ErrConflict then ErrUsageReservationConflict else FromRepo e)"

text \<open>A price per second needs a model that generates videos.\<close>

definition duration_supported :: "('f, 'j) billing_service \<Rightarrow> string \<Rightarrow> model_pricing \<Rightarrow> billing_error + unit" where
  "duration_supported s platformModelName p =
     (if NormalizePricingMode (mp_PricingMode p) \<noteq> ''duration'' then Inr ()
      else (case bs_video s of None \<Rightarrow> Inl ErrModelPricingRequired
        | Some supports \<Rightarrow> and_then (from_repo (supports platformModelName))
            (\<lambda>yes. if yes then Inr () else Inl ErrModelPricingRequired)))"

text \<open>The budget a paid call asks for: the configured amount, and under a plan the month and its credit.\<close>

definition budget_request ::
  "('f, 'j) billing_service \<Rightarrow> nat \<Rightarrow> usage_authorization \<Rightarrow> billing_db \<Rightarrow> billing_error + usage_authorization \<times> reservation_request option" where
  "budget_request s userID auth db =
     and_then (from_repo (bs_prepaid s)) (\<lambda>prepaid.
       let request = \<lparr>rq_UserID = userID, rq_RefNo = ua_RefNo auth, rq_Mode = ua_Mode auth, rq_RequestedNanousd = prepaid,
             rq_PeriodStartAt = None, rq_PeriodEndAt = None, rq_PeriodCreditNanousd = 0\<rparr> in
       if ua_Mode auth \<noteq> ''period'' then Inr (auth, Some request)
       else and_then (from_repo (period_plan (bs_env s) userID (svc_now s) db)) (\<lambda>(plan, startAt, endAt).
         Inr (auth, Some (request\<lparr>rq_PeriodStartAt := Some startAt, rq_PeriodEndAt := Some endAt,
           rq_PeriodCreditNanousd := bp_PeriodCreditNanousd plan\<rparr>))))"

text \<open>Everything before the reservation: the policy of the call, and the request if it needs a budget.\<close>

definition authorize_request ::
  "('f, 'j) billing_service \<Rightarrow> nat \<Rightarrow> string \<Rightarrow> string \<Rightarrow> billing_db \<Rightarrow>
   billing_error + usage_authorization \<times> reservation_request option" where
  "authorize_request s userID platformModelName refNo db =
     and_then (from_repo (svc_mode s)) (\<lambda>mode0.
       let auth = \<lparr>ua_Mode = trim_space mode0, ua_RefNo = trim_space refNo, ua_Reservation = None\<rparr> in
       if ua_Mode auth \<noteq> ''usage'' \<and> ua_Mode auth \<noteq> ''period'' then Inr (auth, None)
       else and_then (found_or_nil (getResolvedModelPricing (bs_env s) platformModelName)) (\<lambda>pricing.
         case pricing of None \<Rightarrow> Inl ErrModelPricingRequired
         | Some p \<Rightarrow> if mp_IsFree p then Inr (auth, None)
             else and_then (duration_supported s platformModelName p) (\<lambda>_. budget_request s userID auth db)))"

definition AuthorizeUsage ::
  "('f, 'j) billing_service \<Rightarrow> nat \<Rightarrow> string \<Rightarrow> string \<Rightarrow> billing_db \<Rightarrow> (billing_error + usage_authorization) \<times> billing_db" where
  "AuthorizeUsage s userID platformModelName refNo db =
     (case authorize_request s userID platformModelName refNo db of
        Inl e \<Rightarrow> (Inl e, db)
      | Inr (auth, None) \<Rightarrow> (Inr auth, db)
      | Inr (auth, Some request) \<Rightarrow>
        (case ReserveUsageBalance (bs_write_fault s) (svc_now s) request db of
           (Inl e, db') \<Rightarrow> (Inl (reserve_error e), db')
         | (Inr r, db') \<Rightarrow> (Inr (auth\<lparr>ua_Reservation := Some r\<rparr>), db')))"

text \<open>What a write of the settlement or the raise means to the caller.\<close>

definition settle_error :: "repo_error \<Rightarrow> billing_error" where
  "settle_error e =
     (if e = ErrInsufficientBalance then ErrUsageBalanceInsufficient
      else if e = ErrConflict then ErrUsageReservationConflict else FromRepo e)"

definition EnsureUsageAuthorizationBudget ::
  "('f, 'j) billing_service \<Rightarrow> usage_authorization option \<Rightarrow> int \<Rightarrow> billing_db \<Rightarrow> (billing_error + unit) \<times> billing_db" where
  "EnsureUsageAuthorizationBudget s authorization required db =
     (case authorization of None \<Rightarrow> (Inr (), db)
      | Some a \<Rightarrow> (case ua_Reservation a of None \<Rightarrow> (Inr (), db)
        | Some r \<Rightarrow>
          if required \<le> 0 \<or> required \<le> add64 (ur_BalanceNanousd r) (ur_PeriodCreditNanousd r) then (Inr (), db)
          else map_prod (map_sum settle_error id) id
            (RaiseUsageBalanceReservation (bs_write_fault s) (svc_now s) (ur_UserID r) (ur_RefNo r) required db)))"

text \<open>The operations on the reservation of an authorization do nothing without one.\<close>

definition with_reservation ::
  "usage_authorization option \<Rightarrow> (usage_reservation \<Rightarrow> billing_db \<Rightarrow> (repo_error + unit) \<times> billing_db) \<Rightarrow> billing_db \<Rightarrow>
   (billing_error + unit) \<times> billing_db" where
  "with_reservation authorization act db =
     (case authorization of None \<Rightarrow> (Inr (), db)
      | Some a \<Rightarrow> (case ua_Reservation a of None \<Rightarrow> (Inr (), db) | Some r \<Rightarrow> map_prod from_repo id (act r db)))"

definition ReleaseUsageAuthorization ::
  "('f, 'j) billing_service \<Rightarrow> usage_authorization option \<Rightarrow> billing_db \<Rightarrow> (billing_error + unit) \<times> billing_db" where
  "ReleaseUsageAuthorization s authorization =
     with_reservation authorization (\<lambda>r. ReleaseUsageBalanceReservation (bs_write_fault s) (svc_now s) (ur_UserID r) (ur_RefNo r))"

definition RenewUsageAuthorization ::
  "('f, 'j) billing_service \<Rightarrow> usage_authorization option \<Rightarrow> billing_db \<Rightarrow> (billing_error + unit) \<times> billing_db" where
  "RenewUsageAuthorization s authorization =
     with_reservation authorization (\<lambda>r. RenewUsageBalanceReservation (bs_write_fault s) (svc_now s) (ur_UserID r) (ur_RefNo r))"

definition MarkUsageAuthorizationForReconciliation ::
  "('f, 'j) billing_service \<Rightarrow> usage_authorization option \<Rightarrow> string \<Rightarrow> billing_db \<Rightarrow> (billing_error + unit) \<times> billing_db" where
  "MarkUsageAuthorizationForReconciliation s authorization failureCode =
     with_reservation authorization
       (\<lambda>r. MarkUsageReservationReconciliationRequired (bs_write_fault s) (svc_now s) (ur_UserID r) (ur_RefNo r) failureCode)"

section \<open>Recording the use of a call\<close>

text \<open>The period a call is charged to: the one of its reservation, or else the current one.\<close>

definition settlement_period ::
  "('f, 'j) billing_service \<Rightarrow> usage_ledger \<Rightarrow> usage_reservation option \<Rightarrow> billing_db \<Rightarrow> repo_error + gotime \<times> gotime \<times> int" where
  "settlement_period s usage reservation db =
     (if is_zero (ul_BillingAt usage) \<or> is_zero (ud_UsageDate (ul_Details usage)) then Inl ErrInvalidInput
      else case reservation of
          Some r \<Rightarrow> if ur_Mode r = ''period'' then
              (case (ur_PeriodStartAt r, ur_PeriodEndAt r) of
                 (Some startAt, Some endAt) \<Rightarrow> if \<not> startAt < endAt \<or> ur_PeriodLimitNanousd r < 0 then Inl ErrInvalidInput
                   else Inr (startAt, endAt, ur_PeriodLimitNanousd r)
               | _ \<Rightarrow> Inl ErrInvalidInput)
            else and_then (period_plan (bs_env s) (ul_UserID usage) (ul_BillingAt usage) db)
              (\<lambda>(plan, startAt, endAt). Inr (startAt, endAt, bp_PeriodCreditNanousd plan))
        | None \<Rightarrow> and_then (period_plan (bs_env s) (ul_UserID usage) (ul_BillingAt usage) db)
            (\<lambda>(plan, startAt, endAt). Inr (startAt, endAt, bp_PeriodCreditNanousd plan)))"

text \<open>The settlement in one mode; the ledger row that was recorded, now or by an earlier try, is the answer.\<close>

definition record_in_mode ::
  "('f, 'j) billing_service \<Rightarrow> usage_ledger \<Rightarrow> usage_reservation option \<Rightarrow> string \<Rightarrow> billing_db \<Rightarrow>
   (billing_error + usage_ledger option) \<times> billing_db" where
  "record_in_mode s u reservation mode db =
     (if mode = ''usage'' \<or> (mode \<noteq> ''period'' \<and> reservation \<noteq> None) then
        map_prod (map_sum settle_error id) id (AddUsageAndSettleBalance (bs_write_fault s) (svc_now s) (Some u) reservation db)
      else if mode = ''period'' then
        (case settlement_period s u reservation db of Inl e \<Rightarrow> (Inl (FromRepo e), db)
         | Inr (startAt, endAt, credit) \<Rightarrow>
           map_prod (map_sum settle_error id) id
             (AddPeriodUsageAndSettleOverage (bs_codec s) (bs_write_fault s) (svc_now s) (svc_now s) (Some u) startAt endAt credit
               reservation db))
      else map_prod (map_sum FromRepo id) id (AddUsage (bs_write_fault s) (Some u) db))"

text \<open>The mode of the authorization decides, and only without one the mode of the settings.\<close>

definition RecordUsageWithAuthorization ::
  "('f, 'j) billing_service \<Rightarrow> usage_ledger option \<Rightarrow> usage_authorization option \<Rightarrow> billing_db \<Rightarrow>
   (billing_error + usage_ledger option) \<times> billing_db" where
  "RecordUsageWithAuthorization s usage authorization db =
     (case usage of None \<Rightarrow> (Inr None, db)
      | Some u \<Rightarrow>
        (let mode0 = (case authorization of None \<Rightarrow> [] | Some a \<Rightarrow> trim_space (ua_Mode a));
             reservation = (case authorization of None \<Rightarrow> None | Some a \<Rightarrow> ua_Reservation a) in
         case (if mode0 = [] then from_repo (svc_mode s) else Inr mode0) of Inl e \<Rightarrow> (Inl e, db)
         | Inr mode \<Rightarrow> record_in_mode s u reservation mode db))"

end
