(* ===== verification/Billing_Orders.thy ===== *)
theory Billing_Orders
  imports Billing_Service
begin

text \<open>
  Subscriptions, payment orders, plans and accounts of the billing service (\<open>application/billing/service.go\<close>).
  Every operation that changes the tables is a step of \<open>service_step\<close>, and a run of the service is a run of the
  repository (\<open>billing_run\<close>).
\<close>

section \<open>Currencies and quotes\<close>

text \<open>The operations on \<open>float64\<close> that prices in foreign currency use; \<open>'f\<close> are the floats.\<close>

record 'f fx_ops =
  fx_invalid :: "'f \<Rightarrow> bool"  \<comment> \<open>not positive, NaN or infinite\<close>
  fx_default :: 'f  \<comment> \<open>\<open>7.2\<close>\<close>
  fx_one :: 'f
  fx_times :: "int \<Rightarrow> 'f \<Rightarrow> int"  \<comment> \<open>\<open>int64(math.Round(float64(n) * rate))\<close>\<close>
  fx_show :: "'f \<Rightarrow> string"  \<comment> \<open>\<open>strconv.FormatFloat(v, 'f', -1, 64)\<close>\<close>
  fx_hundredth :: "int \<Rightarrow> 'f"  \<comment> \<open>\<open>float64(n) / 100\<close>\<close>
  fx_div :: "'f \<Rightarrow> 'f \<Rightarrow> 'f"
  fx_mul :: "'f \<Rightarrow> 'f \<Rightarrow> 'f"
  fx_cents :: "'f \<Rightarrow> int"  \<comment> \<open>\<open>int64(math.Round(v * 100))\<close>\<close>

definition resolveUSDToCNYRate :: "'f fx_ops \<Rightarrow> 'f \<Rightarrow> 'f" where
  "resolveUSDToCNYRate fx v = (if fx_invalid fx v then fx_default fx else v)"

definition formatFXRate :: "'f fx_ops \<Rightarrow> 'f \<Rightarrow> string" where
  "formatFXRate fx v = fx_show fx (resolveUSDToCNYRate fx v)"

record 'f paymentQuote =
  pq_BaseCurrency :: string
  pq_BaseAmountCents :: int
  pq_PayCurrency :: string
  pq_PayAmountCents :: int
  pq_FXRate :: 'f

definition convertPaymentAmountCents :: "'f fx_ops \<Rightarrow> (string \<Rightarrow> string) \<Rightarrow> int \<Rightarrow> string \<Rightarrow> string \<Rightarrow> 'f \<Rightarrow> int" where
  "convertPaymentAmountCents fx upper baseAmountCents baseCurrency0 payCurrency0 rate =
     (let baseCurrency = normalizeCurrency upper baseCurrency0; payCurrency = normalizeCurrency upper payCurrency0 in
      if baseAmountCents \<le> 0 then 0
      else if baseCurrency = payCurrency then baseAmountCents
      else if baseCurrency = ''USD'' \<and> payCurrency = ''CNY'' then fx_times fx baseAmountCents (resolveUSDToCNYRate fx rate)
      else 0)"

definition resolvePaymentQuote :: "'f fx_ops \<Rightarrow> (string \<Rightarrow> string) \<Rightarrow> string \<Rightarrow> string \<Rightarrow> int \<Rightarrow> 'f \<Rightarrow> string \<Rightarrow> 'f paymentQuote" where
  "resolvePaymentQuote fx upper provider baseCurrency0 baseAmountCents usdToCNYRate preferredPayCurrency =
     (let baseCurrency = normalizeCurrency upper baseCurrency0;
          quote = \<lparr>pq_BaseCurrency = baseCurrency, pq_BaseAmountCents = baseAmountCents, pq_PayCurrency = baseCurrency,
            pq_PayAmountCents = baseAmountCents, pq_FXRate = fx_one fx\<rparr>;
          payCurrency = (if provider = ''epay'' \<or> normalizeCurrency upper preferredPayCurrency = ''CNY'' then ''CNY'' else baseCurrency);
          rate = resolveUSDToCNYRate fx usdToCNYRate in
      if payCurrency = baseCurrency then quote
      else quote\<lparr>pq_PayCurrency := payCurrency, pq_FXRate := rate,
        pq_PayAmountCents := convertPaymentAmountCents fx upper baseAmountCents baseCurrency payCurrency rate\<rparr>)"

section \<open>Subscriptions\<close>

text \<open>The faults of the queries of one operation.\<close>

record order_faults =
  of_price :: "repo_error option"
  of_plan :: "repo_error option"
  of_prices :: "repo_error option"
  of_order :: "repo_error option"
  of_sum :: "repo_error option"

definition no_order_faults :: order_faults where
  "no_order_faults = \<lparr>of_price = None, of_plan = None, of_prices = None, of_order = None, of_sum = None\<rparr>"

text \<open>\<open>mapPlanMutationError\<close>; \<open>Subscribe\<close> maps the errors of its queries in the same way.\<close>

definition mapPlanMutationError :: "repo_error \<Rightarrow> billing_error" where
  "mapPlanMutationError e = (if e = ErrNotFound then ErrBillingPlanNotFound else if e = ErrInvalidInput then ErrInvalidBillingPlan else FromRepo e)"

definition map_error :: "('e \<Rightarrow> 'g) \<Rightarrow> 'e + 'a \<Rightarrow> 'g + 'a" where
  "map_error f r = map_sum f id r"

lemma map_error_simps [simp]: "map_error f (Inl e) = Inl (f e)" "map_error f (Inr x) = Inr x"
  by (simp_all add: map_error_def)

definition active_subscription :: "nat \<Rightarrow> nat \<Rightarrow> nat \<Rightarrow> gotime \<Rightarrow> gotime option \<Rightarrow> bool \<Rightarrow> subscription" where
  "active_subscription userID planID priceID startAt endAt autoRenew =
     \<lparr>sb_ID = 0, sb_UserID = userID, sb_PlanID = planID, sb_PriceID = priceID, sb_Status = ''active'', sb_StartAt = startAt,
      sb_CurrentPeriodStartAt = startAt, sb_CurrentPeriodEndAt = endAt, sb_CancelAtPeriodEnd = False, sb_CanceledAt = None,
      sb_AutoRenew = autoRenew\<rparr>"

text \<open>The free plan is refused while a subscription of another plan that is known still gives rights.\<close>

definition free_plan_allowed :: "'f ledger_env \<Rightarrow> nat \<Rightarrow> billing_plan \<Rightarrow> billing_db \<Rightarrow> billing_error + unit" where
  "free_plan_allowed env userID plan db =
     (if trim_space (bp_Code plan) \<noteq> ''free'' then Inr ()
      else and_then (from_repo (listSubscriptionEntitlements (le_query_faults env) [userID] (le_now env) db)) (\<lambda>(subs, plans).
        if list_ex (\<lambda>s. case plans (sb_PlanID s) of None \<Rightarrow> False | Some p \<Rightarrow> trim_space (bp_Code p) \<noteq> ''free'') subs
        then Inl ErrSubscriptionEntitlementActive else Inr ()))"

definition subscription_request ::
  "('f, 'j) billing_service \<Rightarrow> order_faults \<Rightarrow> nat \<Rightarrow> nat \<Rightarrow> int \<Rightarrow> billing_db \<Rightarrow> billing_error + subscription" where
  "subscription_request s faults userID priceID cycles0 db =
     (let cycles = (if cycles0 \<le> 0 then 1 else cycles0); env = bs_env s in
      if userID = 0 \<or> priceID = 0 then Inl ErrInvalidBillingPlan
      else and_then (map_error mapPlanMutationError (GetPriceByID (of_price faults) priceID db)) (\<lambda>price.
        and_then (map_error mapPlanMutationError (GetPlanByID (of_plan faults) (pr_PlanID price) db)) (\<lambda>plan.
          if \<not> bp_IsActive plan \<or> \<not> pr_IsActive price then Inl ErrBillingPlanNotFound
          else and_then (free_plan_allowed env userID plan db) (\<lambda>_.
            if 0 < pr_AmountCents price then Inl ErrPaymentRequired
            else Inr (active_subscription userID (bp_ID plan) (pr_ID price) (svc_now s)
              (resolvePeriodEnd (le_loc env) (svc_now s) (pr_BillingInterval price) cycles) (pr_BillingInterval price \<noteq> ''lifetime''))))))"

definition Subscribe ::
  "('f, 'j) billing_service \<Rightarrow> order_faults \<Rightarrow> nat \<Rightarrow> nat \<Rightarrow> int \<Rightarrow> billing_db \<Rightarrow> (billing_error + subscription) \<times> billing_db" where
  "Subscribe s faults userID priceID cycles db =
     (case subscription_request s faults userID priceID cycles db of Inl e \<Rightarrow> (Inl e, db)
      | Inr item \<Rightarrow> map_prod (\<lambda>r. case r of Inl e \<Rightarrow> Inl (mapPlanMutationError e) | Inr _ \<Rightarrow> Inr item) id
          (ReplaceSubscription (bs_write_fault s) (svc_now s) (Some item) db))"

text \<open>The subscription an administrator sets; the stored time of a date is its UTC form, the same instant.\<close>

definition admin_subscription ::
  "('f, 'j) billing_service \<Rightarrow> order_faults \<Rightarrow> nat \<Rightarrow> string \<Rightarrow> gotime option \<Rightarrow> billing_db \<Rightarrow> billing_error + subscription" where
  "admin_subscription s faults userID planCode expiresAt db =
     (if userID = 0 then Inl (FromRepo ErrInvalidInput)
      else and_then (from_repo (svc_mode s)) (\<lambda>mode.
        if mode \<noteq> ''period'' then Inl ErrPaymentRequired
        else (let code = or_text (to_lower (trim_space planCode)) ''free'' in
          and_then (map_error (\<lambda>e. if e = ErrNotFound then ErrInvalidSubscriptionTier else FromRepo e) (GetActivePlanByCode (of_plan faults) code db))
            (\<lambda>plan. and_then (from_repo (ListActivePricesByPlanIDs (of_prices faults) [bp_ID plan] db)) (\<lambda>prices.
              case List.find pr_IsDefault prices of None \<Rightarrow> Inl ErrInvalidSubscriptionTier
              | Some price \<Rightarrow>
                if bp_Code plan \<noteq> ''free'' then
                  (case expiresAt of None \<Rightarrow> Inl ErrSubscriptionExpiryRequired
                   | Some e \<Rightarrow> if \<not> svc_now s < e then Inl ErrInvalidSubscriptionExpiry
                       else Inr (active_subscription userID (bp_ID plan) (pr_ID price) (svc_now s) (Some e) False))
                else Inr (active_subscription userID (bp_ID plan) (pr_ID price) (svc_now s) None (pr_BillingInterval price \<noteq> ''lifetime'')))))))"

definition SetUserSubscriptionByPlanCode ::
  "('f, 'j) billing_service \<Rightarrow> order_faults \<Rightarrow> nat \<Rightarrow> string \<Rightarrow> gotime option \<Rightarrow> billing_db \<Rightarrow>
   (billing_error + UserSubscriptionSnapshot option) \<times> billing_db" where
  "SetUserSubscriptionByPlanCode s faults userID planCode expiresAt db =
     (case admin_subscription s faults userID planCode expiresAt db of Inl e \<Rightarrow> (Inl e, db)
      | Inr item \<Rightarrow> (case ReplaceSubscription (bs_write_fault s) (svc_now s) (Some item) db of
          (Inl e, db') \<Rightarrow> (Inl (FromRepo e), db')
        | (Inr _, db') \<Rightarrow> (from_repo (GetCurrentSubscriptionSnapshot (le_upper (bs_env s)) (le_query_faults (bs_env s)) userID (svc_now s) db'), db')))"

section \<open>Payment orders\<close>

record 'f PaymentOrderInput =
  oi_UserID :: nat
  oi_PriceID :: nat
  oi_Cycles :: int
  oi_Provider :: string
  oi_USDToCNYRate :: 'f
  oi_PreferredPayCurrency :: string

record 'f TopUpPaymentOrderInput =
  ti_UserID :: nat
  ti_AmountMinorUnits :: int
  ti_AmountCurrency :: string
  ti_Provider :: string
  ti_USDToCNYRate :: 'f
  ti_PreferredPayCurrency :: string

definition checked_provider :: "string \<Rightarrow> billing_error + string" where
  "checked_provider provider =
     (if trim_space provider = ''stripe'' \<or> trim_space provider = ''epay'' then Inr (trim_space provider) else Inl ErrPaymentProviderUnavailable)"

text \<open>
  The order that both kinds share: its quote, the half hour it is open, and the snapshot, whose JSON is an
  argument of the model.
\<close>

definition pending_order :: "'f fx_ops \<Rightarrow> gotime \<Rightarrow> string \<Rightarrow> string \<Rightarrow> string \<Rightarrow> nat \<Rightarrow> 'f paymentQuote \<Rightarrow> string \<Rightarrow> payment_order" where
  "pending_order fx now orderNo orderType provider userID quote snapshot =
     \<lparr>po_ID = 0, po_OrderNo = orderNo, po_OrderType = orderType, po_UserID = userID, po_PlanID = 0, po_PriceID = 0, po_Provider = provider,
      po_Status = ''pending'', po_BaseCurrency = pq_BaseCurrency quote, po_BaseAmountCents = pq_BaseAmountCents quote,
      po_PayCurrency = pq_PayCurrency quote, po_PayAmountCents = pq_PayAmountCents quote, po_FXRate = formatFXRate fx (pq_FXRate quote),
      po_CreditNanousd = 0, po_BillingInterval = ''lifetime'', po_Cycles = 1, po_ExternalPaymentID = [], po_ExternalCheckoutID = [],
      po_CheckoutURL = [], po_PaidAt = None, po_ExpiredAt = Some (now + 30 * minute), po_SnapshotJSON = snapshot\<rparr>"

text \<open>
  What the code draws and computes outside the service: the order number (random, with the time) and floats.
\<close>

record 'f order_env =
  oe_fx :: "'f fx_ops"
  oe_order_no :: "repo_error + string"
  oe_snapshot :: "goobj \<Rightarrow> string"

definition plan_order_snapshot :: "'f fx_ops \<Rightarrow> billing_plan \<Rightarrow> billing_price \<Rightarrow> int \<Rightarrow> string \<Rightarrow> 'f paymentQuote \<Rightarrow> goobj" where
  "plan_order_snapshot fx plan price cycles provider quote =
     [(''plan_id'', JInt (int (bp_ID plan))), (''plan_code'', JStr (bp_Code plan)), (''plan_name'', JStr (bp_Name plan)),
      (''price_id'', JInt (int (pr_ID price))), (''price_code'', JStr (pr_Code price)), (''billing_interval'', JStr (pr_BillingInterval price)),
      (''cycles'', JInt cycles), (''base_currency'', JStr (pq_BaseCurrency quote)), (''base_amount_cents'', JInt (pq_BaseAmountCents quote)),
      (''pay_currency'', JStr (pq_PayCurrency quote)), (''pay_amount_cents'', JInt (pq_PayAmountCents quote)),
      (''fx_rate'', JStr (formatFXRate fx (pq_FXRate quote))), (''provider'', JStr provider)]"

definition plan_missing :: "repo_error \<Rightarrow> billing_error" where
  "plan_missing e = (if e = ErrNotFound then ErrBillingPlanNotFound else FromRepo e)"

definition plan_order ::
  "('f, 'j) billing_service \<Rightarrow> 'f order_env \<Rightarrow> order_faults \<Rightarrow> 'f PaymentOrderInput \<Rightarrow> billing_db \<Rightarrow>
   billing_error + payment_order \<times> billing_plan \<times> billing_price" where
  "plan_order s oe faults inp db =
     (let cycles = (if oi_Cycles inp \<le> 0 then 1 else oi_Cycles inp); upper = le_upper (bs_env s) in
      and_then (from_repo (svc_mode s)) (\<lambda>mode.
      if mode \<noteq> ''period'' then Inl ErrPaymentRequired
      else and_then (checked_provider (oi_Provider inp)) (\<lambda>provider.
      and_then (map_error plan_missing (GetPriceByID (of_price faults) (oi_PriceID inp) db)) (\<lambda>price.
      and_then (map_error plan_missing (GetPlanByID (of_plan faults) (pr_PlanID price) db)) (\<lambda>plan.
      if oi_UserID inp = 0 \<or> \<not> bp_IsActive plan \<or> \<not> pr_IsActive price \<or> pr_AmountCents price \<le> 0 then Inl ErrInvalidPaymentOrder
      else (let baseAmountCents = mul64 (pr_AmountCents price) cycles;
                quote = resolvePaymentQuote (oe_fx oe) upper provider (normalizeCurrency upper (pr_Currency price)) baseAmountCents
                  (oi_USDToCNYRate inp) (oi_PreferredPayCurrency inp) in
        if baseAmountCents \<le> 0 \<or> pq_PayAmountCents quote \<le> 0 then Inl ErrInvalidPaymentOrder
        else and_then (map_error (\<lambda>e. if e = ErrInvalidInput then ErrInvalidPaymentOrder else FromRepo e) (oe_order_no oe)) (\<lambda>orderNo.
          Inr ((pending_order (oe_fx oe) (svc_now s) orderNo ''subscription'' provider (oi_UserID inp) quote
              (oe_snapshot oe (plan_order_snapshot (oe_fx oe) plan price cycles provider quote)))
            \<lparr>po_PlanID := bp_ID plan, po_PriceID := pr_ID price, po_BillingInterval := pr_BillingInterval price, po_Cycles := cycles\<rparr>,
            plan, price))))))))"

definition Service_CreatePaymentOrder ::
  "('f, 'j) billing_service \<Rightarrow> 'f order_env \<Rightarrow> order_faults \<Rightarrow> 'f PaymentOrderInput \<Rightarrow> billing_db \<Rightarrow>
   (billing_error + payment_order \<times> billing_plan \<times> billing_price) \<times> billing_db" where
  "Service_CreatePaymentOrder s oe faults inp db =
     (case plan_order s oe faults inp db of Inl e \<Rightarrow> (Inl e, db)
      | Inr (order, plan, price) \<Rightarrow> map_prod (\<lambda>r. case r of Inl e \<Rightarrow> Inl (FromRepo e) | Inr saved \<Rightarrow> Inr (saved, plan, price)) id
          (CreatePaymentOrder (le_upper (bs_env s)) (bs_write_fault s) (Some order) db))"

definition topup_snapshot :: "'f fx_ops \<Rightarrow> string \<Rightarrow> int \<Rightarrow> int \<Rightarrow> string \<Rightarrow> 'f paymentQuote \<Rightarrow> goobj" where
  "topup_snapshot fx amountCurrency minorUnits credit provider quote =
     [(''order_type'', JStr ''topup''), (''base_currency'', JStr (pq_BaseCurrency quote)), (''base_amount_cents'', JInt (pq_BaseAmountCents quote)),
      (''pay_currency'', JStr (pq_PayCurrency quote)), (''pay_amount_cents'', JInt (pq_PayAmountCents quote)),
      (''fx_rate'', JStr (formatFXRate fx (pq_FXRate quote))), (''amount_currency'', JStr amountCurrency),
      (''amount_minor_units'', JInt minorUnits), (''credit_nanousd'', JInt credit), (''provider'', JStr provider)]"

text \<open>The amount is paid as it was entered when it is entered in the currency of the payment.\<close>

definition topup_quote :: "'f fx_ops \<Rightarrow> (string \<Rightarrow> string) \<Rightarrow> string \<Rightarrow> 'f \<Rightarrow> 'f \<Rightarrow> 'f TopUpPaymentOrderInput \<Rightarrow> 'f paymentQuote" where
  "topup_quote fx upper provider usd rate inp =
     (let amountCurrency = normalizeCurrency upper (ti_AmountCurrency inp);
          quote = resolvePaymentQuote fx upper provider ''USD'' (fx_cents fx usd) rate (ti_PreferredPayCurrency inp) in
      if pq_PayCurrency quote = amountCurrency then quote\<lparr>pq_PayAmountCents := ti_AmountMinorUnits inp\<rparr>
      else if pq_PayCurrency quote = ''CNY'' \<and> pq_BaseCurrency quote = ''USD''
        then quote\<lparr>pq_PayAmountCents := fx_cents fx (fx_mul fx usd rate)\<rparr> else quote)"

definition topup_order :: "('f, 'j) billing_service \<Rightarrow> 'f order_env \<Rightarrow> 'f TopUpPaymentOrderInput \<Rightarrow> billing_error + payment_order" where
  "topup_order s oe inp =
     (let fx = oe_fx oe; upper = le_upper (bs_env s); amountCurrency = normalizeCurrency upper (ti_AmountCurrency inp);
          rate = resolveUSDToCNYRate fx (ti_USDToCNYRate inp); minor = ti_AmountMinorUnits inp in
      and_then (from_repo (svc_mode s)) (\<lambda>mode.
      if mode \<noteq> ''usage'' \<and> mode \<noteq> ''period'' then Inl ErrPaymentRequired
      else and_then (checked_provider (ti_Provider inp)) (\<lambda>provider.
      if ti_UserID inp = 0 \<or> minor \<le> 0 \<or> (amountCurrency \<noteq> ''CNY'' \<and> amountCurrency \<noteq> ''USD'') then Inl ErrInvalidPaymentOrder
      else (let usd = (if amountCurrency = ''CNY'' then fx_div fx (fx_hundredth fx minor) rate else fx_hundredth fx minor);
                credit = le_usd (bs_env s) usd; quote = topup_quote fx upper provider usd rate inp in
        if pq_BaseAmountCents quote \<le> 0 \<or> pq_PayAmountCents quote \<le> 0 \<or> credit \<le> 0 then Inl ErrInvalidPaymentOrder
        else and_then (from_repo (oe_order_no oe)) (\<lambda>orderNo.
          Inr ((pending_order fx (svc_now s) orderNo ''topup'' provider (ti_UserID inp) quote
            (oe_snapshot oe (topup_snapshot fx amountCurrency minor credit provider quote)))\<lparr>po_CreditNanousd := credit\<rparr>))))))"

definition CreateTopUpPaymentOrder ::
  "('f, 'j) billing_service \<Rightarrow> 'f order_env \<Rightarrow> 'f TopUpPaymentOrderInput \<Rightarrow> billing_db \<Rightarrow> (billing_error + payment_order) \<times> billing_db" where
  "CreateTopUpPaymentOrder s oe inp db =
     (case topup_order s oe inp of Inl e \<Rightarrow> (Inl e, db)
      | Inr order \<Rightarrow> map_prod (map_error (\<lambda>e. if e = ErrInvalidInput then ErrInvalidPaymentOrder else FromRepo e)) id
          (CreatePaymentOrder (le_upper (bs_env s)) (bs_write_fault s) (Some order) db))"

definition AttachPaymentCheckout ::
  "('f, 'j) billing_service \<Rightarrow> string \<Rightarrow> string \<Rightarrow> string \<Rightarrow> billing_db \<Rightarrow> (billing_error + unit) \<times> billing_db" where
  "AttachPaymentCheckout s orderNo externalCheckoutID checkoutURL db =
     map_prod from_repo id (UpdatePaymentOrderCheckout (bs_write_fault s) orderNo externalCheckoutID checkoutURL db)"

definition GetPaymentOrder :: "order_faults \<Rightarrow> string \<Rightarrow> billing_db \<Rightarrow> billing_error + payment_order" where
  "GetPaymentOrder faults orderNo db =
     map_error (\<lambda>e. if e = ErrNotFound then ErrPaymentOrderNotFound else if e = ErrInvalidInput then ErrInvalidPaymentOrder else FromRepo e)
       (GetPaymentOrderByOrderNo (of_order faults) orderNo db)"

text \<open>What the writing transaction's errors mean to the caller of a completion.\<close>

definition complete_error :: "repo_error \<Rightarrow> billing_error" where
  "complete_error e = (if e = ErrInvalidInput then ErrPaymentOrderStateInvalid else if e = ErrNotFound then ErrPaymentOrderNotFound else FromRepo e)"

definition CompletePaymentOrder ::
  "('f, 'j) billing_service \<Rightarrow> order_faults \<Rightarrow> string \<Rightarrow> string \<Rightarrow> gotime \<Rightarrow> billing_db \<Rightarrow> (billing_error + payment_order \<times> bool) \<times> billing_db" where
  "CompletePaymentOrder s faults orderNo externalPaymentID paidAt0 db =
     (case GetPaymentOrder faults orderNo db of Inl e \<Rightarrow> (Inl e, db)
      | Inr order \<Rightarrow>
        if po_Status order = ''paid'' then (Inr (order, False), db)
        else (let paidAt = (if is_zero paidAt0 then svc_now s else paidAt0) in
          map_prod (map_error complete_error) id
            (if po_OrderType order = ''topup''
             then MarkPaymentOrderPaidAndCreditBalance (bs_write_fault s) (svc_now s) orderNo externalPaymentID paidAt db
             else MarkPaymentOrderPaidAndGrantSubscription (bs_write_fault s) (svc_now s) orderNo externalPaymentID paidAt
               (Some (active_subscription (po_UserID order) (po_PlanID order) (po_PriceID order) paidAt
                 (resolvePeriodEnd (le_loc (bs_env s)) paidAt (po_BillingInterval order) (po_Cycles order))
                 (po_BillingInterval order \<noteq> ''lifetime''))) db)))"

section \<open>Plans\<close>

record BillingPriceView =
  vp_ID :: nat
  vp_PlanID :: nat
  vp_Code :: string
  vp_BillingInterval :: string
  vp_Currency :: string
  vp_AmountCents :: int
  vp_IsDefault :: bool

record BillingPlanView =
  vl_ID :: nat
  vl_Code :: string
  vl_Name :: string
  vl_Description :: string
  vl_FeatureJSON :: string
  vl_PeriodCreditNanousd :: int
  vl_SortOrder :: int
  vl_IsActive :: bool
  vl_PermissionGroupID :: "nat option"
  vl_Prices :: "BillingPriceView list"

definition price_view :: "billing_price \<Rightarrow> BillingPriceView" where
  "price_view p = \<lparr>vp_ID = pr_ID p, vp_PlanID = pr_PlanID p, vp_Code = pr_Code p, vp_BillingInterval = pr_BillingInterval p,
     vp_Currency = pr_Currency p, vp_AmountCents = pr_AmountCents p, vp_IsDefault = pr_IsDefault p\<rparr>"

definition plan_view :: "billing_plan \<Rightarrow> nat option \<Rightarrow> BillingPriceView list \<Rightarrow> BillingPlanView" where
  "plan_view p groupID prices = \<lparr>vl_ID = bp_ID p, vl_Code = bp_Code p, vl_Name = bp_Name p, vl_Description = bp_Description p,
     vl_FeatureJSON = bp_FeatureJSON p, vl_PeriodCreditNanousd = bp_PeriodCreditNanousd p, vl_SortOrder = bp_SortOrder p,
     vl_IsActive = bp_IsActive p, vl_PermissionGroupID = groupID, vl_Prices = prices\<rparr>"

definition ListPlans :: "order_faults \<Rightarrow> billing_db \<Rightarrow> repo_error + BillingPlanView list" where
  "ListPlans faults db =
     and_then (ListActivePlans (of_plan faults) db) (\<lambda>plans.
       if plans = [] then Inr []
       else and_then (ListActivePricesByPlanIDs (of_prices faults) (map bp_ID plans) db) (\<lambda>prices.
         Inr (map (\<lambda>p. plan_view p (bp_PermissionGroupID p) (map price_view (filter (\<lambda>x. pr_PlanID x = bp_ID p) prices))) plans)))"

record PlanUpdateInput =
  pu_Name :: string
  pu_Description :: string
  pu_PeriodCreditNanousd :: int
  pu_Currency :: string
  pu_AmountCents :: int
  pu_BillingInterval :: string
  pu_PermissionGroupID :: "nat option"

text \<open>The groups the service can look up: the default ones, and whether one exists.\<close>

type_synonym group_lookup = "((repo_error + nat list) \<times> (nat \<Rightarrow> repo_error + bool)) option"

definition resolvePlanPermissionGroupID :: "group_lookup \<Rightarrow> nat option \<Rightarrow> billing_error + nat option" where
  "resolvePlanPermissionGroupID lookup groupID =
     (case groupID of Some g \<Rightarrow> Inr (Some g)
      | None \<Rightarrow> (case lookup of None \<Rightarrow> Inl ErrInvalidPermissionGroup
        | Some (defaults, _) \<Rightarrow> and_then (from_repo defaults)
            (\<lambda>ids. case ids of [] \<Rightarrow> Inl ErrInvalidPermissionGroup | i # _ \<Rightarrow> Inr (Some i))))"

definition validatePermissionGroupID :: "group_lookup \<Rightarrow> nat option \<Rightarrow> billing_error + unit" where
  "validatePermissionGroupID lookup groupID =
     (case groupID of None \<Rightarrow> Inr ()
      | Some g \<Rightarrow> (case lookup of None \<Rightarrow> Inl ErrInvalidPermissionGroup
        | Some (_, exists) \<Rightarrow> if g = 0 then Inl ErrInvalidPermissionGroup
            else and_then (from_repo (exists g)) (\<lambda>yes. if yes then Inr () else Inl ErrInvalidPermissionGroup)))"

definition plan_update ::
  "order_faults \<Rightarrow> group_lookup \<Rightarrow> nat \<Rightarrow> PlanUpdateInput \<Rightarrow> billing_db \<Rightarrow> billing_error + billing_plan \<times> billing_price" where
  "plan_update faults lookup planID inp db =
     (if planID = 0 then Inl ErrInvalidBillingPlan
      else and_then (map_error mapPlanMutationError (GetPlanByID (of_plan faults) planID db)) (\<lambda>current.
        and_then (resolvePlanPermissionGroupID lookup (pu_PermissionGroupID inp)) (\<lambda>groupID.
        and_then (validatePermissionGroupID lookup groupID) (\<lambda>_.
          Inr (\<lparr>bp_ID = bp_ID current, bp_Code = bp_Code current, bp_Name = FirstNonEmpty [pu_Name inp, bp_Name current],
                bp_Description = trim_space (pu_Description inp), bp_FeatureJSON = bp_FeatureJSON current,
                bp_PeriodCreditNanousd = clampNonNegative (pu_PeriodCreditNanousd inp), bp_SortOrder = bp_SortOrder current,
                bp_IsActive = True, bp_PermissionGroupID = groupID\<rparr>,
               \<lparr>pr_ID = 0, pr_PlanID = bp_ID current, pr_Code = bp_Code current @ ''-default'',
                pr_BillingInterval = NormalizeInterval (pu_BillingInterval inp), pr_Currency = ''USD'',
                pr_AmountCents = clampNonNegative (pu_AmountCents inp), pr_IsActive = True, pr_IsDefault = True,
                pr_ExternalPriceRef = []\<rparr>)))))"

definition UpdatePlan ::
  "('f, 'j) billing_service \<Rightarrow> order_faults \<Rightarrow> group_lookup \<Rightarrow> nat \<Rightarrow> PlanUpdateInput \<Rightarrow> billing_db \<Rightarrow>
   (billing_error + BillingPlanView) \<times> billing_db" where
  "UpdatePlan s faults lookup planID inp db =
     (case plan_update faults lookup planID inp db of Inl e \<Rightarrow> (Inl e, db)
      | Inr (plan, price) \<Rightarrow>
        map_prod (\<lambda>r. case r of Inl e \<Rightarrow> Inl (mapPlanMutationError e)
            | Inr _ \<Rightarrow> Inr (plan_view plan (bp_PermissionGroupID plan) [(price_view price)\<lparr>vp_ID := 0\<rparr>])) id
          (UpdatePlanWithDefaultPrice (le_upper (bs_env s)) (bs_write_fault s) (Some plan) (Some price) db))"

section \<open>Accounts and the overview of a user\<close>

record BillingOverview =
  bo_Mode :: string
  bo_Plan :: "BillingPlanView option"
  bo_Period :: "(gotime \<times> gotime) option"
  bo_PeriodCreditNanousd :: int
  bo_PeriodUsedNanousd :: int
  bo_PeriodRemainingNanousd :: int
  bo_Account :: "billing_account option"
  bo_TotalSpentNanousd :: int
  bo_SubscriptionEntitlements :: "SubscriptionEntitlementView list"

definition bare_overview :: "string \<Rightarrow> BillingOverview" where
  "bare_overview mode = \<lparr>bo_Mode = mode, bo_Plan = None, bo_Period = None, bo_PeriodCreditNanousd = 0, bo_PeriodUsedNanousd = 0,
     bo_PeriodRemainingNanousd = 0, bo_Account = None, bo_TotalSpentNanousd = 0, bo_SubscriptionEntitlements = []\<rparr>"

text \<open>The overview of a plan, once the account is there.\<close>

definition period_overview :: "('f, 'j) billing_service \<Rightarrow> order_faults \<Rightarrow> nat \<Rightarrow> gotime \<Rightarrow> billing_account \<Rightarrow> billing_db \<Rightarrow> repo_error + BillingOverview" where
  "period_overview s faults userID now account db =
     and_then (period_plan (bs_env s) userID now db) (\<lambda>(plan, startAt, endAt).
     and_then (SumBillableNanousd (of_sum faults) userID startAt endAt db) (\<lambda>used.
     and_then (ListActivePricesByPlanIDs (of_prices faults) [bp_ID plan] db) (\<lambda>prices.
     and_then (listSubscriptionEntitlements (le_query_faults (bs_env s)) [userID] now db) (\<lambda>(subscriptions, plans).
       Inr \<lparr>bo_Mode = ''period'', bo_Plan = Some (plan_view plan None (map price_view prices)), bo_Period = Some (startAt, endAt),
            bo_PeriodCreditNanousd = bp_PeriodCreditNanousd plan, bo_PeriodUsedNanousd = used,
            bo_PeriodRemainingNanousd = clampNonNegative (wrap64 (bp_PeriodCreditNanousd plan - used)), bo_Account = Some account,
            bo_TotalSpentNanousd = 0, bo_SubscriptionEntitlements = buildSubscriptionEntitlementViews subscriptions plans now\<rparr>))))"

definition GetBillingOverview ::
  "('f, 'j) billing_service \<Rightarrow> order_faults \<Rightarrow> nat \<Rightarrow> gotime \<Rightarrow> billing_db \<Rightarrow> (repo_error + BillingOverview) \<times> billing_db" where
  "GetBillingOverview s faults userID now db =
     (case svc_mode s of Inl e \<Rightarrow> (Inl e, db)
      | Inr mode \<Rightarrow>
        if mode \<noteq> ''usage'' \<and> mode \<noteq> ''period'' then (Inr (bare_overview mode), db)
        else (case GetOrCreateBillingAccount (bs_write_fault s) userID db of
            (Inl e, db') \<Rightarrow> (Inl e, db')
          | (Inr account, db') \<Rightarrow>
            if mode = ''usage'' then
              (and_then (SumTotalBilledNanousd (of_sum faults) userID db') (\<lambda>spent.
                 Inr ((bare_overview mode)\<lparr>bo_Account := Some account, bo_TotalSpentNanousd := spent\<rparr>)), db')
            else (period_overview s faults userID now account db', db')))"

text \<open>The balance an administrator sets: \<open>'f\<close> is the amount in dollars, \<open>bad\<close> what is negative, NaN or infinite.\<close>

definition Service_SetBillingAccountBalance ::
  "('f, 'j) billing_service \<Rightarrow> ('f \<Rightarrow> bool) \<Rightarrow> nat \<Rightarrow> 'f \<Rightarrow> string \<Rightarrow> string \<Rightarrow> billing_db \<Rightarrow> (billing_error + billing_account) \<times> billing_db" where
  "Service_SetBillingAccountBalance s bad userID balanceUSD refNo description db =
     (if userID = 0 \<or> bad balanceUSD then (Inl ErrInvalidBillingAccountBalance, db)
      else case svc_mode s of Inl e \<Rightarrow> (Inl (FromRepo e), db)
        | Inr mode \<Rightarrow> if mode \<noteq> ''usage'' \<and> mode \<noteq> ''period'' then (Inl ErrPaymentRequired, db)
            else map_prod from_repo id (SetBillingAccountBalance (bs_write_fault s) userID (le_usd (bs_env s) balanceUSD) refNo description db))"

section \<open>Runs of the service\<close>

text \<open>
  The operations that change the tables, each with any state of its collaborators. Columns and arguments of type
  \<open>int64\<close> are in its range. The codec of the snapshots, Unicode's upper case and the floats are fixed.
\<close>

definition credits_int64 :: "billing_db \<Rightarrow> bool" where
  "credits_int64 db \<longleftrightarrow> (\<forall>p \<in> set (db_plans db). in_int64 (bp_PeriodCreditNanousd p))"

definition authorization_int64 :: "usage_authorization option \<Rightarrow> bool" where
  "authorization_int64 authorization \<longleftrightarrow>
     (\<forall>a r. authorization = Some a \<longrightarrow> ua_Reservation a = Some r \<longrightarrow> in_int64 (ur_PeriodLimitNanousd r))"

definition runs_with :: "'j json_codec \<Rightarrow> (string \<Rightarrow> string) \<Rightarrow> ('f, 'j) billing_service \<Rightarrow> bool" where
  "runs_with codec upper s \<longleftrightarrow> bs_codec s = codec \<and> le_upper (bs_env s) = upper"

inductive service_step ::
  "'f fx_ops \<Rightarrow> 'j json_codec \<Rightarrow> (string \<Rightarrow> string) \<Rightarrow> billing_db \<Rightarrow> billing_db \<Rightarrow> bool" for fx :: "'f fx_ops" and codec upper where
  authorize: "runs_with codec upper (s :: ('f, 'j) billing_service) \<Longrightarrow> credits_int64 db \<Longrightarrow>
    service_step fx codec upper db (snd (AuthorizeUsage s userID name ref db))"
| ensure: "runs_with codec upper (s :: ('f, 'j) billing_service) \<Longrightarrow> in_int64 required \<Longrightarrow>
    service_step fx codec upper db (snd (EnsureUsageAuthorizationBudget s auth required db))"
| release: "runs_with codec upper (s :: ('f, 'j) billing_service) \<Longrightarrow>
    service_step fx codec upper db (snd (ReleaseUsageAuthorization s auth db))"
| renew: "runs_with codec upper (s :: ('f, 'j) billing_service) \<Longrightarrow>
    service_step fx codec upper db (snd (RenewUsageAuthorization s auth db))"
| mark: "runs_with codec upper (s :: ('f, 'j) billing_service) \<Longrightarrow>
    service_step fx codec upper db (snd (MarkUsageAuthorizationForReconciliation s auth failure db))"
| settle: "runs_with codec upper (s :: ('f, 'j) billing_service) \<Longrightarrow> credits_int64 db \<Longrightarrow> authorization_int64 auth \<Longrightarrow>
    (\<And>u. usage = Some u \<Longrightarrow> in_int64 (ul_BilledNanousd u)) \<Longrightarrow>
    service_step fx codec upper db (snd (RecordUsageWithAuthorization s usage auth db))"
| subscribe: "runs_with codec upper (s :: ('f, 'j) billing_service) \<Longrightarrow>
    service_step fx codec upper db (snd (Subscribe s faults userID priceID cycles db))"
| set_subscription: "runs_with codec upper (s :: ('f, 'j) billing_service) \<Longrightarrow>
    service_step fx codec upper db (snd (SetUserSubscriptionByPlanCode s faults userID code expiresAt db))"
| order: "runs_with codec upper (s :: ('f, 'j) billing_service) \<Longrightarrow> oe_fx oe = fx \<Longrightarrow>
    service_step fx codec upper db (snd (Service_CreatePaymentOrder s oe faults inp db))"
| topup: "runs_with codec upper (s :: ('f, 'j) billing_service) \<Longrightarrow> oe_fx oe = fx \<Longrightarrow>
    service_step fx codec upper db (snd (CreateTopUpPaymentOrder s oe tinp db))"
| checkout: "runs_with codec upper (s :: ('f, 'j) billing_service) \<Longrightarrow>
    service_step fx codec upper db (snd (AttachPaymentCheckout s no checkoutID url db))"
| complete: "runs_with codec upper (s :: ('f, 'j) billing_service) \<Longrightarrow>
    service_step fx codec upper db (snd (CompletePaymentOrder s faults no ext paidAt db))"
| update_plan: "runs_with codec upper (s :: ('f, 'j) billing_service) \<Longrightarrow>
    service_step fx codec upper db (snd (UpdatePlan s faults lookup planID pinp db))"
| overview: "runs_with codec upper (s :: ('f, 'j) billing_service) \<Longrightarrow>
    service_step fx codec upper db (snd (GetBillingOverview s faults userID now db))"
| set_balance: "runs_with codec upper (s :: ('f, 'j) billing_service) \<Longrightarrow> in_int64 (le_usd (bs_env s) amount) \<Longrightarrow>
    service_step fx codec upper db (snd (Service_SetBillingAccountBalance s bad userID amount ref descr db))"

text \<open>The step of the repository that an operation makes, or none.\<close>

definition one_step :: "'j json_codec \<Rightarrow> (string \<Rightarrow> string) \<Rightarrow> billing_db \<Rightarrow> billing_db \<Rightarrow> bool" where
  "one_step codec upper db db' \<longleftrightarrow> db' = db \<or> (\<forall>encode. billing_step codec encode upper db db')"

lemma one_step_same [simp]: "one_step codec upper db db"
  by (simp add: one_step_def)

lemma index_by_in: "index_by key xs k = Some x \<Longrightarrow> x \<in> set xs"
proof -
  have "fold (\<lambda>i m. m(key i \<mapsto> i)) xs m k = Some x \<Longrightarrow> m k = Some x \<or> x \<in> set xs" for m
  proof (induction xs arbitrary: m)
    case (Cons y ys)
    then show ?case using Cons.IH [of "m(key y \<mapsto> y)"] by (auto split: if_splits)
  qed simp
  then show "index_by key xs k = Some x \<Longrightarrow> x \<in> set xs" by (fastforce simp: index_by_def)
qed

lemma period_plan_of: "period_plan env u now db = Inr (p, startAt, endAt) \<Longrightarrow> p \<in> set (db_plans db)"
  by (auto simp: period_plan_def currentPeriodPlan_def listSubscriptionEntitlements_def ListPlansByIDs_def GetActivePlanByCode_def
      query_def plan_map_of_def find_Some_iff split: sum.splits option.splits prod.splits if_splits dest!: index_by_in)

lemma settled_period_int64:
  assumes "settlement_period s usage res db = Inr (startAt, endAt, credit)" and "credits_int64 db"
    and "\<forall>r. res = Some r \<longrightarrow> in_int64 (ur_PeriodLimitNanousd r)"
  shows "in_int64 credit"
proof -
  have p: "in_int64 (bp_PeriodCreditNanousd plan)" if "period_plan env u now db = Inr (plan, x, y)" for env u now plan x y
    using period_plan_of [OF that] assms(2) by (simp add: credits_int64_def)
  show ?thesis using assms(1,3) p
    by (auto simp: settlement_period_def and_then_Inr split: if_splits option.splits)
qed

lemma authorized_budget:
  "authorize_request s u name ref db = Inr (auth, Some request) \<Longrightarrow> \<exists>auth'. budget_request s u auth' db = Inr (auth, Some request)"
  by (auto simp: authorize_request_def and_then_Inr from_repo_Inr Let_def split: if_split_asm option.split_asm)

lemma authorized_request_int64:
  assumes "authorize_request s u name ref db = Inr (auth, Some request)" and "credits_int64 db"
  shows "in_int64 (rq_PeriodCreditNanousd request)"
proof -
  have p: "in_int64 (bp_PeriodCreditNanousd plan)" if "period_plan env u now db = Inr (plan, x, y)" for env u now plan x y
    using period_plan_of [OF that] assms(2) by (simp add: credits_int64_def)
  show ?thesis using authorized_budget [OF assms(1)] p
    by (auto simp: budget_request_def and_then_Inr from_repo_Inr Let_def split: if_split_asm)
qed

lemma snd_one:
  "(\<And>encode. billing_step codec encode upper db (snd r)) \<Longrightarrow> one_step codec upper db (snd r)"
  "(\<And>encode. billing_step codec encode upper db (snd r)) \<Longrightarrow> one_step codec upper db (snd (map_prod f id r))"
  by (auto simp: one_step_def)

lemma record_one:
  assumes "bs_codec s = codec" and "credits_int64 db" and "\<forall>r. res = Some r \<longrightarrow> in_int64 (ur_PeriodLimitNanousd r)"
    and "in_int64 (ul_BilledNanousd u)"
  shows "one_step codec upper db (snd (record_in_mode s u res mode db))"
proof (cases "settlement_period s u res db")
  case (Inl e)
  then show ?thesis using assms(4)
    by (auto simp: record_in_mode_def intro!: snd_one billing_step.settle_usage billing_step.add_usage)
next
  case (Inr p)
  obtain startAt endAt credit where p: "p = (startAt, endAt, credit)" by (cases p)
  have "in_int64 credit" by (rule settled_period_int64 [OF Inr [unfolded p] assms(2,3)])
  then show ?thesis using assms(1,4) Inr p
    by (auto simp: record_in_mode_def intro!: snd_one billing_step.settle_usage billing_step.settle_period billing_step.add_usage)
qed

lemma service_step_one: "service_step fx codec upper db db' \<Longrightarrow> one_step codec upper db db'"
proof (induction rule: service_step.induct)
  case (authorize s db userID name ref)
  show ?case
  proof (cases "authorize_request s userID name ref db")
    case (Inr p)
    obtain auth request where p: "p = (auth, request)" by (cases p)
    show ?thesis
    proof (cases request)
      case (Some q)
      have "in_int64 (rq_PeriodCreditNanousd q)" using authorized_request_int64 Inr p Some authorize by blast
      then have "billing_step codec encode upper db (snd (ReserveUsageBalance fault now q db))" for encode fault now
        by (rule billing_step.reserve)
      then show ?thesis using Inr p Some
        by (auto simp: AuthorizeUsage_def one_step_def split: prod.splits sum.splits) (metis snd_conv)+
    qed (simp add: AuthorizeUsage_def Inr p)
  qed (simp add: AuthorizeUsage_def)
next
  case (ensure s required db auth)
  then show ?case by (auto simp: EnsureUsageAuthorizationBudget_def intro!: snd_one billing_step.raise split: option.splits)
next
  case (release s db auth)
  then show ?case by (auto simp: ReleaseUsageAuthorization_def with_reservation_def intro!: snd_one billing_step.release split: option.splits)
next
  case (renew s db auth)
  then show ?case by (auto simp: RenewUsageAuthorization_def with_reservation_def intro!: snd_one billing_step.renew split: option.splits)
next
  case (mark s db auth failure)
  then show ?case
    by (auto simp: MarkUsageAuthorizationForReconciliation_def with_reservation_def intro!: snd_one billing_step.mark split: option.splits)
next
  case (subscribe s db faults userID priceID cycles)
  then show ?case by (auto simp: Subscribe_def intro!: snd_one billing_step.replace_subscription split: sum.splits)
next
  case (order s oe db faults inp)
  then show ?case by (auto simp: Service_CreatePaymentOrder_def runs_with_def intro!: snd_one billing_step.create_order split: sum.splits)
next
  case (topup s oe db tinp)
  then show ?case by (auto simp: CreateTopUpPaymentOrder_def runs_with_def intro!: snd_one billing_step.create_order split: sum.splits)
next
  case (checkout s db no checkoutID url)
  then show ?case by (auto simp: AttachPaymentCheckout_def intro!: snd_one billing_step.update_checkout)
next
  case (complete s db faults no ext paidAt)
  then show ?case
    by (auto simp: CompletePaymentOrder_def Let_def intro!: snd_one billing_step.pay_credit billing_step.pay_grant split: sum.splits)
next
  case (update_plan s db faults lookup planID pinp)
  then show ?case by (auto simp: UpdatePlan_def runs_with_def intro!: snd_one billing_step.update_plan split: sum.splits)
next
  case (set_balance s amount db bad userID ref descr)
  then show ?case by (auto simp: Service_SetBillingAccountBalance_def intro!: snd_one billing_step.set_balance split: sum.splits)
next
  case (settle s db auth usage)
  have limit: "\<forall>r. (case auth of None \<Rightarrow> None | Some a \<Rightarrow> ua_Reservation a) = Some r \<longrightarrow> in_int64 (ur_PeriodLimitNanousd r)"
    using settle(3) by (auto simp: authorization_int64_def split: option.splits)
  show ?case
    using record_one [OF _ settle(2) limit, of s codec _ upper] settle(1,4)
    by (auto simp: RecordUsageWithAuthorization_def runs_with_def Let_def split: option.split sum.split)
next
  case (set_subscription s db faults userID code expiresAt)
  have "one_step codec upper db (snd (ReplaceSubscription fault now item db))" for fault now item
    by (intro snd_one billing_step.replace_subscription)
  then show ?case
    by (auto simp: SetUserSubscriptionByPlanCode_def split: sum.split prod.split) (metis snd_conv)+
next
  case (overview s db faults userID now)
  have "one_step codec upper db (snd (GetOrCreateBillingAccount fault u db))" for fault u
    by (intro snd_one billing_step.get_account)
  then show ?case
    by (auto simp: GetBillingOverview_def split: sum.split prod.split) (metis snd_conv)+
qed

end
