(* ===== verification/Billing_Calls.thy ===== *)
theory Billing_Calls
  imports Billing_Orders
begin

text \<open>
  What the billing service promises for one call, from its authorization to its settlement, whatever the rest of
  the system does in between: the reservation of the call keeps its identity in the table, and with it the
  settlement is accepted.
\<close>

section \<open>The row of a reservation\<close>

text \<open>What an operation never changes of a reservation.\<close>

definition same_call :: "usage_reservation \<Rightarrow> usage_reservation \<Rightarrow> bool" where
  "same_call r r' \<longleftrightarrow> ur_ID r' = ur_ID r \<and> ur_UserID r' = ur_UserID r \<and> ur_RefNo r' = ur_RefNo r \<and> ur_Mode r' = ur_Mode r \<and>
     ur_PeriodStartAt r' = ur_PeriodStartAt r \<and> ur_PeriodEndAt r' = ur_PeriodEndAt r \<and> ur_PeriodLimitNanousd r' = ur_PeriodLimitNanousd r"

definition rows_kept :: "usage_reservation list \<Rightarrow> usage_reservation list \<Rightarrow> bool" where
  "rows_kept rs rs' \<longleftrightarrow> (\<forall>r \<in> set rs. \<exists>r' \<in> set rs'. same_call r r')"

lemma same_call_refl [simp]: "same_call r r"
  by (simp add: same_call_def)

lemma same_call_trans: "same_call a b \<Longrightarrow> same_call b c \<Longrightarrow> same_call a c"
  by (simp add: same_call_def)

lemma rows_kept_trans: "rows_kept a b \<Longrightarrow> rows_kept b c \<Longrightarrow> rows_kept a c"
  unfolding rows_kept_def by (meson same_call_trans)

lemma rows_kept_same [simp]: "rows_kept rs rs" "rows_kept rs (rs @ rs')"
  unfolding rows_kept_def using same_call_refl by fastforce+

lemma rows_kept_map [simp]:
  assumes "\<And>r. same_call r (f r)"
  shows "rows_kept rs (map (\<lambda>r. if c r then f r else r) rs)"
  unfolding rows_kept_def
proof
  fix r assume r: "r \<in> set rs"
  let ?g = "\<lambda>r. if c r then f r else r"
  have "?g r \<in> set (map ?g rs)" using r by (simp only: set_map) (rule imageI)
  moreover have "same_call r (?g r)" using assms by simp
  ultimately show "\<exists>r' \<in> set (map ?g rs). same_call r r'" by (rule bexI [rotated])
qed

lemma rows_kept_settle [simp]: "rows_kept (db_reservations db) (db_reservations (settleUsageReservation at row n db))"
  by (simp add: settleUsageReservation_def update_reservations_def same_call_def split: option.split)

lemmas account_rows = getOrCreate_effects(4)

lemma other_rows:
  "insert_ledger l db = Inr (n, db1) \<Longrightarrow> db_reservations db1 = db_reservations db"
  "add_to_balance u d db = Inr (x, db1) \<Longrightarrow> db_reservations db1 = db_reservations db"
  "db_reservations (update_balance u b db) = db_reservations db" "db_reservations (snd (insert_transaction t db)) = db_reservations db"
  "insert_transaction t db = (n, db1) \<Longrightarrow> db_reservations db1 = db_reservations db"
  by (auto simp: insert_ledger_def add_to_balance_def update_balance_def insert_transaction_def Let_def
      split: if_splits option.splits sum.splits)

lemma debit_rows: "debit_usage a u amount b n r d db = Inr (x, db1) \<Longrightarrow> db_reservations db1 = db_reservations db"
  by (auto simp: debit_usage_def other_rows(4) split: if_splits sum.splits dest!: other_rows(2))

lemma settle_rows_eq: "db_reservations a = db_reservations b \<Longrightarrow>
    db_reservations (settleUsageReservation at row n a) = db_reservations (settleUsageReservation at row n b)"
  by (simp add: settleUsageReservation_def update_reservations_def split: option.split)

lemma post_rows_kept: "post_usage t a l amount b row r d db = Inr (x, db1) \<Longrightarrow> rows_kept (db_reservations db) (db_reservations db1)"
  by (auto simp: post_usage_def split: sum.splits dest!: other_rows(1) debit_rows)
    (metis rows_kept_settle settle_rows_eq)

lemma reserve_rows_kept: "reserve_body now i db = Inr (r, db1) \<Longrightarrow> rows_kept (db_reservations db) (db_reservations db1)"
  by (auto simp: reserve_body_def Let_def split: if_splits sum.splits option.splits
      dest!: account_rows insert_reservation_effects)

lemma raise_rows_kept: "raise_body now u ref required db = Inr (x, db1) \<Longrightarrow> rows_kept (db_reservations db) (db_reservations db1)"
  by (auto simp: raise_body_def Let_def same_call_def update_reservations_def
      split: if_splits sum.splits option.splits dest!: account_rows)

lemma release_rows_kept: "release_body now u ref db = Inr (x, db1) \<Longrightarrow> rows_kept (db_reservations db) (db_reservations db1)"
  by (auto simp: release_body_def same_call_def update_reservations_def split: if_splits option.splits)

lemma update_where_rows_kept:
  "update_where c f db = Inr (y, db1) \<Longrightarrow> (\<And>r. same_call r (f r)) \<Longrightarrow> rows_kept (db_reservations db) (db_reservations db1)"
  by (auto simp: update_where_def update_reservations_def split: if_splits)

lemma add_usage_rows: "add_usage_body usage db = Inr (y, db1) \<Longrightarrow> rows_kept (db_reservations db) (db_reservations db1)"
  by (auto simp: add_usage_body_def split: sum.splits option.splits dest!: other_rows(1))

lemma settle_usage_rows_kept: "settle_usage_body t usage res db = Inr (y, db1) \<Longrightarrow> rows_kept (db_reservations db) (db_reservations db1)"
  by (auto simp: settle_usage_body_def Let_def split: if_splits sum.splits option.splits dest!: account_rows post_rows_kept)

lemma post_period_rows_kept:
  "post_period_usage codec now t usage s e credit a row res db = Inr (y, db1) \<Longrightarrow> rows_kept (db_reservations db) (db_reservations db1)"
  by (simp add: post_period_usage_def Let_def split: sum.splits prod.splits) (erule post_rows_kept)

lemma settle_period_rows_kept:
  "settle_period_body codec now t usage s e credit res db = Inr (y, db1) \<Longrightarrow> rows_kept (db_reservations db) (db_reservations db1)"
  by (auto simp: settle_period_body_def split: if_splits sum.splits option.splits dest!: account_rows post_period_rows_kept)

lemma set_balance_rows: "set_balance_body u b ref descr db = Inr (a, db1) \<Longrightarrow> rows_kept (db_reservations db) (db_reservations db1)"
  by (auto simp: set_balance_body_def Let_def other_rows(3,4) split: if_splits sum.splits option.splits dest!: account_rows)

lemma transaction_rows_kept:
  "(\<And>x db1. body db = Inr (x, db1) \<Longrightarrow> rows_kept (db_reservations db) (db_reservations db1)) \<Longrightarrow> rows_kept (db_reservations db) (db_reservations (snd (transaction fault body db)))"
  by (auto simp: transaction_def split: option.splits sum.splits)

lemma usage_steps_rows:
  "rows_kept (db_reservations db) (db_reservations (snd (ReserveUsageBalance fault now inp db)))"
  "rows_kept (db_reservations db) (db_reservations (snd (RaiseUsageBalanceReservation fault now u ref required db)))"
  "rows_kept (db_reservations db) (db_reservations (snd (ReleaseUsageBalanceReservation fault now u ref db)))"
  "rows_kept (db_reservations db) (db_reservations (snd (RenewUsageBalanceReservation fault now u ref db)))"
  "rows_kept (db_reservations db) (db_reservations (snd (MarkUsageReservationReconciliationRequired fault now u ref failure db)))"
  "rows_kept (db_reservations db) (db_reservations (snd (AddUsage fault usage db)))"
  "rows_kept (db_reservations db) (db_reservations (snd (AddUsageAndSettleBalance fault t usage res db)))"
  "rows_kept (db_reservations db) (db_reservations (snd (AddPeriodUsageAndSettleOverage codec fault now t usage s e credit res db)))"
  "rows_kept (db_reservations db) (db_reservations (snd (GetOrCreateBillingAccount fault u db)))"
  "rows_kept (db_reservations db) (db_reservations (snd (SetBillingAccountBalance fault u b ref descr db)))"
  by (auto simp: ReserveUsageBalance_def RaiseUsageBalanceReservation_def ReleaseUsageBalanceReservation_def
      RenewUsageBalanceReservation_def MarkUsageReservationReconciliationRequired_def AddUsage_def
      AddUsageAndSettleBalance_def AddPeriodUsageAndSettleOverage_def GetOrCreateBillingAccount_def
      SetBillingAccountBalance_def Let_def same_call_def split: option.splits
      intro!: transaction_rows_kept elim!: update_where_rows_kept
      dest: reserve_rows_kept raise_rows_kept release_rows_kept add_usage_rows settle_usage_rows_kept settle_period_rows_kept
        set_balance_rows account_rows)


text \<open>Orders, codes, subscriptions and plans do not touch the reservations.\<close>

lemma subscriptions_rows: "subscriptions_only db db' \<Longrightarrow> db_reservations db' = db_reservations db"
  by (auto simp: subscriptions_only_def)

lemma transaction_rows_same:
  "(\<And>x db1. body db = Inr (x, db1) \<Longrightarrow> db_reservations db1 = db_reservations db) \<Longrightarrow>
     db_reservations (snd (transaction fault body db)) = db_reservations db"
  by (auto simp: transaction_def split: option.splits sum.splits)

lemma pay_rows:
  "db_reservations (snd (MarkPaymentOrderPaidAndCreditBalance fault now no ext paidAt db)) = db_reservations db"
  "db_reservations (snd (MarkPaymentOrderPaidAndGrantSubscription fault now no ext paidAt sub db)) = db_reservations db"
proof -
  have "db_reservations db1 = db_reservations db" if "credit_order_body no ext paidAt db = Inr (x, db1)" for no paidAt x db1
    using that by (auto simp: credit_order_body_def Let_def other_rows(3,4) split: option.splits if_splits sum.splits dest!: account_rows)
  then show "db_reservations (snd (MarkPaymentOrderPaidAndCreditBalance fault now no ext paidAt db)) = db_reservations db"
    by (auto simp: MarkPaymentOrderPaidAndCreditBalance_def Let_def intro!: transaction_rows_same)
  have "db_reservations db1 = db_reservations db" if "grant_order_body now no ext paidAt sub db = Inr (x, db1)" for no paidAt sub x db1
  proof -
    obtain order granted where "x = (order, granted)" by (cases x)
    with that show ?thesis by (auto elim!: grant_order_cases dest: subscriptions_rows)
  qed
  then show "db_reservations (snd (MarkPaymentOrderPaidAndGrantSubscription fault now no ext paidAt sub db)) = db_reservations db"
    by (auto simp: MarkPaymentOrderPaidAndGrantSubscription_def Let_def intro!: transaction_rows_same split: option.splits)
qed

lemma reward_rows: "apply_reward clock inp now code db = Inr (x, db1) \<Longrightarrow> db_reservations db1 = db_reservations db"
  by (auto simp: apply_reward_def applyRedemptionBalance_def applyRedemptionSubscription_def Let_def other_rows(3,4)
      split: if_splits sum.splits option.splits prod.splits dest!: account_rows grant_only subscriptions_rows other_rows(2,5))

lemma redeem_rows: "db_reservations (snd (RedeemCode encode fault now inp db)) = db_reservations db"
  by (auto simp: RedeemCode_def split: option.splits intro!: transaction_rows_same elim!: redeem_cases dest!: reward_rows)

lemma order_rows:
  "db_reservations (snd (CreatePaymentOrder upper fault item db)) = db_reservations db"
  "db_reservations (snd (UpdatePaymentOrderCheckout fault no cid url db)) = db_reservations db"
  "db_reservations (snd (CreateRedemptionCode fault c db)) = db_reservations db"
  "db_reservations (snd (PatchRedemptionCode fault i patch db)) = db_reservations db"
  "db_reservations (snd (DeleteRedemptionCode fault i db)) = db_reservations db"
  "db_reservations (snd (CreateSubscription fault s db)) = db_reservations db"
  "db_reservations (snd (ReplaceSubscription fault now sub db)) = db_reservations db"
  "db_reservations (snd (UpdatePlanWithDefaultPrice upper fault plan price db)) = db_reservations db"
  by (auto simp: CreatePaymentOrder_def UpdatePaymentOrderCheckout_def CreateRedemptionCode_def PatchRedemptionCode_def
      DeleteRedemptionCode_def CreateSubscription_def ReplaceSubscription_def UpdatePlanWithDefaultPrice_def update_plan_body_def
      update_code_def insert_subscription_def transaction_def Let_def split: option.splits sum.splits if_splits)

lemma step_rows_kept:
  "billing_step codec encode upper db db' \<Longrightarrow> rows_kept (db_reservations db) (db_reservations db')"
  by (induction rule: billing_step.induct) (simp_all add: usage_steps_rows pay_rows redeem_rows order_rows)

interpretation calls: run_invariant env billing_inv "\<lambda>x y. rows_kept (db_reservations x) (db_reservations y)" for env
  by unfold_locales (auto dest: posts_keeps_books step_rows_kept intro: rows_kept_trans)


section \<open>What was authorized can be settled\<close>

lemma reserved_request:
  assumes "ReserveUsageBalance fault now inp db = (Inr r, db')"
  shows "ur_UserID r = rq_UserID inp" "rq_UserID inp \<noteq> 0" "ur_RefNo r = trim_space (rq_RefNo inp)" "trim_space (rq_RefNo inp) \<noteq> []"
    "ur_Mode r = trim_space (rq_Mode inp)" "ur_PeriodStartAt r = rq_PeriodStartAt inp" "ur_PeriodEndAt r = rq_PeriodEndAt inp"
    "ur_PeriodLimitNanousd r = rq_PeriodCreditNanousd inp" "r \<in> set (db_reservations db')" "0 < ur_ID r"
    "ur_Mode r = ''period'' \<Longrightarrow> \<exists>startAt endAt. ur_PeriodStartAt r = Some startAt \<and> ur_PeriodEndAt r = Some endAt \<and> startAt < endAt \<and>
       0 \<le> ur_PeriodLimitNanousd r"
proof -
  let ?inp = "inp\<lparr>rq_RefNo := trim_space (rq_RefNo inp), rq_Mode := trim_space (rq_Mode inp)\<rparr>"
  have b: "reserve_body now ?inp db = Inr (r, db')" and c: "rq_UserID inp \<noteq> 0" "trim_space (rq_RefNo inp) \<noteq> []"
    "trim_space (rq_Mode inp) = ''period'' \<longrightarrow> (\<exists>startAt endAt. rq_PeriodStartAt inp = Some startAt \<and> rq_PeriodEndAt inp = Some endAt \<and>
       startAt < endAt \<and> 0 \<le> rq_PeriodCreditNanousd inp)"
    using assms by (auto simp: ReserveUsageBalance_def Let_def transaction_commit split: if_splits option.splits)
  have i: "\<exists>requested credit db1. insert_reservation (new_reservation ?inp requested credit now) db1 = (r, db')"
    using b by (auto simp: reserve_body_def Let_def split: if_splits sum.splits option.splits) blast+
  then obtain requested credit db1 where "insert_reservation (new_reservation ?inp requested credit now) db1 = (r, db')" by blast
  note ins = insert_reservation_effects [OF this]
  have e: "r = (new_reservation ?inp requested credit now)\<lparr>ur_ID := Suc (db_lastID db1)\<rparr>" "db_reservations db' = db_reservations db1 @ [r]"
    using ins by simp_all
  show "ur_UserID r = rq_UserID inp" "rq_UserID inp \<noteq> 0" "ur_RefNo r = trim_space (rq_RefNo inp)" "trim_space (rq_RefNo inp) \<noteq> []"
    "ur_Mode r = trim_space (rq_Mode inp)" "ur_PeriodStartAt r = rq_PeriodStartAt inp" "ur_PeriodEndAt r = rq_PeriodEndAt inp"
    "ur_PeriodLimitNanousd r = rq_PeriodCreditNanousd inp" "r \<in> set (db_reservations db')" "0 < ur_ID r"
    using e c by (auto simp: new_reservation_def)
  show "ur_Mode r = ''period'' \<Longrightarrow> \<exists>startAt endAt. ur_PeriodStartAt r = Some startAt \<and> ur_PeriodEndAt r = Some endAt \<and> startAt < endAt \<and>
       0 \<le> ur_PeriodLimitNanousd r"
    using e c by (auto simp: new_reservation_def)
qed

text \<open>An authorization with a reservation: its mode is the one the reservation was made in.\<close>

lemma authorized_reservation:
  assumes "AuthorizeUsage s userID name ref db = (Inr a, db')" and "ua_Reservation a = Some r"
  shows "ua_Mode a = ur_Mode r" "ur_Mode r = ''usage'' \<or> ur_Mode r = ''period''" "ur_UserID r = userID" "userID \<noteq> 0"
    "ur_RefNo r = trim_space ref" "trim_space ref \<noteq> []" "r \<in> set (db_reservations db')" "0 < ur_ID r"
    "ur_Mode r = ''period'' \<Longrightarrow> \<exists>startAt endAt. ur_PeriodStartAt r = Some startAt \<and> ur_PeriodEndAt r = Some endAt \<and> startAt < endAt \<and>
       0 \<le> ur_PeriodLimitNanousd r"
proof -
  obtain auth request where q: "authorize_request s userID name ref db = Inr (auth, Some request)"
    and v: "ReserveUsageBalance (bs_write_fault s) (svc_now s) request db = (Inr r, db')" and a: "a = auth\<lparr>ua_Reservation := Some r\<rparr>"
    using assms by (auto simp: AuthorizeUsage_def authorize_request_def and_then_Inr from_repo_Inr budget_request_def Let_def
      split: sum.splits option.splits prod.splits if_splits)
  have "ua_Mode auth = ''usage'' \<or> ua_Mode auth = ''period''" "rq_UserID request = userID" "rq_RefNo request = trim_space ref"
    "rq_Mode request = ua_Mode auth"
    using q by (auto simp: authorize_request_def and_then_Inr from_repo_Inr budget_request_def Let_def split: if_split_asm option.split_asm)
  moreover have "trim_space ''usage'' = ''usage''" "trim_space ''period'' = ''period''" by code_simp+
  ultimately show "ua_Mode a = ur_Mode r" "ur_Mode r = ''usage'' \<or> ur_Mode r = ''period''" "ur_UserID r = userID" "userID \<noteq> 0"
    "ur_RefNo r = trim_space ref" "trim_space ref \<noteq> []" "r \<in> set (db_reservations db')" "0 < ur_ID r"
    using reserved_request [OF v] a by auto
  show "ur_Mode r = ''period'' \<Longrightarrow> \<exists>startAt endAt. ur_PeriodStartAt r = Some startAt \<and> ur_PeriodEndAt r = Some endAt \<and> startAt < endAt \<and>
       0 \<le> ur_PeriodLimitNanousd r"
    by (rule reserved_request(11) [OF v])
qed

text \<open>The row that the settlement of an authorized call finds.\<close>

lemma open_row_found:
  assumes "distinct (map (\<lambda>r. (ur_UserID r, ur_RefNo r)) (db_reservations db))" and "row \<in> set (db_reservations db)" and "same_call r row"
    and "ur_Status row = ''active'' \<or> ur_Status row = ''reconciliation''"
    and "ur_UserID r = u" and "u \<noteq> 0" and "trim_space (ur_RefNo r) = ur_RefNo r" and "ur_RefNo r \<noteq> []"
  shows "getUsageReservationForSettlement u (Some r) db = Inr (Some row, False)"
proof -
  have "List.find (\<lambda>x. ur_UserID x = u \<and> ur_RefNo x = trim_space (ur_RefNo r) \<and> (0 < ur_ID r \<longrightarrow> ur_ID x = ur_ID r)) (db_reservations db) = Some row"
    using assms unfolding same_call_def
    by (intro find_unique [where key = "\<lambda>r. (ur_UserID r, ur_RefNo r)" and Q = "\<lambda>_. True"]) auto
  then show ?thesis using assms by (auto simp: getUsageReservationForSettlement_def)
qed

definition storage_error :: "repo_error \<Rightarrow> bool" where
  "storage_error e \<longleftrightarrow> e = ErrDuplicate \<or> (\<exists>m. e = DatabaseError m)"

lemma db_int_error: "db_int n = Inl e \<Longrightarrow> storage_error e"
  by (auto simp: db_int_def storage_error_def split: if_splits)

lemma sums_error:
  "sumPeriodBilledNanousd u startAt endAt db = Inl e \<Longrightarrow> storage_error e"
  "sumActivePeriodCreditReservations u startAt endAt i now db = Inl e \<Longrightarrow> storage_error e"
  by (auto simp: sumPeriodBilledNanousd_def sumActivePeriodCreditReservations_def dest: db_int_error)

lemma post_usage_error:
  assumes "post_usage t account l amount nextBalance row res descr db = Inl e" and "db_accounts db (ul_UserID l) = Some account"
  shows "storage_error e"
proof -
  have debit: "storage_error e" if "debit_usage account u amount b n ref d db1 = Inl e" "db_accounts db1 u \<noteq> None" for u b n ref d db1
    using that by (auto simp: debit_usage_def add_to_balance_def split: if_splits sum.splits option.splits dest: db_int_error)
  show ?thesis using assms
    by (auto simp: post_usage_def insert_ledger_def Let_def storage_error_def split: sum.splits if_splits prod.splits
        dest!: debit [unfolded storage_error_def])
qed

lemma account_there: "u \<noteq> 0 \<Longrightarrow> \<exists>account db1. getOrCreateBillingAccountForUpdate u db = Inr (account, db1)"
  by (cases "db_accounts db u") (auto simp: getOrCreateBillingAccountForUpdate_def Let_def)

lemma settle_open_row_error:
  assumes "settle_usage_body t usage (Some r) db0 = Inl e" and "ul_UserID usage \<noteq> 0" and "ur_Mode row = ''usage''"
    and "\<And>db. db_reservations db = db_reservations db0 \<Longrightarrow> getUsageReservationForSettlement (ul_UserID usage) (Some r) db = Inr (Some row, False)"
  shows "storage_error e"
proof -
  obtain account db where g: "getOrCreateBillingAccountForUpdate (ul_UserID usage) db0 = Inr (account, db)"
    using account_there [OF assms(2)] by blast
  note e = getOrCreate_effects [OF g]
  show ?thesis using assms(1,3) g assms(4) [OF e(4)]
    by (auto simp: settle_usage_body_def settled_before_def Let_def e(1) split: sum.splits dest!: post_usage_error)
qed

lemma settle_open_period_error:
  assumes "settle_period_body codec now t usage startAt endAt credit (Some r) db0 = Inl e" and "ul_UserID usage \<noteq> 0"
    and "matchesPeriodReservation row startAt endAt credit"
    and "\<And>db. db_reservations db = db_reservations db0 \<Longrightarrow> getUsageReservationForSettlement (ul_UserID usage) (Some r) db = Inr (Some row, False)"
  shows "storage_error e"
proof -
  obtain account db where g: "getOrCreateBillingAccountForUpdate (ul_UserID usage) db0 = Inr (account, db)"
    using account_there [OF assms(2)] by blast
  note e = getOrCreate_effects [OF g]
  have "post_period_usage codec now t usage startAt endAt credit account (Some row) (Some r) db = Inl e"
    using assms(1,3) g assms(4) [OF e(4)] by (simp add: settle_period_body_def settled_before_def)
  then show ?thesis using e(1)
    by (auto simp: post_period_usage_def Let_def split: sum.splits dest!: post_usage_error sums_error)
qed

lemma settlement_refusals:
  assumes "AuthorizeUsage s userID name ref db0 = (Inr a, db1)" and "ua_Reservation a = Some r" and "billing_inv db1"
    and "billing_run env db1 db2"
    and "\<forall>t. ur_PeriodStartAt r = Some t \<longrightarrow> \<not> is_zero t"
    and "\<forall>x \<in> set (db_reservations db2). ur_ID x = ur_ID r \<longrightarrow> ur_Status x = ''active'' \<or> ur_Status x = ''reconciliation''"
    and "ul_UserID usage = userID" and "\<not> is_zero (ul_BillingAt usage)" and "\<not> is_zero (ud_UsageDate (ul_Details usage))"
    and "bs_write_fault s' = None" and "RecordUsageWithAuthorization s' (Some usage) (Some a) db2 = (Inl e, db3)"
  shows "\<exists>x. e = FromRepo x \<and> storage_error x"
proof -
  note ar = authorized_reservation [OF assms(1,2)]
  have inv: "billing_inv db2" "rows_kept (db_reservations db1) (db_reservations db2)"
    using calls.run [OF assms(4,3)] by simp_all
  then obtain row where row: "row \<in> set (db_reservations db2)" "same_call r row" using ar(7) by (auto simp: rows_kept_def)
  have found: "getUsageReservationForSettlement userID (Some r) db = Inr (Some row, False)"
    if "db_reservations db = db_reservations db2" for db
    by (rule open_row_found) (use inv(1) row ar assms(6) that in \<open>auto simp: billing_inv_def reservations_ok_def same_call_def\<close>)
  note found' = found [unfolded assms(7) [symmetric]]
  have u: "ul_UserID usage \<noteq> 0" using ar(4) assms(7) by simp
  have m: "ur_Mode row = ur_Mode r" using row(2) by (simp add: same_call_def)
  have t: "trim_space ''usage'' = ''usage''" "trim_space ''period'' = ''period''" by code_simp+
  have outcome: "\<exists>x. e = FromRepo x \<and> storage_error x"
    if "e = settle_error x" and "storage_error x" for x
    using that by (auto simp: settle_error_def storage_error_def)
  show ?thesis
    using ar(2)
  proof
    assume mode: "ur_Mode r = ''usage''"
    then have "map_prod (map_sum settle_error id) id (AddUsageAndSettleBalance None (svc_now s') (Some usage) (Some r) db2) = (Inl e, db3)"
      using assms(2,10,11) ar(1) t by (simp add: RecordUsageWithAuthorization_def record_in_mode_def Let_def)
    then obtain x where "settle_usage_body (svc_now s') usage (Some r) db2 = Inl x" "e = settle_error x"
      by (auto simp: AddUsageAndSettleBalance_def transaction_def split: sum.splits)
    then show ?thesis using outcome settle_open_row_error [OF _ u _ found'] m mode by metis
  next
    assume mode: "ur_Mode r = ''period''"
    obtain startAt endAt where p: "ur_PeriodStartAt r = Some startAt" "ur_PeriodEndAt r = Some endAt" "startAt < endAt"
      "0 \<le> ur_PeriodLimitNanousd r" using ar(9) [OF mode] by blast
    have "settlement_period s' usage (Some r) db2 = Inr (startAt, endAt, ur_PeriodLimitNanousd r)"
      using p mode assms(8,9) by (simp add: settlement_period_def)
    then have "map_prod (map_sum settle_error id) id (AddPeriodUsageAndSettleOverage (bs_codec s') None (svc_now s') (svc_now s')
        (Some usage) startAt endAt (ur_PeriodLimitNanousd r) (Some r) db2) = (Inl e, db3)"
      using assms(2,10,11) ar(1) t mode by (simp add: RecordUsageWithAuthorization_def record_in_mode_def Let_def)
    then obtain x where x: "settle_period_body (bs_codec s') (svc_now s') (svc_now s') usage startAt endAt (ur_PeriodLimitNanousd r) (Some r) db2 =
        Inl x" "e = settle_error x"
      using p u assms(5) by (auto simp: AddPeriodUsageAndSettleOverage_def transaction_def split: sum.splits if_splits)
    have "matchesPeriodReservation row startAt endAt (ur_PeriodLimitNanousd r)"
      using row(2) p(1,2) mode by (simp add: same_call_def matchesPeriodReservation_def)
    then show ?thesis using outcome x(2) settle_open_period_error [OF x(1) u _ found'] by blast
  qed
qed

text \<open>@C:Billing_Calls.authorized_call_settles@
  What was authorized can be settled. After a call got its reservation, any other operations may follow: the
  billing mode, the plan of the user and the prices may change, the lease may expire, the call may be marked for
  reconciliation. Unless the reservation was released or settled, recording the use is never refused as a conflict,
  for want of balance or as invalid: only the storage itself can fail, by a fault, an amount outside 64 bits or a
  ledger row that already has the reference. (The period must not begin at Go's zero time.)
\<close>

theorem authorized_call_settles:
  assumes "AuthorizeUsage s userID name ref db0 = (Inr a, db1)" and "ua_Reservation a = Some r" and "billing_inv db1"
    and "billing_run env db1 db2"
    and "\<forall>t. ur_PeriodStartAt r = Some t \<longrightarrow> \<not> is_zero t"
    and "\<forall>x \<in> set (db_reservations db2). ur_ID x = ur_ID r \<longrightarrow> ur_Status x = ''active'' \<or> ur_Status x = ''reconciliation''"
    and "ul_UserID usage = userID" and "\<not> is_zero (ul_BillingAt usage)" and "\<not> is_zero (ud_UsageDate (ul_Details usage))"
    and "bs_write_fault s' = None"
  shows "case fst (RecordUsageWithAuthorization s' (Some usage) (Some a) db2) of
      Inl e \<Rightarrow> \<exists>x. e = FromRepo x \<and> storage_error x | Inr l \<Rightarrow> True"
  using settlement_refusals [OF assms] by (auto split: sum.split) (metis prod.collapse)

section \<open>No paid call without a budget\<close>

text \<open>@C:Billing_Calls.paid_call_has_budget@
  No paid call starts without a budget. An authorization without a reservation is given only in self-hosted mode or
  for a free model, and then changes nothing. In every other case the call holds a reservation of its user, under its
  reference and mode, with a positive budget that together with all other calls of the user fits into the balance
  and the credit of the plan.
\<close>

theorem paid_call_has_budget:
  assumes "AuthorizeUsage s userID name ref db = (Inr a, db')" and "accounts_ok db" and "credits_int64 db"
  shows "case ua_Reservation a of
      None \<Rightarrow> db' = db \<and> (ua_Mode a \<notin> {''usage'', ''period''} \<or> (\<exists>p. getResolvedModelPricing (bs_env s) name = Inr p \<and> mp_IsFree p))
    | Some r \<Rightarrow> ur_UserID r = userID \<and> ur_RefNo r = trim_space ref \<and> ur_Mode r = ua_Mode a \<and>
        within_budget userID (svc_now s) r db' \<and> 0 < ur_BalanceNanousd r + ur_PeriodCreditNanousd r"
proof (cases "ua_Reservation a")
  case None
  then show ?thesis using assms(1)
    by (auto simp: AuthorizeUsage_def authorize_request_def budget_request_def and_then_Inr from_repo_Inr found_or_nil_def Let_def
      split: sum.splits option.splits prod.splits if_splits)
next
  case (Some r)
  obtain auth request where q: "authorize_request s userID name ref db = Inr (auth, Some request)"
    and v: "ReserveUsageBalance (bs_write_fault s) (svc_now s) request db = (Inr r, db')"
    using assms(1) Some by (auto simp: AuthorizeUsage_def authorize_request_def and_then_Inr from_repo_Inr budget_request_def Let_def
      split: sum.splits option.splits prod.splits if_splits)
  let ?inp = "request\<lparr>rq_RefNo := trim_space (rq_RefNo request), rq_Mode := trim_space (rq_Mode request)\<rparr>"
  have "reserve_body (svc_now s) ?inp db = Inr (r, db')"
    using v by (auto simp: ReserveUsageBalance_def Let_def transaction_commit split: if_splits)
  note w = reserve_body_within [OF this assms(2)]
  have "in_int64 (rq_PeriodCreditNanousd request)" by (rule authorized_request_int64 [OF q assms(3)])
  then show ?thesis using w authorized_reservation [OF assms(1) Some] reserved_request(1) [OF v] Some by simp
qed

section \<open>Orders\<close>

lemma completed_is_paid:
  assumes "CompletePaymentOrder s faults no ext paidAt db = (Inr (order, fresh), db1)"
  shows "paid_in (trim_space no) db1"
proof -
  obtain o1 where o1: "db_orders db (trim_space no) = Some o1"
    using assms by (auto simp: CompletePaymentOrder_def GetPaymentOrder_def GetPaymentOrderByOrderNo_def split: option.splits sum.splits)
  show ?thesis
  proof (cases "po_Status o1 = ''paid''")
    case True
    then show ?thesis using assms o1
      by (auto simp: CompletePaymentOrder_def GetPaymentOrder_def GetPaymentOrderByOrderNo_def paid_in_def split: option.splits)
  next
    case False
    have credit: "paid_in no db1" if "credit_order_body no ext t db = Inr ((x, y), db1)" for no t x y
      using that by (cases rule: credit_order_cases) (auto simp: paid_in_def mark_paid_def)
    have grant: "paid_in no db1" if "grant_order_body now no ext t sub db = Inr ((x, y), db1)" for now no t sub x y
      using that by (cases rule: grant_order_cases) (auto simp: paid_in_def mark_paid_def)
    show ?thesis using assms o1 False credit grant
      by (auto simp: CompletePaymentOrder_def GetPaymentOrder_def GetPaymentOrderByOrderNo_def Let_def map_error_def
        MarkPaymentOrderPaidAndCreditBalance_def MarkPaymentOrderPaidAndGrantSubscription_def transaction_def
        split: option.splits if_splits sum.splits)
  qed
qed

text \<open>@C:Billing_Calls.order_completed_once@
  A payment is delivered once. After an order was completed, whatever the system does next, completing it again, with
  any external payment and at any time, as providers do when they repeat their notification, answers that
  nothing new was delivered and changes nothing.
\<close>

theorem order_completed_once:
  assumes "CompletePaymentOrder s faults no ext paidAt db = (Inr (order, fresh), db1)" and "billing_inv db1" and "billing_run env db1 db2"
    and "of_order faults' = None"
  shows "\<exists>order'. po_Status order' = ''paid'' \<and> CompletePaymentOrder s' faults' no ext' paidAt' db2 = (Inr (order', False), db2)"
proof -
  have "paid_in (trim_space no) db2"
    using orders.run [OF assms(3,2)] completed_is_paid [OF assms(1)] by (simp add: orders_kept_def)
  then show ?thesis using assms(4)
    by (auto simp: paid_in_def CompletePaymentOrder_def GetPaymentOrder_def GetPaymentOrderByOrderNo_def)
qed


section \<open>The service over the repository\<close>


section \<open>A sample call\<close>

definition call_service :: "string \<Rightarrow> (int, int) billing_service" where
  "call_service mode = \<lparr>bs_env = Billing_Ledger.sample_env\<lparr>le_settings := [(''billing'', ''mode'') \<mapsto> mode]\<rparr>, bs_prepaid = Inr 5000000,
     bs_video = None, bs_write_fault = None, bs_codec = \<lparr>jc_decode = \<lambda>_. Map.empty, jc_encode = \<lambda>_. None, jc_int = id\<rparr>\<rparr>"

definition call_db0 :: billing_db where
  "call_db0 = snd (SetBillingAccountBalance None 1 100000000 [] [] empty_billing_db)"

definition call_auth :: usage_authorization where
  "call_auth = projr (fst (AuthorizeUsage (call_service ''usage'') 1 ''m'' ''r'' call_db0))"

definition call_db1 :: billing_db where
  "call_db1 = snd (AuthorizeUsage (call_service ''usage'') 1 ''m'' ''r'' call_db0)"

definition call_row :: usage_reservation where
  "call_row = the (ua_Reservation call_auth)"

text \<open>In between, the call is marked for reconciliation and the mode of the settings changes.\<close>

definition call_db2 :: billing_db where
  "call_db2 = snd (MarkUsageReservationReconciliationRequired None 1000 1 ''r'' ''x'' call_db1)"

definition call_usage :: usage_ledger where
  "call_usage = Billing_Settlement.sample_usage\<lparr>ul_UserID := 1, ul_RefNo := ''r'', ul_Details := (ul_Details Billing_Settlement.sample_usage)\<lparr>ud_UsageDate := 5\<rparr>\<rparr>"

definition call_db3 :: billing_db where
  "call_db3 = snd (RecordUsageWithAuthorization (call_service ''self'') (Some call_usage) (Some call_auth) call_db2)"

lemma right_pair: "\<not> isl (fst p) \<Longrightarrow> p = (Inr (projr (fst p)), snd p)"
  by (cases p; cases "fst p") auto

lemma call_authorized: "AuthorizeUsage (call_service ''usage'') 1 ''m'' ''r'' call_db0 = (Inr call_auth, call_db1)"
  unfolding call_auth_def call_db1_def by (rule right_pair) code_simp

lemma call_reserved: "ua_Reservation call_auth = Some call_row"
proof -
  have "ua_Reservation call_auth \<noteq> None" by code_simp
  then show ?thesis by (auto simp: call_row_def)
qed

lemma call_db0_ok: "billing_inv call_db0" "books call_db0" "credits_int64 call_db0"
proof -
  have "billing_step codec encode upper empty_billing_db call_db0" for codec :: "int json_codec" and encode upper
    unfolding call_db0_def by (rule billing_step.set_balance) (simp add: int64_defs)
  then show "billing_inv call_db0" "books call_db0" using posts_keeps_books empty_ok(1,2) by blast+
  show "credits_int64 call_db0" by code_simp
qed

lemma call_steps:
  "service_step fx (bs_codec (call_service ''usage'')) id call_db0 call_db1"
  "service_step fx (bs_codec (call_service ''usage'')) id call_db2 call_db3"
  "service_step fx (bs_codec (call_service ''usage'')) id call_db1 call_db2" for fx :: "int fx_ops"
proof -
  have s: "runs_with (bs_codec (call_service ''usage'')) id (call_service mode)" for mode
    by (simp add: runs_with_def call_service_def Billing_Ledger.sample_env_def)
  show "service_step fx (bs_codec (call_service ''usage'')) id call_db0 call_db1"
    unfolding call_db1_def by (rule service_step.authorize [OF s call_db0_ok(3)])
  have "credits_int64 call_db2" "authorization_int64 (Some call_auth)" "in_int64 (ul_BilledNanousd call_usage)"
    by (simp_all add: authorization_int64_def call_reserved) code_simp+
  then show "service_step fx (bs_codec (call_service ''usage'')) id call_db2 call_db3"
    unfolding call_db3_def by (intro service_step.settle [OF s]) simp_all
  have "MarkUsageAuthorizationForReconciliation (call_service ''usage'') (Some call_auth) ''x'' call_db1 =
      map_prod from_repo id (MarkUsageReservationReconciliationRequired None 1000 (ur_UserID call_row) (ur_RefNo call_row) ''x'' call_db1)"
    by (simp add: MarkUsageAuthorizationForReconciliation_def with_reservation_def call_reserved call_service_def svc_now_def
        Billing_Ledger.sample_env_def)
  moreover have "ur_UserID call_row = 1" "ur_RefNo call_row = ''r''" by code_simp+
  ultimately have "call_db2 = snd (MarkUsageAuthorizationForReconciliation (call_service ''usage'') (Some call_auth) ''x'' call_db1)"
    by (simp add: call_db2_def)
  then show "service_step fx (bs_codec (call_service ''usage'')) id call_db1 call_db2"
    using service_step.mark [OF s] by metis
qed

lemma call_db1_ok: "billing_inv call_db1"
proof -
  have "call_db1 = call_db0 \<or> billing_step (bs_codec (call_service ''usage'')) (\<lambda>_. None) id call_db0 call_db1"
    using service_step_one [OF call_steps(1)] by (simp add: one_step_def) blast
  then show ?thesis using call_db0_ok(1) posts_keeps_books by metis
qed

lemma call_run: "billing_run (bs_codec (call_service ''usage''), encode, id) call_db1 call_db2"
  using service_step_one [OF call_steps(3)] by (auto simp: one_step_def billing_run_def)

theorem authorized_call_settles_witness:
  "\<not> isl (fst (RecordUsageWithAuthorization (call_service ''self'') (Some call_usage) (Some call_auth) call_db2)) \<and>
   (case fst (RecordUsageWithAuthorization (call_service ''self'') (Some call_usage) (Some call_auth) call_db2) of
      Inl e \<Rightarrow> \<exists>x. e = FromRepo x \<and> storage_error x | Inr l \<Rightarrow> True)"
proof -
  have h: "ur_PeriodStartAt call_row = None"
    "\<forall>x \<in> set (db_reservations call_db2). ur_ID x = ur_ID call_row \<longrightarrow> ur_Status x = ''active'' \<or> ur_Status x = ''reconciliation''"
    "ul_UserID call_usage = 1" "\<not> is_zero (ul_BillingAt call_usage)" "\<not> is_zero (ud_UsageDate (ul_Details call_usage))"
    "bs_write_fault (call_service ''self'') = None"
    "\<not> isl (fst (RecordUsageWithAuthorization (call_service ''self'') (Some call_usage) (Some call_auth) call_db2))"
    by code_simp+
  have "\<forall>t. ur_PeriodStartAt call_row = Some t \<longrightarrow> \<not> is_zero t" by (simp add: h(1))
  from authorized_call_settles [OF call_authorized call_reserved call_db1_ok call_run this h(2-6)] h(7) show ?thesis by blast
qed

theorem paid_call_has_budget_witness:
  "\<exists>r. ua_Reservation call_auth = Some r \<and> within_budget 1 1000 r call_db1 \<and> ur_BalanceNanousd r = 5000000"
proof -
  have "accounts_ok call_db0" using call_db0_ok(1) by (simp add: billing_inv_def)
  from paid_call_has_budget [OF call_authorized this call_db0_ok(3)]
  have "within_budget 1 (svc_now (call_service ''usage'')) call_row call_db1" by (simp add: call_reserved)
  moreover have "svc_now (call_service ''usage'') = 1000" "ur_BalanceNanousd call_row = 5000000" by code_simp+
  ultimately show ?thesis by (simp add: call_reserved)
qed


section \<open>Sample orders\<close>

definition order_fx :: "int fx_ops" where
  "order_fx = \<lparr>fx_invalid = (\<lambda>v. v \<le> 0), fx_default = 7, fx_one = 1, fx_times = (*), fx_show = (\<lambda>_. ''1''),
    fx_hundredth = (\<lambda>n. n div 100), fx_div = (div), fx_mul = (*), fx_cents = (\<lambda>v. v * 100)\<rparr>"

definition order_oe :: "int order_env" where
  "order_oe = \<lparr>oe_fx = order_fx, oe_order_no = Inr ''pay_1'', oe_snapshot = (\<lambda>_. ''{}'')\<rparr>"

definition topup_created :: "(billing_error + payment_order) \<times> billing_db" where
  "topup_created = CreateTopUpPaymentOrder (call_service ''usage'') order_oe \<lparr>ti_UserID = 1, ti_AmountMinorUnits = 500, ti_AmountCurrency = [],
     ti_Provider = ''stripe'', ti_USDToCNYRate = 7, ti_PreferredPayCurrency = []\<rparr> call_db0"

definition topup_done :: "(billing_error + payment_order \<times> bool) \<times> billing_db" where
  "topup_done = CompletePaymentOrder (call_service ''usage'') no_order_faults ''pay_1'' ''ext'' 2000 (snd topup_created)"

lemma topup_done_ok: "CompletePaymentOrder (call_service ''usage'') no_order_faults ''pay_1'' ''ext'' 2000 (snd topup_created) =
    (Inr (projr (fst topup_done)), snd topup_done)" "snd (projr (fst topup_done))"
  unfolding topup_done_def [symmetric] by (rule right_pair) code_simp+

theorem order_completed_once_witness:
  "\<exists>order' order. topup_done = (Inr (order, True), snd topup_done) \<and>
     CompletePaymentOrder (call_service ''usage'') no_order_faults ''pay_1'' ''again'' 3000 (snd topup_done) = (Inr (order', False), snd topup_done)"
proof -
  obtain order where o1: "projr (fst topup_done) = (order, True)" using topup_done_ok(2) by (metis prod.collapse)
  have s: "runs_with (bs_codec (call_service ''usage'')) id (call_service ''usage'')"
    by (simp add: runs_with_def call_service_def Billing_Ledger.sample_env_def)
  have "service_step order_fx (bs_codec (call_service ''usage'')) id call_db0 (snd topup_created)"
    unfolding topup_created_def by (rule service_step.topup [OF s]) (simp add: order_oe_def)
  moreover have "service_step order_fx (bs_codec (call_service ''usage'')) id (snd topup_created) (snd topup_done)"
    unfolding topup_done_def by (rule service_step.complete [OF s])
  moreover have keep: "one_step (bs_codec (call_service ''usage'')) id x y \<Longrightarrow> billing_inv x \<Longrightarrow> billing_inv y" for x y
    unfolding one_step_def using posts_keeps_books by blast
  ultimately have "billing_inv (snd topup_done)" using call_db0_ok(1) service_step_one by meson
  moreover have "billing_run (bs_codec (call_service ''usage''), \<lambda>_. None, id) (snd topup_done) (snd topup_done)"
    by (simp add: billing_run_def)
  moreover have "of_order no_order_faults = None" by (simp add: no_order_faults_def)
  ultimately have "\<exists>order'. po_Status order' = ''paid'' \<and> CompletePaymentOrder (call_service ''usage'') no_order_faults ''pay_1'' ''again'' 3000
      (snd topup_done) = (Inr (order', False), snd topup_done)"
    using order_completed_once [OF topup_done_ok(1) [unfolded o1]] by blast
  then show ?thesis using topup_done_ok(1) o1 unfolding topup_done_def [symmetric] by auto
qed

definition plan_db :: billing_db where
  "plan_db = empty_billing_db\<lparr>db_plans := [\<lparr>bp_ID = 1, bp_Code = ''pro'', bp_Name = ''Pro'', bp_Description = [], bp_FeatureJSON = [],
       bp_PeriodCreditNanousd = 0, bp_SortOrder = 1, bp_IsActive = True, bp_PermissionGroupID = None\<rparr>],
     db_prices := [\<lparr>pr_ID = 1, pr_PlanID = 1, pr_Code = ''pro-default'', pr_BillingInterval = ''lifetime'', pr_Currency = ''USD'',
       pr_AmountCents = 9900, pr_IsActive = True, pr_IsDefault = True, pr_ExternalPriceRef = []\<rparr>]\<rparr>"

definition plan_ordered :: "(billing_error + payment_order \<times> billing_plan \<times> billing_price) \<times> billing_db" where
  "plan_ordered = Service_CreatePaymentOrder (call_service ''period'') order_oe no_order_faults \<lparr>oi_UserID = 1, oi_PriceID = 1, oi_Cycles = 1,
     oi_Provider = ''stripe'', oi_USDToCNYRate = 7, oi_PreferredPayCurrency = []\<rparr> plan_db"


end
