(* ===== verification/Option_Policy.thy ===== *)
theory Option_Policy
  imports Native_Tools Route_Protocols Text_Util "HOL-Library.Sublist"
begin

text \<open>
  What of a user's free-form request options reaches an upstream (\<open>application/conversation/model_option_policy.go\<close>,
  \<open>ports/llm/xai_video_options.go\<close>): the defaults and locks of the model's capabilities, the allowlist and denylist
  of paths, the provider tools the administrator enabled, and the parameters that need a check of their value.
  A nil map is the empty one, as only its length is ever looked at. \<open>json.Unmarshal\<close> is an argument, one decoder for
  each shape that the code reads, \<open>None\<close> for its error.
\<close>

record native_tool_item =
  nt_Key :: string
  nt_ToolKey :: string
  nt_Protocol :: string
  nt_Protocols :: "string list"
  nt_Type :: string
  nt_Enabled :: "bool option"
  nt_Payload :: "goobj option"

record capability_config =
  cc_NativeTools :: "native_tool_item list"
  cc_NativeToolKeys :: "string list"
  cc_DefaultOptions :: goobj

record option_decoders =
  od_defaults :: "string \<Rightarrow> goobj option"
  od_locked :: "string \<Rightarrow> string list option"
  od_tools :: "string \<Rightarrow> capability_config option"
  od_paths :: "string \<Rightarrow> (string \<Rightarrow> string list) option"

record modelOptionPolicyConfig =
  oc_Mode :: string
  oc_AllowedPathsJSON :: string
  oc_DeniedPathsJSON :: string
  oc_ModelCapabilitiesJSON :: string

definition hardDeniedModelOptionPaths :: "string list list" where
  "hardDeniedModelOptionPaths = [[''model''], [''messages''], [''input''], [''instructions''], [''prompt''], [''system''],
     [''systemInstruction''], [''headers''], [''api_key''], [''apiKey''], [''base_url''], [''baseURL''], [''stream''],
     [''previous_response_id''], [''prompt_cache_key''], [''prompt_cache_options''], [''prompt_cache_breakpoint''],
     [''prompt_cache_retention'']]"

section \<open>Paths\<close>

text \<open>\<open>strings.Split(value, ".")\<close>.\<close>

fun split_dots :: "string \<Rightarrow> string list" where
  "split_dots [] = [[]]"
| "split_dots (c # s) = (if c = CHR ''.'' then [] # split_dots s else (c # hd (split_dots s)) # tl (split_dots s))"

definition splitModelOptionPath :: "string \<Rightarrow> string list" where
  "splitModelOptionPath value0 =
     (let value = trim_space value0 in
      if value = [] \<or> list_ex (\<lambda>c. c \<in> {CHR '' '', CHR 0x09, CHR 0x0D, CHR 0x0A}) value then []
      else if [] \<in> set (split_dots value) then [] else split_dots value)"

fun readModelOptionPath :: "goobj \<Rightarrow> string list \<Rightarrow> gojson option" where
  "readModelOptionPath src [] = None"
| "readModelOptionPath src (k # ks) =
     (case jget src k of None \<Rightarrow> None
      | Some v \<Rightarrow> if ks = [] then Some v
                 else (case v of JObj m \<Rightarrow> readModelOptionPath m ks | _ \<Rightarrow> None))"

fun writeModelOptionPath :: "goobj \<Rightarrow> string list \<Rightarrow> gojson \<Rightarrow> goobj" where
  "writeModelOptionPath dst [] v = dst"
| "writeModelOptionPath dst (k # ks) v =
     (if ks = [] then jset k v dst
      else jset k (JObj (writeModelOptionPath (case jget dst k of Some (JObj m) \<Rightarrow> m | _ \<Rightarrow> []) ks v)) dst)"

fun deleteModelOptionPath :: "goobj \<Rightarrow> string list \<Rightarrow> goobj" where
  "deleteModelOptionPath dst [] = dst"
| "deleteModelOptionPath dst (k # ks) =
     (if ks = [] then jdel k dst
      else (case jget dst k of Some (JObj m) \<Rightarrow> jset k (JObj (deleteModelOptionPath m ks)) dst | _ \<Rightarrow> dst))"

lemma jget_size: "jget m k = Some v \<Longrightarrow> size v < size (JObj m)"
  unfolding jget_def by (induction m) (auto split: if_splits)

text \<open>
  \<open>copyModelOptionValueAtPath\<close>: what lies under a path, inside the objects that lead to it. A list is copied
  element by element, with an empty object for an element that has no such path.
\<close>

function copyModelOptionValueAtPath :: "gojson \<Rightarrow> string list \<Rightarrow> gojson option" where
  "copyModelOptionValueAtPath v [] = Some v"
| "copyModelOptionValueAtPath (JObj m) (k # ks) =
     (case jget m k of None \<Rightarrow> None
      | Some child \<Rightarrow> map_option (\<lambda>c. JObj [(k, c)]) (copyModelOptionValueAtPath child ks))"
| "copyModelOptionValueAtPath (JArr items) (k # ks) =
     (let copies = map (\<lambda>item. copyModelOptionValueAtPath item (k # ks)) items
      in if list_all (\<lambda>c. c = None) copies then None
         else Some (JArr (map (\<lambda>c. case c of Some x \<Rightarrow> x | None \<Rightarrow> JObj []) copies)))"
| "copyModelOptionValueAtPath JNull (k # ks) = None"
| "copyModelOptionValueAtPath (JBool b) (k # ks) = None"
| "copyModelOptionValueAtPath (JInt i) (k # ks) = None"
| "copyModelOptionValueAtPath (JFloat i j) (k # ks) = None"
| "copyModelOptionValueAtPath (JStr s) (k # ks) = None"
  by pat_completeness auto
termination
  by (relation "measure (\<lambda>(v, ks). size v)") (auto dest: jget_size intro: le_imp_less_Suc simp: size_list_estimation')

text \<open>\<open>mergeModelOptionPathMap\<close> and \<open>mergeModelOptionPathArray\<close>.\<close>

function mergeModelOptionPathMap :: "goobj \<Rightarrow> goobj \<Rightarrow> goobj"
  and mergeModelOptionPathArray :: "gojson list \<Rightarrow> gojson list \<Rightarrow> gojson list" where
  "mergeModelOptionPathMap dst [] = dst"
| "mergeModelOptionPathMap dst ((k, v) # src) =
     mergeModelOptionPathMap
       (jset k (case v of
           JObj i \<Rightarrow> (case jget dst k of Some (JObj e) \<Rightarrow> JObj (mergeModelOptionPathMap e i) | _ \<Rightarrow> v)
         | JArr i \<Rightarrow> (case jget dst k of Some (JArr e) \<Rightarrow> JArr (mergeModelOptionPathArray e i) | _ \<Rightarrow> v)
         | _ \<Rightarrow> v) dst) src"
| "mergeModelOptionPathArray [] incoming = incoming"
| "mergeModelOptionPathArray (e # existing) [] = e # existing"
| "mergeModelOptionPathArray (e # existing) (i # incoming) =
     (case i of
        JObj b \<Rightarrow> (case e of JObj a \<Rightarrow> JObj (mergeModelOptionPathMap a b) | _ \<Rightarrow> i)
      | _ \<Rightarrow> i) # mergeModelOptionPathArray existing incoming"
  by pat_completeness auto
termination
  by (relation "measure (\<lambda>x. case x of Inl (d, s) \<Rightarrow> size (JObj s) | Inr (e, i) \<Rightarrow> size (JArr i))") auto

definition mergeModelOptionPathValue :: "goobj \<Rightarrow> gojson \<Rightarrow> goobj" where
  "mergeModelOptionPathValue dst v = (case v of JObj m \<Rightarrow> mergeModelOptionPathMap dst m | _ \<Rightarrow> dst)"

definition copyModelOptionPath :: "goobj \<Rightarrow> goobj \<Rightarrow> string list \<Rightarrow> goobj" where
  "copyModelOptionPath dst src path =
     (case copyModelOptionValueAtPath (JObj src) path of None \<Rightarrow> dst | Some v \<Rightarrow> mergeModelOptionPathValue dst v)"

definition mergeModelOptionMap :: "goobj \<Rightarrow> goobj \<Rightarrow> goobj" where
  "mergeModelOptionMap dst src = mergePayload dst src"

section \<open>Capabilities of a model\<close>

definition modelCapabilityDefaultOptions :: "option_decoders \<Rightarrow> string \<Rightarrow> goobj" where
  "modelCapabilityDefaultOptions dec raw =
     (if trim_space raw = [] then [] else case od_defaults dec (trim_space raw) of None \<Rightarrow> [] | Some m \<Rightarrow> m)"

definition modelCapabilityLockedOptionPaths :: "option_decoders \<Rightarrow> string \<Rightarrow> string list list" where
  "modelCapabilityLockedOptionPaths dec raw =
     (if trim_space raw = [] then []
      else case od_locked dec (trim_space raw) of None \<Rightarrow> []
        | Some ps \<Rightarrow> filter (\<lambda>p. p \<noteq> []) (map splitModelOptionPath ps))"

text \<open>The defaults, the user's options over them, and the defaults again at the locked paths.\<close>

definition mergeModelOptionDefaults :: "goobj \<Rightarrow> goobj \<Rightarrow> string list list \<Rightarrow> goobj" where
  "mergeModelOptionDefaults defaults options lockedPaths =
     fold (\<lambda>path m. case readModelOptionPath defaults path of None \<Rightarrow> m | Some v \<Rightarrow> writeModelOptionPath m path v)
       lockedPaths (mergeModelOptionMap defaults options)"

record nativeToolCapability =
  cp_Key :: string
  cp_Protocol :: string
  cp_Type :: string
  cp_Payload :: goobj

definition Identity :: "nativeToolCapability \<Rightarrow> string" where
  "Identity c =
     (let key = trim_space (cp_Key c); rest = trim_space (cp_Protocol c) @ '':'' @ trim_space (cp_Type c)
      in if key \<noteq> [] then key @ '':'' @ rest else rest)"

definition nativeToolCapabilityProtocols :: "string list \<Rightarrow> string \<Rightarrow> string list" where
  "nativeToolCapabilityProtocols values single = first_occurrences (values @ [single])"

definition nativeToolDefinitionsByKey :: "string \<Rightarrow> nativetool_definition list" where
  "nativeToolDefinitionsByKey key =
     (if trim_space key = [] then [] else filter (\<lambda>d. nd_Key d = trim_space key) definitions)"

definition nativeToolDefinitionProtocols :: "nativetool_definition list \<Rightarrow> string list" where
  "nativeToolDefinitionProtocols ds = first_occurrences (map nd_Protocol ds)"

definition nativeToolDefinitionForProtocol :: "nativetool_definition list \<Rightarrow> string \<Rightarrow> nativetool_definition option" where
  "nativeToolDefinitionForProtocol ds protocol = List.find (\<lambda>d. nd_Protocol d = trim_space protocol) ds"

definition providerToolOptionPayloads :: "gojson option \<Rightarrow> goobj list" where
  "providerToolOptionPayloads raw =
     (case raw of Some (JArr items) \<Rightarrow> List.map_filter (\<lambda>i. case i of JObj m \<Rightarrow> Some m | _ \<Rightarrow> None) items | _ \<Rightarrow> [])"

definition add_capability :: "string \<Rightarrow> nativeToolCapability \<Rightarrow> nativeToolCapability list \<Rightarrow> nativeToolCapability list" where
  "add_capability protocolKey c0 capabilities =
     (let c1 = c0\<lparr>cp_Key := trim_space (cp_Key c0), cp_Protocol := trim_space (cp_Protocol c0), cp_Type := trim_space (cp_Type c0)\<rparr>;
          c2 = c1\<lparr>cp_Type := or_text (cp_Type c1) (trim_space (stringValue (jget (cp_Payload c1) ''type'')))\<rparr>;
          c = c2\<lparr>cp_Protocol := or_text (cp_Protocol c2) protocolKey\<rparr>
      in if cp_Type c = [] \<and> cp_Payload c = [] then capabilities
         else if Identity c \<in> Identity ` set capabilities then capabilities else capabilities @ [c])"

text \<open>
  The capabilities one declared tool stands for, one for each of its protocols. \<open>None\<close> is the panic of
  \<open>CanonicalPayload\<close> for a known tool whose entry has no payload.
\<close>

definition item_protocols :: "string \<Rightarrow> native_tool_item \<Rightarrow> string list" where
  "item_protocols protocolKey i =
     (let declared = nativeToolCapabilityProtocols (nt_Protocols i) (nt_Protocol i);
          known = nativeToolDefinitionProtocols (nativeToolDefinitionsByKey (or_text (trim_space (nt_Key i)) (trim_space (nt_ToolKey i))))
      in if declared \<noteq> [] then declared else if known \<noteq> [] then known else [protocolKey])"

definition item_capability :: "string \<Rightarrow> native_tool_item \<Rightarrow> string \<Rightarrow> nativeToolCapability option" where
  "item_capability protocolKey i protocol =
     (let key = or_text (trim_space (nt_Key i)) (trim_space (nt_ToolKey i)); ds = nativeToolDefinitionsByKey key;
          plain = \<lparr>cp_Key = key, cp_Protocol = protocol, cp_Type = nt_Type i,
                   cp_Payload = (case nt_Payload i of None \<Rightarrow> [] | Some m \<Rightarrow> m)\<rparr>
      in if ds \<noteq> [] then
           (case nativeToolDefinitionForProtocol ds protocol of
              None \<Rightarrow> Some plain
            | Some d \<Rightarrow> map_option (\<lambda>p. \<lparr>cp_Key = key, cp_Protocol = FirstNonEmpty [protocol, nd_Protocol d, protocolKey],
                cp_Type = FirstNonEmpty [nt_Type i, nd_Type d], cp_Payload = p\<rparr>) (CanonicalPayload d (nt_Payload i)))
         else Some (plain\<lparr>cp_Protocol := FirstNonEmpty [protocol, protocolKey]\<rparr>))"

definition capability_of_definition :: "nativetool_definition \<Rightarrow> goobj \<Rightarrow> nativeToolCapability" where
  "capability_of_definition d p = \<lparr>cp_Key = nd_Key d, cp_Protocol = nd_Protocol d, cp_Type = nd_Type d, cp_Payload = p\<rparr>"

definition nativeToolCapabilitiesFromConfig :: "option_decoders \<Rightarrow> string \<Rightarrow> string \<Rightarrow> nativeToolCapability list option" where
  "nativeToolCapabilitiesFromConfig dec raw protocolKey =
     (if trim_space raw = [] then Some []
      else case od_tools dec (trim_space raw) of None \<Rightarrow> Some []
        | Some cfg \<Rightarrow>
          (let declared = concat (map (\<lambda>i. map (item_capability protocolKey i) (item_protocols protocolKey i))
                 (filter (\<lambda>i. nt_Enabled i \<noteq> Some False) (cc_NativeTools cfg)));
               keyed = concat (map (\<lambda>k. map (\<lambda>d. Some (capability_of_definition d (case nd_Payload d of None \<Rightarrow> [] | Some p \<Rightarrow> p)))
                 (nativeToolDefinitionsByKey k)) (cc_NativeToolKeys cfg));
               defaulted = List.map_filter (\<lambda>tool. map_option
                   (\<lambda>(d, _). map_option (capability_of_definition d) (CanonicalPayload d (Some tool)))
                   (PayloadFromOption protocolKey tool))
                 (providerToolOptionPayloads (jget (cc_DefaultOptions cfg) ''tools''))
           in map_option (\<lambda>cs. fold (add_capability protocolKey) cs []) (those (declared @ keyed @ defaulted))))"

definition nativeToolCapabilityByDefinition ::
  "nativeToolCapability list \<Rightarrow> nativetool_definition \<Rightarrow> nativeToolCapability option" where
  "nativeToolCapabilityByDefinition items d =
     List.find (\<lambda>c. (cp_Key c \<noteq> [] \<and> cp_Key c = nd_Key d \<and> (cp_Protocol c = [] \<or> cp_Protocol c = nd_Protocol d)) \<or>
       (cp_Type c = nd_Type d \<and> (cp_Protocol c = [] \<or> cp_Protocol c = nd_Protocol d))) items"

definition nativeToolCapabilityMatchesRawTool :: "nativeToolCapability \<Rightarrow> goobj \<Rightarrow> bool" where
  "nativeToolCapabilityMatchesRawTool c raw =
     (let rawType = trim_space (stringValue (jget raw ''type''));
          payloadType = trim_space (stringValue (jget (cp_Payload c) ''type''))
      in if rawType \<noteq> [] \<and> cp_Type c \<noteq> [] then rawType = cp_Type c
         else if rawType \<noteq> [] \<and> payloadType \<noteq> [] then rawType = payloadType
         else if cp_Type c \<noteq> [] then False
         else list_ex (\<lambda>(k, _). k \<noteq> ''type'' \<and> jget raw k \<noteq> None) (cp_Payload c))"

definition mergeNativeToolPayload :: "goobj \<Rightarrow> goobj \<Rightarrow> goobj" where
  "mergeNativeToolPayload raw base =
     mergeModelOptionMap (fold (\<lambda>p m. deleteModelOptionPath m p) hardDeniedModelOptionPaths raw) base"

text \<open>
  The tool that is sent for one of the user's tools and the identity it counts under, \<open>None\<close> if the tool
  is dropped. The inner options are the panic of a nil payload, which does not happen here.
\<close>

definition nativeProviderToolPayload ::
  "string \<Rightarrow> goobj \<Rightarrow> nativeToolCapability list \<Rightarrow> (goobj option \<times> string) option" where
  "nativeProviderToolPayload protocolKey rawTool allowedTools =
     (case Option.bind (PayloadFromOption protocolKey rawTool)
          (\<lambda>(d, tool). map_option (\<lambda>c. (d, tool, c)) (nativeToolCapabilityByDefinition allowedTools d)) of
        Some (d, tool, c) \<Rightarrow>
          Some (Option.bind tool (\<lambda>t. CanonicalPayload d (Some (mergeNativeToolPayload t (cp_Payload c)))), Identity c)
      | None \<Rightarrow> map_option (\<lambda>c. (Some (mergeNativeToolPayload rawTool (cp_Payload c)), Identity c))
          (List.find (\<lambda>c. nativeToolCapabilityMatchesRawTool c rawTool) allowedTools))"

definition nativeProviderToolsFromOption :: "option_decoders \<Rightarrow> string \<Rightarrow> gojson option \<Rightarrow> string \<Rightarrow> goobj list option" where
  "nativeProviderToolsFromOption dec protocolKey raw capabilitiesJSON =
     (let rawTools = providerToolOptionPayloads raw in
      if rawTools = [] then Some []
      else Option.bind (nativeToolCapabilitiesFromConfig dec capabilitiesJSON protocolKey)
        (\<lambda>allowedTools. those (map fst (fold (\<lambda>rawTool r.
            case nativeProviderToolPayload protocolKey rawTool allowedTools of None \<Rightarrow> r
            | Some (tool, i) \<Rightarrow> if i \<in> snd ` set r then r else r @ [(tool, i)]) rawTools []))))"

section \<open>Values that are checked\<close>

definition sanitizeOpenAIServiceTier :: "goobj \<Rightarrow> goobj" where
  "sanitizeOpenAIServiceTier options =
     (case jget options ''service_tier'' of
        None \<Rightarrow> options
      | Some (JStr value) \<Rightarrow>
          (let tier = trim_space (to_lower value)
           in if tier \<in> {''default'', ''flex'', ''priority''} then jset ''service_tier'' (JStr tier) options
              else jdel ''service_tier'' options)
      | Some _ \<Rightarrow> jdel ''service_tier'' options)"

definition float_integral :: "int \<Rightarrow> int \<Rightarrow> int option" where
  "float_integral m e =
     (if 0 \<le> e then Some (m * 2 ^ nat e)
      else if 2 ^ nat (- e) dvd m then Some (m div 2 ^ nat (- e)) else None)"

definition IntegerOption :: "goobj \<Rightarrow> string \<Rightarrow> int option" where
  "IntegerOption options key =
     (case jget options key of
        Some (JInt i) \<Rightarrow> Some i
      | Some (JFloat m e) \<Rightarrow>
          (case float_integral m e of None \<Rightarrow> None
           | Some i \<Rightarrow> if i < - (2 ^ 63) \<or> 2 ^ 63 \<le> i then None else Some i)
      | _ \<Rightarrow> None)"

definition stringOption :: "goobj \<Rightarrow> string \<Rightarrow> string" where
  "stringOption options key = trim_space (stringValue (jget options key))"

definition isXAIVideoAspectRatio :: "string \<Rightarrow> bool" where
  "isXAIVideoAspectRatio value \<longleftrightarrow> value \<in> {''1:1'', ''16:9'', ''9:16'', ''4:3'', ''3:4'', ''3:2'', ''2:3''}"

definition isXAIVideoResolution :: "string \<Rightarrow> bool" where
  "isXAIVideoResolution value \<longleftrightarrow> value \<in> {''480p'', ''720p'', ''1080p''}"

definition SanitizeXAIVideoExtensionOptions :: "goobj \<Rightarrow> goobj" where
  "SanitizeXAIVideoExtensionOptions options0 =
     (if options0 = [] then options0
      else let options = filter (\<lambda>(k, _). k = ''duration'') options0 in
        case IntegerOption options ''duration'' of None \<Rightarrow> jdel ''duration'' options
        | Some d \<Rightarrow> if d < 2 \<or> 10 < d then jdel ''duration'' options else jset ''duration'' (JInt d) options)"

definition SanitizeXAIVideoOptions :: "goobj \<Rightarrow> goobj" where
  "SanitizeXAIVideoOptions options0 =
     (if options0 = [] then options0
      else let aspectRatio = to_lower (stringOption options0 ''aspect_ratio'');
               options1 = (if isXAIVideoAspectRatio aspectRatio then jset ''aspect_ratio'' (JStr aspectRatio) options0
                           else jdel ''aspect_ratio'' options0);
               options2 = (case IntegerOption options1 ''duration'' of
                   Some d \<Rightarrow> if 1 \<le> d \<and> d \<le> 15 then jset ''duration'' (JInt d) options1 else jdel ''duration'' options1
                 | None \<Rightarrow> jdel ''duration'' options1);
               resolution = to_lower (stringOption options2 ''resolution'')
           in if isXAIVideoResolution resolution then jset ''resolution'' (JStr resolution) options2
              else jdel ''resolution'' options2)"

text \<open>
  \<open>int(typed)\<close> of a float truncates; what it gives outside the range of an \<open>int\<close> depends on the processor and
  is never between 0 and 3, which is all its caller looks at.
\<close>

definition modelParamIntFromOption :: "gojson option \<Rightarrow> int option" where
  "modelParamIntFromOption v =
     (case v of
        Some (JInt i) \<Rightarrow> Some i
      | Some (JFloat m e) \<Rightarrow>
          (let i = (if 0 \<le> e then m * 2 ^ nat e else go_div m (2 ^ nat (- e)))
           in Some (if in_int64 i then i else min_int64))
      | _ \<Rightarrow> None)"

definition sanitizeModelOptionValues :: "goobj \<Rightarrow> string \<Rightarrow> goobj" where
  "sanitizeModelOptionValues options protocolKey =
     (if options = [] then options
      else if protocolKey \<in> {''openai_chat_completions'', ''openai_responses'', ''openrouter_responses''} then
        sanitizeOpenAIServiceTier options
      else if protocolKey = ''xai_video'' then SanitizeXAIVideoOptions options
      else if protocolKey = ''xai_video_extensions'' then SanitizeXAIVideoExtensionOptions options
      else if protocolKey \<in> {''openai_image_generations'', ''openai_image_edits''} then
        (case modelParamIntFromOption (jget options ''partial_images'') of
           None \<Rightarrow> jdel ''partial_images'' options
         | Some n \<Rightarrow> if n < 0 \<or> 3 < n then jdel ''partial_images'' options else options)
      else options)"

section \<open>The policy\<close>

definition modelOptionPolicyProtocolKey :: "string \<Rightarrow> string" where
  "modelOptionPolicyProtocolKey protocol =
     (case map_of [(''openai'', ''openai_responses''), (''openrouter'', ''openrouter_responses''),
         (''anthropic'', ''anthropic_messages''), (''claude'', ''anthropic_messages''), (''xai'', ''xai_responses''),
         (''grok'', ''xai_responses''), (''google'', ''gemini_generate_content''), (''gemini'', ''gemini_generate_content''),
         (AdapterGoogleGenerateContent, ''gemini_generate_content''), (AdapterGoogleImageGeneration, ''google_image_generation''),
         (AdapterGeminiInteractions, ''gemini_interactions''), (AdapterOpenAIChatCompletions, ''openai_chat_completions''),
         (AdapterOpenRouterChat, ''openrouter_chat_completions''), (AdapterOpenRouterImages, ''openrouter_images''),
         (AdapterOpenRouterResponses, ''openrouter_responses''), (AdapterOpenAIImageGenerations, ''openai_image_generations''),
         (AdapterOpenAIImageEdits, ''openai_image_edits''), (AdapterAnthropicMessages, ''anthropic_messages''),
         (AdapterXAIImage, ''xai_image''), (AdapterXAIImageEdits, ''xai_image_edits''), (AdapterXAIVideo, ''xai_video''),
         (AdapterXAIVideoExtensions, ''xai_video_extensions''), (AdapterXAIResponses, ''xai_responses'')]
         (NormalizeAdapter protocol) of
        Some key \<Rightarrow> key | None \<Rightarrow> ''openai_responses'')"

definition modelOptionPathsForProtocol :: "option_decoders \<Rightarrow> string \<Rightarrow> string \<Rightarrow> string list list" where
  "modelOptionPathsForProtocol dec raw protocol =
     (case od_paths dec (trim_space raw) of None \<Rightarrow> []
      | Some cfg \<Rightarrow> filter (\<lambda>p. p \<noteq> []) (map splitModelOptionPath (cfg ''default'' @ cfg protocol)))"

text \<open>\<open>filterModelOptions\<close>; \<open>None\<close> is the panic of a declared tool without payload, the empty map is nil.\<close>

definition policy_options :: "option_decoders \<Rightarrow> goobj \<Rightarrow> modelOptionPolicyConfig \<Rightarrow> goobj" where
  "policy_options dec options cfg =
     mergeModelOptionDefaults (modelCapabilityDefaultOptions dec (oc_ModelCapabilitiesJSON cfg)) options
       (modelCapabilityLockedOptionPaths dec (oc_ModelCapabilitiesJSON cfg))"

definition allowed_options :: "goobj \<Rightarrow> string list list \<Rightarrow> goobj" where
  "allowed_options src paths = fold (\<lambda>path dst. copyModelOptionPath dst src path) paths []"

definition policy_filtered :: "option_decoders \<Rightarrow> goobj \<Rightarrow> string \<Rightarrow> modelOptionPolicyConfig \<Rightarrow> goobj" where
  "policy_filtered dec policyOptions protocolKey cfg =
     (let mode = or_text (trim_space (oc_Mode cfg)) ''allowlist'';
          denied = hardDeniedModelOptionPaths @
            (if mode = ''denylist'' then modelOptionPathsForProtocol dec (oc_DeniedPathsJSON cfg) protocolKey else []);
          filtered = (if mode = ''denylist'' then policyOptions
                      else allowed_options policyOptions (modelOptionPathsForProtocol dec (oc_AllowedPathsJSON cfg) protocolKey))
      in sanitizeModelOptionValues (fold (\<lambda>path m. deleteModelOptionPath m path) denied filtered) protocolKey)"

definition filterModelOptions :: "option_decoders \<Rightarrow> goobj \<Rightarrow> string \<Rightarrow> modelOptionPolicyConfig \<Rightarrow> goobj option" where
  "filterModelOptions dec options protocol cfg =
     (if or_text (trim_space (oc_Mode cfg)) ''allowlist'' = ''disabled'' then Some []
      else let protocolKey = modelOptionPolicyProtocolKey protocol; policyOptions = policy_options dec options cfg in
        if policyOptions = [] then Some []
        else map_option (\<lambda>nativeTools.
            let filtered = policy_filtered dec (jdel ''tools'' policyOptions) protocolKey cfg
            in if nativeTools \<noteq> [] then jset ''tools'' (JArr (map JObj nativeTools)) filtered else filtered)
          (nativeProviderToolsFromOption dec protocolKey (jget policyOptions ''tools'') (oc_ModelCapabilitiesJSON cfg)))"

section \<open>Parameters that reasoning needs\<close>

definition promptCarriesAssistantReasoning :: "(string \<times> string) list \<Rightarrow> bool" where
  "promptCarriesAssistantReasoning messages \<longleftrightarrow>
     list_ex (\<lambda>(role, reasoning). role = ''assistant'' \<and> trim_space reasoning \<noteq> []) messages"

definition shouldApplyReasoningPassbackRequestOptions :: "bool \<Rightarrow> goobj \<Rightarrow> (string \<times> string) list \<Rightarrow> bool" where
  "shouldApplyReasoningPassbackRequestOptions passbackEnabled required messages \<longleftrightarrow>
     \<not> (\<not> passbackEnabled \<or> required = []) \<and> promptCarriesAssistantReasoning messages"

definition withReasoningPassbackRequestOptions :: "option_decoders \<Rightarrow> goobj \<Rightarrow> goobj \<Rightarrow> goobj \<Rightarrow> string \<Rightarrow> goobj" where
  "withReasoningPassbackRequestOptions dec options required rawOptions capabilitiesJSON =
     fold (\<lambda>(key, v) m. if jget m key \<noteq> None \<or> jget rawOptions key \<noteq> None \<or>
           jget (modelCapabilityDefaultOptions dec capabilitiesJSON) key \<noteq> None then m else jset key v m)
       required options"

section \<open>Denied options are never sent\<close>

lemma delete_none: "jget m k = None \<Longrightarrow> jget (deleteModelOptionPath m p) k = None"
  by (cases p) (auto simp: jget_del jget_set split: option.splits gojson.splits)

lemma delete_fold_none: "jget m k = None \<Longrightarrow> jget (fold (\<lambda>p m. deleteModelOptionPath m p) ps m) k = None"
  by (induction ps arbitrary: m) (simp_all add: delete_none)

lemma delete_fold_denied: "[k] \<in> set ps \<Longrightarrow> jget (fold (\<lambda>p m. deleteModelOptionPath m p) ps m) k = None"
proof (induction ps arbitrary: m)
  case (Cons p ps)
  then show ?case by (cases "p = [k]") (auto simp: jget_del intro: delete_fold_none)
qed simp

lemma get_filter_key: "jget (filter (\<lambda>(k, _). k = c) m) k = (if k = c then jget m k else None)"
  by (induction m) (auto simp: jget_def)

lemma no_text: "stringOption m k = [] \<Longrightarrow> \<not> isXAIVideoAspectRatio (to_lower (stringOption m k)) \<and> \<not> isXAIVideoResolution (to_lower (stringOption m k))"
  by (simp add: isXAIVideoAspectRatio_def isXAIVideoResolution_def)

lemma sanitize_none: "jget m k = None \<Longrightarrow> jget (sanitizeModelOptionValues m pk) k = None"
proof -
  assume n: "jget m k = None"
  have st: "stringOption m' k = []" if "jget m' k = None" for m' using that by (simp add: stringOption_def stringValue_def)
  have io: "IntegerOption m' k = None" if "jget m' k = None" for m' using that by (simp add: IntegerOption_def)
  have "jget (SanitizeXAIVideoOptions m) k = None"
  proof -
    define a where "a = to_lower (stringOption m ''aspect_ratio'')"
    define m1 where "m1 = (if isXAIVideoAspectRatio a then jset ''aspect_ratio'' (JStr a) m else jdel ''aspect_ratio'' m)"
    define m2 where "m2 = (case IntegerOption m1 ''duration'' of
        Some d \<Rightarrow> if 1 \<le> d \<and> d \<le> 15 then jset ''duration'' (JInt d) m1 else jdel ''duration'' m1 | None \<Rightarrow> jdel ''duration'' m1)"
    have m1: "jget m1 k = None" using n st [OF n] no_text [of m k] by (auto simp: m1_def a_def jget_set jget_del)
    have m2: "jget m2 k = None" using m1 io [OF m1] by (auto simp: m2_def jget_set jget_del split: option.splits)
    have eq: "SanitizeXAIVideoOptions m = (if m = [] then m else if isXAIVideoResolution (to_lower (stringOption m2 ''resolution''))
        then jset ''resolution'' (JStr (to_lower (stringOption m2 ''resolution''))) m2 else jdel ''resolution'' m2)"
      by (simp only: SanitizeXAIVideoOptions_def Let_def a_def m1_def m2_def)
    show ?thesis using m2 st [OF m2] no_text [of m2 k] n unfolding eq by (auto simp: jget_set jget_del)
  qed
  moreover have "jget (SanitizeXAIVideoExtensionOptions m) k = None"
    using n by (auto simp: SanitizeXAIVideoExtensionOptions_def Let_def jget_set jget_del get_filter_key IntegerOption_def split: option.splits)
  moreover have "jget (sanitizeOpenAIServiceTier m) k = None"
    using n by (auto simp: sanitizeOpenAIServiceTier_def Let_def jget_set jget_del split: option.splits gojson.splits)
  ultimately show ?thesis using n by (auto simp: sanitizeModelOptionValues_def jget_del split: option.splits)
qed

lemma path_merge_none: "jget dst k = None \<Longrightarrow> k \<notin> fst ` set src \<Longrightarrow> jget (mergeModelOptionPathMap dst src) k = None"
proof (induction src arbitrary: dst)
  case (Cons e src)
  then show ?case by (cases e) (simp add: jget_set)
qed simp

lemma copy_none: "jget dst k = None \<Longrightarrow> jget src k = None \<Longrightarrow> jget (copyModelOptionPath dst src path) k = None"
proof (cases path)
  case Nil
  assume "jget dst k = None" "jget src k = None"
  then show ?thesis using Nil path_merge_none [of dst k src]
    by (simp add: copyModelOptionPath_def mergeModelOptionPathValue_def jget_def map_of_eq_None_iff)
next
  case (Cons i rest)
  assume "jget dst k = None" "jget src k = None"
  then show ?thesis using Cons path_merge_none [of dst k]
    by (auto simp: copyModelOptionPath_def mergeModelOptionPathValue_def jget_set split: option.splits)
qed

lemma allowed_none: "jget src k = None \<Longrightarrow> jget (allowed_options src paths) k = None"
proof -
  assume s: "jget src k = None"
  have "jget dst k = None \<Longrightarrow> jget (fold (\<lambda>path dst. copyModelOptionPath dst src path) paths dst) k = None" for dst
    using s by (induction paths arbitrary: dst) (simp_all add: copy_none)
  then show ?thesis by (simp add: allowed_options_def)
qed

lemma policy_filtered_none:
  "jget src k = None \<or> [k] \<in> set hardDeniedModelOptionPaths \<Longrightarrow> jget (policy_filtered dec src pk cfg) k = None"
  unfolding policy_filtered_def Let_def
  by (intro sanitize_none) (auto intro: delete_fold_denied delete_fold_none allowed_none)

text \<open>What a tool carries of the denied keys, the administrator wrote.\<close>

lemma merged_tool_denied:
  "[k] \<in> set hardDeniedModelOptionPaths \<Longrightarrow> k \<notin> fst ` set base \<Longrightarrow> jget (mergeNativeToolPayload raw base) k = None"
  by (simp add: mergeNativeToolPayload_def mergeModelOptionMap_def merge_other delete_fold_denied)

lemma catalogue_denied: "d \<in> set definitions \<Longrightarrow> [k] \<in> set hardDeniedModelOptionPaths \<Longrightarrow> nd_Payload d = Some p \<Longrightarrow> k \<notin> fst ` set p"
proof -
  have "list_all (\<lambda>d. list_all (\<lambda>h. case nd_Payload d of None \<Rightarrow> True | Some p \<Rightarrow> hd h \<notin> set (map fst p)) hardDeniedModelOptionPaths) definitions"
    by code_simp
  then have c: "\<forall>d \<in> set definitions. \<forall>h \<in> set hardDeniedModelOptionPaths.
      case nd_Payload d of None \<Rightarrow> True | Some p \<Rightarrow> hd h \<notin> set (map fst p)" by (simp only: list_all_iff)
  assume d: "d \<in> set definitions" and k: "[k] \<in> set hardDeniedModelOptionPaths" and p: "nd_Payload d = Some p"
  from c [rule_format, OF d k] show ?thesis unfolding p by simp
qed

lemma built_denied:
  assumes "buildPayload d (Some m) = Some q" and "jget m k = None" and "\<forall>p. nd_Payload d = Some p \<longrightarrow> k \<notin> fst ` set p"
  shows "jget q k = None"
  using assms by (auto simp: buildPayload_def Let_def merge_other get_fold_del get_fold_del_if jget_del split: option.splits)

lemma those_SomeD: "those xs = Some ys \<Longrightarrow> length ys = length xs \<and> (\<forall>i<length xs. xs ! i = Some (ys ! i))"
proof (induction xs arbitrary: ys)
  case (Cons x xs)
  then obtain y zs where "x = Some y" "those xs = Some zs" "ys = y # zs" by (auto split: option.splits)
  then show ?case using Cons.IH [of zs] by (auto simp: nth_Cons split: nat.splits)
qed simp

definition sent_for :: "string \<Rightarrow> nativeToolCapability list \<Rightarrow> goobj list \<Rightarrow> goobj option \<times> string \<Rightarrow> bool" where
  "sent_for protocolKey allowed raws x \<longleftrightarrow> (\<exists>raw \<in> set raws. nativeProviderToolPayload protocolKey raw allowed = Some x)"

lemma tools_fold:
  "distinct (map snd r0) \<and> (\<forall>x \<in> set r0. P x) \<Longrightarrow> (\<forall>raw \<in> set raws. \<forall>x. f raw = Some x \<longrightarrow> P x) \<Longrightarrow>
   distinct (map snd (fold (\<lambda>raw r. case f raw of None \<Rightarrow> r | Some (tool, i) \<Rightarrow> if i \<in> snd ` set r then r else r @ [(tool, i)]) raws r0)) \<and>
   (\<forall>x \<in> set (fold (\<lambda>raw r. case f raw of None \<Rightarrow> r | Some (tool, i) \<Rightarrow> if i \<in> snd ` set r then r else r @ [(tool, i)]) raws r0). P x)"
proof (induction raws arbitrary: r0)
  case (Cons raw raws)
  show ?case
  proof (cases "f raw")
    case None
    then show ?thesis using Cons by simp
  next
    case (Some x)
    obtain t i where x: "x = (t, i)" by fastforce
    have "P (t, i)" using Cons.prems(2) Some x by auto
    then have r: "distinct (map snd (if i \<in> snd ` set r0 then r0 else r0 @ [(t, i)])) \<and> (\<forall>x \<in> set (if i \<in> snd ` set r0 then r0 else r0 @ [(t, i)]). P x)"
      using Cons.prems(1) by (simp add: image_set del: set_map)
    have rest: "\<forall>raw \<in> set raws. \<forall>x. f raw = Some x \<longrightarrow> P x" using Cons.prems(2) by simp
    show ?thesis using Cons.IH [OF r rest] by (simp add: Some x)
  qed
qed simp

text \<open>A tool that is sent answers one of the user's tools, and is the merge of it with an allowed capability.\<close>

definition tool_of :: "nativeToolCapability list \<Rightarrow> goobj \<Rightarrow> nativeToolCapability \<Rightarrow> bool" where
  "tool_of allowed tool c \<longleftrightarrow> c \<in> set allowed \<and>
     (\<forall>k. [k] \<in> set hardDeniedModelOptionPaths \<longrightarrow> jget tool k \<noteq> None \<longrightarrow> k \<in> fst ` set (cp_Payload c))"

lemma payload_of_catalogue:
  "PayloadFromOption pk raw = Some (d, tool) \<Longrightarrow> d \<in> set definitions \<and> (\<exists>t. tool = Some t)"
  by (auto simp: PayloadFromOption_def Let_def Find_def find_Some_iff buildPayload_def split: if_splits)

lemma payload_tool_of:
  assumes "nativeProviderToolPayload pk raw allowed = Some (x, i)"
  shows "\<exists>t c. x = Some t \<and> i = Identity c \<and> tool_of allowed t c"
proof (cases "Option.bind (PayloadFromOption pk raw) (\<lambda>(d, tool). map_option (\<lambda>c. (d, tool, c)) (nativeToolCapabilityByDefinition allowed d))")
  case None
  then obtain c where c: "List.find (\<lambda>c. nativeToolCapabilityMatchesRawTool c raw) allowed = Some c"
    "x = Some (mergeNativeToolPayload raw (cp_Payload c))" "i = Identity c"
    using assms by (auto simp: nativeProviderToolPayload_def)
  have "c \<in> set allowed" using c(1) by (auto simp: find_Some_iff)
  then have "tool_of allowed (mergeNativeToolPayload raw (cp_Payload c)) c"
    using merged_tool_denied [of _ "cp_Payload c" raw] unfolding tool_of_def by (intro conjI allI impI) (assumption, metis)
  then show ?thesis using c(2,3) by blast
next
  case (Some y)
  obtain d tool c where y: "y = (d, tool, c)" by (cases y) auto
  have p: "PayloadFromOption pk raw = Some (d, tool)" and c: "nativeToolCapabilityByDefinition allowed d = Some c"
    using Some y by (auto simp: Option.bind_eq_Some_conv)
  have x: "x = Option.bind tool (\<lambda>t. CanonicalPayload d (Some (mergeNativeToolPayload t (cp_Payload c))))" "i = Identity c"
    using assms unfolding nativeProviderToolPayload_def Some y by auto
  obtain t where t: "tool = Some t" "d \<in> set definitions" using payload_of_catalogue [OF p] by auto
  define m where "m = mergeNativeToolPayload t (cp_Payload c)"
  obtain q where q: "buildPayload d (Some m) = Some q" by (auto simp: buildPayload_def Let_def)
  have "c \<in> set allowed" using c by (auto simp: nativeToolCapabilityByDefinition_def find_Some_iff)
  moreover have "k \<in> fst ` set (cp_Payload c)" if "[k] \<in> set hardDeniedModelOptionPaths" "jget q k \<noteq> None" for k
  proof (rule ccontr)
    assume "k \<notin> fst ` set (cp_Payload c)"
    then have "jget m k = None" unfolding m_def by (rule merged_tool_denied [OF that(1)])
    moreover have "\<forall>p. nd_Payload d = Some p \<longrightarrow> k \<notin> fst ` set p" using catalogue_denied [OF t(2) that(1)] by simp
    ultimately have "jget q k = None" by (rule built_denied [OF q])
    then show False using that(2) by simp
  qed
  ultimately show ?thesis using x t(1) q by (auto simp: CanonicalPayload_def m_def [symmetric] tool_of_def)
qed

lemma sent_tools:
  assumes "nativeProviderToolsFromOption dec pk raw caps = Some tools"
  shows "\<exists>allowed cs. nativeToolCapabilitiesFromConfig dec caps pk = Some allowed \<and> list_all2 (tool_of allowed) tools cs \<and>
    distinct (map Identity cs) \<or> tools = []"
proof (cases "providerToolOptionPayloads raw = []")
  case True
  then show ?thesis using assms by (simp add: nativeProviderToolsFromOption_def)
next
  case False
  then obtain allowed where a: "nativeToolCapabilitiesFromConfig dec caps pk = Some allowed"
    using assms by (auto simp: nativeProviderToolsFromOption_def Option.bind_eq_Some_conv)
  define rs where "rs = fold (\<lambda>rawTool r. case nativeProviderToolPayload pk rawTool allowed of None \<Rightarrow> r
      | Some (tool, i) \<Rightarrow> if i \<in> snd ` set r then r else r @ [(tool, i)]) (providerToolOptionPayloads raw) []"
  have t: "those (map fst rs) = Some tools" using assms False a by (simp add: nativeProviderToolsFromOption_def rs_def)
  have P: "\<forall>raw' \<in> set (providerToolOptionPayloads raw). \<forall>x. nativeProviderToolPayload pk raw' allowed = Some x \<longrightarrow>
      (\<exists>t c. fst x = Some t \<and> snd x = Identity c \<and> tool_of allowed t c)"
    using payload_tool_of by fastforce
  have rs: "distinct (map snd rs)" "\<forall>x \<in> set rs. \<exists>t c. fst x = Some t \<and> snd x = Identity c \<and> tool_of allowed t c"
    using tools_fold [OF _ P, of "[]"] by (simp_all add: rs_def)
  have ln: "length tools = length rs" "\<And>j. j < length rs \<Longrightarrow> fst (rs ! j) = Some (tools ! j)"
    using those_SomeD [OF t] by auto
  obtain f where f: "\<And>x. x \<in> set rs \<Longrightarrow> \<exists>t. fst x = Some t \<and> snd x = Identity (f x) \<and> tool_of allowed t (f x)"
    using bchoice [of "set rs" "\<lambda>x c. \<exists>t. fst x = Some t \<and> snd x = Identity c \<and> tool_of allowed t c"] rs(2) by blast
  have "Identity (f x) = snd x" if "x \<in> set rs" for x using f [OF that] by metis
  then have "map (\<lambda>x. Identity (f x)) rs = map snd rs" by simp
  then have "distinct (map (\<lambda>x. Identity (f x)) rs)" using rs(1) by metis
  then have "distinct (map Identity (map f rs))" by (simp add: comp_def)
  moreover have "list_all2 (tool_of allowed) tools (map f rs)"
  proof (rule list_all2_all_nthI)
    fix j assume "j < length tools"
    then have j: "j < length rs" by (simp add: ln(1))
    from f [OF nth_mem [OF j]] ln(2) [OF j] show "tool_of allowed (tools ! j) (map f rs ! j)" using j by auto
  qed (simp add: ln(1))
  ultimately show ?thesis using a by (intro exI [of _ allowed] exI [of _ "map f rs"]) simp
qed


section \<open>Locked defaults\<close>

lemma read_write_same: "path \<noteq> [] \<Longrightarrow> readModelOptionPath (writeModelOptionPath m path v) path = Some v"
  by (induction m path v rule: writeModelOptionPath.induct) (auto simp: jget_set)

text \<open>Writing the default of another locked path does not disturb a path that has its default already.\<close>

lemma read_Cons_Some: "readModelOptionPath m (k # ks) = Some v \<longleftrightarrow>
    (\<exists>x. jget m k = Some x \<and> (if ks = [] then v = x else \<exists>n. x = JObj n \<and> readModelOptionPath n ks = Some v))"
  by (auto split: option.splits gojson.splits)

declare readModelOptionPath.simps(2) [simp del]

lemma write_read_id: "readModelOptionPath m p = Some w \<Longrightarrow> writeModelOptionPath m p w = m"
proof (induction m p arbitrary: w rule: readModelOptionPath.induct)
  case (2 m k ks)
  then show ?case by (auto simp: read_Cons_Some jset_same)
qed simp

lemma write_keeps:
  assumes "readModelOptionPath defaults q = Some w" and "readModelOptionPath defaults path = Some v"
    and "readModelOptionPath m path = Some v"
  shows "readModelOptionPath (writeModelOptionPath m q w) path = Some v"
  using assms
proof (induction path arbitrary: defaults m q)
  case (Cons k ks)
  then obtain j js where q: "q = j # js" by (cases q) auto
  show ?case
  proof (cases "j = k")
    case False
    then show ?thesis using Cons.prems by (simp add: q read_Cons_Some jget_set)
  next
    case True
    obtain x where x: "jget defaults k = Some x" "if ks = [] then v = x else \<exists>n. x = JObj n \<and> readModelOptionPath n ks = Some v"
      using Cons.prems(2) by (auto simp: read_Cons_Some)
    obtain y where y: "jget m k = Some y" "if ks = [] then v = y else \<exists>n. y = JObj n \<and> readModelOptionPath n ks = Some v"
      using Cons.prems(3) by (auto simp: read_Cons_Some)
    show ?thesis
    proof (cases "js = []")
      case js: True
      then have "w = x" using Cons.prems(1) x by (simp add: q True read_Cons_Some)
      then show ?thesis using x js True by (auto simp: q read_Cons_Some jget_set)
    next
      case js: False
      then obtain n where n: "x = JObj n" "readModelOptionPath n js = Some w"
        using Cons.prems(1) x(1) by (auto simp: q True read_Cons_Some)
      show ?thesis
      proof (cases "ks = []")
        case ks: True
        then have "y = JObj n" using x(2) y(2) n(1) by simp
        moreover have "writeModelOptionPath n js w = n" using n(2) by (rule write_read_id)
        ultimately show ?thesis using js True ks y(1) x(2) n(1) by (simp add: q read_Cons_Some jget_set)
      next
        case ks: False
        then obtain l where l: "y = JObj l" "readModelOptionPath l ks = Some v" using y(2) by auto
        have "readModelOptionPath n ks = Some v" using x(2) ks n(1) by auto
        from Cons.IH [OF n(2) this l(2)] show ?thesis using js True ks y(1) l(1) by (simp add: q read_Cons_Some jget_set)
      qed
    qed
  qed
qed simp

text \<open>@C:Option_Policy.locked_defaults_win@
  When the administrator locks a path for which the model has a default, what the user wrote there, above
  or below it has no effect: the options the policy works on have the default at that path, whatever other
  paths are locked.
\<close>

lemma locked_defaults_win:
  assumes "path \<in> set lockedPaths" and "readModelOptionPath defaults path = Some v"
  shows "readModelOptionPath (mergeModelOptionDefaults defaults options lockedPaths) path = Some v"
proof -
  let ?step = "\<lambda>p m. case readModelOptionPath defaults p of None \<Rightarrow> m | Some v \<Rightarrow> writeModelOptionPath m p v"
  have keep: "readModelOptionPath m path = Some v \<Longrightarrow> readModelOptionPath (fold ?step ps m) path = Some v" for ps m
    by (induction ps arbitrary: m) (auto split: option.splits intro: write_keeps [OF _ assms(2)])
  have ne: "path \<noteq> []" using assms(2) by auto
  have "path \<in> set ps \<Longrightarrow> readModelOptionPath (fold ?step ps m) path = Some v" for ps m
  proof (induction ps arbitrary: m)
    case (Cons p ps)
    show ?case
    proof (cases "p = path")
      case True
      then show ?thesis using assms(2) read_write_same [OF ne] by (simp add: keep)
    qed (use Cons in simp)
  qed simp
  then show ?thesis using assms(1) by (simp add: mergeModelOptionDefaults_def)
qed

theorem locked_defaults_win_witness:
  "readModelOptionPath (mergeModelOptionDefaults [(''reasoning'', JObj [(''effort'', JStr ''low'')])]
     [(''reasoning'', JStr ''high''), (''user'', JInt 1)] [[''reasoning'', ''effort''], [''reasoning'']]) [''reasoning'', ''effort''] = Some (JStr ''low'')"
  by (rule locked_defaults_win) (simp_all add: read_Cons_Some jget_def)

section \<open>The allowlist\<close>

text \<open>
  Where a value lies in a document: through the keys of objects and the positions of lists. A decoded
  object has each key once.
\<close>

fun at_path :: "gojson \<Rightarrow> (string + nat) list \<Rightarrow> gojson option" where
  "at_path v [] = Some v"
| "at_path (JObj m) (Inl k # p) = Option.bind (jget m k) (\<lambda>v. at_path v p)"
| "at_path (JArr xs) (Inr i # p) = (if i < length xs then at_path (xs ! i) p else None)"
| "at_path _ (_ # p) = None"

fun path_keys :: "(string + nat) list \<Rightarrow> string list" where
  "path_keys [] = []"
| "path_keys (Inl k # p) = k # path_keys p"
| "path_keys (Inr i # p) = path_keys p"

fun scalar :: "gojson \<Rightarrow> bool" where
  "scalar (JObj m) \<longleftrightarrow> False"
| "scalar (JArr xs) \<longleftrightarrow> False"
| "scalar _ \<longleftrightarrow> True"

fun keys_once :: "gojson \<Rightarrow> bool" where
  "keys_once (JObj m) \<longleftrightarrow> distinct (map fst m) \<and> list_all (\<lambda>e. keys_once (snd e)) m"
| "keys_once (JArr xs) \<longleftrightarrow> list_all keys_once xs"
| "keys_once _ \<longleftrightarrow> True"

lemma at_JObj: "at_path (JObj m) p = Some s \<longleftrightarrow> (p = [] \<and> s = JObj m) \<or> (\<exists>k p' v. p = Inl k # p' \<and> jget m k = Some v \<and> at_path v p' = Some s)"
  by (cases p rule: path_keys.cases) (auto simp: Option.bind_eq_Some_conv)

lemma at_JArr: "at_path (JArr xs) p = Some s \<longleftrightarrow> (p = [] \<and> s = JArr xs) \<or> (\<exists>i p'. p = Inr i # p' \<and> i < length xs \<and> at_path (xs ! i) p' = Some s)"
  by (cases p rule: path_keys.cases) auto

lemma at_scalar: "scalar v \<Longrightarrow> at_path v p = Some s \<Longrightarrow> p = [] \<and> s = v"
  by (cases v; cases p rule: path_keys.cases) auto

lemma keys_once_get: "keys_once (JObj m) \<Longrightarrow> jget m k = Some v \<Longrightarrow> keys_once v"
  by (auto simp: jget_def list_all_iff dest: map_of_SomeD)

text \<open>What is copied along a path.\<close>

lemma copy_at:
  "copyModelOptionValueAtPath v path = Some c \<Longrightarrow> at_path c p = Some s \<Longrightarrow> scalar s \<Longrightarrow>
    at_path v p = Some s \<and> prefix path (path_keys p)"
proof (induction v path arbitrary: c p rule: copyModelOptionValueAtPath.induct)
  case (2 m k ks)
  obtain child c' where c: "jget m k = Some child" "copyModelOptionValueAtPath child ks = Some c'" "c = JObj [(k, c')]"
    using 2(2) by (auto split: option.splits)
  obtain p' where p: "p = Inl k # p'" "at_path c' p' = Some s"
    using 2(3,4) c(3) by (auto simp: at_JObj jget_Cons split: if_splits)
  show ?case using 2(1) [OF c(1,2) p(2) 2(4)] c(1) by (simp add: p(1))
next
  case (3 items k ks)
  let ?get = "\<lambda>c. case c of Some x \<Rightarrow> x | None \<Rightarrow> JObj []"
  have c: "c = JArr (map ?get (map (\<lambda>item. copyModelOptionValueAtPath item (k # ks)) items))"
    using 3(2) by (auto simp: Let_def split: if_splits)
  obtain i p' where i: "p = Inr i # p'" "i < length items" "at_path (?get (copyModelOptionValueAtPath (items ! i) (k # ks))) p' = Some s"
    using 3(3,4) c by (auto simp: at_JArr)
  then obtain x where x: "copyModelOptionValueAtPath (items ! i) (k # ks) = Some x" "at_path x p' = Some s"
    using 3(4) by (auto simp: at_JObj split: option.splits)
  show ?case using 3(1) [OF nth_mem [OF i(2)] x 3(4)] i(1,2) by simp
qed auto

lemma copy_keys_once: "copyModelOptionValueAtPath v path = Some c \<Longrightarrow> keys_once v \<Longrightarrow> keys_once c"
proof (induction v path arbitrary: c rule: copyModelOptionValueAtPath.induct)
  case (2 m k ks)
  obtain child c' where c: "jget m k = Some child" "copyModelOptionValueAtPath child ks = Some c'" "c = JObj [(k, c')]"
    using 2(2) by (auto split: option.splits)
  show ?case using 2(1) [OF c(1,2) keys_once_get [OF 2(3) c(1)]] by (simp add: c(3))
next
  case (3 items k ks)
  then show ?case by (fastforce simp: Let_def list_all_iff split: if_splits option.splits)
qed auto

text \<open>Merging: each place of the result holds what one of the two documents has there.\<close>

definition path_joined :: "gojson option \<Rightarrow> gojson \<Rightarrow> gojson" where
  "path_joined x v = (case v of
       JObj i \<Rightarrow> (case x of Some (JObj e) \<Rightarrow> JObj (mergeModelOptionPathMap e i) | _ \<Rightarrow> v)
     | JArr i \<Rightarrow> (case x of Some (JArr e) \<Rightarrow> JArr (mergeModelOptionPathArray e i) | _ \<Rightarrow> v)
     | _ \<Rightarrow> v)"

lemma path_merge_Cons: "mergeModelOptionPathMap dst ((k, v) # src) = mergeModelOptionPathMap (jset k (path_joined (jget dst k) v) dst) src"
  by (simp add: path_joined_def)

lemma path_merge_other: "k \<notin> fst ` set src \<Longrightarrow> jget (mergeModelOptionPathMap dst src) k = jget dst k"
proof (induction src arbitrary: dst)
  case (Cons e src)
  then show ?case by (cases e) (simp add: path_merge_Cons jget_set del: mergeModelOptionPathMap.simps(2))
qed simp

lemma path_merge_get:
  "distinct (map fst src) \<Longrightarrow> jget (mergeModelOptionPathMap dst src) k =
     (case jget src k of None \<Rightarrow> jget dst k | Some v \<Rightarrow> Some (path_joined (jget dst k) v))"
proof (induction src arbitrary: dst)
  case (Cons e src)
  obtain i v where e: "e = (i, v)" by fastforce
  show ?case
  proof (cases "i = k")
    case True
    then have "k \<notin> fst ` set src" using Cons.prems e by auto
    then show ?thesis using True by (simp add: e path_merge_Cons path_merge_other jget_set jget_Cons del: mergeModelOptionPathMap.simps(2))
  next
    case False
    then show ?thesis using Cons.IH Cons.prems
      by (cases "jget src k") (simp_all add: e path_merge_Cons jget_set jget_Cons del: mergeModelOptionPathMap.simps(2))
  qed
qed simp

lemma array_merge_nth:
  "i < length (mergeModelOptionPathArray ex inc) \<Longrightarrow>
   mergeModelOptionPathArray ex inc ! i =
     (if i < length inc
      then (if i < length ex then (case inc ! i of JObj b \<Rightarrow> (case ex ! i of JObj a \<Rightarrow> JObj (mergeModelOptionPathMap a b) | _ \<Rightarrow> inc ! i) | _ \<Rightarrow> inc ! i) else inc ! i)
      else ex ! i)"
proof (induction ex arbitrary: inc i)
  case (Cons e ex)
  then show ?case by (cases inc; cases i) (auto split: gojson.splits)
qed simp

lemma array_merge_length [simp]: "length (mergeModelOptionPathArray ex inc) = max (length ex) (length inc)"
proof (induction ex arbitrary: inc)
  case (Cons e ex)
  then show ?case by (cases inc) auto
qed simp

lemma joined_at:
  "at_path (path_joined x v) p = Some s \<Longrightarrow> scalar s \<Longrightarrow> keys_once v \<Longrightarrow>
     at_path v p = Some s \<or> (\<exists>w. x = Some w \<and> at_path w p = Some s)"
proof (induction p arbitrary: x v)
  case Nil
  then show ?case by (auto simp: path_joined_def split: gojson.splits option.splits)
next
  case (Cons a p)
  consider e i where "x = Some (JObj e)" "v = JObj i" | e i where "x = Some (JArr e)" "v = JArr i" | "path_joined x v = v"
    by (cases v; cases x; cases "the x") (simp_all add: path_joined_def)
  then show ?case
  proof cases
    case 1
    have j: "path_joined x v = JObj (mergeModelOptionPathMap e i)" by (simp add: path_joined_def 1)
    obtain k y where k: "a = Inl k" "jget (mergeModelOptionPathMap e i) k = Some y" "at_path y p = Some s"
      using Cons.prems(1) unfolding j at_JObj by auto
    have d: "distinct (map fst i)" using Cons.prems(3) 1 by simp
    show ?thesis
    proof (cases "jget i k")
      case None
      then show ?thesis using k path_merge_get [OF d, of e k] by (auto simp: 1)
    next
      case (Some w)
      then have "y = path_joined (jget e k) w" using k(2) path_merge_get [OF d, of e k] by simp
      then show ?thesis using Cons.IH [of "jget e k" w] k Cons.prems(2) keys_once_get [of i k w] Cons.prems(3) Some by (auto simp: 1)
    qed
  next
    case 2
    have j: "path_joined x v = JArr (mergeModelOptionPathArray e i)" by (simp add: path_joined_def 2)
    obtain n where n: "a = Inr n" "n < max (length e) (length i)" "at_path (mergeModelOptionPathArray e i ! n) p = Some s"
      using Cons.prems(1) unfolding j at_JArr by auto
    have y: "mergeModelOptionPathArray e i ! n = (if n < length i then (if n < length e then
        (case i ! n of JObj b \<Rightarrow> (case e ! n of JObj a \<Rightarrow> JObj (mergeModelOptionPathMap a b) | _ \<Rightarrow> i ! n) | _ \<Rightarrow> i ! n) else i ! n) else e ! n)"
      using array_merge_nth n(2) by simp
    show ?thesis
    proof (cases "n < length i \<and> n < length e \<and> (\<exists>a b. i ! n = JObj b \<and> e ! n = JObj a)")
      case True
      then obtain a b where ab: "i ! n = JObj b" "e ! n = JObj a" by blast
      have "mergeModelOptionPathArray e i ! n = path_joined (Some (e ! n)) (i ! n)" using y True ab by (simp add: path_joined_def)
      moreover have "keys_once (i ! n)" using Cons.prems(3) True by (simp add: 2 list_all_iff)
      ultimately show ?thesis using Cons.IH [of "Some (e ! n)" "i ! n"] n Cons.prems(2) True by (auto simp: 2)
    next
      case False
      then have "(n < length i \<and> mergeModelOptionPathArray e i ! n = i ! n) \<or> (n < length e \<and> mergeModelOptionPathArray e i ! n = e ! n)"
        using y n(2) by (auto split: gojson.splits)
      then show ?thesis using n by (auto simp: 2)
    qed
  next
    case 3
    then show ?thesis using Cons.prems(1) by simp
  qed
qed

text \<open>Along keys alone, what is merged in wins, and a copy of the source leaves what agrees with it.\<close>

lemma joined_objects: "path_joined (Some (JObj e)) (JObj i) = JObj (mergeModelOptionPathMap e i)"
  by (simp add: path_joined_def)

lemma joined_wins:
  "at_path v (map Inl ks) = Some s \<Longrightarrow> scalar s \<Longrightarrow> keys_once v \<Longrightarrow> at_path (path_joined x v) (map Inl ks) = Some s"
proof (induction ks arbitrary: x v)
  case Nil
  then have "v = s" by simp
  then show ?case using Nil(2) by (cases s) (simp_all add: path_joined_def)
next
  case (Cons k ks)
  obtain m w where v: "v = JObj m" "jget m k = Some w" "at_path w (map Inl ks) = Some s"
    using Cons.prems(1) by (cases v) (auto simp: Option.bind_eq_Some_conv)
  have w: "keys_once w" using keys_once_get v(1,2) Cons.prems(3) by blast
  show ?case
  proof (cases "\<exists>e. x = Some (JObj e)")
    case True
    then obtain e where x: "x = Some (JObj e)" ..
    have "jget (mergeModelOptionPathMap e m) k = Some (path_joined (jget e k) w)"
      using path_merge_get [of m e k] Cons.prems(3) v by simp
    then show ?thesis using Cons.IH [OF v(3) Cons.prems(2) w] by (simp add: x v(1) path_joined_def)
  next
    case False
    then have "path_joined x v = v" by (cases x; cases "the x") (auto simp: path_joined_def v(1))
    then show ?thesis using Cons.prems(1) by simp
  qed
qed

lemma copy_reaches:
  "at_path v (map Inl ks) = Some s \<Longrightarrow> prefix path ks \<Longrightarrow>
    \<exists>c. copyModelOptionValueAtPath v path = Some c \<and> at_path c (map Inl ks) = Some s"
proof (induction path arbitrary: v ks)
  case (Cons k path)
  obtain ks' where ks: "ks = k # ks'" "prefix path ks'" using Cons.prems(2) by (cases ks) auto
  obtain m w where v: "v = JObj m" "jget m k = Some w" "at_path w (map Inl ks') = Some s"
    using Cons.prems(1) by (cases v) (auto simp: ks(1) Option.bind_eq_Some_conv)
  from Cons.IH [OF v(3) ks(2)] obtain c where "copyModelOptionValueAtPath w path = Some c" "at_path c (map Inl ks') = Some s" by blast
  then show ?case by (simp add: v(1,2) ks(1) jget_Cons)
qed simp

lemma joined_copy_keeps:
  "copyModelOptionValueAtPath v path = Some c \<Longrightarrow> keys_once v \<Longrightarrow> at_path v (map Inl ks) = Some s \<Longrightarrow> scalar s \<Longrightarrow>
    at_path d (map Inl ks) = Some s \<Longrightarrow> at_path (path_joined (Some d) c) (map Inl ks) = Some s"
proof (induction path arbitrary: v c d ks)
  case Nil
  then show ?case using joined_wins by simp
next
  case (Cons k path)
  obtain k1 ks' m where v: "v = JObj m" "ks = k1 # ks'"
  proof (cases ks)
    case Nil
    then have "scalar v" using Cons.prems(3,4) by simp
    then have False using Cons.prems(1) by (cases v) auto
    then show ?thesis ..
  next
    case (Cons k1 ks')
    then show ?thesis using Cons.prems(3) that by (cases v) auto
  qed
  obtain child c' where c: "jget m k = Some child" "copyModelOptionValueAtPath child path = Some c'" "c = JObj [(k, c')]"
    using Cons.prems(1) by (auto simp: v(1) split: option.splits)
  obtain e y where d: "d = JObj e" "jget e k1 = Some y" "at_path y (map Inl ks') = Some s"
    using Cons.prems(5) by (cases d) (auto simp: v(2) Option.bind_eq_Some_conv)
  have j: "jget (mergeModelOptionPathMap e [(k, c')]) k1 = Some (if k1 = k then path_joined (jget e k) c' else y)"
    using path_merge_get [of "[(k, c')]" e k1] d(2) by (simp add: jget_Cons)
  show ?case
  proof (cases "k1 = k")
    case True
    then have w: "at_path child (map Inl ks') = Some s" using Cons.prems(3) c(1) by (simp add: v)
    have o: "keys_once child" using keys_once_get Cons.prems(2) c(1) v(1) by blast
    from Cons.IH [OF c(2) o w Cons.prems(4) d(3)] show ?thesis
      using j True d(2) by (simp add: joined_objects c(3) d(1) v(2) del: mergeModelOptionPathMap.simps)
  next
    case False
    then show ?thesis using j d(3) by (simp add: joined_objects c(3) d(1) v(2) del: mergeModelOptionPathMap.simps)
  qed
qed

lemma copy_path_joined:
  assumes "copyModelOptionValueAtPath (JObj src) path = Some c"
  shows "JObj (copyModelOptionPath dst src path) = path_joined (Some (JObj dst)) c"
proof -
  obtain m where "c = JObj m"
    using assms by (cases path) (auto split: option.splits)
  then show ?thesis using assms by (simp add: copyModelOptionPath_def mergeModelOptionPathValue_def path_joined_def)
qed



text \<open>
  An element of a list that one allowed path copies is replaced by an empty object when a longer allowed
  path goes into the list: allowing \<open>a\<close> and \<open>a.b\<close> sends less than allowing \<open>a\<close>.
\<close>

lemma longer_path_erases:
  "jget (allowed_options [(''a'', JArr [JInt 1, JObj [(''b'', JInt 2)]])] [[''a''], [''a'', ''b'']]) ''a'' =
     Some (JArr [JObj [], JObj [(''b'', JInt 2)]])"
  "jget (allowed_options [(''a'', JArr [JInt 1, JObj [(''b'', JInt 2)]])] [[''a'']]) ''a'' =
     Some (JArr [JInt 1, JObj [(''b'', JInt 2)]])"
  by (simp_all add: allowed_options_def copyModelOptionPath_def mergeModelOptionPathValue_def jget_def jset_def)

section \<open>The panic of a capability without payload\<close>

lemma catalogue_payloads: "d \<in> set definitions \<Longrightarrow> \<exists>e p. nd_Payload d = Some (e # p)"
proof -
  have "list_all (\<lambda>d. case nd_Payload d of Some (e # p) \<Rightarrow> True | _ \<Rightarrow> False) definitions" by code_simp
  then have c: "\<forall>d \<in> set definitions. case nd_Payload d of Some (e # p) \<Rightarrow> True | _ \<Rightarrow> False" by (simp only: list_all_iff)
  assume "d \<in> set definitions"
  from c [rule_format, OF this] show ?thesis by (auto split: option.splits list.splits)
qed

definition bare_tool :: "string \<Rightarrow> native_tool_item \<Rightarrow> bool" where
  "bare_tool protocolKey i \<longleftrightarrow> nt_Enabled i \<noteq> Some False \<and> nt_Payload i = None \<and>
     (\<exists>p \<in> set (item_protocols protocolKey i).
        \<exists>d \<in> set definitions. nd_Key d = or_text (trim_space (nt_Key i)) (trim_space (nt_ToolKey i)) \<and> nd_Key d \<noteq> [] \<and> nd_Protocol d = trim_space p)"

lemma item_capability_None:
  "item_capability pk i p = None \<longleftrightarrow> nt_Payload i = None \<and>
     (\<exists>d \<in> set definitions. nd_Key d = or_text (trim_space (nt_Key i)) (trim_space (nt_ToolKey i)) \<and> nd_Key d \<noteq> [] \<and> nd_Protocol d = trim_space p)"
proof -
  define key where "key = or_text (trim_space (nt_Key i)) (trim_space (nt_ToolKey i))"
  have tk: "trim_space key = key" by (simp add: key_def or_text_def)
  define ds where "ds = nativeToolDefinitionsByKey key"
  have ds: "d \<in> set ds \<longleftrightarrow> d \<in> set definitions \<and> nd_Key d = key \<and> nd_Key d \<noteq> []" for d
    by (auto simp: ds_def nativeToolDefinitionsByKey_def tk)
  have "item_capability pk i p = None \<longleftrightarrow> (\<exists>d. nativeToolDefinitionForProtocol ds p = Some d \<and> CanonicalPayload d (nt_Payload i) = None)"
    unfolding item_capability_def Let_def key_def [symmetric] ds_def [symmetric]
    by (cases ds) (auto simp: nativeToolDefinitionForProtocol_def split: option.splits)
  also have "\<dots> \<longleftrightarrow> nt_Payload i = None \<and> (\<exists>d. nativeToolDefinitionForProtocol ds p = Some d)"
  proof -
    have "CanonicalPayload d (nt_Payload i) = None \<longleftrightarrow> nt_Payload i = None" if "nativeToolDefinitionForProtocol ds p = Some d" for d
    proof -
      have "d \<in> set ds" using that by (auto simp: nativeToolDefinitionForProtocol_def find_Some_iff)
      then have "d \<in> set definitions" by (simp add: ds)
      then show ?thesis using catalogue_payloads [of d]
        by (auto simp: CanonicalPayload_def buildPayload_def Let_def split: option.splits list.splits)
    qed
    then show ?thesis by blast
  qed
  also have "(\<exists>d. nativeToolDefinitionForProtocol ds p = Some d) \<longleftrightarrow> (\<exists>d \<in> set ds. nd_Protocol d = trim_space p)"
    using find_None_iff [of "\<lambda>d. nd_Protocol d = trim_space p" ds] by (auto simp: nativeToolDefinitionForProtocol_def)
  finally show ?thesis unfolding key_def [symmetric] using ds by auto
qed

lemma those_None: "those xs = None \<longleftrightarrow> None \<in> set xs"
  by (induction xs) (auto split: option.splits)

lemma capabilities_panic:
  "nativeToolCapabilitiesFromConfig dec raw pk = None \<longleftrightarrow>
     trim_space raw \<noteq> [] \<and> (\<exists>cfg. od_tools dec (trim_space raw) = Some cfg \<and> (\<exists>i \<in> set (cc_NativeTools cfg). bare_tool pk i))"
proof -
  have d: "None \<notin> set (List.map_filter (\<lambda>tool. map_option (\<lambda>(d, _). map_option (capability_of_definition d) (CanonicalPayload d (Some tool)))
      (PayloadFromOption pk tool)) tools)" for tools
    by (auto simp: List.map_filter_def CanonicalPayload_def buildPayload_def Let_def)
  have "None \<in> set (concat (map (\<lambda>i. map (item_capability pk i) (item_protocols pk i)) (filter (\<lambda>i. nt_Enabled i \<noteq> Some False) items))) \<longleftrightarrow>
      (\<exists>i \<in> set items. bare_tool pk i)" for items
    by (auto simp: bare_tool_def image_iff item_capability_None eq_commute [of None])
  then show ?thesis using d
    by (auto simp: nativeToolCapabilitiesFromConfig_def Let_def those_None image_iff split: option.splits)
qed

text \<open>@C:Option_Policy.filter_panics_iff@
  The policy fails in exactly one way: with the run-time panic of an assignment into a nil map, when the
  policy is not disabled, the user's options and the defaults have a tool among them, and the capabilities
  of the model enable a known provider tool for one of its protocols without a payload object.
\<close>

lemma filter_panics_iff:
  "filterModelOptions dec options protocol cfg = None \<longleftrightarrow>
     or_text (trim_space (oc_Mode cfg)) ''allowlist'' \<noteq> ''disabled'' \<and>
     providerToolOptionPayloads (jget (policy_options dec options cfg) ''tools'') \<noteq> [] \<and>
     trim_space (oc_ModelCapabilitiesJSON cfg) \<noteq> [] \<and>
     (\<exists>c. od_tools dec (trim_space (oc_ModelCapabilitiesJSON cfg)) = Some c \<and>
        (\<exists>i \<in> set (cc_NativeTools c). bare_tool (modelOptionPolicyProtocolKey protocol) i))"
proof -
  let ?pk = "modelOptionPolicyProtocolKey protocol" and ?caps = "oc_ModelCapabilitiesJSON cfg"
  have tools: "nativeProviderToolsFromOption dec ?pk raw ?caps = None \<longleftrightarrow>
      providerToolOptionPayloads raw \<noteq> [] \<and> nativeToolCapabilitiesFromConfig dec ?caps ?pk = None" for raw
  proof (cases "nativeToolCapabilitiesFromConfig dec ?caps ?pk")
    case (Some allowed)
    let ?rs = "fold (\<lambda>rawTool r. case nativeProviderToolPayload ?pk rawTool allowed of None \<Rightarrow> r
        | Some (tool, i) \<Rightarrow> if i \<in> snd ` set r then r else r @ [(tool, i)]) (providerToolOptionPayloads raw) []"
    have P: "\<forall>raw' \<in> set (providerToolOptionPayloads raw). \<forall>x. nativeProviderToolPayload ?pk raw' allowed = Some x \<longrightarrow> fst x \<noteq> None"
      using payload_tool_of by fastforce
    have "\<forall>x \<in> set ?rs. fst x \<noteq> None" using tools_fold [OF _ P, of "[]"] by simp
    then have n: "those (map fst ?rs) \<noteq> None" unfolding those_None by auto
    show ?thesis
    proof (cases "providerToolOptionPayloads raw = []")
      case False
      then have "nativeProviderToolsFromOption dec ?pk raw ?caps = those (map fst ?rs)"
        by (simp add: nativeProviderToolsFromOption_def Some)
      then show ?thesis using n Some by simp
    qed (simp add: nativeProviderToolsFromOption_def)
  qed (auto simp: nativeProviderToolsFromOption_def)
  have "policy_options dec options cfg = [] \<Longrightarrow> providerToolOptionPayloads (jget (policy_options dec options cfg) ''tools'') = []"
    by (simp add: providerToolOptionPayloads_def)
  then show ?thesis unfolding filterModelOptions_def Let_def
    by (auto simp: tools capabilities_panic)
qed

definition sample_decoders :: option_decoders where
  "sample_decoders = \<lparr>od_defaults = \<lambda>_. None, od_locked = \<lambda>_. None,
     od_tools = \<lambda>_. Some \<lparr>cc_NativeTools = [], cc_NativeToolKeys = [''openai.web_search''], cc_DefaultOptions = []\<rparr>,
     od_paths = \<lambda>_. Some (\<lambda>_. [''temperature''])\<rparr>"

definition sample_policy :: modelOptionPolicyConfig where
  "sample_policy = \<lparr>oc_Mode = '' allowlist'', oc_AllowedPathsJSON = ''a'', oc_DeniedPathsJSON = ''b'', oc_ModelCapabilitiesJSON = ''c''\<rparr>"

definition sample_options :: goobj where
  "sample_options = [(''model'', JStr ''x''), (''temperature'', JInt 1), (''tools'', JArr [JObj [(''type'', JStr ''web_search''), (''headers'', JNull)]])]"


end
