(* ===== verification/Usage_Session.thy ===== *)
theory Usage_Session
  imports Billing_Calls Option_Policy Channel_Routing
begin

text \<open>
  The billing of one model run (\<open>application/conversation/service_usage_session.go\<close>, \<open>service_billing.go\<close>): a session
  authorizes the call, renews the lease of its budget while the run lasts, and at its end records the use or
  releases the budget. Every write is tried up to three times, because an answer of the database can be lost.
\<close>

section \<open>Errors and retries\<close>

text \<open>
  A Go error as the list of the errors that \<open>errors.Is\<close> finds in it: \<open>[]\<close> is \<open>nil\<close>, \<open>errors.Join\<close> appends.
  \<open>ContextDone\<close> is \<open>context.Canceled\<close> or \<open>context.DeadlineExceeded\<close>.
\<close>

datatype usage_error = BillingError billing_error | ContextDone | OtherError string

type_synonym go_errors = "usage_error list"

definition nonRetryable :: "usage_error list" where
  "nonRetryable = [ContextDone, BillingError ErrUsageBalanceInsufficient, BillingError ErrUsageReservationConflict,
     BillingError ErrModelPricingRequired, BillingError (FromRepo ErrInvalidInput), BillingError (FromRepo ErrNotFound),
     BillingError (FromRepo ErrDuplicate), BillingError (FromRepo ErrConflict), BillingError (FromRepo ErrInsufficientBalance)]"

definition isRetryableUsageBillingError :: "go_errors \<Rightarrow> bool" where
  "isRetryableUsageBillingError err \<longleftrightarrow> err \<noteq> [] \<and> \<not> list_ex (\<lambda>target. target \<in> set err) nonRetryable"

text \<open>
  The operation gets the number of the attempt, from which the model takes what its environment does. \<open>canceled k\<close> says
  that the context ends while the \<open>k\<close>-th delay is waited for.
\<close>

definition usageBillingRetryAttempts :: nat where
  "usageBillingRetryAttempts = 3"

fun retry_loop :: "nat \<Rightarrow> (nat \<Rightarrow> 's \<Rightarrow> go_errors \<times> 's) \<Rightarrow> (nat \<Rightarrow> bool) \<Rightarrow> nat \<Rightarrow> 's \<Rightarrow> go_errors \<times> 's" where
  "retry_loop 0 operation canceled attempt s = ([], s)"
| "retry_loop (Suc left) operation canceled attempt s =
     (let (err, s') = operation attempt s in
      if err = [] \<or> \<not> isRetryableUsageBillingError err then (err, s')
      else if left = 0 then (err, s')
      else if canceled attempt then (err @ [ContextDone], s')
      else retry_loop left operation canceled (Suc attempt) s')"

definition retryUsageBillingOperation :: "(nat \<Rightarrow> 's \<Rightarrow> go_errors \<times> 's) \<Rightarrow> (nat \<Rightarrow> bool) \<Rightarrow> 's \<Rightarrow> go_errors \<times> 's" where
  "retryUsageBillingOperation operation canceled s = retry_loop usageBillingRetryAttempts operation canceled 0 s"

text \<open>
  What a run writes to: the tables of billing, the billing columns of the stored messages, and the tasks that it starts.
\<close>

datatype post_task = RunCompaction bool | DiscardCompaction | GenerateMetadata string

record call_world =
  cw_db :: billing_db
  cw_messages :: "nat \<rightharpoonup> string \<times> int \<times> string"  \<comment> \<open>currency, amount and price snapshot of every message\<close>
  cw_tasks :: "post_task list"

definition on_db :: "(billing_db \<Rightarrow> 'r \<times> billing_db) \<Rightarrow> call_world \<Rightarrow> 'r \<times> call_world" where
  "on_db f w = (case f (cw_db w) of (r, db) \<Rightarrow> (r, w\<lparr>cw_db := db\<rparr>))"

text \<open>
  One attempt: the service with its clock, settings and faults, what the rest of the system does to the tables before it,
  and the fate of its answer. A commit can fail and roll back, or succeed while its answer is lost.
\<close>

datatype fate = Answered | AnswerLost usage_error | CommitFailed usage_error

record ('f, 'j) attempt =
  at_service :: "('f, 'j) billing_service"
  at_others :: "billing_db \<Rightarrow> billing_db"
  at_fate :: fate
  at_canceled :: bool

text \<open>The error and what the operation had computed when it ended, also where the error hides it.\<close>

definition run_attempt ::
  "('f, 'j) attempt \<Rightarrow> (('f, 'j) billing_service \<Rightarrow> call_world \<Rightarrow> (billing_error + 'a) \<times> call_world) \<Rightarrow> call_world \<Rightarrow>
   go_errors \<times> 'a option \<times> call_world" where
  "run_attempt a operation w =
     (let w0 = w\<lparr>cw_db := at_others a (cw_db w)\<rparr> in
      case operation (at_service a) w0 of
        (Inl e, w1) \<Rightarrow> ([BillingError e], None, w1)
      | (Inr x, w1) \<Rightarrow>
        (case at_fate a of Answered \<Rightarrow> ([], Some x, w1)
         | AnswerLost e \<Rightarrow> ([e], Some x, w1)
         | CommitFailed e \<Rightarrow> ([e], Some x, w0)))"

section \<open>The run and its result\<close>

text \<open>The fields of a stored message that billing reads and writes.\<close>

record Message =
  ms_ID :: nat
  ms_RunID :: string
  ms_Status :: string
  ms_ContentType :: string
  ms_SourceMessageID :: "nat option"
  ms_Attachments :: string
  ms_InputTokens :: int
  ms_OutputTokens :: int
  ms_CacheReadTokens :: int
  ms_CacheWriteTokens :: int
  ms_ReasoningTokens :: int
  ms_LatencyMS :: int
  ms_BilledCurrency :: string
  ms_BilledNanousd :: int
  ms_PricingSnapshot :: string

record MCPToolUsageItem =
  tu_ServerID :: nat
  tu_ServerName :: string
  tu_ToolName :: string
  tu_CallCount :: int
  tu_PriceNanousd :: int

text \<open>\<open>sr_postBillingCompaction\<close> is the task that waits for the settlement, \<open>True\<close> if it is asynchronous.\<close>

record SendMessageResult =
  sr_UserMessage :: Message
  sr_AssistantMessage :: Message
  sr_MetadataRefreshHint :: string
  sr_Billable :: bool
  sr_UpstreamName :: string
  sr_PlatformModelName :: string
  sr_RoutedBindingCode :: string
  sr_UpstreamModelName :: string
  sr_UpstreamProtocol :: string
  sr_EffectiveOptions :: goobj
  sr_UsageSpeed :: string
  sr_UsageServiceTier :: string
  sr_UsageSource :: string
  sr_RawUsageJSON :: string
  sr_CacheWrite5mTokens :: int
  sr_CacheWrite1hTokens :: int
  sr_ServerSideToolUsage :: "(string \<times> int) list"
  sr_MCPToolUsage :: "MCPToolUsageItem list"
  sr_LLMCallCount :: int
  sr_LatencyMS :: int
  sr_DurationSeconds :: int
  sr_StartedAt :: gotime
  sr_ModerationBlocked :: bool
  sr_postBillingCompaction :: "bool option"

text \<open>\<open>bi_Conversation\<close> is the model of the conversation, if there is one.\<close>

record SendMessageBillingInput =
  bi_UserID :: nat
  bi_ConversationID :: nat
  bi_Conversation :: "string option"
  bi_PlatformModelName :: string
  bi_ConversationModel :: string
  bi_ClientRunID :: string
  bi_Result :: "SendMessageResult option"

text \<open>
  The libraries the code calls: the folding of \<open>strings.EqualFold\<close>, \<open>fmt.Sprint\<close>, the decoded list of attachments, and
  the conversion of a large float.
\<close>

record run_library =
  rl_fold :: "string \<Rightarrow> string"
  rl_sprint :: "gojson \<Rightarrow> string"
  rl_attachments :: "string \<Rightarrow> (string \<times> string) list option"
  rl_float_int :: "int \<Rightarrow> int \<Rightarrow> int"

definition equal_fold :: "run_library \<Rightarrow> string \<Rightarrow> string \<Rightarrow> bool" where
  "equal_fold lib s t \<longleftrightarrow> rl_fold lib s = rl_fold lib t"

section \<open>What the request says\<close>

text \<open>\<open>stringOption\<close> of this package: other values than strings are printed.\<close>

definition printed_option :: "run_library \<Rightarrow> goobj \<Rightarrow> string \<Rightarrow> string" where
  "printed_option lib options key =
     (case jget options key of None \<Rightarrow> [] | Some JNull \<Rightarrow> [] | Some (JStr s) \<Rightarrow> s | Some v \<Rightarrow> trim_space (rl_sprint lib v))"

definition messageCacheTimeout :: "run_library \<Rightarrow> goobj \<Rightarrow> string" where
  "messageCacheTimeout lib options =
     (let value = trim_space (printed_option lib options ''cache_timeout'') in
      if options = [] then ''5m''
      else if value \<noteq> [] then (if equal_fold lib value ''1h'' then ''1h'' else ''5m'')
      else case jget options ''cache_control'' of
          Some (JObj c) \<Rightarrow> if equal_fold lib (trim_space (printed_option lib c ''ttl'')) ''1h'' then ''1h'' else ''5m''
        | _ \<Rightarrow> ''5m'')"

definition messageRequestSpeed :: "run_library \<Rightarrow> goobj \<Rightarrow> string" where
  "messageRequestSpeed lib options =
     (let speed = trim_space (printed_option lib options ''speed'') in
      if options = [] then [] else if equal_fold lib speed ''fast'' then ''fast'' else speed)"

definition messageRequestServiceTier :: "run_library \<Rightarrow> goobj \<Rightarrow> string" where
  "messageRequestServiceTier lib options = (if options = [] then [] else trim_space (printed_option lib options ''service_tier''))"

text \<open>\<open>int64(v)\<close> of a float drops the fraction; out of range it is the machine's value.\<close>

definition float_int64 :: "run_library \<Rightarrow> int \<Rightarrow> int \<Rightarrow> int" where
  "float_int64 lib m e =
     (let n = (if 0 \<le> e then m * 2 ^ nat e else sgn m * (\<bar>m\<bar> div 2 ^ nat (- e)))
      in if in_int64 n then n else rl_float_int lib m e)"

definition int64FromOptionValue :: "run_library \<Rightarrow> gojson \<Rightarrow> int" where
  "int64FromOptionValue lib value =
     (case value of JInt n \<Rightarrow> if in_int64 n then n else 0
      | JFloat m e \<Rightarrow> float_int64 lib m e
      | JStr s \<Rightarrow> (case atoi (trim_space s) of None \<Rightarrow> 0 | Some n \<Rightarrow> n)
      | _ \<Rightarrow> 0)"

definition max_output_paths :: "string list list" where
  "max_output_paths = [[''max_output_tokens''], [''max_completion_tokens''], [''max_tokens''], [''maxOutputTokens''],
     [''generationConfig'', ''maxOutputTokens''], [''generation_config'', ''max_output_tokens'']]"

fun first_limit :: "run_library \<Rightarrow> goobj \<Rightarrow> string list list \<Rightarrow> int" where
  "first_limit lib options [] = 0"
| "first_limit lib options (path # paths) =
     (case readModelOptionPath options path of None \<Rightarrow> first_limit lib options paths
      | Some v \<Rightarrow> if 0 < int64FromOptionValue lib v then int64FromOptionValue lib v else first_limit lib options paths)"

definition messageRequestMaxOutputTokens :: "run_library \<Rightarrow> goobj \<Rightarrow> int" where
  "messageRequestMaxOutputTokens lib options = first_limit lib options max_output_paths"

section \<open>The ledger entry of a run\<close>

definition inferAttachmentKind :: "string \<Rightarrow> string" where
  "inferAttachmentKind mimeType = (if has_prefix (to_lower (trim_space mimeType)) ''image/'' then ''image'' else ''file'')"

definition normalizeAttachmentKind :: "string \<Rightarrow> string \<Rightarrow> string" where
  "normalizeAttachmentKind kind mimeType = (if trim_space kind \<noteq> [] then trim_space kind else inferAttachmentKind mimeType)"

definition countAttachmentKinds :: "run_library \<Rightarrow> string \<Rightarrow> int \<times> int" where
  "countAttachmentKinds lib attachmentsJSON =
     (case rl_attachments lib (trim_space attachmentsJSON) of None \<Rightarrow> (0, 0)
      | Some items \<Rightarrow>
        (let images = filter (\<lambda>(kind, mime). normalizeAttachmentKind kind mime = ''image'') items
         in (int (length images), int (length items) - int (length images))))"

definition sendMessageResultUsesAssistantSideInput :: "SendMessageResult \<Rightarrow> bool" where
  "sendMessageResultUsesAssistantSideInput r \<longleftrightarrow> ms_SourceMessageID (sr_AssistantMessage r) \<noteq> None"

text \<open>The message that carries the tokens of the prompt.\<close>

definition prompt_message :: "SendMessageResult \<Rightarrow> Message" where
  "prompt_message r = (if sendMessageResultUsesAssistantSideInput r then sr_AssistantMessage r else sr_UserMessage r)"

definition sendMessageBillingInputTokens :: "SendMessageResult \<Rightarrow> int" where
  "sendMessageBillingInputTokens r = ms_InputTokens (prompt_message r)"

definition sendMessageBillingCacheReadTokens :: "SendMessageResult \<Rightarrow> int" where
  "sendMessageBillingCacheReadTokens r = ms_CacheReadTokens (prompt_message r)"

definition sendMessageBillingCacheWriteTokens :: "SendMessageResult \<Rightarrow> int" where
  "sendMessageBillingCacheWriteTokens r = ms_CacheWriteTokens (prompt_message r)"

definition sendMessageResultIsVideoGeneration :: "run_library \<Rightarrow> SendMessageResult \<Rightarrow> bool" where
  "sendMessageResultIsVideoGeneration lib r \<longleftrightarrow> sr_Billable r \<and>
     equal_fold lib (trim_space (ms_Status (sr_AssistantMessage r))) ''success'' \<and>
     equal_fold lib (trim_space (ms_ContentType (sr_AssistantMessage r))) ''video'' \<and> IsVideoGenerationAdapter (sr_UpstreamProtocol r)"

definition sendMessageBillingDurationSeconds :: "run_library \<Rightarrow> SendMessageResult \<Rightarrow> int" where
  "sendMessageBillingDurationSeconds lib r =
     (if \<not> sendMessageResultIsVideoGeneration lib r \<or> sr_DurationSeconds r \<le> 0 then 0 else sr_DurationSeconds r)"

definition sendMessageBillingCallCount :: "SendMessageResult \<Rightarrow> int" where
  "sendMessageBillingCallCount r = (if sr_LLMCallCount r \<le> 0 then 1 else sr_LLMCallCount r)"

definition sendMessageMCPToolUsageInputs :: "SendMessageResult \<Rightarrow> MCPToolUsageInput list" where
  "sendMessageMCPToolUsageInputs r =
     map (\<lambda>u. \<lparr>mi_ServerID = tu_ServerID u, mi_ServerName = tu_ServerName u, mi_ToolName = tu_ToolName u,
       mi_CallCount = tu_CallCount u, mi_PriceNanousd = tu_PriceNanousd u\<rparr>) (sr_MCPToolUsage r)"

definition sendMessageBillingPlatformModelName :: "SendMessageBillingInput \<Rightarrow> string" where
  "sendMessageBillingPlatformModelName inp =
     (let fromResult = (case bi_Result inp of None \<Rightarrow> [] | Some r \<Rightarrow> trim_space (sr_PlatformModelName r)) in
      if fromResult \<noteq> [] then fromResult
      else if trim_space (bi_PlatformModelName inp) \<noteq> [] then trim_space (bi_PlatformModelName inp)
      else trim_space (bi_ConversationModel inp))"

definition paidUsageBilledReason :: "usage_authorization option \<Rightarrow> string" where
  "paidUsageBilledReason authorization =
     (case authorization of None \<Rightarrow> [] | Some a \<Rightarrow> if ua_Reservation a = None then [] else ''moderation_blocked_upstream_usage'')"

definition ModerationBlockedBilledReason :: "SendMessageResult \<Rightarrow> usage_authorization option \<Rightarrow> string" where
  "ModerationBlockedBilledReason r authorization =
     (if \<not> sr_ModerationBlocked r \<or> \<not> sr_Billable r then [] else paidUsageBilledReason authorization)"

definition usage_pricing_input ::
  "run_library \<Rightarrow> SendMessageBillingInput \<Rightarrow> SendMessageResult \<Rightarrow> usage_authorization option \<Rightarrow> UsagePricingInput" where
  "usage_pricing_input lib inp r authorization =
     (let video = sendMessageResultIsVideoGeneration lib r; options = sr_EffectiveOptions r in
      \<lparr>ui_Authorization = authorization, ui_UserID = bi_UserID inp, ui_ConversationID = bi_ConversationID inp,
       ui_PlatformModelName = sendMessageBillingPlatformModelName inp, ui_RoutedBindingCode = trim_space (sr_RoutedBindingCode r),
       ui_ProviderProtocol = trim_space (sr_UpstreamProtocol r), ui_UpstreamName = trim_space (sr_UpstreamName r),
       ui_UpstreamModelName = trim_space (sr_UpstreamModelName r), ui_CacheTimeout = messageCacheTimeout lib options,
       ui_RequestSpeed = messageRequestSpeed lib options, ui_UsageSpeed = trim_space (sr_UsageSpeed r),
       ui_RequestServiceTier = messageRequestServiceTier lib options, ui_UsageServiceTier = trim_space (sr_UsageServiceTier r),
       ui_UsageSource = trim_space (sr_UsageSource r), ui_BilledReason = ModerationBlockedBilledReason r authorization,
       ui_ServiceOnly = False, ui_InputTokens = sendMessageBillingInputTokens r,
       ui_CacheReadTokens = sendMessageBillingCacheReadTokens r, ui_CacheWriteTokens = sendMessageBillingCacheWriteTokens r,
       ui_CacheWrite5mTokens = sr_CacheWrite5mTokens r, ui_CacheWrite1hTokens = sr_CacheWrite1hTokens r,
       ui_OutputTokens = ms_OutputTokens (sr_AssistantMessage r), ui_ReasoningTokens = ms_ReasoningTokens (sr_AssistantMessage r),
       ui_CallCount = sendMessageBillingCallCount r, ui_DurationBillable = video,
       ui_DurationSeconds = sendMessageBillingDurationSeconds lib r, ui_MediaType = (if video then ''video'' else []),
       ui_InputImageCount = (if video then fst (countAttachmentKinds lib (ms_Attachments (sr_UserMessage r))) else 0),
       ui_LatencyMS = (if sr_LatencyMS r \<le> 0 then ms_LatencyMS (sr_AssistantMessage r) else sr_LatencyMS r),
       ui_ServerSideToolUsage = sr_ServerSideToolUsage r, ui_MCPToolUsage = sendMessageMCPToolUsageInputs r,
       ui_ServiceItems = [], ui_RawUsageJSON = sr_RawUsageJSON r, ui_BillingAt = sr_StartedAt r\<rparr>)"

definition buildSendMessageUsageLedger ::
  "run_library \<Rightarrow> SendMessageBillingInput \<Rightarrow> usage_authorization option \<Rightarrow> ('f, 'j) billing_service \<Rightarrow> billing_db \<Rightarrow>
   billing_error + usage_ledger option" where
  "buildSendMessageUsageLedger lib inp authorization s db =
     (case bi_Result inp of None \<Rightarrow> Inr None
      | Some r \<Rightarrow> map_sum id Some (BuildUsageLedger ((bs_env s)\<lparr>le_db := db\<rparr>) (usage_pricing_input lib inp r authorization)))"

section \<open>Recording a run\<close>

text \<open>
  \<open>en_billing\<close> says whether the service has a billing service at all. The other fields are the attempts of each write,
  by their number.
\<close>

record ('f, 'j) run_env =
  en_lib :: run_library
  en_billing :: bool
  en_build :: "nat \<Rightarrow> ('f, 'j) attempt"
  en_record :: "nat \<Rightarrow> ('f, 'j) attempt"
  en_update :: "nat \<Rightarrow> ('f, 'j) attempt"
  en_mark :: "nat \<Rightarrow> ('f, 'j) attempt"
  en_release :: "('f, 'j) attempt"

definition retried ::
  "(nat \<Rightarrow> ('f, 'j) attempt) \<Rightarrow> (('f, 'j) attempt \<Rightarrow> 's \<Rightarrow> go_errors \<times> 's) \<Rightarrow> 's \<Rightarrow> go_errors \<times> 's" where
  "retried attempts operation s = retryUsageBillingOperation (\<lambda>k. operation (attempts k)) (\<lambda>k. at_canceled (attempts k)) s"

definition build_attempt ::
  "run_library \<Rightarrow> SendMessageBillingInput \<Rightarrow> usage_authorization option \<Rightarrow> ('f, 'j) attempt \<Rightarrow>
   usage_ledger option \<times> call_world \<Rightarrow> go_errors \<times> usage_ledger option \<times> call_world" where
  "build_attempt lib inp authorization a s =
     (case run_attempt a (\<lambda>b w. (buildSendMessageUsageLedger lib inp authorization b (cw_db w), w)) (snd s) of
        (err, x, w') \<Rightarrow> (err, if err = [] then Option.bind x id else None, w'))"

text \<open>
  The settlement writes the recorded row into the caller's record: a row that it read back also when the transaction
  then fails, the changed snapshot only when it succeeds.
\<close>

definition left_record :: "usage_ledger \<Rightarrow> usage_ledger option option \<Rightarrow> usage_ledger" where
  "left_record u x = (case x of Some (Some l) \<Rightarrow> if ul_ID l \<noteq> 0 then l else u | _ \<Rightarrow> u)"

definition record_attempt ::
  "usage_authorization option \<Rightarrow> ('f, 'j) attempt \<Rightarrow> usage_ledger \<times> call_world \<Rightarrow> go_errors \<times> usage_ledger \<times> call_world" where
  "record_attempt authorization a s =
     (case run_attempt a (\<lambda>b. on_db (RecordUsageWithAuthorization b (Some (fst s)) authorization)) (snd s) of
        (err, x, w') \<Rightarrow> (err, if err = [] then (case x of Some (Some l) \<Rightarrow> l | _ \<Rightarrow> fst s) else left_record (fst s) x, w'))"

definition usageRecordIsIdempotent :: "usage_ledger \<Rightarrow> usage_authorization option \<Rightarrow> bool" where
  "usageRecordIsIdempotent u authorization \<longleftrightarrow>
     (case authorization of None \<Rightarrow> False | Some a \<Rightarrow> ua_Reservation a \<noteq> None) \<or> trim_space (ul_RefNo u) \<noteq> []"

definition recordUsageWithRetry ::
  "(nat \<Rightarrow> ('f, 'j) attempt) \<Rightarrow> usage_authorization option \<Rightarrow> usage_ledger \<times> call_world \<Rightarrow> go_errors \<times> usage_ledger \<times> call_world" where
  "recordUsageWithRetry attempts authorization s =
     (if \<not> usageRecordIsIdempotent (fst s) authorization then record_attempt authorization (attempts 0) s
      else retried attempts (record_attempt authorization) s)"

definition mark_attempt :: "usage_authorization option \<Rightarrow> string \<Rightarrow> ('f, 'j) attempt \<Rightarrow> call_world \<Rightarrow> go_errors \<times> call_world" where
  "mark_attempt authorization failureCode a w =
     (case run_attempt a (\<lambda>b. on_db (MarkUsageAuthorizationForReconciliation b authorization failureCode)) w of (err, _, w') \<Rightarrow> (err, w'))"

text \<open>The error of the mark joins the cause.\<close>

definition markUsageAuthorizationForReconciliation ::
  "('f, 'j) run_env \<Rightarrow> usage_authorization option \<Rightarrow> string \<Rightarrow> go_errors \<Rightarrow> call_world \<Rightarrow> go_errors \<times> call_world" where
  "markUsageAuthorizationForReconciliation env authorization failureCode cause w =
     (if \<not> en_billing env \<or> (case authorization of None \<Rightarrow> True | Some a \<Rightarrow> ua_Reservation a = None) then (cause, w)
      else (case retried (en_mark env) (mark_attempt authorization failureCode) w of (err, w') \<Rightarrow> (cause @ err, w')))"

text \<open>The row of the message, if it is there.\<close>

definition UpdateMessageBilling ::
  "repo_error option \<Rightarrow> nat \<Rightarrow> usage_ledger option \<Rightarrow> call_world \<Rightarrow> (billing_error + unit) \<times> call_world" where
  "UpdateMessageBilling fault messageID usage w =
     (case usage of None \<Rightarrow> (Inr (), w)
      | Some l \<Rightarrow>
        if messageID = 0 then (Inr (), w)
        else (case fault of Some e \<Rightarrow> (Inl (FromRepo e), w)
          | None \<Rightarrow> (Inr (), if cw_messages w messageID = None then w
              else w\<lparr>cw_messages := (cw_messages w)(messageID \<mapsto>
                (ud_BilledCurrency (ul_Details l), clampNonNegative (ul_BilledNanousd l), ul_PricingSnapshotJSON l))\<rparr>)))"

definition update_attempt :: "nat \<Rightarrow> usage_ledger \<Rightarrow> ('f, 'j) attempt \<Rightarrow> call_world \<Rightarrow> go_errors \<times> call_world" where
  "update_attempt messageID l a w =
     (case run_attempt a (\<lambda>b. UpdateMessageBilling (bs_write_fault b) messageID (Some l)) w of (err, _, w') \<Rightarrow> (err, w'))"

definition scheduleConversationMetadataAfterBilling :: "SendMessageBillingInput \<Rightarrow> SendMessageResult \<Rightarrow> post_task list" where
  "scheduleConversationMetadataAfterBilling inp r =
     (case bi_Conversation inp of None \<Rightarrow> []
      | Some conversationModel \<Rightarrow>
        if sr_MetadataRefreshHint r \<noteq> ''pending'' \<or> trim_space (ms_RunID (sr_UserMessage r)) \<noteq> trim_space (bi_ClientRunID inp) then []
        else [GenerateMetadata (if trim_space (sr_PlatformModelName r) \<noteq> [] then trim_space (sr_PlatformModelName r) else conversationModel)])"

definition runPostBillingTasks :: "SendMessageBillingInput \<Rightarrow> SendMessageResult \<Rightarrow> call_world \<Rightarrow> SendMessageResult \<times> call_world" where
  "runPostBillingTasks inp r w =
     (r\<lparr>sr_postBillingCompaction := None\<rparr>,
      w\<lparr>cw_tasks := cw_tasks w @ (case sr_postBillingCompaction r of None \<Rightarrow> [] | Some async \<Rightarrow> [RunCompaction async]) @
        scheduleConversationMetadataAfterBilling inp r\<rparr>)"

definition discardPostBillingCompaction :: "SendMessageResult \<Rightarrow> call_world \<Rightarrow> SendMessageResult \<times> call_world" where
  "discardPostBillingCompaction r w =
     (r\<lparr>sr_postBillingCompaction := None\<rparr>,
      if sr_postBillingCompaction r = None then w else w\<lparr>cw_tasks := cw_tasks w @ [DiscardCompaction]\<rparr>)"

text \<open>A failure before the message is updated: the waiting task is dropped and the budget stays blocked.\<close>

definition failed_billing ::
  "('f, 'j) run_env \<Rightarrow> usage_authorization option \<Rightarrow> string \<Rightarrow> go_errors \<Rightarrow> SendMessageResult \<Rightarrow> call_world \<Rightarrow>
   go_errors \<times> usage_ledger option \<times> SendMessageResult option \<times> call_world" where
  "failed_billing env authorization failureCode err r w =
     (let (r', w1) = discardPostBillingCompaction r w;
          (err', w2) = markUsageAuthorizationForReconciliation env authorization failureCode err w1
      in (err', None, Some r', w2))"

text \<open>The error, the ledger entry, the result as it is left, and the world.\<close>

definition RecordSendMessageBilling ::
  "('f, 'j) run_env \<Rightarrow> SendMessageBillingInput \<Rightarrow> usage_authorization option \<Rightarrow> call_world \<Rightarrow>
   go_errors \<times> usage_ledger option \<times> SendMessageResult option \<times> call_world" where
  "RecordSendMessageBilling env inp authorization w =
     (case bi_Result inp of None \<Rightarrow> ([], None, None, w)
      | Some r \<Rightarrow>
        if \<not> en_billing env then (let (r', w') = runPostBillingTasks inp r w in ([], None, Some r', w'))
        else (case retried (en_build env) (build_attempt (en_lib env) inp authorization) (None, w) of (err, built, w1) \<Rightarrow>
          if err \<noteq> [] then failed_billing env authorization ''build_usage_ledger_failed'' err r w1
          else (case built of None \<Rightarrow> ([], None, Some r, w1)
            | Some l \<Rightarrow>
              (case recordUsageWithRetry (en_record env) authorization (l, w1) of (err, l', w2) \<Rightarrow>
                if err \<noteq> [] then failed_billing env authorization ''settle_usage_ledger_failed'' err r w2
                else (case retried (en_update env) (update_attempt (ms_ID (sr_AssistantMessage r)) l') w2 of (err, w3) \<Rightarrow>
                  if err \<noteq> [] then (let (r', w4) = discardPostBillingCompaction r w3 in (err, None, Some r', w4))
                  else (let (r', w4) = runPostBillingTasks inp r w3 in ([], Some l', Some r', w4)))))))"

section \<open>The session\<close>

definition AuthorizeSendMessageUsage ::
  "bool \<Rightarrow> ('f, 'j) billing_service \<Rightarrow> SendMessageBillingInput \<Rightarrow> billing_db \<Rightarrow> (billing_error + usage_authorization) \<times> billing_db" where
  "AuthorizeSendMessageUsage billing s inp db =
     (if \<not> billing then (Inr \<lparr>ua_Mode = ''self'', ua_RefNo = [], ua_Reservation = None\<rparr>, db)
      else AuthorizeUsage s (bi_UserID inp) (sendMessageBillingPlatformModelName inp) (trim_space (bi_ClientRunID inp)) db)"

definition ReleaseSendMessageUsageAuthorization ::
  "('f, 'j) run_env \<Rightarrow> usage_authorization option \<Rightarrow> call_world \<Rightarrow> go_errors \<times> call_world" where
  "ReleaseSendMessageUsageAuthorization env authorization w =
     (if \<not> en_billing env \<or> authorization = None then ([], w)
      else (case run_attempt (en_release env) (\<lambda>b. on_db (ReleaseUsageAuthorization b authorization)) w of (err, _, w') \<Rightarrow> (err, w')))"

text \<open>A session; \<open>us_renewing\<close> while its renewals run.\<close>

record UsageSession =
  us_input :: SendMessageBillingInput
  us_authorization :: "usage_authorization option"
  us_renewing :: bool
  us_finished :: bool

definition BeginUsageSession ::
  "bool \<Rightarrow> ('f, 'j) billing_service \<Rightarrow> SendMessageBillingInput \<Rightarrow> billing_db \<Rightarrow> (billing_error + UsageSession) \<times> billing_db" where
  "BeginUsageSession billing s inp db =
     map_prod (map_sum id (\<lambda>a. \<lparr>us_input = inp, us_authorization = Some a, us_renewing = (ua_Reservation a \<noteq> None), us_finished = False\<rparr>)) id
       (AuthorizeSendMessageUsage billing s inp db)"

definition ApplyUsageBilling :: "Message \<Rightarrow> usage_ledger option \<Rightarrow> Message" where
  "ApplyUsageBilling m usage =
     (case usage of None \<Rightarrow> m
      | Some l \<Rightarrow> m\<lparr>ms_BilledCurrency := ud_BilledCurrency (ul_Details l), ms_BilledNanousd := ul_BilledNanousd l,
          ms_PricingSnapshot := ul_PricingSnapshotJSON l\<rparr>)"

definition settle_session ::
  "('f, 'j) run_env \<Rightarrow> UsageSession \<Rightarrow> SendMessageResult \<Rightarrow> call_world \<Rightarrow> go_errors \<times> SendMessageResult option \<times> call_world" where
  "settle_session env u r w =
     (case RecordSendMessageBilling env ((us_input u)\<lparr>bi_Result := Some r\<rparr>) (us_authorization u) w of
        (err, usage, r', w') \<Rightarrow>
          (err, if err \<noteq> [] then r' else map_option (sr_AssistantMessage_update (\<lambda>m. ApplyUsageBilling m usage)) r', w'))"

definition Finish ::
  "('f, 'j) run_env \<Rightarrow> UsageSession \<Rightarrow> SendMessageResult option \<Rightarrow> call_world \<Rightarrow>
   go_errors \<times> UsageSession \<times> SendMessageResult option \<times> call_world" where
  "Finish env u result w =
     (if us_finished u then ([], u, result, w)
      else (let u' = u\<lparr>us_finished := True, us_renewing := False\<rparr> in
        case result of
          Some r \<Rightarrow> if sr_Billable r then (case settle_session env u' r w of (err, r', w') \<Rightarrow> (err, u', r', w'))
            else (case ReleaseSendMessageUsageAuthorization env (us_authorization u) w of (err, w') \<Rightarrow> (err, u', result, w'))
        | None \<Rightarrow> (case ReleaseSendMessageUsageAuthorization env (us_authorization u) w of (err, w') \<Rightarrow> (err, u', result, w'))))"

definition Close :: "UsageSession \<Rightarrow> UsageSession" where
  "Close u = u\<lparr>us_renewing := False\<rparr>"

text \<open>
  What a session does, in any order and any number of times: handlers call \<open>Finish\<close> and \<open>Close\<close>, the timer renews. The two
  sets are the states of the environment in which it may do so.
\<close>

inductive session_step ::
  "('f, 'j) billing_service set \<Rightarrow> ('f, 'j) run_env set \<Rightarrow> UsageSession \<times> call_world \<Rightarrow> UsageSession \<times> call_world \<Rightarrow> bool"
  for services envs where
  renew: "us_renewing u \<Longrightarrow> s \<in> services \<Longrightarrow>
    session_step services envs (u, w) (u, snd (on_db (RenewUsageAuthorization s (us_authorization u)) w))"
| finish: "env \<in> envs \<Longrightarrow> Finish env u result w = (err, u', result', w') \<Longrightarrow> session_step services envs (u, w) (u', w')"
| close: "session_step services envs (u, w) (Close u, w)"

section \<open>The budget before a call\<close>

record usageBudgetEstimate =
  be_InputTokens :: int
  be_CacheReadTokens :: int
  be_CacheWriteTokens :: int
  be_OutputTokens :: int
  be_CallCount :: int
  be_DurationSeconds :: int

text \<open>What an upstream reported for one or more calls (\<open>llm.Usage\<close>).\<close>

record Usage =
  lu_InputTokens :: int
  lu_OutputTokens :: int
  lu_CacheReadTokens :: int
  lu_CacheWriteTokens :: int
  lu_CacheWrite5mTokens :: int
  lu_CacheWrite1hTokens :: int
  lu_ReasoningTokens :: int
  lu_Speed :: string
  lu_ServiceTier :: string
  lu_RawUsageJSON :: string

definition followUpUsageBudgetEstimate :: "run_library \<Rightarrow> Usage \<Rightarrow> int \<Rightarrow> goobj \<Rightarrow> usageBudgetEstimate" where
  "followUpUsageBudgetEstimate lib billed nextInputTokens options =
     \<lparr>be_InputTokens = add64 (lu_InputTokens billed) nextInputTokens, be_CacheReadTokens = lu_CacheReadTokens billed,
      be_CacheWriteTokens = lu_CacheWriteTokens billed,
      be_OutputTokens = add64 (add64 (lu_OutputTokens billed) (lu_ReasoningTokens billed)) (messageRequestMaxOutputTokens lib options),
      be_CallCount = 0, be_DurationSeconds = 0\<rparr>"

definition ensureUsageBudgetCoversEstimate ::
  "run_library \<Rightarrow> bool \<Rightarrow> ('f, 'j) billing_service \<Rightarrow> usage_authorization option \<Rightarrow> resolved_route option \<Rightarrow> goobj \<Rightarrow>
   usageBudgetEstimate \<Rightarrow> billing_db \<Rightarrow> (billing_error + unit) \<times> billing_db" where
  "ensureUsageBudgetCoversEstimate lib billing s authorization route options estimate db =
     (case (billing, Option.bind authorization ua_Reservation, route) of
        (True, Some reservation, Some r) \<Rightarrow>
          (case EstimateUsageNanousd ((bs_env s)\<lparr>le_db := db\<rparr>) (ur_UserID reservation)
              \<lparr>ue_PlatformModelName = rs_PlatformModelName r, ue_ProviderProtocol = rs_Protocol r, ue_UpstreamModelName = rs_UpstreamModel r,
               ue_CacheTimeout = messageCacheTimeout lib options, ue_RequestSpeed = messageRequestSpeed lib options,
               ue_RequestServiceTier = messageRequestServiceTier lib options, ue_InputTokens = be_InputTokens estimate,
               ue_CacheReadTokens = be_CacheReadTokens estimate, ue_CacheWriteTokens = be_CacheWriteTokens estimate,
               ue_OutputTokens = be_OutputTokens estimate, ue_CallCount = be_CallCount estimate,
               ue_DurationSeconds = be_DurationSeconds estimate\<rparr> of
            Inl e \<Rightarrow> (Inl e, db)
          | Inr required \<Rightarrow> EnsureUsageAuthorizationBudget s authorization required db)
      | _ \<Rightarrow> (Inr (), db))"

end
