(* ===== verification/Usage_Guarantees.thy ===== *)
theory Usage_Guarantees
  imports Usage_Session
begin

text \<open>
  What the billing of a model run guarantees although answers of the database get lost, commits fail and handlers call
  \<open>Finish\<close> twice: a call is charged at most once, a call with costs keeps its budget until it is charged, and a
  session that has finished does nothing more.
\<close>

section \<open>A retried operation\<close>

lemma run_attempt_cases:
  assumes "run_attempt a operation w = (err, x, w')"
  obtains (refused) e where "operation (at_service a) (w\<lparr>cw_db := at_others a (cw_db w)\<rparr>) = (Inl e, w')" "err = [BillingError e]" "x = None"
  | (answered) y where "operation (at_service a) (w\<lparr>cw_db := at_others a (cw_db w)\<rparr>) = (Inr y, w')" "err = []" "x = Some y"
  | (lost) y e where "operation (at_service a) (w\<lparr>cw_db := at_others a (cw_db w)\<rparr>) = (Inr y, w')" "err = [e]" "x = Some y"
  | (rolled_back) y e w1 where "operation (at_service a) (w\<lparr>cw_db := at_others a (cw_db w)\<rparr>) = (Inr y, w1)" "err = [e]" "x = Some y"
      "w' = w\<lparr>cw_db := at_others a (cw_db w)\<rparr>"
proof -
  let ?w0 = "w\<lparr>cw_db := at_others a (cw_db w)\<rparr>"
  obtain r w1 where r: "operation (at_service a) ?w0 = (r, w1)" by (metis surj_pair)
  have d: "(case r of Inl e \<Rightarrow> ([BillingError e], None, w1)
      | Inr x \<Rightarrow> (case at_fate a of Answered \<Rightarrow> ([], Some x, w1) | AnswerLost e \<Rightarrow> ([e], Some x, w1) | CommitFailed e \<Rightarrow> ([e], Some x, ?w0))) =
      (err, x, w')"
    using assms by (simp add: run_attempt_def r)
  show ?thesis
  proof (cases r)
    case (Inl e)
    show ?thesis by (rule refused [of e]) (use d r Inl in simp_all)
  next
    case (Inr y)
    show ?thesis
    proof (cases "at_fate a")
      case Answered
      show ?thesis by (rule answered [of y]) (use d r Inr Answered in simp_all)
    next
      case (AnswerLost e)
      show ?thesis by (rule lost [of y e]) (use d r Inr AnswerLost in simp_all)
    next
      case (CommitFailed e)
      show ?thesis by (rule rolled_back [of y w1 e]) (use d r Inr CommitFailed in simp_all)
    qed
  qed
qed

text \<open>
  What holds at the start and is kept by every attempt holds at the end, and an error-free end comes from an attempt
  without an error.
\<close>

lemma retry_loop_keeps:
  assumes "retry_loop left operation canceled attempt s = (err, s')" and "P s" and "0 < left"
    and step: "\<And>k t e t'. k < attempt + left \<Longrightarrow> operation k t = (e, t') \<Longrightarrow> P t \<Longrightarrow> P t' \<and> (e = [] \<longrightarrow> Q t')"
  shows "P s' \<and> (err = [] \<longrightarrow> Q s')"
  using assms
proof (induction left arbitrary: attempt s)
  case (Suc left)
  obtain e t where e: "operation attempt s = (e, t)" by fastforce
  have "attempt < attempt + Suc left" by simp
  then have t: "P t" "e = [] \<longrightarrow> Q t" using Suc.prems(4) e Suc.prems(2) by blast+
  have "(err = e \<or> err = e @ [ContextDone]) \<and> s' = t \<or> 0 < left \<and> retry_loop left operation canceled (Suc attempt) t = (err, s')"
    using Suc.prems(1) by (simp add: e split: if_split_asm)
  then show ?case
  proof
    assume "(err = e \<or> err = e @ [ContextDone]) \<and> s' = t"
    then show ?thesis using t by auto
  next
    assume again: "0 < left \<and> retry_loop left operation canceled (Suc attempt) t = (err, s')"
    have "P t' \<and> (e' = [] \<longrightarrow> Q t')" if "k < Suc attempt + left" "operation k u = (e', t')" "P u" for k u e' t'
      by (rule Suc.prems(4) [OF _ that(2,3)]) (use that(1) in simp)
    then show ?thesis using Suc.IH again t(1) by blast
  qed
qed simp

lemma retried_keeps:
  assumes "retried attempts operation s = (err, s')" and "P s"
    and "\<And>k t e t'. k < 3 \<Longrightarrow> operation (attempts k) t = (e, t') \<Longrightarrow> P t \<Longrightarrow> P t' \<and> (e = [] \<longrightarrow> Q t')"
  shows "P s' \<and> (err = [] \<longrightarrow> Q s')"
proof -
  have "retry_loop 3 (\<lambda>k. operation (attempts k)) (\<lambda>k. at_canceled (attempts k)) 0 s = (err, s')"
    using assms(1) by (simp add: retried_def retryUsageBillingOperation_def usageBillingRetryAttempts_def)
  then show ?thesis by (rule retry_loop_keeps [where P = P and Q = Q]) (use assms(2,3) in auto)
qed

lemma on_db_eq: "on_db f w = (r, w') \<longleftrightarrow> (\<exists>db. f (cw_db w) = (r, db) \<and> w' = w\<lparr>cw_db := db\<rparr>)"
  by (auto simp: on_db_def split: prod.splits)

section \<open>The record of a paid call\<close>

text \<open>The call of an authorization with a reservation, whose user has an account.\<close>

definition paid_call :: "usage_authorization \<Rightarrow> usage_reservation \<Rightarrow> billing_db \<Rightarrow> bool" where
  "paid_call a r db \<longleftrightarrow> ua_Reservation a = Some r \<and> ua_Mode a = ur_Mode r \<and> (ur_Mode r = ''usage'' \<or> ur_Mode r = ''period'') \<and>
     ur_UserID r \<noteq> 0 \<and> ur_UserID r \<in> dom (db_accounts db) \<and> in_int64 (ur_PeriodLimitNanousd r) \<and> trim_space (ur_RefNo r) = ur_RefNo r \<and>
     (ur_Mode r = ''period'' \<longrightarrow> (\<exists>startAt endAt. ur_PeriodStartAt r = Some startAt \<and> ur_PeriodEndAt r = Some endAt \<and> startAt < endAt \<and>
       0 \<le> ur_PeriodLimitNanousd r))"

lemma authorized_paid:
  assumes "AuthorizeUsage s userID name ref db = (Inr a, db')" and "ua_Reservation a = Some r" and "billing_inv db'"
  shows "paid_call a r db'"
proof -
  note ar = authorized_reservation [OF assms(1,2)]
  have lim: "in_int64 (ur_PeriodLimitNanousd r)" using ar(7) assms(3) by (auto simp: billing_inv_def reservations_ok_def)
  obtain auth request where v: "ReserveUsageBalance (bs_write_fault s) (svc_now s) request db = (Inr r, db')"
    using assms by (auto simp: AuthorizeUsage_def authorize_request_def and_then_Inr from_repo_Inr budget_request_def Let_def
      split: sum.splits option.splits prod.splits if_splits)
  have "ur_UserID r \<in> dom (db_accounts db')"
  proof -
    let ?inp = "request\<lparr>rq_RefNo := trim_space (rq_RefNo request), rq_Mode := trim_space (rq_Mode request)\<rparr>"
    have b: "reserve_body (svc_now s) ?inp db = Inr (r, db')"
      using v by (auto simp: ReserveUsageBalance_def Let_def transaction_commit split: if_splits)
    then obtain account db1 q c where "getOrCreateBillingAccountForUpdate (rq_UserID request) db = Inr (account, db1)"
      "insert_reservation (new_reservation ?inp q c (svc_now s)) db1 = (r, db')"
      by (auto simp: reserve_body_def Let_def split: if_splits sum.splits option.splits)
    then show ?thesis using getOrCreate_effects(1) insert_reservation_effects reserved_request(1) [OF v] by fastforce
  qed
  then show ?thesis using ar lim assms(2) by (auto simp: paid_call_def)
qed

text \<open>The settlement of a paid call, whatever the clock and the settings are then.\<close>

definition paid_settlement ::
  "('f, 'j) billing_service \<Rightarrow> usage_ledger \<Rightarrow> usage_reservation \<Rightarrow> billing_db \<Rightarrow> (repo_error + usage_ledger option) \<times> billing_db" where
  "paid_settlement s u r db =
     (if ur_Mode r = ''usage'' then AddUsageAndSettleBalance (bs_write_fault s) (svc_now s) (Some u) (Some r) db
      else AddPeriodUsageAndSettleOverage (bs_codec s) (bs_write_fault s) (svc_now s) (svc_now s) (Some u)
        (the (ur_PeriodStartAt r)) (the (ur_PeriodEndAt r)) (ur_PeriodLimitNanousd r) (Some r) db)"

lemma paid_record:
  assumes "paid_call a r db0"
  shows "RecordUsageWithAuthorization s (Some u) (Some a) db =
     (if ur_Mode r = ''period'' \<and> (is_zero (ul_BillingAt u) \<or> is_zero (ud_UsageDate (ul_Details u))) then (Inl (FromRepo ErrInvalidInput), db)
      else map_prod (map_sum settle_error id) id (paid_settlement s u r db))"
proof -
  have t: "trim_space ''usage'' = ''usage''" "trim_space ''period'' = ''period''" by code_simp+
  show ?thesis using assms t
    by (auto simp: paid_call_def RecordUsageWithAuthorization_def record_in_mode_def settlement_period_def paid_settlement_def Let_def)
qed

abbreviation charged :: "nat \<Rightarrow> usage_reservation \<Rightarrow> usage_ledger \<Rightarrow> billing_db \<Rightarrow> bool" where
  "charged u r l db \<equiv> recorded u (\<lambda>_. True) (Some r) [] l db"

lemma recorded_charged: "recorded u fits (Some r) ref l db \<Longrightarrow> charged u r l db"
  by (auto simp: recorded_def reservation_of_row_def)

lemma paid_settlement_error: "paid_settlement s v r db = (Inl e, db') \<Longrightarrow> db' = db"
  by (auto simp: paid_settlement_def AddUsageAndSettleBalance_def AddPeriodUsageAndSettleOverage_def split: if_splits
      dest: transaction_rollback)

lemma settlement_body [consumes 1, case_names usage period]:
  assumes "paid_settlement s v r db = (Inr x, db')"
    and "settle_usage_body (svc_now s) v (Some r) db = Inr (x, db') \<Longrightarrow> thesis"
    and "settle_period_body (bs_codec s) (svc_now s) (svc_now s) v (the (ur_PeriodStartAt r)) (the (ur_PeriodEndAt r))
      (ur_PeriodLimitNanousd r) (Some r) db = Inr (x, db') \<Longrightarrow> thesis"
  shows thesis
  using assms
  by (auto simp: paid_settlement_def AddUsageAndSettleBalance_def AddPeriodUsageAndSettleOverage_def transaction_commit split: if_splits)

lemma charged_answers:
  assumes "charged u r l db" and "billing_inv db" and "ur_UserID r = u"
    and "getOrCreateBillingAccountForUpdate (ul_UserID v) db = Inr (account, db1)"
    and "getUsageReservationForSettlement (ul_UserID v) (Some r) db1 = Inr (row, settled)"
  shows "db1 = db" "settled_before v row settled db = Inr (Some l)"
proof -
  have "u \<noteq> 0" using assms(1) by (simp add: recorded_def)
  then have v: "ul_UserID v = u" using assms(3,5) by (auto simp: getUsageReservationForSettlement_def split: if_splits)
  have "recorded u (\<lambda>_. True) (Some r) (ul_RefNo v) l db" using assms(1) by (simp add: recorded_def)
  then obtain row' account' settled' where
    a: "getOrCreateBillingAccountForUpdate u db = Inr (account', db)" "getUsageReservationForSettlement u (Some r) db = Inr (row', settled')"
      "\<forall>x. row' = Some x \<longrightarrow> True" "settled_before v row' settled' db = Inr (Some l)"
    by (rule recorded_answers [OF _ assms(2) v])
  show "db1 = db" using a(1) assms(4) v by simp
  then show "settled_before v row settled db = Inr (Some l)" using a(2,4) assms(5) v by simp
qed

lemma charged_frozen:
  assumes "charged u r l db" and "billing_inv db" and "ur_UserID r = u"
  shows "snd (paid_settlement s v r db) = db" "fst (paid_settlement s v r db) = Inr x \<Longrightarrow> x = Some l"
proof -
  note c = charged_answers [OF assms]
  have usage: "db' = db \<and> y = Some l" if "settle_usage_body t v (Some r) db = Inr (y, db')" for t y db'
    using that
  proof (cases rule: settle_usage_cases)
    case (replay account row settled k)
    then show ?thesis using c [OF replay(1,2)] by simp
  next
    case (fresh account db1 row)
    then show ?thesis using c [OF fresh(1,2)] by simp
  qed
  have period: "db' = db \<and> y = Some l" if "settle_period_body codec now t v p q k (Some r) db = Inr (y, db')" for codec now t p q k y db'
    using that
  proof (cases rule: settle_period_cases)
    case (replay account row settled k)
    then show ?thesis using c [OF replay(1,2)] by simp
  next
    case (fresh account db1 row used held json)
    then show ?thesis using c [OF fresh(1,2)] by simp
  qed
  obtain res db' where res: "paid_settlement s v r db = (res, db')" by (metis surj_pair)
  have "db' = db \<and> (\<forall>x. res = Inr x \<longrightarrow> x = Some l)"
  proof (cases res)
    case (Inl e)
    then show ?thesis using res paid_settlement_error by blast
  next
    case (Inr x)
    show ?thesis using res [unfolded Inr] by (cases rule: settlement_body) (use usage period Inr in blast)+
  qed
  then show "snd (paid_settlement s v r db) = db" "fst (paid_settlement s v r db) = Inr x \<Longrightarrow> x = Some l" using res by simp_all
qed

text \<open>The first settlement that is committed leaves the call charged.\<close>

lemma settlement_charges:
  assumes "paid_settlement s v r db = (Inr x, db')" and "billing_inv db" and "in_int64 (ul_BilledNanousd v)"
    and "in_int64 (ur_PeriodLimitNanousd r)"
  shows "billing_inv db'" "\<exists>l. charged (ul_UserID v) r l db' \<and> (\<forall>y. x = Some y \<longrightarrow> ul_BilledNanousd y = ul_BilledNanousd l)"
proof -
  have "billing_inv db' \<and> (\<exists>l. charged (ul_UserID v) r l db' \<and> (\<forall>y. x = Some y \<longrightarrow> ul_BilledNanousd y = ul_BilledNanousd l))"
    using assms(1)
  proof (cases rule: settlement_body)
    case usage
    have "\<exists>l. recorded (ul_UserID v) (\<lambda>r. ur_Mode r = ''usage'') (Some r) (ul_RefNo v) l db' \<and>
        (\<forall>y. x = Some y \<longrightarrow> ul_BilledNanousd y = ul_BilledNanousd l)"
      by (rule settle_usage_recorded [OF usage assms(2,3)]) simp
    then show ?thesis using settle_usage_step [OF usage assms(2,3)] recorded_charged unfolding good_step_def by blast
  next
    case period
    have "\<exists>l. recorded (ul_UserID v) (\<lambda>row. matchesPeriodReservation row (the (ur_PeriodStartAt r)) (the (ur_PeriodEndAt r))
        (ur_PeriodLimitNanousd r)) (Some r) (ul_RefNo v) l db' \<and> (\<forall>y. x = Some y \<longrightarrow> ul_BilledNanousd y = ul_BilledNanousd l)"
      by (rule settle_period_recorded [OF period assms(2,3,4)]) simp
    then show ?thesis using settle_period_step [OF period assms(2,3,4)] recorded_charged unfolding good_step_def by blast
  qed
  then show "billing_inv db'" "\<exists>l. charged (ul_UserID v) r l db' \<and> (\<forall>y. x = Some y \<longrightarrow> ul_BilledNanousd y = ul_BilledNanousd l)" by simp_all
qed

lemma account_reread: "getOrCreateBillingAccountForUpdate u db = Inr (account, db1) \<Longrightarrow> u \<in> dom (db_accounts db) \<Longrightarrow> db1 = db"
  by (auto simp: getOrCreateBillingAccountForUpdate_def split: if_splits)

lemma settlement_some:
  assumes "paid_settlement s v r db = (Inr x, db')" shows "x \<noteq> None"
  using assms
proof (cases rule: settlement_body)
  case usage
  then show ?thesis by (cases rule: settle_usage_cases) simp_all
next
  case period
  then show ?thesis by (cases rule: settle_period_cases) auto
qed

text \<open>A row that was read back had been recorded before, so nothing was written.\<close>

lemma settlement_reread:
  assumes "paid_settlement s v r db = (Inr (Some y), db')" and "ul_ID y \<noteq> ul_ID v" and "ul_UserID v \<in> dom (db_accounts db)"
  shows "db' = db"
  using assms(1)
proof (cases rule: settlement_body)
  case usage
  then show ?thesis
  proof (cases rule: settle_usage_cases)
    case (replay account row settled k)
    then show ?thesis using account_reread assms(3) by blast
  qed (use assms(2) in auto)
next
  case period
  then obtain k where "Some y = Some k \<and> (db' = db \<or> k = v \<or> (\<exists>json. k = v\<lparr>ul_PricingSnapshotJSON := json\<rparr>))"
    using assms(3) account_reread
    by (auto simp: settle_period_body_def post_period_usage_def Let_def split: sum.splits option.splits prod.splits if_splits)
  then show ?thesis using assms(2) by auto
qed

section \<open>At most once\<close>

text \<open>What the rest of the system does between the attempts: runs of the repository.\<close>

definition others_run :: "'j billing_env \<Rightarrow> (billing_db \<Rightarrow> billing_db \<Rightarrow> bool) \<Rightarrow> (nat \<Rightarrow> ('f, 'j) attempt) \<Rightarrow> bool" where
  "others_run env R attempts \<longleftrightarrow> (\<forall>k x. R x (at_others (attempts k) x)) \<and> (\<forall>x y. R x y \<longrightarrow> billing_run env x y)"

lemma others_closure:
  assumes "others_run env R attempts" and "R\<^sup>*\<^sup>* x y"
  shows "billing_run env x y"
  using assms(2)
proof (induction rule: rtranclp_induct)
  case (step y z)
  then show ?case using assms(1) unfolding others_run_def by (blast intro: billing_run_trans)
qed simp

lemma run_kept:
  assumes "billing_run env x y" and "billing_inv x"
  shows "billing_inv y" "charged u r l x \<Longrightarrow> charged u r l y" "u \<in> dom (db_accounts x) \<Longrightarrow> u \<in> dom (db_accounts y)"
  using rows.run [OF assms] by (auto intro: recorded_history simp: history_def)

text \<open>The record of the call, as one attempt makes it.\<close>

definition record_by :: "('f, 'j) attempt \<Rightarrow> usage_ledger \<Rightarrow> usage_authorization \<Rightarrow> billing_db \<Rightarrow> billing_db" where
  "record_by k u a db = snd (RecordUsageWithAuthorization (at_service k) (Some u) (Some a) db)"

text \<open>
  Where a retried record can be: nothing has been written and the caller's entry is as it was, or the call is charged,
  by one attempt or from before. The ledger row has the amount that \<open>n\<close> gives once the caller knows it.
\<close>

definition not_yet :: "(billing_db \<Rightarrow> billing_db \<Rightarrow> bool) \<Rightarrow> usage_ledger \<Rightarrow> billing_db \<Rightarrow> usage_ledger \<times> call_world \<Rightarrow> bool" where
  "not_yet R u db s \<longleftrightarrow> fst s = u \<and> R\<^sup>*\<^sup>* db (cw_db (snd s))"

definition charged_once ::
  "(billing_db \<Rightarrow> billing_db \<Rightarrow> bool) \<Rightarrow> (nat \<Rightarrow> ('f, 'j) attempt) \<Rightarrow> usage_ledger \<Rightarrow> usage_authorization \<Rightarrow> usage_reservation \<Rightarrow> billing_db \<Rightarrow>
   usage_ledger \<times> call_world \<Rightarrow> bool" where
  "charged_once R attempts u a r db s \<longleftrightarrow>
     (\<exists>x y. R\<^sup>*\<^sup>* db x \<and> (y = x \<or> (\<exists>k < 3. y = record_by (attempts k) u a x)) \<and> R\<^sup>*\<^sup>* y (cw_db (snd s)) \<and>
       (\<exists>l. charged (ul_UserID u) r l y))"

lemma charged_once_now:
  assumes "charged_once R attempts u a r db s" and "others_run env R attempts" and "billing_inv db"
    and "\<And>x k. billing_run env db x \<Longrightarrow> k < 3 \<Longrightarrow> billing_inv (record_by (attempts k) u a x)"
  shows "\<exists>l. charged (ul_UserID u) r l (cw_db (snd s))" "billing_inv (cw_db (snd s))"
proof -
  obtain x y l where p: "R\<^sup>*\<^sup>* db x" "y = x \<or> (\<exists>k < 3. y = record_by (attempts k) u a x)" "R\<^sup>*\<^sup>* y (cw_db (snd s))"
    "charged (ul_UserID u) r l y" using assms(1) unfolding charged_once_def by blast
  have x: "billing_run env db x" by (rule others_closure [OF assms(2) p(1)])
  have "billing_inv y" using p(2) assms(4) [OF x] run_kept(1) [OF x assms(3)] by blast
  then show "\<exists>l. charged (ul_UserID u) r l (cw_db (snd s))" "billing_inv (cw_db (snd s))"
    using run_kept [OF others_closure [OF assms(2) p(3)]] p(4) by blast+
qed

lemma record_outcome:
  assumes "paid_call a r db0" and "RecordUsageWithAuthorization s (Some v) (Some a) x = (res, y)"
  shows "(\<exists>e. res = Inl e) \<and> y = x \<or> (\<exists>z. res = Inr z \<and> paid_settlement s v r x = (Inr z, y))"
proof -
  obtain res' y' where p: "paid_settlement s v r x = (res', y')" by (metis surj_pair)
  show ?thesis using assms(2) paid_record [OF assms(1), of s v x] p paid_settlement_error
    by (cases res') (auto split: if_splits)
qed

lemma paid_call_kept: "paid_call a r x \<Longrightarrow> billing_inv x \<Longrightarrow> billing_run env x y \<Longrightarrow> paid_call a r y"
  using run_kept(3) unfolding paid_call_def by blast

text \<open>A settlement of a call that is charged, by anyone's entry, leaves the tables as they are.\<close>

lemma record_charged:
  assumes "paid_call a r db0" and "charged u r l x" and "billing_inv x" and "ur_UserID r = u"
    and "RecordUsageWithAuthorization s (Some v) (Some a) x = (res, y)"
  shows "y = x" "res = Inr z \<Longrightarrow> z = Some l"
  using record_outcome [OF assms(1,5)] charged_frozen [OF assms(2-4), of s v] by auto

lemma record_writes:
  assumes "paid_call a r x" and "billing_inv x" and "ul_UserID u = ur_UserID r" and "in_int64 (ul_BilledNanousd u)"
    and "RecordUsageWithAuthorization s (Some u) (Some a) x = (res, y)"
  shows "billing_inv y" "res = Inr z \<Longrightarrow> \<exists>l. charged (ul_UserID u) r l y \<and> (\<forall>w. z = Some w \<longrightarrow> ul_BilledNanousd w = ul_BilledNanousd l)"
    "res = Inl e \<Longrightarrow> y = x" "res = Inr (Some w) \<Longrightarrow> ul_ID w \<noteq> ul_ID u \<Longrightarrow> y = x"
    "res = Inr z \<Longrightarrow> z \<noteq> None"
proof -
  have lim: "in_int64 (ur_PeriodLimitNanousd r)" and dom: "ul_UserID u \<in> dom (db_accounts x)" using assms(1,3) by (simp_all add: paid_call_def)
  note o = record_outcome [OF assms(1,5)]
  show "billing_inv y" using o assms(2) settlement_charges(1) [OF _ assms(2,4) lim] by blast
  show "res = Inr z \<Longrightarrow> \<exists>l. charged (ul_UserID u) r l y \<and> (\<forall>w. z = Some w \<longrightarrow> ul_BilledNanousd w = ul_BilledNanousd l)"
    using o settlement_charges(2) [OF _ assms(2,4) lim] by auto
  show "res = Inl e \<Longrightarrow> y = x" using o by auto
  show "res = Inr (Some w) \<Longrightarrow> ul_ID w \<noteq> ul_ID u \<Longrightarrow> y = x" using o settlement_reread [OF _ _ dom] by auto
  show "res = Inr z \<Longrightarrow> z \<noteq> None" using o settlement_some by blast
qed

text \<open>An attempt on the table \<open>x\<close>: what the answer of the table was, and what of it the caller and the tables see.\<close>

lemma record_attempt_cases:
  assumes "record_attempt authorization k s = (err, s')" and x: "x = at_others k (cw_db (snd s))"
  obtains (refused) e where "RecordUsageWithAuthorization (at_service k) (Some (fst s)) authorization x = (Inl e, cw_db (snd s'))"
      "err \<noteq> []" "fst s' = fst s"
  | (answered) z where "RecordUsageWithAuthorization (at_service k) (Some (fst s)) authorization x = (Inr z, cw_db (snd s'))"
      "err = []" "fst s' = (case z of None \<Rightarrow> fst s | Some l \<Rightarrow> l)"
  | (lost) z where "RecordUsageWithAuthorization (at_service k) (Some (fst s)) authorization x = (Inr z, cw_db (snd s'))" "err \<noteq> []"
  | (rolled_back) z y where "RecordUsageWithAuthorization (at_service k) (Some (fst s)) authorization x = (Inr z, y)" "err \<noteq> []"
      "cw_db (snd s') = x" "fst s' = left_record (fst s) (Some z)"
proof -
  obtain z w' where q: "run_attempt k (\<lambda>b. on_db (RecordUsageWithAuthorization b (Some (fst s)) authorization)) (snd s) = (err, z, w')"
    and s': "s' = (if err = [] then (case z of Some (Some l) \<Rightarrow> l | _ \<Rightarrow> fst s) else left_record (fst s) z, w')"
    using assms(1) by (auto simp: record_attempt_def split: prod.splits)
  show ?thesis
    using q
  proof (cases rule: run_attempt_cases)
    case (refused e)
    then show ?thesis using that(1) s' x by (auto simp: on_db_eq left_record_def)
  next
    case (answered y)
    then show ?thesis using that(2) s' x by (auto simp: on_db_eq split: option.splits)
  next
    case (lost y e)
    then show ?thesis using that(3) s' x by (auto simp: on_db_eq)
  next
    case (rolled_back y e w1)
    then show ?thesis using that(4) s' x by (auto simp: on_db_eq)
  qed
qed

text \<open>One attempt, from either place.\<close>

lemma first_attempt:
  assumes at: "record_attempt (Some a) (attempts k) s = (err, s')" and k: "k < 3" and place: "not_yet R u db s"
    and R: "others_run env R attempts" and inv: "billing_inv db" and paid: "paid_call a r db" and u: "ul_UserID u = ur_UserID r" "ul_ID u = 0"
    and b: "in_int64 (ul_BilledNanousd u)"
  shows "(not_yet R u db s' \<or> charged_once R attempts u a r db s') \<and>
    (err = [] \<longrightarrow> charged_once R attempts u a r db s' \<and> (\<exists>l. charged (ul_UserID u) r l (cw_db (snd s')) \<and> ul_BilledNanousd (fst s') = ul_BilledNanousd l))"
proof -
  define x where "x = at_others (attempts k) (cw_db (snd s))"
  have s: "fst s = u" "R\<^sup>*\<^sup>* db (cw_db (snd s))" using place by (simp_all add: not_yet_def)
  have rx: "R\<^sup>*\<^sup>* db x" using s(2) R by (auto simp: x_def others_run_def intro: rtranclp.rtrancl_into_rtrancl)
  note run = others_closure [OF R rx]
  note w = record_writes [OF paid_call_kept [OF paid inv run] run_kept(1) [OF run inv] u(1) b]
  have once: "charged_once R attempts u a r db t"
    if "charged (ul_UserID u) r l (cw_db (snd t))" "cw_db (snd t) = x \<or> cw_db (snd t) = record_by (attempts k) u a x" for t l
    using that rx k unfolding charged_once_def by blast
  show ?thesis
    using at x_def
  proof (cases rule: record_attempt_cases)
    case (refused e)
    then show ?thesis using w(3) [of "at_service (attempts k)"] s(1) rx by (auto simp: not_yet_def)
  next
    case (answered z)
    have q: "RecordUsageWithAuthorization (at_service (attempts k)) (Some u) (Some a) x = (Inr z, cw_db (snd s'))"
      using answered(1) s(1) by simp
    obtain l y where l: "charged (ul_UserID u) r l (cw_db (snd s'))" "z = Some y" "ul_BilledNanousd y = ul_BilledNanousd l"
      using w(2) [OF q refl] w(5) [OF q refl] by blast
    have "charged_once R attempts u a r db s'" by (rule once [OF l(1)]) (simp add: record_by_def q)
    then show ?thesis using l answered(3) by auto
  next
    case (lost z)
    have q: "RecordUsageWithAuthorization (at_service (attempts k)) (Some u) (Some a) x = (Inr z, cw_db (snd s'))"
      using lost(1) s(1) by simp
    obtain l where "charged (ul_UserID u) r l (cw_db (snd s'))" using w(2) [OF q refl] by blast
    then show ?thesis using once [of l s'] q lost(2) by (simp add: record_by_def)
  next
    case (rolled_back z y)
    have q: "RecordUsageWithAuthorization (at_service (attempts k)) (Some u) (Some a) x = (Inr z, y)" using rolled_back(1) s(1) by simp
    show ?thesis
    proof (cases "fst s' = u")
      case True
      then show ?thesis using rx rolled_back(2,3) by (simp add: not_yet_def)
    next
      case False
      then obtain l where "z = Some l" "ul_ID l \<noteq> 0" using rolled_back(4) s(1) by (auto simp: left_record_def split: option.splits if_splits)
      then have "y = x" using w(4) [OF q] u(2) by simp
      then obtain l' where "charged (ul_UserID u) r l' (cw_db (snd s'))" using w(2) [OF q refl] rolled_back(3) by blast
      then show ?thesis using once [of l' s'] rolled_back(2,3) by simp
    qed
  qed
qed

lemma later_attempt:
  assumes at: "record_attempt (Some a) (attempts k) s = (err, s')" and place: "charged_once R attempts u a r db s"
    and R: "others_run env R attempts" and inv: "billing_inv db" and paid: "paid_call a r db" and u: "ul_UserID u = ur_UserID r"
    and b: "in_int64 (ul_BilledNanousd u)"
  shows "charged_once R attempts u a r db s' \<and>
    (err = [] \<longrightarrow> (\<exists>l. charged (ul_UserID u) r l (cw_db (snd s')) \<and> ul_BilledNanousd (fst s') = ul_BilledNanousd l))"
proof -
  define x where "x = at_others (attempts k) (cw_db (snd s))"
  have good: "billing_inv (record_by (attempts j) u a y)" if "billing_run env db y" for y j
    using record_writes(1) [OF paid_call_kept [OF paid inv that] run_kept(1) [OF that inv] u b] unfolding record_by_def by (metis prod.collapse)
  obtain l where now: "charged (ul_UserID u) r l (cw_db (snd s))" "billing_inv (cw_db (snd s))"
    using charged_once_now [OF place R inv good] by blast
  have rx: "R (cw_db (snd s)) x" using R by (simp add: others_run_def x_def)
  then have run: "billing_run env (cw_db (snd s)) x" using R by (simp add: others_run_def)
  note c = record_charged [OF paid run_kept(2) [OF run now(2,1)] run_kept(1) [OF run now(2)] u [symmetric], of "at_service (attempts k)" "fst s"]
  have "cw_db (snd s') = x \<and> (err = [] \<longrightarrow> fst s' = l)"
    using at x_def
  proof (cases rule: record_attempt_cases)
    case (refused e)
    then show ?thesis using c(1) by auto
  next
    case (answered z)
    then show ?thesis using c(1,2) [OF answered(1)] by auto
  next
    case (lost z)
    then show ?thesis using c(1) by auto
  qed auto
  moreover have "charged (ul_UserID u) r l x" by (rule run_kept(2) [OF run now(2,1)])
  moreover have "charged_once R attempts u a r db s'" if "cw_db (snd s') = x"
  proof -
    have "R\<^sup>*\<^sup>* y (cw_db (snd s'))" if "R\<^sup>*\<^sup>* y (cw_db (snd s))" for y
      using that rx \<open>cw_db (snd s') = x\<close> by (auto intro: rtranclp.rtrancl_into_rtrancl)
    then show ?thesis using place unfolding charged_once_def by blast
  qed
  ultimately show ?thesis by auto
qed

lemma paid_record_place:
  assumes "recordUsageWithRetry attempts (Some a) (u, w) = (err, s')" and "paid_call a r (cw_db w)" and "billing_inv (cw_db w)"
    and "others_run env R attempts" and "ul_UserID u = ur_UserID r" and "ul_ID u = 0" and "in_int64 (ul_BilledNanousd u)"
  shows "(not_yet R u (cw_db w) s' \<or> charged_once R attempts u a r (cw_db w) s') \<and> (err = [] \<longrightarrow> charged_once R attempts u a r (cw_db w) s' \<and>
    (\<exists>l. charged (ul_UserID u) r l (cw_db (snd s')) \<and> ul_BilledNanousd (fst s') = ul_BilledNanousd l))"
proof -
  let ?P = "\<lambda>t. not_yet R u (cw_db w) t \<or> charged_once R attempts u a r (cw_db w) t"
  let ?Q = "\<lambda>t. charged_once R attempts u a r (cw_db w) t \<and>
    (\<exists>l. charged (ul_UserID u) r l (cw_db (snd t)) \<and> ul_BilledNanousd (fst t) = ul_BilledNanousd l)"
  have "retried attempts (record_attempt (Some a)) (u, w) = (err, s')"
    using assms(1,2) by (simp add: recordUsageWithRetry_def usageRecordIsIdempotent_def paid_call_def)
  moreover have "?P (u, w)" by (simp add: not_yet_def)
  moreover have "?P t' \<and> (e = [] \<longrightarrow> ?Q t')" if k: "k < 3" and t: "record_attempt (Some a) (attempts k) t = (e, t')" and "?P t" for k t e t'
    using \<open>?P t\<close>
  proof
    assume "not_yet R u (cw_db w) t"
    from first_attempt [OF t k this assms(4,3,2,5-7)] show ?thesis .
  next
    assume "charged_once R attempts u a r (cw_db w) t"
    from later_attempt [OF t this assms(4,3,2,5,7)] show ?thesis by blast
  qed
  ultimately show ?thesis by (rule retried_keeps)
qed

text \<open>@C:Usage_Guarantees.paid_call_recorded_once@
  A paid call is charged at most once. Its record is tried up to three times: the answer of a settlement that was committed
  may be lost, a commit may fail, and other operations run in between, with a changed billing mode. All in all the
  tables change as if others had acted, then at most one settlement of the call had been made, and then others again;
  and if no error is reported, the call is charged and the caller's entry has the amount of its ledger row.
\<close>

theorem paid_call_recorded_once:
  assumes "AuthorizeUsage s userID name ref db0 = (Inr a, db1)" and "ua_Reservation a = Some r" and "billing_inv db1"
    and "billing_run env db1 (cw_db w)" and "others_run env R attempts"
    and "ul_UserID u = userID" and "ul_ID u = 0" and "in_int64 (ul_BilledNanousd u)"
    and "recordUsageWithRetry attempts (Some a) (u, w) = (err, u', w')"
  shows "\<exists>x y. R\<^sup>*\<^sup>* (cw_db w) x \<and> (y = x \<or> (\<exists>k < 3. y = record_by (attempts k) u a x)) \<and> R\<^sup>*\<^sup>* y (cw_db w') \<and>
    (err = [] \<longrightarrow> (\<exists>l. charged userID r l (cw_db w') \<and> ul_BilledNanousd u' = ul_BilledNanousd l))"
proof -
  note paid = authorized_paid [OF assms(1-3)]
  have u: "ul_UserID u = ur_UserID r" using authorized_reservation(3) [OF assms(1,2)] assms(6) by simp
  note p = paid_record_place [OF assms(9) paid_call_kept [OF paid assms(3,4)] run_kept(1) [OF assms(4,3)] assms(5) u assms(7,8)]
  from p have "not_yet R u (cw_db w) (u', w') \<and> err \<noteq> [] \<or> charged_once R attempts u a r (cw_db w) (u', w')" by blast
  then obtain x y where "R\<^sup>*\<^sup>* (cw_db w) x" "y = x \<or> (\<exists>k < 3. y = record_by (attempts k) u a x)" "R\<^sup>*\<^sup>* y (cw_db w')"
    unfolding not_yet_def charged_once_def snd_conv by blast
  moreover have "err = [] \<longrightarrow> (\<exists>l. charged userID r l (cw_db w') \<and> ul_BilledNanousd u' = ul_BilledNanousd l)"
    using conjunct2 [OF p] assms(6) by simp
  ultimately show ?thesis by blast
qed

section \<open>A session is settled once\<close>

lemma finish_world:
  assumes "us_input v = us_input u" and "us_authorization v = us_authorization u" and "us_finished v = us_finished u"
  shows "snd (snd (snd (Finish env v result w))) = snd (snd (snd (Finish env u result w)))"
  using assms by (auto simp: Finish_def Let_def settle_session_def split: option.splits prod.splits)

lemma finish_session:
  "Finish env u result w = (err, u', result', w') \<Longrightarrow> us_input u' = us_input u \<and> us_authorization u' = us_authorization u \<and> us_finished u' \<and>
     (us_finished u \<longrightarrow> u' = u \<and> w' = w \<and> err = []) \<and> (\<not> us_finished u \<longrightarrow> \<not> us_renewing u')"
  by (auto simp: Finish_def Let_def split: option.splits prod.splits if_splits)

text \<open>What can happen while a session is open: others act, and the timer renews the lease.\<close>

definition open_step ::
  "('f, 'j) billing_service set \<Rightarrow> (call_world \<Rightarrow> call_world \<Rightarrow> bool) \<Rightarrow> usage_authorization option \<Rightarrow> call_world \<Rightarrow> call_world \<Rightarrow> bool" where
  "open_step services R authorization w w' \<longleftrightarrow>
     R w w' \<or> (\<exists>s \<in> services. w' = snd (on_db (RenewUsageAuthorization s authorization) w))"

text \<open>@C:Usage_Guarantees.session_settles_once@
  A session is settled once. However often and in whatever order handlers call \<open>Finish\<close> and \<open>Close\<close> and the timer
  fires, and whatever others do in between: up to the first \<open>Finish\<close> the session only renews its lease, that
  \<open>Finish\<close> settles or releases the call, and afterwards the session changes nothing, renewals included.
\<close>

theorem session_settles_once:
  assumes "BeginUsageSession billing s0 inp db = (Inr u0, db0)"
    and "(\<lambda>x y. session_step services envs x y \<or> (fst y = fst x \<and> R (snd x) (snd y)))\<^sup>*\<^sup>* (u0, w0) (u, w)"
  shows "if us_finished u
    then \<exists>w1 env result. env \<in> envs \<and> (open_step services R (us_authorization u0))\<^sup>*\<^sup>* w0 w1 \<and>
      R\<^sup>*\<^sup>* (snd (snd (snd (Finish env u0 result w1)))) w
    else (open_step services R (us_authorization u0))\<^sup>*\<^sup>* w0 w"
proof -
  let ?open = "(open_step services R (us_authorization u0))\<^sup>*\<^sup>* w0"
  let ?closed = "\<lambda>w. \<exists>w1 env result. env \<in> envs \<and> ?open w1 \<and> R\<^sup>*\<^sup>* (snd (snd (snd (Finish env u0 result w1)))) w"
  let ?I = "\<lambda>v w. us_input v = us_input u0 \<and> us_authorization v = us_authorization u0 \<and>
    (if us_finished v then \<not> us_renewing v \<and> ?closed w else ?open w)"
  have u0: "\<not> us_finished u0"
  proof -
    obtain x y where "AuthorizeSendMessageUsage billing s0 inp db = (x, y)" by (metis surj_pair)
    then show ?thesis using assms(1) by (cases x) (auto simp: BeginUsageSession_def)
  qed
  have "?I (fst (u, w)) (snd (u, w))"
    using assms(2)
  proof (induction rule: rtranclp_induct)
    case base
    then show ?case using u0 by simp
  next
    case (step x y)
    consider (others) "fst y = fst x" "R (snd x) (snd y)" | (own) "session_step services envs x y" using step(2) by blast
    then show ?case
    proof cases
      case others
      have "?closed (snd x) \<Longrightarrow> ?closed (snd y)" using others(2) by (meson rtranclp.rtrancl_into_rtrancl)
      moreover have "?open (snd x) \<Longrightarrow> ?open (snd y)" using others(2) by (auto simp: open_step_def intro: rtranclp.rtrancl_into_rtrancl)
      ultimately show ?thesis using step.IH others(1) by (simp split: if_split_asm)
    next
      case own
      then show ?thesis
      proof (cases rule: session_step.cases)
        case (renew v s w1)
        have "open_step services R (us_authorization u0) w1 (snd y)" if "us_authorization v = us_authorization u0"
          using renew that by (auto simp: open_step_def)
        then show ?thesis using step.IH renew by (auto split: if_split_asm intro: rtranclp.rtrancl_into_rtrancl)
      next
        case (finish env v result w1 err v' result' w2)
        note f = finish_session [OF finish(4)]
        show ?thesis
        proof (cases "us_finished v")
          case True
          then show ?thesis using f finish step.IH by simp
        next
          case False
          have "us_input v = us_input u0" "us_authorization v = us_authorization u0" "?open w1" using step.IH finish False by simp_all
          moreover have "w2 = snd (snd (snd (Finish env u0 result w1)))"
            using finish_world [of v u0 env result w1] finish(4) calculation(1,2) False u0 by simp
          ultimately show ?thesis using f finish False by auto
        qed
      next
        case (close v w1)
        then show ?thesis using step.IH by (auto simp: Close_def split: if_split_asm)
      qed
    qed
  qed
  then show ?thesis by auto
qed

section \<open>What Finish leaves\<close>

text \<open>No operation of a settlement releases a reservation.\<close>

definition no_release :: "billing_db \<Rightarrow> billing_db \<Rightarrow> bool" where
  "no_release x y \<longleftrightarrow> (\<forall>r \<in> set (db_reservations y). ur_Status r = ''released'' \<longrightarrow>
     (\<exists>r' \<in> set (db_reservations x). ur_ID r' = ur_ID r \<and> ur_Status r' = ''released''))"

lemma no_release_same: "db_reservations y = db_reservations x \<Longrightarrow> no_release x y"
  by (auto simp: no_release_def)

lemma no_release_trans: "no_release x y \<Longrightarrow> no_release y z \<Longrightarrow> no_release x z"
  unfolding no_release_def by metis

lemma no_release_update:
  assumes "\<And>r. ur_Status (f r) \<noteq> ''released'' \<and> ur_ID (f r) = ur_ID r"
  shows "no_release x (update_reservations c f x)"
  using assms by (auto simp: no_release_def update_reservations_def)

lemma no_release_post:
  assumes "post_usage t account l amount b row res d db = Inr (y, db')"
  shows "no_release db db'"
proof -
  obtain n db1 db2 where p: "insert_ledger (toModelUsageLedger l) db = Inr (n, db1)" "db_reservations db2 = db_reservations db"
    "db' = settleUsageReservation t row n db2"
    using assms by (auto simp: post_usage_def split: sum.splits dest!: debit_rows other_rows(1))
  have "no_release db2 db'"
    unfolding p(3) settleUsageReservation_def
    by (auto intro: no_release_same no_release_update split: option.split)
  then show ?thesis using p(2) by (simp add: no_release_def)
qed

lemma settlement_releases_nothing:
  assumes "paid_settlement s v r db = (Inr x, db')"
  shows "no_release db db'"
  using assms
proof (cases rule: settlement_body)
  case usage
  then show ?thesis
  proof (cases rule: settle_usage_cases)
    case (replay account row settled l)
    then show ?thesis using account_rows no_release_same by blast
  next
    case (fresh account db1 row)
    then show ?thesis
      using no_release_trans [OF no_release_same [OF account_rows [OF fresh(1)]] no_release_post] by blast
  qed
next
  case period
  then show ?thesis
  proof (cases rule: settle_period_cases)
    case (replay account row settled l)
    then show ?thesis using account_rows no_release_same by blast
  next
    case (fresh account db1 row used held json)
    then show ?thesis
      using no_release_trans [OF no_release_same [OF account_rows [OF fresh(1)]] no_release_post] by blast
  qed
qed

lemma record_releases_nothing: "paid_call a r db0 \<Longrightarrow> no_release x (record_by k v a x)"
proof -
  assume p: "paid_call a r db0"
  obtain res y where q: "RecordUsageWithAuthorization (at_service k) (Some v) (Some a) x = (res, y)" by (metis surj_pair)
  show ?thesis using record_outcome [OF p q] settlement_releases_nothing no_release_same q unfolding record_by_def by fastforce
qed

lemma mark_releases_nothing: "no_release x (snd (MarkUsageAuthorizationForReconciliation s authorization code x))"
proof -
  have "no_release x y" if "update_where c f x = Inr ((), y)" "\<And>r. ur_Status (f r) \<noteq> ''released'' \<and> ur_ID (f r) = ur_ID r" for c f y
    using that no_release_update by (auto simp: update_where_def split: if_splits)
  then show ?thesis
    by (auto simp: MarkUsageAuthorizationForReconciliation_def with_reservation_def MarkUsageReservationReconciliationRequired_def
      Let_def transaction_def no_release_same split: option.split sum.split)
qed

text \<open>The reservation of a call still stands: it was not released.\<close>

definition unreleased :: "usage_reservation \<Rightarrow> billing_db \<Rightarrow> bool" where
  "unreleased r db \<longleftrightarrow> (\<forall>x \<in> set (db_reservations db). ur_ID x = ur_ID r \<longrightarrow> ur_Status x \<noteq> ''released'')"

lemma unreleased_kept: "unreleased r x \<Longrightarrow> no_release x y \<Longrightarrow> unreleased r y"
  unfolding unreleased_def no_release_def by metis

text \<open>Every attempt of the writes of a run lets the rest of the system act by \<open>R\<close>.\<close>

definition others_in_run :: "'j billing_env \<Rightarrow> (billing_db \<Rightarrow> billing_db \<Rightarrow> bool) \<Rightarrow> ('f, 'j) run_env \<Rightarrow> bool" where
  "others_in_run env R e \<longleftrightarrow> others_run env R (en_build e) \<and> others_run env R (en_record e) \<and> others_run env R (en_update e) \<and>
     others_run env R (en_mark e)"

lemma build_attempt_db:
  fixes k :: "('f, 'j) attempt"
  assumes "build_attempt lib inp authorization k s = (err, s')"
  shows "snd s' = (snd s)\<lparr>cw_db := at_others k (cw_db (snd s))\<rparr>"
    and "err = [] \<Longrightarrow> bi_Result inp = Some res \<Longrightarrow> \<exists>l (env :: 'f ledger_env). fst s' = Some l \<and> BuildUsageLedger env (usage_pricing_input lib inp res authorization) = Inr l"
proof -
  obtain x w' where q: "run_attempt k (\<lambda>b w. (buildSendMessageUsageLedger lib inp authorization b (cw_db w), w)) (snd s) = (err, x, w')"
    and s': "s' = (if err = [] then Option.bind x id else None, w')"
    using assms by (auto simp: build_attempt_def split: prod.splits)
  show "snd s' = (snd s)\<lparr>cw_db := at_others k (cw_db (snd s))\<rparr>"
    using q by (cases rule: run_attempt_cases) (auto simp: s')
  show "err = [] \<Longrightarrow> bi_Result inp = Some res \<Longrightarrow> \<exists>l (env :: 'f ledger_env). fst s' = Some l \<and> BuildUsageLedger env (usage_pricing_input lib inp res authorization) = Inr l"
    using q
  proof (cases rule: run_attempt_cases)
    case (answered y)
    assume "err = []" "bi_Result inp = Some res"
    then obtain l where "BuildUsageLedger ((bs_env (at_service k))\<lparr>le_db := at_others k (cw_db (snd s))\<rparr>) (usage_pricing_input lib inp res authorization) = Inr l"
      "y = Some l"
      using answered by (auto simp: buildSendMessageUsageLedger_def map_sum_def split: sum.splits)
    then show ?thesis using answered s' by auto
  qed auto
qed

lemma built_entry:
  assumes "BuildUsageLedger env (usage_pricing_input lib inp res authorization) = Inr l"
  shows "ul_UserID l = bi_UserID inp" "ul_ID l = 0" "in_int64 (ul_BilledNanousd l)"
proof -
  obtain c t b sv where "l = ledger_entry env (usage_pricing_input lib inp res authorization) c t b sv"
    using assms by (auto simp: BuildUsageLedger_def and_then_Inr)
  then show "ul_UserID l = bi_UserID inp" "ul_ID l = 0" "in_int64 (ul_BilledNanousd l)"
    by (simp_all add: ledger_entry_def usage_pricing_input_def Let_def billed_split add64_def wrap64_range)
qed

lemma update_attempt_world:
  assumes "update_attempt i l k w = (err, w')"
  shows "cw_db w' = at_others k (cw_db w)" "(\<exists>m. cw_messages w i = Some m) \<longleftrightarrow> (\<exists>m. cw_messages w' i = Some m)"
    "err = [] \<Longrightarrow> i \<noteq> 0 \<Longrightarrow> cw_messages w i \<noteq> None \<Longrightarrow>
       cw_messages w' i = Some (ud_BilledCurrency (ul_Details l), clampNonNegative (ul_BilledNanousd l), ul_PricingSnapshotJSON l)"
proof -
  obtain x where q: "run_attempt k (\<lambda>b. UpdateMessageBilling (bs_write_fault b) i (Some l)) w = (err, x, w')"
    using assms by (auto simp: update_attempt_def split: prod.splits)
  show "cw_db w' = at_others k (cw_db w)" "(\<exists>m. cw_messages w i = Some m) \<longleftrightarrow> (\<exists>m. cw_messages w' i = Some m)"
    using q by (cases rule: run_attempt_cases; auto simp: UpdateMessageBilling_def split: if_splits option.splits)+
  show "err = [] \<Longrightarrow> i \<noteq> 0 \<Longrightarrow> cw_messages w i \<noteq> None \<Longrightarrow>
       cw_messages w' i = Some (ud_BilledCurrency (ul_Details l), clampNonNegative (ul_BilledNanousd l), ul_PricingSnapshotJSON l)"
    using q by (cases rule: run_attempt_cases) (auto simp: UpdateMessageBilling_def split: if_splits option.splits)
qed

lemma record_messages: "recordUsageWithRetry attempts authorization s = (err, s') \<Longrightarrow> cw_messages (snd s') = cw_messages (snd s)"
proof -
  have one: "cw_messages (snd t') = cw_messages (snd t)" if at: "record_attempt authorization k t = (e, t')" for k t e t'
  proof -
    obtain x where "run_attempt k (\<lambda>b. on_db (RecordUsageWithAuthorization b (Some (fst t)) authorization)) (snd t) = (e, x, snd t')"
      using at by (auto simp: record_attempt_def split: prod.splits)
    then show ?thesis by (cases rule: run_attempt_cases) (auto simp: on_db_eq)
  qed
  assume r: "recordUsageWithRetry attempts authorization s = (err, s')"
  have "cw_messages (snd s') = cw_messages (snd s)" if "retried attempts (record_attempt authorization) s = (err, s')"
  proof -
    have "cw_messages (snd s') = cw_messages (snd s) \<and> (err = [] \<longrightarrow> True)"
      by (rule retried_keeps [OF that]) (simp_all add: one)
    then show ?thesis by simp
  qed
  moreover have "cw_messages (snd s') = cw_messages (snd s)" if "record_attempt authorization (attempts 0) s = (err, s')"
    by (rule one [OF that])
  ultimately show "cw_messages (snd s') = cw_messages (snd s)"
    using r unfolding recordUsageWithRetry_def by (simp split: if_split_asm)
qed

section \<open>What is recorded, what is held back\<close>

text \<open>What the settling part of a run keeps: the tables are sound, the call is as it was, its reservation is not released.\<close>

definition stands :: "usage_authorization \<Rightarrow> usage_reservation \<Rightarrow> billing_db \<Rightarrow> bool" where
  "stands a r db \<longleftrightarrow> billing_inv db \<and> paid_call a r db \<and> unreleased r db"

definition keeps_hold :: "usage_reservation \<Rightarrow> (billing_db \<Rightarrow> billing_db \<Rightarrow> bool) \<Rightarrow> bool" where
  "keeps_hold r R \<longleftrightarrow> (\<forall>x y. R x y \<longrightarrow> unreleased r x \<longrightarrow> unreleased r y)"

lemma others_stand: "others_run env R attempts \<Longrightarrow> keeps_hold r R \<Longrightarrow> stands a r x \<Longrightarrow> R x y \<Longrightarrow> stands a r y"
  using run_kept(1) paid_call_kept unfolding stands_def others_run_def keeps_hold_def by blast

lemma closure_stands: "R\<^sup>*\<^sup>* x y \<Longrightarrow> others_run env R attempts \<Longrightarrow> keeps_hold r R \<Longrightarrow> stands a r x \<Longrightarrow> stands a r y"
  by (induction rule: rtranclp_induct) (auto intro: others_stand)

lemma attempt_stands: "others_run env R attempts \<Longrightarrow> keeps_hold r R \<Longrightarrow> stands a r x \<Longrightarrow> stands a r (at_others (attempts k) x)"
  using others_stand unfolding others_run_def by blast

lemma attempt_charged: "others_run env R attempts \<Longrightarrow> billing_inv x \<Longrightarrow> charged u r l x \<Longrightarrow> charged u r l (at_others (attempts k) x)"
  using run_kept(2) unfolding others_run_def by blast

lemma place_stands:
  assumes "not_yet R u db s \<or> charged_once R attempts u a r db s" and "stands a r db" and "others_run env R attempts" and "keeps_hold r R"
    and "ul_UserID u = ur_UserID r" and "in_int64 (ul_BilledNanousd u)"
  shows "stands a r (cw_db (snd s))"
  using assms(1)
proof
  assume "not_yet R u db s"
  then show ?thesis using closure_stands assms(2-4) unfolding not_yet_def by blast
next
  assume "charged_once R attempts u a r db s"
  then obtain x y l where p: "R\<^sup>*\<^sup>* db x" "y = x \<or> (\<exists>k < 3. y = record_by (attempts k) u a x)" "R\<^sup>*\<^sup>* y (cw_db (snd s))"
    "charged (ul_UserID u) r l y" unfolding charged_once_def by blast
  have x: "stands a r x" using closure_stands [OF p(1) assms(3,4,2)] .
  have "stands a r (record_by k u a x)" if "charged (ul_UserID u) r l (record_by k u a x)" for k
  proof -
    have "billing_inv (record_by k u a x)"
      using x record_writes(1) [OF _ _ assms(5,6)] unfolding record_by_def stands_def by (metis prod.collapse)
    moreover have "unreleased r (record_by k u a x)"
      using x unreleased_kept record_releases_nothing unfolding stands_def by blast
    moreover have "paid_call a r (record_by k u a x)"
      using x that assms(5) by (simp add: stands_def paid_call_def recorded_def)
    ultimately show ?thesis by (simp add: stands_def)
  qed
  then have "stands a r y" using p(2,4) x by blast
  then show ?thesis using closure_stands [OF p(3) assms(3,4)] by blast
qed

lemma mark_stands:
  assumes "markUsageAuthorizationForReconciliation e (Some a) code cause w = (err, w')" and "others_run env R (en_mark e)"
    and "keeps_hold r R" and "stands a r (cw_db w)"
  shows "stands a r (cw_db w')" "cause \<noteq> [] \<Longrightarrow> err \<noteq> []"
proof -
  have one: "stands a r (cw_db t')" if "mark_attempt (Some a) code (en_mark e k) t = (x, t')" and t: "stands a r (cw_db t)" for k t x t'
  proof -
    let ?x = "at_others (en_mark e k) (cw_db t)"
    have x: "stands a r ?x" by (rule attempt_stands [OF assms(2,3) t])
    obtain y z v where q: "run_attempt (en_mark e k) (\<lambda>b. on_db (MarkUsageAuthorizationForReconciliation b (Some a) code)) t = (y, z, v)"
      by (metis surj_pair)
    have "v = t'" using that(1) by (simp add: mark_attempt_def q)
    with q have "cw_db t' = ?x \<or> cw_db t' = snd (MarkUsageAuthorizationForReconciliation (at_service (en_mark e k)) (Some a) code ?x)"
      by (cases rule: run_attempt_cases) (auto simp: on_db_eq)
    moreover have "stands a r (snd (MarkUsageAuthorizationForReconciliation s (Some a) code ?x))" for s
    proof -
      have g: "good_step ?x (snd (MarkUsageAuthorizationForReconciliation s (Some a) code ?x))"
        using x mark_step good_step_refl
        by (auto simp: MarkUsageAuthorizationForReconciliation_def with_reservation_def stands_def split: option.split)
      have "unreleased r (snd (MarkUsageAuthorizationForReconciliation s (Some a) code ?x))"
        by (rule unreleased_kept [OF _ mark_releases_nothing]) (use x in \<open>simp add: stands_def\<close>)
      moreover have "paid_call a r (snd (MarkUsageAuthorizationForReconciliation s (Some a) code ?x))"
        using x g unfolding stands_def good_step_def history_def paid_call_def by blast
      ultimately show ?thesis using g by (simp add: stands_def good_step_def)
    qed
    ultimately show ?thesis using x by auto
  qed
  have "stands a r (cw_db w') \<and> (cause \<noteq> [] \<longrightarrow> err \<noteq> [])"
  proof (cases "\<not> en_billing e \<or> ua_Reservation a = None")
    case True
    then show ?thesis using assms(1,4) by (auto simp: markUsageAuthorizationForReconciliation_def)
  next
    case False
    then obtain x where x: "retried (en_mark e) (mark_attempt (Some a) code) w = (x, w')" "err = cause @ x"
      using assms(1) by (auto simp: markUsageAuthorizationForReconciliation_def split: prod.splits)
    have "stands a r (cw_db w') \<and> (x = [] \<longrightarrow> True)"
      by (rule retried_keeps [OF x(1), of "\<lambda>t. stands a r (cw_db t)"]) (use one assms(4) in auto)
    then show ?thesis using x(2) by simp
  qed
  then show "stands a r (cw_db w')" "cause \<noteq> [] \<Longrightarrow> err \<noteq> []" by simp_all
qed

text \<open>The message shows the amount, if it is there.\<close>

definition shown :: "call_world \<Rightarrow> nat \<Rightarrow> int \<Rightarrow> call_world \<Rightarrow> bool" where
  "shown w i n w' \<longleftrightarrow> (i \<noteq> 0 \<longrightarrow> cw_messages w i \<noteq> None \<longrightarrow> (\<exists>c p. cw_messages w' i = Some (c, clampNonNegative n, p)))"

lemma update_stands:
  assumes "retried attempts (update_attempt i l) w = (err, w')" and "others_run env R attempts" and "keeps_hold r R"
    and "stands a r (cw_db w)" and "charged u r l' (cw_db w)"
  shows "stands a r (cw_db w')" "charged u r l' (cw_db w')" "err = [] \<Longrightarrow> shown w i (ul_BilledNanousd l) w'"
proof -
  let ?P = "\<lambda>t. stands a r (cw_db t) \<and> charged u r l' (cw_db t) \<and> ((\<exists>m. cw_messages w i = Some m) \<longleftrightarrow> (\<exists>m. cw_messages t i = Some m))"
  have step: "?P t' \<and> (e = [] \<longrightarrow> shown w i (ul_BilledNanousd l) t')" if at: "update_attempt i l (attempts k) t = (e, t')" and t: "?P t" for k t e t'
  proof -
    note w = update_attempt_world [OF at]
    have "stands a r (cw_db t')" unfolding w(1) by (rule attempt_stands [OF assms(2,3)]) (use t in simp)
    moreover have "charged u r l' (cw_db t')" unfolding w(1) by (rule attempt_charged [OF assms(2)]) (use t in \<open>simp_all add: stands_def\<close>)
    moreover have "(\<exists>m. cw_messages w i = Some m) \<longleftrightarrow> (\<exists>m. cw_messages t' i = Some m)" using w(2) t by blast
    moreover have "e = [] \<longrightarrow> shown w i (ul_BilledNanousd l) t'" using w(3) t by (auto simp: shown_def)
    ultimately show ?thesis by blast
  qed
  have "?P w' \<and> (err = [] \<longrightarrow> shown w i (ul_BilledNanousd l) w')"
    by (rule retried_keeps [OF assms(1)]) (use step assms(4,5) in blast)+
  then show "stands a r (cw_db w')" "charged u r l' (cw_db w')" "err = [] \<Longrightarrow> shown w i (ul_BilledNanousd l) w'" by simp_all
qed

lemma build_stands:
  fixes attempts :: "nat \<Rightarrow> ('f, 'j) attempt"
  assumes "retried attempts (build_attempt lib inp authorization) (None, w) = (err, s')" and "others_run env R attempts"
    and "keeps_hold r R" and "stands a r (cw_db w)" and "bi_Result inp = Some res"
  shows "stands a r (cw_db (snd s'))" "cw_messages (snd s') = cw_messages w"
    "err = [] \<Longrightarrow> \<exists>l. fst s' = Some l \<and> ul_UserID l = bi_UserID inp \<and> ul_ID l = 0 \<and> in_int64 (ul_BilledNanousd l)"
proof -
  let ?P = "\<lambda>t :: usage_ledger option \<times> call_world. stands a r (cw_db (snd t)) \<and> cw_messages (snd t) = cw_messages w"
  let ?Q = "\<lambda>t :: usage_ledger option \<times> call_world. \<exists>l. fst t = Some l \<and> ul_UserID l = bi_UserID inp \<and> ul_ID l = 0 \<and> in_int64 (ul_BilledNanousd l)"
  have step: "?P t' \<and> (e = [] \<longrightarrow> ?Q t')" if at: "build_attempt lib inp authorization (attempts k) t = (e, t')" and t: "?P t" for k t e t'
  proof -
    have "stands a r (cw_db (snd t'))" "cw_messages (snd t') = cw_messages w"
      unfolding build_attempt_db(1) [OF at] using t attempt_stands [OF assms(2,3), of a "cw_db (snd t)" k] by simp_all
    moreover have "e = [] \<longrightarrow> ?Q t'" using build_attempt_db(2) [OF at _ assms(5)] built_entry by blast
    ultimately show ?thesis by blast
  qed
  have "?P s' \<and> (err = [] \<longrightarrow> ?Q s')"
    by (rule retried_keeps [OF assms(1)]) (use step assms(4) in \<open>simp, blast\<close>)
  then show "stands a r (cw_db (snd s'))" "cw_messages (snd s') = cw_messages w" "err = [] \<Longrightarrow> ?Q s'" by simp_all
qed

lemma failed_billing_stands:
  assumes "failed_billing e (Some a) code err r0 w = (err', usage, res', w')" and "err \<noteq> []" and "others_run env R (en_mark e)"
    and "keeps_hold r R" and "stands a r (cw_db w)"
  shows "stands a r (cw_db w')" "err' \<noteq> []"
proof -
  obtain r1 w1 where d: "discardPostBillingCompaction r0 w = (r1, w1)" by (metis surj_pair)
  then have "cw_db w1 = cw_db w" by (auto simp: discardPostBillingCompaction_def)
  moreover have "markUsageAuthorizationForReconciliation e (Some a) code err w1 = (err', w')"
    using assms(1) d by (simp add: failed_billing_def split: prod.splits)
  ultimately show "stands a r (cw_db w')" "err' \<noteq> []" using mark_stands assms(2-5) by metis+
qed

text \<open>The record of a billable run of a paid call.\<close>

lemma record_run_accounted:
  assumes "RecordSendMessageBilling e inp (Some a) w = (err, usage, res', w')" and "bi_Result inp = Some res" and "en_billing e"
    and "others_in_run env R e" and "keeps_hold r R" and "stands a r (cw_db w)" and "bi_UserID inp = ur_UserID r"
  shows "stands a r (cw_db w')" and "err = [] \<Longrightarrow> \<exists>l u. usage = Some u \<and> res' \<noteq> None \<and> charged (ur_UserID r) r l (cw_db w') \<and>
    ul_BilledNanousd u = ul_BilledNanousd l \<and> shown w (ms_ID (sr_AssistantMessage res)) (ul_BilledNanousd l) w'"
proof -
  note o = assms(4) [unfolded others_in_run_def]
  obtain err1 built w1 where b: "retried (en_build e) (build_attempt (en_lib e) inp (Some a)) (None, w) = (err1, built, w1)" by (metis surj_pair)
  note bs = build_stands [OF b conjunct1 [OF o] assms(5,6,2), simplified]
  have "stands a r (cw_db w') \<and> (err = [] \<longrightarrow> (\<exists>l u. usage = Some u \<and> res' \<noteq> None \<and> charged (ur_UserID r) r l (cw_db w') \<and>
    ul_BilledNanousd u = ul_BilledNanousd l \<and> shown w (ms_ID (sr_AssistantMessage res)) (ul_BilledNanousd l) w'))"
  proof (cases "err1 = []")
    case False
    then have "failed_billing e (Some a) ''build_usage_ledger_failed'' err1 res w1 = (err, usage, res', w')"
      using assms(1-3) b by (simp add: RecordSendMessageBilling_def)
    then show ?thesis using failed_billing_stands False o assms(5) bs(1) by metis
  next
    case True
    then obtain u where u: "built = Some u" "ul_UserID u = ur_UserID r" "ul_ID u = 0" "in_int64 (ul_BilledNanousd u)"
      using bs(3) assms(7) by auto
    obtain err2 u2 w2 where rec: "recordUsageWithRetry (en_record e) (Some a) (u, w1) = (err2, u2, w2)" by (metis surj_pair)
    have paid: "paid_call a r (cw_db w1)" "billing_inv (cw_db w1)" using bs(1) by (simp_all add: stands_def)
    note p = paid_record_place [OF rec paid _ u(2-4), of env R]
    have p2: "stands a r (cw_db w2)"
      using place_stands [OF _ bs(1) _ assms(5) u(2,4), where attempts = "en_record e" and s = "(u2, w2)" and env = env] p o by auto
    show ?thesis
    proof (cases "err2 = []")
      case False
      then have "failed_billing e (Some a) ''settle_usage_ledger_failed'' err2 res w2 = (err, usage, res', w')"
        using assms(1-3) b True u(1) rec by (simp add: RecordSendMessageBilling_def)
      then show ?thesis using failed_billing_stands False o assms(5) p2 by metis
    next
      case okay: True
      obtain l where l: "charged (ur_UserID r) r l (cw_db w2)" "ul_BilledNanousd u2 = ul_BilledNanousd l"
        using p o okay u(2) by auto
      obtain err3 w3 where up: "retried (en_update e) (update_attempt (ms_ID (sr_AssistantMessage res)) u2) w2 = (err3, w3)" by (metis surj_pair)
      note us = update_stands [OF up _ assms(5) p2 l(1), of env]
      have m: "cw_messages w2 = cw_messages w" using record_messages [OF rec] bs(2) by simp
      show ?thesis
      proof (cases "err3 = []")
        case False
        then have "cw_db w' = cw_db w3 \<and> err = err3"
          using assms(1-3) b True u(1) rec okay up by (auto simp: RecordSendMessageBilling_def discardPostBillingCompaction_def split: if_splits)
        then show ?thesis using us(1) o False by simp
      next
        case shown_ok: True
        then have "err = [] \<and> usage = Some u2 \<and> res' \<noteq> None \<and> cw_db w' = cw_db w3 \<and> cw_messages w' = cw_messages w3"
          using assms(1-3) b True u(1) rec okay up by (auto simp: RecordSendMessageBilling_def runPostBillingTasks_def)
        then show ?thesis using us o shown_ok l m by (auto simp: shown_def)
      qed
    qed
  qed
  then show "stands a r (cw_db w')" and "err = [] \<Longrightarrow> \<exists>l u. usage = Some u \<and> res' \<noteq> None \<and> charged (ur_UserID r) r l (cw_db w') \<and>
    ul_BilledNanousd u = ul_BilledNanousd l \<and> shown w (ms_ID (sr_AssistantMessage res)) (ul_BilledNanousd l) w'" by blast+
qed

text \<open>@C:Usage_Guarantees.billable_call_accounted@
  No billable run of a paid call goes astray. Whatever happened since the call was authorized, and whatever answers get
  lost and commits fail while \<open>Finish\<close> records it: if \<open>Finish\<close> reports no error, a ledger row charges the reservation of
  the call, the result carries the amount of that row, and so does the stored message if it is there. If it reports an
  error, then \<open>Finish\<close> still has not released the budget, so that the call stays billable.
\<close>

theorem billable_call_accounted:
  assumes "AuthorizeUsage s userID name ref db0 = (Inr a, db1)" and "ua_Reservation a = Some r" and "billing_inv db1"
    and "billing_run env db1 (cw_db w)" and "unreleased r (cw_db w)" and "others_in_run env R e" and "keeps_hold r R"
    and "us_authorization u = Some a" and "bi_UserID (us_input u) = userID" and "\<not> us_finished u" and "sr_Billable res" and "en_billing e"
    and "Finish e u (Some res) w = (err, u', res', w')"
  shows "unreleased r (cw_db w') \<and> (err = [] \<longrightarrow> (\<exists>l m. charged userID r l (cw_db w') \<and> res' = Some m \<and>
    ms_BilledNanousd (sr_AssistantMessage m) = ul_BilledNanousd l \<and> shown w (ms_ID (sr_AssistantMessage res)) (ul_BilledNanousd l) w'))"
proof -
  let ?inp = "(us_input u)\<lparr>bi_Result := Some res\<rparr>"
  have user: "bi_UserID ?inp = ur_UserID r" using authorized_reservation(3) [OF assms(1,2)] assms(9) by simp
  have stands: "stands a r (cw_db w)"
    using paid_call_kept [OF authorized_paid [OF assms(1-3)] assms(3,4)] run_kept(1) [OF assms(4,3)] assms(5) by (simp add: stands_def)
  obtain err1 usage res1 w1 where rec: "RecordSendMessageBilling e ?inp (Some a) w = (err1, usage, res1, w1)" by (metis surj_pair)
  have f: "err = err1" "w' = w1" "res' = (if err1 \<noteq> [] then res1 else map_option (sr_AssistantMessage_update (\<lambda>m. ApplyUsageBilling m usage)) res1)"
    using assms(8,10,11,13) rec by (auto simp: Finish_def Let_def settle_session_def split: if_splits)
  note ra = record_run_accounted [OF rec _ assms(12,6,7) stands user, of res, simplified]
  have "ms_BilledNanousd (ApplyUsageBilling m (Some x)) = ul_BilledNanousd x" for m x by (simp add: ApplyUsageBilling_def)
  then have "\<exists>l m. charged userID r l (cw_db w') \<and> res' = Some m \<and> ms_BilledNanousd (sr_AssistantMessage m) = ul_BilledNanousd l \<and>
    shown w (ms_ID (sr_AssistantMessage res)) (ul_BilledNanousd l) w'" if "err = []"
    using ra(2) that f user assms(9) by fastforce
  moreover have "unreleased r (cw_db w')" using ra(1) f(2) by (simp add: stands_def)
  ultimately show ?thesis by blast
qed

section \<open>A run without a bill\<close>


section \<open>A sample run\<close>

text \<open>
  The call of the sample in \<open>Billing_Calls\<close>: the answer of the first write gets lost in every step of its billing, and
  the mode of the settings has changed since it was authorized.
\<close>

definition run_attempts :: "nat \<Rightarrow> (int, int) attempt" where
  "run_attempts k = \<lparr>at_service = call_service ''self'', at_others = id,
     at_fate = (if k = 0 then AnswerLost (OtherError ''timeout'') else Answered), at_canceled = False\<rparr>"

definition sample_run :: "(int, int) run_env" where
  "sample_run = \<lparr>en_lib = \<lparr>rl_fold = id, rl_sprint = (\<lambda>_. []), rl_attachments = (\<lambda>_. None), rl_float_int = (\<lambda>_ _. 0)\<rparr>, en_billing = True,
     en_build = run_attempts, en_record = run_attempts, en_update = run_attempts, en_mark = run_attempts, en_release = run_attempts 1\<rparr>"

definition sample_message :: "nat \<Rightarrow> Message" where
  "sample_message i = \<lparr>ms_ID = i, ms_RunID = ''r'', ms_Status = ''success'', ms_ContentType = ''text'', ms_SourceMessageID = None,
     ms_Attachments = [], ms_InputTokens = 1000, ms_OutputTokens = 1000, ms_CacheReadTokens = 0, ms_CacheWriteTokens = 0,
     ms_ReasoningTokens = 0, ms_LatencyMS = 5, ms_BilledCurrency = [], ms_BilledNanousd = 0, ms_PricingSnapshot = []\<rparr>"

definition sample_result :: SendMessageResult where
  "sample_result = \<lparr>sr_UserMessage = sample_message 1, sr_AssistantMessage = sample_message 2, sr_MetadataRefreshHint = ''pending'',
     sr_Billable = True, sr_UpstreamName = ''u'', sr_PlatformModelName = ''m'', sr_RoutedBindingCode = ''b'', sr_UpstreamModelName = ''m'',
     sr_UpstreamProtocol = ''openai_responses'', sr_EffectiveOptions = [], sr_UsageSpeed = [], sr_UsageServiceTier = [], sr_UsageSource = [],
     sr_RawUsageJSON = [], sr_CacheWrite5mTokens = 0, sr_CacheWrite1hTokens = 0, sr_ServerSideToolUsage = [], sr_MCPToolUsage = [],
     sr_LLMCallCount = 1, sr_LatencyMS = 5, sr_DurationSeconds = 0, sr_StartedAt = 900, sr_ModerationBlocked = False,
     sr_postBillingCompaction = None\<rparr>"

definition sample_input :: SendMessageBillingInput where
  "sample_input = \<lparr>bi_UserID = 1, bi_ConversationID = 7, bi_Conversation = Some ''m'', bi_PlatformModelName = ''m'', bi_ConversationModel = ''m'',
     bi_ClientRunID = ''r'', bi_Result = None\<rparr>"

definition sample_session :: UsageSession where
  "sample_session = \<lparr>us_input = sample_input, us_authorization = Some call_auth, us_renewing = True, us_finished = False\<rparr>"

definition sample_world :: call_world where
  "sample_world = \<lparr>cw_db = call_db2, cw_messages = [2 \<mapsto> ([], 0, [])], cw_tasks = []\<rparr>"

definition run_ledger :: usage_ledger where
  "run_ledger = \<lparr>ul_ID = 0, ul_UserID = 1, ul_RefNo = ''r'', ul_IsFreeModel = False, ul_BillingAt = 900, ul_BilledNanousd = 9000000,
     ul_BalanceAfterNanousd = None, ul_PricingSnapshotJSON = ''{}'',
     ul_Details = \<lparr>ud_ConversationID = 7, ud_ProviderProtocol = AdapterOpenAIResponses, ud_UpstreamName = ''u'', ud_PlatformModelName = ''m'',
       ud_RoutedBindingCode = ''b'', ud_UpstreamModelName = ''m'', ud_UsageDate = 0, ud_InputTokens = 1000, ud_CacheReadTokens = 0,
       ud_CacheWriteTokens = 0, ud_CacheWrite5mTokens = 0, ud_CacheWrite1hTokens = 0, ud_OutputTokens = 1000, ud_ReasoningTokens = 0,
       ud_CallCount = 1, ud_DurationSeconds = 0, ud_LatencyMS = 5, ud_UsageSpeed = [], ud_ServiceTier = ''default'',
       ud_BilledCurrency = ''USD''\<rparr>\<rparr>"

abbreviation sample_billed :: SendMessageBillingInput where
  "sample_billed \<equiv> sample_input\<lparr>bi_Result := Some sample_result\<rparr>"

lemma run_ledger_built: "BuildUsageLedger ((bs_env (call_service ''self''))\<lparr>le_db := call_db2\<rparr>)
    (usage_pricing_input (en_lib sample_run) sample_billed sample_result (Some call_auth)) = Inr run_ledger"
  by code_simp

lemma sample_others: "others_run (bs_codec (call_service ''usage''), encode, id) (=) run_attempts"
  by (simp add: others_run_def run_attempts_def)

lemma sample_built_run: "retried (en_build sample_run) (build_attempt (en_lib sample_run) sample_billed (Some call_auth)) (None, sample_world) =
    ([], Some run_ledger, sample_world)"
proof -
  have "buildSendMessageUsageLedger (en_lib sample_run) sample_billed (Some call_auth) (call_service ''self'') call_db2 = Inr (Some run_ledger)"
    using run_ledger_built by (simp add: buildSendMessageUsageLedger_def)
  then have at: "build_attempt (en_lib sample_run) sample_billed (Some call_auth) (run_attempts k) (x, sample_world) =
      (if k = 0 then ([OtherError ''timeout''], None, sample_world) else ([], Some run_ledger, sample_world))" for k x
    by (simp add: build_attempt_def run_attempt_def run_attempts_def sample_world_def)
  have "en_build sample_run = run_attempts" "isRetryableUsageBillingError [OtherError ''timeout'']"
    by (simp_all add: sample_run_def isRetryableUsageBillingError_def nonRetryable_def)
  then show ?thesis
    by (simp add: retried_def retryUsageBillingOperation_def usageBillingRetryAttempts_def at eval_nat_numeral) (simp add: run_attempts_def)
qed

lemma sample_recorded_run: "fst (recordUsageWithRetry run_attempts (Some call_auth) (run_ledger, sample_world)) = []"
  by code_simp

lemma sample_updated_run: "fst (retried run_attempts (update_attempt i l) w) = []"
proof -
  have at: "fst (update_attempt i l (run_attempts k) w) = (if k = 0 then [OtherError ''timeout''] else [])" for k w
    by (simp add: update_attempt_def run_attempt_def run_attempts_def UpdateMessageBilling_def call_service_def split: prod.split)
  obtain w1 where w1: "update_attempt i l (run_attempts 0) w = ([OtherError ''timeout''], w1)" using at by (metis prod.collapse)
  obtain w2 where w2: "update_attempt i l (run_attempts (Suc 0)) w1 = ([], w2)" using at by (metis nat.simps(3) prod.collapse)
  have "isRetryableUsageBillingError [OtherError ''timeout'']" "\<not> at_canceled (run_attempts 0)"
    by (simp_all add: isRetryableUsageBillingError_def nonRetryable_def run_attempts_def)
  then show ?thesis
    by (simp add: retried_def retryUsageBillingOperation_def usageBillingRetryAttempts_def eval_nat_numeral w1 w2)
qed

lemma sample_finish: "fst (Finish sample_run sample_session (Some sample_result) sample_world) = []"
proof -
  obtain l w where "recordUsageWithRetry run_attempts (Some call_auth) (run_ledger, sample_world) = ([], l, w)"
    using sample_recorded_run by (metis prod.collapse)
  moreover obtain w' where "retried run_attempts (update_attempt (ms_ID (sr_AssistantMessage sample_result)) l) w = ([], w')"
    using sample_updated_run by (metis prod.collapse)
  moreover have "en_billing sample_run" "en_record sample_run = run_attempts" "en_update sample_run = run_attempts"
    by (simp_all add: sample_run_def)
  ultimately have "fst (RecordSendMessageBilling sample_run sample_billed (Some call_auth) sample_world) = []"
    by (simp add: RecordSendMessageBilling_def sample_built_run runPostBillingTasks_def)
  moreover have "us_finished sample_session = False" "us_input sample_session = sample_input" "us_authorization sample_session = Some call_auth"
    "sr_Billable sample_result"
    by (simp_all add: sample_session_def sample_result_def)
  ultimately show ?thesis
    by (auto simp: Finish_def Let_def settle_session_def split: prod.split)
qed

theorem paid_call_recorded_once_witness:
  "\<exists>u' w'. recordUsageWithRetry run_attempts (Some call_auth) (call_usage, sample_world) = ([], u', w') \<and>
     (\<exists>k < 3. cw_db w' = record_by (run_attempts k) call_usage call_auth call_db2) \<and>
     (\<exists>l. charged 1 call_row l (cw_db w') \<and> ul_BilledNanousd u' = ul_BilledNanousd l)"
proof -
  obtain err u' w' where r: "recordUsageWithRetry run_attempts (Some call_auth) (call_usage, sample_world) = (err, u', w')" by (metis surj_pair)
  have db: "cw_db sample_world = call_db2" by (simp add: sample_world_def)
  have err: "fst (recordUsageWithRetry run_attempts (Some call_auth) (call_usage, sample_world)) = []"
    and new: "db_ledgers (cw_db (snd (snd (recordUsageWithRetry run_attempts (Some call_auth) (call_usage, sample_world))))) \<noteq> db_ledgers call_db2"
    and u: "ul_UserID call_usage = 1" "ul_ID call_usage = 0" "in_int64 (ul_BilledNanousd call_usage)"
    by code_simp+
  have run: "billing_run (bs_codec (call_service ''usage''), (\<lambda>_. None), id) call_db1 (cw_db sample_world)" using call_run db by simp
  have eq: "(=)\<^sup>*\<^sup>* = (=)" by (intro ext) (auto elim: rtranclp_induct)
  from paid_call_recorded_once [OF call_authorized call_reserved call_db1_ok run sample_others u r]
  show ?thesis using r err new db unfolding eq by auto
qed

lemma sample_begun: "BeginUsageSession True (call_service ''usage'') sample_input call_db0 = (Inr sample_session, call_db1)"
proof -
  have "sendMessageBillingPlatformModelName sample_input = ''m''" "trim_space (bi_ClientRunID sample_input) = ''r''" "bi_UserID sample_input = 1"
    by code_simp+
  then show ?thesis
    using call_authorized by (simp add: BeginUsageSession_def AuthorizeSendMessageUsage_def sample_session_def call_reserved)
qed

theorem session_settles_once_witness:
  "\<exists>u w w1 env result. session_step {call_service ''usage''} {sample_run} (sample_session, sample_world) (u, w) \<and> us_finished u \<and>
     env = sample_run \<and> (open_step {call_service ''usage''} (=) (Some call_auth))\<^sup>*\<^sup>* sample_world w1 \<and>
     w = snd (snd (snd (Finish env sample_session result w1)))"
proof -
  obtain err u r w where f: "Finish sample_run sample_session None sample_world = (err, u, r, w)" by (metis surj_pair)
  then have step: "session_step {call_service ''usage''} {sample_run} (sample_session, sample_world) (u, w)"
    by (intro session_step.finish [OF _ f]) simp
  have fin: "us_finished u" using finish_session [OF f] by blast
  have eq: "(=)\<^sup>*\<^sup>* = (=)" by (intro ext) (auto elim: rtranclp_induct)
  have "(\<lambda>x y. session_step {call_service ''usage''} {sample_run} x y \<or> (fst y = fst x \<and> snd x = snd y))\<^sup>*\<^sup>* (sample_session, sample_world) (u, w)"
    using step by blast
  from session_settles_once [OF sample_begun this] step fin show ?thesis
    unfolding eq by (auto simp: sample_session_def)
qed

theorem billable_call_accounted_witness:
  "\<exists>u' res' w'. Finish sample_run sample_session (Some sample_result) sample_world = ([], u', res', w') \<and> unreleased call_row (cw_db w') \<and>
     (\<exists>l m. charged 1 call_row l (cw_db w') \<and> res' = Some m \<and> ms_BilledNanousd (sr_AssistantMessage m) = ul_BilledNanousd l)"
proof -
  obtain err u' res' w' where f: "Finish sample_run sample_session (Some sample_result) sample_world = (err, u', res', w')" by (metis surj_pair)
  have db: "cw_db sample_world = call_db2" by (simp add: sample_world_def)
  have run: "billing_run (bs_codec (call_service ''usage''), (\<lambda>_. None), id) call_db1 (cw_db sample_world)" using call_run db by simp
  have free: "unreleased call_row (cw_db sample_world)" unfolding db by code_simp
  have others: "others_in_run (bs_codec (call_service ''usage''), (\<lambda>_. None), id) (=) sample_run"
    by (simp add: others_in_run_def sample_run_def sample_others)
  have "us_authorization sample_session = Some call_auth" "bi_UserID (us_input sample_session) = 1" "\<not> us_finished sample_session"
    "sr_Billable sample_result" "en_billing sample_run" "keeps_hold call_row (=)"
    by (simp_all add: sample_session_def sample_input_def sample_result_def sample_run_def keeps_hold_def)
  from billable_call_accounted [OF call_authorized call_reserved call_db1_ok run free others this(6,1-5) f]
  show ?thesis using f sample_finish by auto
qed


end
