(* ===== verification/Spec2Isabelle.thy ===== *)
theory Spec2Isabelle
  imports Keyed_Stores File_Queue Generation_Stream Route_Safety Route_Keys Usage_Guarantees
begin

text \<open>
  A verification library for the core of the DEEIX-Chat backend (Go, \<open>src/backend/internal\<close>).

  \<open>Parts and how they interact.\<close> A chat request is routed to an upstream of the requested model
  (\<open>application/channel\<close>), runs as a generation stream that clients can leave and rejoin, may wait for
  files that a queue of jobs prepares, and is paid for by the billing part. Routing, streams, queues, rate
  limits and login hand-overs keep their shared state in a cache (\<open>infra/cache/memory\<close>), billing keeps its
  state in database tables (\<open>infra/persistence/postgres/billing\<close>).

  \<open>Theories.\<close> Every definition that translates code has the name of the Go function or type, or a local
  name for a named part of it; the manifest gives the lines.

  - \<open>Go_Prelude\<close>: Go's 64-bit integers (\<open>wrap64\<close>, \<open>in_int64\<close>), division, times and durations as
    nanoseconds, strings as UTF-8 bytes with \<open>strings.TrimSpace\<close> and ASCII case, maps, the \<open>ledger\<close> locale.
  - \<open>Cache_State\<close>: the record of all fields of the in-process cache (\<open>cache.go\<close>) and its sweep
    (\<open>maintenance.go\<close>); one method is one step because the mutex is held throughout.
  - \<open>Circuit_Breaker\<close>, \<open>Rate_Limits\<close>: \<open>memory/channel.go\<close> and \<open>rate_limiter.go\<close>. Lemmas: what opens a
    circuit, that probes are exclusive, quotas and windows of the limiters, the backoff sequence.
  - \<open>Keyed_Stores\<close>: settings, RAG entries and the login hand-over stores, with the locale
    \<open>one_time_store\<close> interpreted on both stores.
  - \<open>File_Queue\<close>: \<open>file_queue.go\<close>; \<open>fq_step\<close> is the step relation of both queues. Lemmas: jobs are neither lost
    nor duplicated (\<open>ledger\<close> interpreted on the queue), leases and their fencing, waiting readers.
  - \<open>Generation_Stream\<close>: \<open>generation_stream.go\<close>. Lemmas: exclusive execution, gapless numbering, complete
    replay after a disconnect.
  - \<open>Route_Protocols\<close>: protocol, kind and vendor rules (\<open>adapter.go\<close>, \<open>model_catalog.go\<close>,
    \<open>service_view_normalization.go\<close>).
  - \<open>Channel_Routing\<close>, \<open>Route_Guarantees\<close>, \<open>Route_Safety\<close>, \<open>Route_Keys\<close>: \<open>service_routing.go\<close>, its use of the cache,
    and what a resolved route guarantees; \<open>probe_accounting\<close> and \<open>routing_relation\<close> state what the loops over
    candidates need, and are interpreted on the model's own state.
  - \<open>Billing_State\<close>: the billing tables as one record \<open>billing_db\<close>, transactions with rollback.
  - \<open>Billing_Reservations\<close>, \<open>Billing_Settlement\<close>: \<open>repository_reservation.go\<close> and the settlements of
    \<open>repository.go\<close>. Lemmas: budgets, what a settlement charges, and the step facts \<open>good_step\<close> of every operation.
  - \<open>Subscription_Timeline\<close>, \<open>Subscription_Grants\<close>: how a grant is placed among running subscriptions by rank,
    and how the result is written to the rows.
  - \<open>Billing_Payments\<close>: payment orders and redemption codes.
  - \<open>Billing_Plans\<close>: plans, prices, entitlements, settings and the price list of the models.
  - \<open>Billing_Rates\<close>, \<open>Billing_Schedule\<close>: what a number of tokens costs (\<open>billing/service.go\<close>), cache writes, price tiers,
    and the weekly schedule of rates (\<open>schedule_pricing.go\<close>).
  - \<open>Go_Calendar\<close>, \<open>Billing_Calendar\<close>: Go's calendar arithmetic in a location, and the billing cycles and usage charts
    of \<open>billing/service.go\<close> over it.
  - \<open>Billing_Entitlements\<close>: which subscription a user has, until when, and its views (\<open>billing/service.go\<close>);
    \<open>Text_Util\<close> holds the string helpers of \<open>pkg/textutil\<close>.
  - \<open>Billing_Ledger\<close>: the estimate of a call before it is made and the ledger entry afterwards, with the items of auxiliary
    models and tools and the price snapshot (\<open>billing/service.go\<close>). Lemmas: the estimate is the bill, what self-hosted
    and free calls cost, which calls are refused for want of a price.
  - \<open>Billing_Service\<close>, \<open>Billing_Orders\<close>: the operations of the billing service over the repository: authorization, budget
    and record of a call, subscriptions, orders, plans, accounts. \<open>service_step\<close> is their step relation.
  - \<open>Billing_Calls\<close>: the service refines the repository; what it promises for a call from its authorization to its
    settlement, and for an order from its creation to its delivery.
  - \<open>Go_Json\<close>, \<open>Native_Tools\<close>: decoded JSON values, and the catalogue, payloads and prices of provider tools
    (\<open>shared/nativetool/catalog.go\<close>).
  - \<open>Option_Policy\<close>: what of a user's request options reaches an upstream (\<open>conversation/model_option_policy.go\<close>):
    what is never sent, what the allowlist lets through, locked defaults, and the one way the filter panics.
  - \<open>Usage_Session\<close>: the billing of one model run (\<open>conversation/service_usage_session.go\<close>, \<open>service_billing.go\<close>): the
    session of a call, the ledger entry of its result, and every write with its retries. An \<open>attempt\<close> has the state of the
    environment: what others do before it, and whether its answer is lost or its commit fails.
  - \<open>Usage_Guarantees\<close>: a call is charged at most once and a session settled once, a billable run is charged or keeps its
    budget, a run without a bill only gives its budget back.
  - \<open>Billing_Audit\<close>: \<open>billing_step\<close>, one constructor per writing method of the billing repository, and what
    holds along every run: balanced books, idempotent settlements, orders paid once, counted redemptions. The
    locale \<open>run_invariant\<close> is interpreted once for each of these invariants.

  \<open>Database.\<close> A GORM transaction is one atomic step on \<open>billing_db\<close>: the code locks the rows it reads before
  an update, and an error rolls everything back. Every transaction takes an optional \<open>fault\<close>, an error of
  the database that can strike it. Ids come from one counter. Times that the code reads from the clock
  are arguments.

  \<open>Arguments of the model.\<close> What is not under \<open>src\<close> is an argument: JSON codecs, Unicode case tables,
  decryption, the random source of the weighted choice, URL validation. A location is the function from an instant
  to the offset and bounds of its zone, and \<open>midnights_ok\<close> is what the calendar relies on.

  \<open>Termination and fuel.\<close> No definition uses fuel; the retries of a write are bounded by the code itself. Loops that can wait for ever (\<open>read_loop\<close>,
  \<open>read_stream_loop\<close>) run over an explicit list of events; the loops that place subscription time terminate by
  a measure and a multiset order, the billing cycle and the charts are partial functions shown to return, and \<open>calculateBackoffSeconds\<close> by the attempt it counts down from.

  \<open>Not modelled.\<close> The Redis implementation of the cache interfaces (Lua scripts run by a server that is
  not under \<open>src\<close>); paged listings and statistics in SQL; HTTP transport and its generated documents; the
  clients of external services (LLM adapters, file extraction, payment gateways, OAuth); configuration and
  start-up; the conversation service but for its option policy and its billing, since it orchestrates those clients; the
  TypeScript frontend.
\<close>

end
